(* ===== verification/Py_Prelude.thy ===== *)
theory Py_Prelude
  imports Main "HOL-Library.Char_ord" "HOL-Library.List_Lexorder" "HOL-Library.Product_Lexorder"
begin

section \<open>Shared notions: Python strings, numerals, results\<close>

text \<open>
  What every component of the development uses of Python itself. A Python \<open>str\<close> is a
  HOL \<open>string\<close>: a list of 8-bit characters, read as the code points below 256, so every
  string operation below is the Python one on strings of that range (in particular
  \<open>\d\<close> of the \<open>re\<close> module is the ten ASCII digits there). Python's unbounded
  integers are \<open>int\<close> (\<open>nat\<close> for lengths and counts), a raised exception is the
  left part of a sum, and a dict is a map or an association list where its order matters.
\<close>

named_theorems py_simps \<open>rewrite rules for the string operations\<close>

subsection \<open>Results that may be an error\<close>

definition sum_bind :: "'e + 'a \<Rightarrow> ('a \<Rightarrow> 'e + 'b) \<Rightarrow> 'e + 'b" where
  "sum_bind r f = (case r of Inl e \<Rightarrow> Inl e | Inr x \<Rightarrow> f x)"

lemma sum_bind_simps [simp]:
  "sum_bind (Inl e) f = Inl e"
  "sum_bind (Inr x) f = f x"
  by (simp_all add: sum_bind_def)

lemma sum_bind_Inr_iff: "sum_bind r f = Inr y \<longleftrightarrow> (\<exists>x. r = Inr x \<and> f x = Inr y)"
  by (cases r) auto

lemma sum_bind_Inl_iff: "sum_bind r f = Inl e \<longleftrightarrow> r = Inl e \<or> (\<exists>x. r = Inr x \<and> f x = Inl e)"
  by (cases r) auto

lemma sum_bind_cong [fundef_cong]:
  "r = r' \<Longrightarrow> (\<And>x. r' = Inr x \<Longrightarrow> f x = g x) \<Longrightarrow> sum_bind r f = sum_bind r' g"
  by (cases r') auto

text \<open>A loop whose body may raise: the first error ends it.\<close>

fun sum_map :: "('a \<Rightarrow> 'e + 'b) \<Rightarrow> 'a list \<Rightarrow> 'e + 'b list" where
  "sum_map f [] = Inr []"
| "sum_map f (x # xs) = sum_bind (f x) (\<lambda>y. sum_bind (sum_map f xs) (\<lambda>ys. Inr (y # ys)))"

lemma sum_map_Inr_iff:
  "sum_map f xs = Inr ys \<longleftrightarrow> list_all2 (\<lambda>x y. f x = Inr y) xs ys"
  by (induction xs arbitrary: ys) (auto simp: sum_bind_Inr_iff list_all2_Cons1)

lemma sum_map_Inr_set:
  "sum_map f xs = Inr ys \<Longrightarrow> y \<in> set ys \<Longrightarrow> \<exists>x \<in> set xs. f x = Inr y"
  by (induction xs arbitrary: ys) (auto simp: sum_bind_Inr_iff)

subsection \<open>Characters\<close>

definition is_space :: "char \<Rightarrow> bool" where
  \<comment> \<open>\<open>str.isspace\<close> and \<open>\s\<close> below code point 256\<close>
  "is_space c = (let n = (of_char c :: nat) in
     9 \<le> n \<and> n \<le> 13 \<or> 28 \<le> n \<and> n \<le> 32 \<or> n = 133 \<or> n = 160)"

definition is_digit :: "char \<Rightarrow> bool" where
  "is_digit c = (c \<in> set ''0123456789'')"

definition is_alpha :: "char \<Rightarrow> bool" where
  "is_alpha c = (let n = (of_char c :: nat) in 65 \<le> n \<and> n \<le> 90 \<or> 97 \<le> n \<and> n \<le> 122)"

definition lower_char :: "char \<Rightarrow> char" where
  "lower_char c = (let n = (of_char c :: nat) in
     if 65 \<le> n \<and> n \<le> 90 \<or> 192 \<le> n \<and> n \<le> 222 \<and> n \<noteq> 215 then char_of (n + 32) else c)"

definition upper_char :: "char \<Rightarrow> char" where
  \<comment> \<open>\<open>str.upper\<close> on the ASCII letters\<close>
  "upper_char c = (let n = (of_char c :: nat) in
     if 97 \<le> n \<and> n \<le> 122 then char_of (n - 32) else c)"

definition py_lower :: "string \<Rightarrow> string" where
  "py_lower = map lower_char"

definition py_upper :: "string \<Rightarrow> string" where
  "py_upper = map upper_char"

lemma lower_char_idem [simp]: "lower_char (lower_char c) = lower_char c"
proof -
  have "(of_char (char_of (n + 32) :: char) :: nat) = n + 32" if "n \<le> 223" for n :: nat
    using that by simp
  then show ?thesis
    by (auto simp: lower_char_def Let_def)
qed

lemma py_lower_idem [simp]: "py_lower (py_lower s) = py_lower s"
  by (simp add: py_lower_def)

lemma length_py_lower [simp]: "length (py_lower s) = length s"
  by (simp add: py_lower_def)

lemma py_lower_append [simp]: "py_lower (s @ t) = py_lower s @ py_lower t"
  by (simp add: py_lower_def)

lemma py_lower_simps [simp]:
  "py_lower [] = []"
  "py_lower (c # s) = lower_char c # py_lower s"
  by (simp_all add: py_lower_def)

subsection \<open>Stripping, splitting, joining\<close>

definition py_lstrip :: "string \<Rightarrow> string" where
  "py_lstrip = dropWhile is_space"

definition py_rstrip :: "string \<Rightarrow> string" where
  "py_rstrip s = rev (dropWhile is_space (rev s))"

definition py_strip :: "string \<Rightarrow> string" where
  "py_strip s = py_rstrip (py_lstrip s)"

text \<open>\<open>s.split(sep)\<close> for a one-character separator: always at least one piece.\<close>

fun split_on :: "char \<Rightarrow> string \<Rightarrow> string list" where
  "split_on d [] = [[]]"
| "split_on d (c # s) =
     (if c = d then [] # split_on d s
      else (case split_on d s of [] \<Rightarrow> [[c]] | p # ps \<Rightarrow> (c # p) # ps))"

text \<open>\<open>s.split()\<close>: the maximal runs of non-whitespace characters.\<close>

function split_ws :: "string \<Rightarrow> string list" where
  "split_ws s = (case py_lstrip s of [] \<Rightarrow> []
     | c # t \<Rightarrow> (c # takeWhile (\<lambda>x. \<not> is_space x) t)
                # split_ws (dropWhile (\<lambda>x. \<not> is_space x) t))"
  by pat_completeness auto
termination
proof (relation "measure length")
  fix s :: string and c t
  assume "py_lstrip s = c # t"
  then have "length t < length s"
    by (metis impossible_Cons le_imp_less_Suc length_Cons length_dropWhile_le not_less_eq
        order_less_le_trans py_lstrip_def linorder_not_less)
  then show "(dropWhile (\<lambda>x. \<not> is_space x) t, s) \<in> measure length"
    using length_dropWhile_le [of "\<lambda>x. \<not> is_space x" t] by simp
qed simp

declare split_ws.simps [simp del]

fun py_join :: "string \<Rightarrow> string list \<Rightarrow> string" where
  "py_join sep [] = []"
| "py_join sep [x] = x"
| "py_join sep (x # y # xs) = x @ sep @ py_join sep (y # xs)"

text \<open>\<open>s.partition(c)\<close>: what precedes the first \<open>c\<close>, whether there is one, what follows.\<close>

definition py_partition :: "char \<Rightarrow> string \<Rightarrow> string \<times> string \<times> string" where
  "py_partition d s = (let p = takeWhile (\<lambda>c. c \<noteq> d) s; r = dropWhile (\<lambda>c. c \<noteq> d) s in
     case r of [] \<Rightarrow> (s, [], []) | c # t \<Rightarrow> (p, [d], t))"

definition py_rpartition :: "char \<Rightarrow> string \<Rightarrow> string \<times> string \<times> string" where
  "py_rpartition d s = (let p = takeWhile (\<lambda>c. c \<noteq> d) (rev s); r = dropWhile (\<lambda>c. c \<noteq> d) (rev s) in
     case r of [] \<Rightarrow> ([], [], s) | c # t \<Rightarrow> (rev t, [d], rev p))"

definition starts_with :: "string \<Rightarrow> string \<Rightarrow> bool" where
  "starts_with s p = (take (length p) s = p)"

definition ends_with :: "string \<Rightarrow> string \<Rightarrow> bool" where
  "ends_with s p = (starts_with (rev s) (rev p))"

subsubsection \<open>Their laws\<close>

lemma split_on_ne [simp]: "split_on d s \<noteq> []"
  by (induction s) (auto split: list.splits)

lemma split_on_notin: "d \<notin> set s \<Longrightarrow> split_on d s = [s]"
  by (induction s) auto

lemma split_on_append: "d \<notin> set s \<Longrightarrow> split_on d (s @ d # t) = s # split_on d t"
  by (induction s) auto

lemma join_split_on: "py_join [d] (split_on d s) = s"
proof (induction s)
  case Nil
  then show ?case by simp
next
  case (Cons c s)
  then show ?case
    by (cases "split_on d s" rule: list.exhaust [case_product list.exhaust, of _ "tl (split_on d s)"])
       (auto split: list.splits)
qed

lemma split_on_join:
  "ps \<noteq> [] \<Longrightarrow> (\<And>p. p \<in> set ps \<Longrightarrow> d \<notin> set p) \<Longrightarrow> split_on d (py_join [d] ps) = ps"
  by (induction "[d]" ps rule: py_join.induct) (auto simp: split_on_notin split_on_append)

lemma split_on_pieces: "p \<in> set (split_on d s) \<Longrightarrow> d \<notin> set p \<and> set p \<subseteq> set s"
  by (induction s arbitrary: p) (force split: list.splits if_splits)+

lemma starts_with_append [simp]: "starts_with (p @ s) p"
  by (simp add: starts_with_def)

lemma starts_with_iff: "starts_with s p \<longleftrightarrow> (\<exists>t. s = p @ t)"
  by (metis append_eq_conv_conj append_take_drop_id starts_with_def)

lemma takeWhile_stop:
  "\<forall>c \<in> set s. P c \<Longrightarrow> t = [] \<or> \<not> P (hd t) \<Longrightarrow> takeWhile P (s @ t) = s"
  "\<forall>c \<in> set s. P c \<Longrightarrow> t = [] \<or> \<not> P (hd t) \<Longrightarrow> dropWhile P (s @ t) = t"
  by (induction s) (cases t; auto)+

lemma py_partition_notin: "d \<notin> set s \<Longrightarrow> py_partition d s = (s, [], [])"
proof -
  assume "d \<notin> set s"
  then have "dropWhile (\<lambda>c. c \<noteq> d) s = []" by (auto simp: dropWhile_eq_Nil_conv)
  then show ?thesis by (simp add: py_partition_def del: dropWhile_eq_Nil_conv)
qed

lemma py_partition_append: "d \<notin> set s \<Longrightarrow> py_partition d (s @ d # t) = (s, [d], t)"
proof -
  assume "d \<notin> set s"
  then have "\<forall>c \<in> set s. c \<noteq> d" by auto
  then show ?thesis by (simp add: py_partition_def takeWhile_stop)
qed

lemma dropWhile_all_not: "s = [] \<or> \<not> P (hd s) \<Longrightarrow> dropWhile P s = s"
  by (cases s) auto

lemma py_strip_id:
  "s = [] \<or> \<not> is_space (hd s) \<and> \<not> is_space (last s) \<Longrightarrow> py_strip s = s"
  by (cases "s = []") (simp_all add: py_strip_def py_lstrip_def py_rstrip_def dropWhile_all_not hd_rev)

lemma py_strip_nospace: "(\<And>c. c \<in> set s \<Longrightarrow> \<not> is_space c) \<Longrightarrow> py_strip s = s"
  by (rule py_strip_id) auto

subsection \<open>Decimal numerals\<close>

definition digit_char :: "nat \<Rightarrow> char" where
  "digit_char n = ''0123456789'' ! n"

definition digit_val :: "char \<Rightarrow> nat" where
  "digit_val c = of_char c - 48"

text \<open>\<open>str(n)\<close> for \<open>n \<ge> 0\<close> and \<open>int(s)\<close> for a string of ASCII digits.\<close>

fun show_nat :: "nat \<Rightarrow> string" where
  "show_nat n = (if n < 10 then [digit_char n] else show_nat (n div 10) @ [digit_char (n mod 10)])"

declare show_nat.simps [simp del]

definition show_int :: "int \<Rightarrow> string" where
  "show_int i = (if i < 0 then CHR ''-'' # show_nat (nat (- i)) else show_nat (nat i))"

definition nat_of_digits :: "string \<Rightarrow> nat" where
  "nat_of_digits s = foldl (\<lambda>a c. 10 * a + digit_val c) 0 s"

lemma less_10_cases: "n < 10 \<Longrightarrow> n \<in> {0, 1, 2, 3, 4, 5, 6, 7, 8, 9 :: nat}"
  by auto

lemma digit_char_simps [simp]:
  "n < 10 \<Longrightarrow> is_digit (digit_char n)"
  "n < 10 \<Longrightarrow> digit_val (digit_char n) = n"
  by (auto dest!: less_10_cases simp: digit_char_def is_digit_def digit_val_def)

lemma digit_val_inverse: "is_digit c \<Longrightarrow> digit_val c < 10 \<and> digit_char (digit_val c) = c"
  by (auto simp: is_digit_def digit_val_def digit_char_def)

lemma show_nat_digits: "c \<in> set (show_nat n) \<Longrightarrow> is_digit c"
  by (induction n rule: show_nat.induct) (subst (asm) (2) show_nat.simps, auto split: if_splits)

lemma show_nat_ne [simp]: "show_nat n \<noteq> []"
  by (subst show_nat.simps) simp

lemma nat_of_digits_Nil [simp]: "nat_of_digits [] = 0"
  by (simp add: nat_of_digits_def)

lemma nat_of_digits_snoc: "nat_of_digits (s @ [c]) = 10 * nat_of_digits s + digit_val c"
  by (simp add: nat_of_digits_def)

lemma nat_of_digits_show [simp]: "nat_of_digits (show_nat n) = n"
proof (induction n rule: show_nat.induct)
  case (1 n)
  then show ?case
    by (subst show_nat.simps)
       (auto simp: nat_of_digits_snoc nat_of_digits_snoc [of "[]", simplified] nat_of_digits_Nil)
qed

text \<open>A numeral as the code's grammars accept it: \<open>0\<close>, or digits with no leading zero.\<close>

definition is_numeral :: "string \<Rightarrow> bool" where
  "is_numeral s = (s \<noteq> [] \<and> list_all is_digit s \<and> (hd s = CHR ''0'' \<longrightarrow> tl s = []))"

lemma hd_show_nat_zero: "hd (show_nat n) = CHR ''0'' \<Longrightarrow> n = 0"
proof (induction n rule: show_nat.induct)
  case (1 n)
  show ?case
  proof (cases "n < 10")
    case True
    with 1 show ?thesis
      by (subst (asm) (2) show_nat.simps) (auto dest!: less_10_cases simp: digit_char_def)
  next
    case False
    with "1.prems" have "hd (show_nat (n div 10)) = CHR ''0''"
      by (subst (asm) show_nat.simps) simp
    with False "1.IH" show ?thesis by simp
  qed
qed

lemma show_nat_0: "show_nat 0 = ''0''"
  by (simp add: show_nat.simps digit_char_def)

lemma is_numeral_show_nat [simp]: "is_numeral (show_nat n)"
proof (cases "n = 0")
  case True
  then show ?thesis by (simp add: show_nat_0 is_numeral_def is_digit_def)
next
  case False
  then show ?thesis
    using hd_show_nat_zero by (auto simp: is_numeral_def list_all_iff dest: show_nat_digits)
qed

subsection \<open>Replacing and quoting\<close>

text \<open>\<open>s.replace(old, new)\<close> for a non-empty \<open>old\<close>, from the left, without overlaps.\<close>

function py_replace :: "string \<Rightarrow> string \<Rightarrow> string \<Rightarrow> string" where
  "py_replace old new s = (case s of [] \<Rightarrow> []
     | c # t \<Rightarrow> if old \<noteq> [] \<and> starts_with s old then new @ py_replace old new (drop (length old) s)
                else c # py_replace old new t)"
  by pat_completeness auto
termination
  by (relation "measure (\<lambda>(old, new, s). length s)") auto

declare py_replace.simps [simp del]

text \<open>\<open>urllib.parse.quote(s, safe='')\<close>: UTF-8 bytes outside the unreserved set become \<open>%XX\<close>.\<close>

definition unreserved :: "char \<Rightarrow> bool" where
  "unreserved c = (is_digit c \<or> is_alpha c \<or> c \<in> set ''_.-~'')"

definition hex_digit :: "nat \<Rightarrow> char" where
  "hex_digit n = ''0123456789ABCDEF'' ! n"

definition pct :: "nat \<Rightarrow> string" where
  "pct n = [CHR ''%'', hex_digit (n div 16 mod 16), hex_digit (n mod 16)]"

definition quote_char :: "char \<Rightarrow> string" where
  "quote_char c = (let n = (of_char c :: nat) in
     if unreserved c then [c]
     else if n < 128 then pct n
     else pct (192 + n div 64) @ pct (128 + n mod 64))"

definition py_quote :: "string \<Rightarrow> string" where
  "py_quote s = concat (map quote_char s)"

text \<open>Quoting changes a string exactly when it has a character outside the unreserved set.\<close>

lemma quote_char_length: "length (quote_char c) = 1 \<longleftrightarrow> unreserved c"
  "length (quote_char c) \<ge> 1"
  by (simp_all add: quote_char_def pct_def Let_def)

lemma py_quote_length: "length s \<le> length (py_quote s)"
proof (induction s)
  case (Cons c s)
  then show ?case using quote_char_length(2) [of c] by (simp add: py_quote_def)
qed (simp add: py_quote_def)

lemma py_quote_id: "py_quote s = s \<longleftrightarrow> list_all unreserved s"
proof (induction s)
  case (Cons c s)
  show ?case
  proof (cases "unreserved c")
    case True
    with Cons show ?thesis by (simp add: py_quote_def quote_char_def)
  next
    case False
    then have "length (quote_char c) > 1" using quote_char_length [of c] by linarith
    then have "length (py_quote (c # s)) > length (c # s)"
      using py_quote_length [of s] by (simp add: py_quote_def)
    with False show ?thesis by force
  qed
qed (simp add: py_quote_def)

lemma py_replace_step [simp]:
  "py_replace old new [] = []"
  "py_replace old new (c # t) = (if old \<noteq> [] \<and> starts_with (c # t) old
     then new @ py_replace old new (drop (length old) (c # t)) else c # py_replace old new t)"
  by (simp_all add: py_replace.simps)

lemma py_replace_absent: "hd old \<notin> set s \<Longrightarrow> py_replace old new s = s"
proof (induction s)
  case (Cons c s)
  then have "\<not> (old \<noteq> [] \<and> starts_with (c # s) old)" by (cases old) (auto simp: starts_with_def)
  with Cons show ?case by auto
qed simp

end
