(* ===== verification/Py_Regex.thy ===== *)
theory Py_Regex
  imports Py_Prelude
begin

section \<open>Regular expressions of Python's \<open>re\<close> module\<close>

text \<open>
  The part of \<open>re\<close> the program uses: character classes, sequence, ordered alternation,
  greedy repetition, numbered groups and the anchor \<open>$\<close>. The matcher is the backtracking
  one of the \<open>re\<close> module, written with a continuation \<open>k\<close> for what follows: the first
  alternative, and the longest repetition, from which the continuation succeeds decides the
  groups. A pattern of the program is then a term that reads like its source string.
  \<open>eats\<close> says declaratively what a pattern may consume; \<open>mk_sound\<close> and \<open>mk_complete\<close>
  show that the matcher finds a match exactly when there is one.
\<close>

type_synonym caps = "nat \<rightharpoonup> string"

datatype re =
    Cls "char \<Rightarrow> bool"
  | Eps
  | EndZ
  | Seq re re
  | Alt re re
  | Star re
  | Grp nat re

abbreviation Lit :: "char \<Rightarrow> re" where "Lit c \<equiv> Cls (\<lambda>x. x = c)"
abbreviation OneOf :: "string \<Rightarrow> re" where "OneOf cs \<equiv> Cls (\<lambda>x. x \<in> set cs)"
abbreviation Opt :: "re \<Rightarrow> re" where "Opt r \<equiv> Alt r Eps"
abbreviation Plus :: "re \<Rightarrow> re" where "Plus r \<equiv> Seq r (Star r)"

fun Seqs :: "re list \<Rightarrow> re" where
  "Seqs [] = Eps"
| "Seqs [r] = r"
| "Seqs (r # s # rs) = Seq r (Seqs (s # rs))"

text \<open>\<open>r{0,n}\<close> and \<open>r{n}\<close>.\<close>

primrec UpTo :: "nat \<Rightarrow> re \<Rightarrow> re" where
  "UpTo 0 r = Eps"
| "UpTo (Suc n) r = Opt (Seq r (UpTo n r))"

primrec Times :: "nat \<Rightarrow> re \<Rightarrow> re" where
  "Times 0 r = Eps"
| "Times (Suc n) r = Seq r (Times n r)"

fun Word :: "string \<Rightarrow> re" where
  "Word cs = Seqs (map Lit cs)"

subsection \<open>The matcher\<close>

text \<open>
  Every round of a repetition has to consume something, so \<open>length s\<close> rounds are enough
  (no repetition of the program has a body that matches the empty string).
\<close>

primrec star_k ::
  "((string \<Rightarrow> caps \<Rightarrow> 'a option) \<Rightarrow> string \<Rightarrow> caps \<Rightarrow> 'a option) \<Rightarrow> nat \<Rightarrow>
   (string \<Rightarrow> caps \<Rightarrow> 'a option) \<Rightarrow> string \<Rightarrow> caps \<Rightarrow> 'a option" where
  "star_k f 0 k s g = k s g"
| "star_k f (Suc n) k s g =
     (case f (\<lambda>s' g'. if length s' < length s then star_k f n k s' g' else None) s g of
        Some x \<Rightarrow> Some x | None \<Rightarrow> k s g)"

primrec mk :: "re \<Rightarrow> (string \<Rightarrow> caps \<Rightarrow> 'a option) \<Rightarrow> string \<Rightarrow> caps \<Rightarrow> 'a option" where
  "mk (Cls P) k s g = (case s of [] \<Rightarrow> None | c # t \<Rightarrow> if P c then k t g else None)"
| "mk Eps k s g = k s g"
| "mk EndZ k s g = (if s = [] \<or> s = [CHR 0x0A] then k s g else None)"
| "mk (Seq a b) k s g = mk a (mk b k) s g"
| "mk (Alt a b) k s g = (case mk a k s g of Some x \<Rightarrow> Some x | None \<Rightarrow> mk b k s g)"
| "mk (Star r) k s g = star_k (mk r) (length s) k s g"
| "mk (Grp n r) k s g = mk r (\<lambda>t g'. k t (g'(n \<mapsto> take (length s - length t) s))) s g"

definition re_match :: "re \<Rightarrow> string \<Rightarrow> (string \<times> caps) option" where
  "re_match r s = mk r (\<lambda>t g. Some (t, g)) s Map.empty"

text \<open>The groups of a match, group 0 being all of it.\<close>

definition re_groups :: "re \<Rightarrow> string \<Rightarrow> caps option" where
  "re_groups r s = mk r (\<lambda>t g. Some (g(0 \<mapsto> take (length s - length t) s))) s Map.empty"

definition re_fullmatch :: "re \<Rightarrow> string \<Rightarrow> bool" where
  "re_fullmatch r s = (mk r (\<lambda>t g. if t = [] then Some () else None) s Map.empty \<noteq> None)"

definition re_matches :: "re \<Rightarrow> string \<Rightarrow> bool" where
  \<comment> \<open>\<open>bool(pattern.match(s))\<close>\<close>
  "re_matches r s = (re_match r s \<noteq> None)"

text \<open>\<open>re.sub\<close> and \<open>re.split\<close> with a pattern that never matches the empty string.\<close>

function re_sub :: "re \<Rightarrow> (caps \<Rightarrow> string) \<Rightarrow> string \<Rightarrow> string" where
  "re_sub r f s = (case s of [] \<Rightarrow> [] | c # u \<Rightarrow>
     (case re_match r s of
        Some (t, g) \<Rightarrow> if length t < length s then f g @ re_sub r f t else c # re_sub r f u
      | None \<Rightarrow> c # re_sub r f u))"
  by pat_completeness auto
termination
  by (relation "measure (\<lambda>(r, f, s). length s)") auto

declare re_sub.simps [simp del]

definition cons_first :: "char \<Rightarrow> string list \<Rightarrow> string list" where
  "cons_first c ps = (case ps of [] \<Rightarrow> [[c]] | p # qs \<Rightarrow> (c # p) # qs)"

function re_split :: "re \<Rightarrow> string \<Rightarrow> string list" where
  "re_split r s = (case s of [] \<Rightarrow> [[]] | c # u \<Rightarrow>
     (case re_match r s of
        Some (t, g) \<Rightarrow> if length t < length s then [] # re_split r t
                       else cons_first c (re_split r u)
      | None \<Rightarrow> cons_first c (re_split r u)))"
  by pat_completeness auto
termination
  by (relation "measure (\<lambda>(r, s). length s)") auto

declare re_split.simps [simp del]

subsection \<open>What a pattern may consume\<close>

inductive eats :: "re \<Rightarrow> string \<Rightarrow> caps \<Rightarrow> string \<Rightarrow> caps \<Rightarrow> bool" where
  eats_Cls: "P c \<Longrightarrow> eats (Cls P) (c # s) g s g"
| eats_Eps: "eats Eps s g s g"
| eats_EndZ: "s = [] \<or> s = [CHR 0x0A] \<Longrightarrow> eats EndZ s g s g"
| eats_Seq: "eats a s g t h \<Longrightarrow> eats b t h u i \<Longrightarrow> eats (Seq a b) s g u i"
| eats_Alt1: "eats a s g t h \<Longrightarrow> eats (Alt a b) s g t h"
| eats_Alt2: "eats b s g t h \<Longrightarrow> eats (Alt a b) s g t h"
| eats_Star0: "eats (Star r) s g s g"
| eats_StarS: "eats r s g t h \<Longrightarrow> length t < length s \<Longrightarrow> eats (Star r) t h u i
     \<Longrightarrow> eats (Star r) s g u i"
| eats_Grp: "eats r s g t h \<Longrightarrow> eats (Grp n r) s g t (h(n \<mapsto> take (length s - length t) s))"

inductive_simps eats_Cls_iff: "eats (Cls P) s g t h"
inductive_simps eats_Eps_iff: "eats Eps s g t h"
inductive_simps eats_EndZ_iff: "eats EndZ s g t h"
inductive_simps eats_Seq_iff: "eats (Seq a b) s g t h"
inductive_simps eats_Alt_iff: "eats (Alt a b) s g t h"
inductive_simps eats_Grp_iff: "eats (Grp n r) s g t h"
inductive_cases eats_StarE: "eats (Star r) s g t h"

lemmas eats_iffs = eats_Cls_iff eats_Eps_iff eats_EndZ_iff eats_Seq_iff eats_Alt_iff eats_Grp_iff

lemma eats_suffix: "eats r s g t h \<Longrightarrow> \<exists>p. s = p @ t"
proof (induction rule: eats.induct)
  case (eats_Cls P c s g)
  then show ?case by (intro exI [of _ "[c]"]) simp
qed auto

lemma eats_length: "eats r s g t h \<Longrightarrow> length t \<le> length s"
  by (drule eats_suffix) auto

lemma star_k_sound:
  assumes "\<And>k s g x. f k s g = Some x \<Longrightarrow> \<exists>t h. eats r s g t h \<and> k t h = Some x"
  shows "star_k f n k s g = Some x \<Longrightarrow> \<exists>t h. eats (Star r) s g t h \<and> k t h = Some x"
proof (induction n arbitrary: s g)
  case 0
  then show ?case by (auto intro: eats_Star0)
next
  case (Suc n)
  show ?case
  proof (cases "f (\<lambda>s' g'. if length s' < length s then star_k f n k s' g' else None) s g")
    case None
    with Suc.prems show ?thesis by (auto intro: eats_Star0)
  next
    case (Some y)
    with Suc.prems have "y = x" by simp
    from assms [OF Some] obtain t h where th: "eats r s g t h"
      "(if length t < length s then star_k f n k t h else None) = Some y" by blast
    with Suc.IH [of t h] \<open>y = x\<close> show ?thesis
      by (auto split: if_splits intro: eats_StarS)
  qed
qed

lemma mk_sound: "mk r k s g = Some x \<Longrightarrow> \<exists>t h. eats r s g t h \<and> k t h = Some x"
proof (induction r arbitrary: k s g x)
  case (Cls P)
  then show ?case by (auto split: list.splits if_splits intro: eats_Cls)
next
  case Eps
  then show ?case by (auto intro: eats_Eps)
next
  case EndZ
  then show ?case by (auto split: if_splits intro: eats_EndZ)
next
  case (Seq a b)
  from Seq.prems have "mk a (mk b k) s g = Some x" by simp
  from Seq.IH(1) [OF this] Seq.IH(2) show ?case by (blast intro: eats_Seq)
next
  case (Alt a b)
  then show ?case by (auto split: option.splits) (blast intro: eats_Alt1 eats_Alt2)+
next
  case (Star r)
  from Star.prems have "star_k (mk r) (length s) k s g = Some x" by simp
  then show ?case by (rule star_k_sound [rotated]) (rule Star.IH)
next
  case (Grp n r)
  from Grp.prems have
    "mk r (\<lambda>t g'. k t (g'(n \<mapsto> take (length s - length t) s))) s g = Some x" by simp
  from Grp.IH [OF this] show ?case by (blast intro: eats_Grp)
qed

lemma star_k_complete:
  assumes f: "\<And>k s g t h. eats r s g t h \<Longrightarrow> k t h \<noteq> None \<Longrightarrow> f k s g \<noteq> None"
  shows "eats q s g t h \<Longrightarrow> q = Star r \<Longrightarrow> length s \<le> n \<Longrightarrow> k t h \<noteq> None \<Longrightarrow>
    star_k f n k s g \<noteq> None"
proof (induction arbitrary: n rule: eats.induct)
  case (eats_Star0 r' s g)
  then show ?case by (cases n) (auto split: option.splits)
next
  case (eats_StarS r' s g t h u i)
  then obtain m where n: "n = Suc m" by (cases n) auto
  have "f (\<lambda>s' g'. if length s' < length s then star_k f m k s' g' else None) s g \<noteq> None"
    by (rule f [of _ _ t h]) (use eats_StarS n in auto)
  then show ?case by (auto simp: n split: option.splits)
qed auto

lemma mk_complete: "eats r s g t h \<Longrightarrow> k t h \<noteq> None \<Longrightarrow> mk r k s g \<noteq> None"
proof (induction r arbitrary: k s g t h)
  case (Cls P)
  then show ?case by (auto simp: eats_iffs)
next
  case Eps
  then show ?case by (auto simp: eats_iffs)
next
  case EndZ
  then show ?case by (auto simp: eats_iffs)
next
  case (Seq a b)
  from Seq.prems(1) obtain u i where "eats a s g u i" "eats b u i t h"
    by (auto simp: eats_Seq_iff)
  with Seq.IH Seq.prems(2) show ?case by simp
next
  case (Alt a b)
  then consider "eats a s g t h" | "eats b s g t h" by (auto simp: eats_Alt_iff)
  then have "mk a k s g \<noteq> None \<or> mk b k s g \<noteq> None"
    using Alt.IH Alt.prems(2) by cases metis+
  then show ?case by (auto split: option.splits)
next
  case (Star r)
  have "star_k (mk r) (length s) k s g \<noteq> None"
  proof (rule star_k_complete [where r = r and q = "Star r" and t = t and h = h])
    fix k :: "string \<Rightarrow> caps \<Rightarrow> 'a option" and s g t h
    assume "eats r s g t h" and "k t h \<noteq> None"
    then show "mk r k s g \<noteq> None" by (rule Star.IH)
  qed (use Star.prems in auto)
  then show ?case by simp
next
  case (Grp n r)
  from Grp.prems(1) obtain i where i: "eats r s g t i"
    "h = i(n \<mapsto> take (length s - length t) s)" unfolding eats_Grp_iff by blast
  show ?case
    unfolding mk.simps by (rule Grp.IH [OF i(1)]) (use Grp.prems(2) i(2) in \<open>simp only: not_False_eq_True\<close>)
qed

lemma mk_iff: "mk r k s g \<noteq> None \<longleftrightarrow> (\<exists>t h. eats r s g t h \<and> k t h \<noteq> None)"
  using mk_sound [of r k s g] mk_complete [of r s g _ _ k] by blast

lemma re_match_Some: "re_match r s = Some (t, g) \<Longrightarrow> eats r s Map.empty t g"
  by (auto simp: re_match_def dest: mk_sound)

lemma re_groups_Some:
  "re_groups r s = Some g \<Longrightarrow>
   \<exists>t h. eats r s Map.empty t h \<and> g = h(0 \<mapsto> take (length s - length t) s)"
  unfolding re_groups_def by (drule mk_sound) auto

lemma re_groups_None: "re_groups r s = None \<longleftrightarrow> (\<nexists>t g. eats r s Map.empty t g)"
  using mk_iff [of r "\<lambda>t g. Some (g(0 \<mapsto> take (length s - length t) s))" s Map.empty]
  by (auto simp: re_groups_def)

lemma re_fullmatch_iff: "re_fullmatch r s \<longleftrightarrow> (\<exists>h. eats r s Map.empty [] h)"
  unfolding re_fullmatch_def by (subst mk_iff) (auto split: if_splits)

lemma re_matches_iff: "re_matches r s \<longleftrightarrow> (\<exists>t h. eats r s Map.empty t h)"
  unfolding re_matches_def re_match_def by (subst mk_iff) auto

subsection \<open>Repetition of one character class\<close>

lemma eats_Star_Cls: "eats r s g t h \<Longrightarrow> r = Star (Cls P) \<Longrightarrow>
  h = g \<and> (\<exists>p. s = p @ t \<and> (\<forall>c \<in> set p. P c))"
proof (induction rule: eats.induct)
  case (eats_StarS r' s g t h u i)
  then obtain p where p: "i = h" "t = p @ u" "\<forall>c \<in> set p. P c" by auto
  from eats_StarS.hyps(1) eats_StarS.prems obtain c where "s = c # t" "P c" "h = g"
    by (auto simp: eats_Cls_iff)
  with p show ?case by (intro conjI exI [of _ "c # p"]) auto
qed auto

lemma eats_Star_Cls_append: "\<forall>c \<in> set p. P c \<Longrightarrow> eats (Star (Cls P)) (p @ t) g t g"
proof (induction p)
  case Nil
  show ?case using eats_Star0 by simp
next
  case (Cons c p)
  then show ?case by (auto intro!: eats_StarS [of _ _ g "p @ t" g] eats_Cls)
qed

lemma eats_Star_Cls_iff:
  "eats (Star (Cls P)) s g t h \<longleftrightarrow> h = g \<and> (\<exists>p. s = p @ t \<and> (\<forall>c \<in> set p. P c))"
  using eats_Star_Cls [OF _ refl, of P s g t h] eats_Star_Cls_append by auto

lemma star_skip: "s = [] \<or> \<not> P (hd s) \<Longrightarrow> mk (Star (Cls P)) k s g = k s g"
  by (cases s) auto

lemma star_cls_rounds:
  "\<forall>c \<in> set p. P c \<Longrightarrow> s = [] \<or> \<not> P (hd s) \<Longrightarrow> length p + length s \<le> n \<Longrightarrow> k s g = Some x \<Longrightarrow>
   star_k (mk (Cls P)) n k (p @ s) g = Some x"
proof (induction p arbitrary: n)
  case Nil
  then show ?case by (cases n; cases s) auto
next
  case (Cons c p)
  then obtain m where "n = Suc m" by (cases n) auto
  with Cons show ?case by simp
qed

text \<open>Greedy: if what follows succeeds after the longest run, that run decides.\<close>

lemma star_greedy:
  "\<forall>c \<in> set p. P c \<Longrightarrow> s = [] \<or> \<not> P (hd s) \<Longrightarrow> k s g = Some x \<Longrightarrow>
   mk (Star (Cls P)) k (p @ s) g = Some x"
  using star_cls_rounds [of p P s "length (p @ s)"] by simp

lemma star_all: "\<forall>c \<in> set p. P c \<Longrightarrow> k [] g = Some x \<Longrightarrow> mk (Star (Cls P)) k p g = Some x"
  using star_greedy [of p P "[]"] by simp

lemma mk_None_I: "(\<And>t h. eats r s g t h \<Longrightarrow> k t h = None) \<Longrightarrow> mk r k s g = None"
  by (cases "mk r k s g") (auto dest!: mk_sound)

lemma mk_Seq_eq: "mk (Seq a b) k = mk a (mk b k)"
  by (simp add: fun_eq_iff)

lemma mk_Seqs: "rs \<noteq> [] \<Longrightarrow> mk (Seqs (r # rs)) k = mk r (mk (Seqs rs) k)"
  by (cases rs) (auto simp: fun_eq_iff)

lemma eats_Word: "eats (Word w) s g t h \<longleftrightarrow> h = g \<and> s = w @ t"
proof (induction w arbitrary: s)
  case Nil
  then show ?case by (auto simp: eats_iffs)
next
  case (Cons c w)
  then show ?case by (cases w) (auto simp: eats_iffs)
qed

lemma eats_UpTo: "eats (UpTo n (Cls P)) s g t h \<longleftrightarrow>
    h = g \<and> (\<exists>p. s = p @ t \<and> list_all P p \<and> length p \<le> n)"
proof (induction n arbitrary: s)
  case 0
  then show ?case by (auto simp: eats_iffs)
next
  case (Suc n)
  have "(\<exists>p. s = p @ t \<and> list_all P p \<and> length p \<le> Suc n) \<longleftrightarrow>
      s = t \<or> (\<exists>c u p. s = c # u \<and> P c \<and> u = p @ t \<and> list_all P p \<and> length p \<le> n)"
  proof
    assume "\<exists>p. s = p @ t \<and> list_all P p \<and> length p \<le> Suc n"
    then obtain p where "s = p @ t" "list_all P p" "length p \<le> Suc n" by blast
    then show "s = t \<or> (\<exists>c u p. s = c # u \<and> P c \<and> u = p @ t \<and> list_all P p \<and> length p \<le> n)"
      by (cases p) auto
  next
    assume "s = t \<or> (\<exists>c u p. s = c # u \<and> P c \<and> u = p @ t \<and> list_all P p \<and> length p \<le> n)"
    then show "\<exists>p. s = p @ t \<and> list_all P p \<and> length p \<le> Suc n"
    proof
      assume "s = t"
      then show ?thesis by (intro exI [of _ "[]"]) simp
    next
      assume "\<exists>c u p. s = c # u \<and> P c \<and> u = p @ t \<and> list_all P p \<and> length p \<le> n"
      then obtain c p where "s = c # p @ t" "P c" "list_all P p" "length p \<le> n" by blast
      then show ?thesis by (intro exI [of _ "c # p"]) simp
    qed
  qed
  with Suc show ?case by (auto simp: eats_iffs)
qed

lemma eats_Times: "eats (Times n (Cls P)) s g t h \<longleftrightarrow>
    h = g \<and> (\<exists>p. s = p @ t \<and> list_all P p \<and> length p = n)"
proof (induction n arbitrary: s)
  case 0
  then show ?case by (auto simp: eats_iffs)
next
  case (Suc n)
  have "(\<exists>p. s = p @ t \<and> list_all P p \<and> length p = Suc n) \<longleftrightarrow>
      (\<exists>c p. s = c # p @ t \<and> P c \<and> list_all P p \<and> length p = n)"
    by (force simp: length_Suc_conv)
  with Suc show ?case by (auto simp: eats_iffs)
qed

lemma eats_Plus_Cls: "eats (Plus (Cls P)) s g t h \<longleftrightarrow>
    h = g \<and> (\<exists>p. s = p @ t \<and> p \<noteq> [] \<and> list_all P p)"
  unfolding eats_Seq_iff eats_Cls_iff eats_Star_Cls_iff
  by (auto simp: list_all_iff neq_Nil_conv)

text \<open>Every character a pattern consumes comes from one of its classes.\<close>

primrec only_chars :: "(char \<Rightarrow> bool) \<Rightarrow> re \<Rightarrow> bool" where
  "only_chars P (Cls Q) = (\<forall>c. Q c \<longrightarrow> P c)"
| "only_chars P Eps = True"
| "only_chars P EndZ = True"
| "only_chars P (Seq a b) = (only_chars P a \<and> only_chars P b)"
| "only_chars P (Alt a b) = (only_chars P a \<and> only_chars P b)"
| "only_chars P (Star r) = only_chars P r"
| "only_chars P (Grp n r) = only_chars P r"

lemma eats_chars:
  "eats r s g t h \<Longrightarrow> only_chars P r \<Longrightarrow> \<exists>p. s = p @ t \<and> list_all P p"
proof (induction rule: eats.induct)
  case (eats_Cls Q c s g)
  then show ?case by (intro exI [of _ "[c]"]) simp
qed force+

lemma fullmatch_chars: "re_fullmatch r s \<Longrightarrow> only_chars P r \<Longrightarrow> list_all P s"
  unfolding re_fullmatch_iff using eats_chars by fastforce

end
