(* ===== verification/Semver.thy ===== *)
theory Semver
  imports Py_Regex
begin

section \<open>node-semver versions and ranges (\<open>core/semver.py\<close>)\<close>

text \<open>
  The whole of \<open>app/core/semver.py\<close>: the grammar (the regular expressions, symbol for
  symbol), \<open>SemVer\<close> with its precedence, comparators and comparator sets, the desugaring
  of hyphen, tilde, caret and x-ranges into comparators, \<open>parse_range\<close>, \<open>satisfies\<close>
  and \<open>max_satisfying\<close>.
\<close>

subsection \<open>Grammar fragments\<close>

abbreviation DIGIT :: re where "DIGIT \<equiv> Cls is_digit"
abbreviation SPACES :: re where "SPACES \<equiv> Star (Cls is_space)"

definition is_nonzero_digit :: "char \<Rightarrow> bool" where
  "is_nonzero_digit c = (c \<in> set ''123456789'')"

definition is_ident_start :: "char \<Rightarrow> bool" where
  \<comment> \<open>\<open>[a-zA-Z-]\<close>\<close>
  "is_ident_start c = (is_alpha c \<or> c = CHR ''-'')"

definition is_ident_char :: "char \<Rightarrow> bool" where
  \<comment> \<open>\<open>[0-9a-zA-Z-]\<close>\<close>
  "is_ident_char c = (is_digit c \<or> is_alpha c \<or> c = CHR ''-'')"

definition is_v_eq_space :: "char \<Rightarrow> bool" where
  \<comment> \<open>\<open>[v=\s]\<close>\<close>
  "is_v_eq_space c = (c = CHR ''v'' \<or> c = CHR ''='' \<or> is_space c)"

definition NUM :: re where
  "NUM = Alt (Lit (CHR ''0'')) (Seq (Cls is_nonzero_digit) (Star DIGIT))"

definition NON_NUM :: re where
  "NON_NUM = Seqs [Star DIGIT, Cls is_ident_start, Star (Cls is_ident_char)]"

definition PRE_IDENT :: re where
  "PRE_IDENT = Alt NUM NON_NUM"

definition PRERELEASE :: "nat \<Rightarrow> re" where
  "PRERELEASE n = Seqs [Lit (CHR ''-''),
     Grp n (Seq PRE_IDENT (Star (Seq (Lit (CHR ''.'')) PRE_IDENT)))]"

definition BUILD :: "nat \<Rightarrow> re" where
  "BUILD n = Seqs [Lit (CHR ''+''), Grp n (Seq (Plus (Cls is_ident_char))
     (Star (Seq (Lit (CHR ''.'')) (Plus (Cls is_ident_char)))))]"

definition FULL_VERSION_RE :: re where
  "FULL_VERSION_RE = Seqs [Star (Cls is_v_eq_space), Grp 1 NUM, Lit (CHR ''.''), Grp 2 NUM,
     Lit (CHR ''.''), Grp 3 NUM, Opt (PRERELEASE 4), Opt (BUILD 5), SPACES, EndZ]"

definition XID :: re where
  "XID = Alt NUM (OneOf ''xX*'')"

text \<open>Its groups are numbered from \<open>n\<close>: major, minor, patch, prerelease, build.\<close>

definition XRANGE_PLAIN :: "nat \<Rightarrow> re" where
  "XRANGE_PLAIN n = Seqs [Star (Cls is_v_eq_space), Grp n XID,
     Opt (Seqs [Lit (CHR ''.''), Grp (n + 1) XID,
       Opt (Seqs [Lit (CHR ''.''), Grp (n + 2) XID,
         Opt (PRERELEASE (n + 3)), Opt (BUILD (n + 4))])])]"

definition TILDE_RE :: re where
  "TILDE_RE = Seqs [SPACES, Lit (CHR ''~''), Opt (Lit (CHR ''>'')), XRANGE_PLAIN 1, SPACES, EndZ]"

definition CARET_RE :: re where
  "CARET_RE = Seqs [SPACES, Lit (CHR ''^''), XRANGE_PLAIN 1, SPACES, EndZ]"

definition XRANGE_RE :: re where
  "XRANGE_RE = Seqs [SPACES, Grp 1 (Seq (Opt (OneOf ''<>'')) (Opt (Lit (CHR ''='')))), SPACES,
     XRANGE_PLAIN 2, SPACES, EndZ]"

definition HYPHEN_RE :: re where
  "HYPHEN_RE = Seqs [SPACES, Grp 1 (XRANGE_PLAIN 2), Plus (Cls is_space), Lit (CHR ''-''),
     Plus (Cls is_space), Grp 7 (XRANGE_PLAIN 8), SPACES, EndZ]"

definition COMPARATOR_RE :: re where
  "COMPARATOR_RE = Seqs [SPACES, Grp 1 (Seq (Opt (OneOf ''<>'')) (Opt (Lit (CHR ''='')))), SPACES,
     Star (Cls is_v_eq_space), Grp 2 NUM, Lit (CHR ''.''), Grp 3 NUM, Lit (CHR ''.''), Grp 4 NUM,
     Opt (PRERELEASE 5), Opt (BUILD 6), SPACES, EndZ]"

definition OPERATOR_SPACE_RE :: re where
  "OPERATOR_SPACE_RE = Seq (Grp 1 (Alt (Seq (Opt (OneOf ''<>'')) (Lit (CHR ''='')))
     (Alt (OneOf ''<>'') (Alt (Seq (Lit (CHR ''~'')) (Opt (Lit (CHR ''>'')))) (Lit (CHR ''^''))))))
     (Plus (Cls is_space))"

definition OR_RE :: re where
  \<comment> \<open>the separator \<open>\s*\|\|\s*\<close> of \<open>parse_range\<close>\<close>
  "OR_RE = Seqs [SPACES, Lit (CHR ''|''), Lit (CHR ''|''), SPACES]"

definition is_x :: "string option \<Rightarrow> bool" where
  "is_x v = (case v of None \<Rightarrow> True
     | Some s \<Rightarrow> s = [] \<or> py_lower s = ''x'' \<or> s = ''*'')"

definition truthy :: "string option \<Rightarrow> bool" where
  \<comment> \<open>\<open>bool(s)\<close> of a \<open>str | None\<close>\<close>
  "truthy v = (case v of None \<Rightarrow> False | Some s \<Rightarrow> s \<noteq> [])"

definition int_of :: "string option \<Rightarrow> int" where
  \<comment> \<open>\<open>int(s)\<close> of a group that matched a numeral\<close>
  "int_of v = int (nat_of_digits (the v))"

subsection \<open>Versions\<close>

datatype ident = INum int | IStr string

record semver =
  major :: int
  minor :: int
  patch :: int
  prerelease :: "ident list"
  build :: "string option"

definition py_isdigit :: "string \<Rightarrow> bool" where
  \<comment> \<open>\<open>str.isdigit\<close>; a prerelease identifier is ASCII, where only 0-9 are digits\<close>
  "py_isdigit s = (s \<noteq> [] \<and> list_all is_digit s)"

definition split_prerelease :: "string option \<Rightarrow> ident list" where
  "split_prerelease raw = (if \<not> truthy raw then []
     else map (\<lambda>p. if py_isdigit p then INum (int (nat_of_digits p)) else IStr p)
       (split_on (CHR ''.'') (the raw)))"

definition semver_parse :: "string \<Rightarrow> semver option" where
  "semver_parse s = (case re_groups FULL_VERSION_RE (py_strip s) of
     None \<Rightarrow> None
   | Some g \<Rightarrow> Some \<lparr>major = int_of (g 1), minor = int_of (g 2), patch = int_of (g 3),
       prerelease = split_prerelease (g 4), build = g 5\<rparr>)"

definition is_prerelease :: "semver \<Rightarrow> bool" where
  "is_prerelease v = (prerelease v \<noteq> [])"

definition semver_tuple :: "semver \<Rightarrow> int \<times> int \<times> int" where
  "semver_tuple v = (major v, minor v, patch v)"

fun show_ident :: "ident \<Rightarrow> string" where
  "show_ident (INum n) = show_int n"
| "show_ident (IStr s) = s"

definition semver_str :: "semver \<Rightarrow> string" where
  "semver_str v = show_int (major v) @ ''.'' @ show_int (minor v) @ ''.'' @ show_int (patch v)
     @ (if prerelease v \<noteq> [] then ''-'' @ py_join ''.'' (map show_ident (prerelease v)) else [])
     @ (if truthy (build v) then ''+'' @ the (build v) else [])"

type_synonym prerelease_key_t = "nat \<times> (nat \<times> int \<times> string) list"
type_synonym semver_key_t = "int \<times> int \<times> int \<times> prerelease_key_t"

fun ident_key :: "ident \<Rightarrow> nat \<times> int \<times> string" where
  "ident_key (INum n) = (0, n, [])"
| "ident_key (IStr s) = (1, 0, s)"

definition prerelease_key :: "ident list \<Rightarrow> prerelease_key_t" where
  "prerelease_key p = (if p = [] then (1, []) else (0, map ident_key p))"

definition semver_key :: "semver \<Rightarrow> semver_key_t" where
  "semver_key v = (major v, minor v, patch v, prerelease_key (prerelease v))"

text \<open>The four rich comparisons of the class, and \<open>equivalent\<close>.\<close>

definition semver_lt :: "semver \<Rightarrow> semver \<Rightarrow> bool" where
  "semver_lt v w = (semver_key v < semver_key w)"

definition semver_le :: "semver \<Rightarrow> semver \<Rightarrow> bool" where
  "semver_le v w = (semver_key v \<le> semver_key w)"

definition equivalent :: "semver \<Rightarrow> semver \<Rightarrow> bool" where
  "equivalent v w = (semver_key v = semver_key w)"

definition bool_int :: "bool \<Rightarrow> int" where
  "bool_int b = (if b then 1 else 0)"

definition compare_versions :: "string \<Rightarrow> string \<Rightarrow> int" where
  "compare_versions a b = (case (semver_parse a, semver_parse b) of
     (None, None) \<Rightarrow> bool_int (a > b) - bool_int (a < b)
   | (None, Some _) \<Rightarrow> -1
   | (Some _, None) \<Rightarrow> 1
   | (Some l, Some r) \<Rightarrow> bool_int (semver_key l > semver_key r) - bool_int (semver_key l < semver_key r))"

subsection \<open>Comparators and ranges\<close>

datatype bound = Any | Ver semver

record comparator =
  operator :: string
  bound_of :: bound

definition comparator_test :: "comparator \<Rightarrow> semver \<Rightarrow> bool" where
  "comparator_test c v = (case bound_of c of
     Any \<Rightarrow> True
   | Ver b \<Rightarrow> (let op = (if operator c = [] then ''='' else operator c) in
       if op = ''='' then equivalent v b
       else if op = ''>'' then semver_lt b v
       else if op = ''>='' then semver_le b v
       else if op = ''<'' then semver_lt v b
       else if op = ''<='' then semver_le v b
       else False))"

fun opts_in :: "semver \<Rightarrow> comparator list \<Rightarrow> bool" where
  \<comment> \<open>the second loop of \<open>ComparatorSet.test\<close>\<close>
  "opts_in v [] = False"
| "opts_in v (c # cs) = (case bound_of c of
     Any \<Rightarrow> opts_in v cs
   | Ver b \<Rightarrow> if is_prerelease b \<and> semver_tuple b = semver_tuple v then True else opts_in v cs)"

definition set_test :: "comparator list \<Rightarrow> semver \<Rightarrow> bool \<Rightarrow> bool" where
  "set_test cs v include_pre =
     (if \<not> list_all (\<lambda>c. comparator_test c v) cs then False
      else if is_prerelease v \<and> \<not> include_pre then opts_in v cs
      else True)"

definition show_comparator :: "comparator \<Rightarrow> string" where
  "show_comparator c = (case bound_of c of Any \<Rightarrow> ''*'' | Ver b \<Rightarrow> operator c @ semver_str b)"

definition show_set :: "comparator list \<Rightarrow> string" where
  "show_set cs = (let s = py_join '' '' (map show_comparator cs) in if s = [] then ''*'' else s)"

record range_t =
  include_prerelease :: bool
  raw :: string
  sets :: "comparator list list"

definition range_test :: "range_t \<Rightarrow> semver \<Rightarrow> bool" where
  "range_test r v = list_ex (\<lambda>s. set_test s v (include_prerelease r)) (sets r)"

definition show_range :: "range_t \<Rightarrow> string" where
  "show_range r = py_join '' || '' (map show_set (sets r))"

definition range_test_str :: "range_t \<Rightarrow> string \<Rightarrow> bool" where
  "range_test_str r s = (case semver_parse s of None \<Rightarrow> False | Some v \<Rightarrow> range_test r v)"

subsection \<open>Desugaring\<close>

definition desugar_hyphen :: "caps \<Rightarrow> bool \<Rightarrow> string" where
  "desugar_hyphen g include_pre = (let
     from_raw = g 1; f_major = g 2; f_minor = g 3; f_patch = g 4;
     to_raw = g 7; t_major = g 8; t_minor = g 9; t_patch = g 10; t_pre = g 11;
     lower_pre = (if include_pre then ''-0'' else []);
     lower = (if is_x f_major then []
       else if is_x f_minor then ''>='' @ the f_major @ ''.0.0'' @ lower_pre
       else if is_x f_patch then ''>='' @ the f_major @ ''.'' @ the f_minor @ ''.0'' @ lower_pre
       else ''>='' @ py_strip (the from_raw));
     upper = (if is_x t_major then []
       else if is_x t_minor then ''<'' @ show_int (int_of t_major + 1) @ ''.0.0-0''
       else if is_x t_patch then ''<'' @ the t_major @ ''.'' @ show_int (int_of t_minor + 1) @ ''.0-0''
       else if truthy t_pre then
         ''<='' @ the t_major @ ''.'' @ the t_minor @ ''.'' @ the t_patch @ ''-'' @ the t_pre
       else ''<='' @ py_strip (the to_raw))
     in py_strip (lower @ '' '' @ upper))"

definition desugar_tilde :: "caps \<Rightarrow> bool \<Rightarrow> string" where
  "desugar_tilde g include_pre = (let
     major = g 1; minor = g 2; patch = g 3; pre = g 4;
     lower_pre = (if include_pre then ''-0'' else [])
     in if is_x major then ''*''
        else if is_x minor then
          ''>='' @ the major @ ''.0.0'' @ lower_pre @ '' <'' @ show_int (int_of major + 1) @ ''.0.0-0''
        else if is_x patch then
          ''>='' @ the major @ ''.'' @ the minor @ ''.0'' @ lower_pre @ '' <'' @ the major @ ''.''
            @ show_int (int_of minor + 1) @ ''.0-0''
        else if truthy pre then
          ''>='' @ the major @ ''.'' @ the minor @ ''.'' @ the patch @ ''-'' @ the pre @ '' <''
            @ the major @ ''.'' @ show_int (int_of minor + 1) @ ''.0-0''
        else
          ''>='' @ the major @ ''.'' @ the minor @ ''.'' @ the patch @ lower_pre @ '' <''
            @ the major @ ''.'' @ show_int (int_of minor + 1) @ ''.0-0'')"

definition desugar_caret :: "caps \<Rightarrow> bool \<Rightarrow> string" where
  "desugar_caret g include_pre = (let
     major = g 1; minor = g 2; patch = g 3; pre = g 4;
     lower_pre = (if include_pre then ''-0'' else [])
     in if is_x major then ''*''
        else if is_x minor then
          ''>='' @ the major @ ''.0.0'' @ lower_pre @ '' <'' @ show_int (int_of major + 1) @ ''.0.0-0''
        else if is_x patch then
          (if major = Some ''0'' then
             ''>='' @ the major @ ''.'' @ the minor @ ''.0'' @ lower_pre @ '' <'' @ the major @ ''.''
               @ show_int (int_of minor + 1) @ ''.0-0''
           else
             ''>='' @ the major @ ''.'' @ the minor @ ''.0'' @ lower_pre @ '' <''
               @ show_int (int_of major + 1) @ ''.0.0-0'')
        else (let lower = (if truthy pre then
            ''>='' @ the major @ ''.'' @ the minor @ ''.'' @ the patch @ ''-'' @ the pre
          else ''>='' @ the major @ ''.'' @ the minor @ ''.'' @ the patch
            @ (if major = Some ''0'' then lower_pre else []))
          in if major = Some ''0'' then
               (if minor = Some ''0'' then
                  lower @ '' <'' @ the major @ ''.'' @ the minor @ ''.'' @ show_int (int_of patch + 1) @ ''-0''
                else lower @ '' <'' @ the major @ ''.'' @ show_int (int_of minor + 1) @ ''.0-0'')
             else lower @ '' <'' @ show_int (int_of major + 1) @ ''.0.0-0''))"

definition desugar_xrange :: "caps \<Rightarrow> bool \<Rightarrow> string" where
  "desugar_xrange g include_pre = (let
     operator0 = the (g 1); major = g 2; minor = g 3; patch = g 4;
     x_major = is_x major; x_minor = (x_major \<or> is_x minor); x_patch = (x_minor \<or> is_x patch);
     any_x = x_patch;
     lower_pre = (if include_pre then ''-0'' else []);
     operator = (if operator0 = ''='' \<and> any_x then [] else operator0)
     in if x_major then (if operator \<in> {''>'', ''<''} then ''<0.0.0-0'' else ''*'')
        else if operator \<noteq> [] \<and> any_x then (let
          minor_value = (if x_minor then 0 else int_of minor);
          major_value = int_of major;
          patch_value = (0 :: int);
          (operator, major_value, minor_value) =
            (if operator = ''>'' then
               (if x_minor then (''>='', major_value + 1, 0) else (''>='', major_value, minor_value + 1))
             else if operator = ''<='' then
               (if x_minor then (''<'', major_value + 1, minor_value)
                else (''<'', major_value, minor_value + 1))
             else (operator, major_value, minor_value));
          suffix = (if operator = ''<'' then ''-0'' else [])
          in operator @ show_int major_value @ ''.'' @ show_int minor_value @ ''.''
               @ show_int patch_value @ suffix)
        else if x_minor then
          ''>='' @ the major @ ''.0.0'' @ lower_pre @ '' <'' @ show_int (int_of major + 1) @ ''.0.0-0''
        else if x_patch then
          ''>='' @ the major @ ''.'' @ the minor @ ''.0'' @ lower_pre @ '' <'' @ the major @ ''.''
            @ show_int (int_of minor + 1) @ ''.0-0''
        else py_strip (the (g 0)))"

subsection \<open>Parsing\<close>

datatype range_error = InvalidRange string

definition parse_comparator :: "string \<Rightarrow> range_error + comparator" where
  "parse_comparator token0 = (let token = py_strip token0 in
     if token \<in> {[], ''*'', ''x'', ''X''} then Inr \<lparr>operator = [], bound_of = Any\<rparr>
     else (case re_groups COMPARATOR_RE token of
       None \<Rightarrow> Inl (InvalidRange token)
     | Some g \<Rightarrow> Inr \<lparr>operator = the (g 1),
         bound_of = Ver \<lparr>major = int_of (g 2), minor = int_of (g 3), patch = int_of (g 4),
           prerelease = split_prerelease (g 5), build = g 6\<rparr>\<rparr>))"

definition expand_token :: "bool \<Rightarrow> string \<Rightarrow> string" where
  "expand_token include_pre token =
     (case re_groups TILDE_RE token of Some g \<Rightarrow> desugar_tilde g include_pre
      | None \<Rightarrow> (case re_groups CARET_RE token of Some g \<Rightarrow> desugar_caret g include_pre
      | None \<Rightarrow> (case re_groups XRANGE_RE token of Some g \<Rightarrow> desugar_xrange g include_pre
      | None \<Rightarrow> token)))"

definition parse_comparator_set :: "string \<Rightarrow> bool \<Rightarrow> range_error + comparator list" where
  "parse_comparator_set raw0 include_pre = (let raw = py_strip raw0 in
     if raw = [] then Inr [\<lparr>operator = [], bound_of = Any\<rparr>]
     else (let
       raw = (case re_groups HYPHEN_RE raw of Some g \<Rightarrow> desugar_hyphen g include_pre | None \<Rightarrow> raw);
       raw = re_sub OPERATOR_SPACE_RE (\<lambda>g. the (g 1)) (py_strip raw)
       in if raw = [] then Inr [\<lparr>operator = [], bound_of = Any\<rparr>]
          else sum_bind
            (sum_map parse_comparator
               (concat (map (\<lambda>t. split_ws (expand_token include_pre t)) (split_ws raw))))
            (\<lambda>cs. Inr (if cs = [] then [\<lparr>operator = [], bound_of = Any\<rparr>] else cs))))"

definition parse_range :: "string option \<Rightarrow> bool \<Rightarrow> range_error + range_t" where
  "parse_range range_str include_pre = (case range_str of
     None \<Rightarrow> Inl (InvalidRange ''range is None'')
   | Some s \<Rightarrow> (let raw = py_strip s in
       sum_bind (sum_map (\<lambda>part. parse_comparator_set part include_pre) (re_split OR_RE raw))
         (\<lambda>ss. Inr \<lparr>include_prerelease = include_pre, raw = raw, sets = ss\<rparr>)))"

definition is_valid_range :: "string \<Rightarrow> bool" where
  "is_valid_range s = (case parse_range (Some s) False of Inl _ \<Rightarrow> False | Inr _ \<Rightarrow> True)"

definition satisfies :: "string \<Rightarrow> string \<Rightarrow> bool \<Rightarrow> bool" where
  "satisfies version range_str include_pre = (case semver_parse version of
     None \<Rightarrow> False
   | Some v \<Rightarrow> (case parse_range (Some range_str) include_pre of
       Inl _ \<Rightarrow> False | Inr r \<Rightarrow> range_test r v))"

fun max_satisfying_loop ::
  "range_t \<Rightarrow> string list \<Rightarrow> (string \<times> semver) option \<Rightarrow> (string \<times> semver) option" where
  "max_satisfying_loop r [] best = best"
| "max_satisfying_loop r (candidate # cs) best = (case semver_parse candidate of
     None \<Rightarrow> max_satisfying_loop r cs best
   | Some v \<Rightarrow>
       if \<not> range_test r v then max_satisfying_loop r cs best
       else (case best of
         None \<Rightarrow> max_satisfying_loop r cs (Some (candidate, v))
       | Some (b, bv) \<Rightarrow>
           if semver_lt bv v then max_satisfying_loop r cs (Some (candidate, v))
           else max_satisfying_loop r cs best))"

definition max_satisfying :: "string list \<Rightarrow> string \<Rightarrow> bool \<Rightarrow> string option" where
  "max_satisfying versions range_str include_pre = (case parse_range (Some range_str) include_pre of
     Inl _ \<Rightarrow> None
   | Inr r \<Rightarrow> map_option fst (max_satisfying_loop r versions None))"

end
