(* ===== verification/Semver_Facts.thy ===== *)
theory Semver_Facts
  imports Semver
begin

section \<open>What the version and range engine guarantees\<close>

text \<open>
  Proofs about \<open>Semver\<close>: the patterns accept exactly the printed forms of valid versions
  (round trips in both directions), the key order is the precedence of semver 2.0.0, the
  prerelease opt-in, what caret and tilde ranges mean, and that \<open>max_satisfying\<close> is maximal.
\<close>

subsection \<open>Characters of the grammar\<close>

lemma digit_not_space: "is_digit c \<Longrightarrow> \<not> is_space c"
  by (auto simp: is_digit_def is_space_def)

lemma digit_not_v_eq_space: "is_digit c \<Longrightarrow> \<not> is_v_eq_space c"
  by (auto simp: is_digit_def is_space_def is_v_eq_space_def)

lemma digit_ident: "is_digit c \<Longrightarrow> is_ident_char c"
  by (simp add: is_ident_char_def)

lemma ident_not_space: "is_ident_char c \<Longrightarrow> \<not> is_space c"
  by (auto simp: is_ident_char_def is_digit_def is_alpha_def is_space_def Let_def)

lemma ident_char_cases: "is_ident_char c \<longleftrightarrow> is_digit c \<or> is_ident_start c"
  by (auto simp: is_ident_char_def is_ident_start_def)

lemma ident_start_not_digit: "is_ident_start c \<Longrightarrow> \<not> is_digit c"
  by (auto simp: is_ident_start_def is_digit_def is_alpha_def Let_def)

lemma ident_not_punct:
  "is_ident_char c \<Longrightarrow> c \<noteq> CHR ''.'' \<and> c \<noteq> CHR ''+'' \<and> c \<noteq> CHR 0x0A \<and> c \<noteq> CHR ''|''"
  by (auto simp: is_ident_char_def is_digit_def is_alpha_def)

lemma punct_simps [simp]:
  "\<not> is_digit (CHR ''.'')" "\<not> is_digit (CHR ''-'')" "\<not> is_digit (CHR ''+'')" "\<not> is_digit (CHR '' '')"
  "\<not> is_ident_char (CHR ''.'')" "\<not> is_ident_char (CHR ''+'')"  "\<not> is_ident_char (CHR '' '')"
  "is_digit (CHR ''0'')" "\<not> is_space (CHR ''.'')" "\<not> is_space (CHR ''-'')" "\<not> is_space (CHR ''+'')"
  "\<not> is_space (CHR ''^'')" "\<not> is_space (CHR ''~'')" "\<not> is_space (CHR ''<'')" "\<not> is_space (CHR ''>'')"
  "\<not> is_space (CHR ''='')" "is_space (CHR '' '')" "is_space (CHR 0x0A)" "\<not> is_space (CHR ''0'')"
  by (simp_all add: is_digit_def is_ident_char_def is_alpha_def is_space_def)

lemma is_nonzero_digit_iff: "is_nonzero_digit c \<longleftrightarrow> is_digit c \<and> c \<noteq> CHR ''0''"
  by (auto simp: is_nonzero_digit_def is_digit_def)

subsection \<open>Numerals\<close>

lemma is_numeral_digits: "is_numeral p \<Longrightarrow> c \<in> set p \<Longrightarrow> is_digit c"
  by (auto simp: is_numeral_def list_all_iff)

lemma is_numeral_cases:
  "is_numeral p \<longleftrightarrow> p = ''0'' \<or> (\<exists>c ds. p = c # ds \<and> is_nonzero_digit c \<and> (\<forall>d \<in> set ds. is_digit d))"
  by (cases p) (auto simp: is_numeral_def list_all_iff is_nonzero_digit_iff)

lemma show_nat_of_digits: "is_numeral p \<Longrightarrow> show_nat (nat_of_digits p) = p"
proof (induction p rule: rev_induct)
  case Nil
  then show ?case by (simp add: is_numeral_def)
next
  case (snoc c p)
  show ?case
  proof (cases "p = []")
    case True
    with snoc.prems have "is_digit c" by (simp add: is_numeral_def)
    then show ?thesis
      using digit_val_inverse [of c] True
      by (simp add: nat_of_digits_snoc [of "[]", simplified] show_nat.simps)
  next
    case False
    with snoc.prems have p: "is_numeral p" and c: "is_digit c" and nz: "hd p \<noteq> CHR ''0''"
      by (auto simp: is_numeral_def)
    have "nat_of_digits p \<noteq> 0"
    proof
      assume "nat_of_digits p = 0"
      with snoc.IH [OF p] have "p = ''0''" by (simp add: show_nat_0)
      with nz show False by simp
    qed
    moreover have "digit_val c < 10" "digit_char (digit_val c) = c"
      using digit_val_inverse [OF c] by auto
    ultimately show ?thesis
      using snoc.IH [OF p] by (subst show_nat.simps) (simp add: nat_of_digits_snoc)
  qed
qed

lemma NUM_forward:
  "is_numeral p \<Longrightarrow> s = [] \<or> \<not> is_digit (hd s) \<Longrightarrow> k s g = Some x \<Longrightarrow> mk NUM k (p @ s) g = Some x"
  unfolding is_numeral_cases NUM_def
  by (auto simp: is_nonzero_digit_iff intro: star_greedy star_all split: option.splits simp del: mk.simps(6))

lemma eats_NUM: "eats NUM s g t h \<Longrightarrow> h = g \<and> (\<exists>p. s = p @ t \<and> is_numeral p)"
  unfolding NUM_def eats_iffs eats_Star_Cls_iff
  by (auto simp: is_numeral_cases)

lemma Grp_forward:
  assumes "\<And>k :: string \<Rightarrow> caps \<Rightarrow> 'a option. k s g = Some x \<Longrightarrow> mk r k (p @ s) g = Some x"
    and "k s (g(n \<mapsto> p)) = Some x"
  shows "mk (Grp n r) k (p @ s) g = Some x"
  using assms by simp

lemmas Grp_NUM_forward = Grp_forward [OF NUM_forward]

subsection \<open>Prerelease identifiers\<close>

definition valid_ident :: "ident \<Rightarrow> bool" where
  "valid_ident i = (case i of
     INum n \<Rightarrow> 0 \<le> n
   | IStr s \<Rightarrow> list_all is_ident_char s \<and> \<not> list_all is_digit s)"

lemma show_ident_chars: "valid_ident i \<Longrightarrow> c \<in> set (show_ident i) \<Longrightarrow> is_ident_char c"
  by (cases i) (auto simp: valid_ident_def list_all_iff show_int_def digit_ident dest: show_nat_digits)

lemma show_ident_ne: "valid_ident i \<Longrightarrow> show_ident i \<noteq> []"
  by (cases i) (auto simp: valid_ident_def show_int_def)

text \<open>A string of identifier characters that is not a numeral splits at its first non-digit.\<close>

lemma non_digit_split:
  assumes "list_all is_ident_char s" and "\<not> list_all is_digit s"
  obtains ds c r where "s = ds @ c # r" "\<forall>d \<in> set ds. is_digit d" "is_ident_start c"
    "\<forall>d \<in> set r. is_ident_char d"
proof -
  have "dropWhile is_digit s \<noteq> []"
    using assms(2) by (auto simp: dropWhile_eq_Nil_conv list_all_iff)
  then obtain c r where cr: "dropWhile is_digit s = c # r" by (cases "dropWhile is_digit s") auto
  then have s: "s = takeWhile is_digit s @ c # r" by (metis takeWhile_dropWhile_id)
  have "\<not> is_digit c" using cr by (metis hd_dropWhile list.distinct(1) list.sel(1))
  moreover have "is_ident_char c" "\<forall>d \<in> set r. is_ident_char d"
    using assms(1) by (subst (asm) s, simp add: list_all_iff)+
  ultimately show thesis
    by (intro that [OF s]) (auto simp: ident_char_cases dest: set_takeWhileD)
qed

lemma NON_NUM_forward:
  assumes "list_all is_ident_char p" "\<not> list_all is_digit p"
    and "s = [] \<or> \<not> is_ident_char (hd s)" "k s g = Some x"
  shows "mk NON_NUM k (p @ s) g = Some x"
proof -
  obtain ds c r where p: "p = ds @ c # r" "\<forall>d \<in> set ds. is_digit d" "is_ident_start c"
    "\<forall>d \<in> set r. is_ident_char d" using non_digit_split [OF assms(1,2)] by blast
  have "mk (Star (Cls is_ident_char)) k (r @ s) g = Some x"
    using p assms by (intro star_greedy) auto
  then have "mk (Seq (Cls is_ident_start) (Star (Cls is_ident_char))) k (c # r @ s) g = Some x"
    using p by simp
  with p show ?thesis
    unfolding NON_NUM_def
    using star_greedy [OF p(2), of "c # r @ s" "mk (Seq (Cls is_ident_start) (Star (Cls is_ident_char))) k" g x]
    by (simp add: ident_start_not_digit del: mk.simps(6))
qed

text \<open>
  \<open>blocks k\<close>: what follows cannot start inside an identifier, so that the numeric
  alternative of \<open>PRE_IDENT\<close> is only taken for a whole identifier.
\<close>

definition blocks :: "(string \<Rightarrow> caps \<Rightarrow> 'a option) \<Rightarrow> bool" where
  "blocks k = (\<forall>c t g. is_ident_char c \<longrightarrow> k (c # t) g = None)"

lemma PRE_IDENT_forward:
  assumes i: "valid_ident i" and k: "blocks k"
    and s: "s = [] \<or> \<not> is_ident_char (hd s)" "k s g = Some x"
  shows "mk PRE_IDENT k (show_ident i @ s) g = Some x"
proof (cases i)
  case (INum n)
  with i have "show_ident i = show_nat (nat n)" by (simp add: valid_ident_def show_int_def)
  with s show ?thesis
    unfolding PRE_IDENT_def mk.simps
    by (subst NUM_forward) (auto simp: digit_ident)
next
  case (IStr p)
  with i have p: "list_all is_ident_char p" "\<not> list_all is_digit p" by (auto simp: valid_ident_def)
  have "mk NUM k (p @ s) g = None"
  proof (rule mk_None_I)
    fix t h
    assume "eats NUM (p @ s) g t h"
    then obtain d where d: "p @ s = d @ t" "is_numeral d" using eats_NUM by blast
    have "length d < length p"
    proof (rule ccontr)
      assume "\<not> length d < length p"
      with d(1) have "\<exists>u. d = p @ u" by (auto simp: append_eq_append_conv2)
      with d(2) p(2) show False by (auto simp: is_numeral_def list_all_iff)
    qed
    with d(1) have "t = drop (length d) p @ s" "drop (length d) p \<noteq> []"
      by (auto simp: append_eq_append_conv2)
    moreover have "\<forall>c \<in> set (drop (length d) p). is_ident_char c"
      using p(1) by (auto simp: list_all_iff dest: in_set_dropD)
    ultimately show "k t h = None"
      using k by (cases "drop (length d) p") (auto simp: blocks_def)
  qed
  with IStr NON_NUM_forward [OF p, of s k g x] s show ?thesis by (simp add: PRE_IDENT_def)
qed

text \<open>The dotted lists of the grammar: a first item, then items each after a dot.\<close>

definition dotted :: "string list \<Rightarrow> string" where
  "dotted ps = concat (map (\<lambda>p. CHR ''.'' # p) ps)"

lemma dotted_simps [simp]: "dotted [] = []" "dotted (p # ps) = CHR ''.'' # p @ dotted ps"
  by (simp_all add: dotted_def)

lemma join_dotted: "py_join ''.'' (p # ps) = p @ dotted ps"
  by (induction ps arbitrary: p) auto

lemma hd_dotted: "hd (dotted ps @ s) = (if ps = [] then hd s else CHR ''.'')"
  by (cases ps) auto

lemma dotted_star_forward:
  fixes k :: "string \<Rightarrow> caps \<Rightarrow> 'a option"
  assumes item: "\<And>i s g x k'. i \<in> set is \<Longrightarrow> s = [] \<or> \<not> is_ident_char (hd s) \<Longrightarrow> (blocks k \<Longrightarrow> blocks k') \<Longrightarrow>
      k' s g = Some x \<Longrightarrow> mk r (k' :: string \<Rightarrow> caps \<Rightarrow> 'a option) (f i @ s) g = Some x"
    and s: "s = [] \<or> hd s \<noteq> CHR ''.'' \<and> \<not> is_ident_char (hd s)" "k s g = Some x"
  shows "length (dotted (map f is) @ s) \<le> n \<Longrightarrow>
    star_k (mk (Seq (Lit (CHR ''.'')) r)) n k (dotted (map f is) @ s) g = Some x"
  using item
proof (induction "is" arbitrary: n)
  case Nil
  with s show ?case by (cases n; cases s) auto
next
  case (Cons i js)
  from Cons.prems(1) obtain m where n: "n = Suc m" by (cases n) auto
  let ?u = "dotted (map f js) @ s"
  let ?k = "\<lambda>s' g'. if length s' < length (CHR ''.'' # f i @ ?u)
      then star_k (mk (Seq (Lit (CHR ''.'')) r)) m k s' g' else None"
  have "star_k (mk (Seq (Lit (CHR ''.'')) r)) m k ?u g = Some x"
    by (rule Cons.IH) (use Cons.prems n in auto)
  then have "?k ?u g = Some x" by simp
  moreover have "blocks ?k" if "blocks k"
  proof -
    have "star_k (mk (Seq (Lit (CHR ''.'')) r)) m k (c # t) g = None" if "is_ident_char c" for c t g
      using that \<open>blocks k\<close> by (cases m) (auto simp: blocks_def)
    then show ?thesis by (auto simp: blocks_def)
  qed
  ultimately have "mk r ?k (f i @ ?u) g = Some x"
    by (intro Cons.prems(2)) (use s in \<open>auto simp: hd_dotted\<close>)
  then have "mk (Seq (Lit (CHR ''.'')) r) ?k (CHR ''.'' # f i @ ?u) g = Some x" by simp
  then show ?case by (simp add: n del: mk.simps)
qed

definition join_idents :: "ident list \<Rightarrow> string" where
  "join_idents ids = py_join ''.'' (map show_ident ids)"

abbreviation IDENTS :: re where
  "IDENTS \<equiv> Seq PRE_IDENT (Star (Seq (Lit (CHR ''.'')) PRE_IDENT))"

lemma IDENTS_forward:
  assumes ids: "ids \<noteq> []" "list_all valid_ident ids" and k: "blocks k"
    and s: "s = [] \<or> hd s \<noteq> CHR ''.'' \<and> \<not> is_ident_char (hd s)" "k s g = Some x"
  shows "mk IDENTS k (join_idents ids @ s) g = Some x"
proof -
  obtain i js where c: "ids = i # js" using ids(1) by (cases ids) auto
  let ?u = "dotted (map show_ident js) @ s"
  let ?K = "mk (Star (Seq (Lit (CHR ''.'')) PRE_IDENT)) k"
  have "?K ?u g = Some x"
    unfolding mk.simps(6)
    by (rule dotted_star_forward [OF PRE_IDENT_forward])
       (use ids c k s in \<open>auto simp: list_all_iff\<close>)
  moreover have "blocks ?K" using k by (auto simp: blocks_def)
  ultimately have "mk PRE_IDENT ?K (show_ident i @ ?u) g = Some x"
    using ids c s by (intro PRE_IDENT_forward) (auto simp: hd_dotted)
  then show ?thesis by (simp add: c join_idents_def join_dotted del: mk.simps(6))
qed

lemma PRERELEASE_forward:
  assumes "ids \<noteq> []" "list_all valid_ident ids" "blocks k"
    and "s = [] \<or> hd s \<noteq> CHR ''.'' \<and> \<not> is_ident_char (hd s)"
    and "k s (g(n \<mapsto> join_idents ids)) = Some x"
  shows "mk (PRERELEASE n) k (CHR ''-'' # join_idents ids @ s) g = Some x"
proof -
  let ?k = "\<lambda>t h. k t (h(n \<mapsto> take (length (join_idents ids @ s) - length t) (join_idents ids @ s)))"
  have "mk IDENTS ?k (join_idents ids @ s) g = Some x"
    using assms by (intro IDENTS_forward) (auto simp: blocks_def)
  then show ?thesis by (simp add: PRERELEASE_def del: mk.simps(6))
qed

subsection \<open>Build metadata\<close>

definition valid_build :: "string \<Rightarrow> bool" where
  "valid_build b = list_all (\<lambda>p. p \<noteq> [] \<and> list_all is_ident_char p) (split_on (CHR ''.'') b)"

lemma Plus_ident_forward:
  assumes "p \<noteq> []" "list_all is_ident_char p" "s = [] \<or> \<not> is_ident_char (hd s)" "k s g = Some x"
  shows "mk (Plus (Cls is_ident_char)) k (p @ s) g = Some x"
proof -
  obtain c r where p: "p = c # r" using assms(1) by (cases p) auto
  with assms have "mk (Star (Cls is_ident_char)) k (r @ s) g = Some x"
    by (intro star_greedy) (auto simp: list_all_iff)
  with p assms show ?thesis by (simp del: mk.simps(6))
qed

lemma valid_build_dotted:
  assumes "valid_build b"
  obtains p ps where "b = p @ dotted ps" "\<forall>q \<in> set (p # ps). q \<noteq> [] \<and> list_all is_ident_char q"
proof -
  obtain p ps where e: "split_on (CHR ''.'') b = p # ps"
    by (cases "split_on (CHR ''.'') b") auto
  then have "b = p @ dotted ps"
    using join_split_on [of "CHR ''.''" b] by (simp add: join_dotted)
  with e assms show thesis by (intro that) (auto simp: valid_build_def list_all_iff)
qed

lemma BUILD_forward:
  assumes b: "valid_build b" and s: "s = [] \<or> hd s \<noteq> CHR ''.'' \<and> \<not> is_ident_char (hd s)"
    and k: "k s (g(n \<mapsto> b)) = Some x"
  shows "mk (BUILD n) k (CHR ''+'' # b @ s) g = Some x"
proof -
  obtain p ps where e: "b = p @ dotted ps"
    "\<forall>q \<in> set (p # ps). q \<noteq> [] \<and> list_all is_ident_char q" using valid_build_dotted [OF b] .
  let ?R = "Plus (Cls is_ident_char)"
  let ?k = "\<lambda>t h. k t (h(n \<mapsto> take (length (b @ s) - length t) (b @ s)))"
  let ?K = "mk (Star (Seq (Lit (CHR ''.'')) ?R)) ?k"
  have "star_k (mk (Seq (Lit (CHR ''.'')) ?R)) (length (dotted (map id ps) @ s)) ?k
      (dotted (map id ps) @ s) g = Some x"
  proof (rule dotted_star_forward)
    fix i t h y and k' :: "string \<Rightarrow> caps \<Rightarrow> 'a option"
    assume "i \<in> set ps" "t = [] \<or> \<not> is_ident_char (hd t)" "k' t h = Some y"
    then show "mk ?R k' (id i @ t) h = Some y" using e by (intro Plus_ident_forward) auto
  qed (use s k in auto)
  then have "?K (dotted ps @ s) g = Some x" by (simp del: mk.simps(1-5))
  then have "mk ?R ?K (p @ dotted ps @ s) g = Some x"
    using e s by (intro Plus_ident_forward) (auto simp: hd_dotted)
  then show ?thesis by (simp add: BUILD_def e del: mk.simps(6) take_append length_append)
qed

subsection \<open>The tail of a version: prerelease, build, blanks, end\<close>

abbreviation TAIL :: "nat \<Rightarrow> re" where
  "TAIL n \<equiv> Seqs [Opt (PRERELEASE n), Opt (BUILD (Suc n)), SPACES, EndZ]"

definition pre_part :: "ident list \<Rightarrow> string" where
  "pre_part ids = (if ids = [] then [] else CHR ''-'' # join_idents ids)"

definition build_part :: "string option \<Rightarrow> string" where
  "build_part b = (if truthy b then CHR ''+'' # the b else [])"

definition tail_caps :: "nat \<Rightarrow> ident list \<Rightarrow> string option \<Rightarrow> caps \<Rightarrow> caps" where
  "tail_caps n ids b g = (let g' = (if ids = [] then g else g(n \<mapsto> join_idents ids))
     in if truthy b then g'(Suc n \<mapsto> the b) else g')"

lemma TAIL_forward:
  assumes ids: "list_all valid_ident ids" and b: "truthy b \<Longrightarrow> valid_build (the b)"
    and k: "k [] (tail_caps n ids b g) = Some x"
  shows "mk (TAIL n) k (pre_part ids @ build_part b) g = Some x"
proof -
  let ?K = "mk (Seqs [Opt (BUILD (Suc n)), SPACES, EndZ]) k"
  let ?g = "if ids = [] then g else g(n \<mapsto> join_idents ids)"
  have K: "?K (build_part b) ?g = Some x"
  proof (cases "truthy b")
    case True
    have "mk (BUILD (Suc n)) (mk (Seqs [SPACES, EndZ]) k) (CHR ''+'' # the b @ []) ?g = Some x"
      by (rule BUILD_forward) (use True b k in \<open>auto simp: tail_caps_def Let_def\<close>)
    with True show ?thesis by (simp add: build_part_def)
  next
    case False
    with k show ?thesis by (simp add: build_part_def tail_caps_def BUILD_def)
  qed
  have "blocks ?K"
  proof (unfold blocks_def, intro allI impI)
    fix c t h
    assume "is_ident_char c"
    then have "\<not> is_space c" "c \<noteq> CHR 0x0A" "c \<noteq> CHR ''+''"
      using ident_not_space ident_not_punct by blast+
    then show "?K (c # t) h = None"
      by (intro mk_None_I) (auto simp: eats_iffs eats_Star_Cls_iff BUILD_def append_eq_Cons_conv Cons_eq_append_conv)
  qed
  show ?thesis
  proof (cases "ids = []")
    case True
    have "mk (PRERELEASE n) ?K (build_part b) g = None"
      by (simp add: PRERELEASE_def build_part_def)
    with True K show ?thesis by (simp add: pre_part_def)
  next
    case False
    have "mk (PRERELEASE n) ?K (CHR ''-'' # join_idents ids @ build_part b) g = Some x"
      by (rule PRERELEASE_forward [OF False ids \<open>blocks ?K\<close>])
         (use K False in \<open>auto simp: build_part_def\<close>)
    with False show ?thesis by (simp add: pre_part_def)
  qed
qed

subsection \<open>Whole versions and comparators\<close>

abbreviation CORE :: "nat \<Rightarrow> nat \<Rightarrow> nat \<Rightarrow> nat \<Rightarrow> re" where
  "CORE a b c d \<equiv> Seqs [Grp a NUM, Lit (CHR ''.''), Grp b NUM, Lit (CHR ''.''), Grp c NUM,
     Opt (PRERELEASE d), Opt (BUILD (Suc d)), SPACES, EndZ]"

definition valid_semver :: "semver \<Rightarrow> bool" where
  "valid_semver v = (0 \<le> major v \<and> 0 \<le> minor v \<and> 0 \<le> patch v \<and> list_all valid_ident (prerelease v)
     \<and> (case build v of None \<Rightarrow> True | Some b \<Rightarrow> valid_build b))"

lemma valid_build_ne: "valid_build b \<Longrightarrow> b \<noteq> []"
  by (auto simp: valid_build_def)

lemma semver_str_parts:
  assumes "valid_semver v"
  shows "semver_str v = show_nat (nat (major v)) @ CHR ''.'' # show_nat (nat (minor v)) @ CHR ''.''
    # show_nat (nat (patch v)) @ pre_part (prerelease v) @ build_part (build v)"
  using assms
  by (auto simp: semver_str_def valid_semver_def show_int_def pre_part_def build_part_def join_idents_def)

definition core_caps :: "nat \<Rightarrow> nat \<Rightarrow> nat \<Rightarrow> nat \<Rightarrow> semver \<Rightarrow> caps \<Rightarrow> caps" where
  "core_caps a b c d v g = tail_caps d (prerelease v) (build v)
     (g(a \<mapsto> show_nat (nat (major v)), b \<mapsto> show_nat (nat (minor v)), c \<mapsto> show_nat (nat (patch v))))"

lemma hd_pre_build: "hd (pre_part ids @ build_part b) = CHR ''-'' \<or> hd (pre_part ids @ build_part b) = CHR ''+''
    \<or> pre_part ids @ build_part b = []"
  by (auto simp: pre_part_def build_part_def)

lemma Grp_NUM_step:
  "is_numeral p \<Longrightarrow> s = [] \<or> \<not> is_digit (hd s) \<Longrightarrow> k s (g(n \<mapsto> p)) = Some x \<Longrightarrow>
   mk (Grp n NUM) k (p @ s) g = Some x"
  by (rule Grp_forward) (rule NUM_forward)

lemma CORE_forward:
  assumes v: "valid_semver v" and k: "k [] (core_caps a b c d v g) = Some x"
  shows "mk (CORE a b c d) k (semver_str v) g = Some x"
proof -
  let ?A = "show_nat (nat (major v))" and ?B = "show_nat (nat (minor v))"
    and ?C = "show_nat (nat (patch v))" and ?t = "pre_part (prerelease v) @ build_part (build v)"
  let ?k3 = "mk (TAIL d) k"
  let ?k2 = "mk (Seqs [Lit (CHR ''.''), Grp c NUM]) ?k3"
  let ?k1 = "mk (Seqs [Lit (CHR ''.''), Grp b NUM]) ?k2"
  have t: "?t = [] \<or> \<not> is_digit (hd ?t)"
    using hd_pre_build [of "prerelease v" "build v"] by auto
  have b: "truthy (build v) \<Longrightarrow> valid_build (the (build v))"
    using v by (auto simp: valid_semver_def truthy_def split: option.splits)
  have "?k3 ?t (g(a \<mapsto> ?A, b \<mapsto> ?B, c \<mapsto> ?C)) = Some x"
    by (rule TAIL_forward) (use v b k in \<open>auto simp: valid_semver_def core_caps_def\<close>)
  then have "mk (Grp c NUM) ?k3 (?C @ ?t) (g(a \<mapsto> ?A, b \<mapsto> ?B)) = Some x"
    using t by (intro Grp_NUM_step) auto
  then have "?k2 (CHR ''.'' # ?C @ ?t) (g(a \<mapsto> ?A, b \<mapsto> ?B)) = Some x"
    by (simp del: mk.simps(7) Seqs.simps add: Seqs.simps(3) [of _ _ "[]"] Seqs.simps(2))
  then have "mk (Grp b NUM) ?k2 (?B @ CHR ''.'' # ?C @ ?t) (g(a \<mapsto> ?A)) = Some x"
    by (intro Grp_NUM_step) auto
  then have "?k1 (CHR ''.'' # ?B @ CHR ''.'' # ?C @ ?t) (g(a \<mapsto> ?A)) = Some x"
    by (simp del: mk.simps(7) Seqs.simps add: Seqs.simps(3) [of _ _ "[]"] Seqs.simps(2))
  then have "mk (Grp a NUM) ?k1 (?A @ CHR ''.'' # ?B @ CHR ''.'' # ?C @ ?t) g = Some x"
    by (intro Grp_NUM_step) auto
  then show ?thesis by (simp only: semver_str_parts [OF v] Seqs.simps mk_Seq_eq)
qed

lemma valid_int_of: "0 \<le> i \<Longrightarrow> int_of (Some (show_nat (nat i))) = i"
  by (simp add: int_of_def)

lemma split_join_idents:
  assumes "list_all valid_ident ids" "ids \<noteq> []"
  shows "split_prerelease (Some (join_idents ids)) = ids"
proof -
  have dot: "CHR ''.'' \<notin> set (show_ident i)" if "i \<in> set ids" for i
    using assms that show_ident_chars ident_not_punct by (fastforce simp: list_all_iff)
  have "split_on (CHR ''.'') (join_idents ids) = map show_ident ids"
    unfolding join_idents_def using assms(2) dot by (intro split_on_join) auto
  moreover have "(if py_isdigit (show_ident i) then INum (int (nat_of_digits (show_ident i)))
      else IStr (show_ident i)) = i" if "i \<in> set ids" for i
    using assms that
    by (cases i) (auto simp: list_all_iff valid_ident_def py_isdigit_def show_int_def dest: show_nat_digits)
  moreover have "join_idents ids \<noteq> []"
  proof -
    obtain i js where "ids = i # js" using assms(2) by (cases ids) auto
    then show ?thesis using assms(1) show_ident_ne [of i]
      by (simp add: join_idents_def join_dotted)
  qed
  ultimately show ?thesis
    by (simp add: split_prerelease_def truthy_def map_idI)
qed

lemma caps_semver:
  assumes v: "valid_semver v" and d: "distinct [0, a, b, c, d, Suc d]"
    and base: "g d = None" "g (Suc d) = None"
  defines "h \<equiv> core_caps a b c d v g"
  shows "int_of (h a) = major v" "int_of (h b) = minor v" "int_of (h c) = patch v"
    "split_prerelease (h d) = prerelease v" "h (Suc d) = build v"
proof -
  have t: "truthy (build v) \<longleftrightarrow> build v \<noteq> None"
    using v by (auto simp: truthy_def valid_semver_def valid_build_ne split: option.splits)
  have h: "h = tail_caps d (prerelease v) (build v)
     (g(a \<mapsto> show_nat (nat (major v)), b \<mapsto> show_nat (nat (minor v)), c \<mapsto> show_nat (nat (patch v))))"
    by (simp add: h_def core_caps_def)
  from v d base t show "int_of (h a) = major v" "int_of (h b) = minor v" "int_of (h c) = patch v"
    "h (Suc d) = build v"
    by (auto simp: h tail_caps_def valid_semver_def valid_int_of Let_def)
  show "split_prerelease (h d) = prerelease v"
    using v d base split_join_idents [of "prerelease v"]
    by (auto simp: h tail_caps_def valid_semver_def Let_def split_prerelease_def truthy_def)
qed

text \<open>A printed version starts with a digit and holds no blank.\<close>

lemma semver_str_chars:
  assumes "valid_semver v" "c \<in> set (semver_str v)"
  shows "is_ident_char c \<or> c = CHR ''.'' \<or> c = CHR ''+''"
proof -
  have join: "is_ident_char c \<or> c = CHR ''.''" if "c \<in> set (join_idents ids)" "list_all valid_ident ids" for ids
    using that
  proof (cases ids)
    case (Cons i js)
    with that show ?thesis
      by (auto simp: join_idents_def join_dotted dotted_def list_all_iff
          dest: show_ident_chars split: if_splits)
  qed (simp add: join_idents_def)
  have bld: "is_ident_char c \<or> c = CHR ''.''" if b: "valid_build b" and c: "c \<in> set b" for b
  proof -
    obtain p ps where e: "b = p @ dotted ps"
      "\<forall>q \<in> set (p # ps). q \<noteq> [] \<and> list_all is_ident_char q" using valid_build_dotted [OF b] .
    then show ?thesis using c by (auto simp: dotted_def list_all_iff split: if_splits)
  qed
  show ?thesis
    using assms(2) unfolding semver_str_parts [OF assms(1)]
    using assms(1) join bld
    by (auto simp: pre_part_def build_part_def valid_semver_def truthy_def is_ident_char_def
        dest: show_nat_digits split: if_splits option.splits)
qed

lemma semver_str_no_space: "valid_semver v \<Longrightarrow> c \<in> set (semver_str v) \<Longrightarrow> \<not> is_space c"
  using semver_str_chars ident_not_space by fastforce

lemma semver_str_hd: "valid_semver v \<Longrightarrow> is_digit (hd (semver_str v)) \<and> semver_str v \<noteq> []"
  using show_nat_digits [OF hd_in_set [OF show_nat_ne]] by (simp add: semver_str_parts)

text \<open>Printing then parsing gives the version back.\<close>

lemma parse_semver_str:
  assumes v: "valid_semver v"
  shows "semver_parse (semver_str v) = Some v"
proof -
  let ?s = "semver_str v"
  let ?h = "(core_caps 1 2 3 4 v Map.empty)(0 \<mapsto> ?s)"
  have "mk (CORE 1 2 3 4) (\<lambda>t g. Some (g(0 \<mapsto> take (length ?s - length t) ?s))) ?s Map.empty = Some ?h"
    by (rule CORE_forward [OF v]) simp
  moreover have "mk FULL_VERSION_RE k ?s g = mk (CORE 1 2 3 4) k ?s g" for k :: "string \<Rightarrow> caps \<Rightarrow> caps option" and g
  proof -
    have re: "FULL_VERSION_RE = Seq (Star (Cls is_v_eq_space)) (CORE 1 2 3 4)"
      by (simp add: FULL_VERSION_RE_def)
    have skip: "?s = [] \<or> \<not> is_v_eq_space (hd ?s)"
      using semver_str_hd [OF v] digit_not_v_eq_space by auto
    show ?thesis by (simp only: re mk_Seq_eq star_skip [where P = is_v_eq_space, OF skip])
  qed
  ultimately have "re_groups FULL_VERSION_RE ?s = Some ?h" by (simp add: re_groups_def)
  moreover have "py_strip ?s = ?s"
    by (rule py_strip_nospace) (rule semver_str_no_space [OF v])
  ultimately show ?thesis
    using caps_semver [OF v, of 1 2 3 4 Map.empty] by (simp add: semver_parse_def)
qed

subsection \<open>What a successful parse guarantees\<close>

lemma eats_NON_NUM:
  "eats NON_NUM s g t h \<Longrightarrow>
   h = g \<and> (\<exists>p. s = p @ t \<and> list_all is_ident_char p \<and> \<not> list_all is_digit p)"
  unfolding NON_NUM_def Seqs.simps eats_iffs eats_Star_Cls_iff
  by (auto simp: list_all_iff ident_char_cases dest: ident_start_not_digit)

lemma eats_PRE_IDENT:
  "eats PRE_IDENT s g t h \<Longrightarrow> h = g \<and> (\<exists>i. valid_ident i \<and> s = show_ident i @ t)"
proof -
  assume "eats PRE_IDENT s g t h"
  then consider "eats NUM s g t h" | "eats NON_NUM s g t h"
    by (auto simp: PRE_IDENT_def eats_Alt_iff)
  then show ?thesis
  proof cases
    case 1
    then obtain p where p: "h = g" "s = p @ t" "is_numeral p" using eats_NUM by blast
    then have "show_ident (INum (int (nat_of_digits p))) = p"
      by (simp add: show_int_def show_nat_of_digits)
    with p show ?thesis
      by (intro conjI exI [of _ "INum (int (nat_of_digits p))"]) (auto simp: valid_ident_def)
  next
    case 2
    then obtain p where "h = g" "s = p @ t" "list_all is_ident_char p" "\<not> list_all is_digit p"
      using eats_NON_NUM by blast
    then show ?thesis
      by (intro conjI exI [of _ "IStr p"]) (auto simp: valid_ident_def)
  qed
qed

lemma eats_dotted_star:
  assumes item: "\<And>s g t h. eats r s g t h \<Longrightarrow> h = g \<and> (\<exists>p. s = p @ t \<and> Q p)"
  shows "eats q s g t h \<Longrightarrow> q = Star (Seq (Lit (CHR ''.'')) r) \<Longrightarrow>
    h = g \<and> (\<exists>ps. (\<forall>p \<in> set ps. Q p) \<and> s = dotted ps @ t)"
proof (induction rule: eats.induct)
  case (eats_Star0 r s g)
  then show ?case by (intro conjI exI [of _ "[]"]) auto
next
  case (eats_StarS r' s g t h u i)
  then obtain ps where ps: "i = h" "\<forall>p \<in> set ps. Q p" "t = dotted ps @ u" by auto
  from eats_StarS.hyps(1) eats_StarS.prems obtain s' where s': "s = CHR ''.'' # s'" "eats r s' g t h"
    by (auto simp: eats_iffs)
  with item obtain p where "h = g" "s' = p @ t" "Q p" by blast
  with ps s' show ?case by (intro conjI exI [of _ "p # ps"]) auto
qed auto

lemma idents_of_strings:
  "\<forall>p \<in> set ps. \<exists>j. valid_ident j \<and> p = show_ident j \<Longrightarrow>
   \<exists>js. ps = map show_ident js \<and> list_all valid_ident js"
proof (induction ps)
  case Nil
  then show ?case by simp
next
  case (Cons p ps)
  then obtain j js where "valid_ident j" "p = show_ident j" "ps = map show_ident js"
    "list_all valid_ident js" by auto
  then show ?case by (intro exI [of _ "j # js"]) simp
qed

lemma eats_PRERELEASE:
  assumes "eats (PRERELEASE n) s g t h"
  shows "\<exists>ids. ids \<noteq> [] \<and> list_all valid_ident ids \<and> h = g(n \<mapsto> join_idents ids)
    \<and> s = CHR ''-'' # join_idents ids @ t"
proof -
  from assms obtain s' u g1 g2 where s: "s = CHR ''-'' # s'" and id1: "eats PRE_IDENT s' g u g1"
    and rest: "eats (Star (Seq (Lit (CHR ''.'')) PRE_IDENT)) u g1 t g2"
    and h: "h = g2(n \<mapsto> take (length s' - length t) s')"
    unfolding PRERELEASE_def Seqs.simps eats_iffs by blast
  obtain i where i: "valid_ident i" "s' = show_ident i @ u" "g1 = g"
    using eats_PRE_IDENT [OF id1] by blast
  obtain ps where ps: "\<forall>p \<in> set ps. \<exists>j. valid_ident j \<and> p = show_ident j" "u = dotted ps @ t" "g2 = g1"
    using eats_dotted_star [where Q = "\<lambda>p. \<exists>j. valid_ident j \<and> p = show_ident j", OF _ rest refl]
      eats_PRE_IDENT by blast
  obtain js where js: "ps = map show_ident js" "list_all valid_ident js"
    using idents_of_strings [OF ps(1)] by blast
  have "s' = join_idents (i # js) @ t"
    by (simp add: i ps js join_idents_def join_dotted)
  with i ps js s h show ?thesis by (intro exI [of _ "i # js"]) simp
qed

lemma eats_Plus_ident:
  "eats (Plus (Cls is_ident_char)) s g t h \<Longrightarrow>
   h = g \<and> (\<exists>p. s = p @ t \<and> p \<noteq> [] \<and> list_all is_ident_char p)"
  unfolding eats_iffs eats_Star_Cls_iff by (force simp: list_all_iff)

lemma eats_BUILD:
  assumes "eats (BUILD n) s g t h"
  shows "\<exists>b. valid_build b \<and> h = g(n \<mapsto> b) \<and> s = CHR ''+'' # b @ t"
proof -
  let ?Q = "\<lambda>p. p \<noteq> [] \<and> list_all is_ident_char p"
  from assms obtain s' u g1 g2 where s: "s = CHR ''+'' # s'"
    and id1: "eats (Plus (Cls is_ident_char)) s' g u g1"
    and rest: "eats (Star (Seq (Lit (CHR ''.'')) (Plus (Cls is_ident_char)))) u g1 t g2"
    and h: "h = g2(n \<mapsto> take (length s' - length t) s')"
    unfolding BUILD_def Seqs.simps eats_Seq_iff eats_Grp_iff eats_Cls_iff by blast
  obtain p where p: "s' = p @ u" "?Q p" "g1 = g" using eats_Plus_ident [OF id1] by blast
  obtain ps where ps: "\<forall>p \<in> set ps. ?Q p" "u = dotted ps @ t" "g2 = g1"
    using eats_dotted_star [where Q = ?Q, OF _ rest refl] eats_Plus_ident by blast
  have nodot: "CHR ''.'' \<notin> set q" if "?Q q" for q
    using that ident_not_punct by (auto simp: list_all_iff)
  have "p @ dotted ps = py_join ''.'' (p # ps)" by (simp add: join_dotted)
  then have "split_on (CHR ''.'') (p @ dotted ps) = p # ps"
    using split_on_join [of "p # ps" "CHR ''.''"] nodot p ps(1) by auto
  then have "valid_build (p @ dotted ps)" using p ps(1) by (auto simp: valid_build_def list_all_iff)
  then show ?thesis using p ps h s by (intro exI [of _ "p @ dotted ps"]) simp
qed

lemma eats_opt_PRERELEASE:
  "eats (Opt (PRERELEASE n)) s g t h \<Longrightarrow>
   \<exists>ids. list_all valid_ident ids \<and> h = (if ids = [] then g else g(n \<mapsto> join_idents ids))"
  by (subst (asm) eats_Alt_iff) (auto simp: eats_Eps_iff dest!: eats_PRERELEASE intro: exI [of _ "[]"])

lemma eats_opt_BUILD:
  "eats (Opt (BUILD n)) s g t h \<Longrightarrow> h = g \<or> (\<exists>b. valid_build b \<and> h = g(n \<mapsto> b))"
  by (subst (asm) eats_Alt_iff) (auto simp: eats_Eps_iff dest!: eats_BUILD)

lemma eats_Grp_NUM:
  "eats (Grp n NUM) s g t h \<Longrightarrow> \<exists>p. is_numeral p \<and> s = p @ t \<and> h = g(n \<mapsto> p)"
  by (subst (asm) eats_Grp_iff) (auto dest!: eats_NUM)

lemma eats_Lit: "eats (Lit c) s g t h \<Longrightarrow> h = g \<and> s = c # t"
  by (auto simp: eats_iffs)

lemma eats_CORE:
  assumes "eats (CORE a b c d) s g t h"
  shows "\<exists>A B C ids bld. is_numeral A \<and> is_numeral B \<and> is_numeral C \<and> list_all valid_ident ids
    \<and> (case bld of None \<Rightarrow> True | Some b \<Rightarrow> valid_build b)
    \<and> h = tail_caps d ids bld (g(a \<mapsto> A, b \<mapsto> B, c \<mapsto> C))"
proof -
  from assms obtain s1 s2 s3 s4 s5 s6 s7 g1 g2 g3 g4 g5 g6 g7 where
    e: "eats (Grp a NUM) s g s1 g1" "eats (Lit (CHR ''.'')) s1 g1 s2 g2" "eats (Grp b NUM) s2 g2 s3 g3"
    "eats (Lit (CHR ''.'')) s3 g3 s4 g4" "eats (Grp c NUM) s4 g4 s5 g5"
    "eats (Opt (PRERELEASE d)) s5 g5 s6 g6" "eats (Opt (BUILD (Suc d))) s6 g6 s7 g7"
    "eats (Seq SPACES EndZ) s7 g7 t h"
    unfolding Seqs.simps eats_Seq_iff by blast
  obtain A B C where num: "is_numeral A" "is_numeral B" "is_numeral C" "g5 = g(a \<mapsto> A, b \<mapsto> B, c \<mapsto> C)"
    using eats_Grp_NUM [OF e(1)] eats_Lit [OF e(2)] eats_Grp_NUM [OF e(3)] eats_Lit [OF e(4)]
      eats_Grp_NUM [OF e(5)] by blast
  obtain ids where ids: "list_all valid_ident ids" "g6 = (if ids = [] then g5 else g5(d \<mapsto> join_idents ids))"
    using eats_opt_PRERELEASE [OF e(6)] by blast
  have h: "h = g7" using e(8) by (auto simp: eats_Seq_iff eats_Star_Cls_iff eats_EndZ_iff)
  from eats_opt_BUILD [OF e(7)] show ?thesis
  proof
    assume "g7 = g6"
    with num ids h have "h = tail_caps d ids None (g(a \<mapsto> A, b \<mapsto> B, c \<mapsto> C))"
      by (auto simp: tail_caps_def truthy_def)
    with num ids show ?thesis by (metis option.simps(4))
  next
    assume "\<exists>bs. valid_build bs \<and> g7 = g6(Suc d \<mapsto> bs)"
    then obtain bs where bs: "valid_build bs" "g7 = g6(Suc d \<mapsto> bs)" by blast
    with num ids h have "h = tail_caps d ids (Some bs) (g(a \<mapsto> A, b \<mapsto> B, c \<mapsto> C))"
      by (auto simp: tail_caps_def truthy_def dest: valid_build_ne)
    with num ids bs show ?thesis by (metis option.simps(5))
  qed
qed

text \<open>The groups of a version pattern are those of a valid version.\<close>

lemma eats_CORE_semver:
  assumes "eats (CORE a b c d) s Map.empty t h" and d: "distinct [0, a, b, c, d, Suc d]"
  shows "\<exists>v. valid_semver v \<and> int_of (h a) = major v \<and> int_of (h b) = minor v \<and> int_of (h c) = patch v
    \<and> split_prerelease (h d) = prerelease v \<and> h (Suc d) = build v"
proof -
  obtain A B C ids bld where e: "is_numeral A" "is_numeral B" "is_numeral C" "list_all valid_ident ids"
    "case bld of None \<Rightarrow> True | Some b \<Rightarrow> valid_build b"
    "h = tail_caps d ids bld (Map.empty(a \<mapsto> A, b \<mapsto> B, c \<mapsto> C))"
    using eats_CORE [OF assms(1)] by blast
  define v where "v = \<lparr>major = int (nat_of_digits A), minor = int (nat_of_digits B),
    patch = int (nat_of_digits C), prerelease = ids, build = bld\<rparr>"
  have v: "valid_semver v" using e by (simp add: v_def valid_semver_def)
  have "h = core_caps a b c d v Map.empty"
    using e by (simp add: core_caps_def v_def show_nat_of_digits)
  with v caps_semver [OF v d, of Map.empty] show ?thesis by (intro exI [of _ v]) simp
qed

lemma semver_parse_valid:
  assumes "semver_parse s = Some v"
  shows "valid_semver v"
proof -
  from assms obtain g where g: "re_groups FULL_VERSION_RE (py_strip s) = Some g"
    and v: "v = \<lparr>major = int_of (g 1), minor = int_of (g 2), patch = int_of (g 3),
       prerelease = split_prerelease (g 4), build = g 5\<rparr>"
    by (auto simp: semver_parse_def split: option.splits)
  from re_groups_Some [OF g] obtain t h where h: "eats FULL_VERSION_RE (py_strip s) Map.empty t h"
    "g = h(0 \<mapsto> take (length (py_strip s) - length t) (py_strip s))" by blast
  have "eats (Seq (Star (Cls is_v_eq_space)) (CORE 1 2 3 4)) (py_strip s) Map.empty t h"
    using h(1) by (simp add: FULL_VERSION_RE_def)
  then obtain u where "eats (CORE 1 2 3 4) u Map.empty t h"
    unfolding eats_Seq_iff [of "Star (Cls is_v_eq_space)"] eats_Star_Cls_iff by blast
  from eats_CORE_semver [OF this] obtain w where w: "valid_semver w" "int_of (h 1) = major w"
    "int_of (h 2) = minor w" "int_of (h 3) = patch w" "split_prerelease (h 4) = prerelease w"
    "h 5 = build w" by auto
  have "v = w" using w h(2) v by (simp add: semver.equality)
  with w show ?thesis by simp
qed

end
