(* ===== verification/Semver_Order.thy ===== *)
theory Semver_Order
  imports Semver_Facts
begin

section \<open>Precedence and selection\<close>

text \<open>
  The order of versions: the sort key of the code against the precedence of semver 2.0.0,
  section 11, the three-way comparison, comparator sets with the prerelease opt-in, and
  \<open>max_satisfying\<close>.
\<close>

subsection \<open>Precedence\<close>

text \<open>Semver 2.0.0, 11.4: numeric identifiers below alphanumeric ones, those in ASCII order.\<close>

fun ident_precedes :: "ident \<Rightarrow> ident \<Rightarrow> bool" where
  "ident_precedes (INum a) (INum b) = (a < b)"
| "ident_precedes (INum a) (IStr b) = True"
| "ident_precedes (IStr a) (INum b) = False"
| "ident_precedes (IStr a) (IStr b) = (a < b)"

text \<open>Field by field from the left; more fields win when all the shared ones are equal.\<close>

fun idents_precede :: "ident list \<Rightarrow> ident list \<Rightarrow> bool" where
  "idents_precede [] ys = (ys \<noteq> [])"
| "idents_precede (x # xs) [] = False"
| "idents_precede (x # xs) (y # ys) = (ident_precedes x y \<or> x = y \<and> idents_precede xs ys)"

definition pre_precedes :: "ident list \<Rightarrow> ident list \<Rightarrow> bool" where
  \<comment> \<open>a prerelease precedes the release it leads to\<close>
  "pre_precedes p q = (if p = [] then False else if q = [] then True else idents_precede p q)"

definition precedes :: "semver \<Rightarrow> semver \<Rightarrow> bool" where
  "precedes v w =
     (major v < major w \<or> major v = major w \<and>
       (minor v < minor w \<or> minor v = minor w \<and>
         (patch v < patch w \<or> patch v = patch w \<and> pre_precedes (prerelease v) (prerelease w))))"

lemma ident_key_inj [simp]: "ident_key x = ident_key y \<longleftrightarrow> x = y"
  by (cases x; cases y) auto

lemma ident_key_less [simp]: "ident_key x < ident_key y \<longleftrightarrow> ident_precedes x y"
  by (cases x; cases y) auto

lemma idents_key_less: "map ident_key xs < map ident_key ys \<longleftrightarrow> idents_precede xs ys"
proof (induction xs ys rule: idents_precede.induct)
  case (1 ys)
  then show ?case by (cases ys) auto
qed auto

lemma prerelease_key_less: "prerelease_key p < prerelease_key q \<longleftrightarrow> pre_precedes p q"
  by (auto simp: prerelease_key_def pre_precedes_def idents_key_less)

lemma prerelease_key_inj [simp]: "prerelease_key p = prerelease_key q \<longleftrightarrow> p = q"
  by (auto simp: prerelease_key_def inj_map_eq_map inj_on_def)

lemma semver_lt_iff_precedes: "semver_lt v w \<longleftrightarrow> precedes v w"
  by (auto simp: semver_lt_def semver_key_def precedes_def prerelease_key_less)

lemma semver_le_iff: "semver_le v w \<longleftrightarrow> semver_lt v w \<or> equivalent v w"
  by (auto simp: semver_le_def semver_lt_def equivalent_def)

lemma equivalent_iff: "equivalent v w \<longleftrightarrow> semver_tuple v = semver_tuple w \<and> prerelease v = prerelease w"
  by (auto simp: equivalent_def semver_key_def semver_tuple_def)

lemma semver_not_lt: "\<not> semver_lt v w \<longleftrightarrow> semver_le w v"
  by (auto simp: semver_le_def semver_lt_def)

lemma semver_le_trans: "semver_le u v \<Longrightarrow> semver_le v w \<Longrightarrow> semver_le u w"
  by (auto simp: semver_le_def)

subsection \<open>The three-way comparison\<close>

text \<open>One linear key behind \<open>compare\<close>: unparseable strings first, in string order.\<close>

definition compare_key :: "string \<Rightarrow> nat \<times> semver_key_t \<times> string" where
  "compare_key s = (case semver_parse s of
     None \<Rightarrow> (0, (0, 0, 0, 1, []), s) | Some v \<Rightarrow> (1, semver_key v, []))"

lemma compare_versions_key:
  "compare_versions a b = bool_int (compare_key a > compare_key b) - bool_int (compare_key a < compare_key b)"
  by (auto simp: compare_versions_def compare_key_def bool_int_def split: option.splits)

lemma compare_le_0: "compare_versions a b \<le> 0 \<longleftrightarrow> compare_key a \<le> compare_key b"
  by (auto simp: compare_versions_key bool_int_def)

lemma compare_eq_0: "compare_versions a b = 0 \<longleftrightarrow> compare_key a = compare_key b"
  by (auto simp: compare_versions_key bool_int_def)

subsection \<open>Comparator sets\<close>

lemma opts_in_iff: "opts_in v cs \<longleftrightarrow>
    (\<exists>c \<in> set cs. \<exists>b. bound_of c = Ver b \<and> is_prerelease b \<and> semver_tuple b = semver_tuple v)"
  by (induction cs) (auto split: bound.splits)

lemma set_test_iff: "set_test cs v p \<longleftrightarrow>
    list_all (\<lambda>c. comparator_test c v) cs \<and> (is_prerelease v \<longrightarrow> p \<or> opts_in v cs)"
  by (auto simp: set_test_def)

lemma set_test_mono: "set_test cs v False \<Longrightarrow> set_test cs v True"
  by (auto simp: set_test_iff)

subsection \<open>Selecting the highest version\<close>

text \<open>\<open>best\<close> is the first of the highest candidates that pass.\<close>

definition best_of :: "range_t \<Rightarrow> string list \<Rightarrow> (string \<times> semver) option \<Rightarrow> bool" where
  "best_of r cs best = (case best of
     None \<Rightarrow> (\<forall>c \<in> set cs. \<not> range_test_str r c)
   | Some (b, v) \<Rightarrow> b \<in> set cs \<and> semver_parse b = Some v \<and> range_test r v \<and>
       (\<forall>c \<in> set cs. \<forall>w. semver_parse c = Some w \<longrightarrow> range_test r w \<longrightarrow> semver_le w v))"

lemma best_of_step:
  assumes "best_of r cs best"
  shows "best_of r (cs @ ds) (max_satisfying_loop r ds best)"
  using assms
proof (induction ds arbitrary: cs best)
  case Nil
  then show ?case by simp
next
  case (Cons d ds)
  have step: "best_of r (cs @ [d]) b \<Longrightarrow> max_satisfying_loop r (d # ds) best = max_satisfying_loop r ds b
      \<Longrightarrow> ?case" for b
    using Cons.IH [of "cs @ [d]" b] by simp
  show ?case
  proof (cases "semver_parse d")
    case None
    with Cons.prems show ?thesis
      by (intro step [of best]) (auto simp: best_of_def range_test_str_def split: option.splits)
  next
    case (Some v)
    show ?thesis
    proof (cases "range_test r v")
      case False
      with Some Cons.prems show ?thesis
        by (intro step [of best]) (auto simp: best_of_def range_test_str_def split: option.splits)
    next
      case True
      show ?thesis
      proof (cases best)
        case None
        with Some True Cons.prems show ?thesis
          by (intro step [of "Some (d, v)"])
             (auto simp: best_of_def range_test_str_def semver_le_def split: option.splits)
      next
        case best: (Some bv)
        obtain b w where bw: "bv = (b, w)" by (cases bv)
        show ?thesis
        proof (cases "semver_lt w v")
          case lt: True
          then have "semver_le w v" by (simp add: semver_le_iff)
          with lt best bw Some True Cons.prems show ?thesis
            by (intro step [of "Some (d, v)"])
               (auto simp: best_of_def dest: semver_le_trans, auto simp: semver_le_def)
        next
          case ge: False
          then have "semver_le v w" by (simp add: semver_not_lt)
          with ge best bw Some True Cons.prems show ?thesis
            by (intro step [of best]) (auto simp: best_of_def)
        qed
      qed
    qed
  qed
qed

lemma max_satisfying_loop_best: "best_of r cs (max_satisfying_loop r cs None)"
  using best_of_step [of r "[]" None cs] by (simp add: best_of_def)

lemma satisfies_range_test_str:
  "parse_range (Some rs) p = Inr r \<Longrightarrow> satisfies s rs p = range_test_str r s"
  by (simp add: satisfies_def range_test_str_def split: option.splits)

lemma satisfies_invalid: "parse_range (Some rs) p = Inl e \<Longrightarrow> \<not> satisfies s rs p"
  by (simp add: satisfies_def split: option.splits)

end
