(* ===== verification/Semver_Ranges.thy ===== *)
theory Semver_Ranges
  imports Semver_Order
begin

section \<open>What a caret and a tilde range mean\<close>

text \<open>
  \<open>parse_range\<close> on a caret or tilde range over any valid version, followed through the whole
  of the code: the split at \<open>||\<close>, the hyphen test, the operator blanks, tokenising, the three
  range patterns, desugaring to text and the comparator parser on that text.
\<close>

subsection \<open>Text without blanks or bars\<close>

definition no_blank :: "string \<Rightarrow> bool" where
  "no_blank s = (\<forall>c \<in> set s. \<not> is_space c)"

lemma no_blank_simps [simp]:
  "no_blank []" "no_blank (c # s) \<longleftrightarrow> \<not> is_space c \<and> no_blank s"
  "no_blank (s @ t) \<longleftrightarrow> no_blank s \<and> no_blank t"
  by (auto simp: no_blank_def)

lemma no_blank_strip: "no_blank s \<Longrightarrow> py_strip s = s"
  by (simp add: no_blank_def py_strip_nospace)

lemma no_blank_semver_str: "valid_semver v \<Longrightarrow> no_blank (semver_str v)"
  by (simp add: no_blank_def semver_str_no_space)

lemma eats_Plus_space: "eats (Plus (Cls is_space)) s g t h \<Longrightarrow> \<not> no_blank s"
  unfolding eats_Seq_iff eats_Cls_iff by auto

lemma eats_no_blank: "eats r s g t h \<Longrightarrow> no_blank s \<Longrightarrow> no_blank t"
  by (drule eats_suffix) auto

lemma OPERATOR_SPACE_none: "no_blank s \<Longrightarrow> re_match OPERATOR_SPACE_RE s = None"
  unfolding re_match_def OPERATOR_SPACE_RE_def
  by (rule mk_None_I, subst (asm) eats_Seq_iff) (auto dest: eats_no_blank eats_Plus_space)

lemma re_sub_no_blank: "no_blank s \<Longrightarrow> re_sub OPERATOR_SPACE_RE f s = s"
  by (induction s) (simp_all add: re_sub.simps OPERATOR_SPACE_none)

lemma HYPHEN_none: "no_blank s \<Longrightarrow> re_groups HYPHEN_RE s = None"
  unfolding re_groups_None HYPHEN_RE_def Seqs.simps eats_Seq_iff [of SPACES] eats_Seq_iff [of "Grp 1 _"]
    eats_Seq_iff [of "Plus (Cls is_space)"]
  by (blast dest: eats_no_blank eats_Plus_space)

lemma OR_none: "CHR ''|'' \<notin> set s \<Longrightarrow> re_match OR_RE s = None"
  unfolding re_match_def OR_RE_def Seqs.simps
  by (rule mk_None_I) (auto simp: eats_iffs eats_Star_Cls_iff)

lemma re_split_no_bar: "CHR ''|'' \<notin> set s \<Longrightarrow> re_split OR_RE s = [s]"
proof (induction s)
  case Nil
  then show ?case by (simp add: re_split.simps)
next
  case (Cons c s)
  then show ?case by (subst re_split.simps) (simp add: OR_none cons_first_def)
qed

lemma takeWhile_no_blank: "no_blank s \<Longrightarrow> takeWhile (\<lambda>x. \<not> is_space x) s = s"
  "no_blank s \<Longrightarrow> dropWhile (\<lambda>x. \<not> is_space x) s = []"
  by (auto simp: no_blank_def)

lemma split_ws_Nil [simp]: "split_ws [] = []"
  by (simp add: split_ws.simps py_lstrip_def)

lemma split_ws_one: "no_blank s \<Longrightarrow> s \<noteq> [] \<Longrightarrow> split_ws s = [s]"
  by (cases s) (auto simp: split_ws.simps [of "_ # _"] py_lstrip_def takeWhile_no_blank)

lemma split_ws_two:
  assumes "no_blank s" "s \<noteq> []" "no_blank t" "t \<noteq> []"
  shows "split_ws (s @ CHR '' '' # t) = [s, t]"
proof -
  obtain c r where s: "s = c # r" using assms(2) by (cases s) auto
  have "takeWhile (\<lambda>x. \<not> is_space x) (r @ CHR '' '' # t) = r"
    "dropWhile (\<lambda>x. \<not> is_space x) (r @ CHR '' '' # t) = CHR '' '' # t"
    using assms(1) s by (auto intro!: takeWhile_stop simp: no_blank_def)
  moreover have "split_ws (CHR '' '' # t) = [t]"
    using split_ws_one [OF assms(3,4)] assms(3,4)
    by (cases t) (simp_all add: split_ws.simps py_lstrip_def)
  ultimately show ?thesis
    using assms(1) by (simp add: s split_ws.simps [of "c # _"] py_lstrip_def)
qed

subsection \<open>A comparator is parsed back from its text\<close>

definition operators :: "string set" where
  "operators = {[], ''='', ''<'', ''<='', ''>'', ''>=''}"

lemma OP_forward:
  assumes "op \<in> operators" "s = [] \<or> hd s \<notin> set ''<>=''" "k s g = Some x"
  shows "mk (Seq (Opt (OneOf ''<>'')) (Opt (Lit (CHR ''='')))) k (op @ s) g = Some x"
  using assms by (cases s) (auto simp: operators_def split: option.splits)

lemma COMPARATOR_groups:
  assumes v: "valid_semver v" and op: "op \<in> operators"
  shows "re_groups COMPARATOR_RE (op @ semver_str v)
    = Some ((core_caps 2 3 4 5 v [1 \<mapsto> op])(0 \<mapsto> op @ semver_str v))"
proof -
  let ?s = "semver_str v" and ?t = "op @ semver_str v"
  let ?k = "\<lambda>t g. Some (g(0 \<mapsto> take (length ?t - length t) ?t))"
  let ?K = "mk (Seq SPACES (Seq (Star (Cls is_v_eq_space)) (CORE 2 3 4 5))) ?k"
  have hd: "?s \<noteq> []" "is_digit (hd ?s)" using semver_str_hd [OF v] by auto
  then have skip: "?s = [] \<or> \<not> is_space (hd ?s)" "?s = [] \<or> \<not> is_v_eq_space (hd ?s)"
    using digit_not_space digit_not_v_eq_space by auto
  have "mk (CORE 2 3 4 5) ?k ?s [1 \<mapsto> op] = Some ((core_caps 2 3 4 5 v [1 \<mapsto> op])(0 \<mapsto> ?t))"
    by (rule CORE_forward [OF v]) simp
  then have K: "?K ?s [1 \<mapsto> op] = Some ((core_caps 2 3 4 5 v [1 \<mapsto> op])(0 \<mapsto> ?t))"
    by (simp only: mk_Seq_eq star_skip [where P = is_space, OF skip(1)]
        star_skip [where P = is_v_eq_space, OF skip(2)])
  have notop: "?s = [] \<or> hd ?s \<notin> set ''<>=''"
    using hd by (auto simp: is_digit_def)
  have G: "mk (Grp 1 (Seq (Opt (OneOf ''<>'')) (Opt (Lit (CHR ''=''))))) ?K ?t Map.empty
      = Some ((core_caps 2 3 4 5 v [1 \<mapsto> op])(0 \<mapsto> ?t))"
    by (rule Grp_forward, erule OP_forward [OF op notop]) (rule K)
  have skip0: "?t = [] \<or> \<not> is_space (hd ?t)" using op skip(1) by (auto simp: operators_def)
  have re: "COMPARATOR_RE = Seq SPACES (Seq (Grp 1 (Seq (Opt (OneOf ''<>'')) (Opt (Lit (CHR ''='')))))
      (Seq SPACES (Seq (Star (Cls is_v_eq_space)) (CORE 2 3 4 5))))"
    by (simp add: COMPARATOR_RE_def)
  show ?thesis
    unfolding re_groups_def re mk_Seq_eq star_skip [where P = is_space, OF skip0]
    by (rule G [unfolded mk_Seq_eq])
qed

lemma parse_comparator_text:
  assumes v: "valid_semver v" and op: "op \<in> operators"
  shows "parse_comparator (op @ semver_str v) = Inr \<lparr>operator = op, bound_of = Ver v\<rparr>"
proof -
  have nb: "no_blank (op @ semver_str v)"
    using no_blank_semver_str [OF v] op by (auto simp: operators_def)
  have "op @ semver_str v \<notin> {[], ''*'', ''x'', ''X''}"
    using op semver_str_hd [OF v] by (cases "semver_str v") (auto simp: operators_def is_digit_def)
  with COMPARATOR_groups [OF v op] no_blank_strip [OF nb] caps_semver [OF v, of 2 3 4 5 "[1 \<mapsto> op]"]
  show ?thesis
    by (simp add: parse_comparator_def core_caps_def tail_caps_def Let_def)
qed

subsection \<open>The groups of an x-range, a caret and a tilde pattern\<close>

lemma XID_step:
  "is_numeral p \<Longrightarrow> s = [] \<or> \<not> is_digit (hd s) \<Longrightarrow> k s (g(n \<mapsto> p)) = Some x \<Longrightarrow>
   mk (Grp n XID) k (p @ s) g = Some x"
  by (rule Grp_forward) (simp_all add: XID_def NUM_forward)

lemma Opt_forward: "mk r k s g = Some x \<Longrightarrow> mk (Opt r) k s g = Some x"
  by simp

lemma Lit_Seq_forward: "mk r k s g = Some x \<Longrightarrow> mk (Seq (Lit c) r) k (c # s) g = Some x"
  by simp

lemma XRANGE_forward:
  assumes v: "valid_semver v" and k: "k [] (core_caps a (a + 1) (a + 2) (a + 3) v g) = Some x"
  shows "mk (XRANGE_PLAIN a) (mk (Seq SPACES EndZ) k) (semver_str v) g = Some x"
proof -
  let ?A = "show_nat (nat (major v))" and ?B = "show_nat (nat (minor v))"
    and ?C = "show_nat (nat (patch v))" and ?t = "pre_part (prerelease v) @ build_part (build v)"
  let ?E = "mk (Seq SPACES EndZ) k"
  let ?r3 = "Seq (Opt (PRERELEASE (a + 3))) (Opt (BUILD (a + 4)))"
  let ?r2 = "Seq (Lit (CHR ''.'')) (Seq (Grp (a + 2) XID) ?r3)"
  let ?r1 = "Seq (Lit (CHR ''.'')) (Seq (Grp (a + 1) XID) (Opt ?r2))"
  have t: "?t = [] \<or> \<not> is_digit (hd ?t)"
    using hd_pre_build [of "prerelease v" "build v"] by auto
  have b: "truthy (build v) \<Longrightarrow> valid_build (the (build v))"
    using v by (auto simp: valid_semver_def truthy_def split: option.splits)
  have "mk (TAIL (a + 3)) k ?t (g(a \<mapsto> ?A, a + 1 \<mapsto> ?B, a + 2 \<mapsto> ?C)) = Some x"
    by (rule TAIL_forward) (use v b k in \<open>auto simp: valid_semver_def core_caps_def\<close>)
  then have "mk ?r3 ?E ?t (g(a \<mapsto> ?A, a + 1 \<mapsto> ?B, a + 2 \<mapsto> ?C)) = Some x"
    by (simp only: Seqs.simps mk_Seq_eq add_Suc_right [symmetric] numeral_eq_Suc pred_numeral_simps
        BitM.simps One_nat_def)
  then have "mk (Grp (a + 2) XID) (mk ?r3 ?E) (?C @ ?t) (g(a \<mapsto> ?A, a + 1 \<mapsto> ?B)) = Some x"
    using t by (intro XID_step) auto
  then have "mk (Opt ?r2) ?E (CHR ''.'' # ?C @ ?t) (g(a \<mapsto> ?A, a + 1 \<mapsto> ?B)) = Some x"
    by (intro Opt_forward Lit_Seq_forward) (simp only: mk_Seq_eq)
  then have "mk (Grp (a + 1) XID) (mk (Opt ?r2) ?E) (?B @ CHR ''.'' # ?C @ ?t) (g(a \<mapsto> ?A)) = Some x"
    by (intro XID_step) auto
  then have "mk (Opt ?r1) ?E (CHR ''.'' # ?B @ CHR ''.'' # ?C @ ?t) (g(a \<mapsto> ?A)) = Some x"
    by (intro Opt_forward Lit_Seq_forward) (simp only: mk_Seq_eq)
  then have "mk (Grp a XID) (mk (Opt ?r1) ?E) (?A @ CHR ''.'' # ?B @ CHR ''.'' # ?C @ ?t) g = Some x"
    by (intro XID_step) auto
  then have G: "mk (Grp a XID) (mk (Opt ?r1) ?E) (semver_str v) g = Some x"
    by (simp only: semver_str_parts [OF v])
  have skip: "semver_str v = [] \<or> \<not> is_v_eq_space (hd (semver_str v))"
    using semver_str_hd [OF v] digit_not_v_eq_space by auto
  have re: "XRANGE_PLAIN a = Seq (Star (Cls is_v_eq_space)) (Seq (Grp a XID) (Opt ?r1))"
    by (simp add: XRANGE_PLAIN_def)
  show ?thesis
    unfolding re mk_Seq_eq star_skip [where P = is_v_eq_space, OF skip]
    by (rule G [unfolded mk_Seq_eq])
qed

text \<open>The groups those two patterns deliver on a printed version.\<close>

definition version_caps :: "semver \<Rightarrow> caps" where
  "version_caps v = core_caps 1 2 3 4 v Map.empty"

lemma CARET_groups_core:
  assumes v: "valid_semver v"
  shows "re_groups CARET_RE (CHR ''^'' # semver_str v)
    = Some ((core_caps 1 2 3 4 v Map.empty)(0 \<mapsto> CHR ''^'' # semver_str v))"
proof -
  let ?t = "CHR ''^'' # semver_str v"
  let ?k = "\<lambda>t g. Some (g(0 \<mapsto> take (length ?t - length t) ?t))"
  have re: "CARET_RE = Seq SPACES (Seq (Lit (CHR ''^'')) (Seq (XRANGE_PLAIN 1) (Seq SPACES EndZ)))"
    by (simp add: CARET_RE_def)
  have "mk (XRANGE_PLAIN 1) (mk (Seq SPACES EndZ) ?k) (semver_str v) Map.empty
      = Some ((core_caps 1 2 3 4 v Map.empty)(0 \<mapsto> ?t))"
    by (rule XRANGE_forward [OF v]) (simp add: numeral_eq_Suc)
  then have "mk (Seq (Lit (CHR ''^'')) (Seq (XRANGE_PLAIN 1) (Seq SPACES EndZ))) ?k ?t Map.empty
      = Some ((core_caps 1 2 3 4 v Map.empty)(0 \<mapsto> ?t))"
    by (intro Lit_Seq_forward) (simp only: mk_Seq_eq)
  then show ?thesis
    unfolding re_groups_def re by (subst mk_Seq_eq, subst star_skip) auto
qed

lemma TILDE_groups_core:
  assumes v: "valid_semver v"
  shows "re_groups TILDE_RE (CHR ''~'' # semver_str v)
    = Some ((core_caps 1 2 3 4 v Map.empty)(0 \<mapsto> CHR ''~'' # semver_str v))"
proof -
  let ?t = "CHR ''~'' # semver_str v"
  let ?k = "\<lambda>t g. Some (g(0 \<mapsto> take (length ?t - length t) ?t))"
  let ?K = "mk (Seq (XRANGE_PLAIN 1) (Seq SPACES EndZ)) ?k"
  have re: "TILDE_RE = Seq SPACES (Seq (Lit (CHR ''~'')) (Seq (Opt (Lit (CHR ''>'')))
      (Seq (XRANGE_PLAIN 1) (Seq SPACES EndZ))))"
    by (simp add: TILDE_RE_def)
  have K: "?K (semver_str v) Map.empty = Some ((core_caps 1 2 3 4 v Map.empty)(0 \<mapsto> ?t))"
    unfolding mk_Seq_eq [of "XRANGE_PLAIN 1"] by (rule XRANGE_forward [OF v]) (simp add: numeral_eq_Suc)
  have "mk (Lit (CHR ''>'')) ?K (semver_str v) Map.empty = None"
    using semver_str_hd [OF v] by (cases "semver_str v") (auto simp: is_digit_def)
  with K have "mk (Seq (Opt (Lit (CHR ''>''))) (Seq (XRANGE_PLAIN 1) (Seq SPACES EndZ))) ?k
      (semver_str v) Map.empty = Some ((core_caps 1 2 3 4 v Map.empty)(0 \<mapsto> ?t))"
    by (subst mk_Seq_eq, subst mk.simps(5), simp only: mk.simps(2) option.simps(4))
  then have "mk (Seq (Lit (CHR ''~'')) (Seq (Opt (Lit (CHR ''>''))) (Seq (XRANGE_PLAIN 1) (Seq SPACES EndZ)))) ?k ?t Map.empty
      = Some ((core_caps 1 2 3 4 v Map.empty)(0 \<mapsto> ?t))"
    by (intro Lit_Seq_forward)
  then show ?thesis
    unfolding re_groups_def re by (subst mk_Seq_eq, subst star_skip) auto
qed

lemmas CARET_groups = CARET_groups_core [folded version_caps_def]
lemmas TILDE_groups = TILDE_groups_core [folded version_caps_def]

lemma TILDE_none: "re_groups TILDE_RE (CHR ''^'' # s) = None"
  unfolding re_groups_def TILDE_RE_def Seqs.simps by (subst mk_Seq_eq, subst star_skip) auto

subsection \<open>Desugaring\<close>

definition mk_version :: "int \<Rightarrow> int \<Rightarrow> int \<Rightarrow> ident list \<Rightarrow> semver" where
  "mk_version a b c ids = \<lparr>major = a, minor = b, patch = c, prerelease = ids, build = None\<rparr>"

text \<open>The first version a caret, and a tilde, leaves out, with its \<open>-0\<close>.\<close>

definition caret_upper :: "semver \<Rightarrow> semver" where
  "caret_upper v =
     (if major v = 0 then
        (if minor v = 0 then mk_version 0 0 (patch v + 1) [INum 0]
         else mk_version 0 (minor v + 1) 0 [INum 0])
      else mk_version (major v + 1) 0 0 [INum 0])"

definition caret_lower :: "bool \<Rightarrow> semver \<Rightarrow> semver" where
  "caret_lower p v = mk_version (major v) (minor v) (patch v)
     (if prerelease v \<noteq> [] then prerelease v else if p \<and> major v = 0 then [INum 0] else [])"

definition tilde_upper :: "semver \<Rightarrow> semver" where
  "tilde_upper v = mk_version (major v) (minor v + 1) 0 [INum 0]"

definition tilde_lower :: "bool \<Rightarrow> semver \<Rightarrow> semver" where
  "tilde_lower p v = mk_version (major v) (minor v) (patch v)
     (if prerelease v \<noteq> [] then prerelease v else if p then [INum 0] else [])"

lemma valid_mk_version [simp]:
  "valid_semver (mk_version a b c ids) \<longleftrightarrow> 0 \<le> a \<and> 0 \<le> b \<and> 0 \<le> c \<and> list_all valid_ident ids"
  by (simp add: mk_version_def valid_semver_def)

lemma valid_ident_0 [simp]: "valid_ident (INum 0)"
  by (simp add: valid_ident_def)

lemma valid_bounds:
  assumes "valid_semver v"
  shows "valid_semver (caret_upper v)" "valid_semver (caret_lower p v)"
    "valid_semver (tilde_upper v)" "valid_semver (tilde_lower p v)"
  using assms
  by (auto simp: caret_upper_def caret_lower_def tilde_upper_def tilde_lower_def valid_semver_def [of v])

lemma str_mk_version:
  "0 \<le> a \<Longrightarrow> 0 \<le> b \<Longrightarrow> 0 \<le> c \<Longrightarrow> semver_str (mk_version a b c ids)
    = show_nat (nat a) @ CHR ''.'' # show_nat (nat b) @ CHR ''.'' # show_nat (nat c)
      @ (if ids = [] then [] else CHR ''-'' # join_idents ids)"
  by (simp add: semver_str_def mk_version_def show_int_def join_idents_def truthy_def)

lemma join_idents_0: "join_idents [INum 0] = ''0''"
  by (simp add: join_idents_def show_int_def show_nat_0)

lemma lower_digit: "is_digit c \<Longrightarrow> lower_char c = c"
  unfolding is_digit_def by (simp, elim disjE; simp add: lower_char_def)

lemma lower_digits: "\<forall>c \<in> set s. is_digit c \<Longrightarrow> py_lower s = s"
  unfolding py_lower_def by (rule map_idI) (simp add: lower_digit)

lemma is_x_show_nat [simp]: "\<not> is_x (Some (show_nat n))"
proof -
  have d: "\<forall>c \<in> set (show_nat n). is_digit c" using show_nat_digits by blast
  have "\<not> is_digit (CHR ''x'')" "\<not> is_digit (CHR ''*'')" by (simp_all add: is_digit_def)
  with d have "show_nat n \<noteq> ''x''" "show_nat n \<noteq> ''*''" by (metis list.set_intros(1))+
  with lower_digits [OF d] show ?thesis by (simp add: is_x_def)
qed

lemma show_nat_inj [simp]: "show_nat m = show_nat n \<longleftrightarrow> m = n"
  by (metis nat_of_digits_show)

lemma show_nat_eq_0 [simp]: "show_nat n = ''0'' \<longleftrightarrow> n = 0"
  using show_nat_inj [of n 0] by (simp add: show_nat_0)

lemma version_caps_values:
  "version_caps v (Suc 0) = Some (show_nat (nat (major v)))"
  "version_caps v 2 = Some (show_nat (nat (minor v)))"
  "version_caps v 3 = Some (show_nat (nat (patch v)))"
  "version_caps v 4 = (if prerelease v = [] then None else Some (join_idents (prerelease v)))"
  by (auto simp: version_caps_def core_caps_def tail_caps_def Let_def)

lemma join_idents_ne: "list_all valid_ident ids \<Longrightarrow> ids \<noteq> [] \<Longrightarrow> join_idents ids \<noteq> []"
  by (cases ids) (auto simp: join_idents_def join_dotted show_ident_ne)

lemma truthy_join: "list_all valid_ident ids \<Longrightarrow> truthy (Some (join_idents ids)) \<longleftrightarrow> ids \<noteq> []"
  by (cases "ids = []") (auto simp: truthy_def join_idents_ne, simp add: join_idents_def)

lemma nat_parts:
  assumes "valid_semver v"
  obtains a b c where "major v = int a" "minor v = int b" "patch v = int c"
    "list_all valid_ident (prerelease v)"
  using assms nonneg_int_cases by (metis valid_semver_def)

lemmas bound_text = str_mk_version join_idents_0 show_nat_0 show_int_def int_of_def

lemma truthy_None [simp]: "\<not> truthy None"
  by (simp add: truthy_def)

lemma desugar_caret_text:
  assumes v: "valid_semver v"
  shows "desugar_caret ((version_caps v)(0 \<mapsto> s)) p
    = (''>='' @ semver_str (caret_lower p v)) @ CHR '' '' # ''<'' @ semver_str (caret_upper v)"
proof -
  obtain a b c where n: "major v = int a" "minor v = int b" "patch v = int c"
    "list_all valid_ident (prerelease v)" using nat_parts [OF v] .
  then show ?thesis
    by (simp add: desugar_caret_def version_caps_values caret_lower_def caret_upper_def
        bound_text Let_def truthy_join)
qed

lemma desugar_tilde_text:
  assumes v: "valid_semver v"
  shows "desugar_tilde ((version_caps v)(0 \<mapsto> s)) p
    = (''>='' @ semver_str (tilde_lower p v)) @ CHR '' '' # ''<'' @ semver_str (tilde_upper v)"
proof -
  obtain a b c where n: "major v = int a" "minor v = int b" "patch v = int c"
    "list_all valid_ident (prerelease v)" using nat_parts [OF v] .
  then show ?thesis
    by (simp add: desugar_tilde_def version_caps_values tilde_lower_def tilde_upper_def
        bound_text Let_def truthy_join)
qed

subsection \<open>The parsed range\<close>

definition between :: "semver \<Rightarrow> semver \<Rightarrow> comparator list" where
  "between lo hi = [\<lparr>operator = ''>='', bound_of = Ver lo\<rparr>, \<lparr>operator = ''<'', bound_of = Ver hi\<rparr>]"

lemma parse_one_token:
  assumes v: "valid_semver v" and op: "\<not> is_space op" "op \<noteq> CHR ''|''"
    and lo: "valid_semver lo" and hi: "valid_semver hi"
    and e: "expand_token p (op # semver_str v) = (''>='' @ semver_str lo) @ CHR '' '' # ''<'' @ semver_str hi"
  shows "parse_range (Some (op # semver_str v)) p
    = Inr \<lparr>include_prerelease = p, raw = op # semver_str v, sets = [between lo hi]\<rparr>"
proof -
  let ?s = "op # semver_str v"
  have nb: "no_blank ?s" using op no_blank_semver_str [OF v] by simp
  have bar: "CHR ''|'' \<notin> set ?s"
    using op semver_str_chars [OF v] ident_not_punct by fastforce
  have "split_ws (expand_token p ?s) = [''>='' @ semver_str lo, ''<'' @ semver_str hi]"
    unfolding e
    by (rule split_ws_two) (use no_blank_semver_str lo hi in auto)
  moreover have "parse_comparator (''>='' @ semver_str lo) = Inr \<lparr>operator = ''>='', bound_of = Ver lo\<rparr>"
    "parse_comparator (''<'' @ semver_str hi) = Inr \<lparr>operator = ''<'', bound_of = Ver hi\<rparr>"
    by (rule parse_comparator_text; use lo hi in \<open>simp add: operators_def\<close>)+
  ultimately have "parse_comparator_set ?s p = Inr (between lo hi)"
    using nb by (simp add: parse_comparator_set_def no_blank_strip HYPHEN_none re_sub_no_blank
        split_ws_one between_def)
  then show ?thesis
    using nb bar by (simp add: parse_range_def no_blank_strip re_split_no_bar)
qed

lemma parse_caret:
  assumes v: "valid_semver v"
  shows "parse_range (Some (CHR ''^'' # semver_str v)) p
    = Inr \<lparr>include_prerelease = p, raw = CHR ''^'' # semver_str v,
           sets = [between (caret_lower p v) (caret_upper v)]\<rparr>"
  by (rule parse_one_token [OF v _ _ valid_bounds(2) [OF v] valid_bounds(1) [OF v]])
     (simp_all add: expand_token_def TILDE_none CARET_groups [OF v] desugar_caret_text [OF v])

lemma parse_tilde:
  assumes v: "valid_semver v"
  shows "parse_range (Some (CHR ''~'' # semver_str v)) p
    = Inr \<lparr>include_prerelease = p, raw = CHR ''~'' # semver_str v,
           sets = [between (tilde_lower p v) (tilde_upper v)]\<rparr>"
  by (rule parse_one_token [OF v _ _ valid_bounds(4) [OF v] valid_bounds(3) [OF v]])
     (simp_all add: expand_token_def TILDE_groups [OF v] desugar_tilde_text [OF v])

lemma between_test:
  "set_test (between lo hi) w p \<longleftrightarrow> semver_le lo w \<and> semver_lt w hi \<and>
    (is_prerelease w \<longrightarrow> p \<or> (\<exists>b \<in> {lo, hi}. is_prerelease b \<and> semver_tuple b = semver_tuple w))"
  by (auto simp: set_test_iff between_def comparator_test_def)

lemma satisfies_caret:
  assumes "valid_semver v" "valid_semver w"
  shows "satisfies (semver_str w) (CHR ''^'' # semver_str v) p \<longleftrightarrow>
    set_test (between (caret_lower p v) (caret_upper v)) w p"
  using assms by (simp add: satisfies_def parse_semver_str parse_caret range_test_def)

lemma satisfies_tilde:
  assumes "valid_semver v" "valid_semver w"
  shows "satisfies (semver_str w) (CHR ''~'' # semver_str v) p \<longleftrightarrow>
    set_test (between (tilde_lower p v) (tilde_upper v)) w p"
  using assms by (simp add: satisfies_def parse_semver_str parse_tilde range_test_def)

end
