(* ===== verification/Semver_Spec.thy ===== *)
theory Semver_Spec
  imports Semver_Ranges
begin

section \<open>What the version component promises\<close>

text \<open>
  The properties of \<open>core/semver.py\<close>: printing and parsing are inverse, the order is the
  precedence of semver 2.0.0, caret and tilde ranges hold exactly the versions their
  documentation describes, and \<open>max_satisfying\<close> returns the best candidate.
\<close>

subsection \<open>Bounds with a \<open>-0\<close>\<close>

lemma no_ident_before_0: "valid_ident i \<Longrightarrow> \<not> ident_precedes i (INum 0)"
  by (cases i) (auto simp: valid_ident_def)

lemma idents_not_before_0:
  "list_all valid_ident p \<Longrightarrow> p \<noteq> [] \<Longrightarrow> \<not> idents_precede p [INum 0]"
  by (cases p; cases "tl p") (auto simp: no_ident_before_0)

text \<open>Nothing valid lies below \<open>a.b.c-0\<close> but what lies below \<open>a.b.c\<close> in its release part.\<close>

lemma precedes_zero_bound:
  assumes "valid_semver w"
  shows "semver_lt w (mk_version a b c [INum 0]) \<longleftrightarrow> semver_tuple w < (a, b, c)"
proof -
  have "\<not> pre_precedes (prerelease w) [INum 0]"
    using assms idents_not_before_0 by (auto simp: pre_precedes_def valid_semver_def)
  then show ?thesis
    by (auto simp: semver_lt_iff_precedes precedes_def mk_version_def semver_tuple_def)
qed

lemma le_mk_version: "semver_le (mk_version (major v) (minor v) (patch v) (prerelease v)) w \<longleftrightarrow> semver_le v w"
  by (simp add: semver_le_def semver_key_def mk_version_def)

lemma semver_le_tuple: "semver_le v w \<Longrightarrow> semver_tuple v \<le> semver_tuple w"
  by (auto simp: semver_le_def semver_key_def semver_tuple_def)

lemma caret_lower_False: "caret_lower False v = mk_version (major v) (minor v) (patch v) (prerelease v)"
  by (simp add: caret_lower_def)

lemma tilde_lower_False: "tilde_lower False v = mk_version (major v) (minor v) (patch v) (prerelease v)"
  by (simp add: tilde_lower_def)

text \<open>A caret keeps the left-most non-zero component, a tilde the first two.\<close>

definition same_leftmost :: "semver \<Rightarrow> semver \<Rightarrow> bool" where
  "same_leftmost v w =
     (if major v \<noteq> 0 then major w = major v
      else if minor v \<noteq> 0 then major w = 0 \<and> minor w = minor v
      else major w = 0 \<and> minor w = 0 \<and> patch w = patch v)"

lemma below_caret_upper:
  assumes "valid_semver v" "valid_semver w" "semver_le v w"
  shows "semver_lt w (caret_upper v) \<longleftrightarrow> same_leftmost v w"
proof -
  have t: "semver_tuple v \<le> semver_tuple w" using assms(3) by (rule semver_le_tuple)
  have n: "0 \<le> minor w" "0 \<le> patch w" "0 \<le> major v" "0 \<le> minor v" "0 \<le> patch v"
    using assms by (auto simp: valid_semver_def)
  show ?thesis
    using t n
    by (auto simp: caret_upper_def precedes_zero_bound [OF assms(2)] same_leftmost_def semver_tuple_def)
qed

lemma below_tilde_upper:
  assumes "valid_semver v" "valid_semver w" "semver_le v w"
  shows "semver_lt w (tilde_upper v) \<longleftrightarrow> major w = major v \<and> minor w = minor v"
proof -
  have t: "semver_tuple v \<le> semver_tuple w" using assms(3) by (rule semver_le_tuple)
  have n: "0 \<le> minor w" "0 \<le> patch w" "0 \<le> patch v"
    using assms by (auto simp: valid_semver_def)
  show ?thesis
    using t n by (auto simp: tilde_upper_def precedes_zero_bound [OF assms(2)] semver_tuple_def)
qed

text \<open>The opt-in of a bound ending in \<open>-0\<close> is never used: nothing below it has its release part.\<close>

definition opted_in :: "semver \<Rightarrow> semver \<Rightarrow> bool" where
  "opted_in v w = (is_prerelease w \<longrightarrow> is_prerelease v \<and> semver_tuple v = semver_tuple w)"

lemma between_release:
  assumes w: "valid_semver w" and hi: "hi = mk_version a b c [INum 0]"
    and lo: "lo = mk_version (major v) (minor v) (patch v) (prerelease v)"
  shows "set_test (between lo hi) w False \<longleftrightarrow>
    semver_le v w \<and> semver_lt w hi \<and> opted_in v w"
proof -
  have "semver_tuple hi \<noteq> semver_tuple w" if "semver_lt w hi"
    using that precedes_zero_bound [OF w, of a b c] hi by (auto simp: semver_tuple_def mk_version_def)
  moreover have "is_prerelease lo = is_prerelease v" "semver_tuple lo = semver_tuple v"
    by (simp_all add: lo mk_version_def is_prerelease_def semver_tuple_def)
  ultimately show ?thesis
    using le_mk_version [of v w] by (auto simp: between_test opted_in_def lo)
qed

lemma caret_upper_shape: "\<exists>a b c. caret_upper v = mk_version a b c [INum 0]"
  by (auto simp: caret_upper_def)

lemma set_test_caret:
  assumes "valid_semver v" "valid_semver w"
  shows "set_test (between (caret_lower False v) (caret_upper v)) w False \<longleftrightarrow>
    semver_le v w \<and> same_leftmost v w \<and> opted_in v w"
proof -
  obtain a b c where "caret_upper v = mk_version a b c [INum 0]" using caret_upper_shape by blast
  from between_release [OF assms(2) this caret_lower_False]
  show ?thesis using below_caret_upper [OF assms] by auto
qed

lemma set_test_tilde:
  assumes "valid_semver v" "valid_semver w"
  shows "set_test (between (tilde_lower False v) (tilde_upper v)) w False \<longleftrightarrow>
    semver_le v w \<and> major w = major v \<and> minor w = minor v \<and> opted_in v w"
  using between_release [OF assms(2) tilde_upper_def tilde_lower_False] below_tilde_upper [OF assms]
  by auto

subsection \<open>The properties\<close>

text \<open>
  Parsing inverts printing. Every well-formed version, printed by \<open>SemVer.__str__\<close>, is
  read back by \<open>SemVer.parse\<close> as itself, prerelease identifiers and build metadata included;
  and whatever \<open>parse\<close> accepts is well-formed, so the round trip is total on its results.
\<close>

theorem semver_parse_str:
  "valid_semver v \<longleftrightarrow> semver_parse (semver_str v) = Some v"
  using parse_semver_str semver_parse_valid by blast

text \<open>
  C39: the comparison operators of \<open>SemVer\<close>, which compare sort keys, are the precedence
  of semver 2.0.0 section 11: major, minor and patch numerically, a prerelease below its
  release, prerelease identifiers left to right with numeric below alphanumeric.
\<close>

theorem semver_order_is_precedence: "semver_lt v w = precedes v w"
  by (rule semver_lt_iff_precedes)

text \<open>
  \<open>compare\<close> is a total preorder on all strings, parseable or not: reversing the
  arguments negates it, it is transitive, and it never separates equal strings.
\<close>

theorem compare_versions_preorder:
  "compare_versions a b = - compare_versions b a \<and> compare_versions a a = 0 \<and>
   (\<not> (compare_versions a b \<le> 0 \<and> compare_versions b c \<le> 0 \<and> compare_versions a c > 0))"
proof (intro conjI)
  show "compare_versions a b = - compare_versions b a" by (simp add: compare_versions_key)
  show "compare_versions a a = 0" by (simp add: compare_eq_0)
  have "compare_versions a c \<le> 0" if "compare_versions a b \<le> 0" "compare_versions b c \<le> 0"
    using that unfolding compare_le_0 by (rule order_trans)
  then show "\<not> (compare_versions a b \<le> 0 \<and> compare_versions b c \<le> 0 \<and> compare_versions a c > 0)"
    by linarith
qed

text \<open>
  A caret range over a well-formed version admits, by default, exactly the versions at
  or above it that keep its left-most non-zero component, where a prerelease needs a
  prerelease of the same release part in the range. It goes through the whole of
  \<open>parse_range\<close>: splitting, tokens, the caret pattern, desugaring and comparator parsing.
\<close>

theorem caret_range_meaning:
  assumes "valid_semver v" "valid_semver w"
  shows "satisfies (semver_str w) (CHR ''^'' # semver_str v) False \<longleftrightarrow>
    semver_le v w \<and> same_leftmost v w \<and> opted_in v w"
  using assms by (simp add: satisfies_caret set_test_caret)

theorem caret_range_meaning_witness:
  "\<not> satisfies ''2.0.0-alpha'' ''^1.2.3'' False"
proof -
  let ?v = "\<lparr>major = 1, minor = 2, patch = 3, prerelease = [], build = None\<rparr>"
  let ?w = "\<lparr>major = 2, minor = 0, patch = 0, prerelease = [IStr ''alpha''], build = None\<rparr>"
  have "valid_semver ?v" "valid_semver ?w" by code_simp+
  moreover have "semver_str ?w = ''2.0.0-alpha''" "semver_str ?v = ''1.2.3''" by code_simp+
  moreover have "\<not> same_leftmost ?v ?w" by code_simp
  ultimately show ?thesis using caret_range_meaning [of ?v ?w] by metis
qed

text \<open>
  A tilde range over a well-formed version admits, by default, exactly the versions at or
  above it with its major and minor, under the same prerelease rule.
\<close>

theorem tilde_range_meaning:
  assumes "valid_semver v" "valid_semver w"
  shows "satisfies (semver_str w) (CHR ''~'' # semver_str v) False \<longleftrightarrow>
    semver_le v w \<and> major w = major v \<and> minor w = minor v \<and> opted_in v w"
  using assms by (simp add: satisfies_tilde set_test_tilde)

theorem tilde_range_meaning_witness:
  "\<not> satisfies ''1.3.0'' ''~1.2.3'' False"
proof -
  let ?v = "\<lparr>major = 1, minor = 2, patch = 3, prerelease = [], build = None\<rparr>"
  let ?w = "\<lparr>major = 1, minor = 3, patch = 0, prerelease = [], build = None\<rparr>"
  have "valid_semver ?v" "valid_semver ?w" by code_simp+
  moreover have "semver_str ?w = ''1.3.0''" "semver_str ?v = ''1.2.3''" by code_simp+
  moreover have "minor ?w \<noteq> minor ?v" by simp
  ultimately show ?thesis using tilde_range_meaning [of ?v ?w] by metis
qed

text \<open>
  \<open>max_satisfying\<close> on a parseable range returns None exactly when no candidate satisfies
  the range, and otherwise a candidate that satisfies it and that no other satisfying
  candidate exceeds; on an unparseable range it returns None.
\<close>

theorem max_satisfying_best:
  "case max_satisfying cs rs p of
     None \<Rightarrow> list_all (\<lambda>c. \<not> satisfies c rs p) cs
   | Some b \<Rightarrow> b \<in> set cs \<and> satisfies b rs p \<and>
       list_all (\<lambda>c. \<not> (satisfies c rs p \<and> compare_versions c b > 0)) cs"
proof (cases "parse_range (Some rs) p")
  case (Inl e)
  then show ?thesis by (simp add: max_satisfying_def satisfies_invalid list_all_iff)
next
  case (Inr r)
  have sat: "satisfies c rs p = range_test_str r c" for c
    using Inr by (rule satisfies_range_test_str)
  show ?thesis
  proof (cases "max_satisfying_loop r cs None")
    case None
    with max_satisfying_loop_best [of r cs] Inr sat show ?thesis
      by (simp add: max_satisfying_def best_of_def list_all_iff)
  next
    case (Some bv)
    obtain b v where "bv = (b, v)" by (cases bv)
    with max_satisfying_loop_best [of r cs] Some have b: "b \<in> set cs" "semver_parse b = Some v"
      "range_test r v"
      "\<And>c w. c \<in> set cs \<Longrightarrow> semver_parse c = Some w \<Longrightarrow> range_test r w \<Longrightarrow> semver_le w v"
      by (auto simp: best_of_def)
    have "\<not> (range_test_str r c \<and> compare_versions c b > 0)" if "c \<in> set cs" for c
      using b(2) b(4) [OF that]
      by (cases "semver_parse c")
         (auto simp: range_test_str_def compare_versions_def semver_le_def bool_int_def not_less)
    with Inr Some b sat \<open>bv = (b, v)\<close> show ?thesis
      by (auto simp: max_satisfying_def list_all_iff range_test_str_def)
  qed
qed

end
