(* ===== verification/Naming.thy ===== *)
theory Naming
  imports Semver_Order
begin

section \<open>Names and versions (\<open>core/naming.py\<close>)\<close>

text \<open>
  How client-supplied names and versions map onto storage keys, per ecosystem. What the
  code takes from the \<open>packaging\<close> library (PEP 440 versions, wheel and sdist file names) is
  the record \<open>packaging\<close>: a parameter of every definition that uses it, each field the
  library function's result, \<open>None\<close> for an exception.
\<close>

record 'v packaging =
  version_of :: "string \<Rightarrow> 'v option"
  version_str :: "'v \<Rightarrow> string"
  canonicalize_version :: "string \<Rightarrow> string option"
  canonicalize_name :: "string \<Rightarrow> string"
  parse_wheel_filename :: "string \<Rightarrow> (string \<times> string) option"
  parse_sdist_filename :: "string \<Rightarrow> (string \<times> string) option"

subsection \<open>PyPI\<close>

definition is_sep :: "char \<Rightarrow> bool" where
  "is_sep c = (c \<in> set ''-_.'')"

definition is_alnum :: "char \<Rightarrow> bool" where
  "is_alnum c = (is_alpha c \<or> is_digit c)"

definition PEP503_RE :: re where
  "PEP503_RE = Plus (Cls is_sep)"

definition PEP508_NAME_RE :: re where
  "PEP508_NAME_RE = Seqs [Grp 1 (Alt (Cls is_alnum)
     (Seqs [Cls is_alnum, Star (Cls (\<lambda>c. is_alnum c \<or> is_sep c)), Cls is_alnum])), EndZ]"

definition normalize_pypi_name :: "string \<Rightarrow> string" where
  "normalize_pypi_name name = py_lower (re_sub PEP503_RE (\<lambda>_. ''-'') name)"

definition is_valid_pypi_name :: "string \<Rightarrow> bool" where
  "is_valid_pypi_name name = (name \<noteq> [] \<and> length name \<le> 214 \<and> re_matches PEP508_NAME_RE name)"

definition normalize_pypi_version :: "'v packaging \<Rightarrow> string \<Rightarrow> string" where
  "normalize_pypi_version pk version = (case version_of pk version of
     Some v \<Rightarrow> version_str pk v
   | None \<Rightarrow> (case canonicalize_version pk version of
       Some s \<Rightarrow> s | None \<Rightarrow> py_strip version))"

definition parse_pypi_version :: "'v packaging \<Rightarrow> string \<Rightarrow> 'v option" where
  "parse_pypi_version pk version = version_of pk version"

definition pypi_versions_equal :: "'v packaging \<Rightarrow> string \<Rightarrow> string \<Rightarrow> bool" where
  "pypi_versions_equal pk a b = (case (parse_pypi_version pk a, parse_pypi_version pk b) of
     (Some x, Some y) \<Rightarrow> x = y
   | _ \<Rightarrow> normalize_pypi_version pk a = normalize_pypi_version pk b)"

definition sort_pypi_versions :: "('v :: linorder) packaging \<Rightarrow> string list \<Rightarrow> string list" where
  "sort_pypi_versions pk versions = (let
     parseable = filter (\<lambda>v. parse_pypi_version pk v \<noteq> None) versions;
     other = sort (filter (\<lambda>v. parse_pypi_version pk v = None) versions)
     in other @ sort_key (\<lambda>v. the (version_of pk v)) parseable)"

datatype packagetype = bdist_wheel | sdist | bdist_egg

definition dist_stem :: "string \<Rightarrow> string \<Rightarrow> string" where
  "dist_stem filename suffix = take (length filename - length suffix) filename"

definition parse_sdist_branch ::
  "'v packaging \<Rightarrow> string \<Rightarrow> string \<Rightarrow> (string \<times> string \<times> packagetype) option" where
  "parse_sdist_branch pk filename suffix = (case parse_sdist_filename pk filename of
     Some (name, version) \<Rightarrow> Some (name, version, sdist)
   | None \<Rightarrow> (let stem = dist_stem filename suffix in
       if CHR ''-'' \<notin> set stem then None
       else (case py_rpartition (CHR ''-'') stem of (name, _, version) \<Rightarrow>
         if name = [] then None
         else if version_of pk version = None then None
         else Some (name, version, sdist))))"

definition parse_dist_filename ::
  "'v packaging \<Rightarrow> string \<Rightarrow> (string \<times> string \<times> packagetype) option" where
  "parse_dist_filename pk filename =
     (if ends_with filename ''.whl'' then
        (case parse_wheel_filename pk filename of
           Some (name, version) \<Rightarrow> Some (name, version, bdist_wheel) | None \<Rightarrow> None)
      else (case find (ends_with filename) [''.tar.gz'', ''.zip'', ''.tar.bz2'', ''.tgz''] of
        Some suffix \<Rightarrow> parse_sdist_branch pk filename suffix
      | None \<Rightarrow>
          if ends_with filename ''.egg'' then
            (case split_on (CHR ''-'') (dist_stem filename ''.egg'') of
               name # version # _ \<Rightarrow>
                 if version_of pk version = None then None else Some (name, version, bdist_egg)
             | _ \<Rightarrow> None)
          else None))"

definition pypi_canonical_name :: "'v packaging \<Rightarrow> string \<Rightarrow> string" where
  "pypi_canonical_name pk name = canonicalize_name pk name"

subsection \<open>npm\<close>

definition NPM_SCOPED_RE :: re where
  "NPM_SCOPED_RE = Seqs [Lit (CHR ''@''), Grp 1 (Plus (Cls (\<lambda>c. c \<noteq> CHR ''/''))), Lit (CHR ''/''),
     Grp 2 (Plus (Cls (\<lambda>c. c \<noteq> CHR ''/''))), EndZ]"

definition npm_illegal :: "char \<Rightarrow> bool" where
  \<comment> \<open>the class \<open>_NPM_ILLEGAL_RE\<close> searches for\<close>
  "npm_illegal c = (c \<in> set ''~!()*'' \<or> c = CHR 0x27 \<or> c = CHR 0x22 \<or> is_space c)"

definition NPM_BLACKLIST :: "string list" where
  "NPM_BLACKLIST = [''node_modules'', ''favicon.ico'']"

definition normalize_npm_name :: "string \<Rightarrow> string" where
  "normalize_npm_name name = py_strip name"

definition msg_url :: "bool \<times> string option" where
  "msg_url = (False, Some ''name can only contain URL-friendly characters'')"

definition msg_start :: "bool \<times> string option" where
  "msg_start = (False, Some ''name cannot start with a period or an underscore'')"

fun npm_scope_parts :: "string list \<Rightarrow> bool \<times> string option" where
  "npm_scope_parts [] = (True, None)"
| "npm_scope_parts (part # ps) =
     (if part = [] \<or> starts_with part ''.'' \<or> starts_with part ''_'' then msg_start
      else if list_ex npm_illegal part then msg_url
      else if py_quote part \<noteq> part then msg_url
      else npm_scope_parts ps)"

definition is_valid_npm_name :: "string \<Rightarrow> bool \<times> string option" where
  "is_valid_npm_name name =
     (if name = [] \<or> py_strip name = [] then (False, Some ''name cannot be empty'')
      else if length name > 214 then
        (False, Some ''name can no longer contain more than 214 characters'')
      else if py_lower name \<in> set NPM_BLACKLIST then (False, Some ''name is blacklisted'')
      else if starts_with name ''.'' \<or> starts_with name ''_'' then msg_start
      else if name \<noteq> py_lower name then
        (False, Some ''name can no longer contain capital letters'')
      else if list_ex npm_illegal name then msg_url
      else (case re_groups NPM_SCOPED_RE name of
        Some g \<Rightarrow> npm_scope_parts [the (g 1), the (g 2)]
      | None \<Rightarrow>
          if starts_with name ''@'' \<or> CHR ''/'' \<in> set name then msg_url
          else if py_quote name \<noteq> name then msg_url
          else (True, None)))"

definition npm_name_to_path :: "string \<Rightarrow> string" where
  "npm_name_to_path name = py_replace ''/'' ''%2f'' name"

definition npm_path_to_name :: "string \<Rightarrow> string" where
  "npm_path_to_name path = py_replace ''%2f'' ''/'' (py_replace ''%2F'' ''/'' path)"

definition npm_scope :: "string \<Rightarrow> string option" where
  "npm_scope name = (case re_groups NPM_SCOPED_RE name of Some g \<Rightarrow> g 1 | None \<Rightarrow> None)"

definition npm_tarball_filename :: "string \<Rightarrow> string \<Rightarrow> string" where
  "npm_tarball_filename name version = (let
     base = (if starts_with name ''@'' then last (split_on (CHR ''/'') name) else name)
     in base @ ''-'' @ version @ ''.tgz'')"

datatype dist_tag_error = TagEmpty | TagIsRange string | TagNotUrlSafe string

definition npm_dist_tag_error :: "string option \<Rightarrow> dist_tag_error option" where
  \<comment> \<open>\<open>None\<close> as the argument is any object that is not a string\<close>
  "npm_dist_tag_error tag = (case tag of
     None \<Rightarrow> Some TagEmpty
   | Some t \<Rightarrow>
       if py_strip t = [] then Some TagEmpty
       else if is_valid_range t then Some (TagIsRange t)
       else if py_quote t \<noteq> t then Some (TagNotUrlSafe t)
       else None)"

definition STRICT_SEMVER_RE :: re where
  "STRICT_SEMVER_RE = Seqs [Grp 1 NUM, Lit (CHR ''.''), Grp 2 NUM, Lit (CHR ''.''), Grp 3 NUM,
     Opt (PRERELEASE 4), Opt (BUILD 5), EndZ]"

definition is_valid_semver :: "string \<Rightarrow> bool" where
  "is_valid_semver version = re_matches STRICT_SEMVER_RE version"

definition semver_sort_key :: "string \<Rightarrow> nat \<times> (int \<times> int \<times> int) \<times> prerelease_key_t \<times> string" where
  "semver_sort_key version = (case semver_parse version of
     None \<Rightarrow> (0, (0, 0, 0), (1, []), version)
   | Some v \<Rightarrow> (1, semver_tuple v, prerelease_key (prerelease v), []))"

definition sort_semver :: "string list \<Rightarrow> string list" where
  "sort_semver versions = sort_key semver_sort_key versions"

definition is_stable :: "string \<Rightarrow> bool" where
  "is_stable v = (is_valid_semver v \<and> CHR ''-'' \<notin> set (hd (split_on (CHR ''+'') v)))"

definition max_semver :: "string list \<Rightarrow> string option" where
  "max_semver versions = (if versions = [] then None
     else (let
       stable = filter is_stable versions;
       pool = (if stable \<noteq> [] then stable else versions)
       in Some (last (sort_key semver_sort_key pool))))"

subsection \<open>cargo\<close>

definition CARGO_NAME_RE :: re where
  "CARGO_NAME_RE = Seqs [Cls is_alpha, UpTo 63 (Cls (\<lambda>c. is_alnum c \<or> c \<in> set ''_-'')), EndZ]"

definition normalize_cargo_name :: "string \<Rightarrow> string" where
  "normalize_cargo_name name = py_lower (py_strip name)"

definition is_valid_cargo_name :: "string \<Rightarrow> bool" where
  "is_valid_cargo_name name = re_matches CARGO_NAME_RE (py_strip name)"

text \<open>\<open>None\<close> is the \<open>ValueError\<close> of an empty name.\<close>

definition cargo_index_prefix :: "string \<Rightarrow> string option" where
  "cargo_index_prefix name = (let lowered = normalize_cargo_name name; n = length lowered in
     if n = 0 then None
     else if n = 1 then Some ''1''
     else if n = 2 then Some ''2''
     else if n = 3 then Some (''3/'' @ take 1 lowered)
     else Some (take 2 lowered @ ''/'' @ take 2 (drop 2 lowered)))"

definition cargo_index_path :: "string \<Rightarrow> string option" where
  "cargo_index_path name =
     map_option (\<lambda>p. p @ ''/'' @ normalize_cargo_name name) (cargo_index_prefix name)"

definition cargo_crate_filename :: "string \<Rightarrow> string \<Rightarrow> string" where
  "cargo_crate_filename name version = name @ ''-'' @ version @ ''.crate''"

subsection \<open>By ecosystem\<close>

definition normalize_version_for :: "'v packaging \<Rightarrow> string \<Rightarrow> string \<Rightarrow> string" where
  "normalize_version_for pk ecosystem version =
     (if ecosystem = ''pypi'' then normalize_pypi_version pk version
      else if starts_with version ''='' \<or> starts_with version ''v'' then
        dropWhile (\<lambda>c. c \<in> set ''=v'') (py_strip version)
      else py_strip version)"

definition normalize_name_for :: "string \<Rightarrow> string \<Rightarrow> string" where
  "normalize_name_for ecosystem name =
     (if ecosystem = ''pypi'' then normalize_pypi_name name
      else if ecosystem = ''cargo'' then normalize_cargo_name name
      else normalize_npm_name name)"

definition sort_versions_for ::
  "('v :: linorder) packaging \<Rightarrow> string \<Rightarrow> string list \<Rightarrow> bool \<Rightarrow> string list" where
  "sort_versions_for pk ecosystem versions reverse = (let
     ordered = (if ecosystem = ''pypi'' then sort_pypi_versions pk versions else sort_semver versions)
     in if reverse then rev ordered else ordered)"

text \<open>The dict of positions keeps the last index of a repeated version; a row is any record
  with a version.\<close>

fun last_index :: "nat \<Rightarrow> 'a list \<Rightarrow> 'a \<Rightarrow> nat option" where
  "last_index i [] x = None"
| "last_index i (y # ys) x = (case last_index (i + 1) ys x of
     Some j \<Rightarrow> Some j | None \<Rightarrow> if y = x then Some i else None)"

definition order_version_rows ::
  "('v :: linorder) packaging \<Rightarrow> string \<Rightarrow> ('r \<Rightarrow> string) \<Rightarrow> 'r list \<Rightarrow> bool \<Rightarrow> 'r list" where
  "order_version_rows pk ecosystem row_version rows reverse = (let
     position = last_index 0 (sort_versions_for pk ecosystem (map row_version rows) reverse)
     in sort_key (\<lambda>r. case position (row_version r) of Some i \<Rightarrow> i | None \<Rightarrow> 0) rows)"

end
