(* ===== verification/Naming_Facts.thy ===== *)
theory Naming_Facts
  imports Naming
begin

section \<open>Facts about names\<close>

text \<open>
  Normal forms of PyPI and npm names, the strict version grammar of published versions, and
  the injectivity of the cargo index layout.
\<close>

subsection \<open>PEP 503\<close>

text \<open>The normal form as one pass over the name; the flag says that a run of separators is open.\<close>

fun pep503 :: "bool \<Rightarrow> string \<Rightarrow> string" where
  "pep503 open_run [] = []"
| "pep503 open_run (c # s) =
     (if is_sep c then (if open_run then [] else ''-'') @ pep503 True s
      else lower_char c # pep503 False s)"

lemma re_match_run: "re_match (Plus (Cls P)) (c # s) =
    (if P c then Some (dropWhile P s, Map.empty) else None)"
proof (cases "P c")
  case True
  have "dropWhile P s = [] \<or> \<not> P (hd (dropWhile P s))" using hd_dropWhile by blast
  then have "mk (Star (Cls P)) (\<lambda>t g. Some (t, g)) (takeWhile P s @ dropWhile P s) Map.empty
      = Some (dropWhile P s, Map.empty)"
    by (intro star_greedy) (auto dest: set_takeWhileD)
  with True show ?thesis by (simp add: re_match_def)
qed (simp add: re_match_def)

lemma pep503_run: "pep503 True s = pep503 False (dropWhile is_sep s)"
  by (induction s) auto

lemma re_sub_pep503: "py_lower (re_sub PEP503_RE (\<lambda>_. ''-'') s) = pep503 False s"
proof (induction s rule: length_induct)
  case (1 s)
  show ?case
  proof (cases s)
    case Nil
    then show ?thesis by (simp add: re_sub.simps)
  next
    case (Cons c u)
    have l: "length (dropWhile is_sep u) < length s" "length u < length s"
      using Cons length_dropWhile_le [of is_sep u] by auto
    have sep: "lower_char (CHR ''-'') = CHR ''-''" by (simp add: lower_char_def)
    show ?thesis
    proof (cases "is_sep c")
      case True
      then have "re_sub PEP503_RE (\<lambda>_. ''-'') s = CHR ''-'' # re_sub PEP503_RE (\<lambda>_. ''-'') (dropWhile is_sep u)"
        using l(1) Cons by (subst re_sub.simps) (simp add: PEP503_RE_def re_match_run)
      with 1 l(1) sep True Cons show ?thesis by (simp add: pep503_run)
    next
      case False
      then have "re_sub PEP503_RE (\<lambda>_. ''-'') s = c # re_sub PEP503_RE (\<lambda>_. ''-'') u"
        using Cons by (subst re_sub.simps) (simp add: PEP503_RE_def re_match_run)
      with 1 l(2) False Cons show ?thesis by simp
    qed
  qed
qed

lemma normalize_pypi_pep503: "normalize_pypi_name s = pep503 False s"
  unfolding normalize_pypi_name_def by (rule re_sub_pep503)

lemma is_sep_code: "is_sep c \<longleftrightarrow> (of_char c :: nat) \<in> {45, 46, 95}"
proof -
  have "c = CHR ''-'' \<longleftrightarrow> (of_char c :: nat) = 45" "c = CHR ''.'' \<longleftrightarrow> (of_char c :: nat) = 46"
    "c = CHR ''_'' \<longleftrightarrow> (of_char c :: nat) = 95"
    by (simp_all flip: of_char_eq_iff [where 'a = nat])
  then show ?thesis by (auto simp: is_sep_def)
qed

lemma is_sep_lower [simp]: "is_sep (lower_char c) \<longleftrightarrow> is_sep c"
  unfolding is_sep_code lower_char_def Let_def by auto

lemma pep503_idem: "pep503 b (pep503 b s) = pep503 b s"
proof (induction b s rule: pep503.induct)
  case (2 b c s)
  have "is_sep (CHR ''-'')" by (simp add: is_sep_def)
  with 2 show ?case by (cases b) auto
qed simp

subsection \<open>npm names and their paths\<close>

lemma py_replace_slash: "py_replace ''/'' ''%2f'' s = concat (map (\<lambda>c. if c = CHR ''/'' then ''%2f'' else [c]) s)"
  by (induction s) (auto simp: starts_with_def)

abbreviation esc_slash :: "string \<Rightarrow> string" where
  "esc_slash s \<equiv> concat (map (\<lambda>c. if c = CHR ''/'' then ''%2f'' else [c]) s)"

lemma unescape_slash:
  assumes "CHR ''%'' \<notin> set s"
  shows "py_replace ''%2F'' ''/'' (esc_slash s) = esc_slash s"
    "py_replace ''%2f'' ''/'' (esc_slash s) = s"
  using assms by (induction s) (auto simp: starts_with_def)

lemma npm_path_roundtrip: "CHR ''%'' \<notin> set n \<Longrightarrow> npm_path_to_name (npm_name_to_path n) = n"
  by (simp add: npm_path_to_name_def npm_name_to_path_def py_replace_slash unescape_slash)

lemma npm_path_no_slash: "CHR ''/'' \<notin> set (npm_name_to_path n)"
  by (auto simp: npm_name_to_path_def py_replace_slash split: if_splits)

lemma unreserved_plain: "unreserved c \<Longrightarrow> c \<noteq> CHR ''%'' \<and> c \<noteq> CHR ''/'' \<and> c \<noteq> CHR ''@''"
  by (auto simp: unreserved_def is_digit_def is_alpha_def)

lemma npm_scope_parts_ok:
  "npm_scope_parts ps = (True, None) \<Longrightarrow> list_all (list_all unreserved) ps"
  by (induction ps) (auto simp: msg_start_def msg_url_def py_quote_id split: if_splits)

lemma npm_scope_parts_fst: "fst (npm_scope_parts ps) \<Longrightarrow> npm_scope_parts ps = (True, None)"
  by (induction ps) (auto simp: msg_start_def msg_url_def split: if_splits)

lemma eats_SCOPED:
  assumes "re_groups NPM_SCOPED_RE s = Some g"
  shows "\<exists>e. s = CHR ''@'' # the (g 1) @ CHR ''/'' # the (g 2) @ e \<and> (e = [] \<or> e = [CHR 0x0A])"
proof -
  let ?P = "\<lambda>c. c \<noteq> CHR ''/''"
  from re_groups_Some [OF assms] obtain t h where
    e: "eats NPM_SCOPED_RE s Map.empty t h" "g = h(0 \<mapsto> take (length s - length t) s)" by blast
  from e(1) obtain s1 s2 s3 h1 h3 where s: "s = CHR ''@'' # s1"
    "eats (Plus (Cls ?P)) s1 Map.empty s2 h1" "s2 = CHR ''/'' # s3"
    "eats (Plus (Cls ?P)) s3 (h1(1 \<mapsto> take (length s1 - length s2) s1)) t h3"
    "h = h3(2 \<mapsto> take (length s3 - length t) s3)" "t = [] \<or> t = [CHR 0x0A]"
    unfolding NPM_SCOPED_RE_def Seqs.simps eats_Seq_iff [of "Lit _"] eats_Seq_iff [of "Grp _ _"]
      eats_Grp_iff eats_EndZ_iff eats_Cls_iff by blast
  obtain p where p: "s1 = p @ s2" "h1 = Map.empty"
    using eats_suffix [OF s(2)] s(2) by (auto simp: eats_iffs eats_Star_Cls_iff)
  obtain q where q: "s3 = q @ t" "h3 = h1(1 \<mapsto> take (length s1 - length s2) s1)"
    using eats_suffix [OF s(4)] s(4) by (auto simp: eats_iffs eats_Star_Cls_iff)
  have "g 1 = Some p" "g 2 = Some q" using p q s(5) e(2) by simp_all
  with s p q show ?thesis by (intro exI [of _ t]) simp
qed

lemma fst_if_False: "fst (if c then (False, m) else r) = (\<not> c \<and> fst r)"
  by simp

lemma valid_npm_chars:
  assumes "fst (is_valid_npm_name n)"
  shows "CHR ''%'' \<notin> set n \<and> py_lower n = n \<and> list_all (\<lambda>c. \<not> is_space c) n"
proof -
  have ill: "\<not> list_ex npm_illegal n" and low: "py_lower n = n"
    and rest: "fst (case re_groups NPM_SCOPED_RE n of
        Some g \<Rightarrow> npm_scope_parts [the (g 1), the (g 2)]
      | None \<Rightarrow> if starts_with n ''@'' \<or> CHR ''/'' \<in> set n then msg_url
          else if py_quote n \<noteq> n then msg_url else (True, None))"
    using assms unfolding is_valid_npm_name_def msg_start_def msg_url_def fst_if_False
    by simp_all
  have sp: "list_all (\<lambda>c. \<not> is_space c) n"
    using ill by (auto simp: list_all_iff list_ex_iff npm_illegal_def)
  have "CHR ''%'' \<notin> set n"
  proof (cases "re_groups NPM_SCOPED_RE n")
    case None
    with rest have "list_all unreserved n" by (auto simp: msg_url_def py_quote_id split: if_splits)
    then show ?thesis using unreserved_plain by (auto simp: list_all_iff)
  next
    case (Some g)
    from eats_SCOPED [OF Some] obtain e where
      n: "n = CHR ''@'' # the (g 1) @ CHR ''/'' # the (g 2) @ e" "e = [] \<or> e = [CHR 0x0A]" by blast
    from rest have "fst (npm_scope_parts [the (g 1), the (g 2)])" unfolding Some option.case .
    then have "npm_scope_parts [the (g 1), the (g 2)] = (True, None)" by (rule npm_scope_parts_fst)
    from npm_scope_parts_ok [OF this] n show ?thesis
      using unreserved_plain by (auto simp: list_all_iff)
  qed
  with low sp show ?thesis by blast
qed

lemma valid_npm_normal: "fst (is_valid_npm_name n) \<Longrightarrow> normalize_npm_name n = n"
  using valid_npm_chars [of n]
  by (simp add: normalize_npm_name_def list_all_iff py_strip_nospace)

subsection \<open>Strict versions\<close>

abbreviation STRICT_TAIL :: "nat \<Rightarrow> re" where
  "STRICT_TAIL d \<equiv> Seqs [Opt (PRERELEASE d), Opt (BUILD (Suc d)), EndZ]"

lemma STRICT_shape: "STRICT_SEMVER_RE = Seq (Grp 1 NUM) (Seq (Lit (CHR ''.'')) (Seq (Grp 2 NUM)
    (Seq (Lit (CHR ''.'')) (Seq (Grp 3 NUM) (Seq (Opt (PRERELEASE 4)) (Seq (Opt (BUILD 5)) EndZ))))))"
  by (simp add: STRICT_SEMVER_RE_def)

lemma eats_opt_PRERELEASE_text:
  "eats (Opt (PRERELEASE n)) s g t h \<Longrightarrow> \<exists>ids. list_all valid_ident ids \<and> s = pre_part ids @ t"
  by (subst (asm) eats_Alt_iff)
     (auto simp: eats_Eps_iff pre_part_def dest!: eats_PRERELEASE intro: exI [of _ "[]"])

lemma eats_opt_BUILD_text:
  "eats (Opt (BUILD n)) s g t h \<Longrightarrow>
   \<exists>b. (case b of None \<Rightarrow> True | Some x \<Rightarrow> valid_build x) \<and> s = build_part b @ t"
proof (subst (asm) eats_Alt_iff, elim disjE)
  assume "eats Eps s g t h"
  then show ?thesis by (intro exI [of _ None]) (simp add: eats_Eps_iff build_part_def truthy_def)
next
  assume "eats (BUILD n) s g t h"
  then obtain b where "valid_build b" "s = CHR ''+'' # b @ t" using eats_BUILD by blast
  then show ?thesis
    by (intro exI [of _ "Some b"]) (simp add: build_part_def truthy_def valid_build_ne)
qed

lemma strict_text:
  assumes "is_valid_semver s"
  shows "\<exists>v t. valid_semver v \<and> s = semver_str v @ t \<and> (t = [] \<or> t = [CHR 0x0A])"
proof -
  from assms obtain t h where "eats STRICT_SEMVER_RE s Map.empty t h"
    by (auto simp: is_valid_semver_def re_matches_iff)
  then obtain s1 s2 s3 s4 s5 s6 s7 g1 g2 g3 g4 g5 g6 g7 where
    e: "eats (Grp 1 NUM) s Map.empty s1 g1" "eats (Lit (CHR ''.'')) s1 g1 s2 g2" "eats (Grp 2 NUM) s2 g2 s3 g3"
    "eats (Lit (CHR ''.'')) s3 g3 s4 g4" "eats (Grp 3 NUM) s4 g4 s5 g5"
    "eats (Opt (PRERELEASE 4)) s5 g5 s6 g6" "eats (Opt (BUILD 5)) s6 g6 s7 g7" "eats EndZ s7 g7 t h"
    unfolding STRICT_shape eats_Seq_iff by blast
  obtain A B C where num: "is_numeral A" "is_numeral B" "is_numeral C"
    "s = A @ CHR ''.'' # B @ CHR ''.'' # C @ s5"
    using eats_Grp_NUM [OF e(1)] eats_Lit [OF e(2)] eats_Grp_NUM [OF e(3)] eats_Lit [OF e(4)]
      eats_Grp_NUM [OF e(5)] by blast
  obtain ids where ids: "list_all valid_ident ids" "s5 = pre_part ids @ s6"
    using eats_opt_PRERELEASE_text [OF e(6)] by blast
  obtain b where b: "case b of None \<Rightarrow> True | Some x \<Rightarrow> valid_build x" "s6 = build_part b @ s7"
    using eats_opt_BUILD_text [OF e(7)] by blast
  have t: "t = s7" "t = [] \<or> t = [CHR 0x0A]" using e(8) by (auto simp: eats_EndZ_iff)
  define v where "v = \<lparr>major = int (nat_of_digits A), minor = int (nat_of_digits B),
    patch = int (nat_of_digits C), prerelease = ids, build = b\<rparr>"
  have v: "valid_semver v" using ids b by (simp add: v_def valid_semver_def)
  have "s = semver_str v @ t"
    using num ids b t by (simp add: semver_str_parts [OF v]) (simp add: v_def show_nat_of_digits)
  with v t show ?thesis by blast
qed

lemma strict_str:
  assumes v: "valid_semver v"
  shows "is_valid_semver (semver_str v)"
proof -
  have "mk (CORE 1 2 3 4) (\<lambda>t g. if t = [] then Some () else None) (semver_str v) Map.empty = Some ()"
    by (rule CORE_forward [OF v]) simp
  from mk_sound [OF this] obtain h where "eats (CORE 1 2 3 4) (semver_str v) Map.empty [] h"
    by (auto split: if_splits)
  then obtain s1 s2 s3 s4 s5 s6 s7 g1 g2 g3 g4 g5 g6 g7 where
    e: "eats (Grp 1 NUM) (semver_str v) Map.empty s1 g1" "eats (Lit (CHR ''.'')) s1 g1 s2 g2"
    "eats (Grp 2 NUM) s2 g2 s3 g3" "eats (Lit (CHR ''.'')) s3 g3 s4 g4" "eats (Grp 3 NUM) s4 g4 s5 g5"
    "eats (Opt (PRERELEASE 4)) s5 g5 s6 g6" "eats (Opt (BUILD (Suc 4))) s6 g6 s7 g7"
    "eats (Seq SPACES EndZ) s7 g7 [] h"
    unfolding Seqs.simps eats_Seq_iff by blast
  have suf: "\<exists>p. semver_str v = p @ s7"
    using eats_suffix [OF e(1)] eats_suffix [OF e(2)] eats_suffix [OF e(3)] eats_suffix [OF e(4)]
      eats_suffix [OF e(5)] eats_suffix [OF e(6)] eats_suffix [OF e(7)] by (metis append.assoc)
  have "\<forall>c \<in> set s7. is_space c"
    using e(8) by (auto simp: eats_Seq_iff eats_Star_Cls_iff eats_EndZ_iff is_space_def)
  with suf semver_str_no_space [OF v] have "s7 = []"
    by (cases s7) auto
  then have "eats EndZ s7 g7 [] g7" by (simp add: eats_EndZ_iff)
  moreover have "eats (Opt (BUILD 5)) s6 g6 s7 g7" using e(7) by simp
  ultimately have "eats STRICT_SEMVER_RE (semver_str v) Map.empty [] g7"
    unfolding STRICT_shape eats_Seq_iff using e(1-6) by blast
  then show ?thesis by (auto simp: is_valid_semver_def re_matches_iff)
qed

subsection \<open>The cargo index\<close>

lemma cargo_index_path_length:
  assumes "cargo_index_path n = Some p"
  shows "length p = length (normalize_cargo_name n) +
     (if length (normalize_cargo_name n) \<le> 2 then 2 else if length (normalize_cargo_name n) = 3 then 4 else 6)"
proof -
  let ?k = "length (normalize_cargo_name n)"
  consider "?k = 0" | "?k = 1" | "?k = 2" | "?k = 3" | "4 \<le> ?k" by linarith
  then show ?thesis
    using assms by cases (auto simp: cargo_index_path_def cargo_index_prefix_def Let_def split: if_splits)
qed

lemma cargo_index_path_suffix:
  "cargo_index_path n = Some p \<Longrightarrow> \<exists>q. p = q @ normalize_cargo_name n"
  by (auto simp: cargo_index_path_def)

lemma cargo_index_path_inj:
  assumes "cargo_index_path m = Some p" "cargo_index_path n = Some p"
  shows "normalize_cargo_name m = normalize_cargo_name n"
proof -
  have "length (normalize_cargo_name m) = length (normalize_cargo_name n)"
    using assms [THEN cargo_index_path_length] by (auto split: if_splits)
  with assms [THEN cargo_index_path_suffix] show ?thesis by auto
qed

end
