(* ===== verification/Naming_Spec.thy ===== *)
theory Naming_Spec
  imports Naming_Facts "HOL-Library.Multiset"
begin

section \<open>What the naming component promises\<close>

text \<open>
  Version lists are ordered by an ecosystem's own precedence: the contract of a sort routine
  is a locale, interpreted on the npm and on the PyPI routine, and what the callers need
  (the last element, the order of rows) is proved once from it. Then the properties of names.
\<close>

subsection \<open>The contract of a version sort\<close>

locale version_sort =
  fixes srt :: "string list \<Rightarrow> string list" and key :: "string \<Rightarrow> 'k :: linorder"
  assumes srt_mset: "mset (srt vs) = mset vs"
    and srt_sorted: "sorted (map key (srt vs))"
    and srt_stable: "filter (\<lambda>v. key v = k) (srt vs) = filter (\<lambda>v. key v = k) vs"
begin

lemma srt_set [simp]: "set (srt vs) = set vs"
  using srt_mset [of vs] by (metis set_mset_mset)

lemma srt_length [simp]: "length (srt vs) = length vs"
  using srt_mset [of vs] by (metis size_mset)

lemma srt_last:
  assumes "vs \<noteq> []"
  shows "last (srt vs) \<in> set vs" "v \<in> set vs \<Longrightarrow> key v \<le> key (last (srt vs))"
proof -
  have ne: "srt vs \<noteq> []" using assms srt_length [of vs] by fastforce
  then show "last (srt vs) \<in> set vs" using srt_set last_in_set by blast
  assume "v \<in> set vs"
  then obtain i where i: "i < length (srt vs)" "srt vs ! i = v" by (metis in_set_conv_nth srt_set)
  have "key (srt vs ! i) \<le> key (srt vs ! (length (srt vs) - 1))"
    using sorted_nth_mono [OF srt_sorted [of vs], of i "length (srt vs) - 1"] i by simp
  with i ne show "key v \<le> key (last (srt vs))" by (simp add: last_conv_nth)
qed

lemma position_mono:
  assumes "i \<le> j" "j < length vs"
  shows "key (srt vs ! i) \<le> key (srt vs ! j)"
  using sorted_nth_mono [OF srt_sorted [of vs], of i j] assms by simp

end

subsection \<open>Its two providers\<close>

interpretation npm_sort: version_sort sort_semver semver_sort_key
  by unfold_locales (simp_all add: sort_semver_def sort_key_stable)

definition pypi_sort_key :: "('v :: linorder) packaging \<Rightarrow> string \<Rightarrow> nat \<times> string \<times> 'v list" where
  "pypi_sort_key pk v = (case parse_pypi_version pk v of
     Some p \<Rightarrow> (1, [], [p]) | None \<Rightarrow> (0, v, []))"

lemma pypi_key_parseable:
  "parse_pypi_version pk v \<noteq> None \<Longrightarrow> pypi_sort_key pk v = (1, [], [the (version_of pk v)])"
  by (auto simp: pypi_sort_key_def parse_pypi_version_def)

lemma pypi_key_other: "parse_pypi_version pk v = None \<Longrightarrow> pypi_sort_key pk v = (0, v, [])"
  by (simp add: pypi_sort_key_def)

lemma sorted_append_keys:
  "sorted (map f xs) \<Longrightarrow> sorted (map f ys) \<Longrightarrow> (\<And>x y. x \<in> set xs \<Longrightarrow> y \<in> set ys \<Longrightarrow> f x \<le> f y)
   \<Longrightarrow> sorted (map f (xs @ ys))"
  by (auto simp: sorted_append)

lemma sorted_map_cong:
  "(\<And>x. x \<in> set xs \<Longrightarrow> f x = g x) \<Longrightarrow> sorted (map f xs) = sorted (map g xs)"
  by (metis map_cong)

lemma sorted_map_mono:
  "sorted (map f xs) \<Longrightarrow> (\<And>x y. f x \<le> f y \<Longrightarrow> g x \<le> g y) \<Longrightarrow> sorted (map g xs)"
  unfolding sorted_map by (erule sorted_wrt_mono_rel [rotated]) blast

lemma pypi_srt_sorted: "sorted (map (pypi_sort_key pk) (sort_pypi_versions pk vs))"
proof -
  let ?P = "\<lambda>v. parse_pypi_version pk v \<noteq> None"
  let ?o = "sort (filter (\<lambda>v. \<not> ?P v) vs)" and ?p = "sort_key (\<lambda>v. the (version_of pk v)) (filter ?P vs)"
  have "sorted (map (\<lambda>v. (0 :: nat, v, [] :: 'a list)) ?o)"
    by (rule sorted_map_mono [where f = "\<lambda>v. v"]) simp_all
  then have 1: "sorted (map (pypi_sort_key pk) ?o)"
    by (subst sorted_map_cong [where g = "\<lambda>v. (0, v, [])"]) (auto simp: pypi_key_other)
  have "sorted (map (\<lambda>v. (1 :: nat, [] :: string, [the (version_of pk v)])) ?p)"
    by (rule sorted_map_mono [where f = "\<lambda>v. the (version_of pk v)"]) (auto simp: le_less)
  then have 2: "sorted (map (pypi_sort_key pk) ?p)"
    by (subst sorted_map_cong [where g = "\<lambda>v. (1, [], [the (version_of pk v)])"])
       (auto simp: pypi_key_parseable)
  have "pypi_sort_key pk x \<le> pypi_sort_key pk y" if "x \<in> set ?o" "y \<in> set ?p" for x y
    using that by (auto simp: pypi_key_other pypi_key_parseable)
  from sorted_append_keys [OF 1 2 this] show ?thesis by (simp add: sort_pypi_versions_def)
qed

lemma pypi_srt_stable:
  "filter (\<lambda>v. pypi_sort_key pk v = k) (sort_pypi_versions pk vs) = filter (\<lambda>v. pypi_sort_key pk v = k) vs"
proof -
  let ?P = "\<lambda>v. parse_pypi_version pk v \<noteq> None" and ?f = "\<lambda>v. the (version_of pk v)"
  let ?o = "filter (\<lambda>v. \<not> ?P v) vs" and ?p = "filter ?P vs"
  obtain b s l where k: "k = (b, s, l)" by (cases k)
  show ?thesis
  proof (cases "b = 0 \<and> l = []")
    case True
    have o: "filter (\<lambda>v. pypi_sort_key pk v = k) (sort ?o) = filter (\<lambda>v. v = s) (sort ?o)"
      "filter (\<lambda>v. pypi_sort_key pk v = k) vs = filter (\<lambda>v. v = s) ?o"
      using True k by (auto simp: pypi_key_other pypi_sort_key_def intro!: filter_cong split: option.splits)
    have "filter (\<lambda>v. pypi_sort_key pk v = k) (sort_key ?f ?p) = []"
      using True k by (auto simp: filter_empty_conv pypi_key_parseable)
    moreover have "filter (\<lambda>v. v = s) (sort ?o) = filter (\<lambda>v. v = s) ?o"
      using sort_key_stable [of "\<lambda>v. v" s ?o] by simp
    ultimately show ?thesis using o by (simp add: sort_pypi_versions_def)
  next
    case False
    have none: "filter (\<lambda>v. pypi_sort_key pk v = k) (sort ?o) = []"
      using False k by (auto simp: filter_empty_conv pypi_key_other)
    show ?thesis
    proof (cases "\<exists>x. l = [x] \<and> b = 1 \<and> s = []")
      case True
      then obtain x where x: "l = [x]" "b = 1" "s = []" by blast
      have "filter (\<lambda>v. pypi_sort_key pk v = k) (sort_key ?f ?p) = filter (\<lambda>v. ?f v = x) (sort_key ?f ?p)"
        using x k by (auto simp: pypi_key_parseable intro!: filter_cong)
      moreover have "filter (\<lambda>v. pypi_sort_key pk v = k) vs = filter (\<lambda>v. ?f v = x) ?p"
        using x k by (auto simp: pypi_sort_key_def parse_pypi_version_def intro!: filter_cong split: option.splits)
      ultimately show ?thesis
        using none sort_key_stable [of ?f x ?p] by (simp add: sort_pypi_versions_def)
    next
      case no: False
      have "pypi_sort_key pk v \<noteq> k" if "v \<in> set vs" for v
        using no False k by (auto simp: pypi_sort_key_def split: option.splits)
      then show ?thesis by (auto simp: sort_pypi_versions_def filter_empty_conv)
    qed
  qed
qed

lemma pypi_srt_mset: "mset (sort_pypi_versions pk vs) = mset vs"
  using multiset_partition [of "mset vs" "\<lambda>v. parse_pypi_version pk v \<noteq> None"]
  by (simp add: sort_pypi_versions_def union_commute)

interpretation pypi_sort: version_sort "sort_pypi_versions pk" "pypi_sort_key pk" for pk
  by unfold_locales (rule pypi_srt_mset pypi_srt_sorted pypi_srt_stable)+

subsection \<open>Ordering rows by position\<close>

lemma last_index_Some:
  "last_index i xs x = Some j \<Longrightarrow> i \<le> j \<and> j < i + length xs \<and> xs ! (j - i) = x"
proof (induction i xs x rule: last_index.induct)
  case (2 i y ys x)
  show ?case
  proof (cases "last_index (i + 1) ys x")
    case None
    with "2.prems" show ?thesis by (auto split: if_splits)
  next
    case (Some k)
    with 2 have "i + 1 \<le> j" "j < i + 1 + length ys" "ys ! (j - (i + 1)) = x" by auto
    moreover then have "j - i = Suc (j - (i + 1))" by simp
    ultimately show ?thesis by simp
  qed
qed simp

lemma last_index_in: "x \<in> set xs \<Longrightarrow> last_index i xs x \<noteq> None"
  by (induction i xs x rule: last_index.induct) (auto split: option.splits)

definition position_of :: "string list \<Rightarrow> string \<Rightarrow> nat" where
  "position_of xs v = (case last_index 0 xs v of Some i \<Rightarrow> i | None \<Rightarrow> 0)"

lemma position_of_nth: "v \<in> set xs \<Longrightarrow> position_of xs v < length xs \<and> xs ! position_of xs v = v"
  using last_index_in [of v xs 0] last_index_Some [of 0 xs v] by (auto simp: position_of_def)

lemma sort_key_positions:
  assumes "\<And>r. r \<in> set rows \<Longrightarrow> ver r \<in> set xs"
    and "\<And>i j. i \<le> j \<Longrightarrow> j < length xs \<Longrightarrow> R (xs ! i) (xs ! j)"
  shows "sorted_wrt (\<lambda>a b. R (ver a) (ver b)) (sort_key (\<lambda>r. position_of xs (ver r)) rows)"
proof -
  have "sorted_wrt (\<lambda>a b. position_of xs (ver a) \<le> position_of xs (ver b))
      (sort_key (\<lambda>r. position_of xs (ver r)) rows)"
    using sorted_sort_key [of "\<lambda>r. position_of xs (ver r)" rows] by (simp add: sorted_map)
  then show ?thesis
  proof (rule sorted_wrt_mono_rel [rotated])
    fix a b
    assume "a \<in> set (sort_key (\<lambda>r. position_of xs (ver r)) rows)"
      "b \<in> set (sort_key (\<lambda>r. position_of xs (ver r)) rows)"
      "position_of xs (ver a) \<le> position_of xs (ver b)"
    with assms position_of_nth [of "ver a" xs] position_of_nth [of "ver b" xs]
    show "R (ver a) (ver b)" by (metis set_sort)
  qed
qed

text \<open>The order an ecosystem gives its versions, as the two sort routines realise it.\<close>

definition version_le :: "('v :: linorder) packaging \<Rightarrow> string \<Rightarrow> string \<Rightarrow> string \<Rightarrow> bool" where
  "version_le pk ecosystem a b =
     (if ecosystem = ''pypi'' then pypi_sort_key pk a \<le> pypi_sort_key pk b
      else semver_sort_key a \<le> semver_sort_key b)"

lemma sort_versions_for_facts:
  "set (sort_versions_for pk eco vs rv) = set vs"
  "i \<le> j \<Longrightarrow> j < length vs \<Longrightarrow>
     (if rv then version_le pk eco (sort_versions_for pk eco vs rv ! j) (sort_versions_for pk eco vs rv ! i)
      else version_le pk eco (sort_versions_for pk eco vs rv ! i) (sort_versions_for pk eco vs rv ! j))"
  "length (sort_versions_for pk eco vs rv) = length vs"
  by (auto simp: sort_versions_for_def version_le_def rev_nth Let_def
      intro!: npm_sort.position_mono pypi_sort.position_mono)

lemma order_version_rows_sorted:
  "sorted_wrt (\<lambda>a b. if rv then version_le pk eco (ver b) (ver a) else version_le pk eco (ver a) (ver b))
     (order_version_rows pk eco ver rows rv)"
  unfolding order_version_rows_def Let_def position_of_def [symmetric]
  by (rule sort_key_positions [where R = "\<lambda>a b. if rv then version_le pk eco b a else version_le pk eco a b"])
     (use sort_versions_for_facts [where rv = rv and pk = pk and eco = eco] in auto)

subsection \<open>The npm order is the order of the range engine\<close>

lemma semver_sort_key_le: "semver_sort_key a \<le> semver_sort_key b \<longleftrightarrow> compare_versions a b \<le> 0"
  by (auto simp: compare_versions_def semver_sort_key_def semver_key_def semver_tuple_def bool_int_def
      split: option.splits)

lemma max_semver_pool:
  assumes "pool \<noteq> []"
  shows "last (sort_key semver_sort_key pool) \<in> set pool"
    "v \<in> set pool \<Longrightarrow> compare_versions v (last (sort_key semver_sort_key pool)) \<le> 0"
  using npm_sort.srt_last [OF assms] by (simp_all add: sort_semver_def semver_sort_key_le)

subsection \<open>The properties\<close>

text \<open>
  The npm sort key orders version strings exactly as the range engine's \<open>compare\<close>, so
  ordering and range matching never disagree about two versions, unparseable ones included.
\<close>

theorem semver_sort_key_agrees:
  "(semver_sort_key a \<le> semver_sort_key b) = (compare_versions a b \<le> 0)"
  by (rule semver_sort_key_le)

text \<open>
  \<open>max_semver\<close>, which picks \<open>latest\<close> on publish, returns None only for an empty list, and
  otherwise one of the versions: a stable one whenever there is a stable one, and no version
  of the same stability is above it.
\<close>

theorem max_semver_latest:
  "case max_semver vs of
     None \<Rightarrow> vs = []
   | Some m \<Rightarrow> m \<in> set vs \<and> (is_stable m \<or> list_all (\<lambda>v. is_stable v = False) vs) \<and>
       list_all (\<lambda>v. \<not> (is_stable v = is_stable m \<and> compare_versions v m > 0)) vs"
proof (cases "vs = []")
  case False
  let ?s = "filter is_stable vs"
  show ?thesis
  proof (cases "?s = []")
    case True
    with False max_semver_pool [of vs] show ?thesis
      by (fastforce simp: max_semver_def list_all_iff filter_empty_conv not_less)
  next
    case ne: False
    with False max_semver_pool [OF ne] show ?thesis
      by (fastforce simp: max_semver_def list_all_iff not_less)
  qed
qed (simp add: max_semver_def)

text \<open>
  \<open>order_version_rows\<close> permutes the rows and puts them in the ecosystem's own precedence
  order (PEP 440 with unparseable versions first for pypi, semver for npm and cargo),
  ascending, or descending when reversed, whatever repetitions and ties there are.
\<close>

theorem order_version_rows_correct:
  "mset (order_version_rows pk eco ver rows rv) = mset rows \<and>
   sorted_wrt (\<lambda>a b. if rv then version_le pk eco (ver b) (ver a) else version_le pk eco (ver a) (ver b))
     (order_version_rows pk eco ver rows rv)"
proof (rule conjI)
  show "mset (order_version_rows pk eco ver rows rv) = mset rows"
    by (simp add: order_version_rows_def Let_def)
qed (rule order_version_rows_sorted)

text \<open>
  PEP 503 normalisation is idempotent, and is the one pass that lowers every character
  and writes one hyphen for each maximal run of separators.
\<close>

theorem normalize_pypi_name_pep503:
  "normalize_pypi_name s = pep503 False s \<and>
   normalize_pypi_name (normalize_pypi_name s) = normalize_pypi_name s"
  by (simp add: normalize_pypi_pep503 pep503_idem)

text \<open>
  For a valid new npm package name, the storage key is the name itself, it is lower case,
  and its one-segment path encoding contains no slash and decodes back to the name.
\<close>

theorem npm_name_path_roundtrip:
  assumes "fst (is_valid_npm_name n)"
  shows "normalize_npm_name n = n \<and> py_lower n = n \<and> CHR ''/'' \<notin> set (npm_name_to_path n) \<and>
    npm_path_to_name (npm_name_to_path n) = n"
  using valid_npm_chars [OF assms] valid_npm_normal [OF assms] npm_path_no_slash npm_path_roundtrip
  by blast

theorem npm_name_path_roundtrip_witness:
  "npm_path_to_name (npm_name_to_path ''@acme/left-pad'') = ''@acme/left-pad''"
proof -
  have "fst (is_valid_npm_name ''@acme/left-pad'')" by code_simp
  from npm_name_path_roundtrip [OF this] show ?thesis by blast
qed

text \<open>
  A string without line feed is accepted as a published version exactly when it is the
  canonical text of a well-formed version: no leading \<open>v\<close> or \<open>=\<close>, no blanks, no leading zeros.
\<close>

theorem is_valid_semver_canonical:
  assumes "CHR 0x0A \<notin> set s"
  shows "is_valid_semver s \<longleftrightarrow> (\<exists>v. valid_semver v \<and> s = semver_str v)"
  using strict_text [of s] strict_str assms by fastforce

theorem is_valid_semver_canonical_witness:
  "is_valid_semver ''1.0.0-rc.1+b7''"
proof -
  let ?v = "\<lparr>major = 1, minor = 0, patch = 0, prerelease = [IStr ''rc'', INum 1], build = Some ''b7''\<rparr>"
  have "CHR 0x0A \<notin> set ''1.0.0-rc.1+b7''" by simp
  moreover have "valid_semver ?v" "''1.0.0-rc.1+b7'' = semver_str ?v" by code_simp+
  ultimately show ?thesis using is_valid_semver_canonical by blast
qed

text \<open>A final line feed passes the strict check, the anchor being \<open>$\<close> of an unanchored match.\<close>

lemma is_valid_semver_line_feed: "is_valid_semver (''1.0.0'' @ [CHR 0x0A])"
  by code_simp

text \<open>
  Two crates share a path of the sparse index only when their normalised names are equal,
  and only the empty name has no path.
\<close>

theorem cargo_index_path_injective:
  "(cargo_index_path a = cargo_index_path b) = (normalize_cargo_name a = normalize_cargo_name b) \<and>
   (cargo_index_path a = None) = (normalize_cargo_name a = [])"
proof -
  have none: "cargo_index_path n = None \<longleftrightarrow> normalize_cargo_name n = []" for n
    by (simp add: cargo_index_path_def cargo_index_prefix_def Let_def)
  have "cargo_index_path a = cargo_index_path b" if "normalize_cargo_name a = normalize_cargo_name b"
    using that by (simp add: cargo_index_path_def cargo_index_prefix_def)
  then show ?thesis
    using none cargo_index_path_inj by (metis not_Some_eq)
qed

end
