(* ===== verification/Py_Glob.thy ===== *)
theory Py_Glob
  imports Py_Regex
begin

section \<open>Shell patterns: \<open>fnmatch.fnmatchcase\<close>\<close>

text \<open>
  \<open>fnmatchcase\<close> turns a shell pattern into a regular expression that has to match the whole
  name: \<open>*\<close> is any run of characters, \<open>?\<close> any one, \<open>[...]\<close> one of a set (with ranges,
  \<open>!\<close> for the complement, a first \<open>]\<close> literal), and a \<open>[\<close> that is never closed is itself.
  An empty range such as \<open>b-a\<close> contributes nothing.
\<close>

datatype glob_item = GStar | GAny | GLit char | GSet bool "(char \<times> char) list"

text \<open>The members of a set as inclusive ranges.\<close>

fun glob_ranges :: "string \<Rightarrow> (char \<times> char) list" where
  "glob_ranges [] = []"
| "glob_ranges [a] = [(a, a)]"
| "glob_ranges [a, b] = [(a, a), (b, b)]"
| "glob_ranges (a # b # c # s) =
     (if b = CHR ''-'' then (a, c) # glob_ranges s else (a, a) # glob_ranges (b # c # s))"

text \<open>The body of a set and what follows it, when there is a closing bracket.\<close>

definition glob_set :: "string \<Rightarrow> (bool \<times> string \<times> string) option" where
  "glob_set s = (let
     (neg, t) = (case s of CHR ''!'' # u \<Rightarrow> (True, u) | _ \<Rightarrow> (False, s));
     (first, u) = (case t of CHR '']'' # v \<Rightarrow> ('']'', v) | _ \<Rightarrow> ([], t));
     body = takeWhile (\<lambda>c. c \<noteq> CHR '']'') u; rest = dropWhile (\<lambda>c. c \<noteq> CHR '']'') u
     in case rest of [] \<Rightarrow> None | _ # r \<Rightarrow> Some (neg, first @ body, r))"

lemma glob_set_shorter:
  assumes "glob_set s = Some (n, b, r)"
  shows "length r < length s"
proof -
  have d: "length (dropWhile (\<lambda>c. c \<noteq> CHR '']'') u) \<le> length u" for u :: string
    by (rule length_dropWhile_le)
  obtain neg t where 1: "(case s of CHR ''!'' # u \<Rightarrow> (True, u) | _ \<Rightarrow> (False, s)) = (neg, t)"
    "length t \<le> length s"
    by (cases "case s of CHR ''!'' # u \<Rightarrow> (True, u) | _ \<Rightarrow> (False, s)")
       (auto split: list.splits if_splits char.splits bool.splits)
  obtain first u where 2: "(case t of CHR '']'' # v \<Rightarrow> ('']'', v) | _ \<Rightarrow> ([], t)) = (first, u)"
    "length u \<le> length t"
    by (cases "case t of CHR '']'' # v \<Rightarrow> ('']'', v) | _ \<Rightarrow> ([], t)")
       (auto split: list.splits if_splits char.splits bool.splits)
  from assms have "dropWhile (\<lambda>c. c \<noteq> CHR '']'') u = CHR '']'' # r \<or>
      (\<exists>x. dropWhile (\<lambda>c. c \<noteq> CHR '']'') u = x # r)"
    unfolding glob_set_def 1(1) Let_def prod.case 2(1) by (auto split: list.splits)
  then have "Suc (length r) \<le> length u" using d [of u] by auto
  with 1(2) 2(2) show ?thesis by linarith
qed

function glob_parse :: "string \<Rightarrow> glob_item list" where
  "glob_parse [] = []"
| "glob_parse (c # s) =
     (if c = CHR ''*'' then GStar # glob_parse s
      else if c = CHR ''?'' then GAny # glob_parse s
      else if c = CHR ''['' then
        (case glob_set s of
           None \<Rightarrow> GLit c # glob_parse s
         | Some (neg, b, r) \<Rightarrow> GSet neg (glob_ranges b) # glob_parse r)
      else GLit c # glob_parse s)"
  by pat_completeness auto
termination
  by (relation "measure length") (auto dest: glob_set_shorter)

fun glob_re :: "glob_item \<Rightarrow> re" where
  "glob_re GStar = Star (Cls (\<lambda>_. True))"
| "glob_re GAny = Cls (\<lambda>_. True)"
| "glob_re (GLit c) = Lit c"
| "glob_re (GSet neg rs) = Cls (\<lambda>c. list_ex (\<lambda>(a, b). a \<le> c \<and> c \<le> b) rs \<noteq> neg)"

definition fnmatchcase :: "string \<Rightarrow> string \<Rightarrow> bool" where
  "fnmatchcase name pat = re_fullmatch (Seqs (map glob_re (glob_parse pat))) name"

subsection \<open>The meaning of a pattern\<close>

text \<open>A reference matcher: one item and one character at a time.\<close>

fun glob_one :: "glob_item \<Rightarrow> char \<Rightarrow> bool" where
  "glob_one (GLit c) x = (x = c)"
| "glob_one (GSet neg rs) x = (list_ex (\<lambda>(a, b). a \<le> x \<and> x \<le> b) rs \<noteq> neg)"
| "glob_one _ x = True"

fun glob_spec :: "glob_item list \<Rightarrow> string \<Rightarrow> bool" where
  "glob_spec [] s = (s = [])"
| "glob_spec (GStar # is) [] = glob_spec is []"
| "glob_spec (GStar # is) (c # s) = (glob_spec is (c # s) \<or> glob_spec (GStar # is) s)"
| "glob_spec (i # is) [] = False"
| "glob_spec (i # is) (c # s) = (glob_one i c \<and> glob_spec is s)"

lemma glob_spec_star: "glob_spec (GStar # is) s \<longleftrightarrow> (\<exists>p t. s = p @ t \<and> glob_spec is t)"
proof (induction s)
  case Nil
  then show ?case by simp
next
  case (Cons c s)
  have "(\<exists>p t. c # s = p @ t \<and> glob_spec is t) \<longleftrightarrow>
      glob_spec is (c # s) \<or> (\<exists>p t. s = p @ t \<and> glob_spec is t)"
    by (metis Cons_eq_append_conv)
  with Cons show ?case by simp
qed

lemma eats_Seqs_Cons:
  "eats (Seqs (r # rs)) s g t h \<longleftrightarrow> (\<exists>u i. eats r s g u i \<and> eats (Seqs rs) u i t h)"
  by (cases rs) (auto simp: eats_iffs)

lemma glob_re_one: "i \<noteq> GStar \<Longrightarrow> glob_re i = Cls (glob_one i)"
  by (cases i) (auto simp: fun_eq_iff)

lemma glob_spec_one:
  "i \<noteq> GStar \<Longrightarrow> glob_spec (i # is) s \<longleftrightarrow> (\<exists>c t. s = c # t \<and> glob_one i c \<and> glob_spec is t)"
  by (cases i; cases s) auto

lemma eats_glob: "(\<exists>h. eats (Seqs (map glob_re is)) s g [] h) \<longleftrightarrow> glob_spec is s"
proof (induction "is" arbitrary: s g)
  case Nil
  then show ?case by (auto simp: eats_iffs)
next
  case (Cons i "is")
  have step: "(\<exists>h. eats (Seqs (map glob_re (i # is))) s g [] h)
      \<longleftrightarrow> (\<exists>t g'. eats (glob_re i) s g t g' \<and> glob_spec is t)"
  proof -
    have "(\<exists>h. eats (Seqs (map glob_re (i # is))) s g [] h)
        \<longleftrightarrow> (\<exists>t g'. eats (glob_re i) s g t g' \<and> (\<exists>h. eats (Seqs (map glob_re is)) t g' [] h))"
      unfolding list.map eats_Seqs_Cons by blast
    then show ?thesis by (simp only: Cons.IH)
  qed
  show ?case
  proof (cases "i = GStar")
    case True
    show ?thesis
      unfolding step unfolding True glob_re.simps glob_spec_star eats_Star_Cls_iff by blast
  next
    case False
    show ?thesis
      unfolding step unfolding glob_re_one [OF False] glob_spec_one [OF False] eats_Cls_iff by auto
  qed
qed

lemma fnmatchcase_spec: "fnmatchcase name pat = glob_spec (glob_parse pat) name"
  unfolding fnmatchcase_def re_fullmatch_iff by (rule eats_glob)

lemma fnmatchcase_star: "fnmatchcase s ''*''"
  by (simp add: fnmatchcase_spec glob_spec_star)

text \<open>A pattern without metacharacters matches only itself.\<close>

definition glob_plain :: "string \<Rightarrow> bool" where
  "glob_plain p = list_all (\<lambda>c. c \<notin> set ''*?['') p"

lemma glob_spec_plain: "glob_plain p \<Longrightarrow> glob_spec (glob_parse p) s \<longleftrightarrow> s = p"
proof (induction p arbitrary: s)
  case Nil
  then show ?case by simp
next
  case (Cons c p)
  then show ?case by (cases s) (auto simp: glob_plain_def)
qed

lemma fnmatchcase_plain: "glob_plain p \<Longrightarrow> fnmatchcase s p \<longleftrightarrow> s = p"
  by (simp add: fnmatchcase_spec glob_spec_plain)

text \<open>A prefix pattern \<open>p*\<close>.\<close>

lemma glob_parse_plain_append:
  "glob_plain p \<Longrightarrow> glob_parse (p @ q) = map GLit p @ glob_parse q"
  by (induction p) (auto simp: glob_plain_def)

lemma glob_spec_lits: "glob_spec (map GLit p @ is) s \<longleftrightarrow> (\<exists>t. s = p @ t \<and> glob_spec is t)"
proof (induction p arbitrary: s)
  case (Cons c p)
  then show ?case by (cases s) auto
qed simp

lemma fnmatchcase_prefix: "glob_plain p \<Longrightarrow> fnmatchcase s (p @ ''*'') \<longleftrightarrow> starts_with s p"
  by (auto simp: fnmatchcase_spec glob_parse_plain_append glob_spec_lits glob_spec_star
      starts_with_iff)

end
