(* ===== verification/Py_Json.thy ===== *)
theory Py_Json
  imports Py_Prelude Complex_Main
begin

section \<open>JSON values\<close>

text \<open>
  The documents the program reads, as \<open>json.loads\<close> delivers them. An object is a dict, kept
  as an association list whose first entry for a key is the one \<open>get\<close> returns; a float is
  the rational number it denotes. \<open>isinstance(x, int)\<close> holds of a boolean as well, as in
  Python.
\<close>

datatype json = JNull | JBool bool | JInt int | JFloat rat | JStr string
  | JList "json list" | JObj "(string \<times> json) list"

definition jget :: "json \<Rightarrow> string \<Rightarrow> json" where
  \<comment> \<open>\<open>d.get(k)\<close>, with \<open>None\<close> for what is absent (and for what is not a dict)\<close>
  "jget d k = (case d of JObj kvs \<Rightarrow> (case map_of kvs k of Some v \<Rightarrow> v | None \<Rightarrow> JNull) | _ \<Rightarrow> JNull)"

definition jhas :: "json \<Rightarrow> string \<Rightarrow> bool" where
  \<comment> \<open>\<open>k in d\<close>\<close>
  "jhas d k = (case d of JObj kvs \<Rightarrow> map_of kvs k \<noteq> None | _ \<Rightarrow> False)"

definition jget_or :: "json \<Rightarrow> string \<Rightarrow> json \<Rightarrow> json" where
  \<comment> \<open>\<open>d.get(k, default)\<close>\<close>
  "jget_or d k v = (if jhas d k then jget d k else v)"

fun is_obj :: "json \<Rightarrow> bool" where
  "is_obj (JObj _) = True" | "is_obj _ = False"

fun is_list :: "json \<Rightarrow> bool" where
  "is_list (JList _) = True" | "is_list _ = False"

fun as_str :: "json \<Rightarrow> string option" where
  "as_str (JStr s) = Some s" | "as_str _ = None"

fun as_list :: "json \<Rightarrow> json list option" where
  "as_list (JList xs) = Some xs" | "as_list _ = None"

fun as_int :: "json \<Rightarrow> int option" where
  \<comment> \<open>the value, when \<open>isinstance(x, int)\<close>\<close>
  "as_int (JInt i) = Some i"
| "as_int (JBool b) = Some (if b then 1 else 0)"
| "as_int _ = None"

fun as_num :: "json \<Rightarrow> rat option" where
  \<comment> \<open>\<open>float(x)\<close> of a number\<close>
  "as_num (JInt i) = Some (of_int i)"
| "as_num (JFloat r) = Some r"
| "as_num (JBool b) = Some (if b then 1 else 0)"
| "as_num _ = None"

fun jtruthy :: "json \<Rightarrow> bool" where
  \<comment> \<open>\<open>bool(x)\<close>\<close>
  "jtruthy JNull = False"
| "jtruthy (JBool b) = b"
| "jtruthy (JInt i) = (i \<noteq> 0)"
| "jtruthy (JFloat r) = (r \<noteq> 0)"
| "jtruthy (JStr s) = (s \<noteq> [])"
| "jtruthy (JList xs) = (xs \<noteq> [])"
| "jtruthy (JObj kvs) = (kvs \<noteq> [])"

lemma jget_simps [simp]:
  "jget (JObj []) k = JNull"
  "jget (JObj ((k', v) # kvs)) k = (if k = k' then v else jget (JObj kvs) k)"
  by (auto simp: jget_def)

lemma jhas_simps [simp]:
  "jhas (JObj []) k = False"
  "jhas (JObj ((k', v) # kvs)) k = (k = k' \<or> jhas (JObj kvs) k)"
  by (auto simp: jhas_def)

end
