(* ===== verification/Package_Policy.thy ===== *)
theory Package_Policy
  imports Naming Py_Glob Py_Json
begin

section \<open>Allow and block rules, and the CVE policy (\<open>services/policy.py\<close>)\<close>

text \<open>
  The policy engine: rule matching by name pattern and version specification, the CVSS range
  policy with its three states, and \<open>evaluate\<close> in its order: block rules, allowlist mode, CVE
  policy. The engine's memo, the shared cache and the database it loads from are an explicit
  state. A CVSS score is the rational number the float denotes; the text of a verdict is kept
  as a datatype with one constructor for each message. PEP 440 specifier sets belong to the
  \<open>packaging\<close> library: \<open>in_specifiers spec version\<close> is a parameter, \<open>None\<close> for an exception.
\<close>

datatype reason =
    RuleReason string
  | BlockedByRule string
  | NotOnAllowlist
  | NamedMalware
  | Unscanned
  | Unscored
  | CvssInRange rat rat rat

datatype source = block_rule | allowlist | cve

record verdict =
  allowed :: bool
  reason_of :: "reason option"
  rule_id :: "int option"
  source_of :: "source option"

definition blocked :: "verdict \<Rightarrow> bool" where
  "blocked v = (\<not> allowed v)"

definition ALLOWED :: verdict where
  "ALLOWED = \<lparr>allowed = True, reason_of = None, rule_id = None, source_of = None\<rparr>"

definition denied :: "reason \<Rightarrow> int option \<Rightarrow> source \<Rightarrow> verdict" where
  "denied r i s = \<lparr>allowed = False, reason_of = Some r, rule_id = i, source_of = Some s\<rparr>"

subsection \<open>The CVE policy\<close>

record cve_policy =
  enabled :: bool
  min_score :: rat
  max_score :: rat
  block_unscored :: bool
  require_fix_available :: bool

definition default_policy :: cve_policy where
  "default_policy = \<lparr>enabled = False, min_score = 7, max_score = 10, block_unscored = False,
     require_fix_available = False\<rparr>"

definition policy_blocks :: "cve_policy \<Rightarrow> rat option \<Rightarrow> bool \<Rightarrow> bool option \<Rightarrow> bool" where
  "policy_blocks p score scanned has_advisories =
     (if \<not> enabled p then False
      else if \<not> scanned then block_unscored p
      else (case score of
        None \<Rightarrow> block_unscored p
      | Some s \<Rightarrow>
          if s = 0 \<and> has_advisories \<noteq> Some True then False
          else min_score p \<le> s \<and> s \<le> max_score p))"

definition policy_to_dict :: "cve_policy \<Rightarrow> json" where
  "policy_to_dict p = JObj
     [(''enabled'', JBool (enabled p)), (''min_score'', JFloat (min_score p)),
      (''max_score'', JFloat (max_score p)), (''block_unscored'', JBool (block_unscored p)),
      (''require_fix_available'', JBool (require_fix_available p))]"

text \<open>\<open>None\<close> is the exception of \<open>float\<close> on what is not a number.\<close>

definition policy_from_dict :: "json \<Rightarrow> cve_policy option" where
  "policy_from_dict data = (if \<not> jtruthy data then Some default_policy
     else (case (as_num (jget_or data ''min_score'' (JFloat 7)), as_num (jget_or data ''max_score'' (JFloat 10))) of
       (Some lo, Some hi) \<Rightarrow> Some
         \<lparr>enabled = jtruthy (jget_or data ''enabled'' (JBool False)), min_score = lo, max_score = hi,
          block_unscored = jtruthy (jget_or data ''block_unscored'' (JBool False)),
          require_fix_available = jtruthy (jget_or data ''require_fix_available'' (JBool False))\<rparr>
     | _ \<Rightarrow> None))"

subsection \<open>Rules\<close>

datatype action = block | allow

record rule =
  ecosystem :: "string option"
  pattern :: string
  action_of :: action
  version_spec :: "string option"
  rule_reason :: "string option"
  id_of :: int

definition normalize_pattern :: "string \<Rightarrow> string \<Rightarrow> string" where
  "normalize_pattern pat eco = (let base = py_lower (py_strip pat) in
     if eco = ''pypi'' then re_sub PEP503_RE (\<lambda>_. ''-'') base else base)"

definition matches_name :: "string \<Rightarrow> string \<Rightarrow> string \<Rightarrow> bool" where
  "matches_name pat normalized_name eco = fnmatchcase normalized_name (normalize_pattern pat eco)"

definition matches_version ::
  "(string \<Rightarrow> string \<Rightarrow> bool option) \<Rightarrow> string option \<Rightarrow> string \<Rightarrow> string option \<Rightarrow> bool" where
  "matches_version in_specifiers spec0 eco version =
     (if \<not> truthy spec0 then True
      else (case version of
        None \<Rightarrow> False
      | Some v \<Rightarrow> (let spec = py_strip (the spec0) in
          if spec \<in> {''*'', ''x'', ''X''} then True
          else if eco = ''pypi'' then
            (case in_specifiers spec v of Some b \<Rightarrow> b | None \<Rightarrow> fnmatchcase v spec)
          else if is_valid_range spec then satisfies v spec True
          else v = spec \<or> fnmatchcase v spec)))"

subsection \<open>Evaluation\<close>

definition applicable :: "string \<Rightarrow> rule list \<Rightarrow> rule list" where
  "applicable eco rules = filter (\<lambda>r. ecosystem r = None \<or> ecosystem r = Some eco) rules"

definition block_hit ::
  "(string \<Rightarrow> string \<Rightarrow> bool option) \<Rightarrow> string \<Rightarrow> string \<Rightarrow> string option \<Rightarrow> rule \<Rightarrow> bool" where
  "block_hit in_specifiers eco name version r =
     (action_of r = block \<and> matches_name (pattern r) name eco
      \<and> matches_version in_specifiers (version_spec r) eco version)"

definition allow_hit ::
  "(string \<Rightarrow> string \<Rightarrow> bool option) \<Rightarrow> string \<Rightarrow> string \<Rightarrow> string option \<Rightarrow> bool \<Rightarrow> rule \<Rightarrow> bool" where
  "allow_hit in_specifiers eco name version name_level r =
     (action_of r = allow \<and> matches_name (pattern r) name eco
      \<and> (name_level \<or> matches_version in_specifiers (version_spec r) eco version))"

definition rule_verdict :: "rule \<Rightarrow> verdict" where
  "rule_verdict r = denied
     (if truthy (rule_reason r) then RuleReason (the (rule_reason r)) else BlockedByRule (pattern r))
     (Some (id_of r)) block_rule"

record release_facts =
  max_cvss :: "rat option"
  has_fix :: bool
  scanned :: bool
  has_advisories :: "bool option"
  malicious :: bool

definition cve_verdict :: "cve_policy \<Rightarrow> string option \<Rightarrow> release_facts \<Rightarrow> verdict" where
  "cve_verdict p version f =
     (if version \<noteq> None \<and> enabled p \<and> malicious f then denied NamedMalware None cve
      else if version \<noteq> None \<and> policy_blocks p (max_cvss f) (scanned f) (has_advisories f) then
        (if \<not> scanned f then denied Unscanned None cve
         else (case max_cvss f of
           None \<Rightarrow> denied Unscored None cve
         | Some s \<Rightarrow>
             if require_fix_available p \<and> \<not> has_fix f then ALLOWED
             else denied (CvssInRange s (min_score p) (max_score p)) None cve))
      else ALLOWED)"

definition evaluate ::
  "(string \<Rightarrow> string \<Rightarrow> bool option) \<Rightarrow> rule list \<Rightarrow> bool \<Rightarrow> cve_policy \<Rightarrow>
   string \<Rightarrow> string \<Rightarrow> string option \<Rightarrow> release_facts \<Rightarrow> bool \<Rightarrow> verdict" where
  "evaluate in_specifiers rules allowlist_mode policy eco normalized_name version facts name_level =
     (let name = py_lower normalized_name; rs = applicable eco rules in
      case find (block_hit in_specifiers eco name version) rs of
        Some r \<Rightarrow> rule_verdict r
      | None \<Rightarrow>
          if allowlist_mode \<and> \<not> list_ex (allow_hit in_specifiers eco name version name_level) rs
          then denied NotOnAllowlist None allowlist
          else cve_verdict policy version facts)"

definition no_facts :: release_facts where
  \<comment> \<open>the defaults of \<open>evaluate\<close>'s keyword arguments\<close>
  "no_facts = \<lparr>max_cvss = None, has_fix = False, scanned = True, has_advisories = None, malicious = False\<rparr>"

definition is_name_blocked ::
  "(string \<Rightarrow> string \<Rightarrow> bool option) \<Rightarrow> rule list \<Rightarrow> bool \<Rightarrow> cve_policy \<Rightarrow> string \<Rightarrow> string \<Rightarrow> verdict" where
  "is_name_blocked in_specifiers rules allowlist_mode policy eco normalized_name =
     evaluate in_specifiers rules allowlist_mode policy eco normalized_name None no_facts True"

subsection \<open>Loading rules and settings\<close>

text \<open>
  Where rules and settings come from: the engine's own memo, then the shared cache, then the
  database. A row is a rule with its \<open>enabled\<close> flag; a setting that has no row is JSON null.
\<close>

record policy_state =
  memo_rules :: "rule list option"
  memo_settings :: "string \<rightharpoonup> json"
  cached_rules :: "rule list option"
  cached_settings :: "string \<rightharpoonup> json"
  rule_rows :: "(bool \<times> rule) list"
  setting_rows :: "string \<rightharpoonup> json"

definition load_rules :: "policy_state \<Rightarrow> rule list \<times> policy_state" where
  "load_rules st = (case memo_rules st of
     Some rs \<Rightarrow> (rs, st)
   | None \<Rightarrow> (case cached_rules st of
       Some rs \<Rightarrow> (rs, st\<lparr>memo_rules := Some rs\<rparr>)
     | None \<Rightarrow> (let rs = map snd (filter fst (rule_rows st)) in
         (rs, st\<lparr>cached_rules := Some rs, memo_rules := Some rs\<rparr>))))"

definition get_setting :: "string \<Rightarrow> json \<Rightarrow> policy_state \<Rightarrow> json \<times> policy_state" where
  "get_setting key dflt st = (case memo_settings st key of
     Some v \<Rightarrow> (v, st)
   | None \<Rightarrow> (case cached_settings st key of
       Some v \<Rightarrow> (v, st\<lparr>memo_settings := (memo_settings st)(key \<mapsto> v)\<rparr>)
     | None \<Rightarrow> (let v = (case setting_rows st key of Some v \<Rightarrow> v | None \<Rightarrow> dflt) in
         (v, st\<lparr>cached_settings := (cached_settings st)(key \<mapsto> v),
                memo_settings := (memo_settings st)(key \<mapsto> v)\<rparr>))))"

definition get_cve_policy :: "policy_state \<Rightarrow> cve_policy option \<times> policy_state" where
  "get_cve_policy st = (case get_setting ''cve_policy'' JNull st of (v, st') \<Rightarrow> (policy_from_dict v, st'))"

definition allowlist_mode_on :: "policy_state \<Rightarrow> bool \<times> policy_state" where
  "allowlist_mode_on st =
     (case get_setting ''allowlist_mode'' (JObj [(''enabled'', JBool False)]) st of
       (v, st') \<Rightarrow> (if is_obj v then jtruthy (jget_or v ''enabled'' (JBool False)) else jtruthy v, st'))"

definition invalidate_policy_cache :: "policy_state \<Rightarrow> policy_state" where
  "invalidate_policy_cache st = st\<lparr>cached_rules := None, cached_settings := Map.empty\<rparr>"

definition new_engine :: "policy_state \<Rightarrow> policy_state" where
  \<comment> \<open>\<open>PolicyEngine(session)\<close>, one for each request\<close>
  "new_engine st = st\<lparr>memo_rules := None, memo_settings := Map.empty\<rparr>"

text \<open>
  \<open>evaluate\<close> as the engine runs it: the settings are read only when the evaluation gets that
  far. \<open>None\<close> is the exception of an unreadable CVE policy.
\<close>

definition engine_evaluate ::
  "(string \<Rightarrow> string \<Rightarrow> bool option) \<Rightarrow> string \<Rightarrow> string \<Rightarrow> string option \<Rightarrow> release_facts \<Rightarrow> bool \<Rightarrow>
   policy_state \<Rightarrow> verdict option \<times> policy_state" where
  "engine_evaluate in_specifiers eco normalized_name version facts name_level st0 =
     (case load_rules st0 of (rules, st1) \<Rightarrow>
      (let name = py_lower normalized_name; rs = applicable eco rules in
       case find (block_hit in_specifiers eco name version) rs of
         Some r \<Rightarrow> (Some (rule_verdict r), st1)
       | None \<Rightarrow> (case allowlist_mode_on st1 of (al, st2) \<Rightarrow>
           if al \<and> \<not> list_ex (allow_hit in_specifiers eco name version name_level) rs
           then (Some (denied NotOnAllowlist None allowlist), st2)
           else (case get_cve_policy st2 of (p, st3) \<Rightarrow>
             (map_option (\<lambda>p. cve_verdict p version facts) p, st3)))))"

end
