(* ===== verification/Package_Policy_Spec.thy ===== *)
theory Package_Policy_Spec
  imports Package_Policy Naming_Facts
begin

section \<open>What the policy engine promises\<close>

text \<open>
  The decision of \<open>evaluate\<close> against a specification that mentions neither loops nor early
  returns, the meaning of name patterns on PyPI names, and the refinement of the loading
  engine: as long as memo and cache agree with the database, it decides as the stored rules
  and settings say, and its caches keep agreeing.
\<close>

subsection \<open>The decision\<close>

text \<open>The three states of a scan, and when each is denied.\<close>

definition cve_denies :: "cve_policy \<Rightarrow> release_facts \<Rightarrow> bool" where
  "cve_denies p f = (enabled p \<and> (malicious f \<or>
     (if scanned f \<and> max_cvss f \<noteq> None then
        (max_cvss f \<noteq> Some 0 \<or> has_advisories f = Some True) \<and>
        min_score p \<le> the (max_cvss f) \<and> the (max_cvss f) \<le> max_score p \<and>
        (has_fix f \<or> \<not> require_fix_available p)
      else block_unscored p)))"

lemma denied_not_allowed [simp]: "\<not> allowed (denied r i s)" "source_of (denied r i s) = Some s"
  by (simp_all add: denied_def)

lemma ALLOWED_allowed [simp]: "allowed ALLOWED" "source_of ALLOWED = None"
  by (simp_all add: ALLOWED_def)

lemma rule_verdict_simps [simp]: "\<not> allowed (rule_verdict r)" "source_of (rule_verdict r) = Some block_rule"
  by (simp_all add: rule_verdict_def)

lemma cve_verdict_allowed: "allowed (cve_verdict p version f) \<longleftrightarrow> version = None \<or> \<not> cve_denies p f"
  by (auto simp: cve_verdict_def cve_denies_def policy_blocks_def split: option.splits)

lemma cve_verdict_source: "source_of (cve_verdict p version f) \<noteq> Some block_rule"
  "source_of (cve_verdict p version f) \<noteq> Some allowlist"
  by (auto simp: cve_verdict_def split: option.splits)

lemma find_None_list_ex: "find P xs = None \<longleftrightarrow> \<not> list_ex P xs"
  by (auto simp: find_None_iff list_ex_iff)

lemma evaluate_cases:
  "evaluate sp rules al p eco n version f nl =
     (if list_ex (block_hit sp eco (py_lower n) version) (applicable eco rules)
      then rule_verdict (the (find (block_hit sp eco (py_lower n) version) (applicable eco rules)))
      else if al \<and> \<not> list_ex (allow_hit sp eco (py_lower n) version nl) (applicable eco rules)
      then denied NotOnAllowlist None allowlist else cve_verdict p version f)"
  by (auto simp: evaluate_def Let_def find_None_list_ex split: option.splits)
     (metis find_None_list_ex option.distinct(1))+

text \<open>A rule of another ecosystem, or disabled, or for allowing, never blocks.\<close>

lemma applicable_append: "applicable eco (rs @ qs) = applicable eco rs @ applicable eco qs"
  by (simp add: applicable_def)

subsection \<open>Patterns on PyPI names\<close>

lemma py_lower_eq_Nil [simp]: "py_lower s = [] \<longleftrightarrow> s = []"
  by (simp add: py_lower_def)

lemma dropWhile_sep_lower: "dropWhile is_sep (py_lower s) = py_lower (dropWhile is_sep s)"
  by (induction s) auto

lemma re_sub_sep_step:
  "re_sub PEP503_RE (\<lambda>_. ''-'') (c # u) =
    (if is_sep c then CHR ''-'' # re_sub PEP503_RE (\<lambda>_. ''-'') (dropWhile is_sep u)
     else c # re_sub PEP503_RE (\<lambda>_. ''-'') u)"
proof (cases "is_sep c")
  case True
  then show ?thesis
    using length_dropWhile_le [of is_sep u] by (subst re_sub.simps) (simp add: PEP503_RE_def re_match_run)
next
  case False
  then show ?thesis by (subst re_sub.simps) (simp add: PEP503_RE_def re_match_run)
qed

lemma re_sub_sep_lower:
  "re_sub PEP503_RE (\<lambda>_. ''-'') (py_lower s) = py_lower (re_sub PEP503_RE (\<lambda>_. ''-'') s)"
proof (induction s rule: length_induct)
  case (1 s)
  show ?case
  proof (cases s)
    case Nil
    then show ?thesis by (simp add: re_sub.simps)
  next
    case (Cons c u)
    have "length (dropWhile is_sep u) < length s" "length u < length s"
      using Cons length_dropWhile_le [of is_sep u] by auto
    moreover have "lower_char (CHR ''-'') = CHR ''-''" by (simp add: lower_char_def)
    ultimately show ?thesis
      using 1 Cons by (simp add: re_sub_sep_step dropWhile_sep_lower)
  qed
qed

lemma normalize_pattern_pypi: "normalize_pattern pat ''pypi'' = normalize_pypi_name (py_strip pat)"
  by (simp add: normalize_pattern_def normalize_pypi_name_def re_sub_sep_lower)

subsection \<open>The engine's caches\<close>

definition stored_rules :: "policy_state \<Rightarrow> rule list" where
  "stored_rules st = map snd (filter fst (rule_rows st))"

definition stored_setting :: "policy_state \<Rightarrow> string \<Rightarrow> json \<Rightarrow> json" where
  "stored_setting st key dflt = (case setting_rows st key of Some v \<Rightarrow> v | None \<Rightarrow> dflt)"

text \<open>Each setting has one default wherever it is read.\<close>

definition setting_default :: "string \<Rightarrow> json" where
  "setting_default key = (if key = ''allowlist_mode'' then JObj [(''enabled'', JBool False)] else JNull)"

definition coherent :: "policy_state \<Rightarrow> bool" where
  "coherent st =
     ((memo_rules st = None \<or> memo_rules st = Some (stored_rules st)) \<and>
      (cached_rules st = None \<or> cached_rules st = Some (stored_rules st)) \<and>
      (\<forall>k. memo_settings st k = None \<or> memo_settings st k = Some (stored_setting st k (setting_default k))) \<and>
      (\<forall>k. cached_settings st k = None \<or> cached_settings st k = Some (stored_setting st k (setting_default k))))"

definition same_db :: "policy_state \<Rightarrow> policy_state \<Rightarrow> bool" where
  "same_db st st' = (rule_rows st' = rule_rows st \<and> setting_rows st' = setting_rows st)"

lemma stored_update [simp]:
  "stored_setting (st\<lparr>memo_rules := mr\<rparr>) = stored_setting st"
  "stored_setting (st\<lparr>cached_rules := cr\<rparr>) = stored_setting st"
  "stored_setting (st\<lparr>memo_settings := ms\<rparr>) = stored_setting st"
  "stored_setting (st\<lparr>cached_settings := cs\<rparr>) = stored_setting st"
  "stored_rules (st\<lparr>memo_rules := mr\<rparr>) = stored_rules st"
  "stored_rules (st\<lparr>cached_rules := cr\<rparr>) = stored_rules st"
  "stored_rules (st\<lparr>memo_settings := ms\<rparr>) = stored_rules st"
  "stored_rules (st\<lparr>cached_settings := cs\<rparr>) = stored_rules st"
  by (simp_all add: fun_eq_iff stored_setting_def stored_rules_def)

lemma load_rules_coherent:
  assumes "coherent st" "load_rules st = (rs, st')"
  shows "rs = stored_rules st \<and> coherent st' \<and> same_db st st'"
  using assms
  by (auto simp: load_rules_def coherent_def same_db_def stored_rules_def [symmetric] Let_def
      split: option.splits)

lemma coherentD:
  assumes "coherent st"
  shows "memo_settings st k = Some v \<Longrightarrow> v = stored_setting st k (setting_default k)"
    "cached_settings st k = Some v \<Longrightarrow> v = stored_setting st k (setting_default k)"
  using assms unfolding coherent_def by (metis option.distinct(1) option.inject)+

lemma coherent_memo:
  "coherent st \<Longrightarrow> coherent (st\<lparr>memo_settings := (memo_settings st)(k \<mapsto> stored_setting st k (setting_default k))\<rparr>)"
  by (simp add: coherent_def)

lemma coherent_cached:
  "coherent st \<Longrightarrow> coherent (st\<lparr>cached_settings := (cached_settings st)(k \<mapsto> stored_setting st k (setting_default k)),
     memo_settings := (memo_settings st)(k \<mapsto> stored_setting st k (setting_default k))\<rparr>)"
  by (simp add: coherent_def)

lemma get_setting_coherent:
  assumes "coherent st" "get_setting key (setting_default key) st = (v, st')"
  shows "v = stored_setting st key (setting_default key) \<and> coherent st' \<and> same_db st st'"
proof (cases "memo_settings st key")
  case (Some w)
  with assms coherentD(1) [OF assms(1) Some] show ?thesis by (auto simp: get_setting_def same_db_def)
next
  case memo: None
  show ?thesis
  proof (cases "cached_settings st key")
    case (Some w)
    with memo assms(2) coherentD(2) [OF assms(1) Some] coherent_memo [OF assms(1), of key] show ?thesis
      by (auto simp: get_setting_def same_db_def)
  next
    case None
    with memo assms(2) coherent_cached [OF assms(1), of key] show ?thesis
      by (auto simp: get_setting_def same_db_def Let_def stored_setting_def)
  qed
qed

definition stored_allowlist :: "policy_state \<Rightarrow> bool" where
  "stored_allowlist st = (let v = stored_setting st ''allowlist_mode'' (setting_default ''allowlist_mode'') in
     if is_obj v then jtruthy (jget_or v ''enabled'' (JBool False)) else jtruthy v)"

definition stored_policy :: "policy_state \<Rightarrow> cve_policy option" where
  "stored_policy st = policy_from_dict (stored_setting st ''cve_policy'' JNull)"

lemma allowlist_coherent:
  assumes "coherent st" "allowlist_mode_on st = (b, st')"
  shows "b = stored_allowlist st \<and> coherent st' \<and> same_db st st'"
proof -
  obtain v s where g: "get_setting ''allowlist_mode'' (setting_default ''allowlist_mode'') st = (v, s)"
    by fastforce
  with assms(2) get_setting_coherent [OF assms(1) g] show ?thesis
    by (auto simp: allowlist_mode_on_def stored_allowlist_def setting_default_def Let_def)
qed

lemma cve_policy_coherent:
  assumes "coherent st" "get_cve_policy st = (p, st')"
  shows "p = stored_policy st \<and> coherent st' \<and> same_db st st'"
proof -
  have d: "setting_default ''cve_policy'' = JNull" by (simp add: setting_default_def)
  obtain v s where g: "get_setting ''cve_policy'' (setting_default ''cve_policy'') st = (v, s)"
    by fastforce
  with assms(2) get_setting_coherent [OF assms(1) g] show ?thesis
    by (auto simp: get_cve_policy_def stored_policy_def d)
qed

lemma stored_same_db:
  "same_db st st' \<Longrightarrow> stored_allowlist st' = stored_allowlist st \<and> stored_policy st' = stored_policy st"
  by (simp add: same_db_def stored_allowlist_def stored_policy_def stored_setting_def)

lemma same_db_trans: "same_db a b \<Longrightarrow> same_db b c \<Longrightarrow> same_db a c"
  by (simp add: same_db_def)

lemma engine_evaluate_refines:
  assumes co: "coherent st" and pol: "stored_policy st = Some p"
  shows "case engine_evaluate sp eco n version f nl st of (v, st') \<Rightarrow>
    v = Some (evaluate sp (stored_rules st) (stored_allowlist st) p eco n version f nl)
    \<and> coherent st' \<and> same_db st st'"
proof -
  obtain rs st1 where 1: "load_rules st = (rs, st1)" by fastforce
  obtain al st2 where 2: "allowlist_mode_on st1 = (al, st2)" by fastforce
  obtain q st3 where 3: "get_cve_policy st2 = (q, st3)" by fastforce
  note l = load_rules_coherent [OF co 1]
  then have a: "al = stored_allowlist st1 \<and> coherent st2 \<and> same_db st1 st2"
    using allowlist_coherent [OF _ 2] by blast
  then have c: "q = stored_policy st2 \<and> coherent st3 \<and> same_db st2 st3"
    using cve_policy_coherent [OF _ 3] by blast
  have db: "same_db st st2" "same_db st st3" using l a c same_db_trans by blast+
  have "al = stored_allowlist st" "q = Some p"
    using a c l pol stored_same_db [of st st1] stored_same_db [OF db(1)] by auto
  then show ?thesis
    using l a c db 1 2 3
    by (auto simp: engine_evaluate_def evaluate_def Let_def split: option.splits)
qed

lemma coherent_fresh: "coherent (new_engine (invalidate_policy_cache st))"
  by (simp add: coherent_def new_engine_def invalidate_policy_cache_def)

lemma fresh_db: "same_db st (new_engine (invalidate_policy_cache st))"
  by (simp add: same_db_def new_engine_def invalidate_policy_cache_def)

subsection \<open>The properties\<close>

text \<open>
  The decision of the policy engine. A version is served exactly when no applicable block
  rule covers it, it is on the allowlist when that mode is on (a version-scoped allow rule is
  enough at name level), and, when a version is asked for, the CVE policy does not deny it:
  malware always, an unscanned or unscored release by \<open>block_unscored\<close>, a scored one inside the
  range unless it is clean or a fix is required and missing.
\<close>

theorem evaluate_decision:
  "allowed (evaluate sp rules al p eco n version f nl) \<longleftrightarrow>
     \<not> list_ex (block_hit sp eco (py_lower n) version) (applicable eco rules) \<and>
     \<not> (al \<and> \<not> list_ex (allow_hit sp eco (py_lower n) version nl) (applicable eco rules)) \<and>
     \<not> (version \<noteq> None \<and> cve_denies p f)"
  by (auto simp: evaluate_cases cve_verdict_allowed)

text \<open>
  Block rules are absolute. The verdict comes from a block rule exactly when one covers the
  package, whatever the allowlist, the CVE policy and the scan say, and adding rules to the list
  never lifts a block.
\<close>

theorem block_rules_absolute:
  "(source_of (evaluate sp rules al p eco n version f nl) = Some block_rule) =
     list_ex (block_hit sp eco (py_lower n) version) (applicable eco rules) \<and>
   \<not> (source_of (evaluate sp rules al p eco n version f nl) = Some block_rule \<and>
      allowed (evaluate sp (before @ rules @ after) al' p' eco n version f' nl'))"
  by (simp add: evaluate_cases cve_verdict_source applicable_append)

text \<open>
  A PyPI rule written without wildcards, in any spelling of the name (capitals, underscores,
  dots, runs of separators, blanks around it), covers exactly the project whose PEP 503 name it
  spells.
\<close>

theorem pypi_rule_spelling:
  assumes "glob_plain (normalize_pypi_name (py_strip pat))"
  shows "matches_name pat (normalize_pypi_name n) ''pypi'' \<longleftrightarrow>
    normalize_pypi_name (py_strip pat) = normalize_pypi_name n"
  unfolding matches_name_def normalize_pattern_pypi fnmatchcase_plain [OF assms] by (rule eq_commute)

theorem pypi_rule_spelling_witness:
  "matches_name '' Typing__Extensions'' (normalize_pypi_name ''typing.extensions'') ''pypi''"
proof -
  have "glob_plain (normalize_pypi_name (py_strip '' Typing__Extensions''))"
    "normalize_pypi_name (py_strip '' Typing__Extensions'') = normalize_pypi_name ''typing.extensions''"
    by code_simp+
  then show ?thesis using pypi_rule_spelling by blast
qed

text \<open>
  The loading engine refines the decision. From any state whose memo and cache agree with the
  database, \<open>evaluate\<close> returns the verdict of the stored enabled rules and stored settings, and
  leaves memo and cache in agreement; a new engine after \<open>invalidate_policy_cache\<close> is such a
  state, so a policy edit is enforced by the next request.
\<close>

theorem policy_edit_enforced:
  assumes "stored_policy st = Some p"
  shows "fst (engine_evaluate sp eco n version f nl (new_engine (invalidate_policy_cache st))) =
      Some (evaluate sp (stored_rules st) (stored_allowlist st) p eco n version f nl) \<and>
    coherent (snd (engine_evaluate sp eco n version f nl (new_engine (invalidate_policy_cache st))))"
proof -
  let ?st = "new_engine (invalidate_policy_cache st)"
  have "stored_policy ?st = Some p" "stored_allowlist ?st = stored_allowlist st"
    using assms stored_same_db [OF fresh_db [of st]] by simp_all
  moreover have "stored_rules ?st = stored_rules st"
    by (simp add: stored_rules_def new_engine_def invalidate_policy_cache_def)
  ultimately show ?thesis
    using engine_evaluate_refines [OF coherent_fresh, of st p sp eco n version f nl]
    by (simp add: case_prod_beta)
qed

definition sample_rule :: rule where
  "sample_rule = \<lparr>ecosystem = Some ''npm'', pattern = ''left-pad'', action_of = block,
     version_spec = Some ''<2'', rule_reason = None, id_of = 7\<rparr>"

definition sample_state :: policy_state where
  "sample_state = \<lparr>memo_rules = Some [], memo_settings = Map.empty, cached_rules = Some [],
     cached_settings = Map.empty, rule_rows = [(True, sample_rule)], setting_rows = Map.empty\<rparr>"

theorem policy_edit_enforced_witness:
  "fst (engine_evaluate (\<lambda>_ _. None) ''npm'' ''left-pad'' (Some ''1.3.0'') no_facts False
      (new_engine (invalidate_policy_cache sample_state))) = Some (rule_verdict sample_rule)"
proof -
  have "stored_policy sample_state = Some default_policy"
    by (simp add: stored_policy_def stored_setting_def sample_state_def policy_from_dict_def)
  moreover have "stored_rules sample_state = [sample_rule]"
    by (simp add: stored_rules_def sample_state_def)
  moreover have "block_hit (\<lambda>_ _. None) ''npm'' ''left-pad'' (Some ''1.3.0'') sample_rule"
    "applicable ''npm'' [sample_rule] = [sample_rule]" "py_lower ''left-pad'' = ''left-pad''"
    by code_simp+
  then have "evaluate (\<lambda>_ _. None) [sample_rule] (stored_allowlist sample_state)
      default_policy ''npm'' ''left-pad'' (Some ''1.3.0'') no_facts False = rule_verdict sample_rule"
    by (simp add: evaluate_def)
  ultimately show ?thesis using policy_edit_enforced [of sample_state default_policy] by metis
qed

text \<open>
  An operator x-range has no \<open>-0\<close> in its lower bound, even with prereleases included, so a block
  rule on it leaves the prereleases of its first version out.
\<close>

lemma operator_xrange_lower_bound:
  "\<not> satisfies ''1.0.0-alpha'' ''>=1.x'' True" "satisfies ''1.0.0-alpha'' ''1.x'' True"
  by code_simp+

end
