(* ===== verification/Py_Url.thy ===== *)
theory Py_Url
  imports Py_Prelude
begin

section \<open>URLs: \<open>urllib.parse.urlsplit\<close>\<close>

text \<open>
  The parts of a URL the program reads: scheme, host name and port. As in \<open>urlsplit\<close>, leading
  control characters and blanks are dropped, tabs and line breaks removed, a scheme is letters,
  digits, \<open>+-.\<close> after a letter, the authority ends at \<open>/\<close>, \<open>?\<close> or \<open>#\<close>, user information ends at
  its last \<open>@\<close>, a bracketed host is an IPv6 literal, and the host name is lowered.
  (The \<open>ValueError\<close> of unbalanced brackets is not modelled.)
\<close>

record url_parts =
  scheme :: string
  netloc :: string
  url_path :: string

definition url_clean :: "string \<Rightarrow> string" where
  "url_clean s = filter (\<lambda>c. c \<notin> {CHR 0x09, CHR 0x0A, CHR 0x0D})
     (dropWhile (\<lambda>c. (of_char c :: nat) \<le> 32) s)"

definition scheme_char :: "char \<Rightarrow> bool" where
  "scheme_char c = (is_alpha c \<or> is_digit c \<or> c \<in> set ''+-.'')"

definition urlsplit :: "string \<Rightarrow> url_parts" where
  "urlsplit s0 = (let s = url_clean s0; p = py_partition (CHR '':'') s;
     (sch, rest) = (if fst (snd p) \<noteq> [] \<and> fst p \<noteq> [] \<and> is_alpha (hd (fst p)) \<and> list_all scheme_char (fst p)
       then (py_lower (fst p), snd (snd p)) else ([], s));
     stop = (\<lambda>c. c \<in> set ''/?#'')
     in if starts_with rest ''//'' then
          \<lparr>scheme = sch, netloc = takeWhile (\<lambda>c. \<not> stop c) (drop 2 rest),
           url_path = dropWhile (\<lambda>c. \<not> stop c) (drop 2 rest)\<rparr>
        else \<lparr>scheme = sch, netloc = [], url_path = rest\<rparr>)"

definition hostinfo :: "string \<Rightarrow> string" where
  \<comment> \<open>the authority without its user information\<close>
  "hostinfo n = snd (snd (py_rpartition (CHR ''@'') n))"

definition url_hostname :: "string \<Rightarrow> string" where
  \<comment> \<open>\<open>urlsplit(s).hostname or ""\<close>\<close>
  "url_hostname s = (let h = hostinfo (netloc (urlsplit s)) in
     py_lower (if CHR ''['' \<in> set h then takeWhile (\<lambda>c. c \<noteq> CHR '']'') (tl (dropWhile (\<lambda>c. c \<noteq> CHR ''['') h))
               else takeWhile (\<lambda>c. c \<noteq> CHR '':'') h))"

definition url_port_text :: "string \<Rightarrow> string" where
  "url_port_text s = (let h = hostinfo (netloc (urlsplit s));
     t = (if CHR ''['' \<in> set h then dropWhile (\<lambda>c. c \<noteq> CHR '']'') h else h)
     in snd (snd (py_partition (CHR '':'') t)))"

text \<open>\<open>urlsplit(s).port\<close>: no port, a number up to 65535, or the \<open>ValueError\<close> as the outer \<open>None\<close>.\<close>

definition url_port :: "string \<Rightarrow> nat option option" where
  "url_port s = (let t = url_port_text s in
     if t = [] then Some None
     else if list_all is_digit t \<and> nat_of_digits t \<le> 65535 then Some (Some (nat_of_digits t))
     else None)"

end
