(* ===== verification/Docker_Naming.thy ===== *)
theory Docker_Naming
  imports Py_Glob Py_Url
begin

section \<open>Image names, references and routing (\<open>docker/naming.py\<close>)\<close>

text \<open>
  The OCI name, tag and digest grammars, the presets and the names no upstream may take, how
  an image name is routed to the local namespace or an upstream, and how a \<open>/v2\<close> path is
  split. \<open>settings.docker_local_namespace\<close> is the argument \<open>local_ns\<close>; an upstream row is what the
  code reads of it.
\<close>

subsection \<open>Grammars\<close>

definition is_lower_alnum :: "char \<Rightarrow> bool" where
  "is_lower_alnum c = (c \<in> set ''abcdefghijklmnopqrstuvwxyz0123456789'')"

definition is_tag_start :: "char \<Rightarrow> bool" where
  "is_tag_start c = (is_alpha c \<or> is_digit c \<or> c = CHR ''_'')"

definition is_tag_char :: "char \<Rightarrow> bool" where
  "is_tag_char c = (is_tag_start c \<or> c = CHR ''.'' \<or> c = CHR ''-'')"

definition is_hex :: "char \<Rightarrow> bool" where
  "is_hex c = (c \<in> set ''abcdef0123456789'')"

definition COMPONENT :: re where
  "COMPONENT = Seq (Plus (Cls is_lower_alnum)) (Star (Seq
     (Alt (Lit (CHR ''.'')) (Alt (Lit (CHR ''_'')) (Alt (Word ''__'') (Plus (Lit (CHR ''-''))))))
     (Plus (Cls is_lower_alnum))))"

definition NAME_RE :: re where
  "NAME_RE = Seqs [COMPONENT, Star (Seq (Lit (CHR ''/'')) COMPONENT), EndZ]"

definition TAG_RE :: re where
  "TAG_RE = Seqs [Cls is_tag_start, UpTo 127 (Cls is_tag_char), EndZ]"

definition DIGEST_RE :: re where
  "DIGEST_RE = Seqs [Word ''sha256:'', Times 64 (Cls is_hex), EndZ]"

definition UPSTREAM_NAME_RE :: re where
  "UPSTREAM_NAME_RE = Seqs [Cls is_lower_alnum,
     Opt (Seq (UpTo 61 (Cls (\<lambda>c. is_lower_alnum c \<or> c = CHR ''-''))) (Cls is_lower_alnum)), EndZ]"

definition MAX_NAME_LENGTH :: nat where
  "MAX_NAME_LENGTH = 255"

definition HUB_UPSTREAM_NAME :: string where
  "HUB_UPSTREAM_NAME = ''dockerhub''"

definition is_digest :: "string \<Rightarrow> bool" where
  "is_digest ref = re_fullmatch DIGEST_RE ref"

definition is_tag :: "string \<Rightarrow> bool" where
  "is_tag ref = re_fullmatch TAG_RE ref"

definition valid_name :: "string \<Rightarrow> bool" where
  "valid_name name = (0 < length name \<and> length name \<le> MAX_NAME_LENGTH \<and> re_fullmatch NAME_RE name)"

subsection \<open>Presets and reserved names\<close>

record preset =
  p_name :: string
  p_label :: string
  p_url :: string
  blob_hosts :: "string list"
  auth_hosts :: "string list"
  library_prefix :: bool

definition PRESETS :: "preset list" where
  "PRESETS = [
     \<lparr>p_name = HUB_UPSTREAM_NAME, p_label = ''Docker Hub'', p_url = ''https://registry-1.docker.io'',
      blob_hosts = [''production.cloudfront.docker.com'', ''*.cloudfront.docker.com''],
      auth_hosts = [''auth.docker.io''], library_prefix = True\<rparr>,
     \<lparr>p_name = ''ghcr'', p_label = ''GitHub (ghcr.io)'', p_url = ''https://ghcr.io'',
      blob_hosts = [''pkg-containers.githubusercontent.com''], auth_hosts = [], library_prefix = False\<rparr>,
     \<lparr>p_name = ''quay'', p_label = ''Quay'', p_url = ''https://quay.io'',
      blob_hosts = [''cdn*.quay.io''], auth_hosts = [], library_prefix = False\<rparr>,
     \<lparr>p_name = ''k8s'', p_label = ''registry.k8s.io'', p_url = ''https://registry.k8s.io'',
      blob_hosts = [''*-docker.pkg.dev'', ''cdn.registry.k8s.io'',
        ''prod-registry-k8s-io-*.s3.dualstack.*.amazonaws.com'', ''storage.googleapis.com''],
      auth_hosts = [], library_prefix = False\<rparr>,
     \<lparr>p_name = ''ecr-public'', p_label = ''AWS Public ECR'', p_url = ''https://public.ecr.aws'',
      blob_hosts = [''*.cloudfront.net''], auth_hosts = [], library_prefix = False\<rparr>,
     \<lparr>p_name = ''gcr-mirror'', p_label = ''Google mirror (mirror.gcr.io)'', p_url = ''https://mirror.gcr.io'',
      blob_hosts = [''storage.googleapis.com''], auth_hosts = [], library_prefix = True\<rparr>]"

definition preset_of :: "string \<Rightarrow> preset option" where
  "preset_of name = find (\<lambda>p. p_name p = name) PRESETS"

definition reserved_names :: "string \<Rightarrow> string list" where
  "reserved_names local_ns =
     [local_ns, ''library'', ''v2'', ''token'', ''_catalog'', HUB_UPSTREAM_NAME] @ map p_name PRESETS"

definition same_registry :: "string \<Rightarrow> string \<Rightarrow> bool" where
  "same_registry a b = (url_hostname a = url_hostname b)"

datatype name_problem = NotAPathSegment | ReservedForPreset string | Reserved

definition upstream_name_problem :: "string \<Rightarrow> string \<Rightarrow> string \<Rightarrow> name_problem option" where
  "upstream_name_problem local_ns name url =
     (if \<not> re_matches UPSTREAM_NAME_RE name then Some NotAPathSegment
      else (case preset_of name of
        Some p \<Rightarrow> if same_registry (p_url p) url then None else Some (ReservedForPreset (p_label p))
      | None \<Rightarrow> if name \<in> set (reserved_names local_ns) then Some Reserved else None))"

definition host_matches :: "string \<Rightarrow> string list \<Rightarrow> bool" where
  "host_matches host patterns =
     list_ex (\<lambda>p. p \<noteq> [] \<and> fnmatchcase (py_lower host) (py_lower p)) patterns"

subsection \<open>Routing\<close>

text \<open>\<open>up_library\<close> is the \<open>library_prefix\<close> entry of the row's \<open>extra\<close>, when there is one.\<close>

record docker_upstream =
  up_name :: string
  up_url :: string
  up_library :: "bool option"

record target =
  canonical :: string
  upstream :: "docker_upstream option"
  remote :: "string option"
  local :: bool

definition upstream_uses_library :: "docker_upstream \<Rightarrow> bool" where
  "upstream_uses_library u = (case up_library u of
     Some b \<Rightarrow> b
   | None \<Rightarrow> (case preset_of (up_name u) of
       Some p \<Rightarrow> library_prefix p
     | None \<Rightarrow> url_hostname (up_url u) \<in>
         {''registry-1.docker.io'', ''index.docker.io'', ''docker.io'', ''mirror.gcr.io''}))"

definition library_expand :: "docker_upstream \<Rightarrow> string \<Rightarrow> string" where
  "library_expand u rem =
     (if CHR ''/'' \<in> set rem then rem
      else if upstream_uses_library u then ''library/'' @ rem
      else rem)"

definition upstream_target :: "docker_upstream \<Rightarrow> string \<Rightarrow> target" where
  "upstream_target u rem = \<lparr>canonical = up_name u @ ''/'' @ library_expand u rem, upstream = Some u,
     remote = Some (library_expand u rem), local = False\<rparr>"

datatype lookup_error = NoHub | LocalAlone | UpstreamDisabled string | NoDefault

definition route ::
  "string \<Rightarrow> (string \<rightharpoonup> docker_upstream) \<Rightarrow> docker_upstream option \<Rightarrow> bool \<Rightarrow> string list \<Rightarrow> string
   \<Rightarrow> lookup_error + target" where
  "route local_ns upstreams default_upstream mirror_host disabled name =
     (case py_partition (CHR ''/'') name of (first, _, rest) \<Rightarrow>
       if mirror_host then
         (case (case upstreams HUB_UPSTREAM_NAME of Some u \<Rightarrow> Some u | None \<Rightarrow> default_upstream) of
            None \<Rightarrow> Inl NoHub | Some hub \<Rightarrow> Inr (upstream_target hub name))
       else if first = local_ns then
         (if rest = [] then Inl LocalAlone
          else Inr \<lparr>canonical = name, upstream = None, remote = None, local = True\<rparr>)
       else if rest \<noteq> [] \<and> first \<in> set disabled \<and> upstreams first = None then Inl (UpstreamDisabled first)
       else if rest \<noteq> [] \<and> upstreams first \<noteq> None then Inr (upstream_target (the (upstreams first)) rest)
       else (case default_upstream of
         None \<Rightarrow> Inl NoDefault | Some d \<Rightarrow> Inr (upstream_target d name)))"

subsection \<open>\<open>/v2\<close> paths\<close>

datatype endpoint = Base | Catalog | Token | Upload | Upload_session | Blob | Manifest | Tags | Referrers

record v2path =
  endpoint_of :: endpoint
  v2_name :: "string option"
  reference :: "string option"

definition dot :: "char \<Rightarrow> bool" where
  "dot c = (c \<noteq> CHR 0x0A)"

definition not_slash :: "char \<Rightarrow> bool" where
  "not_slash c = (c \<noteq> CHR ''/'')"

definition session_char :: "char \<Rightarrow> bool" where
  "session_char c = (is_alpha c \<or> is_digit c \<or> c = CHR ''-'')"

text \<open>A name, a fixed part, and a reference of one class of characters.\<close>

definition ref_re :: "string \<Rightarrow> (char \<Rightarrow> bool) \<Rightarrow> re" where
  "ref_re part P = Seqs [Grp 1 (Plus (Cls dot)), Word part, Grp 2 (Plus (Cls P)), EndZ]"

definition V2_PATTERNS :: "(endpoint \<times> re) list" where
  "V2_PATTERNS = [
     (Upload, Seqs [Grp 1 (Plus (Cls dot)), Word ''/blobs/uploads'', Opt (Lit (CHR ''/'')), EndZ]),
     (Upload_session, ref_re ''/blobs/uploads/'' session_char),
     (Blob, ref_re ''/blobs/'' not_slash),
     (Manifest, ref_re ''/manifests/'' not_slash),
     (Tags, Seqs [Grp 1 (Plus (Cls dot)), Word ''/tags/list'', EndZ]),
     (Referrers, ref_re ''/referrers/'' not_slash)]"

fun first_pattern :: "(endpoint \<times> re) list \<Rightarrow> string \<Rightarrow> v2path option" where
  "first_pattern [] path = None"
| "first_pattern ((e, r) # ps) path = (case re_groups r path of
     Some g \<Rightarrow> Some \<lparr>endpoint_of = e, v2_name = g 1, reference = g 2\<rparr>
   | None \<Rightarrow> first_pattern ps path)"

definition parse_v2_path :: "string \<Rightarrow> v2path option" where
  "parse_v2_path path =
     (if path \<in> {[], ''/''} then Some \<lparr>endpoint_of = Base, v2_name = None, reference = None\<rparr>
      else if path = ''_catalog'' then Some \<lparr>endpoint_of = Catalog, v2_name = None, reference = None\<rparr>
      else if path = ''token'' then Some \<lparr>endpoint_of = Token, v2_name = None, reference = None\<rparr>
      else first_pattern V2_PATTERNS path)"

end
