(* ===== verification/Docker_Naming_Spec.thy ===== *)
theory Docker_Naming_Spec
  imports Docker_Naming
begin

section \<open>What image naming promises\<close>

text \<open>
  The tag and digest grammars exactly, the endpoints a \<open>/v2\<close> path is split into, and routing:
  one canonical name per image, no capture of the local namespace or of official images, no
  falling through a disabled prefix.
\<close>

subsection \<open>Tags and digests\<close>

lemma is_tag_iff: "is_tag s \<longleftrightarrow>
    (\<exists>c t. s = c # t \<and> is_tag_start c \<and> list_all is_tag_char t \<and> length t \<le> 127)"
  unfolding is_tag_def re_fullmatch_iff TAG_RE_def Seqs.simps eats_Seq_iff eats_UpTo eats_Cls_iff eats_EndZ_iff
  by auto

lemma digest_shape: "DIGEST_RE = Seq (Word ''sha256:'') (Seq (Times 64 (Cls is_hex)) EndZ)"
  by (simp only: DIGEST_RE_def Seqs.simps)

lemma is_digest_iff: "is_digest s \<longleftrightarrow>
    (\<exists>d. s = ''sha256:'' @ d \<and> length d = 64 \<and> list_all is_hex d)"
  unfolding is_digest_def re_fullmatch_iff digest_shape eats_Seq_iff eats_Times eats_Word eats_EndZ_iff
  by auto

lemma hex_not_slash: "is_hex c \<Longrightarrow> not_slash c \<and> dot c"
  by (auto simp: is_hex_def not_slash_def dot_def)

lemma tag_not_slash: "is_tag_char c \<Longrightarrow> not_slash c \<and> dot c"
  by (auto simp: is_tag_char_def is_tag_start_def not_slash_def dot_def is_digit_def is_alpha_def)

lemma reference_chars:
  assumes "is_tag r \<or> is_digest r"
  shows "r \<noteq> [] \<and> list_all not_slash r \<and> list_all dot r"
  using assms
proof
  assume "is_tag r"
  then show ?thesis
    using tag_not_slash by (auto simp: is_tag_iff is_tag_char_def [of "hd r"] list_all_iff)
      (use tag_not_slash is_tag_char_def in blast)+
next
  assume "is_digest r"
  moreover have "list_all not_slash ''sha256:''" "list_all dot ''sha256:''"
    by (simp_all add: not_slash_def dot_def)
  ultimately show ?thesis
    using hex_not_slash by (auto simp: is_digest_iff list_all_iff)
qed

subsection \<open>Names\<close>

definition is_name_char :: "char \<Rightarrow> bool" where
  "is_name_char c = (is_lower_alnum c \<or> c \<in> set ''._-/'')"

lemma valid_name_chars: "valid_name n \<Longrightarrow> n \<noteq> [] \<and> list_all is_name_char n"
proof -
  assume n: "valid_name n"
  have "list_all is_name_char n"
    by (rule fullmatch_chars [of NAME_RE])
       (use n in \<open>simp_all add: valid_name_def NAME_RE_def COMPONENT_def is_name_char_def\<close>)
  with n show ?thesis by (auto simp: valid_name_def)
qed

lemma name_char_dot: "is_name_char c \<Longrightarrow> dot c"
  by (auto simp: is_name_char_def is_lower_alnum_def dot_def)

lemma valid_name_dot: "valid_name n \<Longrightarrow> n \<noteq> [] \<and> list_all dot n"
  using valid_name_chars name_char_dot by (auto simp: list_all_iff)

subsection \<open>Splitting a path at its last segment\<close>

lemma ref_re_shape: "ref_re part P = Seq (Grp 1 (Plus (Cls dot))) (Seq (Word part) (Seq (Grp 2 (Plus (Cls P))) EndZ))"
  by (simp only: ref_re_def Seqs.simps)

lemma eats_ref_re:
  "eats (ref_re part P) s Map.empty t h \<longleftrightarrow>
   (\<exists>n r. s = n @ part @ r @ t \<and> n \<noteq> [] \<and> list_all dot n \<and> r \<noteq> [] \<and> list_all P r \<and>
     (t = [] \<or> t = [CHR 0x0A]) \<and> h = [1 \<mapsto> n, 2 \<mapsto> r])"
  unfolding ref_re_shape eats_Seq_iff [of "Grp _ _"] eats_Seq_iff [of "Word _"] eats_Grp_iff
    eats_Plus_Cls eats_Word eats_EndZ_iff
  by fastforce

lemma last_segment_unique:
  "n @ CHR ''/'' # r = n' @ CHR ''/'' # r' \<Longrightarrow> list_all not_slash r \<Longrightarrow> list_all not_slash r' \<Longrightarrow>
   n = n' \<and> r = r'"
proof -
  assume e: "n @ CHR ''/'' # r = n' @ CHR ''/'' # r'" and r: "list_all not_slash r" "list_all not_slash r'"
  have "takeWhile not_slash (rev r @ CHR ''/'' # rev n) = rev r"
    "takeWhile not_slash (rev r' @ CHR ''/'' # rev n') = rev r'"
    by (rule takeWhile_stop; use r in \<open>auto simp: list_all_iff not_slash_def\<close>)+
  moreover have "rev r @ CHR ''/'' # rev n = rev r' @ CHR ''/'' # rev n'"
    using arg_cong [OF e, of rev] by simp
  ultimately have "rev r = rev r'" by metis
  then have "r = r'" by simp
  with e show ?thesis by simp
qed

text \<open>A fixed part ends with a slash and the segment before it is \<open>seg\<close>.\<close>

lemma ref_re_match:
  assumes "part = p @ ''/''" "n \<noteq> []" "list_all dot n" "r \<noteq> []" "list_all P r" "list_all not_slash r" "list_all dot r"
    and P: "\<And>c. P c \<Longrightarrow> not_slash c"
  shows "\<exists>g. re_groups (ref_re part P) (n @ part @ r) = Some g \<and> g 1 = Some n \<and> g 2 = Some r"
proof -
  have "eats (ref_re part P) (n @ part @ r) Map.empty [] [1 \<mapsto> n, 2 \<mapsto> r]"
    unfolding eats_ref_re using assms by (intro exI [of _ n] exI [of _ r]) simp
  then obtain g where g: "re_groups (ref_re part P) (n @ part @ r) = Some g"
    using re_groups_None [of "ref_re part P"] by (cases "re_groups (ref_re part P) (n @ part @ r)") auto
  from re_groups_Some [OF g] obtain t h x where h: "eats (ref_re part P) (n @ part @ r) Map.empty t h"
    "g = h(0 \<mapsto> x)" by blast
  from h(1) obtain n' r' where e: "n @ part @ r = n' @ part @ r' @ t" "list_all P r'"
    "t = [] \<or> t = [CHR 0x0A]" and hn: "h = [1 \<mapsto> n', 2 \<mapsto> r']"
    unfolding eats_ref_re by blast
  have gs: "g 1 = Some n'" "g 2 = Some r'" by (simp_all add: h(2) hn)
  have "t = []"
  proof (rule ccontr)
    assume "t \<noteq> []"
    with e have "last (n @ part @ r) = CHR 0x0A" by auto
    with assms(4,7) show False by (auto simp: list_all_iff dot_def)
  qed
  with e(1) assms(1) have "(n @ p) @ CHR ''/'' # r = (n' @ p) @ CHR ''/'' # r'" by simp
  moreover have "list_all not_slash r'" using e(2) P by (simp add: list_all_iff)
  ultimately have "n @ p = n' @ p \<and> r = r'" using assms(6) last_segment_unique by blast
  with gs g show ?thesis by simp
qed

lemma slashless_end:
  assumes "list_all P r" "t = [] \<or> t = [CHR 0x0A]" "\<And>c. P c \<Longrightarrow> not_slash c"
  shows "list_all not_slash (r @ t)"
proof -
  have "list_all not_slash r" using assms(1,3) by (simp add: list_all_iff)
  moreover have "list_all not_slash t" using assms(2) by (elim disjE) (simp_all add: not_slash_def)
  ultimately show ?thesis by simp
qed

lemma ref_re_mismatch:
  assumes part: "part = ''/'' @ seg @ ''/''" and part': "path = (n @ ''/'' @ seg') @ ''/'' @ r"
    and seg: "seg \<noteq> seg'" "list_all not_slash seg" "list_all not_slash seg'"
    and r: "list_all not_slash r" and P: "\<And>c. P c \<Longrightarrow> not_slash c"
  shows "re_groups (ref_re part P) path = None"
proof (rule ccontr)
  assume "re_groups (ref_re part P) path \<noteq> None"
  then obtain t n' r' where e: "path = n' @ part @ r' @ t" "list_all P r'" "t = [] \<or> t = [CHR 0x0A]"
    unfolding re_groups_None eats_ref_re by blast
  have rt: "list_all not_slash (r' @ t)" using e(2,3) P by (rule slashless_end)
  have "(n @ ''/'' @ seg') @ CHR ''/'' # r = (n' @ ''/'' @ seg) @ CHR ''/'' # (r' @ t)"
    using e(1) part part' by simp
  from last_segment_unique [OF this r rt] have "n @ CHR ''/'' # seg' = n' @ CHR ''/'' # seg" by simp
  from last_segment_unique [OF this seg(3,2)] seg(1) show False by simp
qed

lemma upload_mismatch:
  assumes path: "path = (n @ ''/'' @ seg) @ ''/'' @ r" and r: "list_all not_slash r" "r \<noteq> []" "list_all dot r"
    and seg: "seg \<noteq> ''blobs'' \<or> r \<noteq> ''uploads''" "list_all not_slash seg"
  shows "re_groups (Seqs [Grp 1 (Plus (Cls dot)), Word ''/blobs/uploads'', Opt (Lit (CHR ''/'')), EndZ]) path = None"
proof (rule ccontr)
  let ?R = "Seq (Grp 1 (Plus (Cls dot))) (Seq (Word ''/blobs/uploads'') (Seq (Opt (Lit (CHR ''/''))) EndZ))"
  assume "re_groups (Seqs [Grp 1 (Plus (Cls dot)), Word ''/blobs/uploads'', Opt (Lit (CHR ''/'')), EndZ]) path \<noteq> None"
  then have "\<exists>t g. eats ?R path Map.empty t g" unfolding re_groups_None Seqs.simps by blast
  then obtain t g s1 h1 s2 h2 s3 h3 where x: "eats (Grp 1 (Plus (Cls dot))) path Map.empty s1 h1"
    "eats (Word ''/blobs/uploads'') s1 h1 s2 h2" "eats (Opt (Lit (CHR ''/''))) s2 h2 s3 h3" "eats EndZ s3 h3 t g"
    unfolding eats_Seq_iff [of "Grp _ _"] eats_Seq_iff [of "Word _"] eats_Seq_iff [of "Opt _"] by blast
  obtain n' where "path = n' @ s1" using eats_suffix [OF x(1)] by blast
  moreover have "s1 = ''/blobs/uploads'' @ s2" using x(2) unfolding eats_Word by blast
  moreover obtain y where "s2 = y @ s3" "y = [] \<or> y = ''/''"
    using x(3) unfolding eats_Alt_iff eats_Cls_iff eats_Eps_iff by auto
  moreover have "s3 = [] \<or> s3 = [CHR 0x0A]" using x(4) unfolding eats_EndZ_iff by blast
  ultimately have e: "path = n' @ ''/blobs/uploads'' @ y @ s3" "y = [] \<or> y = ''/''" "s3 = [] \<or> s3 = [CHR 0x0A]"
    by simp_all
  have l: "last path = last r" using path r(2) by simp
  have "last path \<noteq> CHR 0x0A" "last path \<noteq> CHR ''/''"
    using l r last_in_set [OF r(2)] by (auto simp: list_all_iff dot_def not_slash_def)
  with e have "y = []" "s3 = []" by auto
  with e(1) path have "(n @ ''/'' @ seg) @ CHR ''/'' # r = (n' @ ''/blobs'') @ CHR ''/'' # ''uploads''" by simp
  from last_segment_unique [OF this r(1)] have "n @ ''/'' @ seg = n' @ ''/blobs''" "r = ''uploads''"
    by (simp_all add: not_slash_def)
  then have "n @ CHR ''/'' # seg = n' @ CHR ''/'' # ''blobs''" by simp
  from last_segment_unique [OF this seg(2)] have "seg = ''blobs''" by (simp add: not_slash_def)
  with seg(1) \<open>r = ''uploads''\<close> show False by simp
qed

lemma session_not_slash: "session_char c \<Longrightarrow> not_slash c"
  by (auto simp: session_char_def not_slash_def is_alpha_def is_digit_def)

lemma session_mismatch:
  assumes path: "path = (n @ ''/'' @ seg) @ ''/'' @ r" and r: "list_all not_slash r"
    and seg: "seg \<noteq> ''uploads''" "list_all not_slash seg"
  shows "re_groups (ref_re ''/blobs/uploads/'' session_char) path = None"
proof (rule ccontr)
  assume "re_groups (ref_re ''/blobs/uploads/'' session_char) path \<noteq> None"
  then obtain t n' r' where e: "path = n' @ ''/blobs/uploads/'' @ r' @ t" "list_all session_char r'"
    "t = [] \<or> t = [CHR 0x0A]"
    unfolding re_groups_None eats_ref_re by blast
  have rt: "list_all not_slash (r' @ t)"
    using e(2,3) session_not_slash by (rule slashless_end)
  have "(n @ ''/'' @ seg) @ CHR ''/'' # r = (n' @ ''/blobs/uploads'') @ CHR ''/'' # (r' @ t)"
    using e(1) path by simp
  from last_segment_unique [OF this r rt]
  have "n @ CHR ''/'' # seg = (n' @ ''/blobs'') @ CHR ''/'' # ''uploads''" by simp
  from last_segment_unique [OF this seg(2)] seg(1) show False by (simp add: not_slash_def)
qed

lemma parse_not_special:
  assumes path: "path = (n @ ''/'' @ seg) @ ''/'' @ r"
  shows "parse_v2_path path = first_pattern V2_PATTERNS path"
proof -
  have "CHR ''/'' \<in> set path" by (simp add: path)
  then have "path \<noteq> ''_catalog''" "path \<noteq> ''token''" by auto
  moreover have "length path \<ge> 2" by (simp add: path)
  then have "path \<noteq> []" "path \<noteq> ''/''" by auto
  ultimately show ?thesis by (simp add: parse_v2_path_def)
qed

definition v2 :: "endpoint \<Rightarrow> string \<Rightarrow> string \<Rightarrow> v2path option" where
  "v2 e n r = Some \<lparr>endpoint_of = e, v2_name = Some n, reference = Some r\<rparr>"

lemma parse_manifest_path:
  assumes n: "n \<noteq> []" "list_all dot n" and r: "r \<noteq> []" "list_all not_slash r" "list_all dot r"
  shows "parse_v2_path (n @ ''/manifests/'' @ r) = v2 Manifest n r"
proof -
  let ?p = "n @ ''/manifests/'' @ r"
  have p: "?p = (n @ ''/'' @ ''manifests'') @ ''/'' @ r" by simp
  have "re_groups (Seqs [Grp 1 (Plus (Cls dot)), Word ''/blobs/uploads'', Opt (Lit (CHR ''/'')), EndZ]) ?p = None"
    by (rule upload_mismatch [OF p]) (use r in \<open>simp_all add: not_slash_def\<close>)
  moreover have "re_groups (ref_re ''/blobs/uploads/'' session_char) ?p = None"
    by (rule session_mismatch [OF p]) (use r in \<open>simp_all add: not_slash_def\<close>)
  moreover have "re_groups (ref_re ''/blobs/'' not_slash) ?p = None"
    by (rule ref_re_mismatch [OF _ p, where seg = "''blobs''"]) (use r in \<open>simp_all add: not_slash_def\<close>)
  moreover obtain g where "re_groups (ref_re ''/manifests/'' not_slash) ?p = Some g" "g 1 = Some n" "g 2 = Some r"
    using ref_re_match [of "''/manifests/''" "''/manifests''" n r not_slash] n r by auto
  ultimately show ?thesis
    unfolding parse_not_special [OF p] V2_PATTERNS_def by (simp add: v2_def del: Seqs.simps Word.simps)
qed

lemma parse_blob_path:
  assumes n: "n \<noteq> []" "list_all dot n" and r: "r \<noteq> []" "list_all not_slash r" "list_all dot r" "r \<noteq> ''uploads''"
  shows "parse_v2_path (n @ ''/blobs/'' @ r) = v2 Blob n r"
proof -
  let ?p = "n @ ''/blobs/'' @ r"
  have p: "?p = (n @ ''/'' @ ''blobs'') @ ''/'' @ r" by simp
  have "re_groups (Seqs [Grp 1 (Plus (Cls dot)), Word ''/blobs/uploads'', Opt (Lit (CHR ''/'')), EndZ]) ?p = None"
    by (rule upload_mismatch [OF p]) (use r in \<open>simp_all add: not_slash_def\<close>)
  moreover have "re_groups (ref_re ''/blobs/uploads/'' session_char) ?p = None"
    by (rule session_mismatch [OF p]) (use r in \<open>simp_all add: not_slash_def\<close>)
  moreover obtain g where "re_groups (ref_re ''/blobs/'' not_slash) ?p = Some g" "g 1 = Some n" "g 2 = Some r"
    using ref_re_match [of "''/blobs/''" "''/blobs''" n r not_slash] n r by auto
  ultimately show ?thesis
    unfolding parse_not_special [OF p] V2_PATTERNS_def by (simp add: v2_def del: Seqs.simps Word.simps)
qed

subsection \<open>Routing\<close>

lemma library_expand_idem [simp]: "library_expand u (library_expand u r) = library_expand u r"
  by (simp add: library_expand_def)

lemma library_expand_ne: "r \<noteq> [] \<Longrightarrow> library_expand u r \<noteq> []"
  by (simp add: library_expand_def)

lemma upstream_target_again:
  "upstream_target u (the (remote (upstream_target u r))) = upstream_target u r"
  by (simp add: upstream_target_def)

text \<open>Enabled upstreams are keyed by their own names, which are single path segments other than
  the local namespace, and the default upstream is one of them.\<close>

definition well_keyed :: "string \<Rightarrow> (string \<rightharpoonup> docker_upstream) \<Rightarrow> docker_upstream option \<Rightarrow> bool" where
  "well_keyed local_ns ups d =
     ((\<forall>k u. ups k = Some u \<longrightarrow> up_name u = k \<and> CHR ''/'' \<notin> set k \<and> k \<noteq> local_ns) \<and>
      (\<forall>u. d = Some u \<longrightarrow> ups (up_name u) = Some u))"

lemma route_upstream_target:
  assumes "ups (up_name u) = Some u" "CHR ''/'' \<notin> set (up_name u)" "up_name u \<noteq> local_ns" "r \<noteq> []"
  shows "route local_ns ups d False dis (canonical (upstream_target u r)) = Inr (upstream_target u r)"
proof -
  let ?r = "library_expand u r"
  have "py_partition (CHR ''/'') (up_name u @ CHR ''/'' # ?r) = (up_name u, ''/'', ?r)"
    by (rule py_partition_append [OF assms(2)])
  then show ?thesis
    using assms library_expand_ne [OF assms(4), of u]
    by (simp add: route_def upstream_target_def)
qed

lemma route_result:
  assumes "route local_ns ups d False dis n = Inr t" "n \<noteq> []"
  shows "(local t \<and> canonical t = n) \<or>
    (\<exists>u r. r \<noteq> [] \<and> t = upstream_target u r \<and> ((\<exists>k. ups k = Some u) \<or> d = Some u))"
  using assms by (auto simp: route_def split: prod.splits if_splits option.splits)

lemma admitted_chars:
  assumes "re_matches UPSTREAM_NAME_RE s"
  shows "\<exists>p t. s = p @ t \<and> list_all (\<lambda>c. is_lower_alnum c \<or> c = CHR ''-'') p \<and> (t = [] \<or> t = [CHR 0x0A])"
proof -
  let ?A = "Seq (Cls is_lower_alnum)
     (Opt (Seq (UpTo 61 (Cls (\<lambda>c. is_lower_alnum c \<or> c = CHR ''-''))) (Cls is_lower_alnum)))"
  from assms obtain t g where "eats UPSTREAM_NAME_RE s Map.empty t g" by (auto simp: re_matches_iff)
  then obtain h u where e: "eats (Cls is_lower_alnum) s Map.empty u h" and
    "\<exists>v i. eats (Opt (Seq (UpTo 61 (Cls (\<lambda>c. is_lower_alnum c \<or> c = CHR ''-''))) (Cls is_lower_alnum))) u h v i
      \<and> eats EndZ v i t g"
    unfolding UPSTREAM_NAME_RE_def Seqs.simps eats_Seq_iff [of "Cls _"] eats_Seq_iff [of "Opt _"] by blast
  then obtain v i where f: "eats ?A s Map.empty v i" and z: "eats EndZ v i t g"
    unfolding eats_Seq_iff [of "Cls _"] by blast
  have up: "only_chars (\<lambda>c. is_lower_alnum c \<or> c = CHR ''-'') (UpTo n (Cls (\<lambda>c. is_lower_alnum c \<or> c = CHR ''-'')))"
    for n by (induction n) simp_all
  have "only_chars (\<lambda>c. is_lower_alnum c \<or> c = CHR ''-'') ?A" by (simp add: up)
  from eats_chars [OF f this] z show ?thesis unfolding eats_EndZ_iff by blast
qed

subsection \<open>The properties\<close>

text \<open>
  The reference grammars, exactly. A tag is 1 to 128 word characters, dots and hyphens, not
  starting with a dot or hyphen; a digest is \<open>sha256:\<close> and 64 lower-case hexadecimal digits;
  nothing, a final line feed included, may follow; and no string is both.
\<close>

theorem reference_grammars:
  "is_tag s = (s \<noteq> [] \<and> is_tag_start (hd s) \<and> list_all is_tag_char (tl s) \<and> length s \<le> 128) \<and>
   is_digest s = (take 7 s = ''sha256:'' \<and> length s = 71 \<and> list_all is_hex (drop 7 s)) \<and>
   \<not> (is_tag s \<and> is_digest s)"
proof (intro conjI)
  show t: "is_tag s = (s \<noteq> [] \<and> is_tag_start (hd s) \<and> list_all is_tag_char (tl s) \<and> length s \<le> 128)"
    unfolding is_tag_iff by (cases s) auto
  show d: "is_digest s = (take 7 s = ''sha256:'' \<and> length s = 71 \<and> list_all is_hex (drop 7 s))"
    unfolding is_digest_iff
  proof
    assume "take 7 s = ''sha256:'' \<and> length s = 71 \<and> list_all is_hex (drop 7 s)"
    then show "\<exists>d. s = ''sha256:'' @ d \<and> length d = 64 \<and> list_all is_hex d"
      using append_take_drop_id [of 7 s] by (intro exI [of _ "drop 7 s"]) auto
  qed auto
  have "\<not> is_tag_char (CHR '':'')" by (simp add: is_tag_char_def is_tag_start_def is_alpha_def is_digit_def)
  then show "\<not> (is_tag s \<and> is_digest s)" by (auto simp: is_tag_iff is_digest_iff)
qed

text \<open>
  A \<open>/v2\<close> path built from a valid image name and a tag or digest is split back into the
  manifest endpoint with that name and reference, and one built with a digest under \<open>blobs\<close> into
  the blob endpoint, however many slashes, or components called \<open>manifests\<close> and \<open>blobs\<close>, the name
  has.
\<close>

theorem v2_path_roundtrip:
  assumes "valid_name n" "is_tag r \<or> is_digest r" "is_digest d"
  shows "parse_v2_path (n @ ''/manifests/'' @ r) = v2 Manifest n r \<and>
    parse_v2_path (n @ ''/blobs/'' @ d) = v2 Blob n d"
proof -
  have "d \<noteq> ''uploads''" using assms(3) by (auto simp: is_digest_iff)
  then show ?thesis
    using valid_name_dot [OF assms(1)] reference_chars [OF assms(2)] reference_chars [of d] assms(3)
    by (intro conjI parse_manifest_path parse_blob_path) blast+
qed

theorem v2_path_roundtrip_witness:
  "parse_v2_path (''a/manifests'' @ ''/manifests/'' @ ''v1'') = v2 Manifest ''a/manifests'' ''v1''"
proof -
  have "valid_name ''a/manifests''" "is_tag ''v1''" by code_simp+
  moreover have "is_digest (''sha256:'' @ replicate 64 (CHR ''0''))"
    unfolding is_digest_iff by (intro exI [of _ "replicate 64 (CHR ''0'')"]) (simp add: is_hex_def list_all_iff)
  ultimately show ?thesis using v2_path_roundtrip by blast
qed

text \<open>
  One canonical name per image. Routing the canonical name of a resolved image gives the same
  target again, library expansion included, so \<open>alpine\<close>, \<open>library/alpine\<close> and
  \<open>dockerhub/library/alpine\<close> end in one repository.
\<close>

theorem route_canonical_stable:
  assumes "well_keyed local_ns ups d" "n \<noteq> []" "route local_ns ups d False dis n = Inr t"
  shows "route local_ns ups d False dis (canonical t) = Inr t"
proof -
  from route_result [OF assms(3,2)] show ?thesis
  proof
    assume "local t \<and> canonical t = n"
    with assms(3) show ?thesis by simp
  next
    assume "\<exists>u r. r \<noteq> [] \<and> t = upstream_target u r \<and> ((\<exists>k. ups k = Some u) \<or> d = Some u)"
    then obtain u r where t: "r \<noteq> []" "t = upstream_target u r" "(\<exists>k. ups k = Some u) \<or> d = Some u" by blast
    then have "ups (up_name u) = Some u \<and> CHR ''/'' \<notin> set (up_name u) \<and> up_name u \<noteq> local_ns"
      using assms(1) unfolding well_keyed_def by metis
    with t show ?thesis using route_upstream_target by blast
  qed
qed

definition sample_hub :: docker_upstream where
  "sample_hub = \<lparr>up_name = ''dockerhub'', up_url = ''https://registry-1.docker.io'', up_library = None\<rparr>"

theorem route_canonical_stable_witness:
  "route ''local'' [''dockerhub'' \<mapsto> sample_hub] (Some sample_hub) False [] ''dockerhub/library/alpine'' =
   route ''local'' [''dockerhub'' \<mapsto> sample_hub] (Some sample_hub) False [] ''alpine''"
proof -
  have "well_keyed ''local'' [''dockerhub'' \<mapsto> sample_hub] (Some sample_hub)"
    by (simp add: well_keyed_def sample_hub_def)
  moreover have "upstream_target sample_hub ''alpine'' = \<lparr>canonical = ''dockerhub/library/alpine'',
      upstream = Some sample_hub, remote = Some ''library/alpine'', local = False\<rparr>"
    "route ''local'' [''dockerhub'' \<mapsto> sample_hub] (Some sample_hub) False [] ''alpine'' =
      Inr (upstream_target sample_hub ''alpine'')"
    by code_simp+
  ultimately show ?thesis
    using route_canonical_stable [of "''local''" "[''dockerhub'' \<mapsto> sample_hub]" "Some sample_hub" "''alpine''" "[]"]
    by simp
qed

text \<open>
  Routing isolates. A name is served from the local namespace exactly when its first segment is
  that namespace (and the request did not come to the Hub mirror), whatever upstreams exist; and a
  prefix of a disabled upstream is refused rather than looked up on Docker Hub.
\<close>

theorem route_isolation:
  "(case route local_ns ups d mirror dis n of
      Inl e \<Rightarrow> True
    | Inr t \<Rightarrow> local t = (\<not> mirror \<and> fst (py_partition (CHR ''/'') n) = local_ns)) \<and>
   (route local_ns ups d mirror dis n = Inl (UpstreamDisabled s)) =
     (\<not> mirror \<and> s \<noteq> local_ns \<and> fst (py_partition (CHR ''/'') n) = s \<and> s \<in> set dis \<and> ups s = None \<and>
      snd (snd (py_partition (CHR ''/'') n)) \<noteq> [])"
  by (auto simp: route_def upstream_target_def split: prod.splits if_splits option.splits sum.splits)

text \<open>
  An accepted upstream name is one path segment and captures nothing that is not its own: it is
  a preset pointed at that preset's registry, or no reserved name (the local namespace, \<open>library\<close>,
  the API segments, a preset's name).
\<close>

theorem admitted_upstream_name:
  assumes "upstream_name_problem local_ns name url = None"
  shows "CHR ''/'' \<notin> set name \<and>
    (case preset_of name of
       Some p \<Rightarrow> same_registry (p_url p) url
     | None \<Rightarrow> name \<notin> set (reserved_names local_ns))"
proof -
  have "re_matches UPSTREAM_NAME_RE name"
    using assms by (auto simp: upstream_name_problem_def split: if_splits)
  from admitted_chars [OF this] obtain p t where
    "name = p @ t" "list_all (\<lambda>c. is_lower_alnum c \<or> c = CHR ''-'') p" "t = [] \<or> t = [CHR 0x0A]" by blast
  moreover have "\<not> (is_lower_alnum (CHR ''/'') \<or> CHR ''/'' = CHR ''-'')" by (simp add: is_lower_alnum_def)
  ultimately have "CHR ''/'' \<notin> set name" by (auto simp: list_all_iff)
  with assms show ?thesis
    by (auto simp: upstream_name_problem_def split: if_splits option.splits)
qed

theorem admitted_upstream_name_witness:
  "''harbor'' \<notin> set (reserved_names ''local'')"
proof -
  have "upstream_name_problem ''local'' ''harbor'' ''https://harbor.corp'' = None" "preset_of ''harbor'' = None"
    by code_simp+
  then show ?thesis
    using admitted_upstream_name [of "''local''" "''harbor''" "''https://harbor.corp''"] by simp
qed

text \<open>The upstream name check is a \<open>match\<close>, so a final line feed passes it.\<close>

lemma upstream_name_line_feed:
  "upstream_name_problem ''local'' (''corp'' @ [CHR 0x0A]) ''https://corp'' = None"
  by code_simp

end
