(* ===== verification/Revalidation.thy ===== *)
theory Revalidation
  imports Py_Prelude
begin

section \<open>Conditional revalidation (\<open>upstreams/revalidation.py\<close>)\<close>

text \<open>
  The validators of a cached document, bound to the upstream that issued them, their encoding in
  a 255-character column, and when a 304 answer may be believed. Response headers are the
  function the code looks them up with.
\<close>

record validators =
  v_upstream :: int
  etag :: "string option"
  last_modified :: "string option"

definition nonempty :: "string option \<Rightarrow> bool" where
  "nonempty o' = (o' \<noteq> None \<and> o' \<noteq> Some [])"

definition or_none :: "string \<Rightarrow> string option" where
  \<comment> \<open>\<open>s or None\<close>\<close>
  "or_none s = (if s = [] then None else Some s)"

definition or_empty :: "string option \<Rightarrow> string" where
  "or_empty v = (case v of None \<Rightarrow> [] | Some s \<Rightarrow> s)"

definition usable :: "validators \<Rightarrow> bool" where
  "usable v = (nonempty (etag v) \<or> nonempty (last_modified v))"

definition conditional_headers :: "validators \<Rightarrow> (string \<times> string) list" where
  "conditional_headers v =
     (if nonempty (etag v) then [(''if-none-match'', the (etag v))] else []) @
     (if nonempty (last_modified v) then [(''if-modified-since'', the (last_modified v))] else [])"

definition from_response :: "int \<Rightarrow> (string \<Rightarrow> string option) \<Rightarrow> validators option" where
  "from_response uid headers = (let
     e = or_none (py_strip (or_empty (headers ''etag'')));
     lm = or_none (py_strip (or_empty (headers ''last-modified'')));
     found = \<lparr>v_upstream = uid, etag = e, last_modified = lm\<rparr>
     in if usable found then Some found else None)"

definition MAX_ENCODED :: nat where
  "MAX_ENCODED = 255"

definition encoded_text :: "int \<Rightarrow> string \<Rightarrow> string \<Rightarrow> string" where
  "encoded_text uid lm e = show_int uid @ ''|'' @ lm @ ''|'' @ e"

fun encode_first :: "int \<Rightarrow> (string \<times> string) list \<Rightarrow> string option" where
  "encode_first uid [] = None"
| "encode_first uid ((e, lm) # ps) =
     (if e = [] \<and> lm = [] then encode_first uid ps
      else if length (encoded_text uid lm e) \<le> MAX_ENCODED then Some (encoded_text uid lm e)
      else encode_first uid ps)"

definition encode :: "validators \<Rightarrow> string option" where
  "encode v = (let
     lm0 = or_empty (last_modified v);
     lm = (if CHR ''|'' \<in> set lm0 then [] else lm0);
     e = or_empty (etag v)
     in encode_first (v_upstream v) [(e, lm), ([], lm), (e, [])])"

text \<open>\<open>str.isdigit\<close> holds of the superscripts of Latin-1 too, which \<open>int\<close> refuses.\<close>

datatype decode_error = ValueError

definition is_unicode_digit :: "char \<Rightarrow> bool" where
  "is_unicode_digit c = (is_digit c \<or> (of_char c :: nat) \<in> {178, 179, 185})"

definition decode :: "string option \<Rightarrow> decode_error + validators option" where
  "decode stored = (case stored of None \<Rightarrow> Inr None
     | Some s \<Rightarrow>
       (case py_partition (CHR ''|'') s of (p0, sep0, rest) \<Rightarrow>
        (case py_partition (CHR ''|'') rest of (p1, sep1, p2) \<Rightarrow>
          if s = [] \<or> sep0 = [] \<or> sep1 = [] \<or> p0 = [] \<or> \<not> list_all is_unicode_digit p0 then Inr None
          else if \<not> list_all is_digit p0 then Inl ValueError
          else (let found = \<lparr>v_upstream = int (nat_of_digits p0), etag = or_none p2, last_modified = or_none p1\<rparr>
            in Inr (if usable found then Some found else None)))))"

definition bound_prefix :: "int \<Rightarrow> string" where
  "bound_prefix uid = show_int uid @ ''|''"

definition not_modified :: "nat \<Rightarrow> validators option \<Rightarrow> bool" where
  \<comment> \<open>\<open>check_not_modified\<close> raises \<open>UpstreamNotModified\<close>\<close>
  "not_modified status v = (status = 304 \<and> v \<noteq> None \<and> usable (the v))"

subsection \<open>Decoding what was encoded\<close>

lemma decode_text:
  assumes "0 \<le> uid" "CHR ''|'' \<notin> set lm"
  shows "decode (Some (encoded_text uid lm e)) = Inr (let
    found = \<lparr>v_upstream = uid, etag = or_none e, last_modified = or_none lm\<rparr>
    in if usable found then Some found else None)"
proof -
  let ?d = "show_nat (nat uid)"
  have d: "list_all is_digit ?d" using show_nat_digits by (auto simp: list_all_iff)
  have u: "list_all is_unicode_digit ?d" using d by (auto simp: list_all_iff is_unicode_digit_def)
  have "\<not> is_digit (CHR ''|'')" by (simp add: is_digit_def)
  with d have bar: "CHR ''|'' \<notin> set ?d" by (auto simp: list_all_iff)
  have "py_partition (CHR ''|'') (?d @ CHR ''|'' # lm @ CHR ''|'' # e) = (?d, ''|'', lm @ CHR ''|'' # e)"
    "py_partition (CHR ''|'') (lm @ CHR ''|'' # e) = (lm, ''|'', e)"
    using bar assms(2) by (simp_all add: py_partition_append)
  then show ?thesis
    using assms(1) d u by (simp add: decode_def encoded_text_def show_int_def Let_def)
qed

lemma encode_first_cases:
  "encode_first uid ps = Some s \<Longrightarrow>
   \<exists>e lm. (e, lm) \<in> set ps \<and> s = encoded_text uid lm e \<and> length s \<le> MAX_ENCODED \<and> (e \<noteq> [] \<or> lm \<noteq> [])"
  by (induction uid ps rule: encode_first.induct) (auto split: if_splits)

lemma or_none_or_empty: "or_none (or_empty v) = (if v = Some [] then None else v)"
  by (auto simp: or_none_def or_empty_def split: option.splits)

text \<open>A decoded field is the encoded one or was dropped; an empty one counts as absent.\<close>

definition kept_or_dropped :: "string option \<Rightarrow> string option \<Rightarrow> bool" where
  "kept_or_dropped new old = (new = None \<or> new = old)"

text \<open>
  Stored validators are decoded as what was encoded. Whatever \<open>encode\<close> returns fits the column
  and decodes to usable validators of the same upstream, each field either the original or dropped
  to make the text fit, never truncated or altered, separators inside the ETag included.
\<close>

theorem validators_roundtrip:
  assumes "0 \<le> v_upstream v" "encode v = Some s"
  shows "length s \<le> MAX_ENCODED \<and>
    (\<exists>w. decode (Some s) = Inr (Some w) \<and> v_upstream w = v_upstream v \<and> usable w \<and>
      kept_or_dropped (etag w) (etag v) \<and> kept_or_dropped (last_modified w) (last_modified v))"
proof -
  let ?lm0 = "or_empty (last_modified v)" and ?e0 = "or_empty (etag v)"
  let ?lm = "if CHR ''|'' \<in> set ?lm0 then [] else ?lm0"
  have "encode_first (v_upstream v) [(?e0, ?lm), ([], ?lm), (?e0, [])] = Some s"
    using assms(2) by (simp add: encode_def Let_def)
  from encode_first_cases [OF this] obtain e lm where
    s: "s = encoded_text (v_upstream v) lm e" "length s \<le> MAX_ENCODED" "e \<noteq> [] \<or> lm \<noteq> []"
    and e: "e = ?e0 \<or> e = []" and lm: "lm = ?lm \<or> lm = []" by auto
  have bar: "CHR ''|'' \<notin> set lm" using lm by (auto split: if_splits)
  let ?w = "\<lparr>v_upstream = v_upstream v, etag = or_none e, last_modified = or_none lm\<rparr>"
  have us: "usable ?w" using s(3) by (auto simp: usable_def nonempty_def or_none_def)
  have ke: "kept_or_dropped (or_none e) (etag v)"
    using e or_none_or_empty [of "etag v"] by (auto simp: kept_or_dropped_def or_none_def split: if_splits)
  have kl: "kept_or_dropped (or_none lm) (last_modified v)"
    using lm or_none_or_empty [of "last_modified v"]
    by (auto simp: kept_or_dropped_def or_none_def split: if_splits)
  have "decode (Some s) = Inr (Some ?w)"
    using decode_text [OF assms(1) bar, of e] us by (simp add: s(1) Let_def)
  with s(2) us ke kl show ?thesis by (intro conjI exI [of _ ?w]) simp_all
qed

theorem validators_roundtrip_witness:
  "\<exists>w. decode (Some ''7|Tue|W/a|b'') = Inr (Some w) \<and> v_upstream w = 7"
proof -
  let ?v = "\<lparr>v_upstream = 7, etag = Some ''W/a|b'', last_modified = Some ''Tue''\<rparr>"
  have "0 \<le> v_upstream ?v" "encode ?v = Some ''7|Tue|W/a|b''" by code_simp+
  from validators_roundtrip [OF this] show ?thesis by auto
qed

text \<open>The column may hold superscripts only if something else wrote it; then \<open>decode\<close> raises.\<close>

lemma decode_superscript: "decode (Some (char_of (178 :: nat) # ''||x'')) = Inl ValueError"
  by code_simp

end
