(* ===== verification/Resolver.thy ===== *)
theory Resolver
  imports Naming Py_Glob Py_Json Revalidation
begin

section \<open>Tiered upstream resolution (\<open>services/resolver.py\<close>, types of \<open>upstreams/base.py\<close>)\<close>

text \<open>
  Which upstreams may answer for a name, the walk over the tiers, the query of one tier, merging,
  health bookkeeping and search. The network is the function \<open>fetch\<close> from an upstream id and the
  validators sent to the answer: a package with its validators, a 304, an authoritative 404, or a
  failure with its text. Requests of a raced tier finish in the order \<open>completion\<close> puts them in; a
  race is over at the first answer, so later ones are cancelled. The time of the call is \<open>now\<close>, in
  seconds.
\<close>

subsection \<open>Neutral wire types\<close>

datatype yank = YFlag bool | YReason string

definition is_yanked :: "yank \<Rightarrow> bool" where
  \<comment> \<open>\<open>bool(f.yanked)\<close>\<close>
  "is_yanked y = (case y of YFlag b \<Rightarrow> b | YReason s \<Rightarrow> s \<noteq> [])"

record remote_file =
  filename :: string
  file_url :: string
  file_requires_python :: "string option"
  file_yanked :: yank
  file_upstream :: "int option"

record remote_version =
  version_name :: string
  metadata :: "(string \<times> json) list"
  files :: "remote_file list"
  deprecated :: "string option"
  yanked :: yank
  requires_python :: "string option"
  published_at :: "int option"

record remote_package =
  package_name :: string
  versions :: "remote_version list"
  dist_tags :: "(string \<times> string) list"
  description :: "string option"
  time :: "(string \<times> string) list"
  package_etag :: "string option"
  package_upstream :: "int option"
  package_upstream_name :: "string option"

record upstream_row =
  u_id :: int
  u_name :: string
  u_tier :: int
  u_priority :: int
  u_enabled :: bool
  name_patterns :: "string list"
  healthy :: bool
  consecutive_failures :: int
  last_check_at :: "int option"
  last_error :: "string option"

subsection \<open>Candidates\<close>

definition load_upstreams :: "upstream_row list \<Rightarrow> bool \<Rightarrow> upstream_row list" where
  \<comment> \<open>over the rows of one ecosystem\<close>
  "load_upstreams rows enabled_only =
     sort_key (\<lambda>u. (u_tier u, u_priority u, u_id u)) (if enabled_only then filter u_enabled rows else rows)"

definition claims :: "string \<Rightarrow> upstream_row \<Rightarrow> bool" where
  "claims normalized u =
     list_ex (\<lambda>p. py_strip p \<noteq> [] \<and> fnmatchcase normalized (py_lower (py_strip p))) (name_patterns u)"

definition claimants_for :: "upstream_row list \<Rightarrow> string \<Rightarrow> string \<Rightarrow> upstream_row list" where
  "claimants_for upstreams name ecosystem = (let
     normalized = py_lower (normalize_name_for ecosystem name);
     claimed = filter (claims normalized) upstreams
     in if claimed \<noteq> [] then claimed else filter (\<lambda>u. name_patterns u = []) upstreams)"

text \<open>A dict from upstream ids to tiers, in insertion order.\<close>

definition live_sources :: "upstream_row list \<Rightarrow> string \<Rightarrow> string \<Rightarrow> int \<rightharpoonup> int" where
  "live_sources rows name ecosystem = (let
     live = map_of (rev (map (\<lambda>u. (u_id u, u_tier u))
       (claimants_for (load_upstreams rows True) name ecosystem)));
     everyone = claimants_for (load_upstreams rows False) name ecosystem
     in foldl (\<lambda>m u. if \<not> u_enabled u \<and> m (u_id u) = None then m(u_id u \<mapsto> u_tier u) else m) live everyone)"

definition group_by_tier :: "upstream_row list \<Rightarrow> (int \<times> upstream_row list) list" where
  "group_by_tier upstreams =
     map (\<lambda>t. (t, filter (\<lambda>u. u_tier u = t) upstreams)) (sort (remdups (map u_tier upstreams)))"

definition FAILURE_THRESHOLD :: int where
  "FAILURE_THRESHOLD = 5"

definition PROBE_INTERVAL_SECONDS :: int where
  "PROBE_INTERVAL_SECONDS = 120"

definition is_quarantined :: "int \<Rightarrow> upstream_row \<Rightarrow> bool" where
  "is_quarantined now u =
     (if healthy u \<or> consecutive_failures u < FAILURE_THRESHOLD then False
      else (case last_check_at u of None \<Rightarrow> False | Some t \<Rightarrow> now - t < PROBE_INTERVAL_SECONDS))"

subsection \<open>Health bookkeeping\<close>

definition mark_failure :: "int \<Rightarrow> string \<Rightarrow> upstream_row \<Rightarrow> upstream_row" where
  "mark_failure now err u = (let n = consecutive_failures u + 1 in
     u\<lparr>consecutive_failures := n, last_error := Some (take 2000 err), last_check_at := Some now,
       healthy := (if FAILURE_THRESHOLD \<le> n then False else healthy u)\<rparr>)"

definition mark_healthy :: "int \<Rightarrow> upstream_row \<Rightarrow> upstream_row" where
  "mark_healthy now u =
     (if consecutive_failures u \<noteq> 0 \<or> \<not> healthy u
      then u\<lparr>consecutive_failures := 0, healthy := True, last_error := None, last_check_at := Some now\<rparr>
      else u\<lparr>last_check_at := Some now\<rparr>)"

subsection \<open>Asking one upstream\<close>

datatype answer =
    Found remote_package "validators option"
  | Not_modified
  | Not_found
  | Failed string

datatype reply = Package remote_package | NotModified

record resolver_state =
  rows :: "upstream_row list"
  tier_errors :: "(upstream_row \<times> string) list"
  response_validators :: "int \<rightharpoonup> validators option"

type_synonym world = "int \<Rightarrow> validators option \<Rightarrow> answer"

definition update_row :: "int \<Rightarrow> (upstream_row \<Rightarrow> upstream_row) \<Rightarrow> upstream_row list \<Rightarrow> upstream_row list" where
  "update_row i f rs = map (\<lambda>u. if u_id u = i then f u else u) rs"

definition query_one ::
  "world \<Rightarrow> int \<Rightarrow> upstream_row \<Rightarrow> validators option \<Rightarrow> resolver_state \<Rightarrow> reply option \<times> resolver_state" where
  "query_one fetch now u v st = (case fetch (u_id u) v of
     Not_modified \<Rightarrow> (Some NotModified, st\<lparr>rows := update_row (u_id u) (mark_healthy now) (rows st)\<rparr>)
   | Not_found \<Rightarrow> (None, st\<lparr>rows := update_row (u_id u) (mark_healthy now) (rows st)\<rparr>)
   | Failed e \<Rightarrow> (None, st\<lparr>rows := update_row (u_id u) (mark_failure now e) (rows st),
       tier_errors := tier_errors st @ [(u, e)]\<rparr>)
   | Found p w \<Rightarrow> (Some (Package p), st\<lparr>rows := update_row (u_id u) (mark_healthy now) (rows st),
       response_validators := (response_validators st)(u_id u \<mapsto> w)\<rparr>))"

subsection \<open>Asking one tier\<close>

record resolver_cfg =
  tier_parallel :: bool
  completion :: "upstream_row list \<Rightarrow> upstream_row list"

definition validators_for :: "validators option \<Rightarrow> upstream_row \<Rightarrow> validators option" where
  "validators_for v u = (case v of None \<Rightarrow> None
     | Some w \<Rightarrow> if v_upstream w = u_id u then Some w else None)"

fun run_queries ::
  "(upstream_row \<Rightarrow> resolver_state \<Rightarrow> reply option \<times> resolver_state) \<Rightarrow> bool \<Rightarrow> upstream_row list \<Rightarrow>
   resolver_state \<Rightarrow> (reply \<times> upstream_row) list \<times> resolver_state" where
  "run_queries q collect_all [] st = ([], st)"
| "run_queries q collect_all (u # us) st = (case q u st of
     (None, st1) \<Rightarrow> run_queries q collect_all us st1
   | (Some r, st1) \<Rightarrow>
       if collect_all then
         (case run_queries q collect_all us st1 of (rs, st2) \<Rightarrow> ((r, u) # rs, st2))
       else ([(r, u)], st1))"

fun index_of :: "int \<Rightarrow> upstream_row list \<Rightarrow> nat" where
  "index_of i [] = 0"
| "index_of i (u # us) = (if u_id u = i then 0 else Suc (index_of i us))"

definition query_tier ::
  "resolver_cfg \<Rightarrow> world \<Rightarrow> int \<Rightarrow> upstream_row list \<Rightarrow> bool \<Rightarrow> validators option \<Rightarrow> resolver_state \<Rightarrow>
   (reply \<times> upstream_row) list \<times> resolver_state" where
  "query_tier cfg fetch now candidates collect_all v st = (let
     q = (\<lambda>u. query_one fetch now u (validators_for v u))
     in if \<not> tier_parallel cfg then run_queries q collect_all candidates st
        else (case run_queries q collect_all (completion cfg candidates) st of (found, st1) \<Rightarrow>
          (sort_key (\<lambda>(r, u). index_of (u_id u) candidates) found, st1)))"

subsection \<open>Merging\<close>

definition setdefault :: "'k \<Rightarrow> 'v \<Rightarrow> ('k \<times> 'v) list \<Rightarrow> ('k \<times> 'v) list" where
  "setdefault k v d = (if map_of d k = None then d @ [(k, v)] else d)"

definition setdefaults :: "('k \<times> 'v) list \<Rightarrow> ('k \<times> 'v) list \<Rightarrow> ('k \<times> 'v) list" where
  "setdefaults new d = foldl (\<lambda>acc (k, v). setdefault k v acc) d new"

text \<open>The files of one contributor's version that no earlier contributor claimed.\<close>

fun take_files ::
  "int \<Rightarrow> remote_file list \<Rightarrow> remote_version \<times> string list \<Rightarrow> remote_version \<times> string list" where
  "take_files uid [] (target, claimed) = (target, claimed)"
| "take_files uid (f # fs) (target, claimed) =
     (if filename f \<in> set claimed then take_files uid fs (target, claimed)
      else take_files uid fs
        (target\<lparr>files := files target @ [f\<lparr>file_upstream := Some uid\<rparr>],
           requires_python := (if nonempty (file_requires_python f) \<and> \<not> nonempty (requires_python target)
             then file_requires_python f else requires_python target)\<rparr>,
         claimed @ [filename f]))"

definition empty_target :: "remote_version \<Rightarrow> remote_version" where
  "empty_target v = v\<lparr>files := []\<rparr>"

fun put_version :: "remote_version \<Rightarrow> remote_version list \<Rightarrow> remote_version list" where
  \<comment> \<open>\<open>by_version[v.version] = v\<close>, an insertion-ordered dict\<close>
  "put_version v [] = [v]"
| "put_version v (w # ws) = (if version_name w = version_name v then v # ws else w # put_version v ws)"

definition merge_version ::
  "int \<Rightarrow> remote_version list \<times> string list \<Rightarrow> remote_version \<Rightarrow> remote_version list \<times> string list" where
  "merge_version uid acc v = (case acc of (by_version, claimed) \<Rightarrow> (let
     target = (case find (\<lambda>w. version_name w = version_name v) by_version of
        None \<Rightarrow> empty_target v
      | Some t \<Rightarrow> if metadata t = [] \<and> metadata v \<noteq> [] then t\<lparr>metadata := metadata v\<rparr> else t)
     in case take_files uid (files v) (target, claimed) of (t, cl) \<Rightarrow> (put_version t by_version, cl)))"

fun first_reason :: "remote_file list \<Rightarrow> yank" where
  "first_reason [] = YFlag True"
| "first_reason (f # fs) = (case file_yanked f of
     YReason s \<Rightarrow> if s \<noteq> [] then YReason s else first_reason fs
   | YFlag _ \<Rightarrow> first_reason fs)"

definition derive_yanked :: "remote_version \<Rightarrow> remote_version" where
  "derive_yanked v = (if files v = [] then v
     else v\<lparr>yanked := (if list_all (\<lambda>f. is_yanked (file_yanked f)) (files v)
       then first_reason (files v) else YFlag False)\<rparr>)"

definition merge_meta :: "remote_package \<Rightarrow> remote_package \<Rightarrow> remote_package" where
  "merge_meta m p = m\<lparr>
     description := (if \<not> nonempty (description m) \<and> nonempty (description p) then description p else description m),
     dist_tags := setdefaults (dist_tags p) (dist_tags m),
     time := setdefaults (time p) (time m)\<rparr>"

definition merge_packages :: "(remote_package \<times> upstream_row) list \<Rightarrow> remote_package" where
  "merge_packages results = (let
     base = fst (hd results); bu = snd (hd results);
     m0 = base\<lparr>package_etag := None, package_upstream := Some (u_id bu), package_upstream_name := Some (u_name bu)\<rparr>;
     m = foldl (\<lambda>m (p, u). merge_meta m p) m0 results;
     by_version = fst (foldl (\<lambda>acc (p, u). foldl (merge_version (u_id u)) acc (versions p)) ([], []) results)
     in m\<lparr>versions := map derive_yanked by_version\<rparr>)"

definition tag_files :: "upstream_row \<Rightarrow> remote_package \<Rightarrow> remote_package" where
  "tag_files u p = p\<lparr>versions := map (\<lambda>v. v\<lparr>files := map (\<lambda>f.
     if file_upstream f = None then f\<lparr>file_upstream := Some (u_id u)\<rparr> else f) (files v)\<rparr>) (versions p)\<rparr>"

subsection \<open>The walk over the tiers\<close>

datatype tier_error = AllQuarantined int | TierFailed int "(upstream_row \<times> string) list"

record resolve_result =
  result_package :: "remote_package option"
  result_upstream :: upstream_row
  result_tier :: int
  result_not_modified :: bool
  result_validators :: "validators option"

definition only_packages :: "(reply \<times> upstream_row) list \<Rightarrow> (remote_package \<times> upstream_row) list" where
  "only_packages rs = List.map_filter (\<lambda>(r, u). case r of Package p \<Rightarrow> Some (p, u) | NotModified \<Rightarrow> None) rs"

definition tier_result ::
  "bool \<Rightarrow> int \<Rightarrow> (reply \<times> upstream_row) list \<Rightarrow> resolver_state \<Rightarrow> resolve_result" where
  "tier_result merge_tier tier results st =
     (if length results = 1 \<or> \<not> merge_tier then
        (case hd results of
           (NotModified, u) \<Rightarrow> \<lparr>result_package = None, result_upstream = u, result_tier = tier,
             result_not_modified = True, result_validators = None\<rparr>
         | (Package p, u) \<Rightarrow> \<lparr>result_package = Some (tag_files u p), result_upstream = u, result_tier = tier,
             result_not_modified = False,
             result_validators = (case response_validators st (u_id u) of Some w \<Rightarrow> w | None \<Rightarrow> None)\<rparr>)
      else \<lparr>result_package = Some (merge_packages (only_packages results)), result_upstream = snd (hd results),
             result_tier = tier, result_not_modified = False, result_validators = None\<rparr>)"

fun walk_tiers ::
  "resolver_cfg \<Rightarrow> world \<Rightarrow> int \<Rightarrow> bool \<Rightarrow> validators option \<Rightarrow> (int \<times> upstream_row list) list \<Rightarrow>
   resolver_state \<Rightarrow> (tier_error + resolve_result option) \<times> resolver_state" where
  "walk_tiers cfg fetch now merge_tier v [] st = (Inr None, st)"
| "walk_tiers cfg fetch now merge_tier v ((tier, grp) # ts) st =
     (let candidates = filter (\<lambda>u. \<not> is_quarantined now u) grp in
      if candidates = [] then
        (if grp \<noteq> [] then (Inl (AllQuarantined tier), st)
         else walk_tiers cfg fetch now merge_tier v ts st)
      else (case query_tier cfg fetch now candidates merge_tier
              (if merge_tier \<and> 1 < length candidates then None else v) (st\<lparr>tier_errors := []\<rparr>) of
        (results, st1) \<Rightarrow>
          if results = [] then
            (if tier_errors st1 \<noteq> [] then (Inl (TierFailed tier (tier_errors st1)), st1)
             else walk_tiers cfg fetch now merge_tier v ts st1)
          else (Inr (Some (tier_result merge_tier tier results st1)), st1)))"

definition resolve ::
  "resolver_cfg \<Rightarrow> world \<Rightarrow> int \<Rightarrow> string \<Rightarrow> string \<Rightarrow> bool option \<Rightarrow> validators option \<Rightarrow> resolver_state \<Rightarrow>
   (tier_error + resolve_result option) \<times> resolver_state" where
  "resolve cfg fetch now ecosystem name merge_tier v st = (let
     upstreams = load_upstreams (rows st) True;
     claimants = claimants_for upstreams name ecosystem;
     merge = (case merge_tier of Some b \<Rightarrow> b | None \<Rightarrow> ecosystem = ''pypi'')
     in if upstreams = [] \<or> claimants = [] then (Inr None, st)
        else walk_tiers cfg fetch now merge v (group_by_tier claimants) st)"

subsection \<open>Search\<close>

record search_hit =
  hit_name :: string
  hit_score :: rat

fun dedup_hits :: "string list \<Rightarrow> search_hit list \<Rightarrow> search_hit list" where
  "dedup_hits seen [] = []"
| "dedup_hits seen (h # hs) = (let k = py_lower (hit_name h) in
     if k \<in> set seen then dedup_hits seen hs else h # dedup_hits (k # seen) hs)"

definition search_upstreams ::
  "int \<Rightarrow> upstream_row list \<Rightarrow> (upstream_row \<Rightarrow> bool) \<Rightarrow> (int \<Rightarrow> search_hit list) \<Rightarrow> nat \<Rightarrow> search_hit list" where
  \<comment> \<open>\<open>searchable\<close>: the provider supports search or indexing; an upstream that fails or is slow
     answers with no hits\<close>
  "search_upstreams now rs searchable hits n = (let
     providers = filter (\<lambda>u. \<not> is_quarantined now u \<and> searchable u) (load_upstreams rs True);
     merged = dedup_hits [] (concat (map (\<lambda>u. hits (u_id u)) providers))
     in take n (sort_key (\<lambda>h. - hit_score h) merged))"

end
