(* ===== verification/Resolver_Spec.thy ===== *)
theory Resolver_Spec
  imports Resolver "HOL-Library.Multiset"
begin

section \<open>What resolution promises\<close>

text \<open>
  No upstream of a later tier answers for a name unless the reachable upstreams of every earlier
  tier said they do not have it; a reserved name stays with the upstreams that claim it; the first
  contributor wins every file of a merged project; quarantine follows the failure count.
\<close>

subsection \<open>Queries\<close>

text \<open>The requests of a raced tier finish in some order: the schedule only permutes them.\<close>

definition fair_schedule :: "resolver_cfg \<Rightarrow> bool" where
  "fair_schedule cfg = (\<forall>us. mset (completion cfg us) = mset us)"

lemma query_one_none:
  "query_one fetch now u v st = (None, st1) \<Longrightarrow>
   tier_errors st1 = tier_errors st \<and> fetch (u_id u) v = Not_found \<or> tier_errors st1 \<noteq> []"
  by (auto simp: query_one_def split: answer.splits)

lemma query_one_errors: "query_one fetch now u v st = (r, st1) \<Longrightarrow> tier_errors st \<noteq> [] \<Longrightarrow> tier_errors st1 \<noteq> []"
  by (auto simp: query_one_def split: answer.splits)

lemma run_queries_errors:
  "run_queries (\<lambda>u. query_one fetch now u (f u)) ca us st = (rs, st') \<Longrightarrow> tier_errors st \<noteq> [] \<Longrightarrow>
   tier_errors st' \<noteq> []"
  by (induction us arbitrary: st rs)
     (auto split: prod.splits option.splits if_splits dest: query_one_errors)

lemma run_queries_none:
  "run_queries (\<lambda>u. query_one fetch now u (f u)) ca us st = ([], st') \<Longrightarrow> tier_errors st' = [] \<Longrightarrow>
   u \<in> set us \<Longrightarrow> fetch (u_id u) (f u) = Not_found"
proof (induction us arbitrary: st)
  case (Cons w us)
  obtain r st1 where q: "query_one fetch now w (f w) st = (r, st1)" by fastforce
  with Cons.prems have r: "r = None" and rest: "run_queries (\<lambda>u. query_one fetch now u (f u)) ca us st1 = ([], st')"
    by (auto split: option.splits prod.splits if_splits)
  from query_one_none [OF q [unfolded r]] run_queries_errors [OF rest] Cons.prems(2)
  have "fetch (u_id w) (f w) = Not_found" by blast
  with Cons.IH [OF rest Cons.prems(2)] Cons.prems(3) show ?case by auto
qed simp

lemma run_queries_from:
  "run_queries q ca us st = (rs, st') \<Longrightarrow> (r, u) \<in> set rs \<Longrightarrow> u \<in> set us"
proof (induction us arbitrary: st rs)
  case (Cons w us)
  obtain x st1 where q: "q w st = (x, st1)" by fastforce
  obtain rs1 st2 where n: "run_queries q ca us st1 = (rs1, st2)" by fastforce
  show ?case
  proof (cases x)
    case None
    with Cons q show ?thesis by auto
  next
    case (Some y)
    with Cons.prems q n have "rs = (y, w) # rs1 \<and> st2 = st' \<or> rs = [(y, w)]" by (auto split: if_splits)
    with Cons.prems(2) Cons.IH [of st1 rs1] n show ?thesis by auto
  qed
qed simp

lemma query_tier_none:
  assumes "fair_schedule cfg" "query_tier cfg fetch now cs ca v st = ([], st')" "tier_errors st' = []" "u \<in> set cs"
  shows "\<exists>w. fetch (u_id u) w = Not_found"
proof -
  let ?q = "\<lambda>u. query_one fetch now u (validators_for v u)"
  have set_eq: "set (completion cfg cs) = set cs"
    using assms(1) by (metis fair_schedule_def set_mset_mset)
  show ?thesis
  proof (cases "tier_parallel cfg")
    case True
    obtain found st1 where f: "run_queries ?q ca (completion cfg cs) st = (found, st1)" by fastforce
    with assms(2) True have "sort_key (\<lambda>(r, u). index_of (u_id u) cs) found = []" "st1 = st'"
      by (auto simp: query_tier_def)
    then have "found = []" by (metis length_0_conv length_sort)
    with f \<open>st1 = st'\<close> run_queries_none [of fetch now "validators_for v" ca "completion cfg cs" st st' u] assms(3,4) set_eq
    show ?thesis by blast
  next
    case False
    with assms run_queries_none [of fetch now "validators_for v" ca cs st st' u] show ?thesis
      by (auto simp: query_tier_def)
  qed
qed

lemma query_tier_from:
  assumes "fair_schedule cfg" "query_tier cfg fetch now cs ca v st = (rs, st')" "(r, u) \<in> set rs"
  shows "u \<in> set cs"
proof -
  let ?q = "\<lambda>u. query_one fetch now u (validators_for v u)"
  have set_eq: "set (completion cfg cs) = set cs"
    using assms(1) by (metis fair_schedule_def set_mset_mset)
  obtain found st1 where f: "run_queries ?q ca (completion cfg cs) st = (found, st1)" by fastforce
  show ?thesis
  proof (cases "tier_parallel cfg")
    case True
    with assms(2) f have "rs = sort_key (\<lambda>(r, u). index_of (u_id u) cs) found" by (auto simp: query_tier_def)
    with assms(3) have "(r, u) \<in> set found" by simp
    with run_queries_from [OF f] set_eq show ?thesis by blast
  next
    case False
    with assms run_queries_from [of ?q ca cs st rs st' r u] show ?thesis by (auto simp: query_tier_def)
  qed
qed

subsection \<open>The walk\<close>

text \<open>What a tier has to say before the next one is asked.\<close>

definition tier_denied :: "world \<Rightarrow> int \<Rightarrow> upstream_row list \<Rightarrow> bool" where
  "tier_denied fetch now g =
     ((g = [] \<or> (\<exists>u \<in> set g. \<not> is_quarantined now u)) \<and>
      (\<forall>u \<in> set g. \<not> is_quarantined now u \<longrightarrow> (\<exists>w. fetch (u_id u) w = Not_found)))"

lemma walk_found:
  "fair_schedule cfg \<Longrightarrow> walk_tiers cfg fetch now m v ts st = (Inr (Some r), st') \<Longrightarrow>
    \<exists>pre t g post. ts = pre @ (t, g) # post \<and> result_tier r = t \<and> result_upstream r \<in> set g \<and>
      \<not> is_quarantined now (result_upstream r) \<and> (\<forall>(t', g') \<in> set pre. tier_denied fetch now g')"
proof (induction cfg fetch now m v ts st rule: walk_tiers.induct)
  case (2 cfg fetch now m v tier grp ts st)
  let ?c = "filter (\<lambda>u. \<not> is_quarantined now u) grp"
  let ?v = "if m \<and> 1 < length ?c then None else v"
  note assms = "2.prems"(1)
  have step: "?case" if w: "walk_tiers cfg fetch now m v ts s = (Inr (Some r), st')" and d: "tier_denied fetch now grp"
    and ih: "walk_tiers cfg fetch now m v ts s = (Inr (Some r), st') \<Longrightarrow>
      \<exists>pre t g post. ts = pre @ (t, g) # post \<and> result_tier r = t \<and> result_upstream r \<in> set g \<and>
      \<not> is_quarantined now (result_upstream r) \<and> (\<forall>(t', g') \<in> set pre. tier_denied fetch now g')" for s
  proof -
    from ih [OF w] obtain pre t g post where "ts = pre @ (t, g) # post" "result_tier r = t"
      "result_upstream r \<in> set g" "\<not> is_quarantined now (result_upstream r)"
      "\<forall>(t', g') \<in> set pre. tier_denied fetch now g'" by blast
    with d show ?thesis by (intro exI [of _ "(tier, grp) # pre"] exI [of _ t] exI [of _ g] exI [of _ post]) auto
  qed
  show ?case
  proof (cases "?c = []")
    case True
    with "2.prems" have g: "grp = []" by (auto split: if_splits)
    then have "tier_denied fetch now grp" by (simp add: tier_denied_def)
    with g True "2.prems" "2.IH"(1) [OF refl True] show ?thesis by (intro step [of st]) auto
  next
    case False
    obtain results st1 where q: "query_tier cfg fetch now ?c m ?v (st\<lparr>tier_errors := []\<rparr>) = (results, st1)"
      by fastforce
    show ?thesis
    proof (cases "results = []")
      case True
      with q False "2.prems" have e: "tier_errors st1 = []"
        and w: "walk_tiers cfg fetch now m v ts st1 = (Inr (Some r), st')"
        by (auto split: if_splits)
      have "\<exists>u \<in> set grp. \<not> is_quarantined now u" using False by (auto simp: filter_empty_conv)
      moreover have "\<exists>w. fetch (u_id u) w = Not_found" if "u \<in> set grp" "\<not> is_quarantined now u" for u
        by (rule query_tier_none [OF assms q [unfolded True] e]) (use that in simp)
      ultimately have "tier_denied fetch now grp" by (simp add: tier_denied_def)
      with w show ?thesis
        by (rule step) (use "2.IH"(2) [OF refl False q [symmetric] True] e assms in auto)
    next
      case ne: False
      with q False "2.prems" have r: "r = tier_result m tier results st1" by (auto split: if_splits)
      obtain a u rest where hd: "results = (a, u) # rest" using ne by (cases results) auto
      have "result_upstream r = u" "result_tier r = tier"
        by (auto simp: r tier_result_def hd split: reply.splits)
      moreover have "u \<in> set ?c" using query_tier_from [OF assms q, of a u] hd by simp
      ultimately show ?thesis
        by (intro exI [of _ "[]"] exI [of _ tier] exI [of _ grp] exI [of _ ts]) auto
    qed
  qed
qed simp

lemma group_by_tier_prefix:
  assumes "group_by_tier us = pre @ (t, g) # post"
  shows "g = filter (\<lambda>u. u_tier u = t) us"
    "w \<in> set us \<Longrightarrow> u_tier w < t \<Longrightarrow> (u_tier w, filter (\<lambda>u. u_tier u = u_tier w) us) \<in> set pre"
proof -
  let ?ts = "sort (remdups (map u_tier us))" and ?f = "\<lambda>t. (t, filter (\<lambda>u. u_tier u = t) us)"
  from assms obtain p q where ts: "?ts = p @ t # q" "pre = map ?f p" "(t, g) = ?f t"
    by (auto simp: group_by_tier_def map_eq_append_conv)
  then show "g = filter (\<lambda>u. u_tier u = t) us" by simp
  assume w: "w \<in> set us" "u_tier w < t"
  then have "u_tier w \<in> set ?ts" by simp
  moreover have "sorted (p @ t # q)" using sorted_sort [of "remdups (map u_tier us)"] ts(1) by simp
  then have "\<forall>x \<in> set q. t \<le> x" by (simp add: sorted_append)
  ultimately have "u_tier w \<in> set p" using w(2) ts(1) by auto
  then show "(u_tier w, filter (\<lambda>u. u_tier u = u_tier w) us) \<in> set pre" using ts(2) by auto
qed

definition the_claimants :: "resolver_state \<Rightarrow> string \<Rightarrow> string \<Rightarrow> upstream_row list" where
  "the_claimants st name eco = claimants_for (load_upstreams (rows st) True) name eco"

lemma resolve_found:
  assumes "fair_schedule cfg" "resolve cfg fetch now eco name m v st = (Inr (Some r), st')"
  shows "result_upstream r \<in> set (the_claimants st name eco) \<and> \<not> is_quarantined now (result_upstream r) \<and>
    u_tier (result_upstream r) = result_tier r \<and>
    (\<forall>w \<in> set (the_claimants st name eco). u_tier w < result_tier r \<longrightarrow>
       tier_denied fetch now (filter (\<lambda>u. u_tier u = u_tier w) (the_claimants st name eco)))"
proof -
  obtain m' where w: "walk_tiers cfg fetch now m' v (group_by_tier (the_claimants st name eco)) st = (Inr (Some r), st')"
    using assms(2) by (auto simp: resolve_def the_claimants_def Let_def split: if_splits)
  from walk_found [OF assms(1) w] obtain pre t g post where
    p: "group_by_tier (the_claimants st name eco) = pre @ (t, g) # post" "result_tier r = t"
      "result_upstream r \<in> set g" "\<not> is_quarantined now (result_upstream r)"
      "\<forall>(t', g') \<in> set pre. tier_denied fetch now g'" by blast
  with group_by_tier_prefix [OF p(1)] show ?thesis by fastforce
qed

lemma claimants_claim:
  "\<exists>u \<in> set us. claims n u \<Longrightarrow> n = py_lower (normalize_name_for eco name) \<Longrightarrow>
   claimants_for us name eco = filter (claims n) us"
  by (auto simp: claimants_for_def filter_empty_conv Let_def)

subsection \<open>Merging\<close>

lemma take_files_spec:
  "take_files uid fs (t, cl) = (t', cl') \<Longrightarrow> \<exists>new. files t' = files t @ new \<and> cl' = cl @ map filename new \<and>
     version_name t' = version_name t \<and> distinct (map filename new) \<and>
     (\<forall>f \<in> set new. filename f \<notin> set cl \<and> file_upstream f = Some uid \<and> filename f \<in> filename ` set fs) \<and>
     set cl' = set cl \<union> filename ` set fs"
proof (induction fs arbitrary: t cl)
  case Nil
  then show ?case by (intro exI [of _ "[]"]) simp
next
  case (Cons f fs)
  show ?case
  proof (cases "filename f \<in> set cl")
    case True
    with Cons.prems have "take_files uid fs (t, cl) = (t', cl')" by simp
    from Cons.IH [OF this] obtain new where "files t' = files t @ new" "cl' = cl @ map filename new"
      "version_name t' = version_name t" "distinct (map filename new)"
      "\<forall>f \<in> set new. filename f \<notin> set cl \<and> file_upstream f = Some uid \<and> filename f \<in> filename ` set fs"
      "set cl' = set cl \<union> filename ` set fs" by blast
    with True show ?thesis by (intro exI [of _ new]) auto
  next
    case False
    let ?g = "f\<lparr>file_upstream := Some uid\<rparr>"
    obtain t1 where t1: "take_files uid fs (t1, cl @ [filename f]) = (t', cl')"
      "files t1 = files t @ [?g]" "version_name t1 = version_name t"
      using Cons.prems False by simp
    from Cons.IH [OF t1(1)] obtain new where n: "files t' = files t1 @ new" "cl' = (cl @ [filename f]) @ map filename new"
      "version_name t' = version_name t1" "distinct (map filename new)"
      "\<forall>h \<in> set new. filename h \<notin> set (cl @ [filename f]) \<and> file_upstream h = Some uid \<and> filename h \<in> filename ` set fs"
      "set cl' = set (cl @ [filename f]) \<union> filename ` set fs" by blast
    then show ?thesis
      using t1 False by (intro exI [of _ "?g # new"]) auto
  qed
qed

definition all_files :: "remote_version list \<Rightarrow> remote_file list" where
  "all_files vs = concat (map files vs)"

lemma put_version_new: "find (\<lambda>w. version_name w = version_name v) ws = None \<Longrightarrow> put_version v ws = ws @ [v]"
  by (induction ws) (auto split: if_splits)

lemma put_version_old:
  "find (\<lambda>w. version_name w = version_name v) ws = Some t \<Longrightarrow> files v = files t @ new \<Longrightarrow>
   mset (all_files (put_version v ws)) = mset (all_files ws) + mset new \<and>
   map version_name (put_version v ws) = map version_name ws"
  by (induction ws) (auto simp: all_files_def split: if_splits)

text \<open>Who contributes a file: the first pair of upstream and version that lists it.\<close>

definition owner :: "(int \<times> remote_version) list \<Rightarrow> string \<Rightarrow> int option" where
  "owner cs fn = map_option fst (find (\<lambda>(i, v). fn \<in> filename ` set (files v)) cs)"

definition merged_inv :: "(int \<times> remote_version) list \<Rightarrow> remote_version list \<times> string list \<Rightarrow> bool" where
  "merged_inv cs acc = (case acc of (bv, cl) \<Rightarrow>
     distinct (map version_name bv) \<and> version_name ` set bv = (\<lambda>(i, v). version_name v) ` set cs \<and>
     mset (map filename (all_files bv)) = mset cl \<and> distinct cl \<and>
     set cl = (\<Union>(i, v) \<in> set cs. filename ` set (files v)) \<and>
     (\<forall>f \<in> set (all_files bv). file_upstream f = owner cs (filename f)))"

lemma find_snoc: "find P (xs @ [x]) = (case find P xs of Some y \<Rightarrow> Some y | None \<Rightarrow> if P x then Some x else None)"
  by (induction xs) auto

lemma find_SomeD: "find P xs = Some x \<Longrightarrow> P x \<and> x \<in> set xs"
  by (induction xs) (auto split: if_splits)

lemma owner_snoc:
  "owner (cs @ [(i, v)]) fn = (if fn \<in> (\<Union>(i, v) \<in> set cs. filename ` set (files v)) then owner cs fn
     else if fn \<in> filename ` set (files v) then Some i else None)"
proof (cases "find (\<lambda>(i, v). fn \<in> filename ` set (files v)) cs")
  case None
  then have "fn \<notin> (\<Union>(i, v) \<in> set cs. filename ` set (files v))" unfolding find_None_iff by blast
  with None show ?thesis unfolding owner_def find_snoc by simp
next
  case (Some y)
  then have "fn \<in> (\<Union>(i, v) \<in> set cs. filename ` set (files v))" using find_SomeD [OF Some] by blast
  with Some show ?thesis unfolding owner_def find_snoc by simp
qed

lemma merge_version_inv:
  assumes "merged_inv cs (bv, cl)"
  shows "merged_inv (cs @ [(i, v)]) (merge_version i (bv, cl) v)"
proof -
  let ?same = "\<lambda>w. version_name w = version_name v"
  define target where "target = (case find ?same bv of None \<Rightarrow> empty_target v
    | Some t \<Rightarrow> if metadata t = [] \<and> metadata v \<noteq> [] then t\<lparr>metadata := metadata v\<rparr> else t)"
  obtain t cl' where tf: "take_files i (files v) (target, cl) = (t, cl')" by fastforce
  then have r: "merge_version i (bv, cl) v = (put_version t bv, cl')"
    by (simp add: merge_version_def Let_def target_def)
  from take_files_spec [OF tf] obtain new where n: "files t = files target @ new" "cl' = cl @ map filename new"
    "version_name t = version_name target" "distinct (map filename new)"
    "\<forall>f \<in> set new. filename f \<notin> set cl \<and> file_upstream f = Some i \<and> filename f \<in> filename ` set (files v)"
    "set cl' = set cl \<union> filename ` set (files v)" by blast
  have old: "find ?same bv = Some w \<Longrightarrow> version_name w = version_name v \<and> w \<in> set bv" for w
    by (drule find_SomeD) blast
  have name: "version_name t = version_name v"
  proof (cases "find ?same bv")
    case None
    with n(3) show ?thesis by (simp add: target_def empty_target_def)
  next
    case (Some w)
    have "version_name w = version_name v" using old [OF Some] by blast
    moreover have "version_name target = version_name w" unfolding target_def Some by simp
    ultimately show ?thesis using n(3) by metis
  qed
  have put: "mset (all_files (put_version t bv)) = mset (all_files bv) + mset new \<and>
      distinct (map version_name (put_version t bv)) \<and>
      version_name ` set (put_version t bv) = insert (version_name v) (version_name ` set bv)"
  proof (cases "find ?same bv")
    case None
    then have "put_version t bv = bv @ [t]" using put_version_new [of t bv] name by simp
    moreover have "version_name v \<notin> version_name ` set bv" using None by (auto simp: find_None_iff)
    moreover have "files t = new" using n(1) None by (simp add: target_def empty_target_def)
    ultimately show ?thesis using assms name by (auto simp: merged_inv_def all_files_def)
  next
    case (Some w)
    then have "files t = files w @ new" using n(1) by (simp add: target_def)
    with put_version_old [of t bv w new] Some name
    have p: "mset (all_files (put_version t bv)) = mset (all_files bv) + mset new"
      "map version_name (put_version t bv) = map version_name bv" by simp_all
    then have "version_name ` set (put_version t bv) = version_name ` set bv" by (metis set_map)
    moreover have "insert (version_name v) (version_name ` set bv) = version_name ` set bv"
      using old [OF Some] by (metis image_eqI insert_absorb)
    moreover have "distinct (map version_name bv)" using assms by (simp add: merged_inv_def)
    ultimately show ?thesis using p by metis
  qed
  have fs: "set (all_files (put_version t bv)) = set (all_files bv) \<union> set new"
    using put by (metis set_mset_mset set_mset_union)
  have U: "set cl = (\<Union>(i, v) \<in> set cs. filename ` set (files v))" using assms by (simp add: merged_inv_def)
  have in_cl: "filename f \<in> set cl" if "f \<in> set (all_files bv)" for f
  proof -
    have "filename f \<in># mset (map filename (all_files bv))" using that by auto
    with assms show ?thesis by (auto simp: merged_inv_def)
  qed
  have "file_upstream f = owner (cs @ [(i, v)]) (filename f)" if "f \<in> set (all_files (put_version t bv))" for f
  proof -
    from that fs consider "f \<in> set (all_files bv)" | "f \<in> set new" by blast
    then show ?thesis
    proof cases
      case 1
      then have "filename f \<in> (\<Union>(i, v) \<in> set cs. filename ` set (files v))" using in_cl U by blast
      then have "owner (cs @ [(i, v)]) (filename f) = owner cs (filename f)" unfolding owner_snoc by (rule if_P)
      moreover have "file_upstream f = owner cs (filename f)" using assms 1 by (simp add: merged_inv_def)
      ultimately show ?thesis by simp
    next
      case 2
      with n(5) have f: "filename f \<notin> (\<Union>(i, v) \<in> set cs. filename ` set (files v))" "file_upstream f = Some i"
        "filename f \<in> filename ` set (files v)" using U by blast+
      then show ?thesis unfolding owner_snoc by (simp only: if_False if_True)
    qed
  qed
  moreover have "distinct cl'" using assms n by (auto simp: merged_inv_def)
  moreover have "mset (map filename (all_files (put_version t bv))) = mset cl'"
    using put assms n(2) by (simp add: merged_inv_def)
  ultimately show ?thesis
    using put n(6) assms by (auto simp: r merged_inv_def)
qed

lemma merge_fold_inv:
  "merged_inv cs acc \<Longrightarrow> merged_inv (cs @ map (Pair i) vs) (foldl (merge_version i) acc vs)"
proof (induction vs arbitrary: cs acc)
  case (Cons v vs)
  obtain bv cl where "acc = (bv, cl)" by (cases acc)
  with Cons.prems merge_version_inv [of cs bv cl i v] have "merged_inv (cs @ [(i, v)]) (merge_version i acc v)" by simp
  from Cons.IH [OF this] show ?case by simp
qed simp

definition contributions :: "(remote_package \<times> upstream_row) list \<Rightarrow> (int \<times> remote_version) list" where
  "contributions rs = concat (map (\<lambda>(p, u). map (Pair (u_id u)) (versions p)) rs)"

lemma merge_all_inv:
  "merged_inv cs acc \<Longrightarrow> merged_inv (cs @ contributions rs)
     (foldl (\<lambda>acc (p, u). foldl (merge_version (u_id u)) acc (versions p)) acc rs)"
proof (induction rs arbitrary: cs acc)
  case (Cons r rs)
  obtain p u where r: "r = (p, u)" by (cases r)
  from merge_fold_inv [OF Cons.prems] have
    "merged_inv (cs @ map (Pair (u_id u)) (versions p)) (foldl (merge_version (u_id u)) acc (versions p))" .
  from Cons.IH [OF this] show ?case by (simp add: r contributions_def)
qed (simp add: contributions_def)

lemma derive_yanked_simps [simp]: "files (derive_yanked v) = files v" "version_name (derive_yanked v) = version_name v"
  by (simp_all add: derive_yanked_def)

lemma merged_files:
  "merged_inv (contributions rs) (versions (merge_packages rs), map filename (all_files (versions (merge_packages rs))))"
proof -
  obtain bv cl where f: "foldl (\<lambda>acc (p, u). foldl (merge_version (u_id u)) acc (versions p)) ([], []) rs = (bv, cl)"
    by fastforce
  have "merged_inv [] ([], [])" by (simp add: merged_inv_def all_files_def)
  from merge_all_inv [OF this, of rs] f have inv: "merged_inv (contributions rs) (bv, cl)" by simp
  have "versions (merge_packages rs) = map derive_yanked bv" by (simp add: merge_packages_def Let_def f)
  moreover have "all_files (map derive_yanked bv) = all_files bv"
    by (simp add: all_files_def comp_def)
  moreover have "map version_name (map derive_yanked bv) = map version_name bv" by simp
  moreover have "version_name ` set (map derive_yanked bv) = version_name ` set bv" by (simp add: image_image)
  moreover have m: "mset (map filename (all_files bv)) = mset cl" "distinct cl"
    using inv unfolding merged_inv_def prod.case by blast+
  have "distinct (map filename (all_files bv))" using m mset_eq_imp_distinct_iff by blast
  moreover have "set (map filename (all_files bv)) = set cl" using m(1) by (rule mset_eq_setD)
  ultimately show ?thesis using inv by (simp add: merged_inv_def comp_def)
qed

subsection \<open>Search\<close>

lemma dedup_hits_distinct:
  "distinct (map (\<lambda>h. py_lower (hit_name h)) (dedup_hits seen hs)) \<and>
   (\<forall>h \<in> set (dedup_hits seen hs). py_lower (hit_name h) \<notin> set seen \<and> h \<in> set hs)"
proof (induction hs arbitrary: seen)
  case (Cons h hs)
  show ?case
  proof (cases "py_lower (hit_name h) \<in> set seen")
    case True
    with Cons [of seen] show ?thesis by simp
  next
    case False
    let ?k = "py_lower (hit_name h)"
    have d: "dedup_hits seen (h # hs) = h # dedup_hits (?k # seen) hs" using False by (simp add: Let_def)
    have ih: "distinct (map (\<lambda>h. py_lower (hit_name h)) (dedup_hits (?k # seen) hs))"
      "\<forall>g \<in> set (dedup_hits (?k # seen) hs). py_lower (hit_name g) \<notin> set (?k # seen) \<and> g \<in> set hs"
      using Cons.IH by blast+
    have "?k \<notin> (\<lambda>h. py_lower (hit_name h)) ` set (dedup_hits (?k # seen) hs)"
      using ih(2) by (metis (no_types, lifting) imageE list.set_intros(1))
    with ih(1) have "distinct (map (\<lambda>h. py_lower (hit_name h)) (dedup_hits seen (h # hs)))" unfolding d by simp
    moreover have "\<forall>g \<in> set (dedup_hits seen (h # hs)). py_lower (hit_name g) \<notin> set seen \<and> g \<in> set (h # hs)"
      unfolding d using ih(2) False by (simp only: list.set) blast
    ultimately show ?thesis by blast
  qed
qed simp

subsection \<open>Health\<close>

lemma mark_failures:
  assumes "consecutive_failures u = 0" "healthy u"
  shows "consecutive_failures ((mark_failure now e ^^ k) u) = int k \<and>
    healthy ((mark_failure now e ^^ k) u) = (k < 5) \<and>
    (0 < k \<longrightarrow> last_check_at ((mark_failure now e ^^ k) u) = Some now)"
  using assms by (induction k) (auto simp: mark_failure_def FAILURE_THRESHOLD_def Let_def)

lemma mark_healthy_fresh:
  "consecutive_failures (mark_healthy now u) = 0 \<and> healthy (mark_healthy now u)"
  by (simp add: mark_healthy_def)

subsection \<open>The properties\<close>

text \<open>
  C17: no dependency confusion across tiers. The upstream a name is resolved from is a claimant of
  that name and not quarantined, and for every tier before its own, each claimant of that tier
  that was not quarantined answered an authoritative 404, and there was at least one such
  claimant: a tier that failed, or is quarantined as a whole, ends the resolution instead of
  letting a later tier answer.
\<close>

theorem no_tier_skipped:
  assumes "fair_schedule cfg" "resolve cfg fetch now eco name m v st = (Inr (Some r), st')"
  shows "result_upstream r \<in> set (the_claimants st name eco) \<and> \<not> is_quarantined now (result_upstream r) \<and>
    u_tier (result_upstream r) = result_tier r \<and>
    list_all (\<lambda>w. result_tier r \<le> u_tier w \<or>
      tier_denied fetch now (filter (\<lambda>u. u_tier u = u_tier w) (the_claimants st name eco))) (the_claimants st name eco)"
  using resolve_found [OF assms] by (auto simp: list_all_iff not_le)

definition sample_row :: "int \<Rightarrow> int \<Rightarrow> string list \<Rightarrow> upstream_row" where
  "sample_row i t ps = \<lparr>u_id = i, u_name = ''up'', u_tier = t, u_priority = 0, u_enabled = True,
     name_patterns = ps, healthy = True, consecutive_failures = 0, last_check_at = None, last_error = None\<rparr>"

definition sample_package :: remote_package where
  "sample_package = \<lparr>package_name = ''left-pad'', versions = [], dist_tags = [], description = None, time = [],
     package_etag = None, package_upstream = None, package_upstream_name = None\<rparr>"

definition sample_cfg :: resolver_cfg where
  "sample_cfg = \<lparr>tier_parallel = True, completion = rev\<rparr>"

definition sample_resolver_state :: "upstream_row list \<Rightarrow> resolver_state" where
  "sample_resolver_state rs = \<lparr>rows = rs, tier_errors = [], response_validators = Map.empty\<rparr>"

definition sample_world :: world where
  "sample_world i v = (if i = 3 then Found sample_package None else Not_found)"

lemma fair_sample: "fair_schedule sample_cfg"
  by (simp add: fair_schedule_def sample_cfg_def)

definition resolved_by :: "(tier_error + resolve_result option) \<times> resolver_state \<Rightarrow> int option" where
  "resolved_by x = (case x of (Inr (Some r), _) \<Rightarrow> Some (u_id (result_upstream r)) | _ \<Rightarrow> None)"

lemma resolved_by_Some: "resolved_by x = Some i \<Longrightarrow> \<exists>r st. x = (Inr (Some r), st) \<and> u_id (result_upstream r) = i"
  by (cases x) (auto simp: resolved_by_def split: sum.splits option.splits)

theorem no_tier_skipped_witness:
  "\<exists>r :: resolve_result. u_id (result_upstream r) = 3 \<and> list_all (\<lambda>w. result_tier r \<le> u_tier w \<or>
     tier_denied sample_world 0 (filter (\<lambda>u. u_tier u = u_tier w)
       (the_claimants (sample_resolver_state [sample_row 1 0 [], sample_row 3 1 []]) ''left-pad'' ''npm'')))
     (the_claimants (sample_resolver_state [sample_row 1 0 [], sample_row 3 1 []]) ''left-pad'' ''npm'')"
proof -
  let ?st = "sample_resolver_state [sample_row 1 0 [], sample_row 3 1 []]"
  have "resolved_by (resolve sample_cfg sample_world 0 ''npm'' ''left-pad'' None None ?st) = Some 3"
    by code_simp
  from resolved_by_Some [OF this] obtain r st' where
    r: "resolve sample_cfg sample_world 0 ''npm'' ''left-pad'' None None ?st = (Inr (Some r), st')"
    "u_id (result_upstream r) = 3" by blast
  from no_tier_skipped [OF fair_sample r(1)] r(2) show ?thesis by (intro exI [of _ r] conjI) simp_all
qed

text \<open>
  A tier of which one upstream is quarantined and the others answer 404 is left behind: the
  quarantined one is never consulted, and a later tier answers for the name.
\<close>

definition quarantined_row :: upstream_row where
  "quarantined_row = (sample_row 1 0 [])\<lparr>healthy := False, consecutive_failures := 5, last_check_at := Some 0\<rparr>"

lemma partial_quarantine_falls_through:
  "is_quarantined 10 quarantined_row"
  "resolved_by (resolve sample_cfg sample_world 10 ''npm'' ''left-pad'' None None
     (sample_resolver_state [quarantined_row, sample_row 2 0 [], sample_row 3 1 []])) = Some 3"
  by code_simp+

text \<open>
  A reserved name stays with the upstreams that reserve it. When any enabled upstream declares a
  pattern matching the name, in any capitalisation, the name is only ever resolved from an upstream
  that declares one, whatever the tiers.
\<close>

theorem reserved_name_stays:
  assumes "fair_schedule cfg" "resolve cfg fetch now eco name m v st = (Inr (Some r), st')"
    "list_ex (claims (py_lower (normalize_name_for eco name))) (load_upstreams (rows st) True)"
  shows "claims (py_lower (normalize_name_for eco name)) (result_upstream r)"
proof -
  have "the_claimants st name eco =
      filter (claims (py_lower (normalize_name_for eco name))) (load_upstreams (rows st) True)"
    unfolding the_claimants_def by (rule claimants_claim) (use assms(3) in \<open>auto simp: list_ex_iff\<close>)
  with resolve_found [OF assms(1,2)] show ?thesis by auto
qed

theorem reserved_name_stays_witness:
  "\<exists>r :: resolve_result. claims ''@corp/x'' (result_upstream r) \<and> u_id (result_upstream r) = 3"
proof -
  let ?st = "sample_resolver_state [sample_row 1 0 [], sample_row 3 1 [''@Corp/*'']]"
  have "resolved_by (resolve sample_cfg sample_world 0 ''npm'' ''@Corp/X'' None None ?st) = Some 3"
    by code_simp
  from resolved_by_Some [OF this] obtain r st' where
    r: "resolve sample_cfg sample_world 0 ''npm'' ''@Corp/X'' None None ?st = (Inr (Some r), st')"
    "u_id (result_upstream r) = 3" by blast
  have c: "list_ex (claims (py_lower (normalize_name_for ''npm'' ''@Corp/X''))) (load_upstreams (rows ?st) True)"
    by code_simp
  have n: "py_lower (normalize_name_for ''npm'' ''@Corp/X'') = ''@corp/x''" by code_simp
  from reserved_name_stays [OF fair_sample r(1) c] r(2) show ?thesis
    unfolding n by (intro exI [of _ r] conjI)
qed

text \<open>
  Merging. A merged project lists every version any contributor has, once; every file any
  contributor has, once; and each file is the one of the first contributor (in priority order) that
  lists it, stamped with that upstream, so its credentials and no other's fetch it.
\<close>

theorem merge_first_wins:
  "distinct (map version_name (versions (merge_packages rs))) \<and>
   version_name ` set (versions (merge_packages rs)) = (\<lambda>(i, v). version_name v) ` set (contributions rs) \<and>
   distinct (map filename (all_files (versions (merge_packages rs)))) \<and>
   filename ` set (all_files (versions (merge_packages rs))) =
     (\<Union>(i, v) \<in> set (contributions rs). filename ` set (files v)) \<and>
   list_all (\<lambda>f. file_upstream f = owner (contributions rs) (filename f)) (all_files (versions (merge_packages rs)))"
  using merged_files [of rs] by (simp add: merged_inv_def list_all_iff)

text \<open>
  An upstream is skipped exactly between its fifth consecutive failure and the probe two minutes
  later, and a single success ends its quarantine.
\<close>

theorem quarantine_window:
  "is_quarantined t ((mark_failure now e ^^ k) (mark_healthy t0 u)) = (5 \<le> k \<and> t - now < 120) \<and>
   \<not> is_quarantined t (mark_healthy now ((mark_failure now e ^^ k) u))"
proof
  show "is_quarantined t ((mark_failure now e ^^ k) (mark_healthy t0 u)) = (5 \<le> k \<and> t - now < 120)"
    using mark_failures [where u = "mark_healthy t0 u" and now = now and e = e and k = k] mark_healthy_fresh [of t0 u]
    by (auto simp: is_quarantined_def FAILURE_THRESHOLD_def PROBE_INTERVAL_SECONDS_def)
  show "\<not> is_quarantined t (mark_healthy now ((mark_failure now e ^^ k) u))"
    using mark_healthy_fresh by (simp add: is_quarantined_def)
qed

text \<open>
  Upstream search returns at most the asked number of hits, in descending score, no two with the
  same name up to case.
\<close>

theorem search_results:
  "length (search_upstreams now us searchable hits n) \<le> n \<and>
   sorted_wrt (\<lambda>a b. hit_score b \<le> hit_score a) (search_upstreams now us searchable hits n) \<and>
   distinct (map (\<lambda>h. py_lower (hit_name h)) (search_upstreams now us searchable hits n))"
proof -
  obtain hs where s: "search_upstreams now us searchable hits n = take n (sort_key (\<lambda>h. - hit_score h) (dedup_hits [] hs))"
    by (simp add: search_upstreams_def Let_def)
  have "sorted_wrt (\<lambda>a b. hit_score b \<le> hit_score a) (sort_key (\<lambda>h. - hit_score h) (dedup_hits [] hs))"
    using sorted_sort_key [of "\<lambda>h. - hit_score h" "dedup_hits [] hs"] by (simp add: sorted_map)
  then have "sorted_wrt (\<lambda>a b. hit_score b \<le> hit_score a) (search_upstreams now us searchable hits n)"
    unfolding s by (rule sorted_wrt_take)
  moreover have "distinct (map (\<lambda>h. py_lower (hit_name h)) (dedup_hits [] hs))"
    using dedup_hits_distinct by blast
  then have "distinct (map (\<lambda>h. py_lower (hit_name h)) (sort_key (\<lambda>h. - hit_score h) (dedup_hits [] hs)))"
    by (metis mset_eq_imp_distinct_iff mset_map mset_sort)
  then have "distinct (map (\<lambda>h. py_lower (hit_name h)) (search_upstreams now us searchable hits n))"
    unfolding s by (simp flip: take_map)
  ultimately show ?thesis by (simp add: s)
qed

end
