(* ===== verification/Netguard.thy ===== *)
theory Netguard
  imports Py_Url "HOL-Library.Word"
begin

unbundle bit_operations_syntax

section \<open>Where the fetcher may connect (\<open>upstreams/netguard.py\<close>)\<close>

text \<open>
  The host and address rules for outbound fetches and DNS pinning. An address is its text, as the
  resolver delivers it; \<open>is_public_address\<close> parses it into a 32- or 128-bit word as the
  \<open>ipaddress\<close> module does and looks it up in that module's tables of special networks. Resolution
  and the environment's proxies are arguments: \<open>dns\<close> is the resolver's answer, \<open>None\<close> for an
  \<open>OSError\<close>.
\<close>

subsection \<open>Addresses\<close>

datatype ip = V4 "32 word" | V6 "128 word"

definition octet :: "string \<Rightarrow> nat option" where
  "octet s = (if s \<noteq> [] \<and> list_all is_digit s \<and> length s \<le> 3 \<and> (s = ''0'' \<or> hd s \<noteq> CHR ''0'')
       \<and> nat_of_digits s \<le> 255
     then Some (nat_of_digits s) else None)"

definition parse_v4 :: "string \<Rightarrow> 32 word option" where
  "parse_v4 s = (case map octet (split_on (CHR ''.'') s) of
     [Some a, Some b, Some c, Some d] \<Rightarrow> Some (of_nat (((a * 256 + b) * 256 + c) * 256 + d))
   | _ \<Rightarrow> None)"

definition hex_value :: "char \<Rightarrow> nat option" where
  "hex_value c = (let n = (of_char c :: nat) in
     if is_digit c then Some (n - 48)
     else if 97 \<le> n \<and> n \<le> 102 then Some (n - 87)
     else if 65 \<le> n \<and> n \<le> 70 then Some (n - 55) else None)"

definition hextet :: "string \<Rightarrow> nat option" where
  "hextet s = (if s \<noteq> [] \<and> list_all (\<lambda>c. hex_value c \<noteq> None) s \<and> length s \<le> 4
     then Some (foldl (\<lambda>a c. 16 * a + the (hex_value c)) 0 s) else None)"

text \<open>The eight groups of an address without a run of zeros, or the groups before and after it.\<close>

definition v6_groups :: "string list \<Rightarrow> nat list option" where
  "v6_groups parts = (let
     inner = filter (\<lambda>i. parts ! i = []) [1 ..< length parts - 1] in
     case inner of
       [] \<Rightarrow> (let hs = map hextet parts in
         if length parts = 8 \<and> list_all (\<lambda>h. h \<noteq> None) hs then Some (map the hs) else None)
     | [i] \<Rightarrow> (let
         hi0 = take i parts; lo0 = drop (i + 1) parts;
         hi = (if hd parts = [] then tl hi0 else hi0);
         lo = (if last parts = [] then butlast lo0 else lo0);
         hs = map hextet hi; ls = map hextet lo
         in if (hd parts = [] \<and> hi \<noteq> []) \<or> (last parts = [] \<and> lo \<noteq> []) \<or> 8 < length hi + length lo + 1
              \<or> \<not> list_all (\<lambda>h. h \<noteq> None) (hs @ ls) then None
            else Some (map the hs @ replicate (8 - (length hi + length lo)) 0 @ map the ls))
     | _ \<Rightarrow> None)"

definition hex_text :: "nat \<Rightarrow> string" where
  \<comment> \<open>four digits stand for what \<open>'%x'\<close> writes; \<open>hextet\<close> reads both alike\<close>
  "hex_text n = [hex_digit (n div 4096 mod 16), hex_digit (n div 256 mod 16), hex_digit (n div 16 mod 16), hex_digit (n mod 16)]"

definition parse_v6 :: "string \<Rightarrow> 128 word option" where
  "parse_v6 s0 = (case py_partition (CHR ''%'') s0 of (s, sep, scope) \<Rightarrow>
     if CHR ''/'' \<in> set s0 \<or> s = [] \<or> sep \<noteq> [] \<and> (scope = [] \<or> CHR ''%'' \<in> set scope) then None
     else (let parts0 = split_on (CHR '':'') s in
       if length parts0 < 3 then None
       else (let parts = (if CHR ''.'' \<in> set (last parts0) then
           (case parse_v4 (last parts0) of
              None \<Rightarrow> []
            | Some w \<Rightarrow> butlast parts0 @ [hex_text (unat w div 65536), hex_text (unat w mod 65536)])
           else parts0)
         in if parts = [] \<or> 9 < length parts then None
            else map_option (\<lambda>gs. of_nat (foldl (\<lambda>a g. a * 65536 + g) 0 gs)) (v6_groups parts))))"

definition ip_address :: "string \<Rightarrow> ip option" where
  "ip_address s = (case parse_v4 s of Some w \<Rightarrow> Some (V4 w) | None \<Rightarrow> map_option V6 (parse_v6 s))"

text \<open>Membership in a network, given by its first address and prefix length.\<close>

definition in_net :: "'a :: len word \<Rightarrow> 'a word \<times> nat \<Rightarrow> bool" where
  "in_net w n = (drop_bit (LENGTH('a) - snd n) w = drop_bit (LENGTH('a) - snd n) (fst n))"

definition private_v4 :: "(32 word \<times> nat) list" where
  "private_v4 = [(0, 8), (0x0A000000, 8), (0x7F000000, 8), (0xA9FE0000, 16), (0xAC100000, 12),
     (0xC0000000, 24), (0xC00000AA, 31), (0xC0000200, 24), (0xC0A80000, 16), (0xC6120000, 15),
     (0xC6336400, 24), (0xCB007100, 24), (0xF0000000, 4), (0xFFFFFFFF, 32)]"

definition private_v4_exceptions :: "(32 word \<times> nat) list" where
  "private_v4_exceptions = [(0xC0000009, 32), (0xC000000A, 32)]"

definition private_v6 :: "(128 word \<times> nat) list" where
  "private_v6 = [(1, 128), (0, 128), (0xFFFF00000000, 96), (0x64FF9B000100000000000000000000, 48),
     (0x01000000000000000000000000000000, 64), (0x20010000000000000000000000000000, 23),
     (0x20010DB8000000000000000000000000, 32), (0x20020000000000000000000000000000, 16),
     (0xFC000000000000000000000000000000, 7), (0xFE800000000000000000000000000000, 10)]"

definition private_v6_exceptions :: "(128 word \<times> nat) list" where
  "private_v6_exceptions = [(0x20010001000000000000000000000001, 128), (0x20010001000000000000000000000002, 128),
     (0x20010003000000000000000000000000, 32), (0x20010004011200000000000000000000, 48),
     (0x20010020000000000000000000000000, 28), (0x20010030000000000000000000000000, 28)]"

definition reserved_v6 :: "(128 word \<times> nat) list" where
  "reserved_v6 = [(0, 8), (0x01000000000000000000000000000000, 8), (0x02000000000000000000000000000000, 7),
     (0x04000000000000000000000000000000, 6), (0x08000000000000000000000000000000, 5),
     (0x10000000000000000000000000000000, 4), (0x40000000000000000000000000000000, 3),
     (0x60000000000000000000000000000000, 3), (0x80000000000000000000000000000000, 3),
     (0xA0000000000000000000000000000000, 3), (0xC0000000000000000000000000000000, 3),
     (0xE0000000000000000000000000000000, 4), (0xF0000000000000000000000000000000, 5),
     (0xF8000000000000000000000000000000, 6), (0xFE000000000000000000000000000000, 9)]"

definition blocked_v4 :: "32 word \<Rightarrow> bool" where
  \<comment> \<open>private, loopback, link-local, reserved, multicast, unspecified\<close>
  "blocked_v4 w =
     (list_ex (in_net w) private_v4 \<and> \<not> list_ex (in_net w) private_v4_exceptions
      \<or> in_net w (0x7F000000, 8) \<or> in_net w (0xA9FE0000, 16) \<or> in_net w (0xF0000000, 4)
      \<or> in_net w (0xE0000000, 4) \<or> w = 0)"

definition blocked_v6 :: "128 word \<Rightarrow> bool" where
  "blocked_v6 w =
     (list_ex (in_net w) private_v6 \<and> \<not> list_ex (in_net w) private_v6_exceptions
      \<or> w = 1 \<or> in_net w (0xFE800000000000000000000000000000, 10) \<or> list_ex (in_net w) reserved_v6
      \<or> in_net w (0xFF000000000000000000000000000000, 8) \<or> w = 0)"

definition ipv4_mapped :: "128 word \<Rightarrow> 32 word option" where
  "ipv4_mapped w = (if drop_bit 32 w = 0xFFFF then Some (ucast w) else None)"

definition EXTRA_BLOCKED_NETWORKS :: "(32 word \<times> nat) list" where
  "EXTRA_BLOCKED_NETWORKS = [(0x64400000, 10)]"

definition public_v4 :: "32 word \<Rightarrow> bool" where
  "public_v4 w = (\<not> blocked_v4 w \<and> \<not> list_ex (in_net w) EXTRA_BLOCKED_NETWORKS)"

definition is_public_ip :: "ip \<Rightarrow> bool" where
  "is_public_ip a = (case a of
     V4 w \<Rightarrow> public_v4 w
   | V6 w \<Rightarrow> (case ipv4_mapped w of Some v \<Rightarrow> public_v4 v | None \<Rightarrow> \<not> blocked_v6 w))"

definition is_public_address :: "string \<Rightarrow> bool" where
  "is_public_address address = (case ip_address address of None \<Rightarrow> False | Some a \<Rightarrow> is_public_ip a)"

subsection \<open>Pinning\<close>

text \<open>
  The backend's dict of pins, oldest first: host, deadline, addresses. More than 4096 of them
  drops those past their deadline.
\<close>

type_synonym pins = "(string \<times> int \<times> string list) list"

fun put_pin :: "string \<Rightarrow> int \<times> string list \<Rightarrow> pins \<Rightarrow> pins" where
  "put_pin h e [] = [(h, e)]"
| "put_pin h e ((k, d) # ps) = (if k = h then (k, e) # ps else (k, d) # put_pin h e ps)"

definition pin :: "int \<Rightarrow> string \<Rightarrow> string list \<Rightarrow> pins \<Rightarrow> pins" where
  "pin now host addresses ps = (let ps' = put_pin (py_lower host) (now + 300, addresses) ps in
     if 4096 < length ps' then filter (\<lambda>(h, deadline, _). now < deadline) ps' else ps')"

datatype connect_error = NotApproved

text \<open>The addresses \<open>connect_tcp\<close> tries, in order; it resolves nothing itself.\<close>

definition connect_tcp :: "bool \<Rightarrow> int \<Rightarrow> pins \<Rightarrow> string \<Rightarrow> connect_error + string list" where
  "connect_tcp require_pin now ps host = (case map_of ps (py_lower host) of
     None \<Rightarrow> if require_pin then Inl NotApproved else Inr [host]
   | Some (deadline, addresses) \<Rightarrow>
       if deadline < now then (if require_pin then Inl NotApproved else Inr [host])
       else Inr addresses)"

subsection \<open>Checks\<close>

record guard_settings =
  allow_plaintext_http :: bool
  allow_private_addresses :: bool
  artifact_host_allowlist :: "string list"

datatype blocked_url = NotHttp | Plaintext | NoHost | HostNotAllowed string | PrivateAddress string
  | BadPort | CannotResolve string

definition host_of :: "string \<Rightarrow> string" where
  "host_of url = url_hostname url"

definition default_port :: "string \<Rightarrow> nat option" where
  "default_port s = (if s = ''https'' then Some 443 else if s = ''http'' then Some 80 else None)"

definition port_or_default :: "string \<Rightarrow> string \<Rightarrow> nat option" where
  \<comment> \<open>\<open>parts.port or default.get(parts.scheme)\<close>: port 0 counts as no port\<close>
  "port_or_default url sch = (case url_port url of
     Some (Some p) \<Rightarrow> if p = 0 then default_port sch else Some p
   | _ \<Rightarrow> default_port sch)"

text \<open>\<open>None\<close> is the \<open>ValueError\<close> of an invalid port, which is read only once scheme and host agree.\<close>

definition same_origin :: "string \<Rightarrow> string \<Rightarrow> bool option" where
  "same_origin a b = (let pa = urlsplit a; pb = urlsplit b in
     if scheme pa \<noteq> scheme pb then Some False
     else if url_hostname a \<noteq> url_hostname b then Some False
     else if url_port a = None \<or> url_port b = None then None
     else Some (port_or_default a (scheme pa) = port_or_default b (scheme pb)))"

definition check_url_shape ::
  "guard_settings \<Rightarrow> string \<Rightarrow> string option \<Rightarrow> string list \<Rightarrow> blocked_url + string" where
  "check_url_shape cfg url upstream_url extra_hosts = (let sch = scheme (urlsplit url) in
     if sch \<notin> {''http'', ''https''} then Inl NotHttp
     else if sch = ''http'' \<and> \<not> allow_plaintext_http cfg then Inl Plaintext
     else (let host = host_of url in
       if host = [] then Inl NoHost
       else (let permitted = artifact_host_allowlist cfg @ map py_lower (filter (\<lambda>h. h \<noteq> []) extra_hosts) @
           (case upstream_url of None \<Rightarrow> [] | Some u \<Rightarrow> if host_of u \<noteq> [] then [host_of u] else [])
         in if host \<notin> set permitted then Inl (HostNotAllowed host) else Inr host)))"

definition literal :: "string \<Rightarrow> string option" where
  \<comment> \<open>the host as an address, when it is one; brackets stripped\<close>
  "literal host = (let h = rev (dropWhile (\<lambda>c. c \<in> set ''[]'') (rev (dropWhile (\<lambda>c. c \<in> set ''[]'') host))) in
     if ip_address h = None then None else Some h)"

definition resolves_private :: "string list option \<Rightarrow> string \<Rightarrow> bool" where
  "resolves_private dns host = (case literal host of
     Some a \<Rightarrow> \<not> is_public_address a
   | None \<Rightarrow> (case dns of None \<Rightarrow> False | Some as \<Rightarrow> list_ex (\<lambda>a. \<not> is_public_address a) as))"

definition check_fetchable ::
  "guard_settings \<Rightarrow> string list option \<Rightarrow> string \<Rightarrow> string option \<Rightarrow> blocked_url + unit" where
  \<comment> \<open>also \<open>check_fetchable_async\<close>\<close>
  "check_fetchable cfg dns url upstream_url = (case check_url_shape cfg url upstream_url [] of
     Inl e \<Rightarrow> Inl e
   | Inr host \<Rightarrow>
       if \<not> allow_private_addresses cfg \<and> resolves_private dns host then Inl (PrivateAddress host) else Inr ())"

definition guard_url ::
  "guard_settings \<Rightarrow> int \<Rightarrow> string list option \<Rightarrow> bool \<Rightarrow> string \<Rightarrow> string option \<Rightarrow> string list \<Rightarrow> pins \<Rightarrow>
   blocked_url + pins" where
  "guard_url cfg now dns proxied url upstream_url extra_hosts ps =
     (case check_url_shape cfg url upstream_url extra_hosts of
        Inl e \<Rightarrow> Inl e
      | Inr host \<Rightarrow>
          if allow_private_addresses cfg then Inr ps
          else if literal host = None \<and> proxied then
            (case dns of
               None \<Rightarrow> Inr ps
             | Some local \<Rightarrow>
                 if list_ex (\<lambda>a. \<not> is_public_address a) local then Inl (PrivateAddress host) else Inr ps)
          else (case (case literal host of
                 Some a \<Rightarrow> Inr [a]
               | None \<Rightarrow>
                   if url_port url = None then Inl BadPort
                   else (case dns of None \<Rightarrow> Inl (CannotResolve host) | Some as \<Rightarrow> Inr as)) of
             Inl e \<Rightarrow> Inl e
           | Inr addresses \<Rightarrow>
               if list_ex (\<lambda>a. \<not> is_public_address a) addresses \<or> addresses = [] then Inl (PrivateAddress host)
               else Inr (pin now host addresses ps)))"

text \<open>\<open>resolve_host\<close>: up to three attempts; a name that does not exist is not retried.\<close>

datatype lookup = Addresses "string list" | NoName | Transient

fun resolve_host :: "nat \<Rightarrow> lookup list \<Rightarrow> string list option" where
  "resolve_host 0 ls = None"
| "resolve_host (Suc n) [] = None"
| "resolve_host (Suc n) (l # ls) = (case l of
     Addresses as \<Rightarrow> Some (rev (remdups (rev as)))
   | NoName \<Rightarrow> None
   | Transient \<Rightarrow> resolve_host n ls)"

end
