(* ===== verification/Netguard_Spec.thy ===== *)
theory Netguard_Spec
  imports Netguard
begin

section \<open>What the guard and the pinned backend promise\<close>

text \<open>
  Guarding and connecting as a state machine over the pins and the clock: in every reachable state
  a connection that needs a pin goes only to public addresses approved in the last five minutes.
  Then the facts on address classes.
\<close>

subsection \<open>Pins\<close>

lemma put_pin_lookup: "map_of (put_pin h e ps) k = (if k = h then Some e else map_of ps k)"
  by (induction ps) auto

lemma put_pin_set: "x \<in> set (put_pin h e ps) \<Longrightarrow> x = (h, e) \<or> x \<in> set ps"
  by (induction ps) (auto split: if_splits)

lemma pin_set: "x \<in> set (pin now host as ps) \<Longrightarrow> x = (py_lower host, now + 300, as) \<or> x \<in> set ps"
  by (auto simp: pin_def Let_def split: if_splits dest: put_pin_set)

subsection \<open>The state machine\<close>

record fetcher =
  clock :: int
  pinned :: pins

inductive step :: "guard_settings \<Rightarrow> fetcher \<Rightarrow> fetcher \<Rightarrow> bool" for cfg where
  tick: "clock st \<le> t \<Longrightarrow> step cfg st (st\<lparr>clock := t\<rparr>)"
| guarded: "guard_url cfg (clock st) dns proxied url up extra (pinned st) = Inr ps \<Longrightarrow>
    step cfg st (st\<lparr>pinned := ps\<rparr>)"

inductive reachable :: "guard_settings \<Rightarrow> fetcher \<Rightarrow> bool" for cfg where
  start: "reachable cfg \<lparr>clock = t, pinned = []\<rparr>"
| next_step: "reachable cfg st \<Longrightarrow> step cfg st st' \<Longrightarrow> reachable cfg st'"

definition pins_ok :: "fetcher \<Rightarrow> bool" where
  "pins_ok st = (\<forall>(h, d, as) \<in> set (pinned st). (\<forall>a \<in> set as. is_public_address a) \<and> d \<le> clock st + 300)"

lemma guard_pins:
  assumes "guard_url cfg now dns proxied url up extra ps = Inr ps'"
  shows "ps' = ps \<or> (\<exists>host as. ps' = pin now host as ps \<and> as \<noteq> [] \<and> (\<forall>a \<in> set as. is_public_address a))"
  using assms
  by (auto simp: guard_url_def list_ex_iff split: sum.splits option.splits if_splits)

lemma step_pins_ok:
  assumes "step cfg st st'" "pins_ok st"
  shows "pins_ok st'"
  using assms(1)
proof (cases rule: step.cases)
  case (tick t)
  with assms(2) show ?thesis by (fastforce simp: pins_ok_def)
next
  case (guarded dns proxied url up extra ps)
  from guard_pins [OF guarded(2)] show ?thesis
  proof
    assume "ps = pinned st"
    with guarded assms(2) show ?thesis by (simp add: pins_ok_def)
  next
    assume "\<exists>host as. ps = pin (clock st) host as (pinned st) \<and> as \<noteq> [] \<and> (\<forall>a \<in> set as. is_public_address a)"
    then obtain host as where "ps = pin (clock st) host as (pinned st)" "\<forall>a \<in> set as. is_public_address a" by blast
    with guarded assms(2) show ?thesis
      by (auto simp: pins_ok_def dest!: pin_set)
  qed
qed

lemma reachable_pins_ok: "reachable cfg st \<Longrightarrow> pins_ok st"
  by (induction rule: reachable.induct) (auto intro: step_pins_ok, simp add: pins_ok_def)

lemma connect_pinned:
  assumes "connect_tcp True now ps host = Inr as"
  shows "\<exists>d. (py_lower host, d, as) \<in> set ps \<and> now \<le> d"
  using assms by (auto simp: connect_tcp_def not_less split: option.splits if_splits dest!: map_of_SomeD)

subsection \<open>Addresses\<close>

lemma ucast_or_push: "ucast (push_bit 32 c OR ucast w :: 128 word) = (w :: 32 word)"
  by (rule bit_word_eqI) (auto simp: bit_simps)

lemma mapped_word: "ipv4_mapped (push_bit 32 0xFFFF OR ucast w) = Some w"
proof -
  have "drop_bit 32 (push_bit 32 0xFFFF OR ucast w :: 128 word) = 0xFFFF"
    by (rule bit_word_eqI) (auto simp: bit_simps dest: bit_imp_le_length)
  then show ?thesis unfolding ipv4_mapped_def by (simp only: ucast_or_push if_True refl)
qed

lemma in_net_div:
  fixes w :: "32 word"
  shows "in_net w (n, l) \<longleftrightarrow> unat w div 2 ^ (32 - l) = unat n div 2 ^ (32 - l)"
proof -
  have d: "unat (drop_bit k x) = unat x div 2 ^ k" for k and x :: "32 word"
    by (subst unat_drop_bit_eq) (rule drop_bit_eq_div)
  have "(drop_bit k w = drop_bit k n) = (unat (drop_bit k w) = unat (drop_bit k n))" for k
    by (simp only: word_unat_eq_iff)
  then show ?thesis unfolding in_net_def d by simp
qed

text \<open>The networks an internal service lives in, as ranges of the address value.\<close>

definition internal_v4 :: "nat \<Rightarrow> bool" where
  "internal_v4 n = (n div 2 ^ 24 \<in> {0, 10, 127} \<or> n div 2 ^ 20 = 0xAC1 \<or> n div 2 ^ 16 \<in> {0xC0A8, 0xA9FE}
     \<or> n div 2 ^ 22 = 0x191 \<or> 224 \<le> n div 2 ^ 24)"

lemma public_not_internal:
  fixes w :: "32 word"
  assumes "public_v4 w"
  shows "\<not> internal_v4 (unat w)"
proof
  assume i: "internal_v4 (unat w)"
  have lt: "unat w < 2 ^ 32" using unsigned_less [of w, where 'a = nat] by simp
  have e: "in_net w (0, 8) = (unat w div 2 ^ 24 = 0)" "in_net w (0x0A000000, 8) = (unat w div 2 ^ 24 = 10)"
    "in_net w (0x7F000000, 8) = (unat w div 2 ^ 24 = 127)" "in_net w (0xAC100000, 12) = (unat w div 2 ^ 20 = 0xAC1)"
    "in_net w (0xC0A80000, 16) = (unat w div 2 ^ 16 = 0xC0A8)" "in_net w (0xA9FE0000, 16) = (unat w div 2 ^ 16 = 0xA9FE)"
    "in_net w (0x64400000, 10) = (unat w div 2 ^ 22 = 0x191)" "in_net w (0xE0000000, 4) = (unat w div 2 ^ 28 = 14)"
    "in_net w (0xF0000000, 4) = (unat w div 2 ^ 28 = 15)"
    "in_net w (0xC0000009, 32) = (unat w = 0xC0000009)" "in_net w (0xC000000A, 32) = (unat w = 0xC000000A)"
    by (simp_all add: in_net_div)
  have h: "unat w div 2 ^ 28 \<in> {14, 15}" if "224 \<le> unat w div 2 ^ 24"
    using that lt by auto
  have "blocked_v4 w \<or> in_net w (0x64400000, 10)"
    using i h unfolding internal_v4_def blocked_v4_def private_v4_def private_v4_exceptions_def
    by (auto simp: e)
  with assms show False by (simp add: public_v4_def EXTRA_BLOCKED_NETWORKS_def)
qed

subsection \<open>The properties\<close>

text \<open>
  No connection to an unapproved or internal address. In every state reached by guarding URLs
  and letting time pass, when a pin is required, a connection to a host goes only to addresses that
  parse as public ones and that a guard pinned for that host at most 300 seconds ago; whatever the
  resolver answers in between plays no part.
\<close>

theorem connections_are_public:
  assumes "reachable cfg st" "connect_tcp True (clock st) (pinned st) host = Inr addresses"
  shows "list_all is_public_address addresses \<and>
    (\<exists>deadline. (py_lower host, deadline, addresses) \<in> set (pinned st) \<and>
      clock st \<le> deadline \<and> deadline \<le> clock st + 300)"
proof -
  from connect_pinned [OF assms(2)] obtain d where d: "(py_lower host, d, addresses) \<in> set (pinned st)" "clock st \<le> d"
    by blast
  with reachable_pins_ok [OF assms(1)] show ?thesis by (fastforce simp: pins_ok_def list_all_iff)
qed

definition sample_guard :: guard_settings where
  "sample_guard = \<lparr>allow_plaintext_http = False, allow_private_addresses = False, artifact_host_allowlist = []\<rparr>"

lemma sample_public: "is_public_address ''93.184.216.34''"
proof -
  have "parse_v4 ''93.184.216.34'' = Some 0x5DB8D822"
    by (simp add: parse_v4_def octet_def is_digit_def nat_of_digits_def digit_val_def)
  moreover have "public_v4 0x5DB8D822"
    by (simp add: public_v4_def blocked_v4_def private_v4_def private_v4_exceptions_def
        EXTRA_BLOCKED_NETWORKS_def in_net_div)
  ultimately show ?thesis by (simp add: is_public_address_def ip_address_def is_public_ip_def)
qed

lemma sample_guarded:
  "guard_url sample_guard 0 (Some [''93.184.216.34'']) False ''https://files.corp/a.tgz'' (Some ''https://Files.corp'') [] []
    = Inr [(''files.corp'', 300, [''93.184.216.34''])]"
proof -
  have shape: "check_url_shape sample_guard ''https://files.corp/a.tgz'' (Some ''https://Files.corp'') [] = Inr ''files.corp''"
    by code_simp
  have "parse_v4 ''files.corp'' = None" by (simp add: parse_v4_def octet_def is_digit_def)
  moreover have "parse_v6 ''files.corp'' = None" by (simp add: parse_v6_def py_partition_def)
  ultimately have lit: "literal ''files.corp'' = None" by (simp add: literal_def ip_address_def)
  have "url_port ''https://files.corp/a.tgz'' = Some None" by code_simp
  with shape lit sample_public show ?thesis
    by (simp add: guard_url_def sample_guard_def pin_def py_lower_def lower_char_def)
qed

theorem connections_are_public_witness:
  "list_all is_public_address [''93.184.216.34'']"
proof -
  let ?ps = "[(''files.corp'', 300, [''93.184.216.34''])]"
  have "reachable sample_guard \<lparr>clock = 0, pinned = []\<rparr>" by (rule start)
  then have r: "reachable sample_guard \<lparr>clock = 0, pinned = ?ps\<rparr>"
    by (rule next_step) (use step.guarded [of sample_guard "\<lparr>clock = 0, pinned = []\<rparr>"] sample_guarded in force)
  have "connect_tcp True (clock \<lparr>clock = 0, pinned = ?ps\<rparr>) (pinned \<lparr>clock = 0, pinned = ?ps\<rparr>) ''FILES.corp''
      = Inr [''93.184.216.34'']"
    by code_simp
  from connections_are_public [OF r this] show ?thesis by blast
qed

text \<open>
  What counts as public. No IPv4 address in this-network, loopback, RFC 1918, link-local,
  carrier-grade NAT, multicast or reserved space is public, and an IPv4-mapped IPv6 address is
  judged as the IPv4 address it carries.
\<close>

theorem public_addresses:
  "\<not> (is_public_ip (V4 w) \<and> internal_v4 (unat w)) \<and>
   is_public_ip (V6 (push_bit 32 0xFFFF OR ucast w)) = is_public_ip (V4 w)"
proof
  show "\<not> (is_public_ip (V4 w) \<and> internal_v4 (unat w))"
    using public_not_internal [of w] by (auto simp: is_public_ip_def)
  show "is_public_ip (V6 (push_bit 32 0xFFFF OR ucast w)) = is_public_ip (V4 w)"
    unfolding is_public_ip_def ip.case mapped_word option.case ..
qed

end
