(* ===== verification/Upstream_Http.thy ===== *)
theory Upstream_Http
  imports Netguard Complex_Main
begin

section \<open>Requests to an upstream (\<open>upstreams/base.py\<close>)\<close>

text \<open>
  Credentials, redirects followed by hand, the retry loop, the limit on what is read, and link
  templates. The network is a function \<open>send\<close> from a URL and headers to a response (\<open>None\<close> for a
  transport error) and \<open>join\<close> is the URL library's resolution of a \<open>Location\<close>. What a function
  sent is returned with its result as a trace.
\<close>

type_synonym headers = "(string \<times> string) list"

text \<open>\<open>d[k] = v\<close> and \<open>{**a, **b}\<close> on insertion-ordered dicts.\<close>

fun dict_put :: "'k \<Rightarrow> 'v \<Rightarrow> ('k \<times> 'v) list \<Rightarrow> ('k \<times> 'v) list" where
  "dict_put k v [] = [(k, v)]"
| "dict_put k v ((k', w) # d) = (if k' = k then (k, v) # d else (k', w) # dict_put k v d)"

definition dict_update :: "('k \<times> 'v) list \<Rightarrow> ('k \<times> 'v) list \<Rightarrow> ('k \<times> 'v) list" where
  "dict_update a b = foldl (\<lambda>d (k, v). dict_put k v d) a b"

subsection \<open>Credentials\<close>

definition utf8 :: "string \<Rightarrow> nat list" where
  "utf8 s = concat (map (\<lambda>c. let n = (of_char c :: nat) in
     if n < 128 then [n] else [192 + n div 64, 128 + n mod 64]) s)"

definition b64_digit :: "nat \<Rightarrow> char" where
  "b64_digit n = ''ABCDEFGHIJKLMNOPQRSTUVWXYZabcdefghijklmnopqrstuvwxyz0123456789+/'' ! n"

fun b64 :: "nat list \<Rightarrow> string" where
  "b64 [] = []"
| "b64 [a] = [b64_digit (a div 4), b64_digit (a mod 4 * 16), CHR ''='', CHR ''='']"
| "b64 [a, b] = [b64_digit (a div 4), b64_digit (a mod 4 * 16 + b div 16), b64_digit (b mod 16 * 4), CHR ''='']"
| "b64 (a # b # c # s) = b64_digit (a div 4) # b64_digit (a mod 4 * 16 + b div 16)
     # b64_digit (b mod 16 * 4 + c div 64) # b64_digit (c mod 64) # b64 s"

record upstream_auth =
  base :: string
  secret :: "string option"
  auth_type :: "string option"
  auth_header_name :: "string option"

definition present :: "string option \<Rightarrow> bool" where
  "present v = (v \<noteq> None \<and> v \<noteq> Some [])"

definition auth_headers :: "upstream_auth \<Rightarrow> headers" where
  \<comment> \<open>\<open>secret\<close> is what \<open>decrypt_credential\<close> returns\<close>
  "auth_headers u = (if \<not> present (secret u) then []
     else (let s = the (secret u);
       t = py_lower (if present (auth_type u) then the (auth_type u) else ''none'')
       in if t = ''bearer'' then [(''authorization'', ''Bearer '' @ s)]
          else if t = ''basic'' then [(''authorization'', ''Basic '' @ b64 (utf8 s))]
          else if t = ''token_header'' then
            [(if present (auth_header_name u) then the (auth_header_name u) else ''PRIVATE-TOKEN'', s)]
          else []))"

subsection \<open>Reading a body\<close>

record response =
  status :: nat
  location :: "string option"
  retry_after :: "rat option"
  content_length :: "string option"
  chunks :: "nat list"

datatype http_error = Refused | NoLocation | TooManyRedirects | TooLarge | BadUrlPort | Transport | RateLimited | Exhausted

text \<open>The sizes of the parts kept while reading; \<open>None\<close> once the limit is passed.\<close>

fun read_chunks :: "nat \<Rightarrow> nat \<Rightarrow> nat list \<Rightarrow> nat list \<Rightarrow> nat list option" where
  "read_chunks limit tot parts [] = Some parts"
| "read_chunks limit tot parts (c # cs) =
     (if limit \<noteq> 0 \<and> limit < tot + c then None
      else read_chunks limit (tot + c) (parts @ [c]) cs)"

definition read_limited :: "nat \<Rightarrow> response \<Rightarrow> http_error + nat list" where
  "read_limited limit resp =
     (if limit \<noteq> 0 \<and> (case content_length resp of None \<Rightarrow> False
           | Some d \<Rightarrow> d \<noteq> [] \<and> list_all is_digit d \<and> limit < nat_of_digits d) then Inl TooLarge
      else (case read_chunks limit 0 [] (chunks resp) of None \<Rightarrow> Inl TooLarge | Some ps \<Rightarrow> Inr ps))"

definition check_body_size :: "nat \<Rightarrow> nat list \<Rightarrow> bool" where
  "check_body_size limit parts = (\<not> (limit \<noteq> 0 \<and> limit < sum_list parts))"

subsection \<open>Redirects\<close>

definition MAX_REDIRECTS :: nat where
  "MAX_REDIRECTS = 5"

definition REDIRECT_STATUSES :: "nat set" where
  "REDIRECT_STATUSES = {301, 302, 303, 307, 308}"

type_synonym network = "string \<Rightarrow> headers \<Rightarrow> response option"
type_synonym trace = "(string \<times> headers \<times> pins) list"

text \<open>
  What a request depends on beside its arguments: the guard's settings, the clock, the resolver's
  answer and the environment's proxies. A hop is checked and pinned before it is taken; the trace
  holds, for each request sent, the URL, the headers and the pins in force.
\<close>

record environment =
  guarding :: guard_settings
  time_now :: int
  dns :: "string \<Rightarrow> string list option"
  proxied :: "string \<Rightarrow> bool"
  join :: "string \<Rightarrow> string \<Rightarrow> string"
  metadata_limit :: nat

definition guard_hop :: "environment \<Rightarrow> upstream_auth \<Rightarrow> string option \<Rightarrow> string \<Rightarrow> pins \<Rightarrow> pins option" where
  "guard_hop env u trusted url ps =
     (case guard_url (guarding env) (time_now env) (dns env (host_of url)) (proxied env url) url (Some (base u))
            (case trusted of None \<Rightarrow> [] | Some t \<Rightarrow> if t = [] then [] else [host_of t]) ps of
        Inl e \<Rightarrow> None | Inr ps' \<Rightarrow> Some ps')"

fun follow ::
  "environment \<Rightarrow> upstream_auth \<Rightarrow> network \<Rightarrow> string \<Rightarrow> string \<Rightarrow> headers \<Rightarrow>
   nat \<Rightarrow> string \<Rightarrow> headers \<Rightarrow> pins \<Rightarrow> trace \<times> (http_error + response)" where
  "follow env u send meth url plain 0 current h ps = ([], Inl TooManyRedirects)"
| "follow env u send meth url plain (Suc n) current h ps = (case guard_hop env u (Some url) current ps of
     None \<Rightarrow> ([], Inl Refused)
   | Some ps' \<Rightarrow>
       (case send current h of
          None \<Rightarrow> ([(current, h, ps')], Inl Transport)
        | Some resp \<Rightarrow>
            if status resp \<notin> REDIRECT_STATUSES \<or> py_upper meth \<notin> {''GET'', ''HEAD''} then
              ([(current, h, ps')],
               (case read_limited (metadata_limit env) resp of Inl e \<Rightarrow> Inl e | Inr _ \<Rightarrow> Inr resp))
            else if \<not> present (location resp) then ([(current, h, ps')], Inl NoLocation)
            else (let current' = join env current (the (location resp)) in
              case same_origin current' url of
                None \<Rightarrow> ([(current, h, ps')], Inl BadUrlPort)
              | Some same \<Rightarrow>
                  (case follow env u send meth url plain n current' (if same then h else plain) ps' of
                    (t, r) \<Rightarrow> ((current, h, ps') # t, r)))))"

definition request_following ::
  "environment \<Rightarrow> upstream_auth \<Rightarrow> network \<Rightarrow> string \<Rightarrow> string \<Rightarrow> headers \<Rightarrow> headers \<Rightarrow> pins \<Rightarrow>
   trace \<times> (http_error + response)" where
  "request_following env u send meth url plain merged ps =
     follow env u send meth url plain (MAX_REDIRECTS + 1) url merged ps"

text \<open>A streamed artifact: its URL comes from upstream metadata.\<close>

fun stream_hops ::
  "environment \<Rightarrow> upstream_auth \<Rightarrow> network \<Rightarrow> headers \<Rightarrow>
   nat \<Rightarrow> string \<Rightarrow> headers \<Rightarrow> pins \<Rightarrow> trace \<times> (http_error + response)" where
  "stream_hops env u send plain 0 current h ps = ([], Inl TooManyRedirects)"
| "stream_hops env u send plain (Suc n) current h ps = (case guard_hop env u None current ps of
     None \<Rightarrow> ([], Inl Refused)
   | Some ps' \<Rightarrow>
       (case send current h of
          None \<Rightarrow> ([(current, h, ps')], Inl Transport)
        | Some resp \<Rightarrow>
            if status resp \<notin> REDIRECT_STATUSES then ([(current, h, ps')], Inr resp)
            else if \<not> present (location resp) then ([(current, h, ps')], Inl NoLocation)
            else (let current' = join env current (the (location resp)) in
              case same_origin current' (base u) of
                None \<Rightarrow> ([(current, h, ps')], Inl BadUrlPort)
              | Some same \<Rightarrow>
                  (case stream_hops env u send plain n current' (if same then h else plain) ps' of
                    (t, r) \<Rightarrow> ((current, h, ps') # t, r)))))"

definition stream ::
  "environment \<Rightarrow> upstream_auth \<Rightarrow> network \<Rightarrow> string \<Rightarrow> headers \<Rightarrow> pins \<Rightarrow> trace \<times> (http_error + response)" where
  "stream env u send url plain ps = (case same_origin url (base u) of
     None \<Rightarrow> ([], Inl BadUrlPort)
   | Some same \<Rightarrow> stream_hops env u send plain MAX_REDIRECTS url
       (if same then dict_update plain (auth_headers u) else plain) ps)"

subsection \<open>Retries\<close>

text \<open>\<open>outcome i\<close> is what the \<open>i\<close>-th attempt comes to; the number of attempts made is returned too.\<close>

definition MAX_RETRY_AFTER_WAIT :: rat where
  "MAX_RETRY_AFTER_WAIT = 5"

fun request_loop :: "(nat \<Rightarrow> http_error + response) \<Rightarrow> nat \<Rightarrow> nat \<Rightarrow> http_error \<Rightarrow> (http_error + response) \<times> nat" where
  "request_loop outcome 0 attempt last_error = (Inl last_error, attempt)"
| "request_loop outcome (Suc n) attempt last_error = (case outcome attempt of
     Inl e \<Rightarrow>
       if e = Transport \<and> 0 < n then request_loop outcome n (attempt + 1) Transport
       else (Inl e, attempt + 1)
   | Inr resp \<Rightarrow>
       if status resp = 429 then
         (if attempt = 0 \<and> (case retry_after resp of None \<Rightarrow> False | Some d \<Rightarrow> d \<le> MAX_RETRY_AFTER_WAIT)
          then request_loop outcome n (attempt + 1) RateLimited
          else (Inr resp, attempt + 1))
       else if 500 \<le> status resp \<and> 0 < n then request_loop outcome n (attempt + 1) Exhausted
       else (Inr resp, attempt + 1))"

definition request_attempts :: "(nat \<Rightarrow> http_error + response) \<Rightarrow> nat \<Rightarrow> (http_error + response) \<times> nat" where
  "request_attempts outcome retries = request_loop outcome (retries + 1) 0 Exhausted"

definition merged_headers :: "upstream_auth \<Rightarrow> headers \<Rightarrow> headers" where
  "merged_headers u plain = dict_update (auth_headers u) plain"

text \<open>The whole call: the network may answer each attempt differently.\<close>

definition request ::
  "environment \<Rightarrow> upstream_auth \<Rightarrow> (nat \<Rightarrow> network) \<Rightarrow> nat \<Rightarrow> string \<Rightarrow> string \<Rightarrow> headers \<Rightarrow> pins \<Rightarrow>
   (http_error + response) \<times> nat" where
  "request env u send retries meth url plain ps =
     request_attempts (\<lambda>i. snd (request_following env u (send i) meth url plain (merged_headers u plain) ps)) retries"

subsection \<open>Link templates\<close>

definition not_brace :: "char \<Rightarrow> bool" where
  "not_brace c = (c \<notin> {CHR ''{'', CHR ''}''})"

lemma tl_dropWhile_le: "length (dropWhile P t) - Suc 0 \<le> length t"
  using length_dropWhile_le [of P t] by simp

function render_url_template :: "(string \<times> string) list \<Rightarrow> string \<Rightarrow> string option" where
  "render_url_template values s = (case s of
     [] \<Rightarrow> Some []
   | c # t \<Rightarrow>
       if c = CHR ''{'' \<and> t \<noteq> [] \<and> hd t = CHR ''{'' then
         map_option (Cons (CHR ''{'')) (render_url_template values (tl t))
       else if c = CHR ''}'' \<and> t \<noteq> [] \<and> hd t = CHR ''}'' then
         map_option (Cons (CHR ''}'')) (render_url_template values (tl t))
       else if c = CHR ''{'' then
         (if dropWhile not_brace t \<noteq> [] \<and> hd (dropWhile not_brace t) = CHR ''}'' then
            (case map_of values (takeWhile not_brace t) of
               None \<Rightarrow> None
             | Some v \<Rightarrow> map_option (\<lambda>r. v @ r) (render_url_template values (tl (dropWhile not_brace t))))
          else None)
       else if c = CHR ''}'' then None
       else map_option (Cons c) (render_url_template values t))"
  by pat_completeness auto
termination
  by (relation "measure (\<lambda>(values, s). length s)") (auto simp: less_Suc_eq_le simp del: dropWhile_eq_Nil_conv intro: tl_dropWhile_le)

declare render_url_template.simps [simp del]

end
