(* ===== verification/Upstream_Http_Spec.thy ===== *)
theory Upstream_Http_Spec
  imports Upstream_Http Netguard_Spec
begin

section \<open>What talking to an upstream promises\<close>

text \<open>
  Both redirect loops are walks that guard each hop and drop the credential once they leave home;
  the locale proves what such a walk sends, and is interpreted on the two loops. Then the retry
  bound, the size limit and the templates.
\<close>

subsection \<open>Walks\<close>

locale redirect_walk =
  fixes walk :: "nat \<Rightarrow> string \<Rightarrow> headers \<Rightarrow> pins \<Rightarrow> trace"
    and hop :: "string \<Rightarrow> pins \<Rightarrow> pins option"
    and home :: "string \<Rightarrow> bool"
    and plain :: headers
  assumes walk_zero: "walk 0 cur h ps = []"
    and walk_step: "walk (Suc n) cur h ps = [] \<or> (\<exists>ps'. hop cur ps = Some ps' \<and>
      (walk (Suc n) cur h ps = [(cur, h, ps')] \<or>
       (\<exists>cur' h'. walk (Suc n) cur h ps = (cur, h, ps') # walk n cur' h' ps' \<and> (home cur' \<and> h' = h \<or> h' = plain))))"
begin

lemma walk_length: "length (walk n cur h ps) \<le> n"
proof (induction n arbitrary: cur h ps)
  case 0
  show ?case by (simp add: walk_zero)
next
  case (Suc n)
  from walk_step [of n cur h ps] Suc.IH show ?case by fastforce
qed

lemma walk_guarded: "list_all (\<lambda>(c, h', ps'). \<exists>ps0. hop c ps0 = Some ps') (walk n cur h ps)"
proof (induction n arbitrary: cur h ps)
  case 0
  show ?case by (simp add: walk_zero)
next
  case (Suc n)
  from walk_step [of n cur h ps] Suc.IH show ?case by fastforce
qed

lemma walk_plain: "list_all (\<lambda>(c, h', ps'). h' = plain) (walk n cur plain ps)"
proof (induction n arbitrary: cur ps)
  case 0
  show ?case by (simp add: walk_zero)
next
  case (Suc n)
  from walk_step [of n cur plain ps] Suc.IH show ?case by fastforce
qed

lemma walk_credentials:
  "\<exists>k. list_all (\<lambda>(c, h', ps'). h' = h \<and> (c = cur \<or> home c)) (take k (walk n cur h ps)) \<and>
       list_all (\<lambda>(c, h', ps'). h' = plain) (drop k (walk n cur h ps))"
proof (induction n arbitrary: cur ps)
  case 0
  show ?case by (simp add: walk_zero)
next
  case (Suc n)
  from walk_step [of n cur h ps] consider
      (short) ps' where "walk (Suc n) cur h ps = [] \<or> walk (Suc n) cur h ps = [(cur, h, ps')]"
    | (at_home) ps' cur' where "walk (Suc n) cur h ps = (cur, h, ps') # walk n cur' h ps'" "home cur'"
    | (left) ps' cur' where "walk (Suc n) cur h ps = (cur, h, ps') # walk n cur' plain ps'"
    by blast
  then show ?case
  proof cases
    case short
    then show ?thesis by (intro exI [of _ 1]) auto
  next
    case at_home
    from Suc.IH [of cur' ps'] obtain k where
      "list_all (\<lambda>(c, h', ps'). h' = h \<and> (c = cur' \<or> home c)) (take k (walk n cur' h ps'))"
      "list_all (\<lambda>(c, h', ps'). h' = plain) (drop k (walk n cur' h ps'))" by blast
    with at_home show ?thesis by (intro exI [of _ "Suc k"]) (auto simp: list_all_iff)
  next
    case left
    with walk_plain [of n cur' ps'] show ?thesis by (intro exI [of _ 1]) auto
  qed
qed

end

lemma follow_step:
  "fst (follow env u send meth url plain (Suc n) cur h ps) = [] \<or> (\<exists>ps'. guard_hop env u (Some url) cur ps = Some ps' \<and>
    (fst (follow env u send meth url plain (Suc n) cur h ps) = [(cur, h, ps')] \<or>
     (\<exists>cur' h'. fst (follow env u send meth url plain (Suc n) cur h ps)
         = (cur, h, ps') # fst (follow env u send meth url plain n cur' h' ps') \<and>
       (same_origin cur' url = Some True \<and> h' = h \<or> h' = plain))))"
proof (cases "guard_hop env u (Some url) cur ps")
  case (Some ps')
  note g = Some
  show ?thesis
  proof (cases "send cur h")
    case (Some resp)
    define c' where "c' = join env cur (the (location resp))"
    show ?thesis
      using g Some
      by (cases "same_origin c' url"; cases "the (same_origin c' url)")
         (auto simp: Let_def split_beta c'_def [symmetric])
  qed (use g in auto)
qed auto

lemma stream_step:
  "fst (stream_hops env u send plain (Suc n) cur h ps) = [] \<or> (\<exists>ps'. guard_hop env u None cur ps = Some ps' \<and>
    (fst (stream_hops env u send plain (Suc n) cur h ps) = [(cur, h, ps')] \<or>
     (\<exists>cur' h'. fst (stream_hops env u send plain (Suc n) cur h ps)
         = (cur, h, ps') # fst (stream_hops env u send plain n cur' h' ps') \<and>
       (same_origin cur' (base u) = Some True \<and> h' = h \<or> h' = plain))))"
proof (cases "guard_hop env u None cur ps")
  case (Some ps')
  note g = Some
  show ?thesis
  proof (cases "send cur h")
    case (Some resp)
    define c' where "c' = join env cur (the (location resp))"
    show ?thesis
      using g Some
      by (cases "same_origin c' (base u)"; cases "the (same_origin c' (base u))")
         (auto simp: Let_def split_beta c'_def [symmetric])
  qed (use g in auto)
qed auto

interpretation metadata: redirect_walk
  "\<lambda>n cur h ps. fst (follow env u send meth url plain n cur h ps)"
  "guard_hop env u (Some url)" "\<lambda>c. same_origin c url = Some True" plain
  for env u send meth url plain
  by unfold_locales (simp, rule follow_step)

interpretation artifact: redirect_walk
  "\<lambda>n cur h ps. fst (stream_hops env u send plain n cur h ps)"
  "guard_hop env u None" "\<lambda>c. same_origin c (base u) = Some True" plain
  for env u send plain
  by unfold_locales (simp, rule stream_step)

subsection \<open>Where a guarded hop connects\<close>

lemma map_of_put_pin_filter:
  "now < d \<Longrightarrow> map_of (filter (\<lambda>(h, deadline, _). now < deadline) (put_pin k (d, as) ps)) k = Some (d, as)"
proof (induction ps)
  case (Cons p ps)
  then show ?case by (cases p) auto
qed auto

lemma connect_after_pin: "connect_tcp True now (pin now host as ps) host = Inr as"
  using map_of_put_pin_filter [of now "now + 300" "py_lower host" as ps]
  by (simp add: connect_tcp_def pin_def Let_def put_pin_lookup)

lemma guard_pins_host:
  assumes "guard_url cfg now d False url up extra ps = Inr ps'" "\<not> allow_private_addresses cfg"
  shows "\<exists>as. as \<noteq> [] \<and> list_all is_public_address as \<and> connect_tcp True now ps' (host_of url) = Inr as"
proof -
  from assms obtain as where
    "ps' = pin now (host_of url) as ps" "as \<noteq> []" "list_all is_public_address as"
    by (auto simp: guard_url_def check_url_shape_def Let_def list_ex_iff list_all_iff
        split: sum.splits option.splits if_splits)
  then show ?thesis by (auto simp: connect_after_pin)
qed

definition hop_is_public :: "environment \<Rightarrow> string \<times> headers \<times> pins \<Rightarrow> bool" where
  \<comment> \<open>the backend connects this hop to approved public addresses only\<close>
  "hop_is_public env = (\<lambda>(c, h, ps). case connect_tcp True (time_now env) ps (host_of c) of
     Inl e \<Rightarrow> False | Inr as \<Rightarrow> as \<noteq> [] \<and> list_all is_public_address as)"

lemma guarded_public:
  assumes "guard_hop env u trusted c ps0 = Some ps" "\<not> allow_private_addresses (guarding env)" "\<not> proxied env c"
  shows "hop_is_public env (c, h, ps)"
proof -
  from assms have "\<exists>as. as \<noteq> [] \<and> list_all is_public_address as \<and>
      connect_tcp True (time_now env) ps (host_of c) = Inr as"
    by (intro guard_pins_host) (auto simp: guard_hop_def split: sum.splits)
  then show ?thesis by (auto simp: hop_is_public_def)
qed

lemma guarded_admitted:
  assumes "guard_hop env u trusted c ps0 = Some ps"
  shows "host_of c \<in> set (artifact_host_allowlist (guarding env)) \<union> {host_of (base u)}
      \<union> (case trusted of None \<Rightarrow> {} | Some t \<Rightarrow> {py_lower (host_of t)})"
  using assms
  by (auto simp: guard_hop_def guard_url_def check_url_shape_def Let_def
      split: sum.splits option.splits if_splits)

subsection \<open>Properties of requests\<close>

text \<open>
  A metadata request leaks no credential. It sends at most six requests; a prefix of them
  carries the merged headers, each to the URL asked for or an address of the same origin, and every
  later one carries only the caller's plain headers: once a redirect leaves the origin the
  credential is gone for good.
\<close>

theorem metadata_credentials:
  "length (fst (request_following env u send meth url plain merged ps)) \<le> 6 \<and>
   (\<exists>k. list_all (\<lambda>(c, h, ps'). h = merged \<and> (c = url \<or> same_origin c url = Some True))
          (take k (fst (request_following env u send meth url plain merged ps))) \<and>
        list_all (\<lambda>(c, h, ps'). h = plain)
          (drop k (fst (request_following env u send meth url plain merged ps))))"
proof
  show "length (fst (request_following env u send meth url plain merged ps)) \<le> 6"
    using metadata.walk_length [of env u send meth url plain 6 url merged ps]
    by (simp add: request_following_def MAX_REDIRECTS_def del: follow.simps)
qed (unfold request_following_def, rule metadata.walk_credentials)

text \<open>
  C38: an artifact download gives the credential to nobody but the upstream. Of the at most five
  requests sent, those that carry more than the caller's plain headers go to the upstream's own
  origin, whatever URL its metadata named and wherever it redirects.
\<close>

theorem artifact_credentials:
  "length (fst (stream env u send url plain ps)) \<le> 5 \<and>
   list_all (\<lambda>(c, h, ps'). h = plain \<or>
       h = dict_update plain (auth_headers u) \<and> same_origin c (base u) = Some True)
     (fst (stream env u send url plain ps))"
proof (cases "same_origin url (base u)")
  case None
  then show ?thesis by (simp add: stream_def)
next
  case (Some same)
  define h where "h = (if same then dict_update plain (auth_headers u) else plain)"
  define t where "t = fst (stream_hops env u send plain MAX_REDIRECTS url h ps)"
  have t: "fst (stream env u send url plain ps) = t" using Some by (simp add: stream_def t_def h_def)
  have "length t \<le> 5"
    using artifact.walk_length [of env u send plain MAX_REDIRECTS url h ps] by (simp add: t_def MAX_REDIRECTS_def)
  moreover obtain k where
    k: "list_all (\<lambda>(c, h', ps'). h' = h \<and> (c = url \<or> same_origin c (base u) = Some True)) (take k t)"
       "list_all (\<lambda>(c, h', ps'). h' = plain) (drop k t)"
    unfolding t_def using artifact.walk_credentials [of h url u env send plain MAX_REDIRECTS ps] by blast
  let ?ok = "\<lambda>(c, h', ps'). h' = plain \<or>
    h' = dict_update plain (auth_headers u) \<and> same_origin c (base u) = Some True"
  from k Some have "list_all ?ok (take k t) \<and> list_all ?ok (drop k t)"
    by (auto simp: list_all_iff h_def split: if_splits)
  then have "list_all ?ok (take k t @ drop k t)" by (simp only: list_all_append)
  then have "list_all ?ok t" by simp
  ultimately show ?thesis by (simp add: t)
qed

text \<open>
  C3: neither call can be sent to an internal service. Every request of either, redirected ones
  included, goes to a host the operator configured (the allowlist, the upstream, for a metadata
  request the URL's own host), and unless private addresses are allowed or a proxy connects in its
  place, the pins then in force make the backend connect to public addresses that were approved for
  that host.
\<close>

theorem requests_stay_public:
  "list_all (\<lambda>hop. host_of (fst hop) \<in> set (artifact_host_allowlist (guarding env)) \<union> {host_of (base u), py_lower (host_of url)} \<and>
       (allow_private_addresses (guarding env) \<or> proxied env (fst hop) \<or> hop_is_public env hop))
     (fst (request_following env u send meth url plain merged ps)) \<and>
   list_all (\<lambda>hop. host_of (fst hop) \<in> set (artifact_host_allowlist (guarding env)) \<union> {host_of (base u)} \<and>
       (allow_private_addresses (guarding env) \<or> proxied env (fst hop) \<or> hop_is_public env hop))
     (fst (stream env u send url plain ps))"
proof
  let ?t = "fst (request_following env u send meth url plain merged ps)"
  have "list_all (\<lambda>(c, h', ps'). \<exists>ps0. guard_hop env u (Some url) c ps0 = Some ps') ?t"
    unfolding request_following_def by (rule metadata.walk_guarded)
  then show "list_all (\<lambda>hop. host_of (fst hop) \<in> set (artifact_host_allowlist (guarding env)) \<union> {host_of (base u), py_lower (host_of url)} \<and>
       (allow_private_addresses (guarding env) \<or> proxied env (fst hop) \<or> hop_is_public env hop)) ?t"
    by (rule list.pred_mono_strong) (auto dest: guarded_public guarded_admitted)
next
  let ?t = "fst (stream env u send url plain ps)"
  have "list_all (\<lambda>(c, h', ps'). \<exists>ps0. guard_hop env u None c ps0 = Some ps') ?t"
    using artifact.walk_guarded by (auto simp: stream_def split: option.splits)
  then show "list_all (\<lambda>hop. host_of (fst hop) \<in> set (artifact_host_allowlist (guarding env)) \<union> {host_of (base u)} \<and>
       (allow_private_addresses (guarding env) \<or> proxied env (fst hop) \<or> hop_is_public env hop)) ?t"
    by (rule list.pred_mono_strong) (auto dest: guarded_public guarded_admitted)
qed

subsection \<open>Retries and sizes\<close>

lemma request_loop_bound:
  "snd (request_loop outcome n attempt e) \<le> attempt + n \<and>
   (0 < n \<longrightarrow> attempt < snd (request_loop outcome n attempt e))"
proof (induction outcome n attempt e rule: request_loop.induct)
  case (2 outcome n attempt e)
  then show ?case by (auto split: sum.splits)
qed simp

lemma request_loop_server_error:
  "fst (request_loop outcome n attempt e) = Inr resp \<Longrightarrow> 500 \<le> status resp \<Longrightarrow>
   snd (request_loop outcome n attempt e) = attempt + n"
proof (induction outcome n attempt e rule: request_loop.induct)
  case (2 outcome n attempt e)
  then show ?case by (auto split: sum.splits if_splits)
qed simp

lemma request_loop_limited:
  "0 < j \<Longrightarrow> attempt \<le> j \<Longrightarrow> j < snd (request_loop outcome n attempt e) \<Longrightarrow>
   outcome j = Inr resp \<Longrightarrow> status resp = 429 \<Longrightarrow>
   snd (request_loop outcome n attempt e) = j + 1"
proof (induction outcome n attempt e rule: request_loop.induct)
  case (2 outcome n attempt e)
  show ?case
  proof (cases "j = attempt")
    case True
    with "2.prems" show ?thesis by auto
  next
    case False
    with "2.prems" have "attempt + 1 \<le> j" by simp
    with "2.prems" "2.IH" show ?thesis by (auto split: sum.splits if_splits)
  qed
qed simp

lemma read_chunks_sum:
  "read_chunks limit tot parts cs =
    (if limit \<noteq> 0 \<and> cs \<noteq> [] \<and> limit < tot + sum_list cs \<and> (tot \<le> limit \<or> cs \<noteq> []) then None else Some (parts @ cs))"
proof (induction cs arbitrary: tot parts)
  case (Cons c cs)
  then show ?case by (cases "cs = []") auto
qed simp

text \<open>
  The retry loop. A call makes at least one and at most \<open>retries + 1\<close> attempts; a server error
  is handed back only when they are used up; and a second answer of 429 ends the call, so a
  rate-limited upstream is asked at most once more.
\<close>

theorem retries_bounded:
  "case request_attempts outcome retries of (result, attempts) \<Rightarrow>
     1 \<le> attempts \<and> attempts \<le> retries + 1 \<and>
     \<not> (\<exists>resp. result = Inr resp \<and> 500 \<le> status resp \<and> attempts \<noteq> retries + 1) \<and>
     \<not> (\<exists>j resp. 0 < j \<and> j + 1 < attempts \<and> outcome j = Inr resp \<and> status resp = 429)"
proof -
  define r where "r = request_loop outcome (retries + 1) 0 Exhausted"
  have b: "0 < snd r" "snd r \<le> retries + 1"
    using request_loop_bound [of outcome "retries + 1" 0 Exhausted] unfolding r_def by simp_all
  have s: "snd r = retries + 1" if "fst r = Inr resp" "500 \<le> status resp" for resp
    using request_loop_server_error [of outcome "retries + 1" 0 Exhausted resp] that unfolding r_def by simp
  have l: "snd r = j + 1" if "0 < j" "j + 1 < snd r" "outcome j = Inr resp" "status resp = 429" for j resp
    using request_loop_limited [of j 0 outcome "retries + 1" Exhausted resp] that unfolding r_def by simp
  have "request_attempts outcome retries = (fst r, snd r)" by (simp add: request_attempts_def r_def)
  then show ?thesis using b s l by fastforce
qed

text \<open>
  No more of a metadata body is kept than the limit. Reading succeeds exactly when neither the
  declared length nor what arrives exceeds a limit that is set, keeps every part in order, and what
  it kept then passes the later size check.
\<close>

theorem metadata_size_limit:
  "(read_limited limit resp = Inr parts) =
     (parts = chunks resp \<and> check_body_size limit parts \<and>
      \<not> (limit \<noteq> 0 \<and> (\<exists>d. content_length resp = Some d \<and> d \<noteq> [] \<and> list_all is_digit d \<and> limit < nat_of_digits d)))"
  by (auto simp: read_limited_def read_chunks_sum check_body_size_def split: option.splits if_splits)

lemma retry_zero_rate_limited:
  \<comment> \<open>with no retries a short \<open>Retry-After\<close> is waited out and then the answer is thrown away\<close>
  "request_attempts (\<lambda>i. Inr \<lparr>status = 429, location = None, retry_after = Some 1, content_length = None, chunks = []\<rparr>) 0
    = (Inl RateLimited, 1)"
  by (simp add: request_attempts_def MAX_RETRY_AFTER_WAIT_def)

subsection \<open>Templates\<close>

datatype piece = Literal string | Hole string

fun escape_braces :: "string \<Rightarrow> string" where
  "escape_braces [] = []"
| "escape_braces (c # s) = (if not_brace c then c # escape_braces s else c # c # escape_braces s)"

fun piece_text :: "piece \<Rightarrow> string" where
  "piece_text (Literal s) = escape_braces s"
| "piece_text (Hole n) = ''{'' @ n @ ''}''"

fun piece_value :: "(string \<times> string) list \<Rightarrow> piece \<Rightarrow> string option" where
  "piece_value values (Literal s) = Some s"
| "piece_value values (Hole n) = map_of values n"

definition well_named :: "piece \<Rightarrow> bool" where
  "well_named p = (case p of Literal s \<Rightarrow> True | Hole n \<Rightarrow> list_all not_brace n)"

fun pieces_value :: "(string \<times> string) list \<Rightarrow> piece list \<Rightarrow> string option" where
  "pieces_value values [] = Some []"
| "pieces_value values (p # ps) = (case piece_value values p of None \<Rightarrow> None
     | Some v \<Rightarrow> map_option (\<lambda>r. v @ r) (pieces_value values ps))"

lemma render_literal: "render_url_template values (escape_braces s @ t) = map_option (\<lambda>r. s @ r) (render_url_template values t)"
proof (induction s)
  case (Cons c s)
  then show ?case
    by (cases "c = CHR ''{''"; cases "c = CHR ''}''")
       (simp_all add: not_brace_def render_url_template.simps [of _ "_ # _"] option.map_comp comp_def)
qed (simp add: option.map_ident)

lemma render_hole:
  assumes "list_all not_brace n"
  shows "render_url_template values (''{'' @ n @ ''}'' @ t) = (case map_of values n of None \<Rightarrow> None
      | Some v \<Rightarrow> map_option (\<lambda>r. v @ r) (render_url_template values t))"
proof -
  have n: "\<forall>c \<in> set n. not_brace c" using assms by (simp add: list_all_iff)
  have h: "hd (n @ CHR ''}'' # t) \<noteq> CHR ''{''" using n by (cases n) (auto simp: not_brace_def)
  have w: "takeWhile not_brace (n @ CHR ''}'' # t) = n" "dropWhile not_brace (n @ CHR ''}'' # t) = CHR ''}'' # t"
    using n by (simp_all add: takeWhile_stop not_brace_def)
  show ?thesis
    using h by (cases "map_of values n") (simp_all add: render_url_template.simps [of _ "_ # _"] w del: dropWhile_append takeWhile_append)
qed

text \<open>
  Link templates. A template written as literal text, its braces doubled, and placeholders
  renders to exactly that text with each placeholder replaced by its value, and to nothing when one
  of them is not a documented name; values are inserted as they are, braces of theirs included.
\<close>

theorem render_template_meaning:
  assumes "list_all well_named ps"
  shows "render_url_template values (concat (map piece_text ps)) = pieces_value values ps"
  using assms
proof (induction ps)
  case Nil
  show ?case by (simp add: render_url_template.simps)
next
  case (Cons p ps)
  then show ?case
    by (cases p) (auto simp: render_literal well_named_def render_hole [simplified] split: option.splits)
qed

theorem render_template_meaning_witness:
  "render_url_template [(''name'', ''left-pad'')] ''https://x/{{{name}}}'' = Some ''https://x/{left-pad}''"
  using render_template_meaning [of "[Literal ''https://x/{'', Hole ''name'', Literal ''}'']" "[(''name'', ''left-pad'')]"]
  by (simp add: well_named_def not_brace_def)

end
