(* ===== verification/Docker_Manifest.thy ===== *)
theory Docker_Manifest
  imports Docker_Naming Py_Json
begin

section \<open>Manifests (\<open>docker/manifest.py\<close>)\<close>

text \<open>
  Parsing and classifying a manifest. \<open>parse\<close> takes the length of the body, the document
  \<open>json.loads\<close> made of it (\<open>None\<close> when it is not JSON) and the content type; the two limits of
  \<open>settings\<close> are its first arguments. Every refusal is a value of \<open>manifest_error\<close>; all but
  \<open>Unhashable\<close>, a \<open>TypeError\<close>, are the code's \<open>MANIFEST_INVALID\<close>.
\<close>

definition OCI_INDEX :: string where
  "OCI_INDEX = ''application/vnd.oci.image.index.v1+json''"

definition OCI_MANIFEST :: string where
  "OCI_MANIFEST = ''application/vnd.oci.image.manifest.v1+json''"

definition DOCKER_LIST :: string where
  "DOCKER_LIST = ''application/vnd.docker.distribution.manifest.list.v2+json''"

definition DOCKER_MANIFEST :: string where
  "DOCKER_MANIFEST = ''application/vnd.docker.distribution.manifest.v2+json''"

definition DOCKER_V1 :: "string list" where
  "DOCKER_V1 = [''application/vnd.docker.distribution.manifest.v1+json'',
     ''application/vnd.docker.distribution.manifest.v1+prettyjws'']"

definition INDEX_TYPES :: "string list" where
  "INDEX_TYPES = [OCI_INDEX, DOCKER_LIST]"

definition IMAGE_TYPES :: "string list" where
  "IMAGE_TYPES = [OCI_MANIFEST, DOCKER_MANIFEST]"

definition MANIFEST_TYPES :: "string list" where
  "MANIFEST_TYPES = INDEX_TYPES @ IMAGE_TYPES"

definition IMAGE_CONFIG_TYPES :: "string list" where
  "IMAGE_CONFIG_TYPES = [''application/vnd.oci.image.config.v1+json'', ''application/vnd.docker.container.image.v1+json'']"

definition ATTESTATION_ANNOTATION :: string where
  "ATTESTATION_ANNOTATION = ''vnd.docker.reference.type''"

datatype ref_type = Blob | Config | Child

record manifest_ref =
  mr_type :: ref_type
  mr_digest :: string
  mr_media :: "string option"
  mr_size :: int
  mr_position :: nat
  mr_platform :: "string option"
  mr_annotations :: json

datatype manifest_kind = Image | Index | Attestation | Artifact | Signature

record parsed_manifest =
  pm_media_type :: string
  pm_is_index :: bool
  pm_kind :: manifest_kind
  pm_refs :: "manifest_ref list"
  pm_config_digest :: "string option"
  pm_config_media_type :: "string option"
  pm_artifact_type :: "string option"
  pm_subject_digest :: "string option"
  pm_annotations :: json
  pm_total_size :: int
  pm_layer_count :: nat

definition scannable :: "parsed_manifest \<Rightarrow> bool" where
  "scannable p = (pm_kind p = Image)"

text \<open>An f-string's rendering of a value: exact for strings, integers, booleans and \<open>None\<close>.\<close>

fun fmt :: "json \<Rightarrow> string" where
  "fmt (JStr s) = s"
| "fmt (JInt i) = show_int i"
| "fmt (JBool b) = (if b then ''True'' else ''False'')"
| "fmt JNull = ''None''"
| "fmt (JFloat r) = show_int (fst (quotient_of r)) @ ''/'' @ show_int (snd (quotient_of r))"
| "fmt (JList xs) = ''[...]''"
| "fmt (JObj kvs) = ''{...}''"

definition platform_string :: "json \<Rightarrow> string option" where
  "platform_string p = (if \<not> is_obj p then None
     else (let os = jget p ''os''; arch = jget p ''architecture''; var = jget p ''variant'' in
       if \<not> jtruthy os \<or> \<not> jtruthy arch then None
       else Some (take 64 (fmt os @ ''/'' @ fmt arch @ (if jtruthy var then ''/'' @ fmt var else [])))))"

datatype manifest_error = BodyTooLarge | NotJson | NotObject | SchemaOne | Unhashable | UnsupportedType
  | BadSchemaVersion | NotDescriptor | BadDescriptorDigest | BadDescriptorSize | NoManifestsList
  | TooManyEntries | LayersNotList | TooManyLayers | ForeignLayer

definition descriptor :: "json \<Rightarrow> manifest_error + (string \<times> string option \<times> int)" where
  "descriptor d = (if \<not> is_obj d then Inl NotDescriptor
     else (case as_str (jget d ''digest'') of
        None \<Rightarrow> Inl BadDescriptorDigest
      | Some digest \<Rightarrow>
          if \<not> is_digest digest then Inl BadDescriptorDigest
          else (case as_int (jget d ''size'') of
              None \<Rightarrow> Inl BadDescriptorSize
            | Some sz \<Rightarrow> if sz < 0 then Inl BadDescriptorSize
                else Inr (digest, as_str (jget d ''mediaType''), sz))))"

definition annotations_of :: "json \<Rightarrow> json" where
  "annotations_of d = (if is_obj d \<and> is_obj (jget d ''annotations'') then jget d ''annotations'' else JObj [])"

fun index_refs :: "nat \<Rightarrow> json list \<Rightarrow> manifest_error + manifest_ref list" where
  "index_refs i [] = Inr []"
| "index_refs i (e # es) = sum_bind (descriptor e) (\<lambda>(digest, mt, sz).
     sum_bind (index_refs (i + 1) es) (\<lambda>rs. Inr
       (\<lparr>mr_type = Child, mr_digest = digest, mr_media = mt, mr_size = sz, mr_position = i,
         mr_platform = platform_string (jget e ''platform''), mr_annotations = annotations_of e\<rparr> # rs)))"

definition has_foreign_urls :: "json \<Rightarrow> bool" where
  "has_foreign_urls layer = (is_obj layer \<and> (case as_list (jget layer ''urls'') of None \<Rightarrow> False | Some us \<Rightarrow> us \<noteq> []))"

fun layer_refs :: "nat \<Rightarrow> json list \<Rightarrow> manifest_error + manifest_ref list" where
  "layer_refs i [] = Inr []"
| "layer_refs i (l # ls) = sum_bind (descriptor l) (\<lambda>(digest, mt, sz).
     if has_foreign_urls l then Inl ForeignLayer
     else sum_bind (layer_refs (i + 1) ls) (\<lambda>rs. Inr
       (\<lparr>mr_type = Blob, mr_digest = digest, mr_media = mt, mr_size = sz, mr_position = i + 1,
         mr_platform = None, mr_annotations = annotations_of l\<rparr> # rs)))"

definition is_substring :: "string \<Rightarrow> string \<Rightarrow> bool" where
  "is_substring p s = list_ex (\<lambda>i. starts_with (drop i s) p) [0 ..< Suc (length s)]"

definition opt_text :: "string option \<Rightarrow> string" where
  "opt_text v = (case v of None \<Rightarrow> [] | Some s \<Rightarrow> s)"

definition looks_like_signature :: "string option \<Rightarrow> string option \<Rightarrow> manifest_ref list \<Rightarrow> bool" where
  "looks_like_signature artifact_type config_mt refs = (let
     hints = opt_text artifact_type @ opt_text config_mt @ concat (map (opt_text \<circ> mr_media) refs)
     in list_ex (\<lambda>s. is_substring s hints) [''cosign'', ''sigstore'', ''notary'', ''signature''])"

definition classify ::
  "string option \<Rightarrow> string option \<Rightarrow> string option \<Rightarrow> json \<Rightarrow> manifest_ref list \<Rightarrow> manifest_kind" where
  "classify artifact_type config_mt subject annotations refs = (
     if jtruthy (jget annotations ATTESTATION_ANNOTATION)
        \<or> list_ex (\<lambda>r. mr_media r = Some ''application/vnd.in-toto+json'') refs then Attestation
     else if opt_text subject \<noteq> [] then (if looks_like_signature artifact_type config_mt refs then Signature else Artifact)
     else if opt_text artifact_type \<noteq> []
        \<or> (opt_text config_mt \<noteq> [] \<and> opt_text config_mt \<notin> set IMAGE_CONFIG_TYPES) then Artifact
     else Image)"

text \<open>\<open>doc.get("mediaType") or (content_type or "").split(";")[0].strip()\<close>, then the inference from shape.\<close>

definition declared_type :: "json \<Rightarrow> string option \<Rightarrow> json" where
  "declared_type doc content_type = (if jtruthy (jget doc ''mediaType'') then jget doc ''mediaType''
     else JStr (py_strip (hd (split_on (CHR '';'') (opt_text content_type)))))"

definition media_type_of :: "json \<Rightarrow> string option \<Rightarrow> manifest_error + string" where
  "media_type_of doc content_type = (let mt = declared_type doc content_type in
     if (case as_str mt of None \<Rightarrow> False | Some s \<Rightarrow> s \<in> set DOCKER_V1)
        \<or> as_num (jget doc ''schemaVersion'') = Some 1 then Inl SchemaOne
     else (case mt of
         JStr s \<Rightarrow> (let s' = (if s = [] then (if jhas doc ''manifests'' then OCI_INDEX else OCI_MANIFEST) else s) in
           if s' \<notin> set MANIFEST_TYPES then Inl UnsupportedType else Inr s')
       | JList xs \<Rightarrow> Inl Unhashable
       | JObj kvs \<Rightarrow> Inl Unhashable
       | _ \<Rightarrow> Inl UnsupportedType))"

definition subject_digest :: "json \<Rightarrow> manifest_error + string option" where
  "subject_digest doc = (if jget doc ''subject'' = JNull then Inr None
     else sum_bind (descriptor (jget doc ''subject'')) (\<lambda>(d, _). Inr (Some d)))"

definition parse_index :: "nat \<Rightarrow> json \<Rightarrow> string \<Rightarrow> string option \<Rightarrow> manifest_error + parsed_manifest" where
  "parse_index max_entries doc mt subject = (case as_list (jget doc ''manifests'') of
     None \<Rightarrow> Inl NoManifestsList
   | Some entries \<Rightarrow>
       if max_entries < length entries then Inl TooManyEntries
       else sum_bind (index_refs 0 entries) (\<lambda>refs. Inr
         \<lparr>pm_media_type = mt, pm_is_index = True, pm_kind = Index, pm_refs = refs, pm_config_digest = None,
          pm_config_media_type = None, pm_artifact_type = as_str (jget doc ''artifactType''),
          pm_subject_digest = subject, pm_annotations = annotations_of doc, pm_total_size = 0, pm_layer_count = 0\<rparr>))"

definition parse_image :: "json \<Rightarrow> string \<Rightarrow> string option \<Rightarrow> manifest_error + parsed_manifest" where
  "parse_image doc mt subject = sum_bind (descriptor (jget doc ''config'')) (\<lambda>(cd, cmt, csz).
     sum_bind (case jget doc ''layers'' of JNull \<Rightarrow> Inr [] | JList ls \<Rightarrow> Inr ls | _ \<Rightarrow> Inl LayersNotList) (\<lambda>layers.
       if 1000 < length layers then Inl TooManyLayers
       else sum_bind (layer_refs 0 layers) (\<lambda>blobs. (let
           refs = \<lparr>mr_type = Config, mr_digest = cd, mr_media = cmt, mr_size = csz, mr_position = 0,
                   mr_platform = None, mr_annotations = JObj []\<rparr> # blobs;
           atype = as_str (jget doc ''artifactType'')
         in Inr
           \<lparr>pm_media_type = mt, pm_is_index = False,
            pm_kind = classify atype cmt subject (annotations_of doc) refs,
            pm_refs = refs, pm_config_digest = Some cd, pm_config_media_type = cmt, pm_artifact_type = atype,
            pm_subject_digest = subject, pm_annotations = annotations_of doc,
            pm_total_size = csz + sum_list (map mr_size blobs), pm_layer_count = length refs - 1\<rparr>))))"

definition parse ::
  "nat \<Rightarrow> nat \<Rightarrow> nat \<Rightarrow> json option \<Rightarrow> string option \<Rightarrow> manifest_error + parsed_manifest" where
  "parse max_bytes max_entries body_length loaded content_type = (
     if max_bytes < body_length then Inl BodyTooLarge
     else (case loaded of None \<Rightarrow> Inl NotJson
       | Some doc \<Rightarrow>
           if \<not> is_obj doc then Inl NotObject
           else sum_bind (media_type_of doc content_type) (\<lambda>mt.
             if as_num (jget doc ''schemaVersion'') \<noteq> Some 2 then Inl BadSchemaVersion
             else sum_bind (subject_digest doc) (\<lambda>subject.
               if mt \<in> set INDEX_TYPES then parse_index max_entries doc mt subject
               else parse_image doc mt subject))))"

definition is_attestation_entry :: "manifest_ref \<Rightarrow> bool" where
  "is_attestation_entry r = (jget (mr_annotations r) ATTESTATION_ANNOTATION = JStr ''attestation-manifest''
     \<or> mr_platform r = Some ''unknown/unknown'')"

end
