(* ===== verification/Docker_Tables.thy ===== *)
theory Docker_Tables
  imports Docker_Manifest
begin

section \<open>The registry's tables (\<open>models.py\<close>)\<close>

text \<open>
  The rows of the container registry the components below read and write, with the columns they
  use. A table is a list of rows in insertion order; \<open>update_where\<close> is an SQL update, \<open>filter\<close> a
  select, and a row fetched and then assigned to is the update of the row with its id.
\<close>

record repo_row =
  r_id :: int
  r_name :: string
  r_upstream :: "int option"
  r_remote_name :: "string option"
  is_local :: bool
  owner_user_id :: "int option"
  quarantined :: bool
  quarantine_reason :: "string option"

record manifest_row =
  m_id :: int
  m_digest :: string
  m_media_type :: string
  m_size :: nat
  m_is_index :: bool
  m_kind :: manifest_kind
  m_artifact_type :: "string option"
  m_config_digest :: "string option"
  m_config_media_type :: "string option"
  m_platform :: "string option"
  m_total_size :: int
  m_layer_count :: nat
  m_subject :: "string option"
  m_annotations :: json
  m_upstream :: "int option"
  m_pushed_by :: "int option"
  scan_status :: string
  scanned_at :: "int option"
  latest_scan :: "int option"
  severity_counts :: "(string \<times> nat) list"
  fixable_counts :: "(string \<times> nat) list"
  max_cvss :: "rat option"
  fixable_count :: nat
  kev_count :: nat
  sbom_digest :: "string option"
  last_accessed :: int

record ref_row =
  ref_manifest :: int
  ref_entry :: manifest_ref

record link_row =
  l_repo :: int
  l_manifest :: int
  push_block_reason :: "string option"

record tag_row =
  t_repo :: int
  t_tag :: string
  t_manifest :: int
  t_checked :: int
  t_pushed_by :: "int option"

record blob_row =
  b_digest :: string
  b_size :: nat
  b_local :: bool

record upload_row =
  u_id :: string
  u_repo :: int
  u_user :: "int option"

record job_row =
  j_id :: int
  j_manifest :: int
  j_repository :: string
  j_mode :: string
  j_reason :: string
  j_priority :: int
  j_status :: string
  j_attempts :: nat
  j_worker :: "string option"
  j_lease :: "int option"
  j_error :: "string option"

record finding_row =
  f_manifest :: int
  f_scan :: int
  f_vuln :: string
  f_pkg :: string
  f_pkg_type :: "string option"
  f_installed :: "string option"
  f_fixed :: "string option"
  f_severity :: string
  f_cvss :: "rat option"
  f_title :: "string option"
  f_url :: "string option"
  f_layer :: "string option"
  f_kev :: bool

record scan_row =
  s_id :: int
  s_manifest :: int
  s_mode :: string
  s_report :: "string option"
  s_count :: nat

record registry_db =
  repos :: "repo_row list"
  manifests :: "manifest_row list"
  manifest_refs :: "ref_row list"
  links :: "link_row list"
  tags :: "tag_row list"
  blobs :: "blob_row list"
  repo_blobs :: "(int \<times> string) list"
  uploads :: "upload_row list"
  jobs :: "job_row list"
  scans :: "scan_row list"
  findings :: "finding_row list"
  kev_entries :: "string list"

definition empty_db :: registry_db where
  "empty_db = \<lparr>repos = [], manifests = [], manifest_refs = [], links = [], tags = [], blobs = [],
     repo_blobs = [], uploads = [], jobs = [], scans = [], findings = [], kev_entries = []\<rparr>"

text \<open>A new manifest row: the columns given to the constructor are set after, the rest are the defaults.\<close>

definition new_manifest :: "int \<Rightarrow> string \<Rightarrow> manifest_row" where
  "new_manifest i d = \<lparr>m_id = i, m_digest = d, m_media_type = [], m_size = 0, m_is_index = False, m_kind = Image,
     m_artifact_type = None, m_config_digest = None, m_config_media_type = None, m_platform = None, m_total_size = 0,
     m_layer_count = 0, m_subject = None, m_annotations = JObj [], m_upstream = None, m_pushed_by = None,
     scan_status = ''unscanned'', scanned_at = None, latest_scan = None, severity_counts = [], fixable_counts = [],
     max_cvss = None, fixable_count = 0, kev_count = 0, sbom_digest = None, last_accessed = 0\<rparr>"

definition new_repo :: "int \<Rightarrow> string \<Rightarrow> bool \<Rightarrow> repo_row" where
  "new_repo i n loc = \<lparr>r_id = i, r_name = n, r_upstream = None, r_remote_name = None, is_local = loc,
     owner_user_id = None, quarantined = False, quarantine_reason = None\<rparr>"

lemmas new_rows = new_manifest_def new_repo_def empty_db_def

text \<open>The next value of an integer primary key.\<close>

definition fresh_id :: "int list \<Rightarrow> int" where
  "fresh_id ids = 1 + foldr max ids 0"

lemma fresh_id_notin: "fresh_id ids \<notin> set ids"
proof -
  have "\<forall>x \<in> set ids. x \<le> foldr max ids 0" by (induction ids) auto
  then show ?thesis by (auto simp: fresh_id_def)
qed

definition update_where :: "('a \<Rightarrow> bool) \<Rightarrow> ('a \<Rightarrow> 'a) \<Rightarrow> 'a list \<Rightarrow> 'a list" where
  "update_where P f xs = map (\<lambda>x. if P x then f x else x) xs"

definition find_manifest :: "int \<Rightarrow> registry_db \<Rightarrow> manifest_row option" where
  \<comment> \<open>\<open>session.get(DockerManifest, id)\<close>\<close>
  "find_manifest i db = find (\<lambda>m. m_id m = i) (manifests db)"

definition manifest_by_digest :: "string \<Rightarrow> registry_db \<Rightarrow> manifest_row option" where
  "manifest_by_digest d db = find (\<lambda>m. m_digest m = d) (manifests db)"

definition set_manifest :: "int \<Rightarrow> (manifest_row \<Rightarrow> manifest_row) \<Rightarrow> registry_db \<Rightarrow> registry_db" where
  "set_manifest i f db = db\<lparr>manifests := update_where (\<lambda>m. m_id m = i) f (manifests db)\<rparr>"

definition local_repo_ids :: "registry_db \<Rightarrow> int list" where
  "local_repo_ids db = map r_id (filter is_local (repos db))"

lemma update_where_simps [simp]:
  "update_where P f [] = []"
  "update_where P f (x # xs) = (if P x then f x else x) # update_where P f xs"
  by (simp_all add: update_where_def)

lemma update_where_set: "x \<in> set (update_where P f xs) \<longleftrightarrow> (\<exists>y \<in> set xs. x = (if P y then f y else y))"
  by (auto simp: update_where_def)

lemma length_update_where [simp]: "length (update_where P f xs) = length xs"
  by (simp add: update_where_def)

lemma map_update_where: "(\<And>x. P x \<Longrightarrow> g (f x) = g x) \<Longrightarrow> map g (update_where P f xs) = map g xs"
  by (induction xs) auto

lemma filter_update_where:
  "(\<And>x. P x \<Longrightarrow> \<not> Q (f x) \<and> \<not> Q x) \<Longrightarrow> filter Q (update_where P f xs) = filter Q xs"
  by (induction xs) auto

lemma find_update_where:
  assumes "\<And>x. P x \<Longrightarrow> Q (f x) = Q x"
  shows "find Q (update_where P f xs) = map_option (\<lambda>x. if P x then f x else x) (find Q xs)"
  using assms by (induction xs) auto

lemma find_set_manifest:
  assumes "\<And>m. m_id (f m) = m_id m"
  shows "find_manifest j (set_manifest i f db) =
    (if j = i then map_option f (find_manifest i db) else find_manifest j db)"
proof -
  have "find (\<lambda>m. m_id m = j) (update_where (\<lambda>m. m_id m = i) f ms)
      = (if j = i then map_option f (find (\<lambda>m. m_id m = i) ms) else find (\<lambda>m. m_id m = j) ms)" for ms
    using assms by (induction ms) auto
  then show ?thesis by (simp add: find_manifest_def set_manifest_def)
qed

end
