(* ===== verification/Docker_Policy.thy ===== *)
theory Docker_Policy
  imports Docker_Tables
begin

section \<open>The image policy (\<open>docker/policy.py\<close>)\<close>

text \<open>
  Gate rules and the policy read from a settings document, the figures a scanned manifest is
  judged by, and the verdict on a pull. The database is the record of tables. In \<open>float\<close> of a
  string the words \<open>inf\<close> and \<open>nan\<close> are not modelled.
\<close>

subsection \<open>Reading a policy\<close>

definition SEVERITIES :: "string list" where
  "SEVERITIES = [''UNKNOWN'', ''LOW'', ''MEDIUM'', ''HIGH'', ''CRITICAL'']"

fun index_of :: "'a \<Rightarrow> 'a list \<Rightarrow> nat option" where
  "index_of x [] = None"
| "index_of x (y # ys) = (if x = y then Some 0 else map_option Suc (index_of x ys))"

definition rank :: "string option \<Rightarrow> nat" where
  "rank severity = (case index_of (py_upper (opt_text severity)) SEVERITIES of None \<Rightarrow> 0 | Some i \<Rightarrow> i)"

record gate_rules =
  block_kev :: bool
  block_severity :: "string option"
  only_fixable :: bool

definition pull_defaults :: gate_rules where
  "pull_defaults = \<lparr>block_kev = False, block_severity = None, only_fixable = True\<rparr>"

definition push_defaults :: gate_rules where
  "push_defaults = \<lparr>block_kev = True, block_severity = Some ''CRITICAL'', only_fixable = True\<rparr>"

definition gate_rules_from_dict :: "json \<Rightarrow> gate_rules \<Rightarrow> gate_rules" where
  "gate_rules_from_dict data dflt = (if \<not> is_obj data then dflt
     else (let sev0 = (case block_severity dflt of None \<Rightarrow> JNull | Some s \<Rightarrow> JStr s);
           sev = jget_or data ''block_severity'' sev0;
           name = py_upper (fmt sev)
       in \<lparr>block_kev = jtruthy (jget_or data ''block_kev'' (JBool (block_kev dflt))),
           block_severity = (if sev \<noteq> JNull \<and> name \<in> set SEVERITIES then Some name else None),
           only_fixable = jtruthy (jget_or data ''only_fixable'' (JBool (only_fixable dflt)))\<rparr>))"

record image_policy =
  scanning_enabled :: bool
  scan_on_pull :: bool
  hold_enabled :: bool
  hold_seconds :: rat
  hold_max_bytes :: int
  strict_mode :: bool
  deny_cves :: "string list"
  allow_cves :: "string list"
  pull :: gate_rules
  push :: gate_rules
  push_require_scan :: bool
  rescan_hours :: int
  rescan_recent_days :: int
  scan_timeout_seconds :: int
  max_scan_bytes :: int
  platforms :: "string list"
  severities :: "string list"
  ignore_unfixed :: bool
  keep_reports :: int
  storage_budget_bytes :: "int option"

definition default_image_policy :: image_policy where
  "default_image_policy = \<lparr>scanning_enabled = True, scan_on_pull = True, hold_enabled = False, hold_seconds = 15,
     hold_max_bytes = 200 * 1024 * 1024, strict_mode = False, deny_cves = [], allow_cves = [],
     pull = pull_defaults, push = push_defaults, push_require_scan = True, rescan_hours = 24,
     rescan_recent_days = 30, scan_timeout_seconds = 900, max_scan_bytes = 6 * 1024 * 1024 * 1024,
     platforms = [''linux/amd64'', ''linux/arm64''], severities = SEVERITIES, ignore_unfixed = False,
     keep_reports = 3, storage_budget_bytes = None\<rparr>"

text \<open>\<open>int(x)\<close> and \<open>float(x)\<close>; \<open>None\<close> is the \<open>TypeError\<close> or \<open>ValueError\<close>.\<close>

fun digits_value :: "bool \<Rightarrow> nat \<Rightarrow> string \<Rightarrow> nat option" where
  \<comment> \<open>digits with single underscores between them; the flag says whether a digit came last\<close>
  "digits_value after acc [] = (if after then Some acc else None)"
| "digits_value after acc (c # s) = (if is_digit c then digits_value True (10 * acc + digit_val c) s
     else if c = CHR ''_'' \<and> after \<and> s \<noteq> [] then digits_value False acc s else None)"

definition signed :: "string \<Rightarrow> int \<times> string" where
  "signed s = (case s of [] \<Rightarrow> (1, [])
     | c # t \<Rightarrow> if c = CHR ''-'' then (-1, t) else if c = CHR ''+'' then (1, t) else (1, s))"

definition int_of_text :: "string \<Rightarrow> int option" where
  "int_of_text s = (case signed (py_strip s) of (sg, t) \<Rightarrow> map_option (\<lambda>n. sg * int n) (digits_value False 0 t))"

definition rat_of_text :: "string \<Rightarrow> rat option" where
  "rat_of_text s = (case signed (py_strip (py_lower s)) of (sg, t) \<Rightarrow>
     (case py_partition (CHR ''e'') t of (mant, e, ex) \<Rightarrow>
     (case py_partition (CHR ''.'') mant of (whole, pt, fpart) \<Rightarrow>
       (let w = (if whole = [] then Some 0 else digits_value False 0 whole);
            f = (if fpart = [] then Some 0 else digits_value False 0 fpart);
            x = (if e = [] then Some 0 else case signed ex of (es, et) \<Rightarrow> map_option (\<lambda>n. es * int n) (digits_value False 0 et));
            k = length (filter is_digit fpart)
        in if whole = [] \<and> fpart = [] then None
           else (case (w, f, x) of
             (Some a, Some b, Some n) \<Rightarrow> Some (of_int sg * (of_nat a + of_nat b / 10 ^ k) *
                (if 0 \<le> n then 10 ^ nat n else 1 / 10 ^ nat (- n)))
           | _ \<Rightarrow> None)))))"

definition trunc :: "rat \<Rightarrow> int" where
  "trunc r = (if 0 \<le> r then floor r else ceiling r)"

fun py_int :: "json \<Rightarrow> int option" where
  "py_int (JInt i) = Some i"
| "py_int (JBool b) = Some (if b then 1 else 0)"
| "py_int (JFloat r) = Some (trunc r)"
| "py_int (JStr s) = int_of_text s"
| "py_int _ = None"

fun py_float :: "json \<Rightarrow> rat option" where
  "py_float (JStr s) = rat_of_text s"
| "py_float v = as_num v"

definition clamp :: "'a :: linorder \<Rightarrow> 'a \<Rightarrow> 'a \<Rightarrow> 'a" where
  "clamp lo hi v = min (max v lo) hi"

definition read_bool :: "json \<Rightarrow> string \<Rightarrow> bool \<Rightarrow> bool" where
  "read_bool data name dflt = (if jhas data name then jtruthy (jget data name) else dflt)"

definition read_int :: "json \<Rightarrow> string \<Rightarrow> int \<Rightarrow> int \<Rightarrow> int \<Rightarrow> int" where
  "read_int data name lo hi dflt = (if jget data name = JNull then dflt
     else (case py_int (jget data name) of None \<Rightarrow> dflt | Some v \<Rightarrow> clamp lo hi v))"

definition read_float :: "json \<Rightarrow> string \<Rightarrow> rat \<Rightarrow> rat \<Rightarrow> rat \<Rightarrow> rat" where
  "read_float data name lo hi dflt = (if jget data name = JNull then dflt
     else (case py_float (jget data name) of None \<Rightarrow> dflt | Some v \<Rightarrow> clamp lo hi v))"

definition cve_list :: "json \<Rightarrow> string list" where
  "cve_list value = (case as_list value of None \<Rightarrow> []
     | Some items \<Rightarrow> take 5000 (sort (remdups (filter (\<lambda>s. s \<noteq> [] \<and> length s \<le> 64)
         (map (\<lambda>item. py_upper (py_strip (fmt item))) items)))))"

definition read_platforms :: "json \<Rightarrow> string list \<Rightarrow> string list" where
  "read_platforms v dflt = (case as_list v of None \<Rightarrow> dflt
     | Some xs \<Rightarrow> take 32 (map (\<lambda>x. take 64 (fmt x)) (filter jtruthy xs)))"

definition read_severities :: "json \<Rightarrow> string list \<Rightarrow> string list" where
  "read_severities v dflt = (case as_list v of None \<Rightarrow> dflt
     | Some xs \<Rightarrow> filter (\<lambda>s. s \<in> set SEVERITIES) (map (\<lambda>x. py_upper (fmt x)) xs))"

definition image_policy_from_dict :: "json \<Rightarrow> image_policy" where
  "image_policy_from_dict data = (let p = default_image_policy in if \<not> is_obj data then p
     else \<lparr>scanning_enabled = read_bool data ''scanning_enabled'' (scanning_enabled p),
           scan_on_pull = read_bool data ''scan_on_pull'' (scan_on_pull p),
           hold_enabled = read_bool data ''hold_enabled'' (hold_enabled p),
           hold_seconds = read_float data ''hold_seconds'' 0 120 (hold_seconds p),
           hold_max_bytes = read_int data ''hold_max_bytes'' 0 (2 ^ 40) (hold_max_bytes p),
           strict_mode = read_bool data ''strict_mode'' (strict_mode p),
           deny_cves = cve_list (jget data ''deny_cves''),
           allow_cves = cve_list (jget data ''allow_cves''),
           pull = gate_rules_from_dict (jget data ''pull'') pull_defaults,
           push = gate_rules_from_dict (jget data ''push'') push_defaults,
           push_require_scan = read_bool data ''push_require_scan'' (push_require_scan p),
           rescan_hours = read_int data ''rescan_hours'' 1 (24 * 90) (rescan_hours p),
           rescan_recent_days = read_int data ''rescan_recent_days'' 1 3650 (rescan_recent_days p),
           scan_timeout_seconds = read_int data ''scan_timeout_seconds'' 30 7200 (scan_timeout_seconds p),
           max_scan_bytes = read_int data ''max_scan_bytes'' 0 (2 ^ 44) (max_scan_bytes p),
           platforms = read_platforms (jget data ''platforms'') (platforms p),
           severities = read_severities (jget data ''severities'') (severities p),
           ignore_unfixed = read_bool data ''ignore_unfixed'' (ignore_unfixed p),
           keep_reports = read_int data ''keep_reports'' 1 50 (keep_reports p),
           storage_budget_bytes = (if jget data ''storage_budget_bytes'' = JNull then None
             else map_option (max 0) (py_int (jget data ''storage_budget_bytes'')))\<rparr>)"

definition gate_rules_to_dict :: "gate_rules \<Rightarrow> json" where
  "gate_rules_to_dict g = JObj [(''block_kev'', JBool (block_kev g)),
     (''block_severity'', case block_severity g of None \<Rightarrow> JNull | Some s \<Rightarrow> JStr s),
     (''only_fixable'', JBool (only_fixable g))]"

definition image_policy_to_dict :: "image_policy \<Rightarrow> json" where
  "image_policy_to_dict p = JObj
     [(''scanning_enabled'', JBool (scanning_enabled p)), (''scan_on_pull'', JBool (scan_on_pull p)),
      (''hold_enabled'', JBool (hold_enabled p)), (''hold_seconds'', JFloat (hold_seconds p)),
      (''hold_max_bytes'', JInt (hold_max_bytes p)), (''strict_mode'', JBool (strict_mode p)),
      (''deny_cves'', JList (map JStr (deny_cves p))), (''allow_cves'', JList (map JStr (allow_cves p))),
      (''pull'', gate_rules_to_dict (pull p)), (''push'', gate_rules_to_dict (push p)),
      (''push_require_scan'', JBool (push_require_scan p)), (''rescan_hours'', JInt (rescan_hours p)),
      (''rescan_recent_days'', JInt (rescan_recent_days p)),
      (''scan_timeout_seconds'', JInt (scan_timeout_seconds p)), (''max_scan_bytes'', JInt (max_scan_bytes p)),
      (''platforms'', JList (map JStr (platforms p))), (''severities'', JList (map JStr (severities p))),
      (''ignore_unfixed'', JBool (ignore_unfixed p)), (''keep_reports'', JInt (keep_reports p)),
      (''storage_budget_bytes'', case storage_budget_bytes p of None \<Rightarrow> JNull | Some b \<Rightarrow> JInt b)]"

definition budget :: "int \<Rightarrow> image_policy \<Rightarrow> int" where
  "budget dflt p = (case storage_budget_bytes p of None \<Rightarrow> dflt | Some b \<Rightarrow> b)"

definition scans_platform :: "image_policy \<Rightarrow> string option \<Rightarrow> bool" where
  "scans_platform p platform = (opt_text platform = [] \<or> platforms p = [] \<or>
     list_ex (\<lambda>q. opt_text platform = q \<or>
        count_list q (CHR ''/'') = 1 \<and> starts_with (opt_text platform) (q @ ''/'')) (platforms p))"

subsection \<open>Verdicts\<close>

record image_verdict =
  allowed :: bool
  v_reason :: "string option"
  v_code :: string
  v_retry_after :: "int option"
  v_source :: "string option"

definition ALLOW :: image_verdict where
  "ALLOW = \<lparr>allowed = True, v_reason = None, v_code = ''DENIED'', v_retry_after = None, v_source = None\<rparr>"

definition refuse :: "string \<Rightarrow> string \<Rightarrow> image_verdict" where
  "refuse reason src = \<lparr>allowed = False, v_reason = Some reason, v_code = ''DENIED'', v_retry_after = None, v_source = Some src\<rparr>"

definition not_yet :: image_verdict where
  "not_yet = \<lparr>allowed = False, v_reason = Some ''image has not been scanned yet; a scan is queued, retry shortly'',
     v_code = ''UNAVAILABLE'', v_retry_after = Some 15, v_source = Some ''unscanned''\<rparr>"

record gate_figures =
  kev_figure :: nat
  by_severity :: "(string \<times> nat) list"
  fixable_by_severity :: "(string \<times> nat) list"

fun add_to :: "'k \<Rightarrow> nat \<Rightarrow> ('k \<times> nat) list \<Rightarrow> ('k \<times> nat) list" where
  \<comment> \<open>\<open>d[k] = d.get(k, 0) + n\<close>\<close>
  "add_to k n [] = [(k, n)]"
| "add_to k n ((k', m) # d) = (if k' = k then (k, m + n) # d else (k', m) # add_to k n d)"

definition group_rows :: "('a \<Rightarrow> 'k) \<Rightarrow> 'a list \<Rightarrow> ('k \<times> nat) list" where
  \<comment> \<open>\<open>SELECT key, count(*) ... GROUP BY key\<close>\<close>
  "group_rows key xs = map (\<lambda>k. (k, length (filter (\<lambda>x. key x = k) xs))) (remdups (map key xs))"

definition is_fixable :: "finding_row \<Rightarrow> bool" where
  "is_fixable f = (opt_text (f_fixed f) \<noteq> [])"

definition counted_findings :: "registry_db \<Rightarrow> int \<Rightarrow> image_policy \<Rightarrow> finding_row list" where
  "counted_findings db mid policy = filter (\<lambda>f. f_manifest f = mid \<and>
     (allow_cves policy = [] \<or> f_vuln f \<notin> set (allow_cves policy))) (findings db)"

definition count_row :: "gate_figures \<Rightarrow> (string \<times> bool \<times> bool) \<times> nat \<Rightarrow> gate_figures" where
  "count_row c = (\<lambda>((severity, fixable, kev), n).
     (let sev = py_upper (if severity = [] then ''UNKNOWN'' else severity) in
       \<lparr>kev_figure = (if kev then kev_figure c + n else kev_figure c),
        by_severity = add_to sev n (by_severity c),
        fixable_by_severity = (if fixable then add_to sev n (fixable_by_severity c) else fixable_by_severity c)\<rparr>))"

definition gate_counts :: "registry_db \<Rightarrow> int \<Rightarrow> image_policy \<Rightarrow> gate_figures" where
  "gate_counts db mid policy = foldl count_row \<lparr>kev_figure = 0, by_severity = [], fixable_by_severity = []\<rparr>
     (group_rows (\<lambda>f. (f_severity f, is_fixable f, f_kev f)) (counted_findings db mid policy))"

definition denied_cves_present :: "registry_db \<Rightarrow> int \<Rightarrow> image_policy \<Rightarrow> string list" where
  "denied_cves_present db mid policy = (if deny_cves policy = [] then []
     else take 5 (remdups (map f_vuln (filter (\<lambda>f. f_manifest f = mid \<and> f_vuln f \<in> set (deny_cves policy)) (findings db)))))"

definition threshold_hits :: "gate_rules \<Rightarrow> gate_figures \<Rightarrow> nat" where
  "threshold_hits rules counts = (if opt_text (block_severity rules) = [] then 0
     else (let least = rank (block_severity rules);
               table = (if only_fixable rules then fixable_by_severity counts else by_severity counts)
       in sum_list (map snd (filter (\<lambda>(sev, n). least \<le> rank (Some sev)) table))))"

definition evaluate_rules :: "registry_db \<Rightarrow> int \<Rightarrow> image_policy \<Rightarrow> gate_rules \<Rightarrow> string \<Rightarrow> image_verdict" where
  "evaluate_rules db mid policy rules label = (let denied = denied_cves_present db mid policy in
     if denied \<noteq> [] then
       refuse (''image contains '' @ py_join '', '' denied @ '', which the image policy denies'') ''deny_list''
     else if \<not> (block_kev rules \<or> opt_text (block_severity rules) \<noteq> []) then ALLOW
     else (let counts = gate_counts db mid policy; hits = threshold_hits rules counts in
       if block_kev rules \<and> 0 < kev_figure counts then
         refuse (label @ '' policy: image contains '' @ show_nat (kev_figure counts)
           @ '' known-exploited vulnerabilities (CISA KEV)'') ''kev''
       else if 0 < hits then
         refuse (label @ '' policy: image has '' @ show_nat hits @ '' '' @ (if only_fixable rules then ''fixable '' else [])
           @ ''findings at '' @ opt_text (block_severity rules) @ '' or above'') ''severity''
       else ALLOW))"

definition push_block_reasons :: "registry_db \<Rightarrow> int \<Rightarrow> int list \<Rightarrow> (int \<times> string) list" where
  "push_block_reasons db rid mids = (if mids = [] then []
     else map (\<lambda>l. (l_manifest l, the (push_block_reason l)))
       (filter (\<lambda>l. l_repo l = rid \<and> l_manifest l \<in> set mids \<and> push_block_reason l \<noteq> None) (links db)))"

definition push_blocked :: "registry_db \<Rightarrow> repo_row \<Rightarrow> int list \<Rightarrow> int \<Rightarrow> string option" where
  \<comment> \<open>\<open>blocked.get(id)\<close>, when it is not empty\<close>
  "push_blocked db repo mids mid = (if is_local repo then
     (case map_of (push_block_reasons db (r_id repo) mids) mid of None \<Rightarrow> None
      | Some r \<Rightarrow> if r = [] then None else Some r) else None)"

definition child_verdict :: "registry_db \<Rightarrow> repo_row \<Rightarrow> int list \<Rightarrow> image_policy \<Rightarrow> manifest_row \<Rightarrow> image_verdict option" where
  "child_verdict db repo mids policy child = (case push_blocked db repo mids (m_id child) of
     Some r \<Rightarrow> Some (refuse r ''push_policy'')
   | None \<Rightarrow> if scan_status child = ''scanned'' then Some (evaluate_rules db (m_id child) policy (pull policy) ''pull'')
       else None)"

fun worst_child :: "registry_db \<Rightarrow> repo_row \<Rightarrow> int list \<Rightarrow> image_policy \<Rightarrow> manifest_row list \<Rightarrow> image_verdict" where
  "worst_child db repo mids policy [] = ALLOW"
| "worst_child db repo mids policy (c # cs) = (case child_verdict db repo mids policy c of
     None \<Rightarrow> worst_child db repo mids policy cs
   | Some v \<Rightarrow>
       if \<not> allowed v \<and> v_code v = ''DENIED'' then
         \<lparr>allowed = False,
          v_reason = Some ((if opt_text (m_platform c) \<noteq> [] then opt_text (m_platform c) else take 19 (m_digest c))
            @ '': '' @ opt_text (v_reason v)),
          v_code = ''DENIED'', v_retry_after = None, v_source = v_source v\<rparr>
       else worst_child db repo mids policy cs)"

definition index_children :: "registry_db \<Rightarrow> int \<Rightarrow> manifest_row list" where
  "index_children db index_id = (let digests = map (mr_digest \<circ> ref_entry) (filter (\<lambda>r. ref_manifest r = index_id \<and> mr_type (ref_entry r) = Child) (manifest_refs db))
     in filter (\<lambda>m. m_digest m \<in> set digests \<and> m_kind m = Image) (manifests db))"

definition evaluate_index :: "registry_db \<Rightarrow> repo_row \<Rightarrow> manifest_row \<Rightarrow> image_policy \<Rightarrow> image_verdict" where
  "evaluate_index db repo index policy = (let cs = index_children db (m_id index) in
     worst_child db repo (map m_id cs) policy cs)"

fun latest_job :: "job_row list \<Rightarrow> job_row option" where
  "latest_job [] = None"
| "latest_job (j # js) = (case latest_job js of None \<Rightarrow> Some j | Some k \<Rightarrow> if j_id k < j_id j then Some j else Some k)"

definition skip_reason :: "registry_db \<Rightarrow> int \<Rightarrow> string option" where
  "skip_reason db mid = (case latest_job (filter (\<lambda>j. j_manifest j = mid) (jobs db)) of None \<Rightarrow> None
     | Some j \<Rightarrow> if opt_text (j_error j) = [] then None else Some (take 200 (opt_text (j_error j))))"

definition evaluate_pull :: "registry_db \<Rightarrow> repo_row \<Rightarrow> manifest_row \<Rightarrow> image_policy \<Rightarrow> image_verdict" where
  "evaluate_pull db repo manifest policy = (
     if quarantined repo then
       refuse (''repository '' @ r_name repo @ '' is quarantined''
         @ (if opt_text (quarantine_reason repo) \<noteq> [] then '': '' @ opt_text (quarantine_reason repo) else [])) ''quarantine''
     else (case push_blocked db repo [m_id manifest] (m_id manifest) of
       Some r \<Rightarrow> refuse r ''push_policy''
     | None \<Rightarrow>
         if m_kind manifest = Index then evaluate_index db repo manifest policy
         else if m_kind manifest \<noteq> Image then ALLOW
         else if scan_status manifest = ''scanned'' then evaluate_rules db (m_id manifest) policy (pull policy) ''pull''
         else if \<not> scanning_enabled policy then ALLOW
         else if \<not> (strict_mode policy \<or> (is_local repo \<and> push_require_scan policy)) then ALLOW
         else if scan_status manifest \<in> {''unscanned'', ''queued'', ''scanning'', ''failed''} then not_yet
         else if scan_status manifest = ''not_applicable'' then
           refuse (''image could not be scanned''
             @ (case skip_reason db (m_id manifest) of None \<Rightarrow> [] | Some w \<Rightarrow> '' ('' @ w @ '')'')
             @ '', and policy refuses images that have not been scanned'') ''unscanned''
         else ALLOW))"

end
