(* ===== verification/Docker_Policy_Spec.thy ===== *)
theory Docker_Policy_Spec
  imports Docker_Policy
begin

section \<open>What the image policy promises\<close>

text \<open>
  The grouped figures come to a plain condition on the findings; a pull is decided by a table, an
  index by its children.
\<close>

subsection \<open>Figures\<close>

definition weight :: "('k \<Rightarrow> bool) \<Rightarrow> ('k \<times> nat) list \<Rightarrow> nat" where
  "weight P d = sum_list (map snd (filter (\<lambda>e. P (fst e)) d))"

lemma weight_simps [simp]:
  "weight P [] = 0"
  "weight P (e # d) = (if P (fst e) then snd e else 0) + weight P d"
  by (simp_all add: weight_def)

lemma weight_add_to [simp]: "weight P (add_to k n d) = weight P d + (if P k then n else 0)"
  by (induction d) auto

lemma weight_group_rows: "weight P (group_rows key xs) = length (filter (\<lambda>x. P (key x)) xs)"
proof -
  have *: "(\<Sum>k\<leftarrow>ks. if P k then length (filter (\<lambda>x. key x = k) xs) else 0)
      = length (filter (\<lambda>x. P (key x) \<and> key x \<in> set ks) xs)" if "distinct ks" for ks
    using that
  proof (induction ks)
    case (Cons k ks)
    have "length (filter (\<lambda>x. P (key x) \<and> (key x = k \<or> key x \<in> set ks)) xs)
        = length (filter (\<lambda>x. P (key x) \<and> key x = k) xs) + length (filter (\<lambda>x. P (key x) \<and> key x \<in> set ks) xs)"
      using Cons.prems by (induction xs) auto
    moreover have "length (filter (\<lambda>x. P (key x) \<and> key x = k) xs) = (if P k then length (filter (\<lambda>x. key x = k) xs) else 0)"
      by (induction xs) auto
    ultimately show ?case using Cons by simp
  qed simp
  have "weight P (map (\<lambda>k. (k, g k)) ks) = (\<Sum>k\<leftarrow>ks. if P k then g k else 0)" for ks g
    by (induction ks) auto
  then have "weight P (group_rows key xs)
      = (\<Sum>k\<leftarrow>remdups (map key xs). if P k then length (filter (\<lambda>x. key x = k) xs) else 0)"
    unfolding group_rows_def .
  also have "\<dots> = length (filter (\<lambda>x. P (key x) \<and> key x \<in> set (remdups (map key xs))) xs)"
    by (rule *) simp
  also have "\<dots> = length (filter (\<lambda>x. P (key x)) xs)"
    by (rule arg_cong [of _ _ length], rule filter_cong) auto
  finally show ?thesis .
qed

lemma fold_figures:
  "kev_figure (foldl count_row c rs) = kev_figure c + weight (\<lambda>(s, fx, k). k) rs"
  "weight P (by_severity (foldl count_row c rs)) = weight P (by_severity c)
     + weight (\<lambda>(s, fx, k). P (py_upper (if s = [] then ''UNKNOWN'' else s))) rs"
  "weight P (fixable_by_severity (foldl count_row c rs)) = weight P (fixable_by_severity c)
     + weight (\<lambda>(s, fx, k). fx \<and> P (py_upper (if s = [] then ''UNKNOWN'' else s))) rs"
  by (induction rs arbitrary: c) (auto simp: count_row_def Let_def split_beta)

lemma upper_char_idem: "upper_char (upper_char c) = upper_char c"
proof -
  have "(of_char (char_of (n - 32) :: char) :: nat) = n - 32" if "n \<le> 122" for n :: nat
    using that by simp
  then show ?thesis by (auto simp: upper_char_def Let_def)
qed

lemma py_upper_idem [simp]: "py_upper (py_upper s) = py_upper s"
  by (simp add: py_upper_def upper_char_idem)

lemma rank_upper: "rank (Some (py_upper (if s = [] then ''UNKNOWN'' else s))) = rank (Some s)"
  by (auto simp: rank_def opt_text_def) (simp add: py_upper_def SEVERITIES_def upper_char_def)

text \<open>A finding that counts against a set of rules.\<close>

definition counts_against :: "gate_rules \<Rightarrow> finding_row \<Rightarrow> bool" where
  "counts_against rules f = (block_kev rules \<and> f_kev f \<or>
     opt_text (block_severity rules) \<noteq> [] \<and> rank (block_severity rules) \<le> rank (Some (f_severity f)) \<and>
     (is_fixable f \<or> \<not> only_fixable rules))"

lemma kev_figure_gate: "0 < kev_figure (gate_counts db mid policy) \<longleftrightarrow> list_ex f_kev (counted_findings db mid policy)"
  by (auto simp: gate_counts_def fold_figures weight_group_rows list_ex_iff length_greater_0_conv filter_empty_conv
      simp del: length_greater_0_conv)

lemma threshold_hits_gate:
  "0 < threshold_hits rules (gate_counts db mid policy) \<longleftrightarrow> opt_text (block_severity rules) \<noteq> [] \<and>
     list_ex (\<lambda>f. rank (block_severity rules) \<le> rank (Some (f_severity f)) \<and> (is_fixable f \<or> \<not> only_fixable rules))
       (counted_findings db mid policy)"
proof -
  let ?P = "\<lambda>s. rank (block_severity rules) \<le> rank (Some s)"
  have hits: "threshold_hits rules c = (if opt_text (block_severity rules) = [] then 0
      else weight ?P (if only_fixable rules then fixable_by_severity c else by_severity c))" for c
    by (simp add: threshold_hits_def weight_def case_prod_unfold)
  show ?thesis
    by (auto simp: hits gate_counts_def fold_figures weight_group_rows rank_upper list_ex_iff filter_empty_conv)
qed

lemma denied_present: "denied_cves_present db mid policy = [] \<longleftrightarrow>
    \<not> list_ex (\<lambda>f. f_manifest f = mid \<and> f_vuln f \<in> set (deny_cves policy)) (findings db)"
  by (auto simp: denied_cves_present_def list_ex_iff filter_empty_conv remdups_eq_nil_iff)

lemma refuse_simps [simp]:
  "\<not> allowed (refuse r s)" "v_code (refuse r s) = ''DENIED''" "v_reason (refuse r s) = Some r" "v_source (refuse r s) = Some s"
  "allowed ALLOW" "\<not> allowed not_yet" "v_code not_yet = ''UNAVAILABLE''"
  by (simp_all add: refuse_def ALLOW_def not_yet_def)

lemma rules_allowed: "allowed (evaluate_rules db mid policy rules label) =
   (\<not> list_ex (\<lambda>f. f_manifest f = mid \<and> f_vuln f \<in> set (deny_cves policy)) (findings db) \<and>
    \<not> list_ex (counts_against rules) (counted_findings db mid policy))"
proof -
  have c: "list_ex (counts_against rules) fs \<longleftrightarrow> block_kev rules \<and> list_ex f_kev fs \<or>
      opt_text (block_severity rules) \<noteq> [] \<and>
      list_ex (\<lambda>f. rank (block_severity rules) \<le> rank (Some (f_severity f)) \<and> (is_fixable f \<or> \<not> only_fixable rules)) fs" for fs
    by (auto simp: counts_against_def list_ex_iff)
  show ?thesis
    unfolding evaluate_rules_def Let_def denied_present [symmetric] c
    using kev_figure_gate [of db mid policy] threshold_hits_gate [of rules db mid policy]
    by auto
qed

lemma rules_code: "v_code (evaluate_rules db mid policy rules label) = ''DENIED''"
  by (simp add: evaluate_rules_def Let_def ALLOW_def)

text \<open>
  C34: the gate. A scanned image passes a set of rules exactly when none of its findings is on the
  deny list and, accepted risks aside, none is known to be exploited where that blocks and none
  reaches the severity threshold (among the fixable ones, where only those count); so the figures
  the code groups and sums never hide a finding.
\<close>

theorem gate_decision:
  "allowed (evaluate_rules db mid policy rules label) =
   (\<not> list_ex (\<lambda>f. f_manifest f = mid \<and> f_vuln f \<in> set (deny_cves policy)) (findings db) \<and>
    \<not> list_ex (\<lambda>f. f_manifest f = mid \<and> f_vuln f \<notin> set (allow_cves policy) \<and> counts_against rules f) (findings db))"
proof -
  have "list_ex (counts_against rules) (counted_findings db mid policy) \<longleftrightarrow>
      list_ex (\<lambda>f. f_manifest f = mid \<and> f_vuln f \<notin> set (allow_cves policy) \<and> counts_against rules f) (findings db)"
    by (auto simp: counted_findings_def list_ex_iff)
  then show ?thesis by (simp add: rules_allowed)
qed

subsection \<open>Pulls\<close>

lemma worst_child_allowed:
  "allowed (worst_child db repo mids policy cs) =
   list_all (\<lambda>c. case child_verdict db repo mids policy c of None \<Rightarrow> True | Some v \<Rightarrow> allowed v) cs"
proof (induction cs)
  case (Cons c cs)
  have "v_code v = ''DENIED''" if "child_verdict db repo mids policy c = Some v" for v
    using that by (auto simp: child_verdict_def rules_code split: option.splits if_splits)
  with Cons show ?case by (auto split: option.splits)
qed simp

definition push_block_of :: "registry_db \<Rightarrow> repo_row \<Rightarrow> int \<Rightarrow> bool" where
  \<comment> \<open>the first verdict recorded for this image in this repository is a reason\<close>
  "push_block_of db repo mid = (is_local repo \<and>
     (case find (\<lambda>l. l_repo l = r_id repo \<and> l_manifest l = mid \<and> push_block_reason l \<noteq> None) (links db) of
        None \<Rightarrow> False | Some l \<Rightarrow> opt_text (push_block_reason l) \<noteq> []))"

lemma push_blocked_iff:
  assumes "mid \<in> set mids"
  shows "push_blocked db repo mids mid \<noteq> None \<longleftrightarrow> push_block_of db repo mid"
proof -
  let ?P = "\<lambda>l. l_repo l = r_id repo \<and> l_manifest l \<in> set mids \<and> push_block_reason l \<noteq> None"
  have "map_of (map (\<lambda>l. (l_manifest l, the (push_block_reason l))) (filter ?P ls)) mid
      = map_option (the \<circ> push_block_reason)
          (find (\<lambda>l. l_repo l = r_id repo \<and> l_manifest l = mid \<and> push_block_reason l \<noteq> None) ls)" for ls
    using assms by (induction ls) auto
  then have e: "map_of (push_block_reasons db (r_id repo) mids) mid = map_option (the \<circ> push_block_reason)
      (find (\<lambda>l. l_repo l = r_id repo \<and> l_manifest l = mid \<and> push_block_reason l \<noteq> None) (links db))"
    using assms unfolding push_block_reasons_def by auto
  show ?thesis
  proof (cases "find (\<lambda>l. l_repo l = r_id repo \<and> l_manifest l = mid \<and> push_block_reason l \<noteq> None) (links db)")
    case None
    then show ?thesis by (simp add: push_blocked_def push_block_of_def e)
  next
    case (Some l)
    then obtain r where "push_block_reason l = Some r" by (auto simp: find_Some_iff)
    with Some show ?thesis by (simp add: push_blocked_def push_block_of_def e opt_text_def)
  qed
qed

definition passes_pull_rules :: "registry_db \<Rightarrow> int \<Rightarrow> image_policy \<Rightarrow> bool" where
  "passes_pull_rules db mid policy = allowed (evaluate_rules db mid policy (pull policy) ''pull'')"

text \<open>
  C1: pulling an image. The pull is refused from a quarantined repository and where a push verdict
  is recorded against the image in this local repository; a scanned image is then held to the pull
  rules, and one that is not scanned (or could not be) is served only if scanning is off or neither
  strict mode nor, for a local repository, the push gate asks for a scan.
\<close>

theorem image_pull_decision:
  assumes "m_kind m = Image"
    and "scan_status m \<in> {''unscanned'', ''queued'', ''scanning'', ''scanned'', ''failed'', ''not_applicable''}"
  shows "allowed (evaluate_pull db repo m policy) =
    (\<not> quarantined repo \<and> \<not> push_block_of db repo (m_id m) \<and>
     (if scan_status m = ''scanned'' then passes_pull_rules db (m_id m) policy
      else \<not> scanning_enabled policy \<or> \<not> strict_mode policy \<and> \<not> (is_local repo \<and> push_require_scan policy)))"
  using assms push_blocked_iff [of "m_id m" "[m_id m]" db repo]
  by (auto simp: evaluate_pull_def passes_pull_rules_def split: option.splits)

theorem image_pull_decision_witness:
  "\<not> allowed (evaluate_pull empty_db
    (new_repo 1 ''local/app'' True)
    ((new_manifest 7 ''sha256:x'')\<lparr>m_kind := Image, scan_status := ''not_applicable''\<rparr>) default_image_policy)"
  by (subst image_pull_decision) (simp_all add: default_image_policy_def new_rows)

text \<open>
  An index answers for its platforms. Outside quarantine and a verdict on the index itself, it
  is served exactly when none of the images it names has a push verdict in this local repository
  and every scanned one passes the pull rules: a blocked platform image blocks the tag for everyone.
\<close>

theorem index_pull_decision:
  assumes "m_kind idx = Index"
  shows "allowed (evaluate_pull db repo idx policy) =
    (\<not> quarantined repo \<and> \<not> push_block_of db repo (m_id idx) \<and>
     list_all (\<lambda>c. \<not> push_block_of db repo (m_id c) \<and>
         \<not> (scan_status c = ''scanned'' \<and> \<not> passes_pull_rules db (m_id c) policy))
       (index_children db (m_id idx)))"
proof -
  have "(case child_verdict db repo (map m_id cs) policy c of None \<Rightarrow> True | Some v \<Rightarrow> allowed v) =
      (\<not> push_block_of db repo (m_id c) \<and> \<not> (scan_status c = ''scanned'' \<and> \<not> passes_pull_rules db (m_id c) policy))"
    if "c \<in> set cs" for c cs
    using push_blocked_iff [of "m_id c" "map m_id cs" db repo] that
    by (auto simp: child_verdict_def passes_pull_rules_def split: option.splits)
  then have "allowed (evaluate_index db repo idx policy) =
      list_all (\<lambda>c. \<not> push_block_of db repo (m_id c) \<and>
         \<not> (scan_status c = ''scanned'' \<and> \<not> passes_pull_rules db (m_id c) policy)) (index_children db (m_id idx))"
    by (auto simp: evaluate_index_def Let_def worst_child_allowed list_all_iff)
  with assms push_blocked_iff [of "m_id idx" "[m_id idx]" db repo] show ?thesis
    by (auto simp: evaluate_pull_def split: option.splits)
qed

theorem index_pull_decision_witness:
  "\<not> allowed (evaluate_pull
    (empty_db\<lparr>manifests := [(new_manifest 7 ''sha256:c'')\<lparr>scan_status := ''scanned''\<rparr>],
      manifest_refs := [\<lparr>ref_manifest = 8, ref_entry = \<lparr>mr_type = Child, mr_digest = ''sha256:c'', mr_media = None, mr_size = 1,
        mr_position = 0, mr_platform = None, mr_annotations = JObj []\<rparr>\<rparr>],
      links := [\<lparr>l_repo = 1, l_manifest = 7, push_block_reason = Some ''push policy''\<rparr>]\<rparr>)
    (new_repo 1 ''local/app'' True) ((new_manifest 8 ''sha256:i'')\<lparr>m_kind := Index\<rparr>) default_image_policy)"
  by (subst index_pull_decision) (simp_all add: index_children_def push_block_of_def opt_text_def new_rows Let_def)

end
