(* ===== verification/Docker_Policy_Read.thy ===== *)
theory Docker_Policy_Read
  imports Docker_Policy_Spec
begin

section \<open>Reading and saving an image policy\<close>

text \<open>
  Every value read from a settings document is in range, and a policy saved and read again is the
  same. Two lemmas at the end show where the policy does less than its documentation says.
\<close>

lemma jget_or_hit [simp]: "jget_or (JObj ((k, v) # kvs)) k d = v"
  by (simp add: jget_or_def)

lemma clamp_bounds: "lo \<le> hi \<Longrightarrow> lo \<le> clamp lo hi v" "lo \<le> hi \<Longrightarrow> clamp lo hi v \<le> hi"
  "lo \<le> v \<Longrightarrow> v \<le> hi \<Longrightarrow> clamp lo hi v = v" for lo hi v :: "'a :: linorder"
  by (auto simp: clamp_def min_def max_def)

lemma read_int_bounds: "lo \<le> d \<Longrightarrow> d \<le> hi \<Longrightarrow> lo \<le> read_int data n lo hi d \<and> read_int data n lo hi d \<le> hi"
  by (auto simp: read_int_def clamp_bounds split: option.split)

lemma read_float_bounds: "lo \<le> d \<Longrightarrow> d \<le> hi \<Longrightarrow> lo \<le> read_float data n lo hi d \<and> read_float data n lo hi d \<le> hi"
  by (auto simp: read_float_def clamp_bounds split: option.split)

definition id_list_ok :: "string list \<Rightarrow> bool" where
  "id_list_ok xs = (sorted xs \<and> distinct xs \<and> length xs \<le> 5000 \<and>
     list_all (\<lambda>s. s \<noteq> [] \<and> length s \<le> 64 \<and> py_upper s = s \<and> py_strip s = s) xs)"

lemma upper_space: "is_space (upper_char c) = is_space c"
proof -
  have "(of_char (char_of (n - 32) :: char) :: nat) = n - 32" if "n \<le> 122" for n :: nat
    using that by simp
  then show ?thesis by (auto simp: upper_char_def is_space_def Let_def)
qed

lemma strip_ends: "py_strip s = [] \<or> \<not> is_space (hd (py_strip s)) \<and> \<not> is_space (last (py_strip s))"
proof -
  define t where "t = dropWhile is_space s"
  have t: "t = [] \<or> \<not> is_space (hd t)" using hd_dropWhile [of is_space s] by (auto simp: t_def)
  define r where "r = dropWhile is_space (rev t)"
  have "r = [] \<or> \<not> is_space (hd r)" using hd_dropWhile [of is_space "rev t"] by (auto simp: r_def)
  moreover have "rev r = [] \<or> \<not> is_space (hd (rev r))"
  proof (cases "r = []")
    case False
    have "rev t = takeWhile is_space (rev t) @ r" by (simp add: r_def)
    then have "t = rev r @ rev (takeWhile is_space (rev t))" by (metis rev_append rev_rev_ident)
    with False have "hd t = hd (rev r)" "t \<noteq> []" by (metis hd_append2 rev_is_Nil_conv, auto)
    with t show ?thesis by simp
  qed simp
  ultimately show ?thesis
    by (simp add: py_strip_def py_lstrip_def py_rstrip_def t_def [symmetric] r_def [symmetric] last_rev, blast)
qed

lemma strip_upper: "py_strip (py_upper (py_strip s)) = py_upper (py_strip s)"
  using strip_ends [of s] by (intro py_strip_id) (auto simp: py_upper_def hd_map last_map upper_space)

lemma cve_list_ok: "id_list_ok (cve_list v)"
proof (cases "as_list v")
  case None
  then show ?thesis by (simp add: cve_list_def id_list_ok_def)
next
  case (Some items)
  define xs where "xs = sort (remdups (filter (\<lambda>s. s \<noteq> [] \<and> length s \<le> 64)
         (map (\<lambda>item. py_upper (py_strip (fmt item))) items)))"
  have "sorted xs" "distinct xs" by (simp_all add: xs_def)
  moreover have "s \<noteq> [] \<and> length s \<le> 64 \<and> py_upper s = s \<and> py_strip s = s" if "s \<in> set xs" for s
    using that by (auto simp: xs_def strip_upper)
  ultimately show ?thesis
    using Some by (auto simp: cve_list_def id_list_ok_def xs_def [symmetric] list_all_iff sorted_wrt_take dest: in_set_takeD)
qed

lemma cve_list_again: "id_list_ok xs \<Longrightarrow> cve_list (JList (map JStr xs)) = xs"
proof -
  assume ok: "id_list_ok xs"
  have "map (\<lambda>item. py_upper (py_strip (fmt item))) (map JStr xs) = xs"
    using ok by (simp add: id_list_ok_def list_all_iff comp_def) (rule map_idI, simp)
  moreover have "filter (\<lambda>s. s \<noteq> [] \<and> length s \<le> 64) xs = xs"
    using ok by (simp add: id_list_ok_def list_all_iff)
  ultimately show ?thesis
    using ok by (simp add: cve_list_def id_list_ok_def sorted_sort_id distinct_remdups_id)
qed

definition rules_ok :: "gate_rules \<Rightarrow> bool" where
  "rules_ok g = (case block_severity g of None \<Rightarrow> True | Some s \<Rightarrow> s \<in> set SEVERITIES)"

lemma rules_in_range: "rules_ok dflt \<Longrightarrow> rules_ok (gate_rules_from_dict data dflt)"
  by (auto simp: rules_ok_def gate_rules_from_dict_def Let_def)

lemma upper_severity: "s \<in> set SEVERITIES \<Longrightarrow> py_upper s = s"
  by (auto simp: SEVERITIES_def py_upper_def upper_char_def)

lemma rules_again:
  assumes "rules_ok g"
  shows "gate_rules_from_dict (gate_rules_to_dict g) d = g"
  using assms by (cases g; cases "block_severity g")
    (auto simp: rules_ok_def gate_rules_from_dict_def gate_rules_to_dict_def jget_or_def upper_severity)

definition policy_ok :: "image_policy \<Rightarrow> bool" where
  "policy_ok p = (0 \<le> hold_seconds p \<and> hold_seconds p \<le> 120 \<and> 0 \<le> hold_max_bytes p \<and> hold_max_bytes p \<le> 2 ^ 40 \<and>
     1 \<le> rescan_hours p \<and> rescan_hours p \<le> 24 * 90 \<and> 1 \<le> rescan_recent_days p \<and> rescan_recent_days p \<le> 3650 \<and>
     30 \<le> scan_timeout_seconds p \<and> scan_timeout_seconds p \<le> 7200 \<and> 0 \<le> max_scan_bytes p \<and> max_scan_bytes p \<le> 2 ^ 44 \<and>
     1 \<le> keep_reports p \<and> keep_reports p \<le> 50 \<and> (case storage_budget_bytes p of None \<Rightarrow> True | Some b \<Rightarrow> 0 \<le> b) \<and>
     id_list_ok (deny_cves p) \<and> id_list_ok (allow_cves p) \<and> rules_ok (pull p) \<and> rules_ok (push p) \<and>
     length (platforms p) \<le> 32 \<and> list_all (\<lambda>s. s \<noteq> [] \<and> length s \<le> 64) (platforms p) \<and>
     set (severities p) \<subseteq> set SEVERITIES)"

lemma fmt_truthy: "jtruthy x \<Longrightarrow> fmt x \<noteq> []"
  by (cases x) (auto simp: show_int_def)

lemma platforms_ok: "length d \<le> 32 \<and> list_all (\<lambda>s. s \<noteq> [] \<and> length s \<le> 64) d \<Longrightarrow>
  length (read_platforms v d) \<le> 32 \<and> list_all (\<lambda>s. s \<noteq> [] \<and> length s \<le> 64) (read_platforms v d)"
  by (auto simp: read_platforms_def list_all_iff fmt_truthy split: option.splits dest!: in_set_takeD)

lemma platforms_again: "length ps \<le> 32 \<Longrightarrow> list_all (\<lambda>s. s \<noteq> [] \<and> length s \<le> 64) ps \<Longrightarrow>
  read_platforms (JList (map JStr ps)) d = ps"
  by (auto simp: read_platforms_def list_all_iff filter_map comp_def intro!: map_idI)

lemma severities_ok: "set d \<subseteq> set SEVERITIES \<Longrightarrow> set (read_severities v d) \<subseteq> set SEVERITIES"
  by (auto simp: read_severities_def split: option.splits)

lemma severities_again: "set ss \<subseteq> set SEVERITIES \<Longrightarrow> read_severities (JList (map JStr ss)) d = ss"
proof -
  assume s: "set ss \<subseteq> set SEVERITIES"
  then have "map (\<lambda>x. py_upper (fmt x)) (map JStr ss) = ss"
    by (auto simp: upper_severity intro!: map_idI)
  moreover have "filter (\<lambda>x. x \<in> set SEVERITIES) ss = ss" using s by (auto intro: filter_True)
  ultimately show ?thesis by (simp add: read_severities_def del: map_map)
qed

lemma default_policy_ok: "policy_ok default_image_policy"
  by (simp add: policy_ok_def default_image_policy_def rules_ok_def pull_defaults_def push_defaults_def id_list_ok_def SEVERITIES_def)

lemma rules_default_ok: "rules_ok pull_defaults" "rules_ok push_defaults"
  by (simp_all add: rules_ok_def pull_defaults_def push_defaults_def SEVERITIES_def)

lemma policy_in_range: "policy_ok (image_policy_from_dict data)"
proof (cases "is_obj data")
  case False
  then show ?thesis by (simp add: image_policy_from_dict_def Let_def default_policy_ok)
next
  case True
  have "policy_ok default_image_policy" by (rule default_policy_ok)
  with True show ?thesis
    unfolding image_policy_from_dict_def Let_def policy_ok_def
    by (auto simp: read_int_bounds read_float_bounds cve_list_ok platforms_ok severities_ok rules_in_range
        rules_default_ok option.case_eq_if dest: severities_ok [THEN subsetD])
qed

lemma policy_fields:
  assumes "is_obj d"
  shows "scanning_enabled (image_policy_from_dict d) = read_bool d ''scanning_enabled'' True"
    "scan_on_pull (image_policy_from_dict d) = read_bool d ''scan_on_pull'' True"
    "hold_enabled (image_policy_from_dict d) = read_bool d ''hold_enabled'' False"
    "hold_seconds (image_policy_from_dict d) = read_float d ''hold_seconds'' 0 120 15"
    "hold_max_bytes (image_policy_from_dict d) = read_int d ''hold_max_bytes'' 0 (2 ^ 40) (200 * 1024 * 1024)"
    "strict_mode (image_policy_from_dict d) = read_bool d ''strict_mode'' False"
    "deny_cves (image_policy_from_dict d) = cve_list (jget d ''deny_cves'')"
    "allow_cves (image_policy_from_dict d) = cve_list (jget d ''allow_cves'')"
    "pull (image_policy_from_dict d) = gate_rules_from_dict (jget d ''pull'') pull_defaults"
    "push (image_policy_from_dict d) = gate_rules_from_dict (jget d ''push'') push_defaults"
    "push_require_scan (image_policy_from_dict d) = read_bool d ''push_require_scan'' True"
    "rescan_hours (image_policy_from_dict d) = read_int d ''rescan_hours'' 1 (24 * 90) 24"
    "rescan_recent_days (image_policy_from_dict d) = read_int d ''rescan_recent_days'' 1 3650 30"
    "scan_timeout_seconds (image_policy_from_dict d) = read_int d ''scan_timeout_seconds'' 30 7200 900"
    "max_scan_bytes (image_policy_from_dict d) = read_int d ''max_scan_bytes'' 0 (2 ^ 44) (6 * 1024 * 1024 * 1024)"
    "platforms (image_policy_from_dict d) = read_platforms (jget d ''platforms'') [''linux/amd64'', ''linux/arm64'']"
    "severities (image_policy_from_dict d) = read_severities (jget d ''severities'') SEVERITIES"
    "ignore_unfixed (image_policy_from_dict d) = read_bool d ''ignore_unfixed'' False"
    "keep_reports (image_policy_from_dict d) = read_int d ''keep_reports'' 1 50 3"
    "storage_budget_bytes (image_policy_from_dict d) = (if jget d ''storage_budget_bytes'' = JNull then None else map_option (max 0) (py_int (jget d ''storage_budget_bytes'')))"
  using assms by (simp_all only: image_policy_from_dict_def Let_def default_image_policy_def image_policy.simps not_True_eq_False if_False)

lemma saved_fields:
  "jget (image_policy_to_dict p) ''scanning_enabled'' = JBool (scanning_enabled p)"
  "jget (image_policy_to_dict p) ''scan_on_pull'' = JBool (scan_on_pull p)"
  "jget (image_policy_to_dict p) ''hold_enabled'' = JBool (hold_enabled p)"
  "jget (image_policy_to_dict p) ''hold_seconds'' = JFloat (hold_seconds p)"
  "jget (image_policy_to_dict p) ''hold_max_bytes'' = JInt (hold_max_bytes p)"
  "jget (image_policy_to_dict p) ''strict_mode'' = JBool (strict_mode p)"
  "jget (image_policy_to_dict p) ''deny_cves'' = JList (map JStr (deny_cves p))"
  "jget (image_policy_to_dict p) ''allow_cves'' = JList (map JStr (allow_cves p))"
  "jget (image_policy_to_dict p) ''pull'' = gate_rules_to_dict (pull p)"
  "jget (image_policy_to_dict p) ''push'' = gate_rules_to_dict (push p)"
  "jget (image_policy_to_dict p) ''push_require_scan'' = JBool (push_require_scan p)"
  "jget (image_policy_to_dict p) ''rescan_hours'' = JInt (rescan_hours p)"
  "jget (image_policy_to_dict p) ''rescan_recent_days'' = JInt (rescan_recent_days p)"
  "jget (image_policy_to_dict p) ''scan_timeout_seconds'' = JInt (scan_timeout_seconds p)"
  "jget (image_policy_to_dict p) ''max_scan_bytes'' = JInt (max_scan_bytes p)"
  "jget (image_policy_to_dict p) ''platforms'' = JList (map JStr (platforms p))"
  "jget (image_policy_to_dict p) ''severities'' = JList (map JStr (severities p))"
  "jget (image_policy_to_dict p) ''ignore_unfixed'' = JBool (ignore_unfixed p)"
  "jget (image_policy_to_dict p) ''keep_reports'' = JInt (keep_reports p)"
  "jget (image_policy_to_dict p) ''storage_budget_bytes'' = (case storage_budget_bytes p of None \<Rightarrow> JNull | Some b \<Rightarrow> JInt b)"
  by (simp_all add: image_policy_to_dict_def)

lemma saved_present:
  "jhas (image_policy_to_dict p) ''scanning_enabled''"
  "jhas (image_policy_to_dict p) ''scan_on_pull''"
  "jhas (image_policy_to_dict p) ''hold_enabled''"
  "jhas (image_policy_to_dict p) ''strict_mode''"
  "jhas (image_policy_to_dict p) ''push_require_scan''"
  "jhas (image_policy_to_dict p) ''ignore_unfixed''"
  by (simp_all add: image_policy_to_dict_def)

lemma saved_obj: "is_obj (image_policy_to_dict p)"
  by (simp add: image_policy_to_dict_def)

lemma policy_again: "policy_ok p \<Longrightarrow> image_policy_from_dict (image_policy_to_dict p) = p"
  by (rule image_policy.equality; cases "storage_budget_bytes p"; simp add: policy_fields [OF saved_obj] saved_fields saved_present read_bool_def
      read_int_def read_float_def policy_ok_def clamp_bounds cve_list_again rules_again platforms_again severities_again)

text \<open>
  Whatever document is stored as the policy, the one read from it is in range: every limit
  within its bounds, the deny and allow lists sorted, without duplicates and upper-cased, severities
  and thresholds known ones, platforms bounded; and saving it and reading it back changes nothing.
\<close>

theorem policy_read_in_range:
  "policy_ok (image_policy_from_dict data) \<and>
   image_policy_from_dict (image_policy_to_dict (image_policy_from_dict data)) = image_policy_from_dict data"
  using policy_in_range policy_again by blast

lemma ghsa_deny_missed:
  \<comment> \<open>identifiers are upper-cased when the policy is read and compared as the scanner reported them\<close>
  "deny_cves (image_policy_from_dict (JObj [(''deny_cves'', JList [JStr ''GHSA-jfh8-c2jp-5v3q''])])) = [''GHSA-JFH8-C2JP-5V3Q'']"
  by code_simp

lemma unscannable_child_served:
  \<comment> \<open>asked for itself the image is refused for good, asked for through its index it is not\<close>
  "let repo = (new_repo 1 ''local/app'' True);
       child = ((new_manifest 7 ''sha256:c'')\<lparr>m_kind := Image, scan_status := ''not_applicable''\<rparr>);
       idx = ((new_manifest 8 ''sha256:i'')\<lparr>m_kind := Index, scan_status := ''not_applicable''\<rparr>);
       db = (empty_db\<lparr>repos := [repo], manifests := [child, idx], manifest_refs := [\<lparr>ref_manifest = 8, ref_entry = \<lparr>mr_type = Child, mr_digest = ''sha256:c'', mr_media = None, mr_size = 1,
        mr_position = 0, mr_platform = None, mr_annotations = JObj []\<rparr>\<rparr>], links := []\<rparr>)
   in v_code (evaluate_pull db repo child default_image_policy) = ''DENIED'' \<and>
      \<not> allowed (evaluate_pull db repo child default_image_policy) \<and>
      allowed (evaluate_pull db repo idx default_image_policy)"
  by (simp add: Let_def evaluate_pull_def push_blocked_def push_block_reasons_def default_image_policy_def
      evaluate_index_def index_children_def child_verdict_def new_rows)

end
