(* ===== verification/Docker_Registry.thy ===== *)
theory Docker_Registry
  imports Docker_Policy
begin

section \<open>Manifests, tags and blobs of a repository (\<open>docker/registry.py\<close>)\<close>

text \<open>
  The repository rows, the content-addressed store of verified blobs, storing and linking a
  manifest, tags, which blobs belong to a repository and when their bytes may be served. Hashing,
  the JSON decoder and the ids of upstreams are arguments (\<open>registry_env\<close>); the caches of missing
  references and the herd guard around an upstream call are left to the components that hold them.
\<close>

record registry_env =
  hash_of :: "string \<Rightarrow> string"
  loads :: "string \<Rightarrow> json option"
  max_manifest_bytes :: nat
  max_index_entries :: nat
  upstream_id_of :: "string \<Rightarrow> int"

record registry =
  db :: registry_db
  oci :: "(string \<times> string) list"
  upload_files :: "(string \<times> string) list"

datatype registry_error = ManifestInvalid manifest_error | DigestInvalid | ManifestUnknown | BlobUnknown
  | NameUnknown | NameInvalid | TagInvalid | Denied | UploadUnknown | MissingBlobs "string list"
  | UpstreamDown | SizeInvalid | RangeInvalid

subsection \<open>The store\<close>

definition exists_blob :: "string \<Rightarrow> registry \<Rightarrow> bool" where
  "exists_blob d st = (map_of (oci st) d \<noteq> None)"

definition size_of_blob :: "string \<Rightarrow> registry \<Rightarrow> nat option" where
  "size_of_blob d st = map_option length (map_of (oci st) d)"

definition store_blob :: "string \<Rightarrow> string \<Rightarrow> registry \<Rightarrow> registry" where
  "store_blob d data st = (if exists_blob d st then st else st\<lparr>oci := (d, data) # oci st\<rparr>)"

definition put_bytes :: "registry_env \<Rightarrow> string \<Rightarrow> string option \<Rightarrow> registry \<Rightarrow> registry_error + string \<times> registry" where
  "put_bytes env data expected st = (let digest = hash_of env data in
     if opt_text expected \<noteq> [] \<and> opt_text expected \<noteq> digest then Inl DigestInvalid
     else Inr (digest, store_blob digest data st))"

definition delete_file :: "string \<Rightarrow> registry \<Rightarrow> registry" where
  "delete_file d st = st\<lparr>oci := filter (\<lambda>e. fst e \<noteq> d) (oci st)\<rparr>"

subsection \<open>Repositories, links, tags\<close>

definition repo_by_name :: "string \<Rightarrow> registry_db \<Rightarrow> repo_row option" where
  "repo_by_name n d = find (\<lambda>r. r_name r = n) (repos d)"

definition get_repo :: "registry_env \<Rightarrow> target \<Rightarrow> bool \<Rightarrow> registry_db \<Rightarrow> repo_row option \<times> registry_db" where
  "get_repo env tgt create d = (case repo_by_name (canonical tgt) d of
     Some r \<Rightarrow> (Some r, d)
   | None \<Rightarrow> if \<not> create then (None, d)
       else (let r = (new_repo (fresh_id (map r_id (repos d))) (canonical tgt) (local tgt))
               \<lparr>r_upstream := map_option (upstream_id_of env \<circ> up_name) (upstream tgt), r_remote_name := remote tgt\<rparr>
         in (Some r, d\<lparr>repos := repos d @ [r]\<rparr>)))"

definition linked :: "int \<Rightarrow> int \<Rightarrow> registry_db \<Rightarrow> bool" where
  "linked rid mid d = list_ex (\<lambda>l. l_repo l = rid \<and> l_manifest l = mid) (links d)"

definition link :: "int \<Rightarrow> int \<Rightarrow> registry_db \<Rightarrow> registry_db" where
  "link rid mid d = (if linked rid mid d then d
     else d\<lparr>links := links d @ [\<lparr>l_repo = rid, l_manifest = mid, push_block_reason = None\<rparr>]\<rparr>)"

definition find_tag :: "int \<Rightarrow> string \<Rightarrow> registry_db \<Rightarrow> tag_row option" where
  "find_tag rid tag d = find (\<lambda>t. t_repo t = rid \<and> t_tag t = tag) (tags d)"

definition set_tag :: "int \<Rightarrow> string \<Rightarrow> int \<Rightarrow> int \<Rightarrow> int option \<Rightarrow> registry_db \<Rightarrow> registry_db" where
  "set_tag rid tag mid now user d = (case find_tag rid tag d of
     None \<Rightarrow> d\<lparr>tags := tags d @ [\<lparr>t_repo = rid, t_tag = tag, t_manifest = mid, t_checked = now, t_pushed_by = user\<rparr>]\<rparr>
   | Some _ \<Rightarrow> d\<lparr>tags := update_where (\<lambda>t. t_repo t = rid \<and> t_tag t = tag)
       (\<lambda>t. t\<lparr>t_manifest := mid, t_checked := now, t_pushed_by := (if user = None then t_pushed_by t else user)\<rparr>) (tags d)\<rparr>)"

subsection \<open>Storing a manifest\<close>

definition parent_ref :: "string \<Rightarrow> registry_db \<Rightarrow> manifest_ref option" where
  \<comment> \<open>the entry of an index that named this digest before\<close>
  "parent_ref digest d = map_option ref_entry
     (find (\<lambda>r. mr_digest (ref_entry r) = digest \<and> mr_type (ref_entry r) = Child) (manifest_refs d))"

definition child_platform :: "manifest_ref \<Rightarrow> registry_db \<Rightarrow> registry_db" where
  "child_platform r d = (case mr_platform r of
     None \<Rightarrow> d
   | Some p \<Rightarrow> if p = [] then d
       else d\<lparr>manifests := update_where (\<lambda>m. m_digest m = mr_digest r \<and> m_platform m = None)
         (\<lambda>m. m\<lparr>m_platform := Some p\<rparr>) (manifests d)\<rparr>)"

definition child_kind :: "manifest_ref \<Rightarrow> registry_db \<Rightarrow> registry_db" where
  "child_kind r d = (if is_attestation_entry r
     then d\<lparr>manifests := update_where (\<lambda>m. m_digest m = mr_digest r)
         (\<lambda>m. m\<lparr>m_kind := Attestation, scan_status := ''not_applicable''\<rparr>) (manifests d)\<rparr>
     else d)"

definition learn_children :: "manifest_ref list \<Rightarrow> registry_db \<Rightarrow> registry_db" where
  "learn_children rs d = foldl (\<lambda>d r. child_kind r (child_platform r d)) d rs"

definition manifest_of ::
  "registry_env \<Rightarrow> parsed_manifest \<Rightarrow> string \<Rightarrow> nat \<Rightarrow> int option \<Rightarrow> int option \<Rightarrow> registry_db \<Rightarrow> manifest_row" where
  "manifest_of env p digest len upstream_id pushed_by d = (let
     parent = (if pm_is_index p then None else parent_ref digest d);
     attested = (case parent of None \<Rightarrow> False | Some r \<Rightarrow> is_attestation_entry r);
     kind = (if attested then Attestation else pm_kind p)
     in (new_manifest (fresh_id (map m_id (manifests d))) digest)
       \<lparr>m_media_type := pm_media_type p, m_size := len, m_is_index := pm_is_index p, m_kind := kind,
        m_artifact_type := pm_artifact_type p, m_config_digest := pm_config_digest p,
        m_config_media_type := pm_config_media_type p,
        m_platform := (case parent of None \<Rightarrow> None | Some r \<Rightarrow> if attested then None else mr_platform r),
        m_total_size := pm_total_size p, m_layer_count := pm_layer_count p, m_subject := pm_subject_digest p,
        m_annotations := pm_annotations p, m_upstream := upstream_id, m_pushed_by := pushed_by,
        scan_status := (if kind = Image then ''unscanned'' else ''not_applicable'')\<rparr>)"

definition store_manifest ::
  "registry_env \<Rightarrow> string \<Rightarrow> string option \<Rightarrow> string option \<Rightarrow> int option \<Rightarrow> int option \<Rightarrow> registry \<Rightarrow>
   registry_error + manifest_row \<times> registry" where
  "store_manifest env body content_type expected upstream_id pushed_by st =
     (case parse (max_manifest_bytes env) (max_index_entries env) (length body) (loads env body) content_type of
        Inl e \<Rightarrow> Inl (ManifestInvalid e)
      | Inr p \<Rightarrow> sum_bind (put_bytes env body expected st) (\<lambda>(digest, st1).
          case manifest_by_digest digest (db st1) of
            Some existing \<Rightarrow> Inr (existing, st1)
          | None \<Rightarrow> (let d = db st1;
              row = manifest_of env p digest (length body) upstream_id pushed_by d;
              d1 = d\<lparr>manifests := manifests d @ [row],
                manifest_refs := manifest_refs d @ map (\<lambda>r. \<lparr>ref_manifest = m_id row, ref_entry = r\<rparr>) (pm_refs p)\<rparr>;
              d2 = (if pm_is_index p then learn_children (pm_refs p) d1 else d1)
            in Inr (row, st1\<lparr>db := d2\<rparr>))))"

subsection \<open>Blobs of a repository\<close>

definition repo_manifest_ids :: "int \<Rightarrow> registry_db \<Rightarrow> int list" where
  "repo_manifest_ids rid d = map l_manifest (filter (\<lambda>l. l_repo l = rid) (links d))"

definition repo_child_ids :: "int \<Rightarrow> registry_db \<Rightarrow> int list" where
  "repo_child_ids rid d = (let ids = repo_manifest_ids rid d;
     digests = map (mr_digest \<circ> ref_entry) (filter (\<lambda>r. ref_manifest r \<in> set ids \<and> mr_type (ref_entry r) = Child) (manifest_refs d))
     in map m_id (filter (\<lambda>m. m_digest m \<in> set digests) (manifests d)))"

definition blob_in_repo :: "int \<Rightarrow> string \<Rightarrow> registry_db \<Rightarrow> bool" where
  "blob_in_repo rid digest d = (list_ex (\<lambda>e. e = (rid, digest)) (repo_blobs d) \<or>
     list_ex (\<lambda>r. mr_digest (ref_entry r) = digest \<and>
       (ref_manifest r \<in> set (repo_manifest_ids rid d) \<or> ref_manifest r \<in> set (repo_child_ids rid d))) (manifest_refs d))"

definition VERDICT_MANIFESTS :: nat where
  "VERDICT_MANIFESTS = 50"

definition manifests_naming_blob :: "int \<Rightarrow> string \<Rightarrow> registry_db \<Rightarrow> manifest_row list" where
  "manifests_naming_blob rid digest d = (let
     naming = map ref_manifest (filter (\<lambda>r. mr_digest (ref_entry r) = digest \<and> mr_type (ref_entry r) \<noteq> Child \<and>
       (ref_manifest r \<in> set (repo_manifest_ids rid d) \<or> ref_manifest r \<in> set (repo_child_ids rid d))) (manifest_refs d))
     in take VERDICT_MANIFESTS
       (sort_key (\<lambda>m. (- last_accessed m, - m_id m)) (filter (\<lambda>m. m_id m \<in> set naming) (manifests d))))"

fun first_allowed :: "registry_db \<Rightarrow> repo_row \<Rightarrow> image_policy \<Rightarrow> image_verdict option \<Rightarrow> manifest_row list \<Rightarrow> image_verdict" where
  "first_allowed d repo policy refusal [] = (case refusal of None \<Rightarrow> ALLOW | Some v \<Rightarrow> v)"
| "first_allowed d repo policy refusal (m # ms) = (let v = evaluate_pull d repo m policy in
     if allowed v then v
     else first_allowed d repo policy (case refusal of None \<Rightarrow> Some v | Some r \<Rightarrow> Some r) ms)"

definition quarantine_verdict :: "repo_row \<Rightarrow> image_verdict" where
  "quarantine_verdict repo = refuse (''repository '' @ r_name repo @ '' is quarantined''
     @ (if opt_text (quarantine_reason repo) \<noteq> [] then '': '' @ opt_text (quarantine_reason repo) else [])) ''quarantine''"

definition blob_pull_verdict :: "registry_db \<Rightarrow> repo_row \<Rightarrow> string \<Rightarrow> image_policy \<Rightarrow> image_verdict" where
  "blob_pull_verdict d repo digest policy = (if quarantined repo then quarantine_verdict repo
     else first_allowed d repo policy None (manifests_naming_blob (r_id repo) digest d))"

definition known_blob_size :: "string \<Rightarrow> registry_db \<Rightarrow> int option" where
  "known_blob_size digest d = (case find (\<lambda>b. b_digest b = digest) (blobs d) of
     Some b \<Rightarrow> Some (int (b_size b))
   | None \<Rightarrow> map_option (mr_size \<circ> ref_entry) (find (\<lambda>r. mr_digest (ref_entry r) = digest) (manifest_refs d)))"

definition touch :: "int \<Rightarrow> int \<Rightarrow> int \<Rightarrow> registry_db \<Rightarrow> registry_db" where
  \<comment> \<open>the access time; pull counters are not kept in the model\<close>
  "touch mid rid now d = d\<lparr>manifests := update_where (\<lambda>m. m_id m = mid) (\<lambda>m. m\<lparr>last_accessed := now\<rparr>) (manifests d)\<rparr>"

definition list_tags :: "string list \<Rightarrow> repo_row option \<Rightarrow> nat option \<Rightarrow> string option \<Rightarrow> registry_db \<Rightarrow> string list" where
  \<comment> \<open>\<open>remote_tags\<close> are the upstream's, or the cached ones\<close>
  "list_tags remote_tags repo n from d = (let
     own = (case repo of None \<Rightarrow> [] | Some r \<Rightarrow> map t_tag (filter (\<lambda>t. t_repo t = r_id r) (tags d)));
     merged = sort (if repo = None then remote_tags else remdups (remote_tags @ own));
     after = (if opt_text from = [] then merged else filter (\<lambda>t. the from < t) merged)
     in (case n of None \<Rightarrow> after | Some k \<Rightarrow> take k after))"

text \<open>
  How a blob is answered: a slice of the stored bytes, or a fetch from the upstream with the size its
  manifest declared. A range is a start and an optional inclusive end.
\<close>

datatype blob_answer = Stored string nat nat | FromUpstream "int option"

definition open_blob ::
  "target \<Rightarrow> repo_row \<Rightarrow> string \<Rightarrow> (nat \<times> nat option) option \<Rightarrow> registry \<Rightarrow> registry_error + blob_answer" where
  "open_blob tgt repo digest rng st = (if \<not> blob_in_repo (r_id repo) digest (db st) then Inl BlobUnknown
     else (case map_of (oci st) digest of
        Some data \<Rightarrow> (let sz = length data in
          case rng of
            None \<Rightarrow> Inr (Stored data 0 sz)
          | Some (a, e) \<Rightarrow>
              (let stop = (case e of None \<Rightarrow> int sz - 1 | Some x \<Rightarrow> if sz \<le> x then int sz - 1 else int x) in
               if sz \<le> a \<or> stop < int a then Inl RangeInvalid else Inr (Stored data a (nat stop + 1))))
      | None \<Rightarrow> if local tgt then Inl BlobUnknown else Inr (FromUpstream (known_blob_size digest (db st)))))"

definition served_bytes :: "blob_answer \<Rightarrow> string option" where
  "served_bytes a = (case a of Stored data from stop \<Rightarrow> Some (drop from (take stop data)) | FromUpstream _ \<Rightarrow> None)"

definition head_blob :: "target \<Rightarrow> repo_row \<Rightarrow> string \<Rightarrow> registry \<Rightarrow> registry_error + int option" where
  \<comment> \<open>\<open>Inr None\<close> is left to the upstream\<close>
  "head_blob tgt repo digest st = (if \<not> blob_in_repo (r_id repo) digest (db st) then Inl BlobUnknown
     else (case size_of_blob digest st of
        Some n \<Rightarrow> Inr (Some (int n))
      | None \<Rightarrow> if local tgt then Inl BlobUnknown else Inr (known_blob_size digest (db st))))"

end
