(* ===== verification/Docker_Scanning.thy ===== *)
theory Docker_Scanning
  imports Docker_Registry "HOL-Library.Option_ord"
begin

section \<open>Scanning (\<open>docker/scanning.py\<close>)\<close>

text \<open>
  The scan queue, reading the scanner's report, ingesting it, and the push policy applied to a
  scanned image. The policy in force, the clock and the worker's name are arguments; a job is
  handled through its id, as the row is fetched and assigned to.
\<close>

definition MAX_ATTEMPTS :: nat where
  "MAX_ATTEMPTS = 3"

definition LEASE :: int where
  "LEASE = 120"

definition MAX_REPORT_BYTES :: nat where
  "MAX_REPORT_BYTES = 64 * 1024 * 1024"

definition MAX_SBOM_BYTES :: nat where
  "MAX_SBOM_BYTES = 64 * 1024 * 1024"

definition MAX_FINDINGS :: nat where
  "MAX_FINDINGS = 25000"

definition VULN_ID :: re where
  "VULN_ID = Seqs [Cls (\<lambda>c. is_alpha c \<or> is_digit c),
     Seq (Cls (\<lambda>c. is_alpha c \<or> is_digit c \<or> c \<in> set ''._:-'')) (UpTo 62 (Cls (\<lambda>c. is_alpha c \<or> is_digit c \<or> c \<in> set ''._:-''))), EndZ]"

subsection \<open>The queue\<close>

definition active :: "job_row \<Rightarrow> bool" where
  "active j = (j_status j \<in> {''queued'', ''running''})"

definition set_job :: "int \<Rightarrow> (job_row \<Rightarrow> job_row) \<Rightarrow> registry_db \<Rightarrow> registry_db" where
  "set_job i f d = d\<lparr>jobs := update_where (\<lambda>j. j_id j = i) f (jobs d)\<rparr>"

definition set_status :: "int \<Rightarrow> string \<Rightarrow> registry_db \<Rightarrow> registry_db" where
  "set_status mid s d = set_manifest mid (\<lambda>m. m\<lparr>scan_status := s\<rparr>) d"

definition enqueue ::
  "manifest_row \<Rightarrow> string \<Rightarrow> string \<Rightarrow> int \<Rightarrow> string option \<Rightarrow> registry_db \<Rightarrow> int option \<times> registry_db" where
  "enqueue m repository reason priority mode d = (if m_kind m \<noteq> Image then (None, d)
     else (case find (\<lambda>j. j_manifest j = m_id m \<and> active j) (jobs d) of
        Some j \<Rightarrow> (Some (j_id j),
          if priority < j_priority j \<and> j_status j = ''queued'' then set_job (j_id j) (\<lambda>j. j\<lparr>j_priority := priority\<rparr>) d else d)
      | None \<Rightarrow> (let
          md = (case mode of Some x \<Rightarrow> x
            | None \<Rightarrow> if opt_text (sbom_digest m) \<noteq> [] \<and> reason = ''schedule'' then ''sbom'' else ''image'');
          job = \<lparr>j_id = fresh_id (map j_id (jobs d)), j_manifest = m_id m, j_repository = take 512 repository, j_mode = md,
            j_reason = reason, j_priority = priority, j_status = ''queued'', j_attempts = 0, j_worker = None,
            j_lease = None, j_error = None\<rparr>;
          d1 = d\<lparr>jobs := jobs d @ [job]\<rparr>
          in (Some (j_id job),
              if scan_status m \<in> {''unscanned'', ''failed''} then set_status (m_id m) ''queued'' d1 else d1))))"

definition requeue_lapsed :: "int \<Rightarrow> registry_db \<Rightarrow> registry_db" where
  "requeue_lapsed now d = d\<lparr>jobs := update_where
     (\<lambda>j. j_status j = ''running'' \<and> (case j_lease j of None \<Rightarrow> False | Some t \<Rightarrow> t < now))
     (\<lambda>j. j\<lparr>j_status := ''queued'', j_worker := None, j_lease := None\<rparr>) (jobs d)\<rparr>"

text \<open>\<open>ORDER BY priority, id LIMIT 1\<close> over the queued jobs.\<close>

fun next_job :: "job_row list \<Rightarrow> job_row option" where
  "next_job [] = None"
| "next_job (j # js) = (if j_status j \<noteq> ''queued'' then next_job js
     else (case next_job js of None \<Rightarrow> Some j
       | Some k \<Rightarrow> if (j_priority j, j_id j) \<le> (j_priority k, j_id k) then Some j else Some k))"

definition claim :: "string \<Rightarrow> int \<Rightarrow> registry_db \<Rightarrow> int option \<times> registry_db" where
  "claim worker now d0 = (let d = requeue_lapsed now d0 in
     case next_job (jobs d) of
       None \<Rightarrow> (None, d)
     | Some j \<Rightarrow> (Some (j_id j),
         set_status (j_manifest j) ''scanning''
           (set_job (j_id j) (\<lambda>j. j\<lparr>j_status := ''running'', j_worker := Some (take 128 worker),
              j_attempts := j_attempts j + 1, j_lease := Some (now + LEASE)\<rparr>) d)))"

definition renew :: "int \<Rightarrow> int \<Rightarrow> registry_db \<Rightarrow> registry_db" where
  "renew jid now d = set_job jid (\<lambda>j. j\<lparr>j_lease := Some (now + LEASE)\<rparr>) d"

definition fail_text :: "string \<Rightarrow> string option" where
  "fail_text error = Some (take 2000 (if error = [] then ''unknown error'' else error))"

definition fail :: "job_row \<Rightarrow> string \<Rightarrow> bool \<Rightarrow> registry_db \<Rightarrow> registry_db" where
  "fail j error retry d =
     (if MAX_ATTEMPTS \<le> j_attempts j \<or> \<not> retry then
        set_status (j_manifest j) ''failed''
          (set_job (j_id j) (\<lambda>j. j\<lparr>j_error := fail_text error, j_status := ''failed''\<rparr>) d)
      else
        set_manifest (j_manifest j) (\<lambda>m. if scan_status m = ''scanning'' then m\<lparr>scan_status := ''queued''\<rparr> else m)
          (set_job (j_id j) (\<lambda>j. j\<lparr>j_error := fail_text error, j_status := ''queued'', j_worker := None, j_lease := None\<rparr>) d))"

definition skip :: "job_row \<Rightarrow> string \<Rightarrow> registry_db \<Rightarrow> registry_db" where
  "skip j reason d = set_status (j_manifest j) ''not_applicable''
     (set_job (j_id j) (\<lambda>j. j\<lparr>j_status := ''done'', j_error := Some (take 2000 reason)\<rparr>) d)"

subsection \<open>Reading a report\<close>

record parsed_finding =
  pf_vuln :: string
  pf_pkg :: string
  pf_pkg_type :: "string option"
  pf_installed :: "string option"
  pf_fixed :: "string option"
  pf_severity :: string
  pf_cvss :: "rat option"
  pf_title :: "string option"
  pf_url :: "string option"
  pf_layer :: "string option"

datatype report_error = ReportTooLarge | ReportNotJson | NotTrivy | TooManyFindings | NotIterable
  | SbomTooLarge | SbomNotJson | NotCycloneDX | ManifestGone

definition clean_text :: "json \<Rightarrow> nat \<Rightarrow> string option" where
  "clean_text v limit = (if as_num v = None \<and> as_str v = None then None
     else (let t = filter (\<lambda>c. c \<noteq> CHR 0x00) (fmt v) in if t = [] then None else Some (take limit t)))"

definition clean_url :: "json \<Rightarrow> string option" where
  "clean_url v = (case clean_text v 512 of None \<Rightarrow> None
     | Some t \<Rightarrow> if starts_with t ''https://'' \<or> starts_with t ''http://'' then Some t else None)"

fun source_score :: "string list \<Rightarrow> json \<Rightarrow> rat option" where
  "source_score [] src = None"
| "source_score (k # ks) src = (case as_num (jget src k) of
     None \<Rightarrow> source_score ks src
   | Some x \<Rightarrow> if 0 \<le> x \<and> x \<le> 10 then Some x else source_score ks src)"

definition best_of :: "rat option \<Rightarrow> rat option \<Rightarrow> rat option" where
  "best_of best score = (case score of None \<Rightarrow> best
     | Some x \<Rightarrow> (case best of None \<Rightarrow> Some x | Some b \<Rightarrow> Some (max b x)))"

definition cvss :: "json \<Rightarrow> rat option" where
  "cvss v = (case v of
     JObj kvs \<Rightarrow> foldl (\<lambda>b src. if is_obj src then best_of b (source_score [''V40Score'', ''V3Score'', ''V2Score''] src) else b)
       None (map snd kvs)
   | _ \<Rightarrow> None)"

definition wanted_severities :: "image_policy \<Rightarrow> string list" where
  "wanted_severities policy = (if severities policy = [] then SEVERITIES else severities policy)"

definition finding_key :: "parsed_finding \<Rightarrow> string \<times> string \<times> string option" where
  "finding_key f = (pf_vuln f, pf_pkg f, pf_installed f)"

definition severity_of :: "json \<Rightarrow> string" where
  "severity_of v = (let s = py_upper (case clean_text (jget v ''Severity'') 10 of None \<Rightarrow> ''UNKNOWN'' | Some s \<Rightarrow> s)
     in if s \<in> set SEVERITIES then s else ''UNKNOWN'')"

definition layer_digest :: "json \<Rightarrow> string option" where
  "layer_digest v = (let layer = (if is_obj (jget v ''Layer'') then jget v ''Layer'' else JObj []) in
     case clean_text (jget layer ''Digest'') 80 of None \<Rightarrow> None
     | Some d \<Rightarrow> if re_matches DIGEST_RE d then Some d else None)"

text \<open>One entry of \<open>Vulnerabilities\<close>: the finding it makes, if it makes one.\<close>

definition read_finding :: "image_policy \<Rightarrow> string option \<Rightarrow> json \<Rightarrow> parsed_finding option" where
  "read_finding policy pkg_type v = (if \<not> is_obj v then None
     else (case clean_text (jget v ''VulnerabilityID'') 64 of
        None \<Rightarrow> None
      | Some vuln \<Rightarrow>
          (let sev = severity_of v; fixed = clean_text (jget v ''FixedVersion'') 255 in
           if \<not> re_matches VULN_ID vuln then None
           else if sev \<notin> set (wanted_severities policy) then None
           else if ignore_unfixed policy \<and> fixed = None then None
           else Some
             \<lparr>pf_vuln = vuln,
              pf_pkg = (case clean_text (jget v ''PkgName'') 255 of None \<Rightarrow> ''?'' | Some p \<Rightarrow> p),
              pf_pkg_type = pkg_type, pf_installed = clean_text (jget v ''InstalledVersion'') 128, pf_fixed = fixed,
              pf_severity = sev, pf_cvss = cvss (jget v ''CVSS''), pf_title = clean_text (jget v ''Title'') 500,
              pf_url = clean_url (jget v ''PrimaryURL''), pf_layer = layer_digest v\<rparr>)))"

fun read_findings :: "image_policy \<Rightarrow> string option \<Rightarrow> json list \<Rightarrow> parsed_finding list \<Rightarrow> report_error + parsed_finding list" where
  "read_findings policy pkg_type [] acc = Inr acc"
| "read_findings policy pkg_type (v # vs) acc = (case read_finding policy pkg_type v of
     None \<Rightarrow> read_findings policy pkg_type vs acc
   | Some f \<Rightarrow>
       if finding_key f \<in> set (map finding_key acc) then read_findings policy pkg_type vs acc
       else if MAX_FINDINGS < length acc + 1 then Inl TooManyFindings
       else read_findings policy pkg_type vs (acc @ [f]))"

definition entries_of :: "json \<Rightarrow> report_error + json list" where
  \<comment> \<open>iterating over \<open>x or []\<close>: a dict gives its keys, a string its characters\<close>
  "entries_of x = (if \<not> jtruthy x then Inr []
     else (case x of JList xs \<Rightarrow> Inr xs | JObj kvs \<Rightarrow> Inr (map (JStr \<circ> fst) kvs)
       | JStr s \<Rightarrow> Inr (map (\<lambda>c. JStr [c]) s) | _ \<Rightarrow> Inl NotIterable))"

fun read_results :: "image_policy \<Rightarrow> json list \<Rightarrow> parsed_finding list \<Rightarrow> report_error + parsed_finding list" where
  "read_results policy [] acc = Inr acc"
| "read_results policy (r # rs) acc = (if \<not> is_obj r then read_results policy rs acc
     else sum_bind (entries_of (jget r ''Vulnerabilities'')) (\<lambda>vs.
       sum_bind (read_findings policy (clean_text (jget r ''Type'') 32) vs acc) (read_results policy rs)))"

definition parse_report :: "nat \<Rightarrow> json option \<Rightarrow> image_policy \<Rightarrow> report_error + parsed_finding list" where
  "parse_report len loaded policy = (if MAX_REPORT_BYTES < len then Inl ReportTooLarge
     else (case loaded of None \<Rightarrow> Inl ReportNotJson
       | Some doc \<Rightarrow>
           if \<not> is_obj doc then Inl NotTrivy
           else (case as_list (jget_or doc ''Results'' (JList [])) of
               None \<Rightarrow> Inl NotTrivy
             | Some rs \<Rightarrow> read_results policy rs [])))"

definition validate_sbom :: "nat \<Rightarrow> json option \<Rightarrow> report_error + unit" where
  "validate_sbom len loaded = (if MAX_SBOM_BYTES < len then Inl SbomTooLarge
     else (case loaded of None \<Rightarrow> Inl SbomNotJson
       | Some doc \<Rightarrow> if \<not> is_obj doc \<or> jget doc ''bomFormat'' \<noteq> JStr ''CycloneDX'' then Inl NotCycloneDX else Inr ()))"

subsection \<open>The push policy\<close>

definition apply_push_policy :: "image_policy \<Rightarrow> manifest_row \<Rightarrow> registry_db \<Rightarrow> registry_db" where
  "apply_push_policy policy m d =
     (if m_kind m \<noteq> Image \<or> scan_status m \<noteq> ''scanned'' then d
      else if \<not> list_ex (\<lambda>l. l_manifest l = m_id m \<and> l_repo l \<in> set (local_repo_ids d)) (links d) then d
      else (let v = evaluate_rules d (m_id m) policy (push policy) ''push'' in
        d\<lparr>links := update_where (\<lambda>l. l_manifest l = m_id m \<and> l_repo l \<in> set (local_repo_ids d))
            (\<lambda>l. l\<lparr>push_block_reason := (if allowed v then None else v_reason v)\<rparr>) (links d)\<rparr>))"

definition reapply_push_policy :: "image_policy \<Rightarrow> registry_db \<Rightarrow> registry_db" where
  "reapply_push_policy policy d = (let
     in_local = map l_manifest (filter (\<lambda>l. l_repo l \<in> set (local_repo_ids d)) (links d));
     rows = filter (\<lambda>m. m_id m \<in> set in_local \<and> m_kind m = Image \<and> scan_status m = ''scanned'') (manifests d)
     in foldl (\<lambda>d m. apply_push_policy policy m d) d rows)"

subsection \<open>Ingesting a report\<close>

definition uses_of_file :: "string \<Rightarrow> registry_db \<Rightarrow> nat" where
  "uses_of_file digest d = length (filter (\<lambda>s. s_report s = Some digest) (scans d))
     + length (filter (\<lambda>m. sbom_digest m = Some digest) (manifests d))"

definition release_file :: "string \<Rightarrow> registry \<Rightarrow> registry" where
  "release_file digest st = (if uses_of_file digest (db st) \<le> 1 then delete_file digest st else st)"

fun prune_scans :: "scan_row list \<Rightarrow> registry \<Rightarrow> registry" where
  "prune_scans [] st = st"
| "prune_scans (old # rest) st = (case s_report old of
     None \<Rightarrow> prune_scans rest st
   | Some digest \<Rightarrow>
       if digest = [] then prune_scans rest st
       else (let st1 = release_file digest st in
         prune_scans rest (st1\<lparr>db := (db st1)\<lparr>scans := update_where (\<lambda>s. s_id s = s_id old)
           (\<lambda>s. s\<lparr>s_report := None\<rparr>) (scans (db st1))\<rparr>\<rparr>)))"

definition prune_reports :: "int \<Rightarrow> nat \<Rightarrow> registry \<Rightarrow> registry" where
  "prune_reports mid keep st = prune_scans
     (drop keep (sort_key (\<lambda>s. - s_id s) (filter (\<lambda>s. s_manifest s = mid) (scans (db st))))) st"

definition count_severities :: "parsed_finding list \<Rightarrow> (string \<times> nat) list" where
  "count_severities fs = map (\<lambda>sev. (sev, length (filter (\<lambda>f. pf_severity f = sev) fs))) SEVERITIES"

definition has_fix :: "parsed_finding \<Rightarrow> bool" where
  "has_fix f = (opt_text (pf_fixed f) \<noteq> [])"

definition exploited :: "registry_db \<Rightarrow> parsed_finding \<Rightarrow> bool" where
  "exploited d f = (starts_with (pf_vuln f) ''CVE-'' \<and> pf_vuln f \<in> set (kev_entries d))"

definition finding_of :: "registry_db \<Rightarrow> int \<Rightarrow> int \<Rightarrow> parsed_finding \<Rightarrow> finding_row" where
  "finding_of d mid scan f = \<lparr>f_manifest = mid, f_scan = scan, f_vuln = pf_vuln f, f_pkg = pf_pkg f,
     f_pkg_type = pf_pkg_type f, f_installed = pf_installed f, f_fixed = pf_fixed f, f_severity = pf_severity f,
     f_cvss = pf_cvss f, f_title = pf_title f, f_url = pf_url f, f_layer = pf_layer f, f_kev = exploited d f\<rparr>"

definition store_sbom :: "registry_env \<Rightarrow> manifest_row \<Rightarrow> string option \<Rightarrow> registry \<Rightarrow> registry" where
  "store_sbom env m sbom_raw st = (case sbom_raw of None \<Rightarrow> st
     | Some raw \<Rightarrow> (let new = hash_of env raw; st1 = store_blob new raw st;
         st2 = (if opt_text (sbom_digest m) \<noteq> [] \<and> sbom_digest m \<noteq> Some new
           then release_file (the (sbom_digest m)) st1 else st1)
       in st2\<lparr>db := set_manifest (m_id m) (\<lambda>m. m\<lparr>sbom_digest := Some new\<rparr>) (db st2)\<rparr>))"

definition record_scan :: "int \<Rightarrow> job_row \<Rightarrow> manifest_row \<Rightarrow> parsed_finding list \<Rightarrow> string \<Rightarrow> registry_db \<Rightarrow> registry_db" where
  "record_scan now job m fs report d = (let
     sid = fresh_id (map s_id (scans d));
     scan = \<lparr>s_id = sid, s_manifest = m_id m, s_mode = j_mode job, s_report = Some report, s_count = length fs\<rparr>;
     d1 = d\<lparr>scans := scans d @ [scan],
       findings := filter (\<lambda>f. f_manifest f \<noteq> m_id m) (findings d) @ map (finding_of d (m_id m) sid) fs\<rparr>;
     d2 = set_manifest (m_id m) (\<lambda>m. m\<lparr>scan_status := ''scanned'', scanned_at := Some now, latest_scan := Some sid,
       severity_counts := count_severities fs, fixable_counts := count_severities (filter has_fix fs),
       max_cvss := foldl (\<lambda>b f. best_of b (pf_cvss f)) None fs, fixable_count := length (filter has_fix fs),
       kev_count := length (filter (exploited d) fs)\<rparr>) d1
     in set_job (j_id job) (\<lambda>j. j\<lparr>j_status := ''done'', j_error := None\<rparr>) d2)"

definition ingest ::
  "registry_env \<Rightarrow> image_policy \<Rightarrow> int \<Rightarrow> job_row \<Rightarrow> string \<Rightarrow> string option \<Rightarrow> registry \<Rightarrow> report_error + registry" where
  "ingest env policy now job report_raw sbom_raw st = (case find_manifest (j_manifest job) (db st) of
     None \<Rightarrow> Inl ManifestGone
   | Some m \<Rightarrow> sum_bind (parse_report (length report_raw) (loads env report_raw) policy) (\<lambda>fs.
       sum_bind (case sbom_raw of None \<Rightarrow> Inr () | Some raw \<Rightarrow> validate_sbom (length raw) (loads env raw)) (\<lambda>_.
         (let report = hash_of env report_raw;
              st1 = store_sbom env m sbom_raw (store_blob report report_raw st);
              st2 = st1\<lparr>db := record_scan now job m fs report (db st1)\<rparr>;
              st3 = prune_reports (m_id m) (nat (keep_reports policy)) st2
          in Inr (case find_manifest (m_id m) (db st3) of None \<Rightarrow> st3
               | Some m' \<Rightarrow> st3\<lparr>db := apply_push_policy policy m' (db st3)\<rparr>)))))"

subsection \<open>Scheduling and the exploited-vulnerabilities catalogue\<close>

definition rescan_due :: "image_policy \<Rightarrow> int \<Rightarrow> manifest_row \<Rightarrow> bool" where
  "rescan_due policy now m = (m_kind m = Image \<and> scan_status m = ''scanned'' \<and>
     (case scanned_at m of None \<Rightarrow> False | Some t \<Rightarrow> t < now - 3600 * rescan_hours policy) \<and>
     now - 86400 * rescan_recent_days policy \<le> last_accessed m)"

text \<open>The join of due manifests with the repositories that hold them, oldest scan first.\<close>

definition rescan_rows :: "image_policy \<Rightarrow> int \<Rightarrow> nat \<Rightarrow> registry_db \<Rightarrow> (manifest_row \<times> string) list" where
  "rescan_rows policy now limit d = take limit (sort_key (\<lambda>(m, _). scanned_at m)
     (concat (map (\<lambda>m. concat (map (\<lambda>l. map (\<lambda>r. (m, r_name r)) (filter (\<lambda>r. r_id r = l_repo l) (repos d)))
       (filter (\<lambda>l. l_manifest l = m_id m) (links d)))) (filter (rescan_due policy now) (manifests d)))))"

fun enqueue_rescans :: "int list \<Rightarrow> (manifest_row \<times> string) list \<Rightarrow> nat \<Rightarrow> registry_db \<Rightarrow> nat \<times> registry_db" where
  "enqueue_rescans seen [] n d = (n, d)"
| "enqueue_rescans seen ((m, repo) # rows) n d = (if m_id m \<in> set seen then enqueue_rescans seen rows n d
     else (let (job, d') = enqueue m repo ''schedule'' 100
             (Some (if opt_text (sbom_digest m) \<noteq> [] then ''sbom'' else ''image'')) d
       in enqueue_rescans (m_id m # seen) rows (if job = None then n else n + 1) d'))"

definition schedule_rescans :: "image_policy \<Rightarrow> int \<Rightarrow> nat \<Rightarrow> registry_db \<Rightarrow> nat \<times> registry_db" where
  "schedule_rescans policy now limit d = (if \<not> scanning_enabled policy then (0, d)
     else enqueue_rescans [] (rescan_rows policy now limit d) 0 d)"

definition kev_ids :: "json list \<Rightarrow> string list" where
  "kev_ids entries = concat (map (\<lambda>e. if \<not> is_obj e then [] else
     (case clean_text (jget e ''cveID'') 32 of None \<Rightarrow> []
      | Some cve \<Rightarrow> if starts_with cve ''CVE-'' then [cve] else [])) entries)"

definition reflag_kev :: "image_policy \<Rightarrow> registry_db \<Rightarrow> registry_db" where
  "reflag_kev policy d = (let
     d1 = d\<lparr>findings := map (\<lambda>f. f\<lparr>f_kev := (f_vuln f \<in> set (kev_entries d))\<rparr>) (findings d)\<rparr>;
     d2 = d1\<lparr>manifests := update_where (\<lambda>m. scan_status m = ''scanned'')
       (\<lambda>m. m\<lparr>kev_count := length (filter (\<lambda>f. f_manifest f = m_id m \<and> f_kev f) (findings d1))\<rparr>) (manifests d1)\<rparr>
     in reapply_push_policy policy d2)"

datatype kev_error = NoList | NothingParsed

definition refresh_kev :: "image_policy \<Rightarrow> json \<Rightarrow> registry_db \<Rightarrow> kev_error + registry_db" where
  \<comment> \<open>the downloaded catalogue is an argument; its entries are distinct\<close>
  "refresh_kev policy doc d = (case as_list (jget doc ''vulnerabilities'') of
     None \<Rightarrow> Inl NoList
   | Some entries \<Rightarrow>
       if entries = [] then Inl NoList
       else if kev_ids entries = [] then Inl NothingParsed
       else Inr (reflag_kev policy (d\<lparr>kev_entries := kev_ids entries\<rparr>)))"

end
