(* ===== verification/Docker_Scanning_Spec.thy ===== *)
theory Docker_Scanning_Spec
  imports Docker_Scanning Docker_Policy_Spec
begin

section \<open>What the scan queue and the ingestion of reports promise\<close>

text \<open>
  The queue as a step relation and its invariant, what a claim takes, what a report can contribute,
  and the push verdict after a scan. Three lemmas record where an untrusted or unlucky scan does
  more harm than the module's comments allow.
\<close>

subsection \<open>The queue\<close>

lemma filter_update_mono:
  assumes "\<And>x. x \<in> set xs \<Longrightarrow> P x \<Longrightarrow> Q (f x) \<Longrightarrow> Q x"
  shows "length (filter Q (update_where P f xs)) \<le> length (filter Q xs)"
  using assms by (induction xs) auto

definition active_jobs :: "int \<Rightarrow> registry_db \<Rightarrow> nat" where
  "active_jobs mid d = length (filter (\<lambda>j. j_manifest j = mid \<and> active j) (jobs d))"

definition known_status :: "job_row \<Rightarrow> bool" where
  "known_status j = (j_status j \<in> {''queued'', ''running'', ''done'', ''failed''})"

definition queue_ok :: "registry_db \<Rightarrow> bool" where
  "queue_ok d = (distinct (map j_id (jobs d)) \<and> (\<forall>mid. active_jobs mid d \<le> 1) \<and>
     (\<forall>j \<in> set (jobs d). known_status j \<and> (j_status j = ''running'') = (j_lease j \<noteq> None \<and> active j)))"

inductive queue_step :: "registry_db \<Rightarrow> registry_db \<Rightarrow> bool" where
  enqueued: "enqueue m repository reason priority mode d = (job, d') \<Longrightarrow> queue_step d d'"
| claimed: "claim worker now d = (job, d') \<Longrightarrow> queue_step d d'"
| renewed: "j \<in> set (jobs d) \<Longrightarrow> j_status j = ''running'' \<Longrightarrow> queue_step d (renew (j_id j) now d)"
| failed: "j \<in> set (jobs d) \<Longrightarrow> j_status j = ''running'' \<Longrightarrow> queue_step d (fail j error retry d)"
| skipped: "j \<in> set (jobs d) \<Longrightarrow> j_status j = ''running'' \<Longrightarrow> queue_step d (skip j reason d)"
| recorded: "j \<in> set (jobs d) \<Longrightarrow> j_status j = ''running'' \<Longrightarrow> queue_step d (record_scan now j m fs report d)"

inductive queue_reachable :: "registry_db \<Rightarrow> bool" where
  idle: "jobs d = [] \<Longrightarrow> queue_reachable d"
| moved: "queue_reachable d \<Longrightarrow> queue_step d d' \<Longrightarrow> queue_reachable d'"

lemma jobs_frame [simp]:
  "jobs (set_manifest i g d) = jobs d" "jobs (set_status i s d) = jobs d"
  "jobs (set_job i f d) = update_where (\<lambda>j. j_id j = i) f (jobs d)"
  by (simp_all add: set_manifest_def set_status_def set_job_def)

text \<open>An update of rows that keeps ids and manifests, and activates nothing that was not active.\<close>

lemma update_jobs_ok:
  assumes ok: "queue_ok d"
    and jobs: "jobs d' = update_where P f (jobs d)"
    and keep: "\<And>j. j \<in> set (jobs d) \<Longrightarrow> P j \<Longrightarrow>
      j_id (f j) = j_id j \<and> j_manifest (f j) = j_manifest j \<and> active j \<and> known_status (f j) \<and>
      (j_status (f j) = ''running'') = (j_lease (f j) \<noteq> None \<and> active (f j))"
  shows "queue_ok d'"
proof -
  have "map j_id (jobs d') = map j_id (jobs d)"
    using keep by (auto simp: jobs update_where_def)
  moreover have "active_jobs mid d' \<le> 1" for mid
  proof -
    have "active_jobs mid d' \<le> active_jobs mid d"
      unfolding active_jobs_def jobs by (rule filter_update_mono) (use keep in auto)
    also have "\<dots> \<le> 1" using ok by (simp add: queue_ok_def)
    finally show ?thesis .
  qed
  moreover have "known_status j \<and> (j_status j = ''running'') = (j_lease j \<noteq> None \<and> active j)"
    if "j \<in> set (jobs d')" for j
  proof -
    from that obtain k where k: "k \<in> set (jobs d)" "j = (if P k then f k else k)"
      by (auto simp: jobs update_where_set)
    show ?thesis
    proof (cases "P k")
      case True
      with k keep [OF k(1)] show ?thesis by simp
    next
      case False
      with k ok show ?thesis by (simp add: queue_ok_def)
    qed
  qed
  ultimately show ?thesis using ok by (simp add: queue_ok_def)
qed

lemma set_job_ok:
  assumes "queue_ok d" "jobs d' = update_where (\<lambda>j. j_id j = j_id k) f (jobs d)" "k \<in> set (jobs d)" "active k"
    and "\<And>j. active j \<Longrightarrow> j_status j = j_status k \<Longrightarrow> j_lease j = j_lease k \<Longrightarrow> j_id (f j) = j_id j \<and> j_manifest (f j) = j_manifest j \<and> known_status (f j) \<and>
      (j_status (f j) = ''running'') = (j_lease (f j) \<noteq> None \<and> active (f j))"
  shows "queue_ok d'"
proof (rule update_jobs_ok [OF assms(1,2)])
  fix j assume j: "j \<in> set (jobs d)" "j_id j = j_id k"
  with assms(1,3) have "j = k" by (auto simp: queue_ok_def distinct_map inj_on_def)
  with assms(4,5) show "j_id (f j) = j_id j \<and> j_manifest (f j) = j_manifest j \<and> active j \<and> known_status (f j) \<and>
      (j_status (f j) = ''running'') = (j_lease (f j) \<noteq> None \<and> active (f j))" by blast
qed

lemma enqueue_ok:
  assumes "queue_ok d" "enqueue m repository reason priority mode d = (job, d')"
  shows "queue_ok d'"
proof (cases "m_kind m = Image")
  case False
  with assms show ?thesis by (simp add: enqueue_def)
next
  case True
  note img = this
  show ?thesis
  proof (cases "find (\<lambda>j. j_manifest j = m_id m \<and> active j) (jobs d)")
    case (Some k)
    then have k: "k \<in> set (jobs d)" "active k" by (auto simp: find_Some_iff)
    show ?thesis
    proof (cases "priority < j_priority k \<and> j_status k = ''queued''")
      case True
      with img Some assms(2) have "jobs d' = update_where (\<lambda>j. j_id j = j_id k) (\<lambda>j. j\<lparr>j_priority := priority\<rparr>) (jobs d)"
        by (auto simp: enqueue_def)
      then show ?thesis
      proof (rule set_job_ok [OF assms(1) _ k])
        have "(j_status k = ''running'') = (j_lease k \<noteq> None \<and> active k)" "known_status k"
          using assms(1) k by (auto simp: queue_ok_def)
        then show "j_id (j\<lparr>j_priority := priority\<rparr>) = j_id j \<and> j_manifest (j\<lparr>j_priority := priority\<rparr>) = j_manifest j \<and>
          known_status (j\<lparr>j_priority := priority\<rparr>) \<and> (j_status (j\<lparr>j_priority := priority\<rparr>) = ''running'') =
            (j_lease (j\<lparr>j_priority := priority\<rparr>) \<noteq> None \<and> active (j\<lparr>j_priority := priority\<rparr>))"
          if "active j" "j_status j = j_status k" "j_lease j = j_lease k" for j
          using that by (auto simp: known_status_def active_def)
      qed
    next
      case False
      with img Some assms show ?thesis by (auto simp: enqueue_def)
    qed
  next
    case None
    define job' where "job' = \<lparr>j_id = fresh_id (map j_id (jobs d)), j_manifest = m_id m, j_repository = take 512 repository,
        j_mode = (case mode of Some x \<Rightarrow> x | None \<Rightarrow> if opt_text (sbom_digest m) \<noteq> [] \<and> reason = ''schedule'' then ''sbom'' else ''image''),
        j_reason = reason, j_priority = priority, j_status = ''queued'', j_attempts = 0, j_worker = None, j_lease = None, j_error = None\<rparr>"
    from img None assms(2) have jobs: "jobs d' = jobs d @ [job']"
      by (auto simp: enqueue_def Let_def job'_def split: if_splits)
    have "active_jobs mid d' \<le> 1" for mid
    proof (cases "mid = m_id m")
      case True
      have "filter (\<lambda>j. j_manifest j = m_id m \<and> active j) (jobs d) = []"
        using None by (simp add: find_None_iff filter_empty_conv)
      with True show ?thesis by (simp add: active_jobs_def jobs)
    next
      case False
      then have "active_jobs mid d' = active_jobs mid d" by (simp add: active_jobs_def jobs job'_def)
      with assms(1) show ?thesis by (simp add: queue_ok_def)
    qed
    moreover have "distinct (map j_id (jobs d'))"
      using assms(1) fresh_id_notin [of "map j_id (jobs d)"] by (simp add: jobs job'_def queue_ok_def del: set_map)
    ultimately show ?thesis
      using assms(1) by (auto simp: queue_ok_def jobs job'_def known_status_def active_def)
  qed
qed

lemma requeue_ok: "queue_ok d \<Longrightarrow> queue_ok (requeue_lapsed now d)"
  by (erule update_jobs_ok [where
      P = "\<lambda>j. j_status j = ''running'' \<and> (case j_lease j of None \<Rightarrow> False | Some t \<Rightarrow> t < now)" and
      f = "\<lambda>j. j\<lparr>j_status := ''queued'', j_worker := None, j_lease := None\<rparr>"])
    (auto simp: requeue_lapsed_def active_def known_status_def)

lemma next_job_in: "next_job js = Some j \<Longrightarrow> j \<in> set js \<and> j_status j = ''queued''"
  by (induction js arbitrary: j) (auto split: if_splits option.splits)

lemma claim_ok: "queue_ok d \<Longrightarrow> claim worker now d = (job, d') \<Longrightarrow> queue_ok d'"
proof -
  assume "queue_ok d" and c: "claim worker now d = (job, d')"
  then have ok: "queue_ok (requeue_lapsed now d)" by (simp add: requeue_ok)
  show ?thesis
  proof (cases "next_job (jobs (requeue_lapsed now d))")
    case None
    with c ok show ?thesis by (simp add: claim_def Let_def)
  next
    case (Some k)
    then have k: "k \<in> set (jobs (requeue_lapsed now d))" "active k" by (auto dest: next_job_in simp: active_def)
    from c Some have "jobs d' = update_where (\<lambda>j. j_id j = j_id k) (\<lambda>j. j\<lparr>j_status := ''running'',
        j_worker := Some (take 128 worker), j_attempts := j_attempts j + 1, j_lease := Some (now + LEASE)\<rparr>)
        (jobs (requeue_lapsed now d))"
      by (auto simp: claim_def Let_def)
    then show ?thesis by (rule set_job_ok [OF ok _ k]) (auto simp: known_status_def active_def)
  qed
qed

lemma queue_step_ok: "queue_step d d' \<Longrightarrow> queue_ok d \<Longrightarrow> queue_ok d'"
proof (induction rule: queue_step.induct)
  case enqueued
  then show ?case by (blast intro: enqueue_ok)
next
  case claimed
  then show ?case by (blast intro: claim_ok)
next
  case (renewed j d now)
  then have a: "active j" by (simp add: active_def)
  show ?case
    by (rule set_job_ok [where k = j and f = "\<lambda>j. j\<lparr>j_lease := Some (now + LEASE)\<rparr>", OF renewed.prems _ renewed.hyps(1) a])
       (use renewed.hyps in \<open>auto simp: renew_def known_status_def active_def\<close>)
next
  case (failed j d error retry)
  then have a: "active j" by (simp add: active_def)
  show ?case
  proof (cases "MAX_ATTEMPTS \<le> j_attempts j \<or> \<not> retry")
    case True
    then show ?thesis
      by (intro set_job_ok [where k = j and f = "\<lambda>j. j\<lparr>j_error := fail_text error, j_status := ''failed''\<rparr>",
            OF failed.prems _ failed.hyps(1) a])
         (auto simp: fail_def known_status_def active_def)
  next
    case False
    then show ?thesis
      by (intro set_job_ok [where k = j and f = "\<lambda>j. j\<lparr>j_error := fail_text error, j_status := ''queued'', j_worker := None, j_lease := None\<rparr>",
            OF failed.prems _ failed.hyps(1) a])
         (auto simp: fail_def known_status_def active_def)
  qed
next
  case (skipped j d reason)
  then have a: "active j" by (simp add: active_def)
  show ?case
    by (rule set_job_ok [where k = j and f = "\<lambda>j. j\<lparr>j_status := ''done'', j_error := Some (take 2000 reason)\<rparr>", OF skipped.prems _ skipped.hyps(1) a])
       (auto simp: skip_def known_status_def active_def)
next
  case (recorded j d now m fs report)
  then have a: "active j" by (simp add: active_def)
  show ?case
    by (rule set_job_ok [where k = j and f = "\<lambda>j. j\<lparr>j_status := ''done'', j_error := None\<rparr>", OF recorded.prems _ recorded.hyps(1) a])
       (auto simp: record_scan_def Let_def known_status_def active_def)
qed

lemma queue_reachable_ok: "queue_reachable d \<Longrightarrow> queue_ok d"
proof (induction rule: queue_reachable.induct)
  case (idle d)
  then show ?case by (simp add: queue_ok_def active_jobs_def)
next
  case (moved d d')
  then show ?case by (blast intro: queue_step_ok)
qed

text \<open>
  C33: the queue. However scans are queued, claimed, renewed, failed, skipped and completed, job ids
  stay distinct, an image has at most one job waiting or running, and a job is running exactly when
  it is active and holds a lease.
\<close>

theorem queue_invariant:
  assumes "queue_reachable d"
  shows "distinct (map j_id (jobs d)) \<and> active_jobs mid d \<le> 1 \<and>
    list_all (\<lambda>j. known_status j \<and> (j_status j = ''running'') = (j_lease j \<noteq> None \<and> active j)) (jobs d)"
  using queue_reachable_ok [OF assms] by (simp add: queue_ok_def list_all_iff)

theorem queue_invariant_witness:
  "active_jobs 7 (snd (claim ''w1'' 0 (snd (enqueue (new_manifest 7 ''sha256:x'') ''hub/app'' ''pull'' 50 None empty_db)))) \<le> 1"
proof -
  have "queue_reachable empty_db" by (rule idle) (simp add: empty_db_def)
  from moved [OF this enqueued [OF prod.collapse [symmetric]]]
  have "queue_reachable (snd (enqueue (new_manifest 7 ''sha256:x'') ''hub/app'' ''pull'' 50 None empty_db))" .
  from moved [OF this claimed [OF prod.collapse [symmetric]]]
  show ?thesis by (blast dest: queue_invariant)
qed

lemma next_job_none: "next_job js = None \<longleftrightarrow> \<not> list_ex (\<lambda>j. j_status j = ''queued'') js"
  by (induction js) (auto split: option.splits)

lemma list_ex_update_where:
  "(\<And>x. P x \<Longrightarrow> Q (f x)) \<Longrightarrow> list_ex Q (update_where P f xs) = list_ex (\<lambda>x. Q x \<or> P x) xs"
  by (induction xs) auto

lemma next_job_least: "next_job js = Some j \<Longrightarrow> k \<in> set js \<Longrightarrow> j_status k = ''queued'' \<Longrightarrow>
   (j_priority j, j_id j) \<le> (j_priority k, j_id k)"
proof (induction js arbitrary: j k)
  case (Cons x xs)
  show ?case
  proof (cases "next_job xs")
    case None
    then have "\<not> (\<exists>y \<in> set xs. j_status y = ''queued'')" by (simp add: next_job_none list_ex_iff)
    with None Cons.prems show ?thesis by (auto split: if_splits)
  next
    case (Some y)
    from Cons.IH [OF Some] have "(j_priority y, j_id y) \<le> (j_priority z, j_id z)"
      if "z \<in> set xs" "j_status z = ''queued''" for z using that by blast
    with Some Cons.prems show ?thesis
      by (cases "j_status x = ''queued''"; cases "(j_priority x, j_id x) \<le> (j_priority y, j_id y)")
         (auto simp del: less_eq_prod_simp intro: order_trans dest: linear [THEN disjE])
  qed
qed simp

text \<open>
  Claiming. A worker gets a job exactly when one is queued or its lease has run out, the job it
  gets is the most urgent of those (lowest priority, then oldest), and once it has run out of
  attempts a failure ends it for good; so work is never stuck behind a dead worker.
\<close>

theorem claim_takes_most_urgent:
  "(fst (claim worker now d) = None) =
     (\<not> list_ex (\<lambda>j. j_status j = ''queued'' \<or>
        j_status j = ''running'' \<and> (case j_lease j of None \<Rightarrow> False | Some t \<Rightarrow> t < now)) (jobs d)) \<and>
   (case fst (claim worker now d) of None \<Rightarrow> True | Some i \<Rightarrow>
      list_ex (\<lambda>j. j_id j = i \<and> j_status j = ''queued'' \<and>
        list_all (\<lambda>k. (j_priority j, j_id j) \<le> (j_priority k, j_id k))
          (filter (\<lambda>k. j_status k = ''queued'') (jobs (requeue_lapsed now d)))) (jobs (requeue_lapsed now d)))"
proof
  let ?L = "\<lambda>j. j_status j = ''running'' \<and> (case j_lease j of None \<Rightarrow> False | Some t \<Rightarrow> t < now)"
  have "list_ex (\<lambda>j. j_status j = ''queued'') (jobs (requeue_lapsed now d)) = list_ex (\<lambda>j. j_status j = ''queued'' \<or> ?L j) (jobs d)"
    unfolding requeue_lapsed_def by (simp add: list_ex_update_where)
  then show "(fst (claim worker now d) = None) = (\<not> list_ex (\<lambda>j. j_status j = ''queued'' \<or> ?L j) (jobs d))"
    using next_job_none [of "jobs (requeue_lapsed now d)"]
    by (cases "next_job (jobs (requeue_lapsed now d))") (simp_all add: claim_def)
  show "case fst (claim worker now d) of None \<Rightarrow> True | Some i \<Rightarrow>
      list_ex (\<lambda>j. j_id j = i \<and> j_status j = ''queued'' \<and>
        list_all (\<lambda>k. (j_priority j, j_id j) \<le> (j_priority k, j_id k))
          (filter (\<lambda>k. j_status k = ''queued'') (jobs (requeue_lapsed now d)))) (jobs (requeue_lapsed now d))"
  proof (cases "next_job (jobs (requeue_lapsed now d))")
    case None
    then show ?thesis by (simp add: claim_def)
  next
    case (Some j)
    have "list_all (\<lambda>k. (j_priority j, j_id j) \<le> (j_priority k, j_id k)) (filter (\<lambda>k. j_status k = ''queued'') (jobs (requeue_lapsed now d)))"
      unfolding list_all_iff using next_job_least [OF Some] by fastforce
    with next_job_in [OF Some] Some show ?thesis by (auto simp: claim_def list_ex_iff)
  qed
qed

subsection \<open>Reports\<close>

text \<open>What a finding can be, whatever the scanner sent.\<close>

definition finding_ok :: "image_policy \<Rightarrow> parsed_finding \<Rightarrow> bool" where
  "finding_ok policy f = (pf_severity f \<in> set (wanted_severities policy) \<inter> set SEVERITIES \<and> length (pf_vuln f) \<le> 64 \<and>
     re_matches VULN_ID (pf_vuln f) \<and> pf_pkg f \<noteq> [] \<and> length (pf_pkg f) \<le> 255 \<and> length (opt_text (pf_installed f)) \<le> 128 \<and>
     length (opt_text (pf_fixed f)) \<le> 255 \<and> length (opt_text (pf_title f)) \<le> 500 \<and> length (opt_text (pf_url f)) \<le> 512 \<and>
     length (opt_text (pf_layer f)) \<le> 80 \<and> \<not> (ignore_unfixed policy \<and> pf_fixed f = None) \<and>
     (pf_url f = None \<or> starts_with (opt_text (pf_url f)) ''https://'' \<or> starts_with (opt_text (pf_url f)) ''http://'') \<and>
     (case pf_cvss f of None \<Rightarrow> True | Some x \<Rightarrow> 0 \<le> x \<and> x \<le> 10))"

lemma clean_text_bound: "clean_text v n = Some t \<Longrightarrow> 0 < n \<Longrightarrow> t \<noteq> [] \<and> length t \<le> n"
  by (auto simp: clean_text_def Let_def split: if_splits)

lemma clean_text_length: "0 < n \<Longrightarrow> length (opt_text (clean_text v n)) \<le> n"
  by (cases "clean_text v n") (auto simp: opt_text_def dest: clean_text_bound)

lemma clean_url_ok: "length (opt_text (clean_url v)) \<le> 512 \<and> (clean_url v = None \<or>
   starts_with (opt_text (clean_url v)) ''https://'' \<or> starts_with (opt_text (clean_url v)) ''http://'')"
  by (auto simp: clean_url_def opt_text_def split: option.splits dest: clean_text_bound)

lemma layer_digest_ok: "length (opt_text (layer_digest v)) \<le> 80"
  by (auto simp: layer_digest_def Let_def opt_text_def split: option.splits if_splits dest: clean_text_bound)

lemma severity_of_known: "severity_of v \<in> set SEVERITIES"
  by (simp add: severity_of_def Let_def SEVERITIES_def)

lemma source_score_range: "source_score ks src = Some x \<Longrightarrow> 0 \<le> x \<and> x \<le> 10"
  by (induction ks) (auto split: option.splits if_splits)

lemma cvss_range: "cvss v = Some x \<Longrightarrow> 0 \<le> x \<and> x \<le> 10"
proof -
  define g where "g = (\<lambda>b src. if is_obj src then best_of b (source_score [''V40Score'', ''V3Score'', ''V2Score''] src) else b)"
  have step: "0 \<le> z \<and> z \<le> 10" if "g b src = Some z" "\<forall>y. b = Some y \<longrightarrow> 0 \<le> y \<and> y \<le> 10" for b src z
    using that source_score_range
    by (auto simp: g_def best_of_def max_def split: if_splits option.splits simp del: source_score.simps)
  have fold: "0 \<le> z \<and> z \<le> 10" if "foldl g b xs = Some z" "\<forall>y. b = Some y \<longrightarrow> 0 \<le> y \<and> y \<le> 10" for b xs z
    using that
  proof (induction xs arbitrary: b)
    case (Cons a xs)
    from Cons.prems(1) have "foldl g (g b a) xs = Some z" by simp
    then show ?case by (rule Cons.IH) (use step Cons.prems(2) in blast)
  qed simp
  assume "cvss v = Some x"
  then show ?thesis using fold [of None] by (auto simp: cvss_def g_def [symmetric] split: json.splits)
qed

lemma read_finding_ok: "read_finding policy pt v = Some f \<Longrightarrow> finding_ok policy f"
proof -
  assume r: "read_finding policy pt v = Some f"
  then obtain vuln where v: "clean_text (jget v ''VulnerabilityID'') 64 = Some vuln" "re_matches VULN_ID vuln"
      "severity_of v \<in> set (wanted_severities policy)" "\<not> (ignore_unfixed policy \<and> clean_text (jget v ''FixedVersion'') 255 = None)"
    and f: "f = \<lparr>pf_vuln = vuln, pf_pkg = (case clean_text (jget v ''PkgName'') 255 of None \<Rightarrow> ''?'' | Some p \<Rightarrow> p),
              pf_pkg_type = pt, pf_installed = clean_text (jget v ''InstalledVersion'') 128, pf_fixed = clean_text (jget v ''FixedVersion'') 255,
              pf_severity = severity_of v, pf_cvss = cvss (jget v ''CVSS''), pf_title = clean_text (jget v ''Title'') 500,
              pf_url = clean_url (jget v ''PrimaryURL''), pf_layer = layer_digest v\<rparr>"
    by (auto simp: read_finding_def Let_def split: if_splits option.splits)
  have pkg: "pf_pkg f \<noteq> [] \<and> length (pf_pkg f) \<le> 255"
    by (auto simp: f split: option.splits dest: clean_text_bound)
  have "case pf_cvss f of None \<Rightarrow> True | Some x \<Rightarrow> 0 \<le> x \<and> x \<le> 10"
    by (auto simp: f split: option.splits dest: cvss_range)
  with v pkg show ?thesis
    using clean_text_bound [OF v(1)] clean_url_ok [of "jget v ''PrimaryURL''"]
    by (simp add: finding_ok_def f clean_text_length layer_digest_ok severity_of_known)
qed

definition findings_ok :: "image_policy \<Rightarrow> parsed_finding list \<Rightarrow> bool" where
  "findings_ok policy fs = (list_all (finding_ok policy) fs \<and> distinct (map finding_key fs) \<and> length fs \<le> MAX_FINDINGS)"

lemma read_findings_ok: "findings_ok policy acc \<Longrightarrow> read_findings policy pt vs acc = Inr fs \<Longrightarrow> findings_ok policy fs"
proof (induction vs arbitrary: acc)
  case (Cons v vs)
  show ?case
  proof (cases "read_finding policy pt v")
    case None
    with Cons show ?thesis by simp
  next
    case (Some f)
    show ?thesis
    proof (cases "finding_key f \<in> set (map finding_key acc)")
      case True
      with Some Cons show ?thesis by simp
    next
      case False
      with Some Cons.prems(2) have "length acc + 1 \<le> MAX_FINDINGS" "read_findings policy pt vs (acc @ [f]) = Inr fs"
        by (auto split: if_splits)
      moreover have "findings_ok policy (acc @ [f])"
        using False Cons.prems(1) read_finding_ok [OF Some] calculation(1) by (auto simp: findings_ok_def)
      ultimately show ?thesis using Cons.IH by blast
    qed
  qed
qed simp

lemma read_results_ok: "findings_ok policy acc \<Longrightarrow> read_results policy rs acc = Inr fs \<Longrightarrow> findings_ok policy fs"
  by (induction rs arbitrary: acc) (auto simp: sum_bind_Inr_iff split: if_splits dest: read_findings_ok)

text \<open>
  What an untrusted report can contribute. Whatever document the scanner posts, the findings
  taken from it are at most 25,000, no two for the same package, version and vulnerability, each of a
  wanted severity, with every text truncated, a link that is an http one and a score from 0 to 10.
\<close>

theorem report_bounds:
  "case parse_report len loaded policy of Inl e \<Rightarrow> True
     | Inr fs \<Rightarrow> len \<le> MAX_REPORT_BYTES \<and> length fs \<le> MAX_FINDINGS \<and> distinct (map finding_key fs) \<and>
         list_all (finding_ok policy) fs"
proof (cases "parse_report len loaded policy")
  case (Inr fs)
  then have "len \<le> MAX_REPORT_BYTES" "findings_ok policy fs"
    using read_results_ok [of policy "[]"]
    by (auto simp: parse_report_def findings_ok_def split: if_splits option.splits)
  with Inr show ?thesis by (simp add: findings_ok_def)
qed simp

lemma numeric_vulnerabilities_crash:
  \<comment> \<open>the schema is not as narrow as the module says: this document raises a \<open>TypeError\<close>\<close>
  "parse_report 1 (Some (JObj [(''Results'', JList [JObj [(''Vulnerabilities'', JInt 5)]])])) policy = Inl NotIterable"
  by (simp add: parse_report_def MAX_REPORT_BYTES_def jget_or_def entries_of_def)

subsection \<open>After a scan\<close>

definition same_tables :: "registry_db \<Rightarrow> registry_db \<Rightarrow> bool" where
  \<comment> \<open>what the verdicts depend on and the bookkeeping of files does not change\<close>
  "same_tables d d' = (manifests d' = manifests d \<and> links d' = links d \<and> repos d' = repos d \<and>
     findings d' = findings d \<and> kev_entries d' = kev_entries d)"

lemma release_file_db [simp]: "db (release_file x st) = db st"
  by (simp add: release_file_def delete_file_def)

lemma store_blob_db [simp]: "db (store_blob x b st) = db st"
  by (simp add: store_blob_def)

lemma prune_scans_same: "same_tables (db st) (db (prune_scans ss st))"
proof (induction ss arbitrary: st)
  case Nil
  show ?case by (simp add: same_tables_def)
next
  case (Cons s ss)
  show ?case
  proof (cases "s_report s = None \<or> s_report s = Some []")
    case True
    then have "prune_scans (s # ss) st = prune_scans ss st" by auto
    with Cons show ?thesis by simp
  next
    case False
    then obtain x where "s_report s = Some x" "x \<noteq> []" by auto
    then show ?thesis
      using Cons.IH [of "(release_file x st)\<lparr>db := (db st)\<lparr>scans := update_where (\<lambda>t. s_id t = s_id s) (\<lambda>s. s\<lparr>s_report := None\<rparr>) (scans (db st))\<rparr>\<rparr>"]
      by (simp add: Let_def same_tables_def)
  qed
qed

lemma find_none_set: "find_manifest i d = None \<Longrightarrow> find_manifest i (set_manifest i f d) = None"
  by (auto simp: find_manifest_def set_manifest_def find_None_iff update_where_set)

lemma set_manifest_frame [simp]:
  "links (set_manifest i f d) = links d" "repos (set_manifest i f d) = repos d"
  "findings (set_manifest i f d) = findings d" "kev_entries (set_manifest i f d) = kev_entries d"
  by (simp_all add: set_manifest_def)

lemma store_sbom_db: "db (store_sbom env m (Some raw) st) =
    set_manifest (m_id m) (\<lambda>m. m\<lparr>sbom_digest := Some (hash_of env raw)\<rparr>) (db st)"
  by (simp add: store_sbom_def Let_def)

lemma store_sbom_same:
  assumes "find_manifest (m_id m) (db st) = Some m"
  shows "(\<exists>x. find_manifest (m_id m) (db (store_sbom env m sb st)) = Some (m\<lparr>sbom_digest := x\<rparr>)) \<and>
   links (db (store_sbom env m sb st)) = links (db st) \<and> repos (db (store_sbom env m sb st)) = repos (db st) \<and>
   findings (db (store_sbom env m sb st)) = findings (db st) \<and> kev_entries (db (store_sbom env m sb st)) = kev_entries (db st)"
proof (cases sb)
  case None
  then show ?thesis using assms by (auto simp: store_sbom_def intro: exI [of _ "sbom_digest m"])
next
  case (Some raw)
  then show ?thesis using assms by (auto simp: store_sbom_db find_set_manifest)
qed

lemma rules_depend:
  "findings d' = findings d \<Longrightarrow> evaluate_rules d' mid policy rules label = evaluate_rules d mid policy rules label"
  by (simp add: evaluate_rules_def denied_cves_present_def gate_counts_def counted_findings_def)

lemma rules_reason: "\<not> allowed (evaluate_rules d mid policy rules label) \<Longrightarrow> v_reason (evaluate_rules d mid policy rules label) \<noteq> None"
  by (auto simp: evaluate_rules_def Let_def split: if_splits)

lemma list_all_update_where: "list_all R (update_where P f xs) = list_all (\<lambda>x. R (if P x then f x else x)) xs"
  by (induction xs) auto

lemma apply_push_links:
  assumes "m_kind m = Image" "scan_status m = ''scanned''"
  shows "list_all (\<lambda>l. \<not> (l_manifest l = m_id m \<and> l_repo l \<in> set (local_repo_ids d) \<and>
      (push_block_reason l = None) \<noteq> allowed (evaluate_rules d (m_id m) policy (push policy) ''push'')))
    (links (apply_push_policy policy m d))"
proof (cases "list_ex (\<lambda>l. l_manifest l = m_id m \<and> l_repo l \<in> set (local_repo_ids d)) (links d)")
  case True
  have "(if allowed v then None else v_reason v) = None \<longleftrightarrow> allowed v"
    if "v = evaluate_rules d (m_id m) policy (push policy) ''push''" for v
    using that rules_reason by auto
  with True assms show ?thesis
    by (simp add: apply_push_policy_def Let_def list_all_update_where) (auto simp: list_all_iff)
next
  case False
  with assms show ?thesis by (auto simp: apply_push_policy_def list_all_iff list_ex_iff)
qed

lemma apply_push_frame:
  "manifests (apply_push_policy policy m d) = manifests d" "repos (apply_push_policy policy m d) = repos d"
  "findings (apply_push_policy policy m d) = findings d"
  "filter (\<lambda>l. l_manifest l \<noteq> m_id m \<or> l_repo l \<notin> set (local_repo_ids d)) (links (apply_push_policy policy m d))
    = filter (\<lambda>l. l_manifest l \<noteq> m_id m \<or> l_repo l \<notin> set (local_repo_ids d)) (links d)"
  by (auto simp: apply_push_policy_def Let_def intro!: filter_update_where)

lemma record_scan_manifest:
  assumes "find_manifest (m_id m) d = Some k"
  shows "\<exists>k'. find_manifest (m_id m) (record_scan now job m fs rep d) = Some k' \<and> m_kind k' = m_kind k \<and>
    scan_status k' = ''scanned'' \<and> m_id k' = m_id m \<and> kev_count k' = length (filter (exploited d) fs)"
proof -
  have "m_id k = m_id m" using assms by (auto simp: find_manifest_def find_Some_iff)
  moreover have "find_manifest i (d\<lparr>scans := s, findings := f\<rparr>) = find_manifest i d"
    "find_manifest i (set_job j g d') = find_manifest i d'" for i s f j g d'
    by (simp_all add: find_manifest_def set_job_def)
  ultimately show ?thesis using assms by (simp add: record_scan_def Let_def find_set_manifest)
qed

lemma record_scan_frame [simp]:
  "links (record_scan now job m fs rep d) = links d" "repos (record_scan now job m fs rep d) = repos d"
  "kev_entries (record_scan now job m fs rep d) = kev_entries d"
  "filter (\<lambda>f. f_manifest f = m_id m) (findings (record_scan now job m fs rep d))
    = map (finding_of d (m_id m) (fresh_id (map s_id (scans d)))) fs"
  by (simp_all add: record_scan_def Let_def set_job_def comp_def finding_of_def)

lemma ingest_result:
  assumes "ingest env policy now job raw sbom st = Inr st'"
  obtains m m' fs where
    "find_manifest (j_manifest job) (db st) = Some m"
    "parse_report (length raw) (loads env raw) policy = Inr fs"
    "find_manifest (j_manifest job) (db st') = Some m'" "m_kind m' = m_kind m" "scan_status m' = ''scanned''"
    "m_id m' = j_manifest job"
    "kev_count m' = length (filter f_kev (filter (\<lambda>f. f_manifest f = j_manifest job) (findings (db st'))))"
    "length (filter (\<lambda>f. f_manifest f = j_manifest job) (findings (db st'))) = length fs"
    "\<exists>d. links d = links (db st) \<and> repos d = repos (db st) \<and> db st' = apply_push_policy policy m' d"
proof -
  from assms obtain m fs where
    m: "find_manifest (j_manifest job) (db st) = Some m" and
    p: "parse_report (length raw) (loads env raw) policy = Inr fs"
    by (auto simp: ingest_def sum_bind_Inr_iff split: option.splits)
  define st1 where "st1 = store_sbom env m sbom (store_blob (hash_of env raw) raw st)"
  define d2 where "d2 = record_scan now job m fs (hash_of env raw) (db st1)"
  define st3 where "st3 = prune_reports (m_id m) (nat (keep_reports policy)) (st1\<lparr>db := d2\<rparr>)"
  from m have id: "m_id m = j_manifest job" by (auto simp: find_manifest_def find_Some_iff)
  have sb: "(\<exists>x. find_manifest (m_id m) (db st1) = Some (m\<lparr>sbom_digest := x\<rparr>)) \<and> links (db st1) = links (db st) \<and>
      repos (db st1) = repos (db st) \<and> kev_entries (db st1) = kev_entries (db st)"
    using store_sbom_same [of m "store_blob (hash_of env raw) raw st" env sbom] m id by (simp add: st1_def)
  then obtain x where "find_manifest (m_id m) (db st1) = Some (m\<lparr>sbom_digest := x\<rparr>)" by blast
  from record_scan_manifest [OF this, of now job fs "hash_of env raw"] obtain m' where
    m': "find_manifest (m_id m) d2 = Some m'" "m_kind m' = m_kind m" "scan_status m' = ''scanned''" "m_id m' = m_id m"
      "kev_count m' = length (filter (exploited (db st1)) fs)"
    by (auto simp: d2_def)
  have same: "same_tables d2 (db st3)"
    using prune_scans_same [of "st1\<lparr>db := d2\<rparr>"] by (simp add: st3_def prune_reports_def)
  then have f3: "find_manifest (m_id m) (db st3) = Some m'" using m'(1) by (simp add: same_tables_def find_manifest_def)
  from assms m p have "st' = st3\<lparr>db := apply_push_policy policy m' (db st3)\<rparr>"
    using f3 by (auto simp: ingest_def sum_bind_Inr_iff Let_def st3_def d2_def st1_def)
  then have st': "db st' = apply_push_policy policy m' (db st3)" by simp
  have fnd: "filter (\<lambda>f. f_manifest f = m_id m) (findings (db st')) = map (finding_of (db st1) (m_id m) (fresh_id (map s_id (scans (db st1))))) fs"
    using same by (simp add: st' apply_push_frame same_tables_def d2_def)
  have "length (filter f_kev (map (finding_of (db st1) (m_id m) s) fs)) = length (filter (exploited (db st1)) fs)" for s
    by (simp add: filter_map comp_def finding_of_def)
  moreover have "find_manifest (j_manifest job) (db st') = Some m'"
    using f3 by (simp add: st' id find_manifest_def apply_push_frame)
  moreover have "links (db st3) = links (db st) \<and> repos (db st3) = repos (db st)"
    using same sb by (simp add: same_tables_def d2_def)
  ultimately show thesis using that [OF m p] m' id fnd st' by (metis length_map)
qed

text \<open>
  A completed scan takes effect at once. After a report is ingested the image is marked scanned
  with exactly the findings read from it, its count of exploited ones is the true one, every local
  repository holding it has a push verdict that agrees with the push rules on those findings, and
  the links of other images and of upstream repositories are as before.
\<close>

theorem ingest_applies_push_policy:
  assumes "ingest env policy now job raw sbom st = Inr st'" "find_manifest (j_manifest job) (db st) = Some m" "m_kind m = Image"
  shows "\<exists>m'. find_manifest (j_manifest job) (db st') = Some m' \<and> scan_status m' = ''scanned'' \<and>
    kev_count m' = length (filter f_kev (filter (\<lambda>f. f_manifest f = j_manifest job) (findings (db st')))) \<and>
    list_all (\<lambda>l. \<not> (l_manifest l = j_manifest job \<and> l_repo l \<in> set (local_repo_ids (db st')) \<and>
      (push_block_reason l = None) \<noteq> allowed (evaluate_rules (db st') (j_manifest job) policy (push policy) ''push'')))
      (links (db st')) \<and>
    filter (\<lambda>l. l_manifest l \<noteq> j_manifest job \<or> l_repo l \<notin> set (local_repo_ids (db st))) (links (db st'))
      = filter (\<lambda>l. l_manifest l \<noteq> j_manifest job \<or> l_repo l \<notin> set (local_repo_ids (db st))) (links (db st))"
proof -
  from assms(1) obtain m' d where
    m': "find_manifest (j_manifest job) (db st') = Some m'" "m_kind m' = Image" "scan_status m' = ''scanned''" "m_id m' = j_manifest job"
      "kev_count m' = length (filter f_kev (filter (\<lambda>f. f_manifest f = j_manifest job) (findings (db st'))))"
    and d: "links d = links (db st)" "repos d = repos (db st)" "db st' = apply_push_policy policy m' d"
    by (rule ingest_result) (use assms(2,3) in auto)
  have l: "local_repo_ids (db st') = local_repo_ids d" "local_repo_ids (db st) = local_repo_ids d"
    using d by (simp_all add: local_repo_ids_def apply_push_frame)
  have e: "evaluate_rules (db st') mid policy r lab = evaluate_rules d mid policy r lab" for mid r lab
    using d by (intro rules_depend) (simp add: apply_push_frame)
  show ?thesis
    using m' apply_push_links [OF m'(2,3), of d policy] apply_push_frame(4) [of m' d policy] unfolding l e
    by (intro exI [of _ m']) (simp add: d)
qed

definition sample_env :: registry_env where
  "sample_env = \<lparr>hash_of = (\<lambda>s. ''sha256:'' @ s), loads = (\<lambda>s. Some (JObj [])), max_manifest_bytes = 4194304,
     max_index_entries = 100, upstream_id_of = (\<lambda>_. 1)\<rparr>"

definition sample_job :: job_row where
  "sample_job = \<lparr>j_id = 1, j_manifest = 7, j_repository = ''hub/app'', j_mode = ''image'', j_reason = ''pull'', j_priority = 50,
     j_status = ''running'', j_attempts = 1, j_worker = Some ''w1'', j_lease = Some 120, j_error = None\<rparr>"

definition sample_state :: registry where
  "sample_state = \<lparr>db = empty_db\<lparr>manifests := [new_manifest 7 ''sha256:x''], jobs := [sample_job]\<rparr>, oci = [], upload_files = []\<rparr>"

lemma sample_ingest: "\<exists>st'. ingest sample_env default_image_policy 60 sample_job ''{}'' None sample_state = Inr st'"
  by (simp add: ingest_def sample_env_def sample_state_def sample_job_def find_manifest_def new_rows parse_report_def
      MAX_REPORT_BYTES_def jget_or_def Let_def)

theorem ingest_applies_push_policy_witness:
  "\<exists>st' m'. ingest sample_env default_image_policy 60 sample_job ''{}'' None sample_state = Inr st' \<and>
     find_manifest 7 (db st') = Some m' \<and> scan_status m' = ''scanned''"
proof -
  obtain st' where r: "ingest sample_env default_image_policy 60 sample_job ''{}'' None sample_state = Inr st'"
    using sample_ingest by blast
  have "find_manifest (j_manifest sample_job) (db sample_state) = Some (new_manifest 7 ''sha256:x'')"
    by (simp add: sample_state_def sample_job_def find_manifest_def new_rows)
  moreover have "m_kind (new_manifest 7 ''sha256:x'') = Image" by (simp add: new_rows)
  ultimately have "\<exists>m'. find_manifest (j_manifest sample_job) (db st') = Some m' \<and> scan_status m' = ''scanned''"
    using ingest_applies_push_policy [OF r] by blast
  moreover have "j_manifest sample_job = 7" by (simp add: sample_job_def)
  ultimately show ?thesis using r by auto
qed

subsection \<open>Where the code does less than it says\<close>

lemma rescan_reopens_denied_image:
  \<comment> \<open>claiming a rescan moves a scanned image out of \<open>scanned\<close>, and the deny list is no longer consulted\<close>
  "let repo = new_repo 1 ''hub/app'' False; m = (new_manifest 7 ''sha256:x'')\<lparr>scan_status := ''scanned''\<rparr>;
       policy = default_image_policy\<lparr>deny_cves := [''CVE-2021-44228'']\<rparr>;
       d = empty_db\<lparr>repos := [repo], manifests := [m], findings := [\<lparr>f_manifest = 7, f_scan = 1, f_vuln = ''CVE-2021-44228'',
         f_pkg = ''log4j'', f_pkg_type = None, f_installed = None, f_fixed = None, f_severity = ''CRITICAL'', f_cvss = None,
         f_title = None, f_url = None, f_layer = None, f_kev = True\<rparr>]\<rparr>;
       d' = snd (claim ''w1'' 0 (snd (enqueue m ''hub/app'' ''schedule'' 100 None d)))
   in \<not> allowed (evaluate_pull d repo m policy) \<and>
      (\<exists>m'. find_manifest 7 d' = Some m' \<and> m_kind m' = Image \<and> allowed (evaluate_pull d' repo m' policy))"
  by (simp add: Let_def evaluate_pull_def push_blocked_def default_image_policy_def evaluate_rules_def denied_cves_present_def
      claim_def requeue_lapsed_def enqueue_def active_def set_status_def set_job_def set_manifest_def find_manifest_def
      new_rows opt_text_def LEASE_def)

lemma crashing_scan_never_fails:
  \<comment> \<open>the limit on attempts is checked when a failure is reported; a job whose worker dies is claimed again and again\<close>
  "let j = sample_job\<lparr>j_attempts := 1000\<rparr>; d = empty_db\<lparr>jobs := [j]\<rparr>; d' = snd (claim ''w2'' 121 d)
   in MAX_ATTEMPTS \<le> j_attempts j \<and> fst (claim ''w2'' 121 d) = Some 1 \<and>
      map j_attempts (jobs d') = [1001] \<and> map j_status (jobs d') = [''running'']"
  by (simp add: Let_def sample_job_def claim_def requeue_lapsed_def set_status_def set_job_def set_manifest_def
      new_rows MAX_ATTEMPTS_def)

lemma pruned_report_deletes_layer:
  \<comment> \<open>a report file is released without looking at the images: any JSON object is a report, a config blob included\<close>
  "let cfg = \<lparr>mr_type = Config, mr_digest = ''sha256:{}'', mr_media = None, mr_size = 2, mr_position = 0, mr_platform = None,
         mr_annotations = JObj []\<rparr>;
       st = \<lparr>db = empty_db\<lparr>manifests := [new_manifest 7 ''sha256:x''], manifest_refs := [\<lparr>ref_manifest = 7, ref_entry = cfg\<rparr>],
         scans := [\<lparr>s_id = 1, s_manifest = 7, s_mode = ''image'', s_report = Some ''sha256:{}'', s_count = 0\<rparr>,
                   \<lparr>s_id = 2, s_manifest = 7, s_mode = ''image'', s_report = None, s_count = 0\<rparr>]\<rparr>,
         oci = [(''sha256:{}'', ''{}'')], upload_files = []\<rparr>
   in parse_report 2 (Some (JObj [])) policy = Inr [] \<and>
      exists_blob ''sha256:{}'' st \<and> \<not> exists_blob ''sha256:{}'' (prune_reports 7 1 st)"
  by (simp add: Let_def exists_blob_def prune_reports_def release_file_def uses_of_file_def delete_file_def new_rows
      parse_report_def MAX_REPORT_BYTES_def jget_or_def)

end
