(* ===== verification/Docker_Auth.thy ===== *)
theory Docker_Auth
  imports Docker_Naming Py_Json
begin

section \<open>Who may do what in the container registry (\<open>docker/auth.py\<close>, \<open>api/docker_v2.py\<close>)\<close>

text \<open>
  Identities, the scopes a client asks for, what a credential allows, the claims of a registry
  token and the identity they stand for, and the check in front of every request. Signing and
  verifying the token is the JWT library's; a set of actions is a list.
\<close>

record account =
  acc_id :: int
  acc_admin :: bool
  can_publish :: bool
  acc_active :: bool

record api_token =
  tok_id :: int
  tok_user :: int
  tok_scopes :: "string list"
  repo_prefixes :: "string list"
  revoked :: bool
  expires_at :: "int option"

record registry_identity =
  id_user :: "account option"
  id_token :: "api_token option"
  access :: "(string \<times> string list) list option"
  anonymous :: bool
  scanner :: bool

definition nobody :: registry_identity where
  "nobody = \<lparr>id_user = None, id_token = None, access = None, anonymous = True, scanner = False\<rparr>"

definition user_id :: "registry_identity \<Rightarrow> int option" where
  "user_id i = map_option acc_id (id_user i)"

definition PUSH_SCOPE :: string where
  "PUSH_SCOPE = ''docker:push''"

definition SCANNER_SCOPE :: string where
  "SCANNER_SCOPE = ''scanner''"

definition scopes_of :: "registry_identity \<Rightarrow> string list" where
  "scopes_of i = (case id_token i of None \<Rightarrow> [] | Some t \<Rightarrow> tok_scopes t)"

definition parse_scope :: "string \<Rightarrow> (string \<times> string \<times> string list) option" where
  "parse_scope item = (case py_partition (CHR '':'') item of (kind, _, rest) \<Rightarrow>
     (case py_rpartition (CHR '':'') rest of (name, _, actions) \<Rightarrow>
       if item = [] \<or> kind \<notin> {''repository'', ''registry''} \<or> name = [] then None
       else Some (kind, name, remdups (filter (\<lambda>a. a \<noteq> []) (split_on (CHR '','') actions)))))"

definition parse_scopes :: "string list \<Rightarrow> (string \<times> string \<times> string list) list" where
  "parse_scopes values = concat (map (\<lambda>v. List.map_filter parse_scope (split_on (CHR '' '') v)) values)"

definition can_read :: "bool \<Rightarrow> registry_identity \<Rightarrow> bool" where
  "can_read allow_anonymous_read i = (if scanner i then True
     else if anonymous i then allow_anonymous_read
     else list_ex (\<lambda>s. s \<in> {''read'', ''admin'', PUSH_SCOPE, ''publish''}) (scopes_of i))"

datatype push_refusal = NotLocal | LoginRequired | NotPermitted | NoPushScope | OutsidePrefixes "string list"

definition push_problem :: "string \<Rightarrow> registry_identity \<Rightarrow> string \<Rightarrow> push_refusal option" where
  "push_problem local_ns i name = (if \<not> starts_with name (local_ns @ ''/'') then Some NotLocal
     else (case id_user i of
       None \<Rightarrow> Some LoginRequired
     | Some u \<Rightarrow>
         if anonymous i then Some LoginRequired
         else if \<not> (can_publish u \<or> acc_admin u) then Some NotPermitted
         else if PUSH_SCOPE \<notin> set (scopes_of i) \<and> ''admin'' \<notin> set (scopes_of i) then Some NoPushScope
         else (let ps = (case id_token i of None \<Rightarrow> [] | Some t \<Rightarrow> repo_prefixes t) in
           if ps \<noteq> [] \<and> \<not> list_ex (starts_with name) ps then Some (OutsidePrefixes ps) else None)))"

subsection \<open>The token endpoint\<close>

text \<open>
  \<open>route_of\<close> is the routing of a name as it stands (\<open>None\<close> for any registry error), \<open>owner_of\<close> the
  owner column of the repository, if there is one.
\<close>

definition owner_allows :: "registry_identity \<Rightarrow> int option option \<Rightarrow> bool" where
  "owner_allows i owner = (case owner of None \<Rightarrow> True
     | Some w \<Rightarrow> w = None \<or> w = user_id i \<or> (case id_user i of None \<Rightarrow> False | Some u \<Rightarrow> acc_admin u))"

definition granted_actions ::
  "string \<Rightarrow> bool \<Rightarrow> bool \<Rightarrow> registry_identity \<Rightarrow> target \<Rightarrow> int option option \<Rightarrow> string list \<Rightarrow> string list" where
  "granted_actions local_ns allow_anon mirror i tgt owner actions = (let
     p = (if ''pull'' \<in> set actions \<and> can_read allow_anon i then [''pull''] else []);
     w = filter (\<lambda>a. a \<in> {''push'', ''delete''}) actions
     in p @ (if w \<noteq> [] \<and> \<not> mirror \<and> local tgt \<and> push_problem local_ns i (canonical tgt) = None \<and> owner_allows i owner
             then w else []))"

fun token_access ::
  "string \<Rightarrow> bool \<Rightarrow> bool \<Rightarrow> (string \<Rightarrow> target option) \<Rightarrow> (string \<Rightarrow> int option option) \<Rightarrow> registry_identity \<Rightarrow>
   (string \<times> string \<times> string list) list \<Rightarrow> (string \<times> string list) list" where
  "token_access local_ns allow_anon mirror route_of owner_of i [] = []"
| "token_access local_ns allow_anon mirror route_of owner_of i ((kind, name, actions) # rest) =
     (let more = token_access local_ns allow_anon mirror route_of owner_of i rest in
      if kind \<noteq> ''repository'' then more
      else (case route_of name of
        None \<Rightarrow> more
      | Some tgt \<Rightarrow>
          (let g = granted_actions local_ns allow_anon mirror i tgt (owner_of (canonical tgt)) actions in
           if g = [] then more else (name, sort (remdups g)) # more)))"

definition issue_claims :: "int \<Rightarrow> int \<Rightarrow> registry_identity \<Rightarrow> (string \<times> string list) list \<Rightarrow> json" where
  "issue_claims now ttl i acc = JObj
     [(''iss'', JStr ''minireg''), (''aud'', JStr ''minireg''), (''iat'', JInt now), (''nbf'', JInt (now - 5)), (''exp'', JInt (now + ttl)),
      (''sub'', JStr (case user_id i of None \<Rightarrow> [] | Some u \<Rightarrow> if u = 0 then [] else show_int u)),
      (''tid'', case id_token i of None \<Rightarrow> JNull | Some t \<Rightarrow> JInt (tok_id t)),
      (''access'', JList (map (\<lambda>(n, as). JObj [(''type'', JStr ''repository''), (''name'', JStr n), (''actions'', JList (map JStr as))]) acc))]"

subsection \<open>The identity of a request\<close>

fun add_access :: "string \<Rightarrow> string list \<Rightarrow> (string \<times> string list) list \<Rightarrow> (string \<times> string list) list" where
  "add_access n as [] = [(n, as)]"
| "add_access n as ((m, bs) # d) = (if m = n then (m, bs @ as) # d else (m, bs) # add_access n as d)"

text \<open>Only entries of the shape \<open>issue_claims\<close> writes are read: a token is signed by the registry.\<close>

definition claimed_access :: "json \<Rightarrow> (string \<times> string list) list" where
  "claimed_access claims = (case as_list (jget claims ''access'') of None \<Rightarrow> []
     | Some es \<Rightarrow> foldl (\<lambda>d e. if is_obj e \<and> jget e ''type'' = JStr ''repository'' then
           (case (jget e ''name'', as_list (jget e ''actions'')) of
              (JStr n, Some as) \<Rightarrow> add_access n (List.map_filter as_str as) d
            | (JStr n, None) \<Rightarrow> add_access n [] d
            | _ \<Rightarrow> d)
         else d) [] es)"

datatype auth_error = TokenRevoked | AccountDisabled

definition identity_of_claims ::
  "(int \<Rightarrow> api_token option) \<Rightarrow> (int \<Rightarrow> account option) \<Rightarrow> int \<Rightarrow> json \<Rightarrow> auth_error + registry_identity" where
  "identity_of_claims tokens users now claims = (let acc = claimed_access claims in
     case as_int (jget claims ''tid'') of
       None \<Rightarrow> Inr (nobody\<lparr>access := Some acc\<rparr>)
     | Some tid \<Rightarrow>
         if tid = 0 then Inr (nobody\<lparr>access := Some acc\<rparr>)
         else (case tokens tid of
           None \<Rightarrow> Inl TokenRevoked
         | Some t \<Rightarrow>
             if revoked t \<or> (case expires_at t of None \<Rightarrow> False | Some e \<Rightarrow> e < now) then Inl TokenRevoked
             else (case users (tok_user t) of
               None \<Rightarrow> Inl AccountDisabled
             | Some u \<Rightarrow>
                 if \<not> acc_active u then Inl AccountDisabled
                 else Inr \<lparr>id_user = Some u, id_token = Some t, access = Some acc, anonymous = False,
                   scanner = (SCANNER_SCOPE \<in> set (tok_scopes t))\<rparr>)))"

subsection \<open>The check in front of a request\<close>

datatype decision = Granted | Challenge | Refuse push_refusal | CachedUpstream

definition access_grants :: "registry_identity \<Rightarrow> string \<Rightarrow> string \<Rightarrow> bool" where
  "access_grants i name action = (case access i of None \<Rightarrow> False
     | Some acc \<Rightarrow> (case map_of acc name of None \<Rightarrow> False | Some as \<Rightarrow> action \<in> set as))"

definition require :: "string \<Rightarrow> bool \<Rightarrow> registry_identity \<Rightarrow> string \<Rightarrow> string \<Rightarrow> target \<Rightarrow> decision" where
  "require local_ns allow_anon i name action tgt =
     (if access_grants i name action then Granted
      else if access i \<noteq> None \<and> (anonymous i \<or> action \<noteq> ''pull'') then Challenge
      else if action = ''pull'' then (if can_read allow_anon i then Granted else Challenge)
      else (case push_problem local_ns i (canonical tgt) of
          None \<Rightarrow> Granted
        | Some p \<Rightarrow> if anonymous i then Challenge else Refuse p))"

definition is_write :: "string \<Rightarrow> endpoint \<Rightarrow> bool" where
  "is_write meth ep = (meth \<in> {''POST'', ''PUT'', ''PATCH'', ''DELETE''} \<or> ep \<in> {Upload, Upload_session})"

definition admit :: "string \<Rightarrow> bool \<Rightarrow> bool \<Rightarrow> registry_identity \<Rightarrow> string \<Rightarrow> string \<Rightarrow> endpoint \<Rightarrow> target \<Rightarrow> decision" where
  \<comment> \<open>what \<open>_dispatch\<close> decides before it calls the handler\<close>
  "admit local_ns allow_anon mirror i name meth ep tgt =
     (if is_write meth ep \<and> (mirror \<or> \<not> local tgt) then CachedUpstream
      else require local_ns allow_anon i name (if is_write meth ep then ''push'' else ''pull'') tgt)"

end
