(* ===== verification/Docker_Auth_Spec.thy ===== *)
theory Docker_Auth_Spec
  imports Docker_Auth
begin

section \<open>What access control promises\<close>

text \<open>
  A token carries no right its holder does not have, claims stand for the identity they were issued
  to, and no request writes outside the local namespace.
\<close>

definition may :: "string \<Rightarrow> bool \<Rightarrow> registry_identity \<Rightarrow> target \<Rightarrow> int option option \<Rightarrow> string \<Rightarrow> bool" where
  \<comment> \<open>what the identity may do to the target by itself, ownership included\<close>
  "may local_ns allow_anon i tgt owner action = (if action = ''pull'' then can_read allow_anon i
     else local tgt \<and> push_problem local_ns i (canonical tgt) = None \<and> owner_allows i owner)"

lemma granted_may: "a \<in> set (granted_actions local_ns allow_anon mirror i tgt owner actions) \<Longrightarrow>
   a \<in> set actions \<inter> {''pull'', ''push'', ''delete''} \<and> may local_ns allow_anon i tgt owner a"
  by (auto simp: granted_actions_def may_def Let_def split: if_splits)

lemma token_access_in: "(n, as) \<in> set (token_access local_ns allow_anon mirror route_of owner_of i scopes) \<Longrightarrow>
   \<exists>actions tgt. (''repository'', n, actions) \<in> set scopes \<and> route_of n = Some tgt \<and> as \<noteq> [] \<and>
     set as = set (granted_actions local_ns allow_anon mirror i tgt (owner_of (canonical tgt)) actions)"
proof (induction scopes)
  case (Cons s scopes)
  obtain kind name actions where s: "s = (kind, name, actions)" by (cases s)
  show ?case
  proof (cases "kind = ''repository'' \<and> (\<exists>tgt. route_of name = Some tgt \<and>
      granted_actions local_ns allow_anon mirror i tgt (owner_of (canonical tgt)) actions \<noteq> [])")
    case True
    then obtain tgt where t: "kind = ''repository''" "route_of name = Some tgt"
      "granted_actions local_ns allow_anon mirror i tgt (owner_of (canonical tgt)) actions \<noteq> []" by blast
    then have "(n, as) = (name, sort (remdups (granted_actions local_ns allow_anon mirror i tgt (owner_of (canonical tgt)) actions)))
        \<or> (n, as) \<in> set (token_access local_ns allow_anon mirror route_of owner_of i scopes)"
      using Cons.prems s by (auto simp: Let_def)
    then show ?thesis
    proof
      assume "(n, as) = (name, sort (remdups (granted_actions local_ns allow_anon mirror i tgt (owner_of (canonical tgt)) actions)))"
      then have "n = name" "set as = set (granted_actions local_ns allow_anon mirror i tgt (owner_of (canonical tgt)) actions)" by auto
      with t s show ?thesis by (intro exI [of _ actions] exI [of _ tgt]) (auto simp flip: set_empty2)
    next
      assume "(n, as) \<in> set (token_access local_ns allow_anon mirror route_of owner_of i scopes)"
      with Cons.IH show ?thesis by auto
    qed
  next
    case False
    with s Cons.prems have "(n, as) \<in> set (token_access local_ns allow_anon mirror route_of owner_of i scopes)"
      by (auto simp: Let_def split: if_splits option.splits)
    with Cons.IH show ?thesis by auto
  qed
qed simp

text \<open>
  C25: a registry token grants only what its holder may do. Every action in its access list was asked
  for, is a pull, push or delete, and is one the identity itself may take on that name when the token
  is issued: a push or a delete only on a local repository that it owns or nobody does, or on
  anybody's local repository when the account is an admin, and within the account's and the API
  token's permissions in either case.
\<close>

theorem token_grants_no_more:
  "list_all (\<lambda>(n, as). case route_of n of None \<Rightarrow> False | Some tgt \<Rightarrow>
       list_all (\<lambda>a. a \<in> {''pull'', ''push'', ''delete''} \<and>
         list_ex (\<lambda>(kind, n', actions). kind = ''repository'' \<and> n' = n \<and> a \<in> set actions) scopes \<and>
         may local_ns allow_anon i tgt (owner_of (canonical tgt)) a) as)
     (token_access local_ns allow_anon mirror route_of owner_of i scopes)"
proof -
  have "case route_of n of None \<Rightarrow> False | Some tgt \<Rightarrow>
       list_all (\<lambda>a. a \<in> {''pull'', ''push'', ''delete''} \<and>
         list_ex (\<lambda>(kind, n', actions). kind = ''repository'' \<and> n' = n \<and> a \<in> set actions) scopes \<and>
         may local_ns allow_anon i tgt (owner_of (canonical tgt)) a) as"
    if "(n, as) \<in> set (token_access local_ns allow_anon mirror route_of owner_of i scopes)" for n as
  proof -
    from token_access_in [OF that] obtain actions tgt where
      t: "(''repository'', n, actions) \<in> set scopes" "route_of n = Some tgt"
        "set as = set (granted_actions local_ns allow_anon mirror i tgt (owner_of (canonical tgt)) actions)" by blast
    then show ?thesis by (auto simp: list_all_iff list_ex_iff dest!: granted_may)
  qed
  then show ?thesis by (auto simp: list_all_iff)
qed

subsection \<open>Claims\<close>

definition granted_on :: "(string \<times> string list) list \<Rightarrow> string \<Rightarrow> string list option" where
  \<comment> \<open>all actions an access list grants on a name, in every entry that names it\<close>
  "granted_on acc n = (if n \<in> fst ` set acc then Some (concat (map snd (filter (\<lambda>e. fst e = n) acc))) else None)"

lemma map_of_add_access: "map_of (add_access n as d) m =
    (if m = n then Some ((case map_of d n of None \<Rightarrow> [] | Some bs \<Rightarrow> bs) @ as) else map_of d m)"
  by (induction d) auto

lemma granted_on_snoc: "granted_on (acc @ [(n, as)]) m =
    (if m = n then Some ((case granted_on acc n of None \<Rightarrow> [] | Some bs \<Rightarrow> bs) @ as) else granted_on acc m)"
proof -
  have "n \<notin> fst ` set acc \<Longrightarrow> filter (\<lambda>e. fst e = n) acc = []" by (auto simp: filter_empty_conv)
  then show ?thesis by (auto simp: granted_on_def)
qed

lemma claimed_access_issued: "map_of (claimed_access (issue_claims now ttl i acc)) n = granted_on acc n"
proof -
  have strs: "List.map_filter as_str (map JStr as) = as" for as
    by (induction as) (auto simp: List.map_filter_simps)
  define g where "g = (\<lambda>d e. if is_obj e \<and> jget e ''type'' = JStr ''repository'' then
           (case (jget e ''name'', as_list (jget e ''actions'')) of
              (JStr n, Some as) \<Rightarrow> add_access n (List.map_filter as_str as) d
            | (JStr n, None) \<Rightarrow> add_access n [] d
            | _ \<Rightarrow> d)
         else d)"
  have one: "g d (JObj [(''type'', JStr ''repository''), (''name'', JStr n), (''actions'', JList (map JStr as))]) = add_access n as d"
    for d n as by (simp add: g_def strs)
  have fold: "map_of (foldl g [] (map (\<lambda>(n, as). JObj [(''type'', JStr ''repository''), (''name'', JStr n), (''actions'', JList (map JStr as))]) xs)) m
      = granted_on xs m" for xs m
  proof (induction xs arbitrary: m rule: rev_induct)
    case (snoc x xs)
    obtain n as where x: "x = (n, as)" by (cases x)
    show ?case by (simp add: x one map_of_add_access granted_on_snoc snoc.IH)
  qed (simp add: granted_on_def)
  show ?thesis using fold [of acc n] by (simp add: claimed_access_def issue_claims_def g_def [symmetric])
qed

text \<open>
  C40: claims stand for the identity they were issued to. From the claims issued to an identity, with
  any access list, a request gets for each name all the actions that list grants on it, in however
  many entries, and on no other name any. Without an API token (or with the token id 0, which counts
  as none) it is anonymous. Otherwise it stands for the row that API token has at the time of the
  request and for its user, and is the scanner exactly when that token has the scope; and it is
  refused once the row is gone, revoked or expired, or the user is gone or disabled.
\<close>

theorem claims_roundtrip:
  "\<exists>got. (\<forall>n. map_of got n = granted_on acc n) \<and>
    identity_of_claims tokens users now' (issue_claims now ttl i acc) =
      (case id_token i of None \<Rightarrow> Inr (nobody\<lparr>access := Some got\<rparr>)
       | Some t \<Rightarrow> if tok_id t = 0 then Inr (nobody\<lparr>access := Some got\<rparr>)
           else (case tokens (tok_id t) of None \<Rightarrow> Inl TokenRevoked
           | Some row \<Rightarrow>
               if revoked row \<or> (case expires_at row of None \<Rightarrow> False | Some e \<Rightarrow> e < now') then Inl TokenRevoked
               else (case users (tok_user row) of None \<Rightarrow> Inl AccountDisabled
               | Some u \<Rightarrow> if \<not> acc_active u then Inl AccountDisabled
                   else Inr \<lparr>id_user = Some u, id_token = Some row, access = Some got, anonymous = False,
                     scanner = (SCANNER_SCOPE \<in> set (tok_scopes row))\<rparr>)))"
proof (intro exI [of _ "claimed_access (issue_claims now ttl i acc)"] conjI allI)
  have "jget (issue_claims now ttl i acc) ''tid'' = (case id_token i of None \<Rightarrow> JNull | Some t \<Rightarrow> JInt (tok_id t))"
    by (simp add: issue_claims_def)
  then show "identity_of_claims tokens users now' (issue_claims now ttl i acc) =
      (case id_token i of None \<Rightarrow> Inr (nobody\<lparr>access := Some (claimed_access (issue_claims now ttl i acc))\<rparr>)
       | Some t \<Rightarrow> if tok_id t = 0 then Inr (nobody\<lparr>access := Some (claimed_access (issue_claims now ttl i acc))\<rparr>)
           else (case tokens (tok_id t) of None \<Rightarrow> Inl TokenRevoked
           | Some row \<Rightarrow>
               if revoked row \<or> (case expires_at row of None \<Rightarrow> False | Some e \<Rightarrow> e < now') then Inl TokenRevoked
               else (case users (tok_user row) of None \<Rightarrow> Inl AccountDisabled
               | Some u \<Rightarrow> if \<not> acc_active u then Inl AccountDisabled
                   else Inr \<lparr>id_user = Some u, id_token = Some row, access = Some (claimed_access (issue_claims now ttl i acc)),
                     anonymous = False, scanner = (SCANNER_SCOPE \<in> set (tok_scopes row))\<rparr>)))"
    by (simp add: identity_of_claims_def Let_def split: option.split)
qed (rule claimed_access_issued)

definition sample_token :: api_token where
  "sample_token = \<lparr>tok_id = 5, tok_user = 2, tok_scopes = [''docker:push''], repo_prefixes = [], revoked = False, expires_at = Some 100\<rparr>"

definition sample_account :: account where
  "sample_account = \<lparr>acc_id = 2, acc_admin = False, can_publish = True, acc_active = True\<rparr>"

theorem claims_roundtrip_witness:
  "case identity_of_claims (\<lambda>i. if i = 5 then Some sample_token else None) (\<lambda>i. Some sample_account) 99
     (issue_claims 0 300 (nobody\<lparr>id_token := Some sample_token\<rparr>)
       [(''local/app'', [''pull'']), (''local/lib'', [''pull'']), (''local/app'', [''push''])]) of
     Inl e \<Rightarrow> False
   | Inr j \<Rightarrow> id_user j = Some sample_account \<and> id_token j = Some sample_token \<and>
       (\<exists>got. access j = Some got \<and> map_of got ''local/app'' = Some [''pull'', ''push''])"
proof -
  let ?acc = "[(''local/app'', [''pull'']), (''local/lib'', [''pull'']), (''local/app'', [''push''])]"
  from claims_roundtrip [of ?acc "\<lambda>i. if i = 5 then Some sample_token else None" "\<lambda>i. Some sample_account" 99 0 300
      "nobody\<lparr>id_token := Some sample_token\<rparr>"]
  obtain got where "map_of got ''local/app'' = granted_on ?acc ''local/app''"
    and r: "identity_of_claims (\<lambda>i. if i = 5 then Some sample_token else None) (\<lambda>i. Some sample_account) 99
      (issue_claims 0 300 (nobody\<lparr>id_token := Some sample_token\<rparr>) ?acc) =
      Inr \<lparr>id_user = Some sample_account, id_token = Some sample_token, access = Some got, anonymous = False,
        scanner = (SCANNER_SCOPE \<in> set (tok_scopes sample_token))\<rparr>"
    by (auto simp: sample_token_def sample_account_def)
  then show ?thesis unfolding r by (simp add: granted_on_def)
qed

subsection \<open>Requests\<close>

text \<open>
  Writes. A request that changes anything is admitted only for a local repository and off the
  mirror host, and then only with a token that grants the push on that name or, for a caller
  authenticated directly, a logged-in account with publish rights and a credential with the push
  scope whose prefixes cover the name.
\<close>

theorem writes_admitted:
  "(is_write meth ep \<and> admit local_ns allow_anon mirror i name meth ep tgt = Granted) =
   (is_write meth ep \<and> \<not> mirror \<and> local tgt \<and>
    (if access i = None then
       starts_with (canonical tgt) (local_ns @ ''/'') \<and> \<not> anonymous i \<and>
       (\<exists>u. id_user i = Some u \<and> (can_publish u \<or> acc_admin u)) \<and>
       (PUSH_SCOPE \<in> set (scopes_of i) \<or> ''admin'' \<in> set (scopes_of i)) \<and>
       (case id_token i of None \<Rightarrow> True
        | Some t \<Rightarrow> repo_prefixes t = [] \<or> list_ex (starts_with (canonical tgt)) (repo_prefixes t))
     else access_grants i name ''push''))"
proof (cases "access i")
  case None
  then show ?thesis
    by (auto simp: admit_def require_def access_grants_def push_problem_def Let_def split: option.splits if_splits)
next
  case (Some acc)
  then show ?thesis by (auto simp: admit_def require_def split: if_splits option.splits)
qed

end
