(* ===== verification/Docker_Push.thy ===== *)
theory Docker_Push
  imports Docker_Scanning Docker_Auth
begin

section \<open>Pushing and deleting (\<open>docker/push.py\<close>)\<close>

text \<open>
  Upload sessions and their files, blobs entering a repository, cross-repository mounts, the manifest
  PUT and the deletes. An operation that fails leaves the tables as they were, as the request's
  transaction is rolled back; \<open>upload_commit\<close> also removes the file of a mismatching upload. The id
  of a new upload session is an argument.
\<close>

subsection \<open>Upload files (\<open>docker/store.py\<close>)\<close>

definition upload_bytes :: "string \<Rightarrow> registry \<Rightarrow> string" where
  "upload_bytes uid st = (case map_of (upload_files st) uid of None \<Rightarrow> [] | Some b \<Rightarrow> b)"

definition put_upload :: "string \<Rightarrow> string \<Rightarrow> registry \<Rightarrow> registry" where
  "put_upload uid b st = st\<lparr>upload_files := (uid, b) # filter (\<lambda>e. fst e \<noteq> uid) (upload_files st)\<rparr>"

definition upload_discard :: "string \<Rightarrow> registry \<Rightarrow> registry" where
  "upload_discard uid st = st\<lparr>upload_files := filter (\<lambda>e. fst e \<noteq> uid) (upload_files st)\<rparr>"

text \<open>Chunks are appended until one would pass the limit; \<open>0\<close> is no limit.\<close>

fun append_chunks :: "nat \<Rightarrow> string \<Rightarrow> string list \<Rightarrow> bool \<times> string" where
  "append_chunks limit b [] = (True, b)"
| "append_chunks limit b (c # cs) = (if limit \<noteq> 0 \<and> limit < length b + length c then (False, b)
     else append_chunks limit (b @ c) cs)"

definition upload_append :: "nat \<Rightarrow> string \<Rightarrow> string list \<Rightarrow> registry \<Rightarrow> (registry_error + nat) \<times> registry" where
  "upload_append limit uid chunks st = (case append_chunks limit (upload_bytes uid st) chunks of
     (ok, b) \<Rightarrow> (if ok then Inr (length b) else Inl SizeInvalid, put_upload uid b st))"

definition upload_commit :: "registry_env \<Rightarrow> string \<Rightarrow> string \<Rightarrow> registry \<Rightarrow> (registry_error + nat) \<times> registry" where
  "upload_commit env uid digest st = (let b = upload_bytes uid st in
     if hash_of env b \<noteq> digest then (Inl DigestInvalid, upload_discard uid st)
     else (Inr (length b), store_blob digest b (upload_discard uid st)))"

subsection \<open>Repositories and blobs\<close>

definition set_owner :: "int \<Rightarrow> int option \<Rightarrow> registry_db \<Rightarrow> registry_db" where
  "set_owner rid user d = d\<lparr>repos := update_where (\<lambda>r. r_id r = rid) (\<lambda>r. r\<lparr>owner_user_id := user\<rparr>) (repos d)\<rparr>"

definition is_admin :: "registry_identity \<Rightarrow> bool" where
  "is_admin i = (case id_user i of None \<Rightarrow> False | Some u \<Rightarrow> acc_admin u)"

definition repo_for_push ::
  "registry_env \<Rightarrow> target \<Rightarrow> registry_identity \<Rightarrow> registry_db \<Rightarrow> registry_error + repo_row \<times> registry_db" where
  "repo_for_push env tgt i d = (case get_repo env tgt True d of
     (None, d1) \<Rightarrow> Inl NameUnknown
   | (Some r, d1) \<Rightarrow>
       if owner_user_id r = None then Inr (r\<lparr>owner_user_id := user_id i\<rparr>, set_owner (r_id r) (user_id i) d1)
       else if owner_user_id r \<noteq> user_id i \<and> \<not> is_admin i then Inl Denied
       else Inr (r, d1))"

definition add_repo_blob :: "int \<Rightarrow> string \<Rightarrow> registry_db \<Rightarrow> registry_db" where
  "add_repo_blob rid digest d = (if list_ex (\<lambda>e. e = (rid, digest)) (repo_blobs d) then d
     else d\<lparr>repo_blobs := repo_blobs d @ [(rid, digest)]\<rparr>)"

definition record_local_blob :: "string \<Rightarrow> nat \<Rightarrow> registry_db \<Rightarrow> registry_db" where
  "record_local_blob digest n d = (if list_ex (\<lambda>b. b_digest b = digest) (blobs d)
     then d\<lparr>blobs := update_where (\<lambda>b. b_digest b = digest) (\<lambda>b. b\<lparr>b_local := True\<rparr>) (blobs d)\<rparr>
     else d\<lparr>blobs := blobs d @ [\<lparr>b_digest = digest, b_size = n, b_local = True\<rparr>]\<rparr>)"

definition start_upload :: "string \<Rightarrow> repo_row \<Rightarrow> registry_identity \<Rightarrow> registry \<Rightarrow> registry" where
  "start_upload uid repo i st = (put_upload uid [] st)\<lparr>db := (db st)\<lparr>uploads := uploads (db st)
     @ [\<lparr>u_id = uid, u_repo = r_id repo, u_user = user_id i\<rparr>]\<rparr>\<rparr>"

definition get_upload :: "repo_row \<Rightarrow> string \<Rightarrow> registry_db \<Rightarrow> registry_error + upload_row" where
  "get_upload repo uid d = (case find (\<lambda>u. u_id u = uid) (uploads d) of
     None \<Rightarrow> Inl UploadUnknown
   | Some u \<Rightarrow> if u_repo u \<noteq> r_id repo then Inl UploadUnknown else Inr u)"

definition finish_upload ::
  "registry_env \<Rightarrow> repo_row \<Rightarrow> upload_row \<Rightarrow> string \<Rightarrow> registry \<Rightarrow> (registry_error + nat) \<times> registry" where
  "finish_upload env repo u digest st = (if \<not> is_digest digest then (Inl DigestInvalid, st)
     else (case upload_commit env (u_id u) digest st of
        (Inl e, st1) \<Rightarrow> (Inl e, st1)
      | (Inr n, st1) \<Rightarrow> (Inr n, st1\<lparr>db := (let d = add_repo_blob (r_id repo) digest (record_local_blob digest n (db st1)) in
            d\<lparr>uploads := filter (\<lambda>v. u_id v \<noteq> u_id u) (uploads d)\<rparr>)\<rparr>)))"

definition mount_blob :: "image_policy \<Rightarrow> repo_row \<Rightarrow> string \<Rightarrow> repo_row option \<Rightarrow> registry \<Rightarrow> bool \<times> registry" where
  "mount_blob policy repo digest source st = (case source of
     None \<Rightarrow> (False, st)
   | Some src \<Rightarrow>
       if \<not> exists_blob digest st \<or> quarantined src \<or> \<not> blob_in_repo (r_id src) digest (db st) then (False, st)
       else (let v = blob_pull_verdict (db st) src digest policy in
         if \<not> allowed v \<and> v_code v = ''DENIED'' then (False, st)
         else (True, st\<lparr>db := add_repo_blob (r_id repo) digest
             (record_local_blob digest (case size_of_blob digest st of None \<Rightarrow> 0 | Some n \<Rightarrow> n) (db st))\<rparr>)))"

subsection \<open>Manifests\<close>

definition ref_missing :: "int \<Rightarrow> registry \<Rightarrow> manifest_ref \<Rightarrow> bool" where
  "ref_missing rid st r = (if mr_type r = Child then
       (case manifest_by_digest (mr_digest r) (db st) of None \<Rightarrow> True | Some c \<Rightarrow> \<not> linked rid (m_id c) (db st))
     else \<not> exists_blob (mr_digest r) st \<or> \<not> blob_in_repo rid (mr_digest r) (db st))"

definition put_manifest ::
  "registry_env \<Rightarrow> image_policy \<Rightarrow> int \<Rightarrow> repo_row \<Rightarrow> string \<Rightarrow> string \<Rightarrow> string option \<Rightarrow> registry_identity \<Rightarrow> registry \<Rightarrow>
   registry_error + manifest_row \<times> registry" where
  "put_manifest env policy now repo refname body content_type i st =
     (if \<not> is_digest refname \<and> \<not> is_tag refname then Inl TagInvalid
      else (case parse (max_manifest_bytes env) (max_index_entries env) (length body) (loads env body) content_type of
         Inl e \<Rightarrow> Inl (ManifestInvalid e)
       | Inr p \<Rightarrow> (let missing = map mr_digest (filter (ref_missing (r_id repo) st) (pm_refs p)) in
           if missing \<noteq> [] then Inl (MissingBlobs (take 10 missing))
           else sum_bind (store_manifest env body content_type (if is_digest refname then Some refname else None)
               None (user_id i) st) (\<lambda>(m, st1). (let
               d1 = link (r_id repo) (m_id m) (db st1);
               d2 = (if scan_status m = ''scanned'' then apply_push_policy policy m d1 else d1);
               d3 = (if is_digest refname then d2 else set_tag (r_id repo) refname (m_id m) now (user_id i) d2)
               in Inr (m, st1\<lparr>db := d3\<rparr>))))))"

definition push_manifest ::
  "registry_env \<Rightarrow> image_policy \<Rightarrow> int \<Rightarrow> target \<Rightarrow> string \<Rightarrow> string \<Rightarrow> string option \<Rightarrow> registry_identity \<Rightarrow> registry \<Rightarrow>
   registry_error + registry" where
  \<comment> \<open>\<open>_put_manifest\<close> of \<open>api/docker_v2.py\<close>: ownership, the PUT, then the scan it queues\<close>
  "push_manifest env policy now tgt refname body content_type i st =
     sum_bind (repo_for_push env tgt i (db st)) (\<lambda>(repo, d).
     sum_bind (put_manifest env policy now repo refname body content_type i (st\<lparr>db := d\<rparr>)) (\<lambda>(m, st1).
       Inr (if scanning_enabled policy then st1\<lparr>db := snd (enqueue m (r_name repo) ''push'' 10 None (db st1))\<rparr> else st1)))"

subsection \<open>Deletes\<close>

definition delete_manifest :: "repo_row \<Rightarrow> string \<Rightarrow> registry_db \<Rightarrow> registry_error + registry_db" where
  "delete_manifest repo digest d = (case manifest_by_digest digest d of
     None \<Rightarrow> Inl ManifestUnknown
   | Some m \<Rightarrow> if \<not> linked (r_id repo) (m_id m) d then Inl ManifestUnknown
       else Inr (d\<lparr>tags := filter (\<lambda>t. \<not> (t_repo t = r_id repo \<and> t_manifest t = m_id m)) (tags d),
                   links := filter (\<lambda>l. \<not> (l_repo l = r_id repo \<and> l_manifest l = m_id m)) (links d)\<rparr>))"

definition delete_tag :: "repo_row \<Rightarrow> string \<Rightarrow> registry_db \<Rightarrow> registry_error + registry_db" where
  "delete_tag repo tag d = (if find_tag (r_id repo) tag d = None then Inl ManifestUnknown
     else Inr (d\<lparr>tags := filter (\<lambda>t. \<not> (t_repo t = r_id repo \<and> t_tag t = tag)) (tags d)\<rparr>))"

definition delete_blob :: "repo_row \<Rightarrow> string \<Rightarrow> registry_db \<Rightarrow> registry_error + registry_db" where
  "delete_blob repo digest d = (if \<not> list_ex (\<lambda>e. e = (r_id repo, digest)) (repo_blobs d) then Inl BlobUnknown
     else Inr (d\<lparr>repo_blobs := filter (\<lambda>e. e \<noteq> (r_id repo, digest)) (repo_blobs d)\<rparr>))"

definition reap_uploads :: "(upload_row \<Rightarrow> bool) \<Rightarrow> registry \<Rightarrow> nat \<times> registry" where
  \<comment> \<open>\<open>stale\<close>: not touched for \<open>UPLOAD_TTL\<close>\<close>
  "reap_uploads stale st = (let old = filter stale (uploads (db st)) in
     (length old, (foldl (\<lambda>s u. upload_discard (u_id u) s) st old)
        \<lparr>db := (db st)\<lparr>uploads := filter (\<lambda>u. \<not> stale u) (uploads (db st))\<rparr>\<rparr>))"

end
