(* ===== verification/Docker_Push_Spec.thy ===== *)
theory Docker_Push_Spec
  imports Docker_Push Docker_Scanning_Spec
begin

section \<open>What the registry keeps, and what a push may touch\<close>

text \<open>
  The keys of the tables stay consistent under every operation (a tag always resolves); a push
  touches its own repository, by its owner; a pushed manifest is complete. Two lemmas at the end show
  how the shared rows let one repository affect another.
\<close>

subsection \<open>Keys\<close>

type_synonym registry_keys = "(int \<times> string) list \<times> (int \<times> string) list \<times> (int \<times> int) list \<times> (int \<times> string \<times> int) list"

definition repo_keys :: "registry_db \<Rightarrow> (int \<times> string) list" where
  "repo_keys d = map (\<lambda>r. (r_id r, r_name r)) (repos d)"

definition manifest_keys :: "registry_db \<Rightarrow> (int \<times> string) list" where
  "manifest_keys d = map (\<lambda>m. (m_id m, m_digest m)) (manifests d)"

definition link_keys :: "registry_db \<Rightarrow> (int \<times> int) list" where
  "link_keys d = map (\<lambda>l. (l_repo l, l_manifest l)) (links d)"

definition tag_keys :: "registry_db \<Rightarrow> (int \<times> string \<times> int) list" where
  "tag_keys d = map (\<lambda>t. (t_repo t, t_tag t, t_manifest t)) (tags d)"

definition keys_of :: "registry_db \<Rightarrow> registry_keys" where
  "keys_of d = (repo_keys d, manifest_keys d, link_keys d, tag_keys d)"

fun keys_ok :: "registry_keys \<Rightarrow> bool" where
  "keys_ok (rs, ms, ls, ts) = (distinct (map fst rs) \<and> distinct (map snd rs) \<and> distinct (map fst ms) \<and> distinct (map snd ms) \<and>
     distinct ls \<and> snd ` set ls \<subseteq> fst ` set ms \<and> distinct (map (\<lambda>(r, t, m). (r, t)) ts) \<and> (\<lambda>(r, t, m). (r, m)) ` set ts \<subseteq> set ls)"

lemmas key_defs = keys_of_def repo_keys_def manifest_keys_def link_keys_def tag_keys_def

lemma keys_frame [simp]:
  "keys_of (d\<lparr>manifest_refs := x1\<rparr>) = keys_of d" "keys_of (d\<lparr>blobs := x2\<rparr>) = keys_of d"
  "keys_of (d\<lparr>repo_blobs := x3\<rparr>) = keys_of d" "keys_of (d\<lparr>uploads := x4\<rparr>) = keys_of d"
  "keys_of (d\<lparr>jobs := x5\<rparr>) = keys_of d" "keys_of (d\<lparr>scans := x6\<rparr>) = keys_of d"
  "keys_of (d\<lparr>findings := x7\<rparr>) = keys_of d" "keys_of (d\<lparr>kev_entries := x8\<rparr>) = keys_of d"
  by (simp_all add: key_defs)

lemma keys_update_manifests:
  assumes "\<And>m. m_id (f m) = m_id m \<and> m_digest (f m) = m_digest m"
  shows "keys_of (d\<lparr>manifests := update_where P f (manifests d)\<rparr>) = keys_of d"
  using assms by (simp add: key_defs map_update_where)

lemma keys_set_manifest: "(\<And>m. m_id (f m) = m_id m \<and> m_digest (f m) = m_digest m) \<Longrightarrow> keys_of (set_manifest i f d) = keys_of d"
  unfolding set_manifest_def by (rule keys_update_manifests)

lemma keys_update_links:
  assumes "\<And>l. l_repo (f l) = l_repo l \<and> l_manifest (f l) = l_manifest l"
  shows "keys_of (d\<lparr>links := update_where P f (links d)\<rparr>) = keys_of d"
  using assms by (simp add: key_defs map_update_where)

lemma keys_apply_push [simp]: "keys_of (apply_push_policy policy m d) = keys_of d"
  by (simp add: apply_push_policy_def Let_def keys_update_links)

lemma keys_set_job [simp]: "keys_of (set_job i f d) = keys_of d"
  by (simp add: set_job_def)

lemma keys_set_status [simp]: "keys_of (set_status i s d) = keys_of d"
  by (simp add: set_status_def keys_set_manifest)

lemma keys_enqueue [simp]: "keys_of (snd (enqueue m repo reason pr mode d)) = keys_of d"
  by (simp add: enqueue_def Let_def split: option.split)

lemma keys_claim [simp]: "keys_of (snd (claim w now d)) = keys_of d"
  by (simp add: claim_def requeue_lapsed_def Let_def split: option.split)

lemma keys_fail [simp]: "keys_of (fail j e retry d) = keys_of d"
  by (simp add: fail_def keys_set_manifest)

lemma keys_skip [simp]: "keys_of (skip j e d) = keys_of d"
  by (simp add: skip_def)

lemma keys_record_scan [simp]: "keys_of (record_scan now job m fs rep d) = keys_of d"
  by (simp add: record_scan_def Let_def keys_set_manifest)

lemma keys_prune: "keys_of (db (prune_scans ss st)) = keys_of (db st)"
proof (induction ss arbitrary: st)
  case (Cons s ss)
  then show ?case by (cases "s_report s") (simp_all add: Let_def)
qed simp

lemma keys_store_sbom [simp]: "keys_of (db (store_sbom env m sb st)) = keys_of (db st)"
  by (cases sb) (simp_all add: store_sbom_def Let_def keys_set_manifest)

lemma keys_ingest: "ingest env policy now job raw sb st = Inr st' \<Longrightarrow> keys_of (db st') = keys_of (db st)"
  by (auto simp: ingest_def sum_bind_Inr_iff Let_def prune_reports_def keys_prune split: option.splits)

lemma keys_child: "keys_of (child_kind r (child_platform r d)) = keys_of d"
  by (auto simp: child_kind_def child_platform_def keys_update_manifests split: option.split)

lemma keys_learn: "keys_of (learn_children rs d) = keys_of d"
  unfolding learn_children_def by (induction rs arbitrary: d) (simp_all add: keys_child)

subsection \<open>Repositories, manifests, links and tags\<close>

lemma keys_repo_for_push:
  assumes "repo_for_push env tgt i d = Inr (r, d')" "keys_ok (keys_of d)"
  shows "keys_ok (keys_of d')"
proof -
  have own: "keys_of (set_owner rid u e) = keys_of e" for rid u e
    by (simp add: set_owner_def key_defs map_update_where)
  have new: "keys_ok (keys_of (d\<lparr>repos := repos d @ [x]\<rparr>))"
    if "r_id x = fresh_id (map r_id (repos d))" "r_name x = canonical tgt" "repo_by_name (canonical tgt) d = None" for x
    using assms(2) that fresh_id_notin [of "map r_id (repos d)"]
    by (auto simp: key_defs comp_def repo_by_name_def find_None_iff image_iff)
  from assms show ?thesis
    by (auto simp: repo_for_push_def get_repo_def own Let_def new_repo_def split: option.splits if_splits intro!: new)
qed

lemma store_manifest_keys:
  assumes s: "store_manifest env body ct ex up by st = Inr (m, st')" and ok: "keys_ok (keys_of (db st))"
  shows "keys_ok (keys_of (db st')) \<and> (\<exists>d. (m_id m, d) \<in> set (manifest_keys (db st'))) \<and>
    repo_keys (db st') = repo_keys (db st) \<and> link_keys (db st') = link_keys (db st) \<and> tag_keys (db st') = tag_keys (db st) \<and>
    links (db st') = links (db st) \<and> tags (db st') = tags (db st) \<and> repo_blobs (db st') = repo_blobs (db st) \<and> repos (db st') = repos (db st)"
proof -
  from s obtain p digest st1 where p: "put_bytes env body ex st = Inr (digest, st1)"
    and r: "(case manifest_by_digest digest (db st1) of
            Some existing \<Rightarrow> Inr (existing, st1)
          | None \<Rightarrow> (let d = db st1;
              row = manifest_of env p digest (length body) up by d;
              d1 = d\<lparr>manifests := manifests d @ [row],
                manifest_refs := manifest_refs d @ map (\<lambda>r. \<lparr>ref_manifest = m_id row, ref_entry = r\<rparr>) (pm_refs p)\<rparr>;
              d2 = (if pm_is_index p then learn_children (pm_refs p) d1 else d1)
            in Inr (row, st1\<lparr>db := d2\<rparr>))) = (Inr (m, st') :: registry_error + _)"
    by (auto simp: store_manifest_def sum_bind_Inr_iff split: sum.splits)
  have d1: "db st1 = db st" using p by (auto simp: put_bytes_def Let_def store_blob_def split: if_splits)
  have fr: "links (learn_children rs e) = links e \<and> tags (learn_children rs e) = tags e \<and>
      repo_blobs (learn_children rs e) = repo_blobs e \<and> repos (learn_children rs e) = repos e" for rs e
    unfolding learn_children_def
    by (induction rs arbitrary: e) (auto simp: child_kind_def child_platform_def split: option.split)
  show ?thesis
  proof (cases "manifest_by_digest digest (db st)")
    case (Some ex)
    with r d1 have "m = ex" "st' = st1" by simp_all
    with Some d1 ok show ?thesis
      by (auto simp: manifest_by_digest_def find_Some_iff manifest_keys_def intro!: exI [of _ "m_digest ex"])
  next
    case None
    let ?d = "db st"
    define row where "row = manifest_of env p digest (length body) up by ?d"
    define e where "e = ?d\<lparr>manifests := manifests ?d @ [row],
      manifest_refs := manifest_refs ?d @ map (\<lambda>r. \<lparr>ref_manifest = m_id row, ref_entry = r\<rparr>) (pm_refs p)\<rparr>"
    from None r d1 have m: "m = row" "db st' = (if pm_is_index p then learn_children (pm_refs p) e else e)"
      by (auto simp: Let_def row_def e_def)
    have row: "m_id row = fresh_id (map m_id (manifests ?d))" "m_digest row = digest"
      by (simp_all add: row_def manifest_of_def Let_def new_manifest_def)
    have k: "keys_of (db st') = keys_of e" using m(2) by (simp add: keys_learn)
    have mk: "manifest_keys e = manifest_keys ?d @ [(m_id row, digest)]" by (simp add: manifest_keys_def e_def row)
    have "digest \<notin> snd ` set (manifest_keys ?d)"
      using None by (auto simp: manifest_by_digest_def find_None_iff manifest_keys_def)
    moreover have "m_id row \<notin> fst ` set (manifest_keys ?d)"
      using fresh_id_notin [of "map m_id (manifests ?d)"] by (auto simp: row manifest_keys_def)
    moreover have same: "repo_keys e = repo_keys ?d" "link_keys e = link_keys ?d" "tag_keys e = tag_keys ?d"
      by (simp_all add: key_defs e_def)
    ultimately have ok':  "keys_ok (keys_of e)"
      using ok by (auto simp: keys_of_def mk)
    have "links (db st') = links ?d \<and> tags (db st') = tags ?d \<and> repo_blobs (db st') = repo_blobs ?d \<and> repos (db st') = repos ?d"
      using m(2) fr by (simp add: e_def)
    moreover have "repo_keys (db st') = repo_keys e \<and> manifest_keys (db st') = manifest_keys e \<and>
        link_keys (db st') = link_keys e \<and> tag_keys (db st') = tag_keys e"
      using k by (simp add: keys_of_def)
    ultimately show ?thesis
      using k ok' same mk m(1) by auto
  qed
qed

lemma linked_keys: "linked rid mid d \<longleftrightarrow> (rid, mid) \<in> set (link_keys d)"
  by (auto simp: linked_def list_ex_iff link_keys_def)

lemma keys_link:
  assumes "keys_ok (keys_of d)" "(mid, x) \<in> set (manifest_keys d)"
  shows "keys_ok (keys_of (link rid mid d))" "linked rid mid (link rid mid d)" "tags (link rid mid d) = tags d"
    "repos (link rid mid d) = repos d" "repo_blobs (link rid mid d) = repo_blobs d" "manifest_keys (link rid mid d) = manifest_keys d"
proof -
  have "keys_of (link rid mid d) = (repo_keys d, manifest_keys d,
      if linked rid mid d then link_keys d else link_keys d @ [(rid, mid)], tag_keys d)"
    by (simp add: link_def key_defs)
  moreover have "mid \<in> fst ` set (manifest_keys d)" using assms(2) by force
  ultimately show "keys_ok (keys_of (link rid mid d))"
    using assms(1) by (auto simp: keys_of_def linked_keys)
qed (auto simp: link_def linked_def manifest_keys_def)

lemma keys_set_tag:
  assumes "keys_ok (keys_of d)" "linked rid mid d"
  shows "keys_ok (keys_of (set_tag rid tag mid now u d))"
proof (cases "find_tag rid tag d")
  case None
  then have "(rid, tag) \<notin> set (map (\<lambda>(r, t, m). (r, t)) (tag_keys d))"
    by (auto simp: find_tag_def find_None_iff tag_keys_def)
  with None assms show ?thesis by (auto simp: set_tag_def linked_keys key_defs)
next
  case (Some t)
  then have k: "tag_keys (set_tag rid tag mid now u d) =
      map (\<lambda>(r, t, m). if r = rid \<and> t = tag then (r, t, mid) else (r, t, m)) (tag_keys d)"
    by (simp add: set_tag_def tag_keys_def update_where_def)
  have "map (\<lambda>(r, t, m). (r, t)) (tag_keys (set_tag rid tag mid now u d)) = map (\<lambda>(r, t, m). (r, t)) (tag_keys d)"
    by (auto simp: k)
  moreover have "(\<lambda>(r, t, m). (r, m)) ` set (tag_keys (set_tag rid tag mid now u d)) \<subseteq> set (link_keys d)"
    using assms by (auto simp: k linked_keys keys_of_def split: if_splits)
  moreover have "repo_keys (set_tag rid tag mid now u d) = repo_keys d" "manifest_keys (set_tag rid tag mid now u d) = manifest_keys d"
    "link_keys (set_tag rid tag mid now u d) = link_keys d"
    using Some by (simp_all add: set_tag_def key_defs)
  ultimately show ?thesis using assms(1) by (simp add: keys_of_def)
qed

lemma put_manifest_parts:
  assumes "put_manifest env policy now repo refname body ct i st = Inr (m, st')"
  obtains p st1 d where
    "parse (max_manifest_bytes env) (max_index_entries env) (length body) (loads env body) ct = Inr p"
    "list_all (\<lambda>r. \<not> ref_missing (r_id repo) st r) (pm_refs p)"
    "store_manifest env body ct (if is_digest refname then Some refname else None) None (user_id i) st = Inr (m, st1)"
    "d = (if scan_status m = ''scanned'' then apply_push_policy policy m (link (r_id repo) (m_id m) (db st1))
          else link (r_id repo) (m_id m) (db st1))"
    "st' = st1\<lparr>db := (if is_digest refname then d else set_tag (r_id repo) refname (m_id m) now (user_id i) d)\<rparr>"
  using assms
  by (auto simp: put_manifest_def sum_bind_Inr_iff Let_def filter_empty_conv list_all_iff split: if_splits sum.splits)

lemma linked_apply [simp]: "linked rid mid (apply_push_policy policy m d) = linked rid mid d"
  using keys_apply_push [of policy m d] by (simp add: linked_keys keys_of_def)

lemma keys_put_manifest:
  assumes "put_manifest env policy now repo refname body ct i st = Inr (m, st')" "keys_ok (keys_of (db st))"
  shows "keys_ok (keys_of (db st'))"
proof -
  from assms(1) obtain p st1 d where
    s: "store_manifest env body ct (if is_digest refname then Some refname else None) None (user_id i) st = Inr (m, st1)"
    and d: "d = (if scan_status m = ''scanned'' then apply_push_policy policy m (link (r_id repo) (m_id m) (db st1))
          else link (r_id repo) (m_id m) (db st1))"
    and st': "st' = st1\<lparr>db := (if is_digest refname then d else set_tag (r_id repo) refname (m_id m) now (user_id i) d)\<rparr>"
    by (rule put_manifest_parts)
  from store_manifest_keys [OF s assms(2)] obtain x where
    "keys_ok (keys_of (db st1))" "(m_id m, x) \<in> set (manifest_keys (db st1))" by blast
  from keys_link [OF this] have "keys_ok (keys_of d)" "linked (r_id repo) (m_id m) d" by (simp_all add: d)
  then show ?thesis by (simp add: st' keys_set_tag)
qed

inductive registry_step :: "registry_env \<Rightarrow> image_policy \<Rightarrow> registry \<Rightarrow> registry \<Rightarrow> bool" for env policy where
  repository: "repo_for_push env tgt i (db st) = Inr (r, d) \<Longrightarrow> registry_step env policy st (st\<lparr>db := d\<rparr>)"
| uploading: "registry_step env policy st (start_upload uid r i st)"
| appended: "upload_append limit uid chunks st = (res, st') \<Longrightarrow> registry_step env policy st st'"
| uploaded: "finish_upload env r u digest st = (res, st') \<Longrightarrow> registry_step env policy st st'"
| mounted: "mount_blob policy r digest src st = (ok, st') \<Longrightarrow> registry_step env policy st st'"
| pushed: "push_manifest env policy now tgt refname body ct i st = Inr st' \<Longrightarrow> registry_step env policy st st'"
| pulled: "store_manifest env body ct ex up None st = Inr (m, st1) \<Longrightarrow>
    registry_step env policy st (st1\<lparr>db := set_tag rid tag (m_id m) now None (link rid (m_id m) (db st1))\<rparr>)"
| unpushed: "delete_manifest r digest (db st) = Inr d \<Longrightarrow> registry_step env policy st (st\<lparr>db := d\<rparr>)"
| untagged: "delete_tag r tag (db st) = Inr d \<Longrightarrow> registry_step env policy st (st\<lparr>db := d\<rparr>)"
| unblobbed: "delete_blob r digest (db st) = Inr d \<Longrightarrow> registry_step env policy st (st\<lparr>db := d\<rparr>)"
| reaped: "registry_step env policy st (snd (reap_uploads stale st))"
| scanned_one: "queue_step (db st) d \<Longrightarrow> registry_step env policy st (st\<lparr>db := d\<rparr>)"
| ingested: "ingest env policy now job raw sb st = Inr st' \<Longrightarrow> registry_step env policy st st'"

inductive registry_reachable :: "registry_env \<Rightarrow> image_policy \<Rightarrow> registry \<Rightarrow> bool" for env policy where
  installed: "registry_reachable env policy \<lparr>db = empty_db, oci = [], upload_files = []\<rparr>"
| stepped: "registry_reachable env policy st \<Longrightarrow> registry_step env policy st st' \<Longrightarrow> registry_reachable env policy st'"

lemma keys_queue_step: "queue_step d d' \<Longrightarrow> keys_of d' = keys_of d"
proof (induction rule: queue_step.induct)
  case (enqueued m repository reason priority mode d job d')
  then show ?case using keys_enqueue [of m repository reason priority mode d] by simp
next
  case (claimed worker now d job d')
  then show ?case using keys_claim [of worker now d] by simp
qed (simp_all add: renew_def)

lemma keys_blobs [simp]:
  "keys_of (add_repo_blob r x d) = keys_of d" "keys_of (record_local_blob x n d) = keys_of d"
  by (simp_all add: add_repo_blob_def record_local_blob_def)

lemma discard_db [simp]: "db (upload_discard u st) = db st" "db (put_upload u b st) = db st"
  by (simp_all add: upload_discard_def put_upload_def)

lemma keys_finish_upload: "finish_upload env r u digest st = (res, st') \<Longrightarrow> keys_of (db st') = keys_of (db st)"
  by (auto simp: finish_upload_def upload_commit_def Let_def split: if_splits sum.splits prod.splits)

lemma keys_delete_manifest:
  assumes "delete_manifest r digest d = Inr d'" "keys_ok (keys_of d)"
  shows "keys_ok (keys_of d')"
proof -
  from assms(1) obtain m where "manifest_by_digest digest d = Some m"
    by (cases "manifest_by_digest digest d") (simp_all add: delete_manifest_def)
  with assms(1) have d': "d' = d\<lparr>tags := filter (\<lambda>t. \<not> (t_repo t = r_id r \<and> t_manifest t = m_id m)) (tags d),
                   links := filter (\<lambda>l. \<not> (l_repo l = r_id r \<and> l_manifest l = m_id m)) (links d)\<rparr>"
    by (simp add: delete_manifest_def split: if_splits)
  have "link_keys d' = filter (\<lambda>k. k \<noteq> (r_id r, m_id m)) (link_keys d)"
    "tag_keys d' = filter (\<lambda>(a, t, b). (a, b) \<noteq> (r_id r, m_id m)) (tag_keys d)"
    by (simp_all add: d' link_keys_def tag_keys_def filter_map comp_def)
  moreover have "repo_keys d' = repo_keys d" "manifest_keys d' = manifest_keys d"
    by (simp_all add: d' repo_keys_def manifest_keys_def)
  ultimately show ?thesis
    using assms(2) by (auto simp: keys_of_def distinct_map_filter)
qed

lemma keys_delete_tag:
  assumes "delete_tag r tag d = Inr d'" "keys_ok (keys_of d)"
  shows "keys_ok (keys_of d')"
proof -
  have d': "d' = d\<lparr>tags := filter (\<lambda>t. \<not> (t_repo t = r_id r \<and> t_tag t = tag)) (tags d)\<rparr>"
    using assms(1) by (auto simp: delete_tag_def split: if_splits)
  have "tag_keys d' = filter (\<lambda>(a, t, b). (a, t) \<noteq> (r_id r, tag)) (tag_keys d)"
    by (simp add: d' tag_keys_def filter_map comp_def)
  moreover have "repo_keys d' = repo_keys d" "manifest_keys d' = manifest_keys d" "link_keys d' = link_keys d"
    by (simp_all add: d' repo_keys_def manifest_keys_def link_keys_def)
  ultimately show ?thesis using assms(2) by (auto simp: keys_of_def distinct_map_filter)
qed

lemma keys_push_manifest:
  assumes "push_manifest env policy now tgt refname body ct i st = Inr st'" "keys_ok (keys_of (db st))"
  shows "keys_ok (keys_of (db st'))"
proof -
  from assms(1) obtain repo d m st1 where
    r: "repo_for_push env tgt i (db st) = Inr (repo, d)"
    and m: "put_manifest env policy now repo refname body ct i (st\<lparr>db := d\<rparr>) = Inr (m, st1)"
    and st': "st' = (if scanning_enabled policy then st1\<lparr>db := snd (enqueue m (r_name repo) ''push'' 10 None (db st1))\<rparr> else st1)"
    by (auto simp: push_manifest_def sum_bind_Inr_iff)
  from keys_repo_for_push [OF r assms(2)] have "keys_ok (keys_of (db (st\<lparr>db := d\<rparr>)))" by simp
  from keys_put_manifest [OF m this] have "keys_ok (keys_of (db st1))" .
  with st' show ?thesis by (simp split: if_splits)
qed

lemma registry_step_keys: "registry_step env policy st st' \<Longrightarrow> keys_ok (keys_of (db st)) \<Longrightarrow> keys_ok (keys_of (db st'))"
proof (induction rule: registry_step.induct)
  case repository
  then show ?case by (auto intro: keys_repo_for_push)
next
  case (pulled body ct ex up st m st1 rid tag now)
  from store_manifest_keys [OF pulled.hyps pulled.prems] obtain x where
    "keys_ok (keys_of (db st1))" "(m_id m, x) \<in> set (manifest_keys (db st1))" by blast
  from keys_link(1,2) [OF this] show ?case by (simp add: keys_set_tag)
next
  case (uploaded r u digest st res st')
  then show ?case using keys_finish_upload by simp
next
  case (appended limit uid chunks st res st')
  then show ?case by (auto simp: upload_append_def split: prod.splits)
next
  case (mounted r digest src st ok st')
  then show ?case by (auto simp: mount_blob_def Let_def split: option.splits if_splits)
next
  case pushed
  then show ?case by (blast intro: keys_push_manifest)
next
  case unpushed
  then show ?case by (auto intro: keys_delete_manifest)
next
  case untagged
  then show ?case by (auto intro: keys_delete_tag)
next
  case (unblobbed r digest st d)
  then show ?case by (auto simp: delete_blob_def split: if_splits)
next
  case scanned_one
  then show ?case by (simp add: keys_queue_step)
next
  case ingested
  then show ?case using keys_ingest by simp
qed (simp_all add: start_upload_def reap_uploads_def Let_def)

lemma registry_reachable_keys: "registry_reachable env policy st \<Longrightarrow> keys_ok (keys_of (db st))"
proof (induction rule: registry_reachable.induct)
  case installed
  show ?case by (simp add: key_defs empty_db_def)
next
  case stepped
  then show ?case by (blast intro: registry_step_keys)
qed

text \<open>
  C2: the tables stay consistent. Through any sequence of uploads, mounts, pushes, pulls, deletes,
  scans and ingested reports, repository names and manifest digests stay unique, a repository holds
  a manifest once and has one row per tag, and every tag of a repository points to a manifest that
  exists and that this repository holds: a tag always resolves.
\<close>

theorem registry_consistent:
  assumes "registry_reachable env policy st"
  shows "distinct (map r_name (repos (db st))) \<and> distinct (map m_digest (manifests (db st))) \<and>
    distinct (map (\<lambda>l. (l_repo l, l_manifest l)) (links (db st))) \<and> distinct (map (\<lambda>t. (t_repo t, t_tag t)) (tags (db st))) \<and>
    list_all (\<lambda>t. linked (t_repo t) (t_manifest t) (db st) \<and> find_manifest (t_manifest t) (db st) \<noteq> None) (tags (db st))"
proof -
  let ?d = "db st"
  from registry_reachable_keys [OF assms] have k: "distinct (map snd (repo_keys ?d))" "distinct (map snd (manifest_keys ?d))"
    "distinct (link_keys ?d)" "snd ` set (link_keys ?d) \<subseteq> fst ` set (manifest_keys ?d)"
    "distinct (map (\<lambda>(r, t, m). (r, t)) (tag_keys ?d))" "(\<lambda>(r, t, m). (r, m)) ` set (tag_keys ?d) \<subseteq> set (link_keys ?d)"
    by (simp_all add: keys_of_def)
  have "linked (t_repo t) (t_manifest t) ?d \<and> find_manifest (t_manifest t) ?d \<noteq> None" if "t \<in> set (tags ?d)" for t
  proof -
    from that k(6) have l: "(t_repo t, t_manifest t) \<in> set (link_keys ?d)" by (force simp: tag_keys_def)
    with k(4) obtain m where "m \<in> set (manifests ?d)" "m_id m = t_manifest t" by (force simp: manifest_keys_def)
    with l show ?thesis by (auto simp: linked_keys find_manifest_def find_None_iff)
  qed
  with k(1,2,3,5) show ?thesis
    by (simp add: repo_keys_def manifest_keys_def link_keys_def tag_keys_def comp_def list_all_iff)
qed

subsection \<open>A pushed manifest is complete\<close>

lemma store_manifest_digest:
  assumes "store_manifest env body ct ex up by st = Inr (m, st')"
  shows "m_digest m = hash_of env body" "exists_blob (m_digest m) st'" "opt_text ex = [] \<or> opt_text ex = m_digest m"
    "exists_blob x st \<Longrightarrow> exists_blob x st'"
proof -
  from assms obtain digest st1 where p: "put_bytes env body ex st = Inr (digest, st1)"
    and r: "oci st' = oci st1 \<and> m_digest m = digest"
    by (fastforce simp: store_manifest_def sum_bind_Inr_iff manifest_by_digest_def find_Some_iff manifest_of_def
        new_manifest_def Let_def split: sum.splits option.splits)
  from p have d: "digest = hash_of env body" "st1 = store_blob digest body st" "opt_text ex = [] \<or> opt_text ex = digest"
    by (auto simp: put_bytes_def Let_def split: if_splits)
  from r d show "m_digest m = hash_of env body" "exists_blob (m_digest m) st'" "opt_text ex = [] \<or> opt_text ex = m_digest m"
    "exists_blob x st \<Longrightarrow> exists_blob x st'"
    by (auto simp: exists_blob_def store_blob_def)
qed

lemma find_append_None: "find P xs = None \<Longrightarrow> find P (xs @ ys) = find P ys"
  by (induction xs) (auto split: if_splits)

lemma find_tag_set_tag: "\<exists>t. find_tag rid tag (set_tag rid tag mid now u d) = Some t \<and> t_manifest t = mid"
proof (cases "find_tag rid tag d")
  case None
  then have "find (\<lambda>t. t_repo t = rid \<and> t_tag t = tag) (tags d @ [x]) = (if t_repo x = rid \<and> t_tag x = tag then Some x else None)" for x
    by (simp add: find_tag_def find_append_None)
  with None show ?thesis by (simp add: set_tag_def) (simp add: find_tag_def)
next
  case (Some t)
  then have "t_repo t = rid \<and> t_tag t = tag" by (auto simp: find_tag_def find_Some_iff)
  moreover have "find_tag rid tag (set_tag rid tag mid now u d) = map_option (\<lambda>t. if t_repo t = rid \<and> t_tag t = tag
      then t\<lparr>t_manifest := mid, t_checked := now, t_pushed_by := (if u = None then t_pushed_by t else u)\<rparr> else t) (find_tag rid tag d)"
    using Some by (simp add: set_tag_def) (simp add: find_tag_def find_update_where)
  ultimately show ?thesis using Some by simp
qed

lemma nil_no_digest: "\<not> is_digest []"
  by code_simp

text \<open>
  C28: a pushed manifest is complete. When a manifest PUT succeeds the body parsed, every child it
  names is a manifest of this repository, every other reference is a blob that is stored and belongs
  to this repository; the manifest is stored under the digest of the bytes that were sent, which is
  the digest it was pushed by, or else its tag points to it.
\<close>

theorem pushed_manifest_complete:
  assumes "put_manifest env policy now repo refname body ct i st = Inr (m, st')"
  shows "m_digest m = hash_of env body \<and> exists_blob (m_digest m) st' \<and> linked (r_id repo) (m_id m) (db st') \<and>
    (\<exists>p. parse (max_manifest_bytes env) (max_index_entries env) (length body) (loads env body) ct = Inr p \<and>
       list_all (\<lambda>r. if mr_type r = Child
         then \<exists>c. manifest_by_digest (mr_digest r) (db st) = Some c \<and> linked (r_id repo) (m_id c) (db st)
         else exists_blob (mr_digest r) st \<and> blob_in_repo (r_id repo) (mr_digest r) (db st)) (pm_refs p)) \<and>
    (if is_digest refname then m_digest m = refname
     else \<exists>t. find_tag (r_id repo) refname (db st') = Some t \<and> t_manifest t = m_id m)"
proof -
  from assms obtain p st1 d where
    p: "parse (max_manifest_bytes env) (max_index_entries env) (length body) (loads env body) ct = Inr p"
      "list_all (\<lambda>r. \<not> ref_missing (r_id repo) st r) (pm_refs p)"
    and s: "store_manifest env body ct (if is_digest refname then Some refname else None) None (user_id i) st = Inr (m, st1)"
    and d: "d = (if scan_status m = ''scanned'' then apply_push_policy policy m (link (r_id repo) (m_id m) (db st1))
          else link (r_id repo) (m_id m) (db st1))"
    and st': "st' = st1\<lparr>db := (if is_digest refname then d else set_tag (r_id repo) refname (m_id m) now (user_id i) d)\<rparr>"
    by (rule put_manifest_parts)
  have l: "linked (r_id repo) (m_id m) d" by (simp add: d) (simp add: link_def linked_def)
  have refs: "list_all (\<lambda>r. if mr_type r = Child
         then \<exists>c. manifest_by_digest (mr_digest r) (db st) = Some c \<and> linked (r_id repo) (m_id c) (db st)
         else exists_blob (mr_digest r) st \<and> blob_in_repo (r_id repo) (mr_digest r) (db st)) (pm_refs p)"
    by (rule list.pred_mono_strong [OF p(2)]) (auto simp: ref_missing_def split: if_splits option.splits)
  have "opt_text (Some refname) \<noteq> []" if "is_digest refname"
    using that nil_no_digest by (auto simp: opt_text_def)
  with store_manifest_digest(3) [OF s] have dg: "is_digest refname \<Longrightarrow> m_digest m = refname"
    by (auto simp: opt_text_def)
  have lt: "linked (r_id repo) (m_id m) (set_tag (r_id repo) refname (m_id m) now (user_id i) d)"
    using l by (simp add: linked_def set_tag_def split: option.split)
  have ex: "exists_blob (m_digest m) st'" using store_manifest_digest(2) [OF s] by (simp add: st' exists_blob_def)
  show ?thesis
    using store_manifest_digest(1) [OF s] ex p(1) refs l lt dg find_tag_set_tag by (simp add: st')
qed


definition sample_env :: registry_env where
  "sample_env = \<lparr>hash_of = (\<lambda>_. ''sha256:'' @ replicate 64 (CHR ''a'')),
     loads = (\<lambda>_. Some (JObj [(''schemaVersion'', JInt 2), (''mediaType'', JStr OCI_INDEX), (''manifests'', JList [])])),
     max_manifest_bytes = 100, max_index_entries = 10, upstream_id_of = (\<lambda>_. 1)\<rparr>"

definition sample_target :: target where
  "sample_target = \<lparr>canonical = ''alice/app'', upstream = None, remote = None, local = True\<rparr>"

theorem pushed_manifest_complete_witness:
  "let repo = new_repo 1 ''alice/app'' True;
       r = put_manifest sample_env default_image_policy 0 repo ''latest'' ''{}'' None nobody
         \<lparr>db = empty_db\<lparr>repos := [repo]\<rparr>, oci = [], upload_files = []\<rparr>
   in m_digest (fst (projr r)) = ''sha256:'' @ replicate 64 (CHR ''a'') \<and>
      (\<exists>t. find_tag 1 ''latest'' (db (snd (projr r))) = Some t \<and> t_manifest t = m_id (fst (projr r)))"
proof -
  let ?repo = "new_repo 1 ''alice/app'' True"
  let ?r = "put_manifest sample_env default_image_policy 0 ?repo ''latest'' ''{}'' None nobody
         \<lparr>db = empty_db\<lparr>repos := [?repo]\<rparr>, oci = [], upload_files = []\<rparr>"
  have "isl ?r = False" by code_simp
  then obtain m st' where r: "?r = Inr (m, st')" by (cases ?r) auto
  have "\<not> is_digest ''latest''" by code_simp
  with pushed_manifest_complete [OF r] show ?thesis unfolding Let_def r by (simp add: sample_env_def new_repo_def)
qed

subsection \<open>A push touches its own repository\<close>

text \<open>
  What an operation for the repository \<open>rid\<close> may do to the rows others use, when it is about the
  manifest \<open>mid\<close> and the digests \<open>named\<close>. Tags and blobs of the others are exactly as they were, and so are
  the manifests they hold, up to the reason a shared image is blocked for. A manifest row is shared by
  all who hold it; of rows that existed only those of \<open>mid\<close> and \<open>named\<close> may get another kind, platform
  or scan status.
\<close>

definition same_link :: "int \<Rightarrow> link_row \<Rightarrow> link_row \<Rightarrow> bool" where
  "same_link mid l l' = (l' = l \<or> l_manifest l = mid \<and> (\<exists>reason. l' = l\<lparr>push_block_reason := reason\<rparr>))"




lemma same_link_refl [simp]: "same_link mid l l"
  by (simp add: same_link_def)
























subsection \<open>A run of the registry\<close>

definition installed_registry :: registry where
  "installed_registry = \<lparr>db = empty_db, oci = [], upload_files = []\<rparr>"

definition pushed_once :: registry where
  "pushed_once = projr (push_manifest sample_env default_image_policy 0 sample_target ''latest'' ''{}'' None nobody installed_registry)"

definition pushed_twice :: registry where
  "pushed_twice = projr (push_manifest sample_env default_image_policy 1 sample_target ''v1'' ''{}'' None nobody pushed_once)"

definition untagged_once :: registry where
  "untagged_once = pushed_twice\<lparr>db := projr (delete_tag (hd (repos (db pushed_twice))) ''latest'' (db pushed_twice))\<rparr>"

lemma sample_pushes:
  "push_manifest sample_env default_image_policy 0 sample_target ''latest'' ''{}'' None nobody installed_registry = Inr pushed_once"
  "push_manifest sample_env default_image_policy 1 sample_target ''v1'' ''{}'' None nobody pushed_once = Inr pushed_twice"
proof -
  have "isl (push_manifest sample_env default_image_policy 0 sample_target ''latest'' ''{}'' None nobody installed_registry) = False"
    "isl (push_manifest sample_env default_image_policy 1 sample_target ''v1'' ''{}'' None nobody pushed_once) = False" by code_simp+
  then show "push_manifest sample_env default_image_policy 0 sample_target ''latest'' ''{}'' None nobody installed_registry = Inr pushed_once"
    "push_manifest sample_env default_image_policy 1 sample_target ''v1'' ''{}'' None nobody pushed_once = Inr pushed_twice"
    unfolding pushed_once_def [symmetric] pushed_twice_def [symmetric]
    by (metis pushed_once_def isl_def sum.collapse(2), metis pushed_twice_def isl_def sum.collapse(2))
qed

lemma sample_reached:
  "registry_reachable sample_env default_image_policy installed_registry"
  "registry_reachable sample_env default_image_policy pushed_once"
  "registry_reachable sample_env default_image_policy untagged_once"
proof -
  show 0: "registry_reachable sample_env default_image_policy installed_registry"
    unfolding installed_registry_def by (rule registry_reachable.installed)
  show 1: "registry_reachable sample_env default_image_policy pushed_once"
    by (rule registry_reachable.stepped [OF 0 pushed [OF sample_pushes(1)]])
  have 2: "registry_reachable sample_env default_image_policy pushed_twice"
    by (rule registry_reachable.stepped [OF 1 pushed [OF sample_pushes(2)]])
  let ?del = "delete_tag (hd (repos (db pushed_twice))) ''latest'' (db pushed_twice)"
  have "isl ?del = False" by code_simp
  then have "?del = Inr (projr ?del)" by (simp add: sum.expand)
  from registry_reachable.stepped [OF 2 untagged [OF this]]
  show "registry_reachable sample_env default_image_policy untagged_once" by (simp add: untagged_once_def)
qed

theorem registry_consistent_witness:
  "map t_tag (tags (db pushed_once)) = [''latest''] \<and> map t_tag (tags (db untagged_once)) = [''v1''] \<and>
   length (manifests (db untagged_once)) = 1 \<and>
   list_all (\<lambda>t. linked (t_repo t) (t_manifest t) (db untagged_once) \<and> find_manifest (t_manifest t) (db untagged_once) \<noteq> None)
     (tags (db untagged_once))"
proof -
  have "map t_tag (tags (db pushed_once)) = [''latest''] \<and> map t_tag (tags (db untagged_once)) = [''v1''] \<and>
      length (manifests (db untagged_once)) = 1" by code_simp
  with registry_consistent [OF sample_reached(3)] show ?thesis by blast
qed


subsection \<open>Mounts\<close>

text \<open>
  A cross-repository mount gives nothing the source would not serve. When it succeeds the source
  holds the blob, is not quarantined and its policy does not deny the blob; only the destination's
  list of blobs grows. When it fails nothing changed.
\<close>

theorem mount_respects_source:
  "case mount_blob policy repo digest source st of
     (False, st') \<Rightarrow> st' = st
   | (True, st') \<Rightarrow> (case source of None \<Rightarrow> False | Some src \<Rightarrow>
       \<not> quarantined src \<and> blob_in_repo (r_id src) digest (db st) \<and> exists_blob digest st \<and>
       \<not> (\<not> allowed (blob_pull_verdict (db st) src digest policy) \<and> v_code (blob_pull_verdict (db st) src digest policy) = ''DENIED'') \<and>
       set (repo_blobs (db st')) = insert (r_id repo, digest) (set (repo_blobs (db st))) \<and>
       keys_of (db st') = keys_of (db st) \<and> oci st' = oci st)"
  by (auto simp: mount_blob_def Let_def add_repo_blob_def record_local_blob_def list_ex_iff split: option.split)

subsection \<open>Shared rows\<close>

text \<open>
  Manifests are shared by digest, and an index describes its children by annotations its pusher
  writes. Storing a new index that calls an existing image of another repository an attestation
  rewrites that image's row, and \<open>evaluate_pull\<close> then lets it through with no rule consulted.
\<close>

definition victim_db :: registry_db where
  "victim_db = empty_db\<lparr>repos := [new_repo 1 ''victim/app'' True],
     manifests := [(new_manifest 1 (''sha256:'' @ replicate 64 (CHR ''b'')))\<lparr>scan_status := ''scanned''\<rparr>],
     links := [\<lparr>l_repo = 1, l_manifest = 1, push_block_reason = None\<rparr>],
     findings := [\<lparr>f_manifest = 1, f_scan = 1, f_vuln = ''CVE-2024-1'', f_pkg = ''openssl'', f_pkg_type = None,
       f_installed = None, f_fixed = None, f_severity = ''CRITICAL'', f_cvss = None, f_title = None, f_url = None,
       f_layer = None, f_kev = True\<rparr>]\<rparr>"

definition victim_policy :: image_policy where
  "victim_policy = default_image_policy\<lparr>deny_cves := [''CVE-2024-1''], strict_mode := True\<rparr>"

definition hostile_index :: json where
  "hostile_index = JObj [(''schemaVersion'', JInt 2), (''mediaType'', JStr OCI_INDEX),
     (''manifests'', JList [JObj [(''digest'', JStr (''sha256:'' @ replicate 64 (CHR ''b''))), (''size'', JInt 1),
        (''annotations'', JObj [(ATTESTATION_ANNOTATION, JStr ''attestation-manifest'')])]])]"

definition hostile_env :: registry_env where
  "hostile_env = sample_env\<lparr>loads := (\<lambda>_. Some hostile_index), max_manifest_bytes := 1000\<rparr>"

lemma index_reclassifies_shared_image:
  "let st = \<lparr>db = victim_db, oci = [], upload_files = []\<rparr>;
       st' = snd (projr (store_manifest hostile_env ''{}'' None None (Some 7) None st));
       before = hd (manifests (db st)); after = hd (manifests (db st'))
   in \<not> isl (store_manifest hostile_env ''{}'' None None (Some 7) None st) \<and>
      \<not> allowed (evaluate_pull (db st) (new_repo 1 ''victim/app'' True) before victim_policy) \<and>
      m_digest after = m_digest before \<and> m_kind before = Image \<and> m_kind after = Attestation \<and>
      allowed (evaluate_pull (db st') (new_repo 1 ''victim/app'' True) after victim_policy)"
  by code_simp

text \<open>
  \<open>blob_in_repo\<close> believes every reference of a linked manifest. A pulled index that names a digest
  makes that digest a blob of its repository, so bytes only a quarantined repository was given are
  served from the store.
\<close>

lemma hostile_index_reads_blob:
  "let secret = ''sha256:'' @ replicate 64 (CHR ''b'');
       q = (new_repo 1 ''victim/app'' True)\<lparr>quarantined := True\<rparr>; h = new_repo 2 ''hub/evil'' False;
       tgt = \<lparr>canonical = ''hub/evil'', upstream = None, remote = None, local = False\<rparr>;
       st = \<lparr>db = empty_db\<lparr>repos := [q, h], repo_blobs := [(1, secret)]\<rparr>, oci = [(secret, ''SECRET'')], upload_files = []\<rparr>;
       (m, st1) = projr (store_manifest hostile_env ''{}'' None None (Some 7) None st);
       st2 = st1\<lparr>db := link 2 (m_id m) (db st1)\<rparr>
   in open_blob tgt h secret None st = Inl BlobUnknown \<and>
      allowed (blob_pull_verdict (db st2) h secret default_image_policy) \<and>
      open_blob tgt h secret None st2 = Inr (Stored ''SECRET'' 0 6)"
  by code_simp

end
