(* ===== verification/Ownership.thy ===== *)
theory Ownership
  imports Resolver Package_Policy
begin

section \<open>Who may publish a name (\<open>services/ownership.py\<close>)\<close>

text \<open>
  The three rules of publishing: a name an upstream serves is not published here, a name somebody
  published is theirs, a withdrawn version does not come back. A package row is extensible: the
  ecosystems add their own columns. \<open>upstream\<close> is what \<open>Resolver.resolve\<close> answered for the name, or
  \<open>None\<close> when it did not answer in time.
\<close>

record package_row =
  p_eco :: string
  p_name :: string
  p_norm :: string
  p_local :: bool
  p_owner :: "int option"

record retired_row =
  t_eco :: string
  t_norm :: string
  t_version :: string
  t_nversion :: string
  t_sha256 :: "string option"
  t_integrity :: "string option"
  t_removed_by :: "int option"

datatype publish_denied =
    ServedByUpstream
  | OwnedByAnother
  | CaseVariant string
  | ShadowUnchecked
  | ExistsUpstream
  | MirroredOnly
  | Withdrawn string

definition denied_status :: "publish_denied \<Rightarrow> nat" where
  "denied_status d = (case d of ShadowUnchecked \<Rightarrow> 503 | Withdrawn _ \<Rightarrow> 409 | _ \<Rightarrow> 403)"

record 'p publish_grant =
  g_package :: "'p option"
  g_owner :: "int option"
  g_new_name :: bool

subsection \<open>Reserved names\<close>

definition KEY_PUBLISH_NAMESPACES :: string where
  "KEY_PUBLISH_NAMESPACES = ''publish_namespaces''"

text \<open>\<open>value\<close> is the setting; \<open>None\<close> is the \<open>TypeError\<close> of iterating over a number.\<close>

definition namespace_patterns :: "json \<Rightarrow> string \<Rightarrow> string list option" where
  "namespace_patterns value eco = (if \<not> is_obj value then Some []
     else map_option (filter (\<lambda>p. py_strip p \<noteq> []))
       (let ps = jget value eco in
        if \<not> jtruthy ps then Some []
        else (case ps of
            JList xs \<Rightarrow> Some (List.map_filter as_str xs)
          | JStr s \<Rightarrow> Some (map (\<lambda>c. [c]) s)
          | JObj kvs \<Rightarrow> Some (map fst kvs)
          | _ \<Rightarrow> None)))"

definition matches_namespace :: "string \<Rightarrow> string list \<Rightarrow> bool" where
  "matches_namespace name patterns = list_ex (\<lambda>p. fnmatchcase (py_lower name) (py_lower (py_strip p))) patterns"

subsection \<open>Publishing\<close>

definition get_package_row :: "('a package_row_scheme) list \<Rightarrow> string \<Rightarrow> string \<Rightarrow> ('a package_row_scheme) option" where
  "get_package_row rs eco normalized = find (\<lambda>p. p_eco p = eco \<and> p_norm p = normalized) rs"

definition resolves_upstream :: "(tier_error + resolve_result option) option \<Rightarrow> bool option" where
  \<comment> \<open>\<open>None\<close> is \<open>ShadowCheckUnavailable\<close>\<close>
  "resolves_upstream answer = (case answer of
     None \<Rightarrow> None
   | Some (Inl e) \<Rightarrow> None
   | Some (Inr r) \<Rightarrow> Some (r \<noteq> None))"

definition case_variant :: "('a package_row_scheme) list \<Rightarrow> string \<Rightarrow> string \<Rightarrow> string option" where
  "case_variant rs eco normalized = map_option p_name
     (find (\<lambda>p. p_eco p = eco \<and> py_lower (p_norm p) = py_lower normalized \<and> p_norm p \<noteq> normalized) rs)"

definition authorize_publish ::
  "string list \<Rightarrow> bool \<Rightarrow> (tier_error + resolve_result option) option \<Rightarrow> ('a package_row_scheme) list \<Rightarrow>
   string \<Rightarrow> string \<Rightarrow> int option \<Rightarrow> bool \<Rightarrow> publish_denied + ('a package_row_scheme) publish_grant" where
  "authorize_publish patterns check_upstream answer rs eco display user_id is_admin = (let
     normalized = normalize_name_for eco display;
     reserved = matches_namespace normalized patterns
     in case get_package_row rs eco normalized of
       Some p \<Rightarrow>
         if \<not> p_local p then
           (if \<not> reserved then Inl ServedByUpstream
            else Inr \<lparr>g_package = Some p, g_owner = user_id, g_new_name = False\<rparr>)
         else (case p_owner p of
             None \<Rightarrow> Inr \<lparr>g_package = Some p, g_owner = user_id, g_new_name = False\<rparr>
           | Some w \<Rightarrow>
               if Some w \<noteq> user_id \<and> \<not> is_admin then Inl OwnedByAnother
               else Inr \<lparr>g_package = Some p, g_owner = Some w, g_new_name = False\<rparr>)
     | None \<Rightarrow> (case (if eco = ''npm'' then case_variant rs eco normalized else None) of
           Some v \<Rightarrow> Inl (CaseVariant v)
         | None \<Rightarrow>
             if \<not> reserved \<and> check_upstream then
               (case resolves_upstream answer of
                  None \<Rightarrow> Inl ShadowUnchecked
                | Some True \<Rightarrow> Inl ExistsUpstream
                | Some False \<Rightarrow> Inr \<lparr>g_package = None, g_owner = user_id, g_new_name = True\<rparr>)
             else Inr \<lparr>g_package = None, g_owner = user_id, g_new_name = True\<rparr>))"

subsection \<open>Changing what is published\<close>

definition authorize_mutation :: "('a package_row_scheme) \<Rightarrow> int option \<Rightarrow> bool \<Rightarrow> publish_denied + unit" where
  "authorize_mutation p user_id is_admin =
     (if \<not> p_local p then (if \<not> is_admin then Inl MirroredOnly else Inr ())
      else if p_owner p \<noteq> None \<and> p_owner p \<noteq> user_id \<and> \<not> is_admin then Inl OwnedByAnother
      else Inr ())"

subsection \<open>Withdrawn versions\<close>

definition retired_hit :: "'v packaging \<Rightarrow> retired_row list \<Rightarrow> string \<Rightarrow> string \<Rightarrow> string \<Rightarrow> retired_row option" where
  "retired_hit P ts eco nname nversion = (if eco = ''pypi''
     then find (\<lambda>t. t_eco t = eco \<and> t_norm t = nname \<and> pypi_versions_equal P (t_nversion t) nversion) ts
     else find (\<lambda>t. t_eco t = eco \<and> t_norm t = nname \<and> t_nversion t = nversion) ts)"

definition assert_not_retired :: "'v packaging \<Rightarrow> retired_row list \<Rightarrow> string \<Rightarrow> string \<Rightarrow> string \<Rightarrow> publish_denied + unit" where
  "assert_not_retired P ts eco nname nversion = (case retired_hit P ts eco nname nversion of
     None \<Rightarrow> Inr ()
   | Some t \<Rightarrow> Inl (Withdrawn (t_version t)))"

definition retire_version ::
  "string \<Rightarrow> string \<Rightarrow> string \<Rightarrow> string \<Rightarrow> string option \<Rightarrow> string option \<Rightarrow> int option \<Rightarrow> retired_row list \<Rightarrow> retired_row list" where
  "retire_version eco nname version nversion sha integrity user ts =
     (if list_ex (\<lambda>t. t_eco t = eco \<and> t_norm t = nname \<and> t_nversion t = nversion) ts then ts
      else ts @ [\<lparr>t_eco = eco, t_norm = nname, t_version = version, t_nversion = nversion,
             t_sha256 = sha, t_integrity = integrity, t_removed_by = user\<rparr>])"

text \<open>
  Deleting an account (\<open>delete_user\<close> of \<open>api/admin/management.py\<close>) leaves the names it owned with
  no owner: the column is \<open>ON DELETE SET NULL\<close>.
\<close>

definition disown :: "int \<Rightarrow> ('a package_row_scheme) list \<Rightarrow> ('a package_row_scheme) list" where
  "disown user rs = map (\<lambda>p. if p_owner p = Some user then p\<lparr>p_owner := None\<rparr> else p) rs"

end
