(* ===== verification/Npm_Publish.thy ===== *)
theory Npm_Publish
  imports Naming Py_Json
begin

section \<open>npm publish documents (\<open>services/npm_publish.py\<close>)\<close>

text \<open>
  Reading and classifying the document of \<open>npm publish\<close>, \<open>npm deprecate\<close> and \<open>npm unpublish\<close>, the
  tarball that belongs to a version, and the checks before its bytes are stored. Bytes are strings of
  characters below 256. Hashing and the tar reader are arguments: \<open>tar_members\<close> gives the names and
  kinds of an archive's members up to the first one that cannot be read.
\<close>

subsection \<open>Strict base64\<close>

definition b64_val :: "char \<Rightarrow> nat option" where
  "b64_val c = (let n = (of_char c :: nat) in
     if 65 \<le> n \<and> n \<le> 90 then Some (n - 65)
     else if 97 \<le> n \<and> n \<le> 122 then Some (n - 71)
     else if 48 \<le> n \<and> n \<le> 57 then Some (n + 4)
     else if n = 43 then Some 62
     else if n = 47 then Some 63 else None)"

text \<open>\<open>base64.b64decode(s, validate=True)\<close>; \<open>None\<close> is \<open>binascii.Error\<close>.\<close>

fun unb64 :: "string \<Rightarrow> nat list option" where
  "unb64 [] = Some []"
| "unb64 (a # b # c # d # s) = (case (b64_val a, b64_val b) of
     (Some x, Some y) \<Rightarrow>
       if d = CHR ''='' then
         (if s \<noteq> [] then None
          else if c = CHR ''='' then Some [x * 4 + y div 16]
          else (case b64_val c of None \<Rightarrow> None | Some z \<Rightarrow> Some [x * 4 + y div 16, y mod 16 * 16 + z div 4]))
       else (case (b64_val c, b64_val d, unb64 s) of
           (Some z, Some w, Some r) \<Rightarrow> Some ((x * 4 + y div 16) # (y mod 16 * 16 + z div 4) # (z mod 4 * 64 + w) # r)
         | _ \<Rightarrow> None)
   | _ \<Rightarrow> None)"
| "unb64 _ = None"

definition b64decode :: "string \<Rightarrow> string option" where
  "b64decode s = map_option (map char_of) (unb64 s)"

subsection \<open>Documents\<close>

record attachment =
  a_filename :: string
  a_data :: string
  a_content_type :: json
  a_declared :: "int option"

datatype intent = Publish | Deprecate | Unpublish

record publish_request =
  r_name :: string
  r_versions :: "(string \<times> json) list"
  r_dist_tags :: "(string \<times> string) list"
  r_attachments :: "(string \<times> attachment) list"
  r_description :: "string option"
  r_intent :: intent
  r_deprecations :: "(string \<times> string) list"

datatype publish_error =
    NotAnObject | NoPackageName | NameMismatch | InvalidName "string option" | VersionsNotObject
  | InvalidVersion string | BuildMetadata string | VersionNotObject string | VersionMismatch string
  | VersionMisnamed string | TagsNotObject | TagNotVersion string | BadTag dist_tag_error
  | AttachmentsNotObject | NoData string | NotBase64 string | AttachmentTooLarge string
  | LengthMismatch string | ShasumMismatch string | IntegrityMismatch string string

definition publish_error_status :: "publish_error \<Rightarrow> nat" where
  "publish_error_status e = (case e of AttachmentTooLarge _ \<Rightarrow> 413 | _ \<Rightarrow> 400)"

definition decode_attachment :: "nat \<Rightarrow> string \<Rightarrow> json \<Rightarrow> publish_error + attachment" where
  "decode_attachment max_bytes filename spec = (case as_str (jget spec ''data'') of
     None \<Rightarrow> Inl (NoData filename)
   | Some data \<Rightarrow> (case b64decode data of
       None \<Rightarrow> Inl (NotBase64 filename)
     | Some bytes \<Rightarrow> (let declared = as_int (jget spec ''length'') in
         if max_bytes < length bytes then Inl (AttachmentTooLarge filename)
         else if declared \<noteq> None \<and> declared \<noteq> Some (int (length bytes)) then Inl (LengthMismatch filename)
         else Inr \<lparr>a_filename = filename, a_data = bytes,
           a_content_type = (if jtruthy (jget spec ''content_type'') then jget spec ''content_type''
             else JStr ''application/octet-stream''), a_declared = declared\<rparr>)))"

fun obj_items :: "json \<Rightarrow> (string \<times> json) list" where
  "obj_items (JObj kvs) = kvs"
| "obj_items _ = []"

text \<open>\<open>doc.get(k) or {}\<close>, refused when it is not an object.\<close>

definition obj_field :: "publish_error \<Rightarrow> json \<Rightarrow> publish_error + (string \<times> json) list" where
  "obj_field err v = (if jtruthy v \<and> \<not> is_obj v then Inl err else Inr (obj_items v))"

definition check_version :: "string \<Rightarrow> string \<times> json \<Rightarrow> publish_error option" where
  "check_version name = (\<lambda>(version, meta).
     if \<not> is_valid_semver version then Some (InvalidVersion version)
     else if CHR ''+'' \<in> set version then Some (BuildMetadata version)
     else if \<not> is_obj meta then Some (VersionNotObject version)
     else if jget meta ''version'' \<noteq> JNull \<and> jget meta ''version'' \<noteq> JStr version then Some (VersionMismatch version)
     else if jget meta ''name'' \<noteq> JNull \<and> jget meta ''name'' \<noteq> JStr name then Some (VersionMisnamed version)
     else None)"

definition check_dist_tag :: "string \<times> json \<Rightarrow> publish_error option" where
  "check_dist_tag = (\<lambda>(tag, version). case as_str version of
     None \<Rightarrow> Some (TagNotVersion tag)
   | Some _ \<Rightarrow> map_option BadTag (npm_dist_tag_error (Some tag)))"

fun first_error :: "('a \<Rightarrow> 'e option) \<Rightarrow> 'a list \<Rightarrow> 'e + unit" where
  "first_error f [] = Inr ()"
| "first_error f (x # xs) = (case f x of Some e \<Rightarrow> Inl e | None \<Rightarrow> first_error f xs)"

definition is_tarball_attachment :: "string \<Rightarrow> bool" where
  "is_tarball_attachment filename = ends_with filename ''.tgz''"

definition document_name :: "json \<Rightarrow> string \<Rightarrow> publish_error + string" where
  "document_name doc path_name = (let
     name = (if jtruthy (jget doc ''name'') then jget doc ''name''
       else if jtruthy (jget doc ''_id'') then jget doc ''_id'' else JStr path_name)
     in case as_str name of
       None \<Rightarrow> Inl NoPackageName
     | Some n \<Rightarrow>
         if n = [] then Inl NoPackageName
         else if n \<noteq> path_name then Inl NameMismatch
         else (case is_valid_npm_name n of (ok, reason) \<Rightarrow> if ok then Inr n else Inl (InvalidName reason)))"

definition classify_intent :: "'a list \<Rightarrow> 'b list \<Rightarrow> intent" where
  "classify_intent supplied versions =
     (if supplied \<noteq> [] then Publish else if versions \<noteq> [] then Deprecate else Unpublish)"

definition parse_publish_document :: "nat \<Rightarrow> json \<Rightarrow> string \<Rightarrow> publish_error + publish_request" where
  "parse_publish_document max_bytes doc path_name =
     (if \<not> is_obj doc then Inl NotAnObject
      else sum_bind (document_name doc path_name) (\<lambda>name.
        if jget doc ''versions'' \<noteq> JNull \<and> \<not> is_obj (jget doc ''versions'') then Inl VersionsNotObject
        else (let versions = obj_items (jget doc ''versions'') in
          sum_bind (first_error (check_version name) versions) (\<lambda>_.
          sum_bind (obj_field TagsNotObject (jget doc ''dist-tags'')) (\<lambda>tags.
          sum_bind (first_error check_dist_tag tags) (\<lambda>_.
          sum_bind (obj_field AttachmentsNotObject (jget doc ''_attachments'')) (\<lambda>bytes.
            (let supplied = filter (\<lambda>(f, spec). is_obj spec \<and> jtruthy (jget spec ''data'')) bytes in
             sum_bind (sum_map (\<lambda>(f, spec). sum_bind (decode_attachment max_bytes f spec) (\<lambda>a. Inr (f, a)))
                 (filter (\<lambda>(f, spec). is_tarball_attachment f) supplied)) (\<lambda>attachments.
               Inr \<lparr>r_name = name, r_versions = versions,
                 r_dist_tags = List.map_filter (\<lambda>(t, v). map_option (Pair t) (as_str v)) tags,
                 r_attachments = attachments, r_description = as_str (jget doc ''description''),
                 r_intent = classify_intent supplied versions,
                 r_deprecations = List.map_filter (\<lambda>(v, meta). map_option (Pair v) (as_str (jget meta ''deprecated''))) versions\<rparr>)))))))))"

subsection \<open>Tarballs\<close>

text \<open>\<open>None\<close> is the \<open>AttributeError\<close> of a \<open>dist\<close> that is a non-empty value but not an object.\<close>

definition match_attachment :: "publish_request \<Rightarrow> string \<Rightarrow> attachment option option" where
  "match_attachment r version = (
     case map_of (r_attachments r) (r_name r @ ''-'' @ version @ ''.tgz'') of Some a \<Rightarrow> Some (Some a)
   | None \<Rightarrow> (case map_of (r_attachments r) (npm_tarball_filename (r_name r) version) of Some a \<Rightarrow> Some (Some a)
   | None \<Rightarrow> (let
       meta = (case map_of (r_versions r) version of Some m \<Rightarrow> m | None \<Rightarrow> JObj []);
       dist = jget meta ''dist''
       in if jtruthy dist \<and> \<not> is_obj dist then None
          else (case (case as_str (jget dist ''tarball'') of None \<Rightarrow> None
                  | Some url \<Rightarrow> map_of (r_attachments r) (last (split_on (CHR ''/'') url))) of
              Some a \<Rightarrow> Some (Some a)
            | None \<Rightarrow> Some (if length (r_attachments r) = 1 \<and> length (r_versions r) = 1
                then Some (snd (hd (r_attachments r))) else None)))))"

record hashes =
  sha1_hex :: "string \<Rightarrow> string"
  sha256_hex :: "string \<Rightarrow> string"
  digest_of :: "string \<Rightarrow> string \<Rightarrow> string"

definition known_algorithms :: "string list" where
  "known_algorithms = [''sha512'', ''sha256'', ''sha1'']"

definition check_token :: "hashes \<Rightarrow> string \<Rightarrow> string \<Rightarrow> string \<Rightarrow> publish_error option" where
  "check_token h version data token = (case py_partition (CHR ''-'') token of (algorithm, sep, rest) \<Rightarrow>
     if sep = [] \<or> algorithm \<notin> set known_algorithms then None
     else (let encoded = hd (split_on (CHR ''?'') rest);
           claimed = (case b64decode encoded of Some b \<Rightarrow> b | None \<Rightarrow> [])
       in if claimed \<noteq> digest_of h algorithm data then Some (IntegrityMismatch version token) else None))"

definition verify_declared_digests :: "hashes \<Rightarrow> string \<Rightarrow> json \<Rightarrow> string \<Rightarrow> publish_error + unit" where
  "verify_declared_digests h version meta data = (let dist = jget meta ''dist'' in
     if \<not> is_obj dist then Inr ()
     else (let shasum = as_str (jget dist ''shasum''); integrity = as_str (jget dist ''integrity'') in
       if shasum \<noteq> None \<and> shasum \<noteq> Some [] \<and> py_lower (the shasum) \<noteq> sha1_hex h data then Inl (ShasumMismatch version)
       else (case integrity of
           None \<Rightarrow> Inr ()
         | Some i \<Rightarrow> if py_strip i = [] then Inr () else first_error (check_token h version data) (split_ws i))))"

subsection \<open>Install scripts\<close>

definition INSTALL_SCRIPTS :: "string list" where
  "INSTALL_SCRIPTS = [''preinstall'', ''install'', ''postinstall'']"

definition MAX_TAR_MEMBERS :: nat where
  "MAX_TAR_MEMBERS = 10000"

definition is_root_gyp :: "string \<times> bool \<Rightarrow> bool" where
  "is_root_gyp = (\<lambda>(name, is_file).
     (let parts = filter (\<lambda>p. p \<noteq> [] \<and> p \<noteq> ''.'') (split_on (CHR ''/'') name)
      in length parts = 2 \<and> parts ! 1 = ''binding.gyp'' \<and> is_file))"

definition tarball_has_binding_gyp :: "(string \<Rightarrow> (string \<times> bool) list) \<Rightarrow> string \<Rightarrow> bool" where
  "tarball_has_binding_gyp tar_members data = list_ex is_root_gyp (take MAX_TAR_MEMBERS (tar_members data))"

definition has_install_script :: "(string \<Rightarrow> (string \<times> bool) list) \<Rightarrow> json \<Rightarrow> string \<Rightarrow> bool" where
  "has_install_script tar_members meta data = (let scripts = jget meta ''scripts'' in
     is_obj scripts \<and> list_ex (\<lambda>n. case as_str (jget scripts n) of None \<Rightarrow> False | Some s \<Rightarrow> py_strip s \<noteq> []) INSTALL_SCRIPTS
     \<or> tarball_has_binding_gyp tar_members data)"

fun obj_put :: "string \<Rightarrow> json \<Rightarrow> (string \<times> json) list \<Rightarrow> (string \<times> json) list" where
  "obj_put k v [] = [(k, v)]"
| "obj_put k v ((k', w) # d) = (if k' = k then (k, v) # d else (k', w) # obj_put k v d)"

definition annotate_install_script :: "(string \<Rightarrow> (string \<times> bool) list) \<Rightarrow> json \<Rightarrow> string \<Rightarrow> json" where
  "annotate_install_script tar_members meta data = (if has_install_script tar_members meta data
     then JObj (obj_put ''hasInstallScript'' (JBool True) (obj_items meta))
     else JObj (filter (\<lambda>(k, v). k \<noteq> ''hasInstallScript'') (obj_items meta)))"

end
