(* ===== verification/Npm_Registry.thy ===== *)
theory Npm_Registry
  imports Ownership Npm_Publish
begin

section \<open>Publishing and unpublishing npm packages (\<open>api/npm.py\<close>)\<close>

text \<open>
  The handlers that change a package: publish, dist-tags, deprecate, the packument update of
  \<open>npm unpublish pkg@version\<close>, the tarball delete that follows it, and the unpublish of a package;
  and the purge of cached bytes (\<open>services/artifacts.py\<close>). A handler that refuses changes nothing, as
  its transaction is rolled back. What the inline scan finds, the policy, the namespace patterns and
  what the upstreams answer are in \<open>npm_env\<close>; audit records and caches are left out.
\<close>

record npm_file =
  f_name :: string
  f_blob :: "string option"
  f_integrity :: "string option"

record npm_version =
  v_version :: string
  v_normalized :: string
  v_meta :: json
  v_local :: bool
  v_deprecated :: "string option"
  v_facts :: release_facts
  v_files :: "npm_file list"

record npm_package = package_row +
  pk_latest :: "string option"
  pk_description :: "string option"
  pk_versions :: "npm_version list"
  pk_tags :: "(string \<times> string) list"

record npm_registry =
  pkgs :: "npm_package list"
  retired :: "retired_row list"
  blob_refs :: "(string \<times> int) list"
  stored :: "(string \<times> string) list"

record 'v npm_env =
  max_attachment :: nat
  hashing :: hashes
  tar_members :: "string \<Rightarrow> (string \<times> bool) list"
  integrity_of :: "string \<Rightarrow> string"
  pep440 :: "'v packaging"
  in_specs :: "string \<Rightarrow> string \<Rightarrow> bool option"
  rules_of :: "rule list"
  allowlisting :: bool
  cve_rules :: cve_policy
  scan_of :: "string \<Rightarrow> string \<Rightarrow> release_facts"
  namespaces :: "string list"
  upstream_answer :: "string \<Rightarrow> (tier_error + resolve_result option) option"

record actor =
  act_user :: "int option"
  act_admin :: bool

datatype npm_refusal =
    BadDocument publish_error | NameBlocked | NothingToPublish | Denied publish_denied | AlreadyPublished string
  | NoTarball string | AttributeError | PolicyRefused string | PackageNotFound | VersionRequired | BadTagName dist_tag_error
  | NotPublished string | IntegrityError | LatestTag | TagNotFound | BadPackument | RemovesEverything | MirroredVersion | VersionNotFound

definition npm_package_named :: "string \<Rightarrow> npm_registry \<Rightarrow> npm_package option" where
  "npm_package_named name reg = get_package_row (pkgs reg) ''npm'' (normalize_name_for ''npm'' name)"

definition put_package :: "npm_package \<Rightarrow> npm_registry \<Rightarrow> npm_registry" where
  "put_package p reg = (if list_ex (\<lambda>q. p_norm q = p_norm p) (pkgs reg)
     then reg\<lparr>pkgs := map (\<lambda>q. if p_norm q = p_norm p then p else q) (pkgs reg)\<rparr>
     else reg\<lparr>pkgs := pkgs reg @ [p]\<rparr>)"

definition lift_denied :: "publish_denied + 'a \<Rightarrow> npm_refusal + 'a" where
  "lift_denied r = (case r of Inl d \<Rightarrow> Inl (Denied d) | Inr x \<Rightarrow> Inr x)"

definition may_mutate :: "actor \<Rightarrow> npm_package \<Rightarrow> npm_refusal + unit" where
  "may_mutate act p = lift_denied (authorize_mutation p (act_user act) (act_admin act))"

definition version_blocked :: "'v npm_env \<Rightarrow> string \<Rightarrow> string \<Rightarrow> release_facts \<Rightarrow> bool" where
  "version_blocked env norm_name version facts =
     blocked (evaluate (in_specs env) (rules_of env) (allowlisting env) (cve_rules env) ''npm'' norm_name (Some version) facts False)"

subsection \<open>Blobs\<close>

definition add_ref :: "string \<Rightarrow> string \<Rightarrow> npm_registry \<Rightarrow> npm_registry" where
  "add_ref sha data reg = reg\<lparr>
     stored := (if map_of (stored reg) sha = None then (sha, data) # stored reg else stored reg),
     blob_refs := (if map_of (blob_refs reg) sha = None then (sha, 1) # blob_refs reg
       else map (\<lambda>(s, n). if s = sha then (s, n + 1) else (s, n)) (blob_refs reg))\<rparr>"

definition drop_ref :: "string \<Rightarrow> npm_registry \<Rightarrow> npm_registry" where
  "drop_ref sha reg = (case map_of (blob_refs reg) sha of
     None \<Rightarrow> reg
   | Some n \<Rightarrow>
       if n - 1 \<le> 0 then reg\<lparr>blob_refs := filter (\<lambda>e. fst e \<noteq> sha) (blob_refs reg), stored := filter (\<lambda>e. fst e \<noteq> sha) (stored reg)\<rparr>
       else reg\<lparr>blob_refs := map (\<lambda>(s, k). if s = sha then (s, k - 1) else (s, k)) (blob_refs reg)\<rparr>)"

definition purge_file :: "npm_file \<Rightarrow> npm_registry \<Rightarrow> npm_registry" where
  "purge_file f reg = (case f_blob f of None \<Rightarrow> reg | Some sha \<Rightarrow> if sha = [] then reg else drop_ref sha reg)"

definition purge_files :: "npm_file list \<Rightarrow> npm_registry \<Rightarrow> npm_registry" where
  "purge_files fs reg = foldl (\<lambda>r f. purge_file f r) reg fs"

subsection \<open>Publish\<close>

type_synonym staged = "string \<times> json \<times> attachment \<times> release_facts"

fun stage :: "'v npm_env \<Rightarrow> publish_request \<Rightarrow> string \<Rightarrow> string list \<Rightarrow> (string \<times> json) list \<Rightarrow> npm_refusal + staged list" where
  "stage env r norm_name existing [] = Inr []"
| "stage env r norm_name existing ((version, meta) # rest) =
     (if version \<in> set existing then Inl (AlreadyPublished version)
      else (case match_attachment r version of
        None \<Rightarrow> Inl AttributeError
      | Some None \<Rightarrow> Inl (NoTarball version)
      | Some (Some a) \<Rightarrow> (case verify_declared_digests (hashing env) version meta (a_data a) of
            Inl e \<Rightarrow> Inl (BadDocument e)
          | Inr _ \<Rightarrow> (let facts = scan_of env (r_name r) version in
              if version_blocked env norm_name version facts then Inl (PolicyRefused version)
              else sum_bind (stage env r norm_name existing rest) (\<lambda>more.
                Inr ((version, annotate_install_script (tar_members env) meta (a_data a), a, facts) # more))))))"

definition commit_version :: "'v npm_env \<Rightarrow> string \<Rightarrow> npm_package \<times> npm_registry \<Rightarrow> staged \<Rightarrow> npm_package \<times> npm_registry" where
  "commit_version env name = (\<lambda>(p, reg) (version, meta, a, facts).
     (let sha = sha256_hex (hashing env) (a_data a);
          f = \<lparr>f_name = npm_tarball_filename name version, f_blob = Some sha, f_integrity = Some (integrity_of env (a_data a))\<rparr>;
          v = \<lparr>v_version = version, v_normalized = version, v_meta = meta, v_local = True, v_deprecated = None,
               v_facts = facts, v_files = [f]\<rparr>
      in (p\<lparr>pk_versions := pk_versions p @ [v]\<rparr>, add_ref sha (a_data a) reg)))"

fun put_tag :: "string \<Rightarrow> string \<Rightarrow> (string \<times> string) list \<Rightarrow> (string \<times> string) list" where
  "put_tag t v [] = [(t, v)]"
| "put_tag t v ((u, w) # ts) = (if u = t then (t, v) # ts else (u, w) # put_tag t v ts)"

definition publish_tags :: "publish_request \<Rightarrow> string list \<Rightarrow> npm_package \<Rightarrow> (string \<times> string) list" where
  "publish_tags r published p = (let
     known = map v_version (pk_versions p);
     tags = filter (\<lambda>(t, v). v \<in> set known) (r_dist_tags r)
     in if tags = [] \<and> published \<noteq> []
        then [(''latest'', case max_semver published of Some v \<Rightarrow> v | None \<Rightarrow> last published)] else tags)"

definition apply_tags :: "(string \<times> string) list \<Rightarrow> npm_package \<Rightarrow> npm_package" where
  "apply_tags tags p = (let
     p1 = foldl (\<lambda>q (t, v). let q1 = q\<lparr>pk_tags := put_tag t v (pk_tags q)\<rparr>
            in if t = ''latest'' then q1\<lparr>pk_latest := Some v\<rparr> else q1) p tags
     in if pk_latest p1 = None then p1\<lparr>pk_latest := max_semver (map v_version (pk_versions p1))\<rparr> else p1)"

definition claim_name :: "publish_request \<Rightarrow> npm_package publish_grant \<Rightarrow> npm_package" where
  "claim_name r g = (let
     p = (case g_package g of
        None \<Rightarrow> \<lparr>p_eco = ''npm'', p_name = r_name r, p_norm = normalize_name_for ''npm'' (r_name r), p_local = True,
          p_owner = g_owner g, pk_latest = None, pk_description = None, pk_versions = [], pk_tags = []\<rparr>
      | Some q \<Rightarrow> q)
     in p\<lparr>p_local := True, p_owner := (if p_owner p = None then g_owner g else p_owner p),
          pk_description := (case r_description r of Some d \<Rightarrow> if d = [] then pk_description p else Some d | None \<Rightarrow> pk_description p)\<rparr>)"

text \<open>The last check is the unique constraint on (package, normalized version).\<close>

definition handle_publish :: "'v npm_env \<Rightarrow> actor \<Rightarrow> publish_request \<Rightarrow> npm_registry \<Rightarrow> npm_refusal + npm_registry" where
  "handle_publish env act r reg = (let normalized = normalize_name_for ''npm'' (r_name r) in
     sum_bind (lift_denied (authorize_publish (namespaces env) True (upstream_answer env (r_name r)) (pkgs reg) ''npm''
         (r_name r) (act_user act) (act_admin act))) (\<lambda>g.
     sum_bind (lift_denied (first_error (\<lambda>(v, meta). case assert_not_retired (pep440 env) (retired reg) ''npm'' normalized v of
         Inl d \<Rightarrow> Some d | Inr _ \<Rightarrow> None) (r_versions r))) (\<lambda>_.
     sum_bind (stage env r normalized (case g_package g of None \<Rightarrow> [] | Some p \<Rightarrow> map v_version (pk_versions p)) (r_versions r)) (\<lambda>staged.
       (case foldl (commit_version env (r_name r)) (claim_name r g, reg) staged of
          (p, reg1) \<Rightarrow>
            if \<not> distinct (map v_normalized (pk_versions p)) then Inl IntegrityError
            else Inr (put_package (apply_tags (publish_tags r (map fst staged) p) p) reg1))))))"

subsection \<open>Deprecate\<close>

definition apply_deprecation :: "(string \<times> json) list \<Rightarrow> bool \<Rightarrow> npm_version \<Rightarrow> npm_version" where
  "apply_deprecation submitted missing_means_undeprecate v = (case map_of submitted (v_version v) of
     None \<Rightarrow> v
   | Some meta \<Rightarrow>
       if \<not> is_obj meta \<or> \<not> jhas meta ''deprecated'' \<and> \<not> missing_means_undeprecate then v
       else v\<lparr>v_deprecated := (case as_str (jget meta ''deprecated'') of
           Some m \<Rightarrow> if m = [] then None else Some m | None \<Rightarrow> None)\<rparr>)"

definition handle_deprecate :: "actor \<Rightarrow> publish_request \<Rightarrow> npm_registry \<Rightarrow> npm_refusal + npm_registry" where
  "handle_deprecate act r reg = (case npm_package_named (r_name r) reg of
     None \<Rightarrow> Inl PackageNotFound
   | Some p \<Rightarrow> sum_bind (may_mutate act p) (\<lambda>_.
       Inr (put_package (p\<lparr>pk_versions := map (apply_deprecation (r_versions r) True) (pk_versions p)\<rparr>) reg)))"

definition publish :: "'v npm_env \<Rightarrow> actor \<Rightarrow> string \<Rightarrow> json \<Rightarrow> npm_registry \<Rightarrow> npm_refusal + npm_registry" where
  "publish env act path_name body reg = (case parse_publish_document (max_attachment env) body path_name of
     Inl e \<Rightarrow> Inl (BadDocument e)
   | Inr r \<Rightarrow>
       if blocked (is_name_blocked (in_specs env) (rules_of env) (allowlisting env) (cve_rules env) ''npm''
            (normalize_name_for ''npm'' (r_name r))) then Inl NameBlocked
       else if r_intent r = Deprecate then handle_deprecate act r reg
       else if r_versions r = [] then Inl NothingToPublish
       else handle_publish env act r reg)"

subsection \<open>Dist-tags\<close>

definition tag_body_version :: "string \<Rightarrow> string" where
  "tag_body_version body = (let s = py_strip body;
     t = rev (dropWhile (\<lambda>c. c = CHR 0x22) (rev (dropWhile (\<lambda>c. c = CHR 0x22) s))) in py_strip t)"

definition set_dist_tag :: "actor \<Rightarrow> string \<Rightarrow> string \<Rightarrow> string \<Rightarrow> npm_registry \<Rightarrow> npm_refusal + npm_registry" where
  "set_dist_tag act name tag body reg = (let version = tag_body_version body in
     if version = [] then Inl VersionRequired
     else (case npm_dist_tag_error (Some tag) of
        Some e \<Rightarrow> Inl (BadTagName e)
      | None \<Rightarrow> (case npm_package_named name reg of
          None \<Rightarrow> Inl PackageNotFound
        | Some p \<Rightarrow> sum_bind (may_mutate act p) (\<lambda>_.
            if version \<notin> set (map v_version (pk_versions p)) then Inl (NotPublished version)
            else (let q = p\<lparr>pk_tags := put_tag tag version (pk_tags p)\<rparr> in
              Inr (put_package (if tag = ''latest'' then q\<lparr>pk_latest := Some version\<rparr> else q) reg))))))"

definition delete_dist_tag :: "actor \<Rightarrow> string \<Rightarrow> string \<Rightarrow> npm_registry \<Rightarrow> npm_refusal + npm_registry" where
  "delete_dist_tag act name tag reg = (if tag = ''latest'' then Inl LatestTag
     else (case npm_package_named name reg of
        None \<Rightarrow> Inl PackageNotFound
      | Some p \<Rightarrow> sum_bind (may_mutate act p) (\<lambda>_.
          if map_of (pk_tags p) tag = None then Inl TagNotFound
          else Inr (put_package (p\<lparr>pk_tags := filter (\<lambda>(t, v). t \<noteq> tag) (pk_tags p)\<rparr>) reg))))"

subsection \<open>Unpublish\<close>

definition primary_file :: "npm_version \<Rightarrow> npm_file option" where
  "primary_file v = find (\<lambda>f. f_blob f \<noteq> None \<and> f_blob f \<noteq> Some []) (v_files v)"

definition retire :: "actor \<Rightarrow> npm_package \<Rightarrow> npm_version \<Rightarrow> npm_file option \<Rightarrow> npm_registry \<Rightarrow> npm_registry" where
  "retire act p v f reg = reg\<lparr>retired := retire_version ''npm'' (p_norm p) (v_version v) (v_normalized v)
     (case f of None \<Rightarrow> None | Some x \<Rightarrow> f_blob x) (case f of None \<Rightarrow> None | Some x \<Rightarrow> f_integrity x) (act_user act) (retired reg)\<rparr>"

definition retire_version_row :: "actor \<Rightarrow> npm_package \<Rightarrow> npm_version \<Rightarrow> npm_registry \<Rightarrow> npm_registry" where
  \<comment> \<open>the row itself is dropped by the caller\<close>
  "retire_version_row act p v reg = purge_files (v_files v) (retire act p v (primary_file v) reg)"

definition retag :: "string list \<Rightarrow> string \<Rightarrow> npm_package \<Rightarrow> npm_package" where
  "retag removed wanted p = (let
     ts = List.map_filter (\<lambda>(t, v). if v \<notin> set removed then Some (t, v)
            else if t = ''latest'' then Some (t, wanted) else None) (pk_tags p)
     in case map_of ts ''latest'' of
          None \<Rightarrow> p\<lparr>pk_tags := ts @ [(''latest'', wanted)], pk_latest := Some wanted\<rparr>
        | Some v \<Rightarrow> p\<lparr>pk_tags := ts, pk_latest := Some v\<rparr>)"

definition wanted_latest :: "json \<Rightarrow> string list \<Rightarrow> string list \<Rightarrow> string" where
  "wanted_latest tags survivors visible = (case as_str (jget tags ''latest'') of
     Some w \<Rightarrow> if w \<in> set survivors then w
       else (case max_semver (if visible \<noteq> [] then visible else survivors) of Some m \<Rightarrow> m | None \<Rightarrow> last survivors)
   | None \<Rightarrow> (case max_semver (if visible \<noteq> [] then visible else survivors) of Some m \<Rightarrow> m | None \<Rightarrow> last survivors))"

definition hidden_versions :: "'v npm_env \<Rightarrow> npm_package \<Rightarrow> string list" where
  "hidden_versions env p = map v_version (filter (\<lambda>v. version_blocked env (p_norm p) (v_version v) (v_facts v)) (pk_versions p))"

definition version_goes :: "'v npm_env \<Rightarrow> json \<Rightarrow> npm_package \<Rightarrow> npm_version \<Rightarrow> bool" where
  "version_goes env body p v = (v_version v \<notin> fst ` set (obj_items (jget body ''versions'')) \<and> v_version v \<notin> set (hidden_versions env p))"

definition removed_versions :: "'v npm_env \<Rightarrow> json \<Rightarrow> npm_package \<Rightarrow> npm_version list" where
  "removed_versions env body p = sort_key (\<lambda>v. semver_sort_key (v_version v)) (filter (version_goes env body p) (pk_versions p))"

definition kept_versions :: "'v npm_env \<Rightarrow> json \<Rightarrow> npm_package \<Rightarrow> npm_version list" where
  "kept_versions env body p = filter (\<lambda>v. \<not> version_goes env body p v) (pk_versions p)"

definition updated_package :: "'v npm_env \<Rightarrow> json \<Rightarrow> npm_package \<Rightarrow> npm_package" where
  "updated_package env body p = (let
     survivors = map v_version (kept_versions env body p);
     visible = filter (\<lambda>v. v \<notin> set (hidden_versions env p)) survivors;
     tags = (if is_obj (jget body ''dist-tags'') then jget body ''dist-tags'' else JObj []);
     p1 = p\<lparr>pk_versions := map (apply_deprecation (obj_items (jget body ''versions'')) False) (kept_versions env body p)\<rparr>
     in if removed_versions env body p = [] then p1
        else retag (map v_version (removed_versions env body p)) (wanted_latest tags survivors visible) p1)"

definition update_package :: "'v npm_env \<Rightarrow> actor \<Rightarrow> json \<Rightarrow> npm_package \<Rightarrow> npm_registry \<Rightarrow> npm_refusal + npm_registry" where
  "update_package env act body p reg = (let removed = removed_versions env body p in
     if removed \<noteq> [] \<and> kept_versions env body p = [] then Inl RemovesEverything
     else sum_bind (may_mutate act p) (\<lambda>_.
       if list_ex (\<lambda>v. \<not> v_local v) removed \<and> \<not> act_admin act then Inl MirroredVersion
       else Inr (put_package (updated_package env body p) (foldl (\<lambda>r v. retire_version_row act p v r) reg removed))))"

definition update_packument :: "'v npm_env \<Rightarrow> actor \<Rightarrow> string \<Rightarrow> json \<Rightarrow> npm_registry \<Rightarrow> npm_refusal + npm_registry" where
  "update_packument env act name body reg = (let
     declared = (if jtruthy (jget body ''name'') then jget body ''name'' else jget body ''_id'')
     in if \<not> is_obj body \<or> declared \<noteq> JNull \<and> declared \<noteq> JStr name \<or> \<not> is_obj (jget body ''versions'')
           \<or> jtruthy (jget body ''_attachments'') then Inl BadPackument
        else (case npm_package_named name reg of
            None \<Rightarrow> Inl PackageNotFound
          | Some p \<Rightarrow> update_package env act body p reg))"

definition is_retired_tarball :: "npm_package \<Rightarrow> string \<Rightarrow> npm_registry \<Rightarrow> bool" where
  "is_retired_tarball p fname reg =
     list_ex (\<lambda>t. t_eco t = ''npm'' \<and> t_norm t = p_norm p \<and> npm_tarball_filename (p_name p) (t_version t) = fname) (retired reg)"

definition version_with_file :: "npm_package \<Rightarrow> string \<Rightarrow> (npm_version \<times> npm_file) option" where
  "version_with_file p fname = foldl (\<lambda>found v. case find (\<lambda>f. f_name f = fname) (v_files v) of
     Some f \<Rightarrow> Some (v, f) | None \<Rightarrow> found) None (pk_versions p)"

definition unpublish_version :: "actor \<Rightarrow> string \<Rightarrow> string \<Rightarrow> npm_registry \<Rightarrow> npm_refusal + npm_registry" where
  "unpublish_version act name fname reg = (case npm_package_named name reg of
     None \<Rightarrow> Inl PackageNotFound
   | Some p \<Rightarrow> (case version_with_file p fname of
       None \<Rightarrow> if is_retired_tarball p fname reg then sum_bind (may_mutate act p) (\<lambda>_. Inr reg) else Inl VersionNotFound
     | Some (v, f) \<Rightarrow>
         if \<not> v_local v \<and> \<not> act_admin act then Inl MirroredVersion
         else sum_bind (may_mutate act p) (\<lambda>_. Inr (put_package
             (p\<lparr>pk_versions := filter (\<lambda>w. v_version w \<noteq> v_version v) (pk_versions p)\<rparr>)
             (retire_version_row act p v (retire act p v (Some f) reg))))))"

definition retire_all :: "actor \<Rightarrow> npm_package \<Rightarrow> npm_registry \<Rightarrow> npm_registry" where
  "retire_all act p reg = foldl (\<lambda>r v. purge_files (v_files v) (if v_local v then retire act p v (primary_file v) r else r))
     reg (pk_versions p)"

definition unpublish_package :: "actor \<Rightarrow> string \<Rightarrow> npm_registry \<Rightarrow> npm_refusal + npm_registry" where
  "unpublish_package act name reg = (case npm_package_named name reg of
     None \<Rightarrow> Inl PackageNotFound
   | Some p \<Rightarrow> sum_bind (may_mutate act p) (\<lambda>_. (let reg1 = retire_all act p reg in
       Inr (reg1\<lparr>pkgs := filter (\<lambda>q. p_norm q \<noteq> p_norm p) (pkgs reg1)\<rparr>))))"

subsection \<open>Requests\<close>

datatype npm_request =
    PutDocument string json
  | PutTag string string string
  | DeleteTag string string
  | PutPackument string json
  | DeleteTarball string string
  | DeletePackage string

fun target_of :: "npm_request \<Rightarrow> string" where
  "target_of (PutDocument name body) = name"
| "target_of (PutTag name tag body) = name"
| "target_of (DeleteTag name tag) = name"
| "target_of (PutPackument name body) = name"
| "target_of (DeleteTarball name tarball) = name"
| "target_of (DeletePackage name) = name"

fun handle :: "'v npm_env \<Rightarrow> actor \<Rightarrow> npm_request \<Rightarrow> npm_registry \<Rightarrow> npm_refusal + npm_registry" where
  "handle env act (PutDocument name body) reg = publish env act name body reg"
| "handle env act (PutTag name tag body) reg = set_dist_tag act name tag body reg"
| "handle env act (DeleteTag name tag) reg = delete_dist_tag act name tag reg"
| "handle env act (PutPackument name body) reg = update_packument env act name body reg"
| "handle env act (DeleteTarball name tarball) reg = unpublish_version act name tarball reg"
| "handle env act (DeletePackage name) reg = unpublish_package act name reg"

end
