(* ===== verification/Npm_Registry_Spec.thy ===== *)
theory Npm_Registry_Spec
  imports Npm_Registry "HOL-Library.Multiset"
begin

section \<open>What publishing and unpublishing keep\<close>

text \<open>
  Through any sequence of requests a withdrawn version number is never published again, the count of
  each blob is the number of files that use it, only its owner or an admin changes a package, and
  every handler but the tarball delete leaves the tags on versions that exist.
\<close>

subsection \<open>Blob counts\<close>

definition file_shas :: "npm_file list \<Rightarrow> string multiset" where
  "file_shas fs = mset (List.map_filter f_blob fs)"

definition version_shas :: "npm_version list \<Rightarrow> string multiset" where
  "version_shas vs = \<Sum>\<^sub># (image_mset (\<lambda>v. file_shas (v_files v)) (mset vs))"

definition package_shas :: "npm_package list \<Rightarrow> string multiset" where
  "package_shas ps = \<Sum>\<^sub># (image_mset (\<lambda>p. version_shas (pk_versions p)) (mset ps))"

definition refs_are :: "string multiset \<Rightarrow> npm_registry \<Rightarrow> bool" where
  "refs_are M reg = (distinct (map fst (blob_refs reg)) \<and>
     (\<forall>s. map_of (blob_refs reg) s = (if count M s = 0 then None else Some (int (count M s)))) \<and>
     (\<forall>s. (map_of (stored reg) s = None) = (count M s = 0)))"

lemma shas_simps [simp]:
  "file_shas [] = {#}" "version_shas [] = {#}" "package_shas [] = {#}"
  "file_shas (f # fs) = (case f_blob f of None \<Rightarrow> {#} | Some s \<Rightarrow> {#s#}) + file_shas fs"
  "version_shas (v # vs) = file_shas (v_files v) + version_shas vs"
  "package_shas (p # ps) = version_shas (pk_versions p) + package_shas ps"
  "version_shas (vs @ ws) = version_shas vs + version_shas ws"
  "package_shas (ps @ qs) = package_shas ps + package_shas qs"
  by (auto simp: file_shas_def version_shas_def package_shas_def map_filter_simps split: option.split)

lemma version_shas_sort [simp]: "version_shas (sort_key k vs) = version_shas vs"
  by (simp add: version_shas_def)

lemma version_shas_partition: "version_shas vs = version_shas (filter P vs) + version_shas (filter (\<lambda>v. \<not> P v) vs)"
  by (induction vs) (auto simp: ac_simps)

lemma version_shas_map: "(\<And>v. v_files (f v) = v_files v) \<Longrightarrow> version_shas (map f vs) = version_shas vs"
  by (induction vs) auto

lemma refs_are_cong: "blob_refs reg = blob_refs reg' \<Longrightarrow> stored reg = stored reg' \<Longrightarrow> refs_are M reg = refs_are M reg'"
  by (simp add: refs_are_def)

lemma map_of_bump: "map_of (map (\<lambda>(s, n). if s = x then (s, f n) else (s, n)) kvs) y
    = (if y = x then map_option f (map_of kvs y) else map_of kvs y)"
  by (induction kvs) auto

lemma fst_bump: "fst \<circ> (\<lambda>(s, n). if s = x then (s, f n) else (s, n)) = fst"
  by auto

lemma map_of_drop: "map_of (filter (\<lambda>e. fst e \<noteq> x) kvs) y = (if y = x then None else map_of kvs y)"
  by (induction kvs) auto

lemma refs_are_add:
  assumes "refs_are M reg"
  shows "refs_are (add_mset s M) (add_ref s data reg)"
proof (cases "count M s = 0")
  case True
  with assms have n: "map_of (blob_refs reg) s = None" "map_of (stored reg) s = None" by (auto simp: refs_are_def)
  then have "s \<notin> fst ` set (blob_refs reg)" by (simp add: map_of_eq_None_iff)
  with assms True n show ?thesis by (auto simp: refs_are_def add_ref_def simp flip: count_greater_zero_iff simp del: count_eq_zero_iff)
next
  case False
  with assms have n: "map_of (blob_refs reg) s = Some (int (count M s))" "map_of (stored reg) s \<noteq> None" by (auto simp: refs_are_def)
  with assms False show ?thesis by (auto simp: refs_are_def add_ref_def map_of_bump fst_bump simp flip: count_greater_zero_iff simp del: count_eq_zero_iff)
qed

lemma refs_are_drop:
  assumes "refs_are (add_mset s M) reg"
  shows "refs_are M (drop_ref s reg)"
proof -
  from assms have n: "map_of (blob_refs reg) s = Some (int (count M s) + 1)" by (simp add: refs_are_def)
  show ?thesis
  proof (cases "count M s = 0")
    case True
    have "distinct (map fst (filter (\<lambda>e. fst e \<noteq> s) (blob_refs reg)))"
      using assms by (auto simp: refs_are_def distinct_map_filter)
    with True n assms show ?thesis by (auto simp: refs_are_def drop_ref_def map_of_drop simp flip: count_greater_zero_iff simp del: count_eq_zero_iff)
  next
    case False
    with n assms show ?thesis by (auto simp: refs_are_def drop_ref_def map_of_bump fst_bump simp flip: count_greater_zero_iff simp del: count_eq_zero_iff)
  qed
qed

lemma refs_are_purge:
  "refs_are (M + file_shas fs) reg \<Longrightarrow> [] \<notin># file_shas fs \<Longrightarrow> refs_are M (purge_files fs reg)"
proof (induction fs arbitrary: reg)
  case (Cons f fs)
  show ?case
  proof (cases "f_blob f")
    case None
    with Cons show ?thesis by (simp add: purge_files_def purge_file_def)
  next
    case (Some s)
    with Cons.prems have "refs_are (add_mset s (M + file_shas fs)) reg" "s \<noteq> []" by (auto simp: ac_simps)
    from refs_are_drop [OF this(1)] Cons.IH Cons.prems(2) Some \<open>s \<noteq> []\<close> show ?thesis
      by (simp add: purge_files_def purge_file_def)
  qed
qed (simp add: purge_files_def)

lemma purge_frame [simp]: "pkgs (purge_files fs reg) = pkgs reg" "retired (purge_files fs reg) = retired reg"
  unfolding purge_files_def
  by (induction fs arbitrary: reg) (auto simp: purge_file_def drop_ref_def split: option.split)

lemma retire_frame [simp]: "pkgs (retire act p v f reg) = pkgs reg" "blob_refs (retire act p v f reg) = blob_refs reg"
  "stored (retire act p v f reg) = stored reg"
  by (simp_all add: retire_def)

subsection \<open>The invariant\<close>

definition package_ok :: "retired_row list \<Rightarrow> npm_package \<Rightarrow> bool" where
  "package_ok ts p = (p_eco p = ''npm'' \<and> distinct (map v_version (pk_versions p)) \<and> distinct (map v_normalized (pk_versions p)) \<and>
     (\<forall>v \<in> set (pk_versions p). v_local v \<longrightarrow> v_normalized v = v_version v \<and>
        (\<forall>t \<in> set ts. \<not> (t_norm t = p_norm p \<and> t_nversion t = v_version v))))"

definition npm_ok :: "npm_registry \<Rightarrow> bool" where
  "npm_ok reg = (distinct (map p_norm (pkgs reg)) \<and> (\<forall>p \<in> set (pkgs reg). package_ok (retired reg) p) \<and>
     (\<forall>t \<in> set (retired reg). t_eco t = ''npm'') \<and> refs_are (package_shas (pkgs reg)) reg \<and> [] \<notin># package_shas (pkgs reg))"

lemma package_split:
  assumes "npm_ok reg" "p \<in> set (pkgs reg)"
  obtains xs ys where "pkgs reg = xs @ p # ys" "p_norm p \<notin> p_norm ` set (xs @ ys)"
proof -
  from assms(2) obtain xs ys where "pkgs reg = xs @ p # ys" by (meson split_list)
  with assms(1) that [of xs ys] show ?thesis by (auto simp: npm_ok_def)
qed

text \<open>A handler rewrites one package \<open>p\<close> to \<open>p'\<close> and tombstones only versions of it.\<close>

lemma npm_ok_put:
  assumes ok: "npm_ok reg" and p: "p \<in> set (pkgs reg)"
    and p': "p_norm p' = p_norm p" "package_ok (retired reg1) p'" "[] \<notin># version_shas (pk_versions p')"
    and r: "pkgs reg1 = pkgs reg" "\<forall>t \<in> set (retired reg1). t \<in> set (retired reg) \<or> t_eco t = ''npm'' \<and> t_norm t = p_norm p"
    and refs: "\<And>M. refs_are (M + version_shas (pk_versions p)) reg \<Longrightarrow> refs_are (M + version_shas (pk_versions p')) reg1"
  shows "npm_ok (put_package p' reg1)"
proof -
  from package_split [OF ok p] obtain xs ys where s: "pkgs reg = xs @ p # ys" "p_norm p \<notin> p_norm ` set (xs @ ys)" .
  have put: "put_package p' reg1 = reg1\<lparr>pkgs := xs @ p' # ys\<rparr>"
  proof -
    have skip: "map (\<lambda>q. if p_norm q = p_norm p then p' else q) zs = zs" if "p_norm p \<notin> p_norm ` set zs" for zs
      using that by (induction zs) auto
    from s(2) have "p_norm p \<notin> p_norm ` set xs" "p_norm p \<notin> p_norm ` set ys" by auto
    then have "map (\<lambda>q. if p_norm q = p_norm p then p' else q) xs = xs" "map (\<lambda>q. if p_norm q = p_norm p then p' else q) ys = ys"
      by (auto intro!: skip)
    with s(1) p'(1) r(1) show ?thesis by (simp add: put_package_def)
  qed
  have old: "package_ok (retired reg1) q" if "q \<in> set (xs @ ys)" for q
  proof -
    have "package_ok (retired reg) q" using ok that s(1) by (auto simp: npm_ok_def)
    moreover have "p_norm q \<noteq> p_norm p" using that s(2) by (metis imageI)
    ultimately show ?thesis using r(2) by (fastforce simp: package_ok_def)
  qed
  have "refs_are (package_shas (xs @ p # ys)) reg" using ok s(1) by (simp add: npm_ok_def)
  then have "refs_are ((package_shas xs + package_shas ys) + version_shas (pk_versions p)) reg" by (simp add: ac_simps)
  from refs [OF this] have rf: "refs_are (package_shas (xs @ p' # ys)) (reg1\<lparr>pkgs := xs @ p' # ys\<rparr>)"
    by (simp add: ac_simps refs_are_def)
  have "[] \<notin># package_shas (xs @ p' # ys)" using ok s(1) p'(3) by (auto simp: npm_ok_def)
  moreover have "distinct (map p_norm (xs @ p' # ys))" using ok s p'(1) by (auto simp: npm_ok_def)
  ultimately show ?thesis
    unfolding put npm_ok_def using old p'(2) rf r(2) ok by (auto simp: npm_ok_def)
qed

lemma npm_ok_new:
  assumes ok: "npm_ok reg" and p: "p_norm p \<notin> p_norm ` set (pkgs reg)" "package_ok (retired reg) p"
    "[] \<notin># version_shas (pk_versions p)"
    and r: "pkgs reg1 = pkgs reg" "retired reg1 = retired reg"
    and refs: "refs_are (package_shas (pkgs reg)) reg \<Longrightarrow> refs_are (package_shas (pkgs reg) + version_shas (pk_versions p)) reg1"
  shows "npm_ok (put_package p reg1)"
proof -
  have "\<not> list_ex (\<lambda>q. p_norm q = p_norm p) (pkgs reg1)" using p(1) r(1) by (auto simp: list_ex_iff) (metis image_eqI)
  then have put: "put_package p reg1 = reg1\<lparr>pkgs := pkgs reg @ [p]\<rparr>" using r(1) by (simp add: put_package_def)
  have "refs_are (package_shas (pkgs reg @ [p])) (reg1\<lparr>pkgs := pkgs reg @ [p]\<rparr>)"
    using refs ok by (simp add: npm_ok_def refs_are_def)
  then show ?thesis
    unfolding put npm_ok_def using ok p r by (auto simp: npm_ok_def)
qed

lemma found_package:
  "npm_package_named name reg = Some p \<Longrightarrow> p \<in> set (pkgs reg) \<and> p_norm p = normalize_name_for ''npm'' name \<and> p_eco p = ''npm''"
  by (auto simp: npm_package_named_def get_package_row_def find_Some_iff)

lemma no_package:
  "npm_ok reg \<Longrightarrow> npm_package_named name reg = None \<Longrightarrow> normalize_name_for ''npm'' name \<notin> p_norm ` set (pkgs reg)"
  by (auto simp: npm_package_named_def get_package_row_def find_None_iff npm_ok_def package_ok_def)

lemma may_mutate_Inr: "may_mutate act p = Inr u \<longleftrightarrow>
    (if p_local p then p_owner p = None \<or> p_owner p = act_user act \<or> act_admin act else act_admin act)"
  by (auto simp: may_mutate_def lift_denied_def authorize_mutation_def split: if_splits)

lemma package_versions_shas:
  assumes "npm_ok reg" "p \<in> set (pkgs reg)"
  shows "[] \<notin># version_shas (pk_versions p)"
proof -
  from package_split [OF assms] obtain xs ys where "pkgs reg = xs @ p # ys" .
  with assms(1) show ?thesis by (auto simp: npm_ok_def)
qed

subsection \<open>Publishing\<close>

definition staged_shas :: "'v npm_env \<Rightarrow> staged list \<Rightarrow> string multiset" where
  "staged_shas env st = image_mset (\<lambda>(v, m, a, f). sha256_hex (hashing env) (a_data a)) (mset st)"

lemma commit_versions:
  assumes "foldl (commit_version env name) (p, reg) st = (p', reg')"
  shows "pkgs reg' = pkgs reg \<and> retired reg' = retired reg \<and>
    (\<exists>vs. pk_versions p' = pk_versions p @ vs \<and> map v_version vs = map fst st \<and> version_shas vs = staged_shas env st \<and>
       (\<forall>v \<in> set vs. v_local v \<and> v_normalized v = v_version v)) \<and>
    p_norm p' = p_norm p \<and> p_eco p' = p_eco p \<and> p_local p' = p_local p \<and> p_owner p' = p_owner p \<and> pk_tags p' = pk_tags p \<and>
    (refs_are M reg \<longrightarrow> refs_are (M + staged_shas env st) reg')"
  using assms
proof (induction st arbitrary: p reg M)
  case Nil
  then show ?case by (simp add: staged_shas_def)
next
  case (Cons x st)
  obtain v meta a fs where x: "x = (v, meta, a, fs)" by (cases x) auto
  let ?s = "sha256_hex (hashing env) (a_data a)"
  define w where "w = \<lparr>v_version = v, v_normalized = v, v_meta = meta, v_local = True, v_deprecated = None, v_facts = fs,
    v_files = [\<lparr>f_name = npm_tarball_filename name v, f_blob = Some ?s, f_integrity = Some (integrity_of env (a_data a))\<rparr>]\<rparr>"
  have c: "commit_version env name (p, reg) x = (p\<lparr>pk_versions := pk_versions p @ [w]\<rparr>, add_ref ?s (a_data a) reg)"
    by (simp add: commit_version_def x w_def Let_def)
  with Cons.prems have f: "foldl (commit_version env name) (p\<lparr>pk_versions := pk_versions p @ [w]\<rparr>, add_ref ?s (a_data a) reg) st = (p', reg')"
    by simp
  from Cons.IH [OF f, of "add_mset ?s M"] obtain vs where
    "pk_versions p' = pk_versions p @ w # vs" "map v_version vs = map fst st" "version_shas vs = staged_shas env st"
    "\<forall>v \<in> set vs. v_local v \<and> v_normalized v = v_version v" by auto
  then have "pk_versions p' = pk_versions p @ (w # vs) \<and> map v_version (w # vs) = map fst (x # st) \<and>
      version_shas (w # vs) = staged_shas env (x # st) \<and> (\<forall>v \<in> set (w # vs). v_local v \<and> v_normalized v = v_version v)"
    by (simp add: w_def x staged_shas_def)
  moreover have "refs_are M reg \<longrightarrow> refs_are (M + staged_shas env (x # st)) reg'"
    using Cons.IH [OF f, of "add_mset ?s M"] refs_are_add [of M reg ?s "a_data a"] by (simp add: x staged_shas_def)
  moreover have "pkgs (add_ref ?s (a_data a) reg) = pkgs reg" "retired (add_ref ?s (a_data a) reg) = retired reg"
    by (simp_all add: add_ref_def)
  moreover note Cons.IH [OF f, of M]
  ultimately show ?case by (simp del: shas_simps)
qed

lemma stage_names:
  "stage env r nn ex vs = Inr st \<Longrightarrow> map fst st = map fst vs \<and> set (map fst vs) \<inter> set ex = {}"
proof (induction vs arbitrary: st)
  case (Cons x vs)
  obtain v meta where x: "x = (v, meta)" by fastforce
  from Cons.prems obtain more m a f where "v \<notin> set ex" "stage env r nn ex vs = Inr more" "st = (v, m, a, f) # more"
    by (auto simp: x sum_bind_Inr_iff Let_def split: if_splits option.splits sum.splits)
  with Cons.IH show ?case by (auto simp: x)
qed simp

lemma first_error_Inr: "first_error f xs = Inr u \<longleftrightarrow> (\<forall>x \<in> set xs. f x = None)"
  by (induction xs) (auto split: option.split)

lemma apply_tags_frame [simp]: "pk_versions (apply_tags ts p) = pk_versions p" "p_norm (apply_tags ts p) = p_norm p"
  "p_eco (apply_tags ts p) = p_eco p" "p_local (apply_tags ts p) = p_local p" "p_owner (apply_tags ts p) = p_owner p"
proof -
  have "pk_versions (foldl g p ts) = pk_versions p \<and> p_norm (foldl g p ts) = p_norm p \<and> p_eco (foldl g p ts) = p_eco p \<and>
      p_local (foldl g p ts) = p_local p \<and> p_owner (foldl g p ts) = p_owner p"
    if "\<And>q x. pk_versions (g q x) = pk_versions q \<and> p_norm (g q x) = p_norm q \<and> p_eco (g q x) = p_eco q \<and>
      p_local (g q x) = p_local q \<and> p_owner (g q x) = p_owner q" for g
    using that by (induction ts arbitrary: p) simp_all
  then show "pk_versions (apply_tags ts p) = pk_versions p" "p_norm (apply_tags ts p) = p_norm p"
    "p_eco (apply_tags ts p) = p_eco p" "p_local (apply_tags ts p) = p_local p" "p_owner (apply_tags ts p) = p_owner p"
    by (simp_all add: apply_tags_def Let_def split_def)
qed

lemma authorize_cases:
  assumes "authorize_publish pats b ans rs eco name u adm = Inr g"
  shows "get_package_row rs eco (normalize_name_for eco name) = g_package g"
    "case g_package g of None \<Rightarrow> True | Some p \<Rightarrow>
       if p_local p then p_owner p = None \<or> p_owner p = u \<or> adm else matches_namespace (p_norm p) pats"
  using assms
  by (auto simp: authorize_publish_def Let_def get_package_row_def find_Some_iff split: option.splits if_splits bool.splits)

lemma not_retired:
  assumes "assert_not_retired P ts ''npm'' nn v = Inr u" "t \<in> set ts" "t_eco t = ''npm''"
  shows "\<not> (t_norm t = nn \<and> t_nversion t = v)"
  using assms by (auto simp: assert_not_retired_def retired_hit_def find_None_iff split: option.splits)

definition good_hash :: "'v npm_env \<Rightarrow> bool" where
  \<comment> \<open>a digest has characters\<close>
  "good_hash env = (\<forall>d. sha256_hex (hashing env) d \<noteq> [])"

lemma lift_denied_Inr: "lift_denied r = Inr x \<longleftrightarrow> r = Inr x"
  by (simp add: lift_denied_def split: sum.split)

lemma publish_parts:
  assumes "handle_publish env act r reg = Inr reg'"
  obtains g st p reg1 where
    "authorize_publish (namespaces env) True (upstream_answer env (r_name r)) (pkgs reg) ''npm'' (r_name r) (act_user act) (act_admin act) = Inr g"
    "\<forall>(v, meta) \<in> set (r_versions r). assert_not_retired (pep440 env) (retired reg) ''npm'' (normalize_name_for ''npm'' (r_name r)) v = Inr ()"
    "stage env r (normalize_name_for ''npm'' (r_name r)) (case g_package g of None \<Rightarrow> [] | Some p \<Rightarrow> map v_version (pk_versions p)) (r_versions r) = Inr st"
    "foldl (commit_version env (r_name r)) (claim_name r g, reg) st = (p, reg1)"
    "reg' = put_package (apply_tags (publish_tags r (map fst st) p) p) reg1" "distinct (map v_normalized (pk_versions p))"
proof -
  let ?n = "normalize_name_for ''npm'' (r_name r)"
  from assms obtain g u st where
    g: "authorize_publish (namespaces env) True (upstream_answer env (r_name r)) (pkgs reg) ''npm'' (r_name r) (act_user act) (act_admin act) = Inr g"
    and n: "first_error (\<lambda>(v, meta). case assert_not_retired (pep440 env) (retired reg) ''npm'' ?n v of
         Inl d \<Rightarrow> Some d | Inr _ \<Rightarrow> None) (r_versions r) = Inr u"
    and st: "stage env r ?n (case g_package g of None \<Rightarrow> [] | Some p \<Rightarrow> map v_version (pk_versions p)) (r_versions r) = Inr st"
    and r: "(case foldl (commit_version env (r_name r)) (claim_name r g, reg) st of
          (p, reg1) \<Rightarrow> if \<not> distinct (map v_normalized (pk_versions p)) then Inl IntegrityError
            else Inr (put_package (apply_tags (publish_tags r (map fst st) p) p) reg1)) = (Inr reg' :: npm_refusal + npm_registry)"
    by (auto simp: handle_publish_def Let_def sum_bind_Inr_iff lift_denied_Inr)
  obtain p reg1 where f: "foldl (commit_version env (r_name r)) (claim_name r g, reg) st = (p, reg1)" by fastforce
  have "assert_not_retired (pep440 env) (retired reg) ''npm'' ?n v = Inr ()" if "(v, meta) \<in> set (r_versions r)" for v meta
    using n that by (auto simp: first_error_Inr split: sum.splits)
  with that [OF g _ st f] r f show ?thesis by (auto split: if_splits)
qed

lemma publish_ok:
  assumes pub: "handle_publish env act r reg = Inr reg'" and ok: "npm_ok reg" and h: "good_hash env"
    and d: "distinct (map fst (r_versions r))"
  shows "npm_ok reg'"
proof -
  let ?n = "normalize_name_for ''npm'' (r_name r)"
  from publish_parts [OF pub] obtain g st p reg1 where
    a: "authorize_publish (namespaces env) True (upstream_answer env (r_name r)) (pkgs reg) ''npm'' (r_name r) (act_user act) (act_admin act) = Inr g"
    and nr: "\<forall>(v, meta) \<in> set (r_versions r). assert_not_retired (pep440 env) (retired reg) ''npm'' ?n v = Inr ()"
    and s: "stage env r ?n (case g_package g of None \<Rightarrow> [] | Some p \<Rightarrow> map v_version (pk_versions p)) (r_versions r) = Inr st"
    and f: "foldl (commit_version env (r_name r)) (claim_name r g, reg) st = (p, reg1)"
    and reg': "reg' = put_package (apply_tags (publish_tags r (map fst st) p) p) reg1"
    and dn: "distinct (map v_normalized (pk_versions p))" .
  from commit_versions [OF f, of "{#}"] obtain vs where fr: "pkgs reg1 = pkgs reg" "retired reg1 = retired reg"
    and vs: "pk_versions p = pk_versions (claim_name r g) @ vs" "map v_version vs = map fst st" "version_shas vs = staged_shas env st"
      "\<forall>v \<in> set vs. v_local v \<and> v_normalized v = v_version v"
    and k: "p_norm p = p_norm (claim_name r g)" "p_eco p = p_eco (claim_name r g)" by auto
  have refs: "refs_are M reg \<Longrightarrow> refs_are (M + version_shas vs) reg1" for M
    using commit_versions [OF f, of M] vs(3) by simp
  have names: "map v_version vs = map fst (r_versions r)" using vs(2) stage_names [OF s] by simp
  have ne: "[] \<notin># version_shas vs" using h by (auto simp: vs(3) staged_shas_def good_hash_def) metis
  have fresh: "\<not> (t_norm t = ?n \<and> t_nversion t = v_version v)" if "v \<in> set vs" "t \<in> set (retired reg)" for v t
  proof -
    have "v_version v \<in> set (map fst (r_versions r))" using that(1) names by (metis image_eqI set_map)
    with nr not_retired that(2) ok show ?thesis by (fastforce simp: npm_ok_def)
  qed
  show ?thesis
  proof (cases "g_package g")
    case None
    with authorize_cases(1) [OF a] have "?n \<notin> p_norm ` set (pkgs reg)"
      using ok no_package [of reg "r_name r"] by (simp add: npm_package_named_def)
    moreover have n: "p_norm p = ?n" "p_eco p = ''npm''" "pk_versions p = vs" using None k vs(1) by (simp_all add: claim_name_def Let_def)
    ultimately show ?thesis
      unfolding reg' using ok fr ne refs fresh names d dn vs(4)
      by (intro npm_ok_new [of reg]) (auto simp: package_ok_def)
  next
    case (Some q)
    with authorize_cases(1) [OF a] found_package [of "r_name r" reg q] have q: "q \<in> set (pkgs reg)" "p_norm q = ?n" "p_eco q = ''npm''"
      by (simp_all add: npm_package_named_def)
    have pv: "pk_versions p = pk_versions q @ vs" "p_norm p = ?n" "p_eco p = ''npm''"
      using Some k vs(1) q by (simp_all add: claim_name_def Let_def)
    have qok: "package_ok (retired reg) q" using ok q(1) by (simp add: npm_ok_def)
    have "set (map v_version (pk_versions q)) \<inter> set (map v_version vs) = {}"
      using stage_names [OF s] Some names by auto
    then have "package_ok (retired reg) p"
      using qok pv q names d dn vs(4) fresh by (auto simp: package_ok_def)
    then have "package_ok (retired reg) (apply_tags (publish_tags r (map fst st) p) p)" by (simp add: package_ok_def)
    then show ?thesis
      unfolding reg' using ok q pv fr ne package_versions_shas [OF ok q(1)]
      by (intro npm_ok_put [of reg q]) (auto dest: refs simp: add.assoc [symmetric])
  qed
qed

subsection \<open>Unpublishing\<close>

lemma retire_set:
  "set (retired reg) \<subseteq> set (retired (retire act p v f reg))"
  "t \<in> set (retired (retire act p v f reg)) \<Longrightarrow>
     t \<in> set (retired reg) \<or> t_eco t = ''npm'' \<and> t_norm t = p_norm p \<and> t_nversion t = v_normalized v"
  by (auto simp: retire_def retire_version_def split: if_splits)

lemma retire_has: "\<exists>t \<in> set (retired (retire act p v f reg)). t_eco t = ''npm'' \<and> t_norm t = p_norm p \<and> t_nversion t = v_normalized v"
  by (auto simp: retire_def retire_version_def list_ex_iff)

text \<open>Tombstoning the rows that \<open>b\<close> selects and purging the files of all.\<close>

lemma retire_rows:
  fixes act p b k
  defines "g \<equiv> \<lambda>r v. purge_files (v_files v) (if b v then retire act p v (k v) r else r)"
  shows "pkgs (foldl g reg vs) = pkgs reg \<and> set (retired reg) \<subseteq> set (retired (foldl g reg vs)) \<and>
    (\<forall>t \<in> set (retired (foldl g reg vs)). t \<in> set (retired reg) \<or>
       t_eco t = ''npm'' \<and> t_norm t = p_norm p \<and> t_nversion t \<in> v_normalized ` set (filter b vs)) \<and>
    (\<forall>v \<in> set (filter b vs). \<exists>t \<in> set (retired (foldl g reg vs)). t_eco t = ''npm'' \<and> t_norm t = p_norm p \<and> t_nversion t = v_normalized v) \<and>
    (refs_are (M + version_shas vs) reg \<longrightarrow> [] \<notin># version_shas vs \<longrightarrow> refs_are M (foldl g reg vs))"
proof (induction vs arbitrary: reg)
  case (Cons v vs)
  let ?r = "g reg v"
  have r: "pkgs ?r = pkgs reg" "retired ?r = (if b v then retired (retire act p v (k v) reg) else retired reg)"
    by (simp_all add: g_def)
  have refs: "refs_are (M + version_shas vs) ?r" if "refs_are (M + version_shas (v # vs)) reg" "[] \<notin># file_shas (v_files v)"
  proof -
    from that(1) have "refs_are ((M + version_shas vs) + file_shas (v_files v)) (if b v then retire act p v (k v) reg else reg)"
      by (simp add: ac_simps refs_are_def)
    from refs_are_purge [OF this that(2)] show ?thesis by (simp add: g_def)
  qed
  have 1: "set (retired reg) \<subseteq> set (retired ?r)"
    "\<forall>t \<in> set (retired ?r). t \<in> set (retired reg) \<or> b v \<and> t_eco t = ''npm'' \<and> t_norm t = p_norm p \<and> t_nversion t = v_normalized v"
    using retire_set(1) [of reg act p v "k v"] retire_set(2) [of _ act p v "k v" reg] by (auto simp: r(2) split: if_splits)
  have 2: "b v \<Longrightarrow> \<exists>t \<in> set (retired ?r). t_eco t = ''npm'' \<and> t_norm t = p_norm p \<and> t_nversion t = v_normalized v"
    using retire_has [of act p v "k v" reg] by (simp add: r(2))
  note ih = Cons.IH [of ?r]
  from ih r(1) have "pkgs (foldl g reg (v # vs)) = pkgs reg" by simp
  moreover from ih 1(1) have "set (retired reg) \<subseteq> set (retired (foldl g reg (v # vs)))" by auto
  moreover from ih 1(2) have "\<forall>t \<in> set (retired (foldl g reg (v # vs))). t \<in> set (retired reg) \<or>
       t_eco t = ''npm'' \<and> t_norm t = p_norm p \<and> t_nversion t \<in> v_normalized ` set (filter b (v # vs))" by fastforce
  moreover from ih 2 have "\<forall>w \<in> set (filter b (v # vs)). \<exists>t \<in> set (retired (foldl g reg (v # vs))).
       t_eco t = ''npm'' \<and> t_norm t = p_norm p \<and> t_nversion t = v_normalized w" by (auto split: if_splits)
  moreover from ih refs have "refs_are (M + version_shas (v # vs)) reg \<longrightarrow> [] \<notin># version_shas (v # vs) \<longrightarrow>
       refs_are M (foldl g reg (v # vs))" by simp
  ultimately show ?case by blast
qed simp

lemma retag_frame [simp]: "pk_versions (retag ws w p) = pk_versions p" "p_norm (retag ws w p) = p_norm p"
  "p_eco (retag ws w p) = p_eco p" "p_local (retag ws w p) = p_local p" "p_owner (retag ws w p) = p_owner p"
  by (simp_all add: retag_def Let_def split: option.split)

definition keeps_row :: "(npm_version \<Rightarrow> npm_version) \<Rightarrow> bool" where
  "keeps_row f = (\<forall>v. v_version (f v) = v_version v \<and> v_normalized (f v) = v_normalized v \<and>
     v_local (f v) = v_local v \<and> v_files (f v) = v_files v)"

lemma keeps_deprecation: "keeps_row (apply_deprecation s b)"
  by (simp add: keeps_row_def apply_deprecation_def split: option.split)

text \<open>The versions that go are tombstoned and purged, the others stay (edited by \<open>f\<close>).\<close>

lemma removal_ok:
  assumes ok: "npm_ok reg" and p: "p \<in> set (pkgs reg)"
    and q: "p_norm q = p_norm p" "p_eco q = p_eco p" "pk_versions q = map f (filter (\<lambda>v. \<not> goes v) (pk_versions p))"
    and f: "keeps_row f"
    and r: "pkgs reg1 = pkgs reg" "\<forall>t \<in> set (retired reg1). t \<in> set (retired reg) \<or>
        t_eco t = ''npm'' \<and> t_norm t = p_norm p \<and> t_nversion t \<in> v_normalized ` set (filter goes (pk_versions p))"
    and refs: "\<And>M. refs_are (M + version_shas (filter goes (pk_versions p))) reg \<Longrightarrow> refs_are M reg1"
  shows "npm_ok (put_package q reg1)"
proof -
  let ?kept = "filter (\<lambda>v. \<not> goes v) (pk_versions p)"
  have pok: "package_ok (retired reg) p" using ok p by (simp add: npm_ok_def)
  have fv: "v_version (f v) = v_version v" "v_normalized (f v) = v_normalized v" "v_local (f v) = v_local v" "v_files (f v) = v_files v" for v
    using f by (simp_all add: keeps_row_def)
  have "package_ok (retired reg1) q"
    unfolding package_ok_def
  proof (intro conjI ballI impI)
    show "p_eco q = ''npm''" using q(2) pok by (simp add: package_ok_def)
    show "distinct (map v_version (pk_versions q))" "distinct (map v_normalized (pk_versions q))"
      using pok by (simp_all add: q(3) comp_def fv package_ok_def distinct_map_filter)
    fix v assume "v \<in> set (pk_versions q)" "v_local v"
    then obtain w where w: "w \<in> set (pk_versions p)" "\<not> goes w" "v_local w" "v_version v = v_version w" "v_normalized v = v_normalized w"
      by (auto simp: q(3) fv)
    with pok show "v_normalized v = v_version v" by (auto simp: package_ok_def)
    have away: "v_version v \<noteq> v_normalized u" if "u \<in> set (pk_versions p)" "goes u" for u
    proof -
      have "v_normalized w \<noteq> v_normalized u" using that w(1,2) pok by (auto simp: package_ok_def distinct_map inj_on_def)
      moreover have "v_normalized w = v_version w" using w(1,3) pok by (simp add: package_ok_def)
      ultimately show ?thesis using w(4) by simp
    qed
    fix t assume "t \<in> set (retired reg1)"
    with r(2) consider "t \<in> set (retired reg)" | "t_nversion t \<in> v_normalized ` set (filter goes (pk_versions p))" by blast
    then show "\<not> (t_norm t = p_norm q \<and> t_nversion t = v_version v)"
    proof cases
      case 1
      with pok w q(1) show ?thesis by (simp add: package_ok_def)
    next
      case 2
      with away show ?thesis by auto
    qed
  qed
  moreover have "version_shas (pk_versions q) = version_shas ?kept" by (simp add: q(3) version_shas_map fv)
  moreover have "refs_are (M + version_shas ?kept) reg1" if "refs_are (M + version_shas (pk_versions p)) reg" for M
    using refs [of "M + version_shas ?kept"] that version_shas_partition [of "pk_versions p" goes] by (simp add: ac_simps)
  ultimately show ?thesis
    using r q(1) package_versions_shas [OF ok p] version_shas_partition [of "pk_versions p" goes]
    by (intro npm_ok_put [OF ok p]) auto
qed

lemma update_package_parts:
  "update_package env act body p reg = Inr reg' \<longleftrightarrow>
     (removed_versions env body p = [] \<or> kept_versions env body p \<noteq> []) \<and> may_mutate act p = Inr () \<and>
     (list_all v_local (removed_versions env body p) \<or> act_admin act) \<and>
     reg' = put_package (updated_package env body p) (foldl (\<lambda>r v. retire_version_row act p v r) reg (removed_versions env body p))"
  by (auto simp: update_package_def Let_def sum_bind_Inr_iff list_ex_iff list_all_iff)

lemma updated_frame: "p_norm (updated_package env body p) = p_norm p" "p_eco (updated_package env body p) = p_eco p"
  "pk_versions (updated_package env body p) = map (apply_deprecation (obj_items (jget body ''versions'')) False) (kept_versions env body p)"
  by (simp_all add: updated_package_def Let_def)

text \<open>The case of every row.\<close>

lemma retire_rows_all:
  "pkgs (foldl (\<lambda>r v. retire_version_row act p v r) reg vs) = pkgs reg"
  "set (retired reg) \<subseteq> set (retired (foldl (\<lambda>r v. retire_version_row act p v r) reg vs))"
  "t \<in> set (retired (foldl (\<lambda>r v. retire_version_row act p v r) reg vs)) \<Longrightarrow> t \<in> set (retired reg) \<or>
     t_eco t = ''npm'' \<and> t_norm t = p_norm p \<and> t_nversion t \<in> v_normalized ` set vs"
  "refs_are (M + version_shas vs) reg \<Longrightarrow> [] \<notin># version_shas vs \<Longrightarrow>
     refs_are M (foldl (\<lambda>r v. retire_version_row act p v r) reg vs)"
  using retire_rows [where act = act and p = p and b = "\<lambda>_. True" and k = primary_file and reg = reg and vs = vs and M = M]
  by (simp_all add: retire_version_row_def)

lemma update_package_ok:
  assumes up: "update_package env act body p reg = Inr reg'" and ok: "npm_ok reg" and p: "p \<in> set (pkgs reg)"
  shows "npm_ok reg'"
proof -
  let ?gone = "filter (version_goes env body p) (pk_versions p)"
  have gone: "version_shas (removed_versions env body p) = version_shas ?gone" "set (removed_versions env body p) = set ?gone"
    by (simp_all add: removed_versions_def)
  have "[] \<notin># version_shas ?gone"
    using package_versions_shas [OF ok p] version_shas_partition [of "pk_versions p" "version_goes env body p"] by simp
  with up gone show ?thesis
    by (auto simp: update_package_parts updated_frame kept_versions_def retire_rows_all(1) dest!: retire_rows_all(3)
        intro!: removal_ok [OF ok p _ _ _ keeps_deprecation, where goes = "version_goes env body p"] retire_rows_all(4))
qed

lemma version_with_file_in: "version_with_file p tarball = Some (w, g) \<Longrightarrow> w \<in> set (pk_versions p)"
proof -
  have "foldl (\<lambda>found v. case find (\<lambda>f. f_name f = tarball) (v_files v) of Some f \<Rightarrow> Some (v, f) | None \<Rightarrow> found) None vs = Some (w, g)
      \<Longrightarrow> w \<in> set vs" for vs
    by (induction vs rule: rev_induct) (auto split: option.splits)
  then show "version_with_file p tarball = Some (w, g) \<Longrightarrow> w \<in> set (pk_versions p)" by (simp add: version_with_file_def)
qed

lemma unpublish_version_ok:
  assumes un: "unpublish_version act name tarball reg = Inr reg'" and ok: "npm_ok reg"
  shows "npm_ok reg'"
proof -
  from un obtain p where "npm_package_named name reg = Some p"
    by (auto simp: unpublish_version_def split: option.splits)
  note p = this found_package [OF this]
  show ?thesis
  proof (cases "version_with_file p tarball")
    case None
    with un ok p(1) show ?thesis by (auto simp: unpublish_version_def sum_bind_Inr_iff split: if_splits)
  next
    case (Some vf)
    obtain v f where vf: "vf = (v, f)" by fastforce
    define reg0 where "reg0 = retire act p v (Some f) reg"
    have reg': "reg' = put_package (p\<lparr>pk_versions := filter (\<lambda>w. v_version w \<noteq> v_version v) (pk_versions p)\<rparr>) (retire_version_row act p v reg0)"
      using un p(1) Some by (auto simp: unpublish_version_def vf sum_bind_Inr_iff reg0_def split: if_splits)
    have pok: "package_ok (retired reg) p" using ok p(2) by (simp add: npm_ok_def)
    obtain xs ys where xs: "pk_versions p = xs @ v # ys"
      using version_with_file_in Some vf by (meson split_list)
    have none: "filter (\<lambda>w. v_version w = v_version v) zs = []" if "v_version v \<notin> v_version ` set zs" for zs
      using that by (auto simp: filter_empty_conv) (metis imageI)
    from pok xs have "v_version v \<notin> v_version ` set xs" "v_version v \<notin> v_version ` set ys" by (simp_all add: package_ok_def)
    then have only: "filter (\<lambda>w. v_version w = v_version v) (pk_versions p) = [v]" by (simp add: none xs)
    have sh: "[] \<notin># file_shas (v_files v)"
      using package_versions_shas [OF ok, of p] p(2) version_shas_partition [of "pk_versions p" "\<lambda>w. v_version w = v_version v"]
      by (simp add: only)
    have rs: "pkgs (retire_version_row act p v reg0) = pkgs reg0 \<and> (\<forall>t \<in> set (retired (retire_version_row act p v reg0)).
        t \<in> set (retired reg0) \<or> t_eco t = ''npm'' \<and> t_norm t = p_norm p \<and> t_nversion t = v_normalized v) \<and>
        (refs_are (M + file_shas (v_files v)) reg0 \<longrightarrow> refs_are M (retire_version_row act p v reg0))" for M
      using retire_rows [where act = act and p = p and b = "\<lambda>_. True" and k = primary_file and reg = reg0 and vs = "[v]" and M = M] sh
      by (simp add: retire_version_row_def)
    have r0: "t \<in> set (retired reg) \<or> t_eco t = ''npm'' \<and> t_norm t = p_norm p \<and> t_nversion t = v_normalized v"
      if "t \<in> set (retired reg0)" for t
      using that retire_set(2) [of t act p v "Some f" reg] by (auto simp: reg0_def)
    have "refs_are M (retire_version_row act p v reg0)" if "refs_are (M + file_shas (v_files v)) reg" for M
      using rs [of M] that by (simp add: reg0_def refs_are_def)
    with rs [of "{#}"] r0 p(2) show ?thesis
      unfolding reg' by (intro removal_ok [OF ok, of p _ id "\<lambda>w. v_version w = v_version v"])
        (auto simp: only keeps_row_def reg0_def)
  qed
qed

lemma rewritten_ok:
  assumes ok: "npm_ok reg" and p: "p \<in> set (pkgs reg)"
    and q: "p_norm q = p_norm p" "p_eco q = p_eco p" "pk_versions q = map f (pk_versions p)" "keeps_row f"
  shows "npm_ok (put_package q reg)"
  using q by (intro removal_ok [OF ok p, of q f "\<lambda>_. False"]) auto

lemma unpublish_package_ok:
  assumes un: "unpublish_package act name reg = Inr reg'" and ok: "npm_ok reg"
  shows "npm_ok reg'"
proof -
  from un obtain p where "npm_package_named name reg = Some p"
    by (auto simp: unpublish_package_def split: option.splits)
  note p = this found_package [OF this]
  define reg1 where "reg1 = retire_all act p reg"
  have reg': "reg' = reg1\<lparr>pkgs := filter (\<lambda>q. p_norm q \<noteq> p_norm p) (pkgs reg1)\<rparr>"
    using un p(1) by (auto simp: unpublish_package_def Let_def sum_bind_Inr_iff reg1_def)
  have rs: "pkgs reg1 = pkgs reg \<and> (\<forall>t \<in> set (retired reg1). t \<in> set (retired reg) \<or> t_eco t = ''npm'' \<and> t_norm t = p_norm p) \<and>
      (refs_are (M + version_shas (pk_versions p)) reg \<longrightarrow> refs_are M reg1)" for M
    using retire_rows [where act = act and p = p and b = v_local and k = primary_file and reg = reg and vs = "pk_versions p" and M = M]
      package_versions_shas [OF ok, of p] p(2) by (auto simp: reg1_def retire_all_def)
  from package_split [OF ok, of p] p(2) obtain xs ys where s: "pkgs reg = xs @ p # ys" "p_norm p \<notin> p_norm ` set (xs @ ys)" by blast
  have skip: "filter (\<lambda>q. p_norm q \<noteq> p_norm p) zs = zs" if "p_norm p \<notin> p_norm ` set zs" for zs
    using that by (auto simp: filter_id_conv image_iff)
  from s(2) have "p_norm p \<notin> p_norm ` set xs" "p_norm p \<notin> p_norm ` set ys" by auto
  with s(1) rs [of "{#}"] have ps: "pkgs reg' = xs @ ys" by (simp add: reg' skip)
  have "refs_are ((package_shas xs + package_shas ys) + version_shas (pk_versions p)) reg"
    using ok s(1) by (simp add: npm_ok_def ac_simps)
  with rs have "refs_are (package_shas (pkgs reg')) reg1" by (simp add: ps)
  moreover have "package_ok (retired reg') q" if "q \<in> set (xs @ ys)" for q
  proof -
    have "p_norm q \<noteq> p_norm p" using that s(2) by (metis imageI)
    moreover have "package_ok (retired reg) q" using ok that s(1) by (auto simp: npm_ok_def)
    ultimately show ?thesis using rs [of "{#}"] by (fastforce simp: package_ok_def reg')
  qed
  moreover have "distinct (map p_norm (xs @ ys))" "[] \<notin># package_shas (xs @ ys)" using ok s(1) by (simp_all add: npm_ok_def)
  moreover have "\<forall>t \<in> set (retired reg'). t_eco t = ''npm''" using ok rs [of "{#}"] by (auto simp: npm_ok_def reg')
  moreover have "refs_are M reg' = refs_are M reg1" for M by (simp add: reg' refs_are_def)
  ultimately show ?thesis unfolding npm_ok_def ps by blast
qed

subsection \<open>Any sequence of requests\<close>

fun document_keys_distinct :: "npm_request \<Rightarrow> bool" where
  \<comment> \<open>a dict has a key once\<close>
  "document_keys_distinct (PutDocument name body) = distinct (map fst (obj_items (jget body ''versions'')))"
| "document_keys_distinct _ = True"

definition mirror_row :: "npm_package \<Rightarrow> bool" where
  \<comment> \<open>a package cached from an upstream, none of its tarballs fetched yet\<close>
  "mirror_row p = (p_eco p = ''npm'' \<and> \<not> p_local p \<and> p_owner p = None \<and> distinct (map v_version (pk_versions p)) \<and>
     distinct (map v_normalized (pk_versions p)) \<and>
     (\<forall>v \<in> set (pk_versions p). \<not> v_local v \<and> (\<forall>f \<in> set (v_files v). f_blob f = None)))"

inductive npm_step :: "'v npm_env set \<Rightarrow> npm_registry \<Rightarrow> npm_registry \<Rightarrow> bool" for envs where
  handled: "env \<in> envs \<Longrightarrow> document_keys_distinct req \<Longrightarrow> handle env act req reg = Inr reg' \<Longrightarrow> npm_step envs reg reg'"
| mirrored: "mirror_row p \<Longrightarrow> p_norm p \<notin> p_norm ` set (pkgs reg) \<Longrightarrow> npm_step envs reg (reg\<lparr>pkgs := pkgs reg @ [p]\<rparr>)"
| disowned: "npm_step envs reg (reg\<lparr>pkgs := disown user (pkgs reg)\<rparr>)"

inductive npm_reachable :: "'v npm_env set \<Rightarrow> npm_registry \<Rightarrow> bool" for envs where
  empty: "npm_reachable envs \<lparr>pkgs = [], retired = [], blob_refs = [], stored = []\<rparr>"
| step: "npm_reachable envs reg \<Longrightarrow> npm_step envs reg reg' \<Longrightarrow> npm_reachable envs reg'"

inductive_cases npm_stepE: "npm_step envs reg reg'"

lemma parse_versions:
  assumes "parse_publish_document m body name = Inr r"
  shows "r_versions r = obj_items (jget body ''versions'')" "r_name r = name"
proof -
  from assms obtain n where n: "document_name body name = Inr n" "r_name r = n" "r_versions r = obj_items (jget body ''versions'')"
    by (auto simp: parse_publish_document_def Let_def sum_bind_Inr_iff split: if_splits)
  from n(1) have "n = name"
    unfolding document_name_def Let_def by (simp split: if_splits option.splits prod.splits)
  with n show "r_versions r = obj_items (jget body ''versions'')" "r_name r = name" by simp_all
qed

lemma handle_ok:
  assumes h: "handle env act req reg = Inr reg'" and ok: "npm_ok reg" and g: "good_hash env" and d: "document_keys_distinct req"
  shows "npm_ok reg'"
proof (cases req)
  case (PutDocument name body)
  with h obtain r where r: "parse_publish_document (max_attachment env) body name = Inr r"
    "handle_deprecate act r reg = Inr reg' \<or> handle_publish env act r reg = Inr reg'"
    by (auto simp: publish_def split: sum.splits if_splits)
  from r(2) show ?thesis
  proof
    assume "handle_deprecate act r reg = Inr reg'"
    then show ?thesis
      by (auto simp: handle_deprecate_def sum_bind_Inr_iff split: option.splits
          dest!: found_package intro!: rewritten_ok [OF ok _ _ _ _ keeps_deprecation])
  next
    assume "handle_publish env act r reg = Inr reg'"
    with publish_ok [OF this ok g] d parse_versions(1) [OF r(1)] PutDocument show ?thesis by simp
  qed
next
  case (PutTag name tag body)
  with h show ?thesis
    by (auto simp: set_dist_tag_def Let_def sum_bind_Inr_iff keeps_row_def split: if_splits option.splits
        dest!: found_package intro!: rewritten_ok [OF ok, where f = id])
next
  case (DeleteTag name tag)
  with h show ?thesis
    by (auto simp: delete_dist_tag_def sum_bind_Inr_iff keeps_row_def split: if_splits option.splits
        dest!: found_package intro!: rewritten_ok [OF ok, where f = id])
next
  case (PutPackument name body)
  with h show ?thesis
    by (auto simp: update_packument_def Let_def split: if_splits option.splits dest!: found_package intro: update_package_ok [OF _ ok])
next
  case (DeleteTarball name tarball)
  with h ok show ?thesis by (auto intro: unpublish_version_ok)
next
  case (DeletePackage name)
  with h ok show ?thesis by (auto intro: unpublish_package_ok)
qed

lemma put_package_frame [simp]: "retired (put_package p reg) = retired reg"
  by (simp add: put_package_def)

lemma handle_retired:
  assumes "handle env act req reg = Inr reg'"
  shows "set (retired reg) \<subseteq> set (retired reg')"
proof (cases req)
  case (PutDocument name body)
  with assms obtain r where r: "handle_deprecate act r reg = Inr reg' \<or> handle_publish env act r reg = Inr reg'"
    by (auto simp: publish_def split: sum.splits if_splits)
  then show ?thesis
  proof
    assume "handle_deprecate act r reg = Inr reg'"
    then show ?thesis by (auto simp: handle_deprecate_def sum_bind_Inr_iff split: option.splits)
  next
    assume p: "handle_publish env act r reg = Inr reg'"
    from publish_parts [OF p] obtain g st p reg1 where
      "foldl (commit_version env (r_name r)) (claim_name r g, reg) st = (p, reg1)"
      "reg' = put_package (apply_tags (publish_tags r (map fst st) p) p) reg1" .
    with commit_versions [of env "r_name r" "claim_name r g" reg st p reg1] show ?thesis by simp
  qed
next
  case (PutTag name tag body)
  with assms show ?thesis by (auto simp: set_dist_tag_def Let_def sum_bind_Inr_iff split: if_splits option.splits)
next
  case (DeleteTag name tag)
  with assms show ?thesis by (auto simp: delete_dist_tag_def sum_bind_Inr_iff split: if_splits option.splits)
next
  case (PutPackument name body)
  then obtain p where "update_package env act body p reg = Inr reg'"
    using assms by (auto simp: update_packument_def Let_def split: if_splits option.splits)
  then show ?thesis using retire_rows_all(2) by (simp add: update_package_parts)
next
  case (DeleteTarball name tarball)
  with assms consider "reg' = reg" | p v f q where "reg' = put_package q (retire_version_row act p v (retire act p v (Some f) reg))"
    by (auto simp: unpublish_version_def sum_bind_Inr_iff split: if_splits option.splits)
  then show ?thesis
  proof cases
    case 2
    with retire_set(1) [of reg act p v "Some f"] retire_set(1) [of "retire act p v (Some f) reg" act p v "primary_file v"]
    show ?thesis by (auto simp: retire_version_row_def)
  qed simp
next
  case (DeletePackage name)
  then obtain p ps where "reg' = (retire_all act p reg)\<lparr>pkgs := ps\<rparr>"
    using assms by (auto simp: unpublish_package_def Let_def sum_bind_Inr_iff split: option.splits)
  with retire_rows [where act = act and p = p and b = v_local and k = primary_file and reg = reg and vs = "pk_versions p"]
  show ?thesis by (simp add: retire_all_def)
qed

lemma npm_step_ok:
  assumes "npm_step envs reg reg'" "npm_ok reg" "\<forall>env \<in> envs. good_hash env"
  shows "npm_ok reg' \<and> set (retired reg) \<subseteq> set (retired reg')"
  using assms(1)
proof (rule npm_stepE)
  fix env req act
  assume "env \<in> envs" "document_keys_distinct req" "handle env act req reg = Inr reg'"
  with assms handle_ok handle_retired show ?thesis by blast
next
  fix p assume p: "reg' = reg\<lparr>pkgs := pkgs reg @ [p]\<rparr>" "mirror_row p" "p_norm p \<notin> p_norm ` set (pkgs reg)"
  have "version_shas vs = {#}" if "\<forall>v \<in> set vs. \<forall>f \<in> set (v_files v). f_blob f = None" for vs
  proof -
    have "file_shas fs = {#}" if "\<forall>f \<in> set fs. f_blob f = None" for fs
      using that by (induction fs) simp_all
    with that show ?thesis by (induction vs) simp_all
  qed
  with p(2) have "version_shas (pk_versions p) = {#}" by (simp add: mirror_row_def)
  with assms(2) p show ?thesis by (auto simp: npm_ok_def mirror_row_def package_ok_def refs_are_def)
next
  fix user assume r: "reg' = reg\<lparr>pkgs := disown user (pkgs reg)\<rparr>"
  have "package_shas (disown user ps) = package_shas ps" "map p_norm (disown user ps) = map p_norm ps" for ps :: "npm_package list"
    by (induction ps) (simp_all add: disown_def)
  moreover have "\<forall>p \<in> set (disown user (pkgs reg)). package_ok (retired reg) p"
    using assms(2) by (auto simp: disown_def npm_ok_def package_ok_def)
  ultimately show ?thesis using assms(2) by (simp add: r npm_ok_def refs_are_def)
qed

lemma npm_reachable_ok: "npm_reachable envs reg \<Longrightarrow> \<forall>env \<in> envs. good_hash env \<Longrightarrow> npm_ok reg"
proof (induction rule: npm_reachable.induct)
  case empty
  show ?case by (simp add: npm_ok_def refs_are_def)
next
  case (step reg reg')
  then show ?case using npm_step_ok by blast
qed

subsection \<open>What goes is tombstoned\<close>

definition holds_local :: "npm_registry \<Rightarrow> string \<Rightarrow> string \<Rightarrow> bool" where
  \<comment> \<open>a version published here, under a name\<close>
  "holds_local reg n ver = (\<exists>q \<in> set (pkgs reg). p_norm q = n \<and> (\<exists>w \<in> set (pk_versions q). v_local w \<and> v_version w = ver))"

definition tombstoned :: "npm_registry \<Rightarrow> string \<Rightarrow> string \<Rightarrow> bool" where
  "tombstoned reg n ver = (\<exists>t \<in> set (retired reg). t_eco t = ''npm'' \<and> t_norm t = n \<and> t_nversion t = ver)"

definition accounted :: "npm_registry \<Rightarrow> string \<Rightarrow> string \<Rightarrow> bool" where
  "accounted reg n ver = (holds_local reg n ver \<or> tombstoned reg n ver)"

lemma put_holds:
  assumes "npm_ok reg" "p \<in> set (pkgs reg)" "p_norm q = p_norm p" "pkgs reg1 = pkgs reg"
    and v: "holds_local reg n ver"
    and q: "\<And>w. w \<in> set (pk_versions p) \<Longrightarrow> v_local w \<Longrightarrow> n = p_norm p \<Longrightarrow> v_version w = ver \<Longrightarrow>
      (\<exists>u \<in> set (pk_versions q). v_local u \<and> v_version u = ver) \<or> tombstoned reg1 n ver"
  shows "accounted (put_package q reg1) n ver"
proof -
  from v obtain r w where r: "r \<in> set (pkgs reg)" "p_norm r = n" "w \<in> set (pk_versions r)" "v_local w" "v_version w = ver"
    by (auto simp: holds_local_def)
  have t: "tombstoned (put_package q reg1) n ver = tombstoned reg1 n ver" by (simp add: tombstoned_def)
  have put: "q \<in> set (pkgs (put_package q reg1))" "x \<in> set (pkgs reg) \<Longrightarrow> p_norm x \<noteq> p_norm q \<Longrightarrow> x \<in> set (pkgs (put_package q reg1))" for x
    using assms(4) by (auto simp: put_package_def list_ex_iff image_iff)
  show ?thesis
  proof (cases "n = p_norm p")
    case True
    with r assms(1,2) have "r = p" by (auto simp: npm_ok_def distinct_map inj_on_def)
    with q [of w] r True have "(\<exists>u \<in> set (pk_versions q). v_local u \<and> v_version u = ver) \<or> tombstoned reg1 n ver" by blast
    with put(1) assms(3) True show ?thesis unfolding accounted_def t by (auto simp: holds_local_def)
  next
    case False
    with r assms(3) put(2) [of r] show ?thesis by (auto simp: accounted_def holds_local_def)
  qed
qed

lemma keeps_row_holds:
  assumes "npm_ok reg" "p \<in> set (pkgs reg)" "p_norm q = p_norm p" "pk_versions q = map f (pk_versions p)" "keeps_row f"
    and "holds_local reg n ver"
  shows "accounted (put_package q reg) n ver"
  using assms(3-5) by (intro put_holds [OF assms(1,2) _ refl assms(6)]) (auto simp: keeps_row_def)

lemma local_normalized: "npm_ok reg \<Longrightarrow> p \<in> set (pkgs reg) \<Longrightarrow> v \<in> set (pk_versions p) \<Longrightarrow> v_local v \<Longrightarrow> v_normalized v = v_version v"
  by (auto simp: npm_ok_def package_ok_def)

lemma update_holds:
  assumes up: "update_package env act body p reg = Inr reg'" and ok: "npm_ok reg" and p: "p \<in> set (pkgs reg)"
    and h: "holds_local reg n ver"
  shows "accounted reg' n ver"
proof -
  let ?reg1 = "foldl (\<lambda>r v. retire_version_row act p v r) reg (removed_versions env body p)"
  have reg': "reg' = put_package (updated_package env body p) ?reg1" using up by (simp add: update_package_parts)
  show ?thesis unfolding reg'
  proof (rule put_holds [OF ok p updated_frame(1) retire_rows_all(1) h])
    fix w assume w: "w \<in> set (pk_versions p)" "v_local w" "n = p_norm p" "v_version w = ver"
    show "(\<exists>u \<in> set (pk_versions (updated_package env body p)). v_local u \<and> v_version u = ver) \<or> tombstoned ?reg1 n ver"
    proof (cases "version_goes env body p w")
      case True
      with w(1) have "w \<in> set (removed_versions env body p)" by (simp add: removed_versions_def)
      with retire_rows [where act = act and p = p and b = "\<lambda>_. True" and k = primary_file and reg = reg and vs = "removed_versions env body p"]
      have "\<exists>t \<in> set (retired ?reg1). t_eco t = ''npm'' \<and> t_norm t = p_norm p \<and> t_nversion t = v_normalized w"
        by (simp add: retire_version_row_def)
      with w local_normalized [OF ok p] show ?thesis by (auto simp: tombstoned_def)
    next
      case False
      with w keeps_deprecation [of "obj_items (jget body ''versions'')" False] show ?thesis
        by (auto simp: updated_frame kept_versions_def keeps_row_def)
    qed
  qed
qed

lemma tarball_holds:
  assumes un: "unpublish_version act name tarball reg = Inr reg'" and ok: "npm_ok reg" and h: "holds_local reg n ver"
  shows "accounted reg' n ver"
proof -
  from un obtain p where "npm_package_named name reg = Some p"
    by (auto simp: unpublish_version_def split: option.splits)
  note p = this found_package [OF this]
  then have ps: "p \<in> set (pkgs reg)" by simp
  show ?thesis
  proof (cases "version_with_file p tarball")
    case None
    with un h p(1) show ?thesis by (auto simp: accounted_def unpublish_version_def sum_bind_Inr_iff split: if_splits)
  next
    case (Some vf)
    obtain v f where vf: "vf = (v, f)" by fastforce
    let ?q = "p\<lparr>pk_versions := filter (\<lambda>w. v_version w \<noteq> v_version v) (pk_versions p)\<rparr>"
    let ?reg1 = "retire_version_row act p v (retire act p v (Some f) reg)"
    have reg': "reg' = put_package ?q ?reg1"
      using un p(1) Some by (auto simp: unpublish_version_def vf sum_bind_Inr_iff split: if_splits)
    have v: "v \<in> set (pk_versions p)" using version_with_file_in Some vf by simp
    show ?thesis unfolding reg'
    proof (rule put_holds [OF ok ps _ _ h])
      fix w assume w: "w \<in> set (pk_versions p)" "v_local w" "n = p_norm p" "v_version w = ver"
      show "(\<exists>u \<in> set (pk_versions ?q). v_local u \<and> v_version u = ver) \<or> tombstoned ?reg1 n ver"
      proof (cases "v_version w = v_version v")
        case True
        with w v ok ps have "w = v" by (auto simp: npm_ok_def package_ok_def distinct_map dest: inj_onD)
        moreover have "\<exists>t \<in> set (retired ?reg1). t_eco t = ''npm'' \<and> t_norm t = p_norm p \<and> t_nversion t = v_normalized v"
          using retire_has [of act p v "primary_file v" "retire act p v (Some f) reg"] by (simp add: retire_version_row_def)
        ultimately show ?thesis using w local_normalized [OF ok ps] by (auto simp: tombstoned_def)
      qed (use w in auto)
    qed (simp_all add: retire_version_row_def)
  qed
qed

lemma package_delete_holds:
  assumes un: "unpublish_package act name reg = Inr reg'" and ok: "npm_ok reg" and h: "holds_local reg n ver"
  shows "accounted reg' n ver"
proof -
  from un obtain p where "npm_package_named name reg = Some p"
    by (auto simp: unpublish_package_def split: option.splits)
  note p = this found_package [OF this]
  have reg': "reg' = (retire_all act p reg)\<lparr>pkgs := filter (\<lambda>q. p_norm q \<noteq> p_norm p) (pkgs (retire_all act p reg))\<rparr>"
    using un p(1) by (auto simp: unpublish_package_def Let_def sum_bind_Inr_iff)
  note rs = retire_rows [where act = act and p = p and b = v_local and k = primary_file and reg = reg and vs = "pk_versions p",
      folded retire_all_def]
  from h obtain r w where r: "r \<in> set (pkgs reg)" "p_norm r = n" "w \<in> set (pk_versions r)" "v_local w" "v_version w = ver"
    by (auto simp: holds_local_def)
  show ?thesis
  proof (cases "n = p_norm p")
    case True
    with r ok p(2) have "r = p" by (auto simp: npm_ok_def distinct_map inj_on_def)
    with rs r have "\<exists>t \<in> set (retired reg'). t_eco t = ''npm'' \<and> t_norm t = p_norm p \<and> t_nversion t = v_normalized w"
      by (simp add: reg')
    with r \<open>r = p\<close> local_normalized [OF ok r(1,3,4)] True show ?thesis by (auto simp: accounted_def tombstoned_def)
  next
    case False
    with r rs show ?thesis by (auto simp: accounted_def holds_local_def reg')
  qed
qed

lemma handle_holds:
  assumes h: "handle env act req reg = Inr reg'" and ok: "npm_ok reg" and l: "holds_local reg n ver"
  shows "accounted reg' n ver"
proof (cases req)
  case (PutDocument name body)
  with h obtain r where r: "handle_deprecate act r reg = Inr reg' \<or> handle_publish env act r reg = Inr reg'"
    by (auto simp: publish_def split: sum.splits if_splits)
  then show ?thesis
  proof
    assume "handle_deprecate act r reg = Inr reg'"
    then show ?thesis
      by (auto simp: handle_deprecate_def sum_bind_Inr_iff split: option.splits
          dest!: found_package intro!: keeps_row_holds [OF ok _ _ _ keeps_deprecation l])
  next
    assume pub: "handle_publish env act r reg = Inr reg'"
    from publish_parts [OF pub] obtain g st p reg1 where
      a: "authorize_publish (namespaces env) True (upstream_answer env (r_name r)) (pkgs reg) ''npm'' (r_name r) (act_user act) (act_admin act) = Inr g"
      and f: "foldl (commit_version env (r_name r)) (claim_name r g, reg) st = (p, reg1)"
      and reg': "reg' = put_package (apply_tags (publish_tags r (map fst st) p) p) reg1" .
    from commit_versions [OF f, of "{#}"] obtain vs where fr: "pkgs reg1 = pkgs reg"
      and vs: "pk_versions p = pk_versions (claim_name r g) @ vs" and k: "p_norm p = p_norm (claim_name r g)" by auto
    show ?thesis
    proof (cases "g_package g")
      case None
      with authorize_cases(1) [OF a] have "normalize_name_for ''npm'' (r_name r) \<notin> p_norm ` set (pkgs reg)"
        using ok no_package [of reg "r_name r"] by (simp add: npm_package_named_def)
      moreover have "p_norm p = normalize_name_for ''npm'' (r_name r)" using None k by (simp add: claim_name_def Let_def)
      ultimately have "x \<in> set (pkgs reg) \<Longrightarrow> x \<in> set (pkgs reg')" for x
        unfolding reg' put_package_def using fr by (auto simp: list_ex_iff image_iff)
      with l show ?thesis by (auto simp: accounted_def holds_local_def)
    next
      case (Some q)
      with authorize_cases(1) [OF a] found_package [of "r_name r" reg q] have q: "q \<in> set (pkgs reg)"
        by (simp add: npm_package_named_def)
      have "p_norm p = p_norm q" "set (pk_versions q) \<subseteq> set (pk_versions p)" using Some k vs by (simp_all add: claim_name_def Let_def)
      then show ?thesis unfolding reg' by (intro put_holds [OF ok q _ fr l]) auto
    qed
  qed
next
  case (PutTag name tag body)
  with h show ?thesis
    by (auto simp: set_dist_tag_def Let_def sum_bind_Inr_iff keeps_row_def split: if_splits option.splits
        dest!: found_package intro!: keeps_row_holds [OF ok _ _ _ _ l, where f = id])
next
  case (DeleteTag name tag)
  with h show ?thesis
    by (auto simp: delete_dist_tag_def sum_bind_Inr_iff keeps_row_def split: if_splits option.splits
        dest!: found_package intro!: keeps_row_holds [OF ok _ _ _ _ l, where f = id])
next
  case (PutPackument name body)
  with h obtain p where "npm_package_named name reg = Some p" "update_package env act body p reg = Inr reg'"
    by (auto simp: update_packument_def Let_def split: if_splits option.splits)
  with update_holds [OF _ ok _ l] found_package show ?thesis by blast
next
  case (DeleteTarball name tarball)
  with h ok l show ?thesis by (simp add: tarball_holds)
next
  case (DeletePackage name)
  with h ok l show ?thesis by (simp add: package_delete_holds)
qed

lemma npm_step_holds:
  assumes "npm_step envs reg reg'" "npm_ok reg" "holds_local reg n ver"
  shows "accounted reg' n ver"
  using assms(1)
proof (rule npm_stepE)
  fix user assume "reg' = reg\<lparr>pkgs := disown user (pkgs reg)\<rparr>"
  then have "pkgs reg' = map (\<lambda>p. if p_owner p = Some user then p\<lparr>p_owner := None\<rparr> else p) (pkgs reg)"
    by (simp add: disown_def)
  moreover from assms(3) obtain q w where "q \<in> set (pkgs reg)" "p_norm q = n" "w \<in> set (pk_versions q)" "v_local w" "v_version w = ver"
    by (auto simp: holds_local_def)
  ultimately have "(if p_owner q = Some user then q\<lparr>p_owner := None\<rparr> else q) \<in> set (pkgs reg')" by simp
  moreover have "p_norm (if p_owner q = Some user then q\<lparr>p_owner := None\<rparr> else q) = n"
    "w \<in> set (pk_versions (if p_owner q = Some user then q\<lparr>p_owner := None\<rparr> else q))"
    using \<open>p_norm q = n\<close> \<open>w \<in> set (pk_versions q)\<close> by simp_all
  ultimately show ?thesis using \<open>v_local w\<close> \<open>v_version w = ver\<close> unfolding accounted_def holds_local_def by blast
next
  fix env req act assume "handle env act req reg = Inr reg'"
  with assms show ?thesis using handle_holds by blast
next
  fix p assume "reg' = reg\<lparr>pkgs := pkgs reg @ [p]\<rparr>"
  with assms(3) show ?thesis by (auto simp: accounted_def holds_local_def)
qed

lemma npm_run_ok:
  assumes "(npm_step envs)\<^sup>*\<^sup>* reg reg'" "npm_ok reg" "\<forall>env \<in> envs. good_hash env"
  shows "npm_ok reg' \<and> set (retired reg) \<subseteq> set (retired reg')"
  using assms(1)
proof (induction rule: rtranclp_induct)
  case (step y z)
  then show ?case using npm_step_ok [OF step.hyps(2) _ assms(3)] by blast
qed (simp add: assms(2))

lemma npm_run_holds:
  assumes "(npm_step envs)\<^sup>*\<^sup>* reg reg'" "npm_ok reg" "\<forall>env \<in> envs. good_hash env" "accounted reg n ver"
  shows "accounted reg' n ver"
  using assms(1)
proof (induction rule: rtranclp_induct)
  case (step y z)
  have "npm_ok y" using npm_run_ok [OF step.hyps(1) assms(2,3)] by simp
  with step npm_step_holds [OF step.hyps(2)] npm_step_ok [OF step.hyps(2) _ assms(3)] show ?case
    by (auto simp: accounted_def tombstoned_def)
qed (simp add: assms(4))

lemma tombstoned_not_held: "npm_ok reg \<Longrightarrow> tombstoned reg n ver \<Longrightarrow> \<not> holds_local reg n ver"
  by (fastforce simp: npm_ok_def package_ok_def tombstoned_def holds_local_def)

text \<open>
  C4: a withdrawn version never comes back. Whatever way a version that was published here went -- its
  tarball deleted, left out of an updated packument, unpublished with its whole package -- its
  tombstone is there from the step on that removed it; and through any further requests -- publishes
  by anybody, edits, unpublishing the whole package and publishing it again, the deletion of accounts
  -- the tombstone stays and no version with that number is published under that name.
\<close>

theorem withdrawn_never_returns:
  assumes "npm_reachable envs reg" "\<forall>env \<in> envs. good_hash env" "holds_local reg n ver"
    and "(npm_step envs)\<^sup>*\<^sup>* reg reg1" "\<not> holds_local reg1 n ver" "(npm_step envs)\<^sup>*\<^sup>* reg1 reg'"
  shows "tombstoned reg1 n ver \<and> tombstoned reg' n ver \<and> \<not> holds_local reg' n ver"
proof -
  have ok: "npm_ok reg" using npm_reachable_ok [OF assms(1,2)] .
  then have ok1: "npm_ok reg1" using npm_run_ok [OF assms(4) _ assms(2)] by blast
  have t: "tombstoned reg1 n ver" using npm_run_holds [OF assms(4) ok assms(2)] assms(3,5) by (auto simp: accounted_def)
  moreover have "npm_ok reg' \<and> set (retired reg1) \<subseteq> set (retired reg')" using npm_run_ok [OF assms(6) ok1 assms(2)] .
  moreover from this t have "tombstoned reg' n ver" by (auto simp: tombstoned_def)
  ultimately show ?thesis using tombstoned_not_held by blast
qed

text \<open>
  C26: blobs are counted exactly. However packages are published, edited and unpublished, the count of
  a blob is the number of files that use it, and its bytes are in the store exactly while some file
  does: nothing is deleted that is still served, and nothing is left behind.
\<close>

theorem blob_counts_exact:
  assumes "npm_reachable envs reg" "\<forall>env \<in> envs. good_hash env"
  shows "map_of (blob_refs reg) sha = (let n = count (package_shas (pkgs reg)) sha in if n = 0 then None else Some (int n)) \<and>
    (map_of (stored reg) sha \<noteq> None) = (0 < count (package_shas (pkgs reg)) sha)"
  using npm_reachable_ok [OF assms] by (auto simp: npm_ok_def refs_are_def Let_def)

subsection \<open>A sample registry\<close>

definition sample_npm_env :: "unit npm_env" where
  "sample_npm_env = \<lparr>max_attachment = 1000,
     hashing = \<lparr>sha1_hex = (\<lambda>d. ''s1''), sha256_hex = (\<lambda>d. ''s256''), digest_of = (\<lambda>a d. ''d'')\<rparr>,
     tar_members = (\<lambda>d. []), integrity_of = (\<lambda>d. ''sha512-x''),
     pep440 = \<lparr>version_of = (\<lambda>s. None), version_str = (\<lambda>v. []), canonicalize_version = (\<lambda>s. None),
       canonicalize_name = (\<lambda>s. s), parse_wheel_filename = (\<lambda>s. None), parse_sdist_filename = (\<lambda>s. None)\<rparr>,
     in_specs = (\<lambda>a b. None), rules_of = [], allowlisting = False, cve_rules = default_policy,
     scan_of = (\<lambda>n v. no_facts), namespaces = [], upstream_answer = (\<lambda>n. Some (Inr None))\<rparr>"

definition sample_document :: "string \<Rightarrow> json" where
  "sample_document v = JObj [(''name'', JStr ''mine''), (''versions'', JObj [(v, JObj [(''version'', JStr v)])]),
     (''_attachments'', JObj [(''mine-'' @ v @ ''.tgz'', JObj [(''data'', JStr ''QUJD'')])])]"

definition alice :: actor where
  "alice = \<lparr>act_user = Some 1, act_admin = False\<rparr>"

definition empty_npm :: npm_registry where
  "empty_npm = \<lparr>pkgs = [], retired = [], blob_refs = [], stored = []\<rparr>"

definition published_npm :: npm_registry where
  "published_npm = projr (handle sample_npm_env alice (PutDocument ''mine'' (sample_document ''1.0.0'')) empty_npm)"

definition withdrawn_npm :: npm_registry where
  "withdrawn_npm = projr (handle sample_npm_env alice (DeleteTarball ''mine'' ''mine-1.0.0.tgz'') published_npm)"

lemma sample_published: "handle sample_npm_env alice (PutDocument ''mine'' (sample_document ''1.0.0'')) empty_npm = Inr published_npm"
proof -
  have "isl (handle sample_npm_env alice (PutDocument ''mine'' (sample_document ''1.0.0'')) empty_npm) = False"
    by code_simp
  then show ?thesis
    by (cases "handle sample_npm_env alice (PutDocument ''mine'' (sample_document ''1.0.0'')) empty_npm") (simp_all add: published_npm_def)
qed

lemma sample_withdrawn: "handle sample_npm_env alice (DeleteTarball ''mine'' ''mine-1.0.0.tgz'') published_npm = Inr withdrawn_npm"
proof -
  have "isl (handle sample_npm_env alice (DeleteTarball ''mine'' ''mine-1.0.0.tgz'') published_npm) = False"
    by code_simp
  then show ?thesis
    by (cases "handle sample_npm_env alice (DeleteTarball ''mine'' ''mine-1.0.0.tgz'') published_npm") (simp_all add: withdrawn_npm_def)
qed

lemma sample_reachable: "npm_reachable {sample_npm_env} published_npm" "npm_reachable {sample_npm_env} withdrawn_npm"
proof -
  have "npm_reachable {sample_npm_env} empty_npm" unfolding empty_npm_def by (rule npm_reachable.empty)
  moreover have "npm_step {sample_npm_env} empty_npm published_npm"
    by (rule handled [OF singletonI _ sample_published]) (simp add: sample_document_def)
  moreover have "npm_step {sample_npm_env} published_npm withdrawn_npm"
    by (rule handled [OF singletonI _ sample_withdrawn]) simp
  ultimately show "npm_reachable {sample_npm_env} published_npm" "npm_reachable {sample_npm_env} withdrawn_npm"
    by (blast intro: npm_reachable.step)+
qed

lemma sample_good: "\<forall>env \<in> {sample_npm_env}. good_hash env"
  by (simp add: good_hash_def sample_npm_env_def)

definition again_npm :: npm_registry where
  "again_npm = projr (handle sample_npm_env alice (PutDocument ''mine'' (sample_document ''1.1.0'')) withdrawn_npm)"

theorem withdrawn_never_returns_witness:
  "holds_local published_npm ''mine'' ''1.0.0'' \<and> tombstoned again_npm ''mine'' ''1.0.0'' \<and>
   \<not> holds_local again_npm ''mine'' ''1.0.0'' \<and> holds_local again_npm ''mine'' ''1.1.0'' \<and>
   isl (handle sample_npm_env alice (PutDocument ''mine'' (sample_document ''1.0.0'')) again_npm)"
proof -
  let ?r = "handle sample_npm_env alice (PutDocument ''mine'' (sample_document ''1.1.0'')) withdrawn_npm"
  have "isl ?r = False" by code_simp
  then have again: "?r = Inr again_npm" by (cases ?r) (simp_all add: again_npm_def)
  have held: "holds_local published_npm ''mine'' ''1.0.0''" by code_simp
  have "npm_step {sample_npm_env} published_npm withdrawn_npm"
    by (rule handled [OF singletonI _ sample_withdrawn]) simp
  moreover have "npm_step {sample_npm_env} withdrawn_npm again_npm"
    by (rule handled [OF singletonI _ again]) (simp add: sample_document_def)
  moreover have "\<not> holds_local withdrawn_npm ''mine'' ''1.0.0''" by code_simp
  ultimately have "tombstoned again_npm ''mine'' ''1.0.0'' \<and> \<not> holds_local again_npm ''mine'' ''1.0.0''"
    using withdrawn_never_returns [OF sample_reachable(1) sample_good held r_into_rtranclp _ r_into_rtranclp] by blast
  moreover have "holds_local again_npm ''mine'' ''1.1.0''"
    "isl (handle sample_npm_env alice (PutDocument ''mine'' (sample_document ''1.0.0'')) again_npm)" by code_simp+
  ultimately show ?thesis using held by blast
qed

theorem blob_counts_exact_witness: "map_of (blob_refs published_npm) ''s256'' = Some 1 \<and> count (package_shas (pkgs published_npm)) ''s256'' = 1"
proof -
  have "map_of (blob_refs published_npm) ''s256'' = Some 1" by code_simp
  with blob_counts_exact [OF sample_reachable(1) sample_good, of "''s256''"] show ?thesis
    by (auto simp: Let_def split: if_splits)
qed

end
