(* ===== verification/Npm_Publish_Spec.thy ===== *)
theory Npm_Publish_Spec
  imports Npm_Registry_Spec
begin

section \<open>Tags, owners and what a publish checked\<close>

text \<open>
  Every handler but the tarball delete keeps the tags on versions that exist; a request changes only
  its package, by its owner; a version that appears was checked before its bytes were stored.
\<close>

subsection \<open>Tags\<close>

text \<open>
  The tarball delete leaves the tags alone: after \<open>npm unpublish mine@1.0.0\<close> of a version the
  packument update kept (or a direct DELETE) the tag \<open>latest\<close> names a version that is gone.
\<close>

definition tags_ok :: "npm_registry \<Rightarrow> bool" where
  "tags_ok reg = (\<forall>p \<in> set (pkgs reg). \<forall>(t, v) \<in> set (pk_tags p). v \<in> v_version ` set (pk_versions p))"

lemma tarball_delete_leaves_tag:
  "list_all (\<lambda>p. pk_tags p = [(''latest'', ''1.0.0'')] \<and> pk_latest p = Some ''1.0.0'' \<and> pk_versions p = []) (pkgs withdrawn_npm)
   \<and> length (pkgs withdrawn_npm) = 1"
  by code_simp

definition package_tags_ok :: "npm_package \<Rightarrow> bool" where
  "package_tags_ok p = (\<forall>(t, v) \<in> set (pk_tags p). v \<in> v_version ` set (pk_versions p))"

lemma tags_ok_alt: "tags_ok reg = (\<forall>p \<in> set (pkgs reg). package_tags_ok p)"
  by (simp add: tags_ok_def package_tags_ok_def)

lemma in_put_package: "x \<in> set (pkgs (put_package q reg)) \<Longrightarrow> x = q \<or> x \<in> set (pkgs reg)"
  by (auto simp: put_package_def split: if_splits)

lemma tags_ok_put: "\<forall>p \<in> set (pkgs reg). package_tags_ok p \<Longrightarrow> package_tags_ok q \<Longrightarrow> tags_ok (put_package q reg)"
  by (auto simp: tags_ok_alt dest!: in_put_package)

lemma in_put_tag: "(u, w) \<in> set (put_tag t v ts) \<Longrightarrow> (u, w) \<in> set ts \<or> (u = t \<and> w = v)"
  by (induction ts) (auto split: if_splits prod.splits)

lemma in_apply_tags: "(u, w) \<in> set (pk_tags (apply_tags ts p)) \<Longrightarrow> (u, w) \<in> set (pk_tags p) \<or> w \<in> snd ` set ts"
proof -
  let ?g = "\<lambda>q (t, v). let q1 = q\<lparr>pk_tags := put_tag t v (pk_tags q)\<rparr> in if t = ''latest'' then q1\<lparr>pk_latest := Some v\<rparr> else q1"
  have "(u, w) \<in> set (pk_tags (foldl ?g p ts)) \<Longrightarrow> (u, w) \<in> set (pk_tags p) \<or> w \<in> snd ` set ts"
  proof (induction ts arbitrary: p)
    case (Cons x ts)
    obtain t v where x: "x = (t, v)" by fastforce
    have "pk_tags (?g p x) = put_tag t v (pk_tags p)" by (simp add: x Let_def)
    with Cons.IH [of "?g p x"] Cons.prems show ?case by (auto simp: x dest: in_put_tag)
  qed simp
  then show "(u, w) \<in> set (pk_tags (apply_tags ts p)) \<Longrightarrow> (u, w) \<in> set (pk_tags p) \<or> w \<in> snd ` set ts"
    by (simp add: apply_tags_def Let_def split: if_splits)
qed

lemma max_semver_in: "max_semver vs = Some m \<Longrightarrow> m \<in> set vs"
proof -
  have l: "last (sort_key semver_sort_key ws) \<in> set ws" if "ws \<noteq> []" for ws
    using that last_in_set [of "sort_key semver_sort_key ws"] by (metis length_0_conv length_sort set_sort)
  assume "max_semver vs = Some m"
  then have "vs \<noteq> []" "m = last (sort_key semver_sort_key (if filter is_stable vs \<noteq> [] then filter is_stable vs else vs))"
    by (auto simp: max_semver_def Let_def split: if_splits)
  with l [of "filter is_stable vs"] l [of vs] show "m \<in> set vs" by (auto split: if_splits)
qed

lemma publish_tags_known:
  assumes "set published \<subseteq> v_version ` set (pk_versions p)" "w \<in> snd ` set (publish_tags r published p)"
  shows "w \<in> v_version ` set (pk_versions p)"
proof (cases "filter (\<lambda>(t, v). v \<in> set (map v_version (pk_versions p))) (r_dist_tags r) = [] \<and> published \<noteq> []")
  case True
  then have "w = (case max_semver published of Some v \<Rightarrow> v | None \<Rightarrow> last published)"
    using assms(2) by (simp add: publish_tags_def Let_def)
  with True have "w \<in> set published" by (auto dest: max_semver_in split: option.splits)
  with assms(1) show ?thesis by blast
next
  case False
  then have "publish_tags r published p = filter (\<lambda>(t, v). v \<in> set (map v_version (pk_versions p))) (r_dist_tags r)"
    unfolding publish_tags_def Let_def by (simp only: if_False)
  with assms(2) show ?thesis by auto
qed

lemma package_tags_mono:
  "package_tags_ok p \<Longrightarrow> pk_tags q = pk_tags p \<Longrightarrow> v_version ` set (pk_versions p) \<subseteq> v_version ` set (pk_versions q) \<Longrightarrow> package_tags_ok q"
  by (fastforce simp: package_tags_ok_def)

lemma publish_tags_ok:
  assumes pub: "handle_publish env act r reg = Inr reg'" and ok: "tags_ok reg"
  shows "tags_ok reg'"
proof -
  from publish_parts [OF pub] obtain g st p reg1 where
    a: "authorize_publish (namespaces env) True (upstream_answer env (r_name r)) (pkgs reg) ''npm'' (r_name r) (act_user act) (act_admin act) = Inr g"
    and f: "foldl (commit_version env (r_name r)) (claim_name r g, reg) st = (p, reg1)"
    and reg': "reg' = put_package (apply_tags (publish_tags r (map fst st) p) p) reg1" .
  from commit_versions [OF f, of "{#}"] obtain vs where c: "pkgs reg1 = pkgs reg"
    "pk_versions p = pk_versions (claim_name r g) @ vs" "map v_version vs = map fst st" "pk_tags p = pk_tags (claim_name r g)" by auto
  have "package_tags_ok (claim_name r g)"
  proof (cases "g_package g")
    case None
    then show ?thesis by (simp add: claim_name_def Let_def package_tags_ok_def)
  next
    case (Some q)
    with authorize_cases(1) [OF a] ok have "package_tags_ok q"
      by (auto simp: tags_ok_alt get_package_row_def find_Some_iff)
    with Some show ?thesis by (simp add: claim_name_def Let_def package_tags_ok_def)
  qed
  then have p: "package_tags_ok p" by (rule package_tags_mono) (auto simp: c)
  have "set (map fst st) = v_version ` set vs" using c(3) by (metis set_map)
  then have "set (map fst st) \<subseteq> v_version ` set (pk_versions p)" by (simp add: c(2) image_Un)
  from publish_tags_known [OF this] have k: "w \<in> v_version ` set (pk_versions p)" if "w \<in> snd ` set (publish_tags r (map fst st) p)" for w
    using that by blast
  have "package_tags_ok (apply_tags (publish_tags r (map fst st) p) p)"
    unfolding package_tags_ok_def
  proof (clarsimp)
    fix u w assume "(u, w) \<in> set (pk_tags (apply_tags (publish_tags r (map fst st) p) p))"
    from in_apply_tags [OF this] p k show "w \<in> v_version ` set (pk_versions p)" by (auto simp: package_tags_ok_def)
  qed
  then show ?thesis unfolding reg' using ok c(1) by (intro tags_ok_put) (simp_all add: tags_ok_alt)
qed

lemma wanted_in: "survivors \<noteq> [] \<Longrightarrow> set visible \<subseteq> set survivors \<Longrightarrow> wanted_latest tags survivors visible \<in> set survivors"
proof -
  assume s: "survivors \<noteq> []" "set visible \<subseteq> set survivors"
  have "(case max_semver (if visible \<noteq> [] then visible else survivors) of Some m \<Rightarrow> m | None \<Rightarrow> last survivors) \<in> set survivors"
    using s by (auto split: option.split dest!: max_semver_in)
  with s show ?thesis by (auto simp: wanted_latest_def split: option.split)
qed

lemma retag_tags_ok:
  assumes "\<forall>(t, v) \<in> set (pk_tags p). v \<in> set removed \<or> v \<in> v_version ` set (pk_versions p)" "wanted \<in> v_version ` set (pk_versions p)"
  shows "package_tags_ok (retag removed wanted p)"
  unfolding package_tags_ok_def
proof (clarsimp)
  fix t v assume "(t, v) \<in> set (pk_tags (retag removed wanted p))"
  then have "v = wanted \<or> (\<exists>t. (t, v) \<in> set (pk_tags p)) \<and> v \<notin> set removed"
    by (auto simp: retag_def Let_def map_filter_def split: option.splits if_splits)
  with assms show "v \<in> v_version ` set (pk_versions p)" by blast
qed

lemma deprecation_names [simp]: "v_version ` apply_deprecation s b ` A = v_version ` A"
  using keeps_deprecation by (simp add: keeps_row_def image_image)

lemma update_tags_ok:
  assumes up: "update_package env act body p reg = Inr reg'" and ok: "tags_ok reg" and p: "p \<in> set (pkgs reg)"
  shows "tags_ok reg'"
proof -
  let ?kept = "kept_versions env body p" and ?gone = "removed_versions env body p"
  define p1 where "p1 = p\<lparr>pk_versions := map (apply_deprecation (obj_items (jget body ''versions'')) False) ?kept\<rparr>"
  define tags where "tags = (if is_obj (jget body ''dist-tags'') then jget body ''dist-tags'' else JObj [])"
  define wanted where "wanted = wanted_latest tags (map v_version ?kept) (filter (\<lambda>v. v \<notin> set (hidden_versions env p)) (map v_version ?kept))"
  have q: "updated_package env body p = (if ?gone = [] then p1 else retag (map v_version ?gone) wanted p1)"
    unfolding updated_package_def p1_def tags_def wanted_def Let_def ..
  have names: "v_version ` set (pk_versions p1) = v_version ` set ?kept" by (simp add: p1_def)
  have pt: "v \<in> v_version ` set ?gone \<or> v \<in> v_version ` set ?kept" if "(t, v) \<in> set (pk_tags p1)" for t v
  proof -
    have "package_tags_ok p" using ok p by (simp add: tags_ok_alt)
    with that obtain x where "x \<in> set (pk_versions p)" "v = v_version x" by (fastforce simp: p1_def package_tags_ok_def)
    then show ?thesis by (cases "version_goes env body p x") (auto simp: removed_versions_def kept_versions_def)
  qed
  have "package_tags_ok (updated_package env body p)"
  proof (cases "?gone = []")
    case True
    with pt show ?thesis by (auto simp: q package_tags_ok_def names)
  next
    case False
    with up wanted_in [of "map v_version ?kept"] have "wanted \<in> v_version ` set ?kept"
      by (auto simp: wanted_def update_package_parts)
    with False show ?thesis by (auto simp: q names intro!: retag_tags_ok dest!: pt)
  qed
  moreover from up have "reg' = put_package (updated_package env body p) (foldl (\<lambda>r v. retire_version_row act p v r) reg ?gone)"
    by (simp add: update_package_parts)
  moreover have "\<forall>p \<in> set (pkgs (foldl (\<lambda>r v. retire_version_row act p v r) reg ?gone)). package_tags_ok p"
    using ok by (simp add: retire_rows_all(1) tags_ok_alt)
  ultimately show ?thesis using tags_ok_put by simp
qed

text \<open>
  C27: a tag names a version that exists. Publishing, tagging, untagging, deprecating, the packument
  update and unpublishing a package all keep the tags on versions the package has; the tarball delete
  is the only handler that does not.
\<close>

theorem tags_name_versions:
  assumes "handle env act req reg = Inr reg'" "tags_ok reg"
    and "case req of DeleteTarball _ _ \<Rightarrow> False | _ \<Rightarrow> True"
  shows "tags_ok reg'"
proof (cases req)
  case (PutDocument name body)
  with assms(1) obtain r where "handle_deprecate act r reg = Inr reg' \<or> handle_publish env act r reg = Inr reg'"
    by (auto simp: publish_def split: sum.splits if_splits)
  then show ?thesis
  proof
    assume "handle_deprecate act r reg = Inr reg'"
    then obtain p where p: "p \<in> set (pkgs reg)"
      "reg' = put_package (p\<lparr>pk_versions := map (apply_deprecation (r_versions r) True) (pk_versions p)\<rparr>) reg"
      by (auto simp: handle_deprecate_def sum_bind_Inr_iff split: option.splits dest: found_package)
    have "package_tags_ok (p\<lparr>pk_versions := map (apply_deprecation (r_versions r) True) (pk_versions p)\<rparr>)"
      using p(1) assms(2) package_tags_mono [of p] by (simp add: tags_ok_alt)
    then show ?thesis unfolding p(2) using assms(2) by (intro tags_ok_put) (simp_all add: tags_ok_alt)
  qed (rule publish_tags_ok [OF _ assms(2)])
next
  case (PutTag name tag body)
  with assms(1) obtain p version where p: "p \<in> set (pkgs reg)" "version \<in> v_version ` set (pk_versions p)"
    "reg' = put_package (if tag = ''latest'' then p\<lparr>pk_tags := put_tag tag version (pk_tags p), pk_latest := Some version\<rparr>
        else p\<lparr>pk_tags := put_tag tag version (pk_tags p)\<rparr>) reg"
    by (auto simp: set_dist_tag_def Let_def sum_bind_Inr_iff split: if_splits option.splits dest: found_package)
  with assms(2) have "package_tags_ok p" by (simp add: tags_ok_alt)
  with p(2) have "v \<in> v_version ` set (pk_versions p)" if "(t, v) \<in> set (put_tag tag version (pk_tags p))" for t v
    using in_put_tag [OF that] by (auto simp: package_tags_ok_def)
  then show ?thesis unfolding p(3) using assms(2)
    by (intro tags_ok_put) (auto simp: tags_ok_alt package_tags_ok_def)
next
  case (DeleteTag name tag)
  with assms(1) obtain p where p: "p \<in> set (pkgs reg)"
    "reg' = put_package (p\<lparr>pk_tags := filter (\<lambda>(t, v). t \<noteq> tag) (pk_tags p)\<rparr>) reg"
    by (auto simp: delete_dist_tag_def sum_bind_Inr_iff split: if_splits option.splits dest: found_package)
  have all: "\<forall>p \<in> set (pkgs reg). package_tags_ok p" using assms(2) by (simp add: tags_ok_alt)
  with p(1) have "package_tags_ok (p\<lparr>pk_tags := filter (\<lambda>(t, v). t \<noteq> tag) (pk_tags p)\<rparr>)"
    by (auto simp: package_tags_ok_def)
  then show ?thesis unfolding p(2) using all by (intro tags_ok_put) simp_all
next
  case (PutPackument name body)
  with assms(1) obtain p where "p \<in> set (pkgs reg)" "update_package env act body p reg = Inr reg'"
    by (auto simp: update_packument_def Let_def split: if_splits option.splits dest: found_package)
  with update_tags_ok assms(2) show ?thesis by blast
next
  case (DeleteTarball name tarball)
  with assms(3) show ?thesis by simp
next
  case (DeletePackage name)
  with assms(1) obtain p where "reg' = (retire_all act p reg)\<lparr>pkgs := filter (\<lambda>q. p_norm q \<noteq> p_norm p) (pkgs (retire_all act p reg))\<rparr>"
    by (auto simp: unpublish_package_def Let_def sum_bind_Inr_iff split: option.splits)
  moreover have "pkgs (retire_all act p reg) = pkgs reg"
    using retire_rows [where act = act and p = p and b = v_local and k = primary_file and reg = reg and vs = "pk_versions p"]
    by (simp add: retire_all_def)
  ultimately show ?thesis using assms(2) by (simp add: tags_ok_def)
qed

theorem tags_name_versions_witness: "tags_ok published_npm"
  by (rule tags_name_versions [OF sample_published]) (simp_all add: tags_ok_def empty_npm_def)

subsection \<open>Owners\<close>

definition is_publish :: "'v npm_env \<Rightarrow> npm_request \<Rightarrow> bool" where
  \<comment> \<open>a document that publishes versions, not one that deprecates some\<close>
  "is_publish env req = (case req of
     PutDocument name body \<Rightarrow> (case parse_publish_document (max_attachment env) body name of
       Inl e \<Rightarrow> False | Inr r \<Rightarrow> r_intent r \<noteq> Deprecate)
   | _ \<Rightarrow> False)"

definition may_change :: "'v npm_env \<Rightarrow> actor \<Rightarrow> npm_request \<Rightarrow> npm_package \<Rightarrow> bool" where
  "may_change env act req p = (if p_local p then p_owner p = None \<or> p_owner p = act_user act \<or> act_admin act
     else (if is_publish env req then matches_namespace (p_norm p) (namespaces env) else act_admin act))"

definition others :: "string \<Rightarrow> npm_registry \<Rightarrow> npm_package list" where
  "others n reg = filter (\<lambda>p. p_norm p \<noteq> n) (pkgs reg)"

lemma others_put: "p_norm q = n \<Longrightarrow> pkgs reg1 = pkgs reg \<Longrightarrow> others n (put_package q reg1) = others n reg"
proof -
  have "filter (\<lambda>p. p_norm p \<noteq> p_norm q) (map (\<lambda>x. if p_norm x = p_norm q then q else x) ps) = filter (\<lambda>p. p_norm p \<noteq> p_norm q) ps" for ps
    by (induction ps) auto
  then show "p_norm q = n \<Longrightarrow> pkgs reg1 = pkgs reg \<Longrightarrow> others n (put_package q reg1) = others n reg"
    by (auto simp: others_def put_package_def)
qed

lemma mutation_allows: "may_mutate act p = Inr u \<Longrightarrow> \<not> is_publish env req \<Longrightarrow> may_change env act req p"
  by (auto simp: may_mutate_Inr may_change_def split: if_splits)

text \<open>
  C5: only its owner changes a package. A request that succeeds leaves every package but the one it
  names as it was. Where that one existed before and was published here, it was nobody's, or the
  caller's own, or the caller acts as an admin. Where it was mirrored from an upstream, a publish
  succeeds only if the name is reserved for local use, and every other request -- deprecations, tags,
  updates, deletes -- only for an admin.
\<close>

theorem only_owner_changes:
  assumes "handle env act req reg = Inr reg'"
  shows "others (normalize_name_for ''npm'' (target_of req)) reg' = others (normalize_name_for ''npm'' (target_of req)) reg \<and>
    (case npm_package_named (target_of req) reg of None \<Rightarrow> True | Some p \<Rightarrow> may_change env act req p)"
proof (cases req)
  case (PutDocument name body)
  with assms obtain r where r: "parse_publish_document (max_attachment env) body name = Inr r"
    "r_intent r = Deprecate \<and> handle_deprecate act r reg = Inr reg' \<or> r_intent r \<noteq> Deprecate \<and> handle_publish env act r reg = Inr reg'"
    by (auto simp: publish_def split: sum.splits if_splits)
  note n = parse_versions(2) [OF r(1)]
  have kind: "is_publish env req = (r_intent r \<noteq> Deprecate)" using PutDocument r(1) by (simp add: is_publish_def)
  from r(2) show ?thesis
  proof (elim disjE conjE)
    assume "r_intent r = Deprecate" "handle_deprecate act r reg = Inr reg'"
    with n PutDocument kind show ?thesis
      by (auto simp: handle_deprecate_def sum_bind_Inr_iff split: option.splits intro!: others_put mutation_allows dest: found_package)
  next
    assume i: "r_intent r \<noteq> Deprecate" and p: "handle_publish env act r reg = Inr reg'"
    from publish_parts [OF p] obtain g st p reg1 where
      a: "authorize_publish (namespaces env) True (upstream_answer env (r_name r)) (pkgs reg) ''npm'' (r_name r) (act_user act) (act_admin act) = Inr g"
      and f: "foldl (commit_version env (r_name r)) (claim_name r g, reg) st = (p, reg1)"
      and reg': "reg' = put_package (apply_tags (publish_tags r (map fst st) p) p) reg1" .
    from authorize_cases(1) [OF a] have row: "npm_package_named name reg = g_package g" by (simp add: npm_package_named_def n)
    have "p_norm (claim_name r g) = normalize_name_for ''npm'' name"
      using row found_package [of name reg] n by (cases "g_package g") (simp_all add: claim_name_def Let_def)
    with commit_versions [OF f, of "{#}"] have "p_norm p = normalize_name_for ''npm'' name" "pkgs reg1 = pkgs reg" by simp_all
    with authorize_cases(2) [OF a] row PutDocument kind i show ?thesis
      by (auto simp: reg' may_change_def intro!: others_put split: option.splits if_splits)
  qed
next
  case (PutTag name tag body)
  with assms show ?thesis
    by (auto simp: set_dist_tag_def Let_def sum_bind_Inr_iff split: if_splits option.splits
        intro!: others_put mutation_allows simp: is_publish_def dest: found_package)
next
  case (DeleteTag name tag)
  with assms show ?thesis
    by (auto simp: delete_dist_tag_def sum_bind_Inr_iff split: if_splits option.splits
        intro!: others_put mutation_allows simp: is_publish_def dest: found_package)
next
  case (PutPackument name body)
  with assms obtain p where p: "npm_package_named name reg = Some p" "update_package env act body p reg = Inr reg'"
    by (auto simp: update_packument_def Let_def split: if_splits option.splits)
  with PutPackument found_package [OF p(1)] show ?thesis
    by (auto simp: update_package_parts updated_frame retire_rows_all(1) is_publish_def intro!: others_put mutation_allows)
next
  case (DeleteTarball name tarball)
  with assms obtain p where p: "npm_package_named name reg = Some p"
    by (auto simp: unpublish_version_def split: option.splits)
  with assms DeleteTarball found_package [OF p] show ?thesis
    by (cases "version_with_file p tarball")
      (auto simp: unpublish_version_def sum_bind_Inr_iff retire_version_row_def is_publish_def split: if_splits intro!: others_put mutation_allows)
next
  case (DeletePackage name)
  with assms obtain p where p: "npm_package_named name reg = Some p" "may_mutate act p = Inr ()"
    "reg' = (retire_all act p reg)\<lparr>pkgs := filter (\<lambda>q. p_norm q \<noteq> p_norm p) (pkgs (retire_all act p reg))\<rparr>"
    by (auto simp: unpublish_package_def Let_def sum_bind_Inr_iff split: option.splits)
  moreover have "pkgs (retire_all act p reg) = pkgs reg"
    using retire_rows [where act = act and p = p and b = v_local and k = primary_file and reg = reg and vs = "pk_versions p"]
    by (simp add: retire_all_def)
  ultimately show ?thesis
    using DeletePackage found_package [OF p(1)] mutation_allows [OF p(2), of env req] by (simp add: others_def is_publish_def)
qed

theorem only_owner_changes_witness:
  "others ''mine'' withdrawn_npm = [] \<and> list_all (may_change sample_npm_env alice (DeleteTarball ''mine'' ''mine-1.0.0.tgz'')) (pkgs published_npm)"
proof -
  have n: "normalize_name_for ''npm'' ''mine'' = ''mine''" "others ''mine'' published_npm = []" by code_simp+
  obtain p where p: "pkgs published_npm = [p]" "npm_package_named ''mine'' published_npm = Some p"
  proof -
    have "length (pkgs published_npm) = 1" "npm_package_named ''mine'' published_npm = Some (hd (pkgs published_npm))" by code_simp+
    then show ?thesis using that by (cases "pkgs published_npm") auto
  qed
  from only_owner_changes [OF sample_withdrawn] show ?thesis
    by (simp add: n p sample_npm_env_def)
qed

end
