(* ===== verification/Herd_Guard.thy ===== *)
theory Herd_Guard
  imports Main
begin

section \<open>One fetch per cold name: \<open>herd_guard\<close> (\<open>core/cache.py\<close>)\<close>

text \<open>
  The tasks of one process that enter \<open>herd_guard\<close>, as an interleaving of the stretches of code
  between two \<open>await\<close>s. \<open>_local_locks\<close> maps a key to a mutable \<open>[lock, users]\<close> entry that the guards
  also hold, so entries live in a store of their own. An \<open>asyncio.Lock\<close> is taken at once when it is
  free and nobody is queued on it; a release frees it and the first queued task takes it when it
  next runs. The replies of the cache server, and who is cancelled when, are labels of the steps.
\<close>

record lock_entry =
  locked :: bool
  waiters :: "nat list"
  users :: int

datatype progress =
    Idle
  | Queued \<comment> \<open>in \<open>lock.acquire()\<close>\<close>
  | Connecting \<comment> \<open>in \<open>ensure_redis()\<close>\<close>
  | Trying nat \<comment> \<open>in the loop over \<open>SET NX\<close>, with so many attempts left\<close>
  | Body bool \<comment> \<open>inside \<open>async with\<close>, with what it yielded\<close>
  | Releasing \<comment> \<open>in \<open>client.eval\<close> of \<open>__aexit__\<close>\<close>
  | Left

record guard =
  h_key :: string
  h_wait :: bool
  h_ttl :: nat
  h_pc :: progress
  h_entry :: "nat option"
  h_local :: bool
  h_remote :: bool

record herd =
  local_locks :: "string \<Rightarrow> nat option"
  entries :: "nat \<Rightarrow> lock_entry"
  next_entry :: nat
  guards :: "nat \<Rightarrow> guard"

definition set_guard :: "nat \<Rightarrow> (guard \<Rightarrow> guard) \<Rightarrow> herd \<Rightarrow> herd" where
  "set_guard g f s = s\<lparr>guards := (guards s)(g := f (guards s g))\<rparr>"

definition set_entry :: "nat \<Rightarrow> (lock_entry \<Rightarrow> lock_entry) \<Rightarrow> herd \<Rightarrow> herd" where
  "set_entry e f s = s\<lparr>entries := (entries s)(e := f (entries s e))\<rparr>"

definition enter_local :: "nat \<Rightarrow> herd \<Rightarrow> nat \<times> herd" where
  "enter_local g s = (let
     key = h_key (guards s g);
     (e, s1) = (case local_locks s key of
        Some e \<Rightarrow> (e, s)
      | None \<Rightarrow> (next_entry s, s\<lparr>local_locks := (local_locks s)(key := Some (next_entry s)),
           entries := (entries s)(next_entry s := \<lparr>locked = False, waiters = [], users = 0\<rparr>),
           next_entry := next_entry s + 1\<rparr>))
     in (e, set_guard g (h_entry_update (\<lambda>_. Some e)) (set_entry e (users_update (\<lambda>n. n + 1)) s1)))"

definition leave_local :: "nat \<Rightarrow> herd \<Rightarrow> herd" where
  "leave_local g s = (case h_entry (guards s g) of
     None \<Rightarrow> s
   | Some e \<Rightarrow> (let
       key = h_key (guards s g);
       s1 = set_entry e (users_update (\<lambda>n. n - 1)) (set_guard g (h_entry_update (\<lambda>_. None)) s)
       in if users (entries s1 e) \<le> 0 \<and> local_locks s1 key = Some e
          then s1\<lparr>local_locks := (local_locks s1)(key := None)\<rparr> else s1))"

definition goto :: "nat \<Rightarrow> progress \<Rightarrow> herd \<Rightarrow> herd" where
  "goto g p s = set_guard g (h_pc_update (\<lambda>_. p)) s"

text \<open>\<open>await lock.acquire()\<close> got the lock.\<close>

definition take_lock :: "nat \<Rightarrow> nat \<Rightarrow> herd \<Rightarrow> herd" where
  "take_lock g e s = goto g Connecting (set_guard g (h_local_update (\<lambda>_. True)) (set_entry e (locked_update (\<lambda>_. True)) s))"

definition new_guard :: "string \<Rightarrow> nat \<Rightarrow> bool \<Rightarrow> guard" where
  "new_guard key ttl wait = \<lparr>h_key = ''lock:'' @ key, h_wait = wait, h_ttl = ttl, h_pc = Idle,
     h_entry = None, h_local = False, h_remote = False\<rparr>"

text \<open>\<open>__aenter__\<close> up to its first suspension.\<close>

definition begin_guard :: "nat \<Rightarrow> string \<Rightarrow> nat \<Rightarrow> bool \<Rightarrow> herd \<Rightarrow> herd" where
  "begin_guard g key ttl wait s = (let
     s0 = set_guard g (\<lambda>_. new_guard key ttl wait) s;
     (e, s1) = enter_local g s0
     in if \<not> wait \<and> locked (entries s1 e) then goto g (Body False) s1
        else if \<not> locked (entries s1 e) \<and> waiters (entries s1 e) = [] then take_lock g e s1
        else goto g Queued (set_entry e (waiters_update (\<lambda>ws. ws @ [g])) s1))"

text \<open>A queued task is cancelled: \<open>acquire\<close> drops it from the queue and the guard leaves.\<close>

definition cancel_queued :: "nat \<Rightarrow> herd \<Rightarrow> herd" where
  "cancel_queued g s = (case h_entry (guards s g) of
     None \<Rightarrow> s
   | Some e \<Rightarrow> goto g Left (leave_local g (set_entry e (waiters_update (filter (\<lambda>w. w \<noteq> g))) s)))"

text \<open>The first queued task runs after a release.\<close>

definition wake :: "nat \<Rightarrow> nat \<Rightarrow> herd \<Rightarrow> herd" where
  "wake g e s = take_lock g e (set_entry e (\<lambda>d. d\<lparr>waiters := tl (waiters d)\<rparr>) s)"

text \<open>\<open>ensure_redis()\<close> returned; \<open>attempts\<close> as the code counts them.\<close>

definition attempts :: "guard \<Rightarrow> nat" where
  "attempts g = max 1 (if h_wait g then h_ttl g * 10 else 1)"

definition connected :: "nat \<Rightarrow> bool \<Rightarrow> herd \<Rightarrow> herd" where
  "connected g reachable s = (if reachable then goto g (Trying (attempts (guards s g))) s else goto g (Body True) s)"

text \<open>One round of the loop: \<open>got\<close> is the answer to \<open>SET key token NX EX ttl\<close>.\<close>

definition try_remote :: "nat \<Rightarrow> nat \<Rightarrow> bool \<Rightarrow> herd \<Rightarrow> herd" where
  "try_remote g n got s =
     (if got then goto g (Body True) (set_guard g (h_remote_update (\<lambda>_. True)) s)
      else if \<not> h_wait (guards s g) then goto g (Body False) s
      else if n \<le> 1 then goto g (Body True) s
      else goto g (Trying (n - 1)) s)"

text \<open>\<open>__aexit__\<close> from its last two statements on: the local lock is released and the guard leaves.\<close>

definition release_local :: "nat \<Rightarrow> herd \<Rightarrow> herd" where
  "release_local g s = (let
     s1 = (case h_entry (guards s g) of
        Some e \<Rightarrow> if h_local (guards s g)
          then set_entry e (locked_update (\<lambda>_. False)) (set_guard g (h_local_update (\<lambda>_. False)) s) else s
      | None \<Rightarrow> s)
     in goto g Left (leave_local g s1))"

text \<open>
  \<open>__aexit__\<close> up to its first suspension: a guard that holds the lock of the cache server awaits the
  release script when there is a client (\<open>redis_client()\<close> is not \<open>None\<close>). What the server does with the
  script is not seen here.
\<close>

definition leave :: "nat \<Rightarrow> bool \<Rightarrow> herd \<Rightarrow> herd" where
  "leave g client s = (if h_remote (guards s g)
     then (let s1 = set_guard g (h_remote_update (\<lambda>_. False)) s in
       if client then goto g Releasing s1 else release_local g s1)
     else release_local g s)"

subsection \<open>Steps\<close>

datatype event =
    Begin nat string nat bool
  | Wake nat
  | CancelQueued nat
  | Connected nat bool
  | CancelConnecting nat
  | Tried nat bool
  | RemoteFailed nat
  | CancelTrying nat bool
  | Leave nat bool
  | Released nat
  | CancelReleasing nat

text \<open>
  A cancellation while \<open>ensure_redis()\<close> is awaited passes through \<open>__aenter__\<close> without
  \<open>_leave_local\<close>: that await stands outside both \<open>try\<close> blocks, and \<open>__aexit__\<close> does not run for a
  failed \<open>__aenter__\<close>. One that arrives while the release script is awaited is no \<open>Exception\<close>, so
  \<open>contextlib.suppress(Exception)\<close> lets it through, and the rest of \<open>__aexit__\<close> is skipped. An answer or
  an error of the server lets \<open>__aexit__\<close> go on.
\<close>

inductive herd_step :: "event \<Rightarrow> herd \<Rightarrow> herd \<Rightarrow> bool" where
  enter: "h_pc (guards s g) = Idle \<Longrightarrow> herd_step (Begin g key ttl wait) s (begin_guard g key ttl wait s)"
| woken: "h_pc (guards s g) = Queued \<Longrightarrow> h_entry (guards s g) = Some e \<Longrightarrow> \<not> locked (entries s e) \<Longrightarrow>
    waiters (entries s e) = g # ws \<Longrightarrow> herd_step (Wake g) s (wake g e s)"
| queued_cancelled: "h_pc (guards s g) = Queued \<Longrightarrow> herd_step (CancelQueued g) s (cancel_queued g s)"
| reached: "h_pc (guards s g) = Connecting \<Longrightarrow> herd_step (Connected g reachable) s (connected g reachable s)"
| connecting_cancelled: "h_pc (guards s g) = Connecting \<Longrightarrow> herd_step (CancelConnecting g) s (goto g Left s)"
| tried: "h_pc (guards s g) = Trying n \<Longrightarrow> herd_step (Tried g got) s (try_remote g n got s)"
| remote_failed: "h_pc (guards s g) = Trying n \<Longrightarrow> herd_step (RemoteFailed g) s (goto g (Body True) s)"
| trying_cancelled: "h_pc (guards s g) = Trying n \<Longrightarrow> herd_step (CancelTrying g client) s (leave g client s)"
| left: "h_pc (guards s g) = Body b \<Longrightarrow> herd_step (Leave g client) s (leave g client s)"
| released: "h_pc (guards s g) = Releasing \<Longrightarrow> herd_step (Released g) s (release_local g s)"
| releasing_cancelled: "h_pc (guards s g) = Releasing \<Longrightarrow> herd_step (CancelReleasing g) s (goto g Left s)"

definition no_guard :: guard where
  "no_guard = \<lparr>h_key = [], h_wait = True, h_ttl = 0, h_pc = Idle, h_entry = None, h_local = False, h_remote = False\<rparr>"

definition start :: herd where
  "start = \<lparr>local_locks = (\<lambda>_. None), entries = (\<lambda>_. \<lparr>locked = False, waiters = [], users = 0\<rparr>),
     next_entry = 0, guards = (\<lambda>_. no_guard)\<rparr>"

text \<open>\<open>allow\<close> says which events may happen.\<close>

inductive herd_run :: "(event \<Rightarrow> bool) \<Rightarrow> herd \<Rightarrow> herd \<Rightarrow> bool" for allow where
  refl: "herd_run allow s s"
| step: "herd_run allow s t \<Longrightarrow> herd_step ev t u \<Longrightarrow> allow ev \<Longrightarrow> herd_run allow s u"

text \<open>The two cancellations that skip the local release.\<close>

fun cut_short :: "event \<Rightarrow> bool" where
  "cut_short (CancelConnecting g) = True"
| "cut_short (CancelReleasing g) = True"
| "cut_short ev = False"

end
