(* ===== verification/Herd_Guard_Spec.thy ===== *)
theory Herd_Guard_Spec
  imports Herd_Guard
begin

section \<open>What \<open>herd_guard\<close> guarantees\<close>

text \<open>
  The invariant of the entries in two parts: the books (an entry in use is the entry of its key, and
  \<open>users\<close> counts the guards that hold it), and the lock (a locked entry has exactly one holder, the
  queue is the guards that wait).
\<close>

definition refs :: "herd \<Rightarrow> nat \<Rightarrow> nat set" where
  "refs s e = {g. h_entry (guards s g) = Some e}"

definition books_ok :: "herd \<Rightarrow> bool" where
  "books_ok s \<longleftrightarrow>
     (\<forall>g e. h_entry (guards s g) = Some e \<longrightarrow> local_locks s (h_key (guards s g)) = Some e) \<and>
     (\<forall>k e. local_locks s k = Some e \<longrightarrow> e < next_entry s \<and> finite (refs s e) \<and> refs s e \<noteq> {} \<and>
        users (entries s e) = int (card (refs s e))) \<and>
     (\<forall>k k' e. local_locks s k = Some e \<longrightarrow> local_locks s k' = Some e \<longrightarrow> k = k')"

fun guard_ok :: "progress \<Rightarrow> bool \<Rightarrow> bool \<Rightarrow> bool" where
  "guard_ok Idle entered holds = (\<not> entered \<and> \<not> holds)"
| "guard_ok Queued entered holds = (entered \<and> \<not> holds)"
| "guard_ok (Body False) entered holds = entered"
| "guard_ok Releasing entered holds = entered"
| "guard_ok Left entered holds = (holds \<longrightarrow> entered)"
| "guard_ok p entered holds = (entered \<and> holds)"

definition holders :: "herd \<Rightarrow> nat \<Rightarrow> nat set" where
  "holders s e = {g. h_local (guards s g) \<and> h_entry (guards s g) = Some e}"

definition queued :: "herd \<Rightarrow> nat \<Rightarrow> nat set" where
  "queued s e = {g. h_pc (guards s g) = Queued \<and> h_entry (guards s g) = Some e}"

definition entry_ok :: "herd \<Rightarrow> nat \<Rightarrow> bool" where
  "entry_ok s e \<longleftrightarrow> (\<exists>g. holders s e \<subseteq> {g}) \<and> (locked (entries s e) \<longleftrightarrow> holders s e \<noteq> {}) \<and>
     distinct (waiters (entries s e)) \<and> set (waiters (entries s e)) = queued s e"

definition guards_ok :: "herd \<Rightarrow> bool" where
  "guards_ok s \<longleftrightarrow> (\<forall>g. guard_ok (h_pc (guards s g)) (h_entry (guards s g) \<noteq> None) (h_local (guards s g)))"

definition lock_ok :: "herd \<Rightarrow> bool" where
  "lock_ok s \<longleftrightarrow> guards_ok s \<and> (\<forall>e. entry_ok s e)"

definition herd_ok :: "herd \<Rightarrow> bool" where
  "herd_ok s \<longleftrightarrow> books_ok s \<and> lock_ok s"

lemma herd_ok_start: "herd_ok start"
  by (simp add: herd_ok_def books_ok_def lock_ok_def guards_ok_def entry_ok_def holders_def queued_def start_def no_guard_def)

subsection \<open>The books\<close>

lemma leave_local_fields:
  assumes "h_entry (guards s g) = Some e"
  shows "guards (leave_local g s) = (guards s)(g := guards s g\<lparr>h_entry := None\<rparr>)"
    "entries (leave_local g s) = (entries s)(e := entries s e\<lparr>users := users (entries s e) - 1\<rparr>)"
    "next_entry (leave_local g s) = next_entry s"
    "local_locks (leave_local g s) = (if users (entries s e) \<le> 1 \<and> local_locks s (h_key (guards s g)) = Some e
       then (local_locks s)(h_key (guards s g) := None) else local_locks s)"
  using assms by (auto simp: leave_local_def set_entry_def set_guard_def Let_def)

lemma books_leave:
  assumes "books_ok s" "h_entry (guards s g) = Some e"
  shows "books_ok (leave_local g s)"
proof -
  note f = leave_local_fields [OF assms(2)]
  let ?s = "leave_local g s"
  have mine: "local_locks s (h_key (guards s g)) = Some e" using assms by (simp add: books_ok_def)
  have e: "e < next_entry s" "finite (refs s e)" "users (entries s e) = int (card (refs s e))" "g \<in> refs s e"
    using assms mine by (auto simp: books_ok_def refs_def)
  have refs': "refs ?s d = (if d = e then refs s e - {g} else refs s d)" for d
    using assms(2) by (auto simp: refs_def f)
  have card': "card (refs s e - {g}) = card (refs s e) - 1" "0 < card (refs s e)"
    using e by (auto simp: card_gt_0_iff)
  have last: "users (entries s e) \<le> 1 \<longleftrightarrow> refs s e - {g} = {}"
    using e card' by (metis card_eq_0_iff diff_is_0_eq finite_Diff int_ops(2) of_nat_le_iff)
  have only: "k = h_key (guards s g)" if "local_locks s k = Some e" for k
    using assms(1) mine that by (auto simp: books_ok_def)
  show ?thesis unfolding books_ok_def
  proof (intro conjI allI impI)
    fix h d assume h: "h_entry (guards ?s h) = Some d"
    then have "h \<noteq> g" "h_entry (guards s h) = Some d" by (auto simp: f split: if_splits)
    moreover from this assms(1) have "local_locks s (h_key (guards s h)) = Some d" by (simp add: books_ok_def)
    moreover have "\<not> (refs s e - {g} = {})" if "d = e" using calculation that by (auto simp: refs_def)
    ultimately show "local_locks ?s (h_key (guards ?s h)) = Some d" using last mine by (auto simp: f)
  next
    fix k d assume k: "local_locks ?s k = Some d"
    then have k': "local_locks s k = Some d" by (auto simp: f split: if_splits)
    with assms(1) have d: "d < next_entry s" "finite (refs s d)" "refs s d \<noteq> {}" "users (entries s d) = int (card (refs s d))"
      by (auto simp: books_ok_def)
    show "d < next_entry ?s" "finite (refs ?s d)" "users (entries ?s d) = int (card (refs ?s d))"
      using d e card' by (auto simp: f refs')
    show "refs ?s d \<noteq> {}"
    proof (cases "d = e")
      case True
      with k only [of k] k' have "\<not> users (entries s e) \<le> 1" using mine by (auto simp: f split: if_splits)
      with last True show ?thesis by (simp add: refs')
    qed (use d in \<open>simp add: refs'\<close>)
  next
    fix k k' d assume "local_locks ?s k = Some d" "local_locks ?s k' = Some d"
    then have "local_locks s k = Some d" "local_locks s k' = Some d" by (auto simp: f split: if_splits)
    with assms(1) show "k = k'" by (auto simp: books_ok_def)
  qed
qed

text \<open>Everything else leaves the map, the users and the guards' entries alone.\<close>

lemma books_cong:
  assumes "local_locks t = local_locks s" "next_entry t = next_entry s" "\<And>e. users (entries t e) = users (entries s e)"
    "\<And>g. h_entry (guards t g) = h_entry (guards s g)" "\<And>g. h_key (guards t g) = h_key (guards s g)"
  shows "books_ok t = books_ok s"
  using assms by (simp add: books_ok_def refs_def)

lemma enter_local_fields:
  assumes "enter_local g s = (e, t)"
  shows "guards t = (guards s)(g := guards s g\<lparr>h_entry := Some e\<rparr>)"
    "local_locks t = (local_locks s)(h_key (guards s g) := Some e)"
    "case local_locks s (h_key (guards s g)) of
       Some d \<Rightarrow> e = d \<and> next_entry t = next_entry s \<and> entries t = (entries s)(e := entries s e\<lparr>users := users (entries s e) + 1\<rparr>)
     | None \<Rightarrow> e = next_entry s \<and> next_entry t = next_entry s + 1 \<and>
         entries t = (entries s)(e := \<lparr>locked = False, waiters = [], users = 1\<rparr>)"
  using assms by (auto simp: enter_local_def set_guard_def set_entry_def Let_def fun_upd_idem split: option.splits)

lemma books_enter:
  assumes ok: "books_ok s" and fresh: "h_entry (guards s g) = None" and e: "enter_local g s = (e, t)"
  shows "books_ok t"
proof -
  note f = enter_local_fields [OF e]
  let ?k = "h_key (guards s g)"
  have refs': "refs t d = (if d = e then insert g (refs s e) else refs s d)" for d
    using fresh by (auto simp: refs_def f(1))
  have notin: "g \<notin> refs s d" for d using fresh by (simp add: refs_def)
  have unused: "refs s (next_entry s) = {}"
    using ok by (fastforce simp: books_ok_def refs_def)
  have old: "local_locks s k = Some d \<Longrightarrow> d < next_entry s \<and> finite (refs s d) \<and> refs s d \<noteq> {} \<and> users (entries s d) = int (card (refs s d))" for k d
    using ok by (auto simp: books_ok_def)
  have others: "local_locks t k = Some d \<Longrightarrow> d = e \<and> k = ?k \<or> d \<noteq> e \<and> local_locks s k = Some d" for k d
  proof -
    assume k: "local_locks t k = Some d"
    show ?thesis
    proof (cases "k = ?k")
      case False
      with k have k': "local_locks s k = Some d" by (simp add: f(2))
      have "d \<noteq> e"
      proof (cases "local_locks s ?k")
        case None with f(3) old [OF k'] show ?thesis by auto
      next
        case (Some c) with f(3) ok k' False show ?thesis by (auto simp: books_ok_def)
      qed
      with k' show ?thesis by simp
    qed (use k in \<open>simp add: f(2)\<close>)
  qed
  have mine: "e < next_entry t \<and> finite (refs t e) \<and> users (entries t e) = int (card (refs t e))"
    using f(3) old notin unused by (cases "local_locks s ?k") (auto simp: refs')
  have kept: "entries t d = entries s d" "next_entry s \<le> next_entry t" if "d \<noteq> e" for d
    using f(3) that by (auto split: option.splits)
  show ?thesis unfolding books_ok_def
  proof (intro conjI allI impI)
    fix h d assume h: "h_entry (guards t h) = Some d"
    show "local_locks t (h_key (guards t h)) = Some d"
    proof (cases "h = g")
      case False
      with h ok have "local_locks s (h_key (guards s h)) = Some d" by (simp add: f(1) books_ok_def)
      with False f(3) show ?thesis by (auto simp: f(1,2) split: option.splits)
    qed (use h in \<open>simp add: f(1,2)\<close>)
  next
    fix k d assume "local_locks t k = Some d"
    note k = others [OF this]
    show "d < next_entry t" "finite (refs t d)" "users (entries t d) = int (card (refs t d))"
      using k old [of k d] mine kept [of d] by (auto simp: refs' dest: order.strict_trans2)
    show "refs t d \<noteq> {}" using k old [of k d] by (auto simp: refs')
  next
    fix k k' d assume "local_locks t k = Some d" "local_locks t k' = Some d"
    with others [of k d] others [of k' d] ok show "k = k'" by (auto simp: books_ok_def)
  qed
qed

lemma books_goto [simp]: "books_ok (goto g p s) = books_ok s"
  by (rule books_cong) (simp_all add: goto_def set_guard_def)

lemma books_entry: "(\<And>d. users (f d) = users d) \<Longrightarrow> books_ok (set_entry e f s) = books_ok s"
  by (rule books_cong) (simp_all add: set_entry_def)

lemma books_guard: "(\<And>x. h_entry (f x) = h_entry x) \<Longrightarrow> (\<And>x. h_key (f x) = h_key x) \<Longrightarrow> books_ok (set_guard g f s) = books_ok s"
  by (rule books_cong) (simp_all add: set_guard_def)

lemma books_take [simp]: "books_ok (take_lock g e s) = books_ok s"
  by (simp add: take_lock_def books_guard books_entry)

lemma books_reset:
  assumes "books_ok s" "h_entry (guards s g) = None" "h_entry x = None"
  shows "books_ok (set_guard g (\<lambda>_. x) s)"
proof -
  have "h_entry (guards (set_guard g (\<lambda>_. x) s) h) = h_entry (guards s h)" for h
    using assms by (simp add: set_guard_def)
  then have "refs (set_guard g (\<lambda>_. x) s) = refs s" by (simp add: refs_def fun_eq_iff)
  with assms show ?thesis by (auto simp: books_ok_def set_guard_def split: if_splits)
qed

lemma lock_guards: "lock_ok s \<Longrightarrow> guard_ok (h_pc (guards s g)) (h_entry (guards s g) \<noteq> None) (h_local (guards s g))"
  by (simp add: lock_ok_def guards_ok_def)

lemma guard_ok_entered: "guard_ok p b True \<Longrightarrow> b"
  by (cases "(p, b, True)" rule: guard_ok.cases) auto

lemma books_leave_local [simp]: "books_ok s \<Longrightarrow> books_ok (leave_local g s)"
  using books_leave by (cases "h_entry (guards s g)") (auto simp: leave_local_def)

lemma books_step:
  assumes "herd_step ev s t" "herd_ok s"
  shows "books_ok t"
  using assms
proof (induction rule: herd_step.induct)
  case (enter s g key ttl wait)
  obtain e t where e: "enter_local g (set_guard g (\<lambda>_. new_guard key ttl wait) s) = (e, t)" by fastforce
  from enter lock_guards [of s g] have "h_entry (guards s g) = None" by (simp add: herd_ok_def)
  with enter have "books_ok (set_guard g (\<lambda>_. new_guard key ttl wait) s)" by (simp add: herd_ok_def books_reset new_guard_def)
  with books_enter [OF _ _ e] have "books_ok t" by (simp add: set_guard_def new_guard_def)
  then show ?case by (simp add: begin_guard_def Let_def e books_entry)
qed (auto simp: herd_ok_def wake_def connected_def try_remote_def cancel_queued_def leave_def release_local_def Let_def books_entry books_guard
    split: option.splits)

subsection \<open>The lock\<close>

lemma entry_okI: "holders t e \<subseteq> {g} \<Longrightarrow> locked (entries t e) = (holders t e \<noteq> {}) \<Longrightarrow>
    distinct (waiters (entries t e)) \<Longrightarrow> set (waiters (entries t e)) = queued t e \<Longrightarrow> entry_ok t e"
  by (auto simp: entry_ok_def)

lemma entry_cong:
  assumes "entries t e = entries s e" "holders t e = holders s e" "queued t e = queued s e"
  shows "entry_ok t e = entry_ok s e"
  using assms by (simp add: entry_ok_def)

lemma lock_goto:
  assumes "lock_ok s" "h_pc (guards s g) \<noteq> Queued" "p \<noteq> Queued"
    "guard_ok p (h_entry (guards s g) \<noteq> None) (h_local (guards s g))"
  shows "lock_ok (goto g p s)"
proof -
  have "holders (goto g p s) e = holders s e" "queued (goto g p s) e = queued s e" "entries (goto g p s) e = entries s e" for e
    using assms(2,3) by (auto simp: holders_def queued_def goto_def set_guard_def)
  then have "entry_ok (goto g p s) e = entry_ok s e" for e by (intro entry_cong)
  with assms show ?thesis by (simp add: lock_ok_def guards_ok_def goto_def set_guard_def)
qed

lemma lock_remote: "lock_ok (set_guard g (h_remote_update f) s) = lock_ok s"
proof -
  let ?t = "set_guard g (h_remote_update f) s"
  have "holders ?t e = holders s e" "queued ?t e = queued s e" "entries ?t e = entries s e" for e
    by (auto simp: holders_def queued_def set_guard_def)
  then have "entry_ok ?t e = entry_ok s e" for e by (intro entry_cong)
  moreover have "guards_ok ?t = guards_ok s" by (auto simp: guards_ok_def set_guard_def)
  ultimately show ?thesis by (simp add: lock_ok_def)
qed

text \<open>The first of the queue takes a free lock.\<close>

lemma lock_take:
  assumes ok: "lock_ok s" and e: "h_entry (guards s g) = Some e" and free: "\<not> locked (entries s e)"
    and q: "h_pc (guards s g) = Queued" "waiters (entries s e) = g # ws"
  shows "lock_ok (wake g e s)"
proof -
  let ?t = "wake g e s"
  have f: "guards ?t = (guards s)(g := guards s g\<lparr>h_local := True, h_pc := Connecting\<rparr>)"
    "entries ?t = (entries s)(e := entries s e\<lparr>waiters := ws, locked := True\<rparr>)"
    using q(2) by (simp_all add: wake_def take_lock_def goto_def set_guard_def set_entry_def)
  have old: "entry_ok s d" for d using ok by (simp add: lock_ok_def)
  have nobody: "holders s e = {}" using old [of e] free by (simp add: entry_ok_def)
  have line: "set (g # ws) = queued s e" "distinct (g # ws)" using old [of e] by (simp_all add: entry_ok_def q(2))
  have new: "holders ?t e = {g}" "queued ?t e = queued s e - {g}"
    using e nobody by (auto simp: holders_def queued_def f)
  have other: "holders ?t d = holders s d" "queued ?t d = queued s d" if "d \<noteq> e" for d
    using e that by (auto simp: holders_def queued_def f)
  have "entry_ok ?t d" for d
  proof (cases "d = e")
    case True
    with new line show ?thesis by (auto simp: entry_ok_def f)
  next
    case False
    with other [OF False] old [of d] show ?thesis by (simp add: entry_ok_def f)
  qed
  moreover have "guards_ok ?t" using ok e by (simp add: lock_ok_def guards_ok_def f)
  ultimately show ?thesis by (simp add: lock_ok_def)
qed

text \<open>A guard that is neither the holder nor in the queue leaves.\<close>

lemma lock_leave_local:
  assumes ok: "lock_ok s" and g: "\<not> h_local (guards s g)" "h_pc (guards s g) \<noteq> Queued"
  shows "lock_ok (goto g Left (leave_local g s))"
proof (cases "h_entry (guards s g)")
  case None
  with assms show ?thesis by (simp add: leave_local_def lock_goto)
next
  case (Some e)
  let ?t = "goto g Left (leave_local g s)"
  have f: "guards ?t = (guards s)(g := guards s g\<lparr>h_entry := None, h_pc := Left\<rparr>)"
    "entries ?t = (entries s)(e := entries s e\<lparr>users := users (entries s e) - 1\<rparr>)"
    using Some by (simp_all add: goto_def set_guard_def leave_local_fields)
  have "holders ?t d = holders s d" "queued ?t d = queued s d" for d
    using g by (auto simp: holders_def queued_def f)
  with ok have "entry_ok ?t d" for d by (simp add: lock_ok_def entry_ok_def f)
  moreover have "guards_ok ?t" using ok g by (simp add: lock_ok_def guards_ok_def f)
  ultimately show ?thesis by (simp add: lock_ok_def)
qed

text \<open>The holder lets go and leaves.\<close>

lemma lock_release:
  assumes ok: "lock_ok s" and g: "h_pc (guards s g) \<noteq> Queued"
  shows "lock_ok (release_local g s)"
proof (cases "h_local (guards s g)")
  case False
  then have "release_local g s = goto g Left (leave_local g s)" by (simp add: release_local_def Let_def split: option.split)
  with lock_leave_local [OF ok False g] show ?thesis by simp
next
  case True
  with ok guard_ok_entered lock_guards [OF ok, of g] obtain e where e: "h_entry (guards s g) = Some e" by auto
  let ?t = "release_local g s"
  define s2 where "s2 = set_entry e (locked_update (\<lambda>_. False)) (set_guard g (h_local_update (\<lambda>_. False)) s)"
  have t: "?t = goto g Left (leave_local g s2)" using True e by (simp add: release_local_def s2_def)
  have e2: "h_entry (guards s2 g) = Some e" using e by (simp add: set_guard_def set_entry_def s2_def)
  have s2: "guards s2 = (guards s)(g := guards s g\<lparr>h_local := False\<rparr>)"
    "entries s2 = (entries s)(e := entries s e\<lparr>locked := False\<rparr>)"
    by (simp_all add: set_guard_def set_entry_def s2_def)
  have f: "guards ?t = (guards s)(g := guards s g\<lparr>h_local := False, h_entry := None, h_pc := Left\<rparr>)"
    "entries ?t = (entries s)(e := entries s e\<lparr>locked := False, users := users (entries s e) - 1\<rparr>)"
    unfolding t by (simp_all add: goto_def set_guard_def leave_local_fields [OF e2]) (simp_all add: s2)
  have old: "entry_ok s d" for d using ok by (simp add: lock_ok_def)
  have "holders s e = {g}" using True e old [of e] by (auto simp: entry_ok_def holders_def)
  then have "holders ?t e = {}" by (auto simp: holders_def f)
  moreover have "holders ?t d = holders s d" if "d \<noteq> e" for d using e that by (auto simp: holders_def f)
  moreover have "queued ?t d = queued s d" for d using g by (auto simp: queued_def f)
  ultimately have "entry_ok ?t d" for d
    using old [of d] by (cases "d = e") (simp_all add: entry_ok_def f)
  moreover have "guards_ok ?t" using ok by (simp add: lock_ok_def guards_ok_def f)
  ultimately show ?thesis by (simp add: lock_ok_def)
qed

lemma lock_leave:
  assumes ok: "lock_ok s" and g: "h_pc (guards s g) \<noteq> Queued" "h_entry (guards s g) \<noteq> None"
  shows "lock_ok (leave g client s)"
proof -
  let ?s = "set_guard g (h_remote_update (\<lambda>_. False)) s"
  have "lock_ok ?s" using ok by (simp add: lock_remote)
  moreover have "guards ?s g = guards s g\<lparr>h_remote := False\<rparr>" by (simp add: set_guard_def)
  ultimately show ?thesis using ok g by (auto simp: leave_def Let_def intro!: lock_release lock_goto)
qed

text \<open>A guard leaves the queue.\<close>

lemma lock_cancel:
  assumes ok: "lock_ok s" and q: "h_pc (guards s g) = Queued"
  shows "lock_ok (cancel_queued g s)"
proof -
  have local: "\<not> h_local (guards s g)" and "h_entry (guards s g) \<noteq> None"
    using lock_guards [OF ok, of g] q by simp_all
  then obtain e where e: "h_entry (guards s g) = Some e" by auto
  let ?t = "cancel_queued g s"
  define s1 where "s1 = set_entry e (waiters_update (filter (\<lambda>w. w \<noteq> g))) s"
  have e1: "h_entry (guards s1 g) = Some e" using e by (simp add: s1_def set_entry_def)
  have t: "?t = goto g Left (leave_local g s1)" using e by (simp add: cancel_queued_def s1_def)
  have f: "guards ?t = (guards s)(g := guards s g\<lparr>h_entry := None, h_pc := Left\<rparr>)"
    "entries ?t = (entries s)(e := waiters_update (filter (\<lambda>w. w \<noteq> g)) (entries s e)\<lparr>users := users (entries s e) - 1\<rparr>)"
    unfolding t by (simp_all add: goto_def set_guard_def leave_local_fields [OF e1]) (simp_all add: s1_def set_entry_def)
  have old: "entry_ok s d" for d using ok by (simp add: lock_ok_def)
  have holders: "holders ?t d = holders s d" for d using local by (auto simp: holders_def f)
  have queued: "queued ?t d = queued s d - {g}" for d by (auto simp: queued_def f)
  have elsewhere: "g \<notin> queued s d" if "d \<noteq> e" for d using e that by (simp add: queued_def)
  have "entry_ok ?t d" for d
    using old [of d] elsewhere [of d] by (cases "d = e") (auto simp: entry_ok_def holders queued f)
  moreover have "guards_ok ?t" using ok local by (simp add: lock_ok_def guards_ok_def f)
  ultimately show ?thesis by (simp add: lock_ok_def)
qed

text \<open>A guard enters.\<close>

lemma begin_entry:
  assumes ok: "herd_ok s" and idle: "h_pc (guards s g) = Idle"
    and e: "enter_local g (set_guard g (\<lambda>_. new_guard key ttl wait) s) = (e, t)"
  shows "guards t = (guards s)(g := new_guard key ttl wait\<lparr>h_entry := Some e\<rparr>)"
    "\<And>d. d \<noteq> e \<Longrightarrow> entries t d = entries s d"
    "locked (entries t e) = (holders s e \<noteq> {})" "distinct (waiters (entries t e))" "set (waiters (entries t e)) = queued s e"
proof -
  let ?s0 = "set_guard g (\<lambda>_. new_guard key ttl wait) s"
  note f = enter_local_fields [OF e]
  have old: "entry_ok s d" for d using ok by (simp add: herd_ok_def lock_ok_def)
  have unused: "holders s (next_entry s) = {}" "queued s (next_entry s) = {}"
    using ok by (fastforce simp: herd_ok_def books_ok_def holders_def queued_def)+
  have s0: "guards ?s0 = (guards s)(g := new_guard key ttl wait)" "local_locks ?s0 = local_locks s"
    "next_entry ?s0 = next_entry s" "entries ?s0 = entries s" by (simp_all add: set_guard_def)
  show "guards t = (guards s)(g := new_guard key ttl wait\<lparr>h_entry := Some e\<rparr>)" by (simp add: f(1) s0)
  show "entries t d = entries s d" if "d \<noteq> e" for d using f(3) that by (auto simp: s0 split: option.splits)
  show "locked (entries t e) = (holders s e \<noteq> {})" "distinct (waiters (entries t e))" "set (waiters (entries t e)) = queued s e"
    using f(3) old [of e] unused by (auto simp: s0 entry_ok_def split: option.splits)
qed

lemma lock_begin:
  assumes ok: "herd_ok s" and idle: "h_pc (guards s g) = Idle"
  shows "lock_ok (begin_guard g key ttl wait s)"
proof -
  obtain e t where e: "enter_local g (set_guard g (\<lambda>_. new_guard key ttl wait) s) = (e, t)" by fastforce
  note b = begin_entry [OF ok idle e]
  let ?u = "begin_guard g key ttl wait s"
  define p where "p = (if \<not> wait \<and> locked (entries t e) then Body False
    else if \<not> locked (entries t e) \<and> waiters (entries t e) = [] then Connecting else Queued)"
  define x where "x = new_guard key ttl wait\<lparr>h_entry := Some e, h_pc := p, h_local := p = Connecting\<rparr>"
  define d' where "d' = (if p = Connecting then entries t e\<lparr>locked := True\<rparr>
    else if p = Queued then waiters_update (\<lambda>ws. ws @ [g]) (entries t e) else entries t e)"
  have begun: "?u = (if \<not> wait \<and> locked (entries t e) then goto g (Body False) t
      else if \<not> locked (entries t e) \<and> waiters (entries t e) = [] then take_lock g e t
      else goto g Queued (set_entry e (waiters_update (\<lambda>ws. ws @ [g])) t))"
    by (simp add: begin_guard_def Let_def e)
  have u: "guards ?u = (guards s)(g := x)" "entries ?u = (entries t)(e := d')"
    unfolding begun by (simp_all add: goto_def take_lock_def set_guard_def set_entry_def b(1) p_def x_def d'_def new_guard_def)
  have off: "h_entry (guards s g) = None" "\<not> h_local (guards s g)"
    using lock_guards [of s g] ok idle by (simp_all add: herd_ok_def)
  have holders: "holders ?u d = (if d = e \<and> p = Connecting then insert g (holders s d) else holders s d)" for d
    using off by (auto simp: holders_def u(1) x_def)
  have queued: "queued ?u d = (if d = e \<and> p = Queued then insert g (queued s d) else queued s d)" for d
    using off by (auto simp: queued_def u(1) x_def)
  have old: "entry_ok s d" for d using ok by (simp add: herd_ok_def lock_ok_def)
  have new: "g \<notin> queued s e" using off by (simp add: queued_def)
  have "entry_ok ?u d" for d
  proof (cases "d = e")
    case True
    have free: "p = Connecting \<Longrightarrow> holders s e = {}" using b(3) by (auto simp: p_def split: if_splits)
    then show ?thesis using old [of e] b(3-5) new True by (auto simp: entry_ok_def holders queued u(2) d'_def)
  next
    case False
    with old [of d] b(2) [OF False] show ?thesis by (simp add: entry_ok_def holders queued u(2))
  qed
  moreover have "guards_ok ?u"
  proof -
    have "guard_ok p True (p = Connecting)" by (simp add: p_def)
    with ok show ?thesis by (simp add: herd_ok_def lock_ok_def guards_ok_def u(1) x_def)
  qed
  ultimately show ?thesis by (simp add: lock_ok_def)
qed

lemma herd_step_ok:
  assumes "herd_step ev s t" "herd_ok s"
  shows "herd_ok t"
proof -
  have "lock_ok t"
    using assms
  proof (induction rule: herd_step.induct)
    case (reached s g reachable)
    then show ?case using lock_guards [of s g] by (auto simp: herd_ok_def connected_def intro!: lock_goto)
  next
    case (connecting_cancelled s g)
    then show ?case using lock_guards [of s g] by (auto simp: herd_ok_def intro!: lock_goto)
  next
    case (tried s g n got)
    then have g: "lock_ok s" "guard_ok (Trying n) (h_entry (guards s g) \<noteq> None) (h_local (guards s g))"
      using lock_guards [of s g] by (auto simp: herd_ok_def)
    then have "lock_ok (set_guard g (h_remote_update (\<lambda>_. True)) s)" by (simp add: lock_remote)
    then have "lock_ok (goto g (Body True) (set_guard g (h_remote_update (\<lambda>_. True)) s))"
      using tried g by (intro lock_goto) (simp_all add: set_guard_def)
    with g tried show ?case by (auto simp: try_remote_def intro!: lock_goto)
  next
    case (remote_failed s g n)
    then show ?case using lock_guards [of s g] by (auto simp: herd_ok_def intro!: lock_goto)
  next
    case (trying_cancelled s g n client)
    then show ?case using lock_guards [of s g] by (intro lock_leave) (auto simp: herd_ok_def)
  next
    case (left s g b client)
    then show ?case using lock_guards [of s g] by (intro lock_leave; cases b) (auto simp: herd_ok_def)
  next
    case (releasing_cancelled s g)
    then show ?case using lock_guards [of s g] by (auto simp: herd_ok_def intro!: lock_goto)
  qed (auto simp: herd_ok_def lock_begin lock_take lock_cancel lock_release intro: lock_begin [unfolded herd_ok_def])
  with books_step [OF assms] show ?thesis by (simp add: herd_ok_def)
qed

lemma herd_run_ok: "herd_run allow s t \<Longrightarrow> herd_ok s \<Longrightarrow> herd_ok t"
  by (induction rule: herd_run.induct) (auto dest: herd_step_ok)

subsection \<open>Mutual exclusion\<close>

text \<open>
  C12: two tasks never run the guarded work of one key at the same time. However the tasks of a
  process interleave, whatever the cache server answers and whoever is cancelled when, also while the
  release is awaited on the way out, at most one of the guards of a key is in the body of its
  \<open>async with\<close> having been told that it took the lock.
\<close>

theorem one_guard_per_key:
  assumes "herd_run (\<lambda>_. True) start s"
    and "h_pc (guards s g) = Body True" "h_pc (guards s h) = Body True" "h_key (guards s g) = h_key (guards s h)"
  shows "g = h"
proof -
  have ok: "herd_ok s" using herd_run_ok [OF assms(1) herd_ok_start] .
  from ok lock_guards [of s g] lock_guards [of s h] assms(2,3)
  obtain e d where e: "h_entry (guards s g) = Some e" "h_local (guards s g)" "h_entry (guards s h) = Some d" "h_local (guards s h)"
    by (auto simp: herd_ok_def)
  with ok assms(4) have "e = d" unfolding herd_ok_def books_ok_def by (metis option.inject)
  with e have "g \<in> holders s e" "h \<in> holders s e" by (simp_all add: holders_def)
  with ok show ?thesis unfolding herd_ok_def lock_ok_def entry_ok_def by blast
qed

subsection \<open>Work left\<close>

text \<open>What a step does to the guards: it moves one of them.\<close>

fun moved :: "event \<Rightarrow> nat" where
  "moved (Begin g key ttl wait) = g"
| "moved (Wake g) = g"
| "moved (CancelQueued g) = g"
| "moved (Connected g r) = g"
| "moved (CancelConnecting g) = g"
| "moved (Tried g got) = g"
| "moved (RemoteFailed g) = g"
| "moved (CancelTrying g client) = g"
| "moved (Leave g client) = g"
| "moved (Released g) = g"
| "moved (CancelReleasing g) = g"

lemma leave_local_others: "h \<noteq> g \<Longrightarrow> guards (leave_local g s) h = guards s h"
  by (cases "h_entry (guards s g)") (simp_all add: leave_local_def set_guard_def set_entry_def Let_def)

lemma leave_local_entry: "h_entry (guards (leave_local g s) g) = None"
  by (cases "h_entry (guards s g)") (simp_all add: leave_local_fields, simp add: leave_local_def)

lemma release_others: "h \<noteq> g \<Longrightarrow> guards (release_local g s) h = guards s h"
  by (simp add: release_local_def Let_def goto_def set_guard_def set_entry_def leave_local_others split: option.split)

lemma leave_others: "h \<noteq> g \<Longrightarrow> guards (leave g client s) h = guards s h"
  by (simp add: leave_def Let_def release_others goto_def set_guard_def)

lemma begin_others: "h \<noteq> g \<Longrightarrow> guards (begin_guard g key ttl wait s) h = guards s h"
  by (auto simp: begin_guard_def Let_def goto_def set_guard_def set_entry_def take_lock_def enter_local_def split: option.split)

lemma others_unmoved: "herd_step ev s t \<Longrightarrow> h \<noteq> moved ev \<Longrightarrow> guards t h = guards s h"
proof (induction rule: herd_step.induct)
  case (queued_cancelled s g)
  then show ?case
    by (simp add: cancel_queued_def goto_def set_guard_def leave_local_others split: option.split) (simp add: set_entry_def)
qed (simp_all add: begin_others leave_others release_others wake_def take_lock_def goto_def set_guard_def set_entry_def connected_def try_remote_def)

fun work_of :: "guard \<Rightarrow> nat" where
  "work_of x = (case h_pc x of Idle \<Rightarrow> 0 | Left \<Rightarrow> 0 | Releasing \<Rightarrow> 1 | Body b \<Rightarrow> 2 | Trying n \<Rightarrow> n + 3
     | Connecting \<Rightarrow> attempts x + 4 | Queued \<Rightarrow> attempts x + 5)"

definition busy :: "herd \<Rightarrow> nat set" where
  "busy s = {g. work_of (guards s g) \<noteq> 0}"

definition work :: "herd \<Rightarrow> nat" where
  "work s = (\<Sum>g \<in> busy s. work_of (guards s g))"

lemma attempts_cong [simp]: "attempts (x\<lparr>h_pc := p\<rparr>) = attempts x" "attempts (x\<lparr>h_local := b\<rparr>) = attempts x"
  by (simp_all add: attempts_def)

lemma pc_after_leave: "h_pc (guards (goto g Left u) g) = Left"
  by (simp add: goto_def set_guard_def)

lemma pc_after_release: "h_pc (guards (release_local g s) g) = Left"
  by (simp add: release_local_def Let_def pc_after_leave)

lemma pc_after_exit: "h_pc (guards (leave g client s) g) \<in> {Releasing, Left}"
  by (simp add: leave_def Let_def pc_after_release) (simp add: goto_def set_guard_def)

lemma step_works: "herd_step ev s t \<Longrightarrow> herd_ok s \<Longrightarrow> \<nexists>g key ttl wait. ev = Begin g key ttl wait \<Longrightarrow>
    work_of (guards t (moved ev)) < work_of (guards s (moved ev))"
proof (induction rule: herd_step.induct)
  case (queued_cancelled s g)
  then show ?case using lock_guards [of s g]
    by (cases "h_entry (guards s g)") (auto simp: cancel_queued_def pc_after_leave herd_ok_def)
next
  case (trying_cancelled s g n client)
  then show ?case using pc_after_exit [where client = client and s = s and g = g] by auto
next
  case (left s g b client)
  then show ?case using pc_after_exit [where client = client and s = s and g = g] by auto
qed (auto simp: pc_after_release wake_def take_lock_def goto_def set_guard_def set_entry_def connected_def try_remote_def)

lemma busy_step: "herd_step ev s t \<Longrightarrow> busy t \<subseteq> insert (moved ev) (busy s)"
  using others_unmoved by (fastforce simp: busy_def simp del: work_of.simps)

lemma busy_finite: "herd_run allow s t \<Longrightarrow> finite (busy s) \<Longrightarrow> finite (busy t)"
  by (induction rule: herd_run.induct) (auto dest: busy_step intro: finite_subset)

lemma busy_start: "busy start = {}"
  by (simp add: busy_def start_def no_guard_def)

lemma work_over: "finite A \<Longrightarrow> busy s \<subseteq> A \<Longrightarrow> work s = (\<Sum>g \<in> A. work_of (guards s g))"
  unfolding work_def by (rule sum.mono_neutral_left) (auto simp: busy_def)

text \<open>
  C31: a herd of guards comes to an end. Every step of a guard that is already there -- taking the
  lock, a round of the bounded loop over the cache server, leaving the body, coming back from the
  release script, being cancelled at any of its awaits -- leaves strictly less work, so with no new
  arrivals only so many steps can follow.
\<close>

theorem guard_work_decreases:
  assumes "herd_run (\<lambda>_. True) start s" "herd_step ev s t" "case ev of Begin g key ttl wait \<Rightarrow> False | _ \<Rightarrow> True"
  shows "work t < work s"
proof -
  let ?g = "moved ev"
  have new: "\<nexists>g key ttl wait. ev = Begin g key ttl wait" using assms(3) by auto
  have fin: "finite (busy s)" using busy_finite [OF assms(1)] by (simp add: busy_start)
  have less: "work_of (guards t ?g) < work_of (guards s ?g)" using step_works [OF assms(2) _ new] herd_run_ok [OF assms(1) herd_ok_start] .
  then have g: "?g \<in> busy s" by (simp add: busy_def del: work_of.simps)
  with busy_step [OF assms(2)] have "work t = (\<Sum>h \<in> busy s. work_of (guards t h))" using fin by (intro work_over) auto
  also have "\<dots> < (\<Sum>h \<in> busy s. work_of (guards s h))"
  proof (rule sum_strict_mono_ex1 [OF fin])
    show "\<forall>h \<in> busy s. work_of (guards t h) \<le> work_of (guards s h)"
      using less others_unmoved [OF assms(2)] by (metis less_imp_le_nat order_refl)
    show "\<exists>h \<in> busy s. work_of (guards t h) < work_of (guards s h)" using g less by blast
  qed
  finally show ?thesis by (simp add: work_def)
qed

subsection \<open>Nobody is forgotten\<close>

definition settled :: "herd \<Rightarrow> bool" where
  "settled s \<longleftrightarrow> (\<forall>g. h_pc (guards s g) = Left \<longrightarrow> h_entry (guards s g) = None)"

lemma left_without_entry: "h_entry (guards (goto g Left (leave_local g u)) g) = None"
  by (simp add: goto_def set_guard_def leave_local_entry)

lemma release_without_entry: "h_entry (guards (release_local g s) g) = None"
  by (simp add: release_local_def Let_def left_without_entry)

lemma exit_without_entry: "h_pc (guards (leave g client s) g) = Left \<longrightarrow> h_entry (guards (leave g client s) g) = None"
  by (simp add: leave_def Let_def release_without_entry) (simp add: goto_def set_guard_def)

lemma settled_step:
  assumes "herd_step ev s t" "herd_ok s" "settled s" "\<not> cut_short ev"
  shows "settled t"
proof -
  have "h_pc (guards t (moved ev)) = Left \<longrightarrow> h_entry (guards t (moved ev)) = None"
    using assms
  proof (induction rule: herd_step.induct)
    case (enter s g key ttl wait)
    obtain e u where e: "enter_local g (set_guard g (\<lambda>_. new_guard key ttl wait) s) = (e, u)" by fastforce
    then show ?case by (auto simp: begin_guard_def Let_def take_lock_def goto_def set_guard_def set_entry_def)
  next
    case (queued_cancelled s g)
    then show ?case using lock_guards [of s g]
      by (cases "h_entry (guards s g)") (auto simp: cancel_queued_def left_without_entry herd_ok_def)
  next
    case (trying_cancelled s g n client)
    then show ?case by (simp add: exit_without_entry)
  next
    case (left s g b client)
    then show ?case by (simp add: exit_without_entry)
  qed (auto simp: release_without_entry wake_def take_lock_def goto_def set_guard_def set_entry_def connected_def try_remote_def)
  with assms(1,3) others_unmoved show ?thesis by (metis settled_def)
qed

lemma settled_run: "herd_run (\<lambda>ev. \<not> cut_short ev) s t \<Longrightarrow> herd_ok s \<Longrightarrow> settled s \<Longrightarrow> herd_ok t \<and> settled t"
  by (induction rule: herd_run.induct) (auto dest: settled_step herd_step_ok)

lemma settled_start: "settled start"
  by (simp add: settled_def start_def no_guard_def)

text \<open>
  C23: no lock is left behind. When every task that entered has left, and none was cancelled inside
  \<open>ensure_redis\<close> or while the release script was awaited, the map of locks is empty again: an entry
  lives exactly as long as somebody holds or awaits it. The two exceptions do leave their lock behind
  (\<open>cancelled_connecting_leaks\<close>, \<open>cancelled_release_leaks\<close>).
\<close>

theorem no_lock_left_behind:
  assumes "herd_run (\<lambda>ev. \<not> cut_short ev) start s"
    and "\<And>g. h_pc (guards s g) = Idle \<or> h_pc (guards s g) = Left"
  shows "local_locks s = (\<lambda>_. None)"
proof (rule ext, rule ccontr)
  fix k assume "local_locks s k \<noteq> None"
  then obtain e where "local_locks s k = Some e" by auto
  moreover note ok = settled_run [OF assms(1) herd_ok_start settled_start]
  ultimately obtain g where g: "h_entry (guards s g) = Some e"
    unfolding herd_ok_def books_ok_def refs_def by blast
  with ok assms(2) [of g] lock_guards [of s g] show False by (auto simp: herd_ok_def settled_def)
qed

text \<open>
  C21: somebody can always go on. While a task that entered has not left, and none was cancelled
  inside \<open>ensure_redis\<close> or while the release script was awaited, some task can take its next step
  without waiting for anything but the scheduler and the cache server: no guard waits for a lock that
  nobody will release.
\<close>

theorem guards_never_deadlock:
  assumes "herd_run (\<lambda>ev. \<not> cut_short ev) start s"
    and "h_pc (guards s g) \<noteq> Idle" "h_pc (guards s g) \<noteq> Left"
  shows "\<exists>h t ev. ev \<in> {Wake h, Connected h False, Tried h False, Leave h False, Released h} \<and> herd_step ev s t"
proof -
  note ok = settled_run [OF assms(1) herd_ok_start settled_start]
  have moves: "\<exists>h t ev. ev \<in> {Wake h, Connected h False, Tried h False, Leave h False, Released h} \<and> herd_step ev s t"
    if "h_pc (guards s h) \<notin> {Idle, Queued, Left}" for h
    using that by (cases "h_pc (guards s h)") (auto intro: herd_step.intros)
  show ?thesis
  proof (cases "h_pc (guards s g) = Queued")
    case False
    with assms(2,3) moves [of g] show ?thesis by simp
  next
    case True
    with ok lock_guards [of s g] obtain e where e: "h_entry (guards s g) = Some e" by (auto simp: herd_ok_def)
    have entry: "entry_ok s e" using ok by (simp add: herd_ok_def lock_ok_def)
    show ?thesis
    proof (cases "locked (entries s e)")
      case True
      with entry obtain h where h: "h_local (guards s h)" "h_entry (guards s h) = Some e" by (auto simp: entry_ok_def holders_def)
      with ok lock_guards [of s h] have "h_pc (guards s h) \<notin> {Idle, Queued, Left}" by (auto simp: herd_ok_def settled_def)
      with moves show ?thesis by blast
    next
      case False
      with entry True e have "g \<in> set (waiters (entries s e))" by (simp add: entry_ok_def queued_def)
      then obtain h ws where w: "waiters (entries s e) = h # ws" by (cases "waiters (entries s e)") auto
      with entry have "h \<in> queued s e" by (metis entry_ok_def list.set_intros(1))
      with False w have "herd_step (Wake h) s (wake h e s)" by (intro woken) (simp_all add: queued_def)
      then show ?thesis by blast
    qed
  qed
qed

subsection \<open>Runs\<close>

text \<open>Two tasks want one package; the cache is down.\<close>

definition two_tasks :: herd where
  "two_tasks = connected 0 False (begin_guard 2 ''fetch'' 30 True (begin_guard 0 ''fetch'' 30 True start))"

definition both_done :: herd where
  "both_done = leave 2 False (connected 2 False (wake 2 0 (leave 0 False two_tasks)))"

lemmas herd_defs = begin_guard_def new_guard_def enter_local_def leave_local_def take_lock_def goto_def set_guard_def
  set_entry_def connected_def leave_def release_local_def wake_def start_def no_guard_def Let_def

lemma two_tasks_state: "guards two_tasks 0 = \<lparr>h_key = ''lock:fetch'', h_wait = True, h_ttl = 30, h_pc = Body True, h_entry = Some 0, h_local = True, h_remote = False\<rparr>"
  "guards two_tasks 2 = \<lparr>h_key = ''lock:fetch'', h_wait = True, h_ttl = 30, h_pc = Queued, h_entry = Some 0, h_local = False, h_remote = False\<rparr>"
  "g \<noteq> 0 \<Longrightarrow> g \<noteq> 2 \<Longrightarrow> h_pc (guards two_tasks g) = Idle"
  "entries two_tasks 0 = \<lparr>locked = True, waiters = [2], users = 2\<rparr>"
  by (simp_all add: two_tasks_def herd_defs)

lemma calm_step: "herd_run (\<lambda>ev. \<not> cut_short ev) s t \<Longrightarrow> herd_step ev t u \<Longrightarrow> \<not> cut_short ev \<Longrightarrow>
    herd_run (\<lambda>ev. \<not> cut_short ev) s u"
  by (rule herd_run.step)

lemma two_tasks_run: "herd_run (\<lambda>ev. \<not> cut_short ev) start two_tasks"
proof -
  let ?s1 = "begin_guard 0 ''fetch'' 30 True start" and ?s2 = "begin_guard 2 ''fetch'' 30 True (begin_guard 0 ''fetch'' 30 True start)"
  have 1: "herd_step (Begin 0 ''fetch'' 30 True) start ?s1" by (rule enter) (simp add: start_def no_guard_def)
  have 2: "herd_step (Begin 2 ''fetch'' 30 True) ?s1 ?s2" by (rule enter) (simp add: herd_defs)
  have 3: "herd_step (Connected 0 False) ?s2 two_tasks" unfolding two_tasks_def by (rule reached) (simp add: herd_defs)
  show ?thesis using calm_step [OF calm_step [OF calm_step [OF herd_run.refl 1] 2] 3] by simp
qed

lemma both_done_run: "herd_run (\<lambda>ev. \<not> cut_short ev) start both_done"
proof -
  let ?s1 = "leave 0 False two_tasks" and ?s2 = "wake 2 0 (leave 0 False two_tasks)" and ?s3 = "connected 2 False (wake 2 0 (leave 0 False two_tasks))"
  have 1: "herd_step (Leave 0 False) two_tasks ?s1" by (rule left) (simp add: two_tasks_state)
  have 2: "herd_step (Wake 2) ?s1 ?s2"
    by (rule woken [where ws = "[]"]) (simp_all add: two_tasks_def herd_defs)
  have 3: "herd_step (Connected 2 False) ?s2 ?s3" by (rule reached) (simp add: two_tasks_def herd_defs)
  have 4: "herd_step (Leave 2 False) ?s3 both_done" unfolding both_done_def by (rule left) (simp add: two_tasks_def herd_defs)
  show ?thesis using calm_step [OF calm_step [OF calm_step [OF calm_step [OF two_tasks_run 1] 2] 3] 4] by simp
qed

lemma herd_run_mono: "herd_run p s t \<Longrightarrow> (\<And>ev. p ev \<Longrightarrow> q ev) \<Longrightarrow> herd_run q s t"
  by (induction rule: herd_run.induct) (auto intro: herd_run.intros)

theorem one_guard_per_key_witness:
  "{g. h_pc (guards two_tasks g) = Body True \<and> h_key (guards two_tasks g) = ''lock:fetch''} = {0}"
  using one_guard_per_key [OF herd_run_mono [OF two_tasks_run], of 0] by (auto simp: two_tasks_state)

theorem guard_work_decreases_witness: "work (leave 0 False two_tasks) < work two_tasks"
  by (rule guard_work_decreases [OF herd_run_mono [OF two_tasks_run], where ev = "Leave 0 False"])
    (auto intro!: left simp: two_tasks_state)

theorem no_lock_left_behind_witness: "local_locks both_done = (\<lambda>_. None)"
  by (rule no_lock_left_behind [OF both_done_run]) (auto simp: both_done_def two_tasks_def herd_defs)

theorem guards_never_deadlock_witness: "\<exists>h t ev. ev \<in> {Wake h, Connected h False, Tried h False, Leave h False, Released h} \<and> herd_step ev two_tasks t"
  by (rule guards_never_deadlock [OF two_tasks_run, where g = 2]) (simp_all add: two_tasks_state)

subsection \<open>A cancellation that leaks the lock\<close>

text \<open>
  A task cancelled inside \<open>ensure_redis\<close>, or in \<open>__aexit__\<close> while it awaits the release script, keeps
  its entry locked for ever: whatever happens next, no guard of that key gets into its body again.
\<close>

lemma left_stays: "herd_run allow s t \<Longrightarrow> h_pc (guards s g) = Left \<Longrightarrow> guards t g = guards s g"
proof (induction rule: herd_run.induct)
  case (step s t ev u)
  then have "g \<noteq> moved ev" by (auto elim: herd_step.cases)
  with step show ?case by (simp add: others_unmoved)
qed simp

lemma leaked_lock_blocks:
  assumes "herd_run (\<lambda>_. True) start s" "h_pc (guards s g) = Left" "h_local (guards s g)"
    "herd_run (\<lambda>_. True) s t" "h_key (guards t h) = h_key (guards s g)"
  shows "h_pc (guards t h) \<noteq> Body True"
proof
  assume body: "h_pc (guards t h) = Body True"
  have ok: "herd_ok t" using herd_run_ok [OF assms(4) herd_run_ok [OF assms(1) herd_ok_start]] .
  have g: "guards t g = guards s g" using left_stays [OF assms(4,2)] .
  from ok lock_guards [of t g] lock_guards [of t h] body assms(2,3)
  obtain e d where e: "h_entry (guards t g) = Some e" "h_entry (guards t h) = Some d" "h_local (guards t h)"
    by (auto simp: herd_ok_def g)
  with ok assms(5) have "e = d" unfolding herd_ok_def books_ok_def by (metis g option.inject)
  with e assms(3) have "g \<in> holders t e" "h \<in> holders t e" by (simp_all add: holders_def g)
  with ok have "g = h" unfolding herd_ok_def lock_ok_def entry_ok_def by blast
  with body assms(2) g show False by simp
qed

lemma cancelled_connecting_leaks:
  "\<exists>s. herd_run (\<lambda>_. True) start s \<and> h_pc (guards s 0) = Left \<and> h_local (guards s 0) \<and> h_key (guards s 0) = ''lock:fetch''"
proof -
  let ?s1 = "begin_guard 0 ''fetch'' 30 True start"
  have 1: "herd_step (Begin 0 ''fetch'' 30 True) start ?s1" by (rule enter) (simp add: start_def no_guard_def)
  have 2: "herd_step (CancelConnecting 0) ?s1 (goto 0 Left ?s1)" by (rule connecting_cancelled) (simp add: herd_defs)
  have "herd_run (\<lambda>_. True) start (goto 0 Left ?s1)" using herd_run.step [OF herd_run.step [OF herd_run.refl 1] 2] by simp
  moreover have "h_pc (guards (goto 0 Left ?s1) 0) = Left \<and> h_local (guards (goto 0 Left ?s1) 0) \<and> h_key (guards (goto 0 Left ?s1) 0) = ''lock:fetch''"
    by (simp add: herd_defs)
  ultimately show ?thesis by blast
qed

lemma cancelled_release_leaks:
  "\<exists>r s. herd_run (\<lambda>_. True) start r \<and> herd_step (CancelReleasing 0) r s \<and>
    h_pc (guards s 0) = Left \<and> h_local (guards s 0) \<and> h_key (guards s 0) = ''lock:fetch''"
proof -
  let ?s1 = "begin_guard 0 ''fetch'' 30 True start"
  let ?s2 = "connected 0 True ?s1"
  let ?s3 = "try_remote 0 300 True ?s2"
  let ?s4 = "leave 0 True ?s3"
  note d = herd_defs attempts_def try_remote_def
  have 1: "herd_step (Begin 0 ''fetch'' 30 True) start ?s1" by (rule enter) (simp add: start_def no_guard_def)
  have 2: "herd_step (Connected 0 True) ?s1 ?s2" by (rule reached) (simp add: herd_defs)
  have 3: "herd_step (Tried 0 True) ?s2 ?s3" by (rule tried) (simp add: d)
  have 4: "herd_step (Leave 0 True) ?s3 ?s4" by (rule left [where b = True]) (simp add: d)
  have 5: "herd_step (CancelReleasing 0) ?s4 (goto 0 Left ?s4)" by (rule releasing_cancelled) (simp add: d)
  have "herd_run (\<lambda>_. True) start ?s4"
    using herd_run.step [OF herd_run.step [OF herd_run.step [OF herd_run.step [OF herd_run.refl 1] 2] 3] 4] by simp
  moreover have "h_pc (guards (goto 0 Left ?s4) 0) = Left \<and> h_local (guards (goto 0 Left ?s4) 0) \<and>
      h_key (guards (goto 0 Left ?s4) 0) = ''lock:fetch''" by (simp add: d)
  ultimately show ?thesis using 5 by blast
qed

end
