(* ===== verification/Cache.thy ===== *)
theory Cache
  imports Complex_Main Py_Json
begin

section \<open>The shared cache and its circuit breaker (\<open>core/cache.py\<close>)\<close>

text \<open>
  The process keeps one client of the cache server and a circuit breaker in front of it. A client is
  known by a number (the code compares clients by identity), the monotonic clock is a real number of
  seconds, and what the server does is an argument of every operation: \<open>conn\<close> is the number of the
  client \<open>from_url\<close> would return and whether it answers the first ping, a \<open>reply\<close> is the answer of
  one command or the exception it raised. Every operation returns the commands it sent.
\<close>

record breaker =
  br_client :: "nat option"
  br_backoff :: real
  br_down_until :: real
  br_tripped :: "nat option"

datatype 'a reply = Answer 'a | Unreachable

datatype command =
    Ping
  | Get string
  | SetEx string string int
  | Del "string list"
  | Scan string int

definition boot :: breaker where
  "boot = \<lparr>br_client = None, br_backoff = 0, br_down_until = 0, br_tripped = None\<rparr>"

definition BREAKER_MIN :: real where "BREAKER_MIN = 2"

definition BREAKER_MAX :: real where "BREAKER_MAX = 30"

subsection \<open>The breaker\<close>

definition trip :: "real \<Rightarrow> breaker \<Rightarrow> breaker" where
  "trip now b = (let d = min (max (br_backoff b * 2) BREAKER_MIN) BREAKER_MAX in
     b\<lparr>br_backoff := d, br_down_until := now + d, br_tripped := br_client b\<rparr>)"

definition healthy :: "breaker \<Rightarrow> breaker" where
  "healthy b = (if br_backoff b \<noteq> 0 then b\<lparr>br_backoff := 0, br_down_until := 0, br_tripped := None\<rparr> else b)"

definition tripped :: "real \<Rightarrow> breaker \<Rightarrow> bool" where
  "tripped now b = (br_tripped b = br_client b \<and> now < br_down_until b)"

definition init_redis :: "nat \<times> bool \<Rightarrow> real \<Rightarrow> breaker \<Rightarrow> breaker \<times> nat option" where
  "init_redis conn now b = (case conn of
     (c, True) \<Rightarrow> (healthy (b\<lparr>br_client := Some c\<rparr>), Some c)
   | (c, False) \<Rightarrow> (trip now (b\<lparr>br_client := None\<rparr>), None))"

definition ensure_redis :: "nat \<times> bool \<Rightarrow> real \<Rightarrow> breaker \<Rightarrow> command list \<times> breaker \<times> nat option" where
  "ensure_redis conn now b = (case br_client b of
     Some c \<Rightarrow> ([], b, if tripped now b then None else Some c)
   | None \<Rightarrow> if now < br_down_until b then ([], b, None) else ([Ping], init_redis conn now b))"

definition close_redis :: "breaker \<Rightarrow> breaker" where
  "close_redis b = b\<lparr>br_client := None\<rparr>"

definition redis_client :: "real \<Rightarrow> breaker \<Rightarrow> nat option" where
  "redis_client now b = (if br_client b = None \<or> tripped now b then None else br_client b)"

subsection \<open>Cached documents\<close>

text \<open>\<open>loads\<close> is \<open>orjson.loads\<close>; \<open>JNull\<close> stands for Python's \<open>None\<close>, the "no cache" answer.\<close>

definition cache_get_json ::
  "(string \<Rightarrow> json option) \<Rightarrow> nat \<times> bool \<Rightarrow> real \<Rightarrow> string option reply \<Rightarrow> string \<Rightarrow> breaker \<Rightarrow> command list \<times> breaker \<times> json" where
  "cache_get_json loads conn now reply key b = (case ensure_redis conn now b of
     (sent, b1, None) \<Rightarrow> (sent, b1, JNull)
   | (sent, b1, Some c) \<Rightarrow> (sent @ [Get key], (case reply of
         Unreachable \<Rightarrow> (trip now b1, JNull)
       | Answer raw \<Rightarrow> (healthy b1, (case raw of
             None \<Rightarrow> JNull
           | Some t \<Rightarrow> (case loads t of None \<Rightarrow> JNull | Some j \<Rightarrow> j))))))"

definition one_command :: "command \<Rightarrow> nat \<times> bool \<Rightarrow> real \<Rightarrow> unit reply \<Rightarrow> breaker \<Rightarrow> command list \<times> breaker" where
  "one_command cmd conn now reply b = (case ensure_redis conn now b of
     (sent, b1, None) \<Rightarrow> (sent, b1)
   | (sent, b1, Some c) \<Rightarrow> (sent @ [cmd], (case reply of Unreachable \<Rightarrow> trip now b1 | Answer _ \<Rightarrow> b1)))"

definition cache_set_json ::
  "(json \<Rightarrow> string) \<Rightarrow> nat \<times> bool \<Rightarrow> real \<Rightarrow> unit reply \<Rightarrow> string \<Rightarrow> json \<Rightarrow> int \<Rightarrow> breaker \<Rightarrow> command list \<times> breaker" where
  "cache_set_json dumps conn now reply key j ttl b = one_command (SetEx key (dumps j) ttl) conn now reply b"

definition cache_delete :: "nat \<times> bool \<Rightarrow> real \<Rightarrow> unit reply \<Rightarrow> string list \<Rightarrow> breaker \<Rightarrow> command list \<times> breaker" where
  "cache_delete conn now reply ks b = (if ks = [] then ([], b) else one_command (Del ks) conn now reply b)"

text \<open>
  One round of the \<open>SCAN\<close> loop per element of the list: the reply to the scan (the next cursor and
  the keys of the batch) and the reply to the delete of that batch.
\<close>

fun delete_batches :: "string \<Rightarrow> int \<Rightarrow> real \<Rightarrow> ((int \<times> string list) reply \<times> unit reply) list \<Rightarrow> breaker \<Rightarrow> command list \<times> breaker" where
  "delete_batches prefix cursor now [] b = ([], b)"
| "delete_batches prefix cursor now ((scan, del) # rounds) b = (case scan of
     Unreachable \<Rightarrow> ([Scan (prefix @ ''*'') cursor], trip now b)
   | Answer (cursor', ks) \<Rightarrow>
       if ks \<noteq> [] \<and> del = Unreachable then ([Scan (prefix @ ''*'') cursor, Del ks], trip now b)
       else (let (more, b1) = (if cursor' = 0 then ([], b) else delete_batches prefix cursor' now rounds b)
         in (Scan (prefix @ ''*'') cursor # (if ks = [] then [] else [Del ks]) @ more, b1)))"

definition cache_delete_prefix ::
  "nat \<times> bool \<Rightarrow> real \<Rightarrow> ((int \<times> string list) reply \<times> unit reply) list \<Rightarrow> string \<Rightarrow> breaker \<Rightarrow> command list \<times> breaker" where
  "cache_delete_prefix conn now rounds prefix b = (case ensure_redis conn now b of
     (sent, b1, None) \<Rightarrow> (sent, b1)
   | (sent, b1, Some c) \<Rightarrow> (let (more, b2) = delete_batches prefix 0 now rounds b1 in (sent @ more, b2)))"

text \<open>The byte cache asks the client without the breaker, and an error of it is not counted.\<close>

definition cache_get_bytes :: "string option reply \<Rightarrow> string \<Rightarrow> breaker \<Rightarrow> command list \<times> string option" where
  "cache_get_bytes reply key b = (if br_client b = None then ([], None)
     else ([Get key], case reply of Unreachable \<Rightarrow> None | Answer raw \<Rightarrow> raw))"

definition cache_set_bytes :: "string \<Rightarrow> string \<Rightarrow> int \<Rightarrow> breaker \<Rightarrow> command list" where
  "cache_set_bytes key val ttl b = (if br_client b = None then [] else [SetEx key val ttl])"

subsection \<open>Leases\<close>

text \<open>
  The two scripts run on the server, over its \<open>get\<close>, \<open>del\<close> and \<open>expire\<close>; they return its state and
  whether they did anything.
\<close>

definition release_script ::
  "('s \<Rightarrow> string \<Rightarrow> string option) \<Rightarrow> (string \<Rightarrow> 's \<Rightarrow> 's) \<Rightarrow> string \<Rightarrow> string \<Rightarrow> 's \<Rightarrow> 's \<times> bool" where
  "release_script get del key tok s = (if get s key = Some tok then (del key s, True) else (s, False))"

definition renew_script ::
  "('s \<Rightarrow> string \<Rightarrow> string option) \<Rightarrow> (string \<Rightarrow> int \<Rightarrow> 's \<Rightarrow> 's) \<Rightarrow> string \<Rightarrow> string \<Rightarrow> int \<Rightarrow> 's \<Rightarrow> 's \<times> bool" where
  "renew_script get expire key tok ttl s = (if get s key = Some tok then (expire key ttl s, True) else (s, False))"

record lease =
  l_key :: string
  l_ttl :: int
  l_token :: string
  l_held :: bool
  l_remote :: bool
  l_renewing :: bool

definition new_lease :: "string \<Rightarrow> int \<Rightarrow> string \<Rightarrow> lease" where
  "new_lease key ttl tok = \<lparr>l_key = ''lock:'' @ key, l_ttl = ttl, l_token = tok,
     l_held = False, l_remote = False, l_renewing = False\<rparr>"

text \<open>\<open>reply\<close> is the answer to \<open>SET key token NX EX ttl\<close>.\<close>

definition lease_acquire ::
  "nat \<times> bool \<Rightarrow> real \<Rightarrow> bool reply \<Rightarrow> breaker \<times> lease \<Rightarrow> (breaker \<times> lease) \<times> bool" where
  "lease_acquire conn now reply st = (case st of (b, l) \<Rightarrow> (case ensure_redis conn now b of
     (_, b1, None) \<Rightarrow> ((b1, l\<lparr>l_held := True\<rparr>), True)
   | (_, b1, Some c) \<Rightarrow> (case reply of
         Unreachable \<Rightarrow> ((trip now b1, l\<lparr>l_held := True\<rparr>), True)
       | Answer got \<Rightarrow> ((b1, l\<lparr>l_held := got, l_remote := got, l_renewing := got \<or> l_renewing l\<rparr>), got))))"

definition lease_renew :: "real \<Rightarrow> bool reply \<Rightarrow> breaker \<times> lease \<Rightarrow> breaker \<times> bool" where
  "lease_renew now reply st = (case st of (b, l) \<Rightarrow>
     if redis_client now b = None \<or> \<not> l_remote l then (b, True)
     else (case reply of Unreachable \<Rightarrow> (trip now b, True) | Answer kept \<Rightarrow> (b, kept)))"

definition renew_interval :: "lease \<Rightarrow> real" where
  "renew_interval l = max (5 / 100) (real_of_int (l_ttl l) / 3)"

text \<open>Releasing stops the renewer; the script is sent while the server is believed reachable.\<close>

definition lease_release :: "real \<Rightarrow> breaker \<times> lease \<Rightarrow> lease \<times> bool" where
  "lease_release now st = (case st of (b, l) \<Rightarrow>
     (l\<lparr>l_held := False, l_remote := False, l_renewing := False\<rparr>, l_remote l \<and> redis_client now b \<noteq> None))"

definition lease_is_free :: "nat \<times> bool \<Rightarrow> real \<Rightarrow> bool reply \<Rightarrow> breaker \<Rightarrow> breaker \<times> bool" where
  "lease_is_free conn now reply b = (case ensure_redis conn now b of
     (_, b1, None) \<Rightarrow> (b1, True)
   | (_, b1, Some c) \<Rightarrow> (case reply of Unreachable \<Rightarrow> (trip now b1, True) | Answer found \<Rightarrow> (b1, \<not> found)))"

end
