(* ===== verification/Cache_Spec.thy ===== *)
theory Cache_Spec
  imports Cache
begin

section \<open>What the circuit breaker guarantees\<close>

text \<open>
  A run of lookups at the times \<open>ts\<close> while the server is down: every command and every connect fails.
  The result is the times at which the network was touched at all.
\<close>

fun outage :: "(string \<Rightarrow> json option) \<Rightarrow> string \<Rightarrow> nat \<Rightarrow> real list \<Rightarrow> breaker \<Rightarrow> real list" where
  "outage loads key c [] b = []"
| "outage loads key c (t # ts) b = (case cache_get_json loads (c, False) t Unreachable key b of
     (sent, b', _) \<Rightarrow> if sent = [] then outage loads key c ts b' else t # outage loads key c ts b')"

text \<open>What the same lookups answer.\<close>

fun outage_answers :: "(string \<Rightarrow> json option) \<Rightarrow> string \<Rightarrow> nat \<Rightarrow> real list \<Rightarrow> breaker \<Rightarrow> json list" where
  "outage_answers loads key c [] b = []"
| "outage_answers loads key c (t # ts) b = (case cache_get_json loads (c, False) t Unreachable key b of
     (_, b', answer) \<Rightarrow> answer # outage_answers loads key c ts b')"

text \<open>The backoff after so many failures in a row.\<close>

definition backoff_after :: "nat \<Rightarrow> real" where
  "backoff_after n = (if n = 0 then 0 else min (2 ^ n) BREAKER_MAX)"

lemma backoff_next: "min (max (backoff_after n * 2) BREAKER_MIN) BREAKER_MAX = backoff_after (Suc n)"
proof (cases n)
  case (Suc m)
  have "max (min (2 * x) 30 * 2) 2 = min (2 * x) 30 * 2" if "1 \<le> x" for x :: real
    using that by (auto simp: max_def min_def)
  from this [of "2 ^ m"] have "max (min (2 ^ Suc m) 30 * 2) 2 = (min (2 ^ Suc m) 30 * 2 :: real)" by simp
  moreover have "min (min (2 ^ Suc m) 30 * 2) 30 = (min (2 ^ Suc (Suc m)) 30 :: real)" by (simp add: min_def)
  ultimately show ?thesis by (simp add: backoff_after_def BREAKER_MIN_def BREAKER_MAX_def Suc)
qed (simp add: backoff_after_def BREAKER_MIN_def BREAKER_MAX_def)

lemma failed_lookup:
  assumes "cache_get_json loads (c, False) t Unreachable key b = (sent, b', r)"
  shows "r = JNull" "sent = [] \<Longrightarrow> b' = b"
    "sent \<noteq> [] \<Longrightarrow> br_tripped b' = br_client b' \<and> br_down_until b' = t + br_backoff b' \<and>
       br_backoff b' = min (max (br_backoff b * 2) BREAKER_MIN) BREAKER_MAX"
    "sent \<noteq> [] \<Longrightarrow> br_tripped b = br_client b \<Longrightarrow> br_down_until b \<le> t"
  using assms by (auto simp: cache_get_json_def ensure_redis_def init_redis_def trip_def tripped_def Let_def split: option.splits if_splits)

lemma answers_not_cached: "outage_answers loads key c ts b = replicate (length ts) JNull"
proof (induction ts arbitrary: b)
  case (Cons t ts)
  obtain sent b' r where l: "cache_get_json loads (c, False) t Unreachable key b = (sent, b', r)" by (metis prod_cases3)
  with Cons failed_lookup(1) [OF l] show ?case by (simp add: l)
qed simp

lemma first_attempt_waits:
  "br_tripped b = br_client b \<Longrightarrow> outage loads key c ts b \<noteq> [] \<Longrightarrow> br_down_until b \<le> hd (outage loads key c ts b)"
proof (induction ts)
  case (Cons t ts)
  obtain sent b' r where l: "cache_get_json loads (c, False) t Unreachable key b = (sent, b', r)" by (metis prod_cases3)
  from Cons failed_lookup [OF l] show ?case by (cases "sent = []") (simp_all add: l)
qed simp

lemma attempts_spaced:
  assumes "br_backoff b = backoff_after n" "Suc i < length (outage loads key c ts b)"
  shows "outage loads key c ts b ! i + backoff_after (n + Suc i) \<le> outage loads key c ts b ! Suc i"
  using assms
proof (induction ts arbitrary: b n i)
  case (Cons t ts)
  obtain sent b' r where l: "cache_get_json loads (c, False) t Unreachable key b = (sent, b', r)" by (metis prod_cases3)
  note f = failed_lookup [OF l]
  show ?case
  proof (cases "sent = []")
    case True
    with Cons f(2) show ?thesis by (simp add: l)
  next
    case False
    note b' = f(3) [OF False]
    then have n': "br_backoff b' = backoff_after (Suc n)" using Cons.prems(1) backoff_next by simp
    show ?thesis
    proof (cases i)
      case 0
      with Cons.prems(2) False first_attempt_waits [of b' loads key c ts] b' n' show ?thesis
        by (auto simp: l hd_conv_nth)
    next
      case (Suc j)
      with Cons.prems(2) False Cons.IH [of b' "Suc n" j] n' show ?thesis by (simp add: l)
    qed
  qed
qed simp

text \<open>
  Every breaker has the backoff of some number of failures in a row: at the start, and after every
  success that closes it, of none.
\<close>

lemma backoff_of_failures:
  "br_backoff boot = backoff_after 0"
  "br_backoff b = backoff_after n \<Longrightarrow> br_backoff (trip now b) = backoff_after (Suc n)"
  "br_backoff (healthy b) = backoff_after 0"
  using backoff_next by (simp_all add: boot_def trip_def Let_def healthy_def backoff_after_def)

text \<open>
  C32: an outage costs one timeout per backoff. While the cache server is down, every lookup, at whatever
  time, answers "not cached", and when it had failed \<open>n\<close> times in a row before, the \<open>i\<close>-th attempt to reach
  it (counting from 1) is followed by a pause of at least \<open>min (2\<^sup>n\<^sup>+\<^sup>i) 30\<close> seconds before the next: from a
  closed breaker 2, 4, 8, 16, then 30.
\<close>

theorem outage_attempts_spaced:
  assumes "br_backoff b = backoff_after n"
  shows "outage_answers loads key c ts b = replicate (length ts) JNull \<and>
    (\<forall>i. Suc i < length (outage loads key c ts b) \<longrightarrow>
      outage loads key c ts b ! i + min (2 ^ (n + Suc i)) BREAKER_MAX \<le> outage loads key c ts b ! Suc i)"
  using attempts_spaced [OF assms, of _ loads key c ts] answers_not_cached [of loads key c ts b]
  by (simp add: backoff_after_def)

theorem outage_attempts_spaced_witness:
  "outage_answers (\<lambda>_. None) ''packument:npm:left-pad'' 1 [0, 1, 2, 3] boot = [JNull, JNull, JNull, JNull] \<and>
   outage (\<lambda>_. None) ''packument:npm:left-pad'' 1 [0, 1, 2, 3] boot = [0, 2] \<and>
   outage (\<lambda>_. None) ''packument:npm:left-pad'' 1 [0, 1, 2, 3] boot ! 0 + 2
     \<le> outage (\<lambda>_. None) ''packument:npm:left-pad'' 1 [0, 1, 2, 3] boot ! 1"
proof -
  have two: "outage (\<lambda>_. None) ''packument:npm:left-pad'' 1 [0, 1, 2, 3] boot = [0, 2]"
    by (simp add: boot_def cache_get_json_def ensure_redis_def init_redis_def trip_def Let_def BREAKER_MIN_def BREAKER_MAX_def)
  have "br_backoff boot = backoff_after 0" by (rule backoff_of_failures(1))
  from outage_attempts_spaced [OF this, of "\<lambda>_. None" "''packument:npm:left-pad''" 1 "[0, 1, 2, 3]"]
  show ?thesis unfolding two by (simp add: BREAKER_MAX_def eval_nat_numeral)
qed

text \<open>
  The backoff counts failed commands, not outages: commands that were in flight together when the
  server went away each double it, so a burst of five starts at the maximum.
\<close>

lemma trip_backoff: "br_backoff (trip now b) = min (max (br_backoff b * 2) BREAKER_MIN) BREAKER_MAX"
  by (simp add: trip_def Let_def)

lemma burst_doubles: "br_backoff b = 0 \<Longrightarrow> br_backoff ((trip now ^^ n) b) = backoff_after n"
proof (induction n)
  case (Suc n)
  then have "br_backoff ((trip now ^^ Suc n) b) = min (max (backoff_after n * 2) BREAKER_MIN) BREAKER_MAX"
    by (simp add: trip_backoff)
  then show ?case by (simp only: backoff_next)
qed (simp add: backoff_after_def)

lemma burst_of_five: "br_backoff ((trip now ^^ 5) boot) = BREAKER_MAX"
  using burst_doubles [of boot 5 now] by (simp add: boot_def backoff_after_def BREAKER_MAX_def)

text \<open>Only a successful lookup closes the breaker; a successful write leaves the backoff as it is.\<close>

lemma write_keeps_backoff:
  "br_client b = Some c \<Longrightarrow> br_backoff (snd (cache_set_json dumps conn now (Answer ()) key j ttl b)) = br_backoff b"
  by (simp add: cache_set_json_def one_command_def ensure_redis_def)

lemma lookup_closes:
  "br_client b = Some c \<Longrightarrow> \<not> tripped now b \<Longrightarrow> br_backoff (fst (snd (cache_get_json loads conn now (Answer raw) key b))) = 0"
  by (simp add: cache_get_json_def ensure_redis_def healthy_def)

end
