(* ===== verification/Security.thy ===== *)
theory Security
  imports Npm_Publish
begin

section \<open>Tokens, headers and session claims (\<open>core/security.py\<close>)\<close>

text \<open>
  Hashing (\<open>sha256_hex\<close>, the password hasher), the JWT library's signature and the UTF-8 decoder are
  arguments; a verified token is the JSON object of its claims.
\<close>

subsection \<open>Passwords\<close>

text \<open>\<open>hash_matches\<close> is the hasher's \<open>verify\<close>, an exception of it being a mismatch.\<close>

definition verify_password :: "(string \<Rightarrow> string \<Rightarrow> bool) \<Rightarrow> string \<Rightarrow> string option \<Rightarrow> bool" where
  "verify_password hash_matches password h = (case h of None \<Rightarrow> False | Some x \<Rightarrow> x \<noteq> [] \<and> hash_matches x password)"

subsection \<open>API tokens\<close>

text \<open>\<open>public_id\<close> and \<open>secret\<close> are the random parts.\<close>

definition generate_token :: "(string \<Rightarrow> string) \<Rightarrow> string \<Rightarrow> string \<Rightarrow> string \<Rightarrow> string \<times> string \<times> string" where
  "generate_token hash_token_secret token_prefix public_id secret = (let
     prefix = token_prefix @ ''_'' @ public_id
     in (prefix @ ''_'' @ secret, prefix, hash_token_secret secret))"

definition split_token :: "string \<Rightarrow> (string \<times> string) option" where
  "split_token tok = (let parts = split_on (CHR ''_'') (py_strip tok) in
     if length parts < 3 then None
     else (let prefix = py_join ''_'' (take 2 parts); secret = py_join ''_'' (drop 2 parts)
       in if prefix = [] \<or> secret = [] then None else Some (prefix, secret)))"

definition verify_token_secret :: "(string \<Rightarrow> string) \<Rightarrow> string \<Rightarrow> string \<Rightarrow> bool" where
  "verify_token_secret hash_token_secret secret expected = (hash_token_secret secret = expected)"

subsection \<open>Authorization headers\<close>

text \<open>
  \<open>base64.b64decode\<close> as it is without \<open>validate\<close>: characters outside the alphabet are skipped, enough
  padding ends the text, and a rest of one to three characters is an error. \<open>q\<close> counts the
  characters of the current group, \<open>pads\<close> its padding, \<open>bits\<close> what is left of the last one.
\<close>

fun unb64_lenient :: "nat \<Rightarrow> nat \<Rightarrow> nat \<Rightarrow> string \<Rightarrow> nat list option" where
  "unb64_lenient q pads bits [] = (if q = 0 then Some [] else None)"
| "unb64_lenient q pads bits (c # s) =
     (if c = CHR ''='' then
        (if 2 \<le> q \<and> 4 \<le> q + pads + 1 then Some []
         else unb64_lenient q (if 2 \<le> q then pads + 1 else pads) bits s)
      else (case b64_val c of
          None \<Rightarrow> unb64_lenient q pads bits s
        | Some x \<Rightarrow>
            if q = 0 then unb64_lenient 1 0 x s
            else if q = 1 then map_option ((#) (bits * 4 + x div 16)) (unb64_lenient 2 0 (x mod 16) s)
            else if q = 2 then map_option ((#) (bits * 16 + x div 4)) (unb64_lenient 3 0 (x mod 4) s)
            else map_option ((#) (bits * 64 + x)) (unb64_lenient 0 0 0 s)))"

definition parse_basic_auth :: "(nat list \<Rightarrow> string) \<Rightarrow> string \<Rightarrow> (string \<times> string) option" where
  "parse_basic_auth utf8 header =
     (if \<not> starts_with (py_lower header) ''basic '' then None
      else (let text = py_strip (drop 6 header) in
        if \<not> list_all (\<lambda>c. (of_char c :: nat) < 128) text then None
        else (case unb64_lenient 0 0 0 text of
            None \<Rightarrow> None
          | Some bytes \<Rightarrow> (let decoded = utf8 bytes in
              if CHR '':'' \<notin> set decoded then None
              else (case py_partition (CHR '':'') decoded of (user, _, password) \<Rightarrow> Some (user, password))))))"

definition extract_bearer :: "string option \<Rightarrow> string option" where
  "extract_bearer header = (case header of
     None \<Rightarrow> None
   | Some h \<Rightarrow> if h \<noteq> [] \<and> starts_with (py_lower h) ''bearer '' then Some (py_strip (drop 7 h)) else None)"

subsection \<open>Session and state tokens\<close>

text \<open>\<open>ttl or settings.session_ttl_seconds\<close>: a ttl of 0 is the default as well.\<close>

definition session_claims :: "int \<Rightarrow> int \<Rightarrow> string \<Rightarrow> int \<Rightarrow> string \<Rightarrow> bool \<Rightarrow> int option \<Rightarrow> int \<Rightarrow> json" where
  "session_claims default_ttl now jti uid username is_admin ttl sv = JObj
     [(''sub'', JStr (show_int uid)), (''username'', JStr username), (''admin'', JBool is_admin), (''sv'', JInt sv),
      (''jti'', JStr jti), (''iat'', JInt now),
      (''exp'', JInt (now + (case ttl of None \<Rightarrow> default_ttl | Some t \<Rightarrow> if t = 0 then default_ttl else t))),
      (''typ'', JStr ''session'')]"

text \<open>\<open>verified\<close> is what \<open>jwt.decode\<close> returned, \<open>None\<close> its exception.\<close>

definition decode_session_token :: "json option \<Rightarrow> json option" where
  "decode_session_token verified = (case verified of None \<Rightarrow> None
     | Some claims \<Rightarrow> if jget claims ''typ'' \<noteq> JStr ''session'' then None else Some claims)"

definition state_claims :: "int \<Rightarrow> (string \<times> json) list \<Rightarrow> int \<Rightarrow> json" where
  "state_claims now data ttl = JObj (obj_put ''typ'' (JStr ''oidc_state'')
     (obj_put ''exp'' (JInt (now + ttl)) (obj_put ''iat'' (JInt now) data)))"

definition decode_state_token :: "json option \<Rightarrow> json option" where
  "decode_state_token verified = (case verified of None \<Rightarrow> None
     | Some claims \<Rightarrow> if jget claims ''typ'' \<noteq> JStr ''oidc_state'' then None else Some claims)"

subsection \<open>Display\<close>

definition mask_secret :: "string option \<Rightarrow> nat \<Rightarrow> string option" where
  "mask_secret v keep = (case v of None \<Rightarrow> None
     | Some s \<Rightarrow> if s = [] then None
         else if length s \<le> keep then Some (replicate (length s) (CHR ''*''))
         else Some (take keep s @ replicate (min (length s - keep) 20) (CHR ''*'')))"

end
