(* ===== verification/Rate_Limit.thy ===== *)
theory Rate_Limit
  imports Cache
begin

section \<open>Fixed-window rate limits (\<open>core/cache.py\<close>)\<close>

text \<open>
  \<open>now\<close> is the clock in whole seconds, as \<open>int(time.time())\<close> gives it. With the cache server up, its
  counter of the window is an argument (\<open>Answer count\<close>); with no client, or an error, the process
  counts for itself where the caller asked to fail closed.
\<close>

record local_counters =
  lc_counts :: "((string \<times> int) \<times> int) list"
  lc_window :: int

definition MAX_COUNTERS :: nat where
  "MAX_COUNTERS = 100000"

definition rate_limit_retry_after :: "int \<Rightarrow> int \<Rightarrow> int" where
  "rate_limit_retry_after window now = max 1 (window - now mod window)"

fun put_count :: "string \<times> int \<Rightarrow> int \<Rightarrow> ((string \<times> int) \<times> int) list \<Rightarrow> ((string \<times> int) \<times> int) list" where
  "put_count k n [] = [(k, n)]"
| "put_count k n ((k', m) # cs) = (if k' = k then (k, n) # cs else (k', m) # put_count k n cs)"

definition local_rate_limit :: "string \<Rightarrow> int \<Rightarrow> int \<Rightarrow> int \<Rightarrow> local_counters \<Rightarrow> (bool \<times> int) \<times> local_counters" where
  "local_rate_limit key limit window now s = (let
     bucket = now div window;
     cs = (if bucket \<noteq> lc_window s then [] else lc_counts s);
     cs = (if length cs > MAX_COUNTERS then [] else cs);
     count = (case map_of cs (key, bucket) of None \<Rightarrow> 0 | Some n \<Rightarrow> n) + 1
     in ((count \<le> limit, max 0 (limit - count)), \<lparr>lc_counts = put_count (key, bucket) count cs, lc_window = bucket\<rparr>))"

definition counter_key :: "string \<Rightarrow> int \<Rightarrow> int \<Rightarrow> string" where
  "counter_key key window now = ''rl:'' @ key @ '':'' @ show_int window @ '':'' @ show_int (now div window)"

definition rate_limit ::
  "bool \<Rightarrow> int reply \<Rightarrow> bool \<Rightarrow> string \<Rightarrow> int \<Rightarrow> int \<Rightarrow> int \<Rightarrow> local_counters \<Rightarrow> (bool \<times> int) \<times> local_counters" where
  "rate_limit enabled reply fail_closed key limit window now s =
     (if \<not> enabled \<or> limit \<le> 0 then ((True, limit), s)
      else (case reply of
          Unreachable \<Rightarrow> if fail_closed then local_rate_limit key limit window now s else ((True, limit), s)
        | Answer count \<Rightarrow> ((count \<le> limit, max 0 (limit - count)), s)))"

text \<open>\<open>sent\<close>: the \<open>DECR\<close> of the server's counter went through.\<close>

definition rate_limit_refund ::
  "bool \<Rightarrow> bool \<Rightarrow> bool \<Rightarrow> string \<Rightarrow> int \<Rightarrow> int \<Rightarrow> int \<Rightarrow> local_counters \<Rightarrow> local_counters" where
  "rate_limit_refund enabled sent fail_closed key limit window now s = (let bucket = now div window in
     if \<not> enabled \<or> limit \<le> 0 \<or> sent \<or> \<not> fail_closed then s
     else (case map_of (lc_counts s) (key, bucket) of
         None \<Rightarrow> s
       | Some n \<Rightarrow> if n \<noteq> 0 \<and> bucket = lc_window s
           then s\<lparr>lc_counts := put_count (key, bucket) (n - 1) (lc_counts s)\<rparr> else s))"

text \<open>The seconds of \<open>Retry-After\<close> end exactly with the window.\<close>

lemma retry_after_next_window:
  assumes "0 < window"
  shows "1 \<le> rate_limit_retry_after window now" "rate_limit_retry_after window now \<le> window"
    "(now + rate_limit_retry_after window now) div window = now div window + 1"
proof -
  have bounds: "0 \<le> now mod window" "1 \<le> window - now mod window"
    using assms pos_mod_bound [OF assms, of now] by (simp, linarith)
  then have r: "rate_limit_retry_after window now = window - now mod window" by (simp add: rate_limit_retry_after_def)
  show "1 \<le> rate_limit_retry_after window now" "rate_limit_retry_after window now \<le> window"
    using bounds by (simp_all add: r)
  have "now + (window - now mod window) = (now div window + 1) * window"
    using minus_mod_eq_div_mult [of now window] by (simp add: algebra_simps)
  then show "(now + rate_limit_retry_after window now) div window = now div window + 1"
    using assms by (simp add: r)
qed

end
