(* ===== verification/Identity.thy ===== *)
theory Identity
  imports Security Docker_Auth Netguard Rate_Limit
begin

section \<open>Who is making a request (\<open>core/deps.py\<close>)\<close>

text \<open>
  The rows of \<open>users\<close> and \<open>api_tokens\<close> carry more here than in the container registry, so the records
  extend those of \<open>Docker_Auth\<close>. What a request brings is a record of its own.
\<close>

record user = account +
  u_name :: string
  u_hash :: "string option"
  u_version :: int
  u_local :: bool \<comment> \<open>\<open>provider\<close> is \<open>AuthProvider.local\<close>\<close>

record token = api_token +
  tok_prefix :: string
  tok_hash :: string
  tok_last :: "int option"

record identity =
  i_user :: "user option"
  i_token :: "token option"
  i_method :: string

definition PASSWORD_BASIC :: string where
  "PASSWORD_BASIC = ''basic_password''"

definition nameless :: identity where
  "nameless = \<lparr>i_user = None, i_token = None, i_method = ''anonymous''\<rparr>"

definition is_authenticated :: "identity \<Rightarrow> bool" where
  "is_authenticated i = (i_user i \<noteq> None)"

definition ident_is_admin :: "identity \<Rightarrow> bool" where
  "ident_is_admin i = (case i_user i of None \<Rightarrow> False | Some u \<Rightarrow> acc_admin u)"

definition ident_user_id :: "identity \<Rightarrow> int option" where
  "ident_user_id i = map_option acc_id (i_user i)"

definition is_password_basic :: "identity \<Rightarrow> bool" where
  "is_password_basic i = (i_method i = PASSWORD_BASIC)"

definition token_has_scope :: "string \<Rightarrow> identity \<Rightarrow> bool" where
  "token_has_scope scope i = (case i_token i of None \<Rightarrow> False
     | Some t \<Rightarrow> scope \<in> set (tok_scopes t) \<or> ''admin'' \<in> set (tok_scopes t))"

definition has_scope :: "string \<Rightarrow> identity \<Rightarrow> bool" where
  "has_scope scope i = (if i_user i = None then False
     else if is_password_basic i then scope = ''read''
     else if i_token i = None then True
     else token_has_scope scope i)"

definition may_publish :: "identity \<Rightarrow> bool" where
  "may_publish i = (case i_user i of None \<Rightarrow> False
     | Some u \<Rightarrow> acc_active u \<and> (can_publish u \<or> acc_admin u) \<and> has_scope ''publish'' i)"

subsection \<open>The caller's address\<close>

record web_request =
  peer :: "string option"
  forwarded_for :: "string option"
  real_ip :: "string option"
  authorization :: "string option"
  cookie :: "string option"
  meth :: string
  sec_fetch_site :: "string option"
  origin :: "string option"
  referer :: "string option"

record settings =
  proxies_v4 :: "(32 word \<times> nat) list"
  proxies_v6 :: "(128 word \<times> nat) list"
  proxy_hops :: int
  public_url :: string
  dev_mode :: bool
  token_tag :: string
  limits_on :: bool
  login_per_minute :: int
  anonymous_reads :: bool
  anonymous_per_minute :: int
  authenticated_per_minute :: int

definition is_trusted_proxy :: "settings \<Rightarrow> string option \<Rightarrow> bool" where
  "is_trusted_proxy cfg p = (case p of None \<Rightarrow> False
     | Some a \<Rightarrow> a \<noteq> [] \<and> (case ip_address a of None \<Rightarrow> False
         | Some (V4 w) \<Rightarrow> list_ex (in_net w) (proxies_v4 cfg)
         | Some (V6 w) \<Rightarrow> list_ex (in_net w) (proxies_v6 cfg)))"

definition forwarded_parts :: "string \<Rightarrow> string list" where
  "forwarded_parts h = filter (\<lambda>p. p \<noteq> []) (map py_strip (split_on (CHR '','') h))"

definition peer_address :: "web_request \<Rightarrow> string option" where
  "peer_address r = (case peer r of None \<Rightarrow> None | Some p \<Rightarrow> if p = [] then None else Some (take 64 p))"

definition client_ip :: "settings \<Rightarrow> web_request \<Rightarrow> string option" where
  "client_ip cfg r =
     (if \<not> is_trusted_proxy cfg (peer r) then peer_address r
      else (let
        hops = nat (max 1 (proxy_hops cfg));
        parts = (case forwarded_for r of None \<Rightarrow> [] | Some h \<Rightarrow> forwarded_parts h)
        in if parts \<noteq> [] then Some (take 64 (parts ! (length parts - hops)))
           else (case real_ip r of
               None \<Rightarrow> peer_address r
             | Some x \<Rightarrow> if x = [] then peer_address r else Some (take 64 (py_strip x)))))"

subsection \<open>Tokens\<close>

record auth_db =
  db_users :: "user list"
  db_tokens :: "token list"
  db_revoked :: "string list"

definition touch_token :: "int \<Rightarrow> token \<Rightarrow> token" where
  "touch_token now t = (case tok_last t of
     None \<Rightarrow> t\<lparr>tok_last := Some now\<rparr>
   | Some l \<Rightarrow> if now - l > 60 then t\<lparr>tok_last := Some now\<rparr> else t)"

definition token_identity :: "(string \<Rightarrow> string) \<Rightarrow> int \<Rightarrow> string \<Rightarrow> auth_db \<Rightarrow> identity option \<times> auth_db" where
  "token_identity sha now presented db = (case split_token presented of
     None \<Rightarrow> (None, db)
   | Some (prefix, secret) \<Rightarrow> (case find (\<lambda>t. tok_prefix t = prefix) (db_tokens db) of
       None \<Rightarrow> (None, db)
     | Some t \<Rightarrow>
         if revoked t \<or> \<not> verify_token_secret sha secret (tok_hash t) then (None, db)
         else if (case expires_at t of None \<Rightarrow> False | Some e \<Rightarrow> e < now) then (None, db)
         else (case find (\<lambda>u. acc_id u = tok_user t) (db_users db) of
             None \<Rightarrow> (None, db)
           | Some u \<Rightarrow>
               if \<not> acc_active u then (None, db)
               else (let t' = touch_token now t in
                 (Some \<lparr>i_user = Some u, i_token = Some t', i_method = ''token''\<rparr>,
                  db\<lparr>db_tokens := map (\<lambda>x. if tok_prefix x = prefix then t' else x) (db_tokens db)\<rparr>)))))"

subsection \<open>Login attempts\<close>

definition LOGIN_ACCOUNT_CEILING_FACTOR :: int where
  "LOGIN_ACCOUNT_CEILING_FACTOR = 10"

definition login_buckets :: "int \<Rightarrow> string \<Rightarrow> string \<Rightarrow> (string \<times> int) list" where
  "login_buckets per_minute ip username = (let name = take 150 username in
     [(''login:ip:'' @ ip, per_minute),
      (''login:user:'' @ name @ '':ip:'' @ ip, per_minute),
      (''login:user:'' @ name, per_minute * LOGIN_ACCOUNT_CEILING_FACTOR)])"

text \<open>
  A counter is anything that takes a hit and gives one back: the server's or the process's own.
  \<open>begin_attempt\<close> is \<open>begin_login_attempt\<close>: \<open>None\<close> is the 429.
\<close>

fun take_hits :: "(string \<Rightarrow> int \<Rightarrow> 's \<Rightarrow> bool \<times> 's) \<Rightarrow> (string \<Rightarrow> int \<Rightarrow> 's \<Rightarrow> 's) \<Rightarrow> (string \<times> int) list \<Rightarrow> (string \<times> int) list \<Rightarrow> 's \<Rightarrow> bool \<times> 's" where
  "take_hits hit refund taken [] s = (True, s)"
| "take_hits hit refund taken ((key, limit) # bs) s = (case hit key limit s of (allowed, s1) \<Rightarrow>
     if allowed then take_hits hit refund (taken @ [(key, limit)]) bs s1
     else (False, foldl (\<lambda>t (k, l). refund k l t) s1 (taken @ [(key, limit)])))"

definition begin_attempt :: "(string \<Rightarrow> int \<Rightarrow> 's \<Rightarrow> bool \<times> 's) \<Rightarrow> (string \<Rightarrow> int \<Rightarrow> 's \<Rightarrow> 's) \<Rightarrow> int \<Rightarrow> string \<Rightarrow> string \<Rightarrow> 's \<Rightarrow> bool \<times> 's" where
  "begin_attempt hit refund per_minute ip username s = take_hits hit refund [] (login_buckets per_minute ip username) s"

definition forgive_attempt :: "(string \<Rightarrow> int \<Rightarrow> 's \<Rightarrow> 's) \<Rightarrow> int \<Rightarrow> string \<Rightarrow> string \<Rightarrow> 's \<Rightarrow> 's" where
  "forgive_attempt refund per_minute ip username s = foldl (\<lambda>t (k, l). refund k l t) s (login_buckets per_minute ip username)"

text \<open>With the cache down the hits go to the process's own counters (\<open>fail_closed=True\<close>).\<close>

definition local_hit :: "int \<Rightarrow> string \<Rightarrow> int \<Rightarrow> local_counters \<Rightarrow> bool \<times> local_counters" where
  "local_hit started key limit s = (case rate_limit True Unreachable True key limit 60 started s of ((allowed, _), s') \<Rightarrow> (allowed, s'))"

definition local_refund :: "int \<Rightarrow> string \<Rightarrow> int \<Rightarrow> local_counters \<Rightarrow> local_counters" where
  "local_refund started key limit s = rate_limit_refund True False True key limit 60 started s"

subsection \<open>Resolving a request\<close>

datatype refusal =
    TooManyLogins | CrossSite | Unauthenticated | AdminRequired | PasswordReadOnly | LacksScope string
  | MayNotPublish | RateLimited | BadClaims

fun refusal_status :: "refusal \<Rightarrow> nat" where
  "refusal_status TooManyLogins = 429"
| "refusal_status RateLimited = 429"
| "refusal_status Unauthenticated = 401"
| "refusal_status BadClaims = 500"
| "refusal_status _ = 403"

text \<open>
  \<open>begin\<close> counts the attempt and says whether it may go ahead, \<open>forgive\<close> takes it back.
\<close>

definition basic_password_identity ::
  "(string \<Rightarrow> string \<Rightarrow> bool) \<Rightarrow> (string \<Rightarrow> string \<Rightarrow> 's \<Rightarrow> bool \<times> 's) \<Rightarrow> (string \<Rightarrow> string \<Rightarrow> 's \<Rightarrow> 's) \<Rightarrow>
   settings \<Rightarrow> web_request \<Rightarrow> string \<Rightarrow> string \<Rightarrow> auth_db \<Rightarrow> 's \<Rightarrow> (refusal + identity) \<times> 's" where
  "basic_password_identity hash_matches attempt forgive cfg r username password db s = (let
     ip = (case client_ip cfg r of None \<Rightarrow> ''unknown'' | Some a \<Rightarrow> if a = [] then ''unknown'' else a)
     in case attempt ip username s of
       (False, s1) \<Rightarrow> (Inl TooManyLogins, s1)
     | (True, s1) \<Rightarrow> (case find (\<lambda>u. u_name u = username) (db_users db) of
         None \<Rightarrow> (Inr nameless, s1)
       | Some u \<Rightarrow>
           if acc_active u \<and> verify_password hash_matches password (u_hash u) \<and> u_local u
           then (Inr \<lparr>i_user = Some u, i_token = None, i_method = PASSWORD_BASIC\<rparr>, forgive ip username s1)
           else (Inr nameless, s1)))"

text \<open>\<open>str(jti)[:64]\<close> of the claim, which is a string in every token this program signs.\<close>

definition session_revoked :: "json \<Rightarrow> auth_db \<Rightarrow> bool" where
  "session_revoked claims db = (case jget claims ''jti'' of
     JStr j \<Rightarrow> j \<noteq> [] \<and> take 64 j \<in> set (db_revoked db) | _ \<Rightarrow> False)"

definition UNSAFE_METHODS :: "string list" where
  "UNSAFE_METHODS = [''POST'', ''PUT'', ''PATCH'', ''DELETE'']"

definition DEV_ORIGINS :: "string list" where
  "DEV_ORIGINS = [''http://localhost:5173'']"

definition origin_of :: "string \<Rightarrow> string option" where
  "origin_of url0 = (let url = py_strip url0; scheme = py_lower (scheme (urlsplit url)); host = url_hostname url in
     case url_port url of
       None \<Rightarrow> None
     | Some port \<Rightarrow>
         if scheme \<notin> {''http'', ''https''} \<or> host = [] then None
         else (let
           usual = (if scheme = ''https'' then 443 else 80);
           host = (if CHR '':'' \<in> set host then ''['' @ host @ '']'' else host)
           in Some (scheme @ ''://'' @ host @ (case port of None \<Rightarrow> []
               | Some p \<Rightarrow> if p \<noteq> 0 \<and> p \<noteq> usual then '':'' @ show_nat p else []))))"

definition trusted_origin :: "settings \<Rightarrow> string option \<Rightarrow> bool" where
  "trusted_origin cfg o1 = (case o1 of None \<Rightarrow> False
     | Some x \<Rightarrow> x \<noteq> [] \<and> (origin_of (public_url cfg) = Some x \<or> dev_mode cfg \<and> x \<in> set DEV_ORIGINS))"

definition is_cross_site :: "settings \<Rightarrow> web_request \<Rightarrow> bool" where
  "is_cross_site cfg r =
     (if py_upper (meth r) \<notin> set UNSAFE_METHODS then False
      else (case sec_fetch_site r of
          Some site \<Rightarrow> py_lower (py_strip site) \<notin> {''same-origin'', ''none''}
        | None \<Rightarrow>
            (case origin r of
               Some x \<Rightarrow>
                 if py_lower (py_strip x) \<noteq> ''null'' then \<not> trusted_origin cfg (origin_of x)
                 else (case referer r of
                     Some u \<Rightarrow> if u \<noteq> [] then \<not> trusted_origin cfg (origin_of u) else True
                   | None \<Rightarrow> True)
             | None \<Rightarrow> (case referer r of
                   Some u \<Rightarrow> if u \<noteq> [] then \<not> trusted_origin cfg (origin_of u) else False
                 | None \<Rightarrow> False))))"

text \<open>
  \<open>verified\<close> is the JWT library's answer for the cookie. \<open>int(payload["sub"])\<close> raises on anything but
  a number; the tokens this program signs carry the decimal id of a user.
\<close>

definition session_identity ::
  "settings \<Rightarrow> web_request \<Rightarrow> json option \<Rightarrow> auth_db \<Rightarrow> refusal + identity" where
  "session_identity cfg r verified db = (case decode_session_token verified of
     None \<Rightarrow> Inr nameless
   | Some claims \<Rightarrow> (case jget claims ''sub'' of
       JStr sub \<Rightarrow>
         if \<not> is_numeral sub then Inl BadClaims
         else (case find (\<lambda>u. acc_id u = int (nat_of_digits sub)) (db_users db) of
             None \<Rightarrow> Inr nameless
           | Some u \<Rightarrow>
               if acc_active u \<and> as_num (jget_or claims ''sv'' (JInt 0)) = Some (of_int (u_version u)) \<and> \<not> session_revoked claims db
               then (if is_cross_site cfg r then Inl CrossSite
                     else Inr \<lparr>i_user = Some u, i_token = None, i_method = ''session''\<rparr>)
               else Inr nameless)
     | _ \<Rightarrow> Inl BadClaims))"

record auth_env =
  sha :: "string \<Rightarrow> string"
  matches :: "string \<Rightarrow> string \<Rightarrow> bool"
  utf8 :: "nat list \<Rightarrow> string"
  verified_cookie :: "string \<Rightarrow> json option"
  clock :: int

definition or_nameless :: "identity option \<times> auth_db \<Rightarrow> (refusal + identity) \<times> auth_db" where
  "or_nameless x = (case x of (None, db) \<Rightarrow> (Inr nameless, db) | (Some i, db) \<Rightarrow> (Inr i, db))"

definition resolve_identity ::
  "(string \<Rightarrow> string \<Rightarrow> 's \<Rightarrow> bool \<times> 's) \<Rightarrow> (string \<Rightarrow> string \<Rightarrow> 's \<Rightarrow> 's) \<Rightarrow>
   settings \<Rightarrow> auth_env \<Rightarrow> web_request \<Rightarrow> auth_db \<times> 's \<Rightarrow> (refusal + identity) \<times> auth_db \<times> 's" where
  "resolve_identity attempt forgive cfg env r st = (case st of (db, s) \<Rightarrow> (case authorization r of
     Some (c # cs) \<Rightarrow> (let header = c # cs in
       case extract_bearer (Some header) of
         Some (b # bs) \<Rightarrow> (case or_nameless (token_identity (sha env) (clock env) (b # bs) db) of (i, db1) \<Rightarrow> (i, db1, s))
       | _ \<Rightarrow>
         if starts_with (py_lower header) ''basic '' then
           (case parse_basic_auth (utf8 env) header of
              None \<Rightarrow> (Inr nameless, db, s)
            | Some (username, password) \<Rightarrow> (case token_identity (sha env) (clock env) password db of
                (Some i, db1) \<Rightarrow> (Inr (i\<lparr>i_method := ''basic''\<rparr>), db1, s)
              | (None, db1) \<Rightarrow>
                  if username \<notin> {''__token__'', ''token''} then
                    (case basic_password_identity (matches env) attempt forgive cfg r username password db1 s of (i, s1) \<Rightarrow> (i, db1, s1))
                  else (Inr nameless, db1, s)))
         else (let raw = py_strip header in
           if starts_with raw (token_tag cfg @ ''_'') \<and> CHR '' '' \<notin> set raw
           then (case or_nameless (token_identity (sha env) (clock env) raw db) of (i, db1) \<Rightarrow> (i, db1, s))
           else (Inr nameless, db, s)))
   | _ \<Rightarrow> (case cookie r of
       Some (c # cs) \<Rightarrow> (session_identity cfg r (verified_cookie env (c # cs)) db, db, s)
     | _ \<Rightarrow> (Inr nameless, db, s))))"

subsection \<open>Guards\<close>

definition require_user :: "identity \<Rightarrow> refusal + identity" where
  "require_user i = (if \<not> is_authenticated i then Inl Unauthenticated else Inr i)"

definition require_admin :: "identity \<Rightarrow> refusal + identity" where
  "require_admin i = (if \<not> is_authenticated i then Inl Unauthenticated
     else if \<not> ident_is_admin i then Inl AdminRequired
     else if is_password_basic i then Inl PasswordReadOnly
     else if \<not> has_scope ''admin'' i then Inl (LacksScope ''admin'')
     else Inr i)"

definition require_primary_credential :: "identity \<Rightarrow> refusal + identity" where
  "require_primary_credential i = (if i_user i = None then Inl Unauthenticated
     else if is_password_basic i then Inl PasswordReadOnly
     else if i_token i \<noteq> None \<and> \<not> token_has_scope ''admin'' i then Inl (LacksScope ''admin'')
     else Inr i)"

definition require_publish :: "identity \<Rightarrow> refusal + identity" where
  "require_publish i = (if \<not> is_authenticated i then Inl Unauthenticated
     else if is_password_basic i then Inl PasswordReadOnly
     else if \<not> may_publish i then Inl MayNotPublish
     else Inr i)"

definition require_read :: "settings \<Rightarrow> identity \<Rightarrow> refusal + identity" where
  "require_read cfg i = (if anonymous_reads cfg then Inr i
     else if \<not> is_authenticated i then Inl Unauthenticated
     else if \<not> has_scope ''read'' i then Inl (LacksScope ''read'')
     else Inr i)"

subsection \<open>Request limits\<close>

definition limit_bucket :: "settings \<Rightarrow> web_request \<Rightarrow> identity \<Rightarrow> string \<Rightarrow> int option \<Rightarrow> string \<times> int" where
  "limit_bucket cfg r i bucket cap = (let
     ceiling = (\<lambda>d. case cap of None \<Rightarrow> d | Some l \<Rightarrow> if l = 0 then d else l)
     in case i_user i of
       Some u \<Rightarrow> (bucket @ '':u'' @ show_int (acc_id u), ceiling (authenticated_per_minute cfg))
     | None \<Rightarrow> (bucket @ '':ip'' @ (case client_ip cfg r of None \<Rightarrow> ''unknown'' | Some a \<Rightarrow> if a = [] then ''unknown'' else a),
         ceiling (anonymous_per_minute cfg)))"

definition enforce_rate_limit ::
  "settings \<Rightarrow> (string \<Rightarrow> int reply) \<Rightarrow> int \<Rightarrow> web_request \<Rightarrow> identity \<Rightarrow> string \<Rightarrow> int option \<Rightarrow> local_counters \<Rightarrow> (refusal + unit) \<times> local_counters" where
  "enforce_rate_limit cfg reply now r i bucket cap s =
     (if \<not> limits_on cfg then (Inr (), s)
      else (case limit_bucket cfg r i bucket cap of (key, most) \<Rightarrow>
        (case rate_limit (limits_on cfg) (reply key) False key most 60 now s of
           ((allowed, _), s1) \<Rightarrow> (if allowed then Inr () else Inl RateLimited, s1))))"

end
