(* ===== verification/Login_Spec.thy ===== *)
theory Login_Spec
  imports Identity
begin

section \<open>Guessing passwords\<close>

text \<open>
  A counter takes hits and gives them back; \<open>count\<close> is what it stands at, \<open>room\<close> how many more hits it
  can tell apart. The locale is what \<open>begin_login_attempt\<close> relies on; the process's own counters are
  an instance, within one window and below the size at which they are cleared.
\<close>

locale hit_counter =
  fixes hit :: "string \<Rightarrow> int \<Rightarrow> 's \<Rightarrow> bool \<times> 's"
    and refund :: "string \<Rightarrow> int \<Rightarrow> 's \<Rightarrow> 's"
    and count :: "'s \<Rightarrow> string \<Rightarrow> int"
    and room :: "'s \<Rightarrow> nat"
  assumes hit_counts: "0 < room s \<Longrightarrow> 0 < limit \<Longrightarrow> hit k limit s = (a, s') \<Longrightarrow>
      a = (count s k + 1 \<le> limit) \<and> count s' = (count s)(k := count s k + 1) \<and> room s \<le> room s' + 1"
    and refund_counts: "0 < count s k \<Longrightarrow> 0 < limit \<Longrightarrow>
      count (refund k limit s) = (count s)(k := count s k - 1) \<and> room (refund k limit s) = room s"

subsection \<open>Attempts as events\<close>

datatype login_event = Begins string string | Succeeds string string

text \<open>
  Attempts are admitted and, when the password was right, forgiven; between the two anything else may
  happen. The list holds the attempts that were admitted and not forgiven: wrong guesses, and
  passwords still being checked.
\<close>

fun login_step ::
  "(string \<Rightarrow> int \<Rightarrow> 's \<Rightarrow> bool \<times> 's) \<Rightarrow> (string \<Rightarrow> int \<Rightarrow> 's \<Rightarrow> 's) \<Rightarrow> int \<Rightarrow> 's \<times> (string \<times> string) list \<Rightarrow> login_event \<Rightarrow> 's \<times> (string \<times> string) list" where
  "login_step hit refund pm (s, outs) (Begins ip name) = (case begin_attempt hit refund pm ip name s of
     (admitted, s') \<Rightarrow> (s', if admitted then (ip, name) # outs else outs))"
| "login_step hit refund pm (s, outs) (Succeeds ip name) =
     (if (ip, name) \<in> set outs then (forgive_attempt refund pm ip name s, remove1 (ip, name) outs) else (s, outs))"

definition uses :: "string \<Rightarrow> string \<times> string \<Rightarrow> bool" where
  "uses k a = (k \<in> fst ` set (login_buckets 1 (fst a) (snd a)))"

definition tally :: "('a \<Rightarrow> bool) \<Rightarrow> 'a list \<Rightarrow> int" where
  "tally P xs = int (length (filter P xs))"

lemma tally_simps [simp]: "tally P [] = 0" "tally P (x # xs) = (if P x then 1 else 0) + tally P xs"
  by (simp_all add: tally_def)

lemma tally_nonneg [simp]: "0 \<le> tally P xs"
  by (simp add: tally_def)

lemma tally_remove1: "x \<in> set xs \<Longrightarrow> tally P (remove1 x xs) = tally P xs - (if P x then 1 else 0)"
  by (induction xs) auto

lemma tally_mono: "(\<And>x. P x \<Longrightarrow> Q x) \<Longrightarrow> tally P xs \<le> tally Q xs"
  by (induction xs) (auto intro: add_mono)

lemma tally_pos: "x \<in> set xs \<Longrightarrow> P x \<Longrightarrow> 0 < tally P xs"
  by (induction xs) (auto simp: add_pos_nonneg add_nonneg_pos)

lemma bucket_keys: "map fst (login_buckets pm ip name) = map fst (login_buckets 1 ip name)"
  by (simp add: login_buckets_def Let_def)

lemma bucket_keys_distinct: "distinct (map fst (login_buckets pm ip name))"
  by (simp add: login_buckets_def Let_def)

lemma bucket_limits: "0 < pm \<Longrightarrow> (k, l) \<in> set (login_buckets pm ip name) \<Longrightarrow> 0 < l"
  by (auto simp: login_buckets_def Let_def LOGIN_ACCOUNT_CEILING_FACTOR_def)

lemma uses_iff: "uses k (ip, name) \<longleftrightarrow> k \<in> fst ` set (login_buckets pm ip name)"
  using bucket_keys [of pm ip name] by (metis uses_def fst_conv image_set snd_conv)

context hit_counter
begin

lemma refund_all:
  assumes "distinct (map fst bs)" "\<And>k l. (k, l) \<in> set bs \<Longrightarrow> 0 < l \<and> 0 < count s k"
  shows "count (foldl (\<lambda>t (k, l). refund k l t) s bs) = (\<lambda>k. count s k - (if k \<in> fst ` set bs then 1 else 0)) \<and>
    room (foldl (\<lambda>t (k, l). refund k l t) s bs) = room s"
  using assms
proof (induction bs arbitrary: s)
  case (Cons b bs)
  obtain k l where b: "b = (k, l)" by fastforce
  have r: "count (refund k l s) = (count s)(k := count s k - 1)" "room (refund k l s) = room s"
    using Cons.prems(2) [of k l] refund_counts [of s k l] by (simp_all add: b)
  have fresh: "k \<notin> fst ` set bs" using Cons.prems(1) by (simp add: b image_iff)
  have "count (foldl (\<lambda>t (k, l). refund k l t) (refund k l s) bs) = (\<lambda>j. count (refund k l s) j - (if j \<in> fst ` set bs then 1 else 0)) \<and>
      room (foldl (\<lambda>t (k, l). refund k l t) (refund k l s) bs) = room (refund k l s)"
  proof (rule Cons.IH)
    show "distinct (map fst bs)" using Cons.prems(1) by simp
    fix j m assume "(j, m) \<in> set bs"
    with Cons.prems(2) [of j m] fresh show "0 < m \<and> 0 < count (refund k l s) j" by (auto simp: r image_iff)
  qed
  with fresh show ?case by (auto simp: b r)
qed simp

lemma hits:
  assumes "take_hits hit refund taken bs s = (ok, s')" "distinct (map fst (taken @ bs))" "length bs \<le> room s"
    and "\<forall>(k, l) \<in> set (taken @ bs). 0 < l" "\<forall>k. 0 \<le> count s k" "\<forall>k \<in> fst ` set taken. 0 < count s k"
  shows "room s \<le> room s' + length bs"
    and "ok \<Longrightarrow> (\<forall>(k, l) \<in> set bs. count s k + 1 \<le> l) \<and> count s' = (\<lambda>k. count s k + (if k \<in> fst ` set bs then 1 else 0))"
    and "\<not> ok \<Longrightarrow> count s' = (\<lambda>k. count s k - (if k \<in> fst ` set taken then 1 else 0))"
proof -
  have "room s \<le> room s' + length bs \<and>
    (ok \<longrightarrow> (\<forall>(k, l) \<in> set bs. count s k + 1 \<le> l) \<and> count s' = (\<lambda>k. count s k + (if k \<in> fst ` set bs then 1 else 0))) \<and>
    (\<not> ok \<longrightarrow> count s' = (\<lambda>k. count s k - (if k \<in> fst ` set taken then 1 else 0)))"
    using assms
  proof (induction bs arbitrary: taken s)
    case (Cons b bs)
    obtain k l where b: "b = (k, l)" by fastforce
    obtain a s1 where h: "hit k l s = (a, s1)" by fastforce
    from Cons.prems(3,4) have "0 < room s" "0 < l" by (auto simp: b)
    from hit_counts [OF this h] have a: "a = (count s k + 1 \<le> l)" "count s1 = (count s)(k := count s k + 1)" "room s \<le> room s1 + 1" by auto
    have fresh: "k \<notin> fst ` set taken" "k \<notin> fst ` set bs" using Cons.prems(2) by (auto simp: b)
    show ?case
    proof (cases a)
      case True
      then have t: "take_hits hit refund (taken @ [(k, l)]) bs s1 = (ok, s')" using Cons.prems(1) by (simp add: b h)
      have "room s1 \<le> room s' + length bs \<and>
        (ok \<longrightarrow> (\<forall>(k, l) \<in> set bs. count s1 k + 1 \<le> l) \<and> count s' = (\<lambda>k. count s1 k + (if k \<in> fst ` set bs then 1 else 0))) \<and>
        (\<not> ok \<longrightarrow> count s' = (\<lambda>j. count s1 j - (if j \<in> fst ` set (taken @ [(k, l)]) then 1 else 0)))"
      proof (rule Cons.IH [OF t])
        show "distinct (map fst ((taken @ [(k, l)]) @ bs))" using Cons.prems(2) by (simp add: b)
        show "length bs \<le> room s1" using Cons.prems(3) a(3) by simp
        show "\<forall>(k, l) \<in> set ((taken @ [(k, l)]) @ bs). 0 < l" using Cons.prems(4) by (auto simp: b)
        show "\<forall>j. 0 \<le> count s1 j" using Cons.prems(5) by (auto simp: a(2))
        show "\<forall>j \<in> fst ` set (taken @ [(k, l)]). 0 < count s1 j"
          using Cons.prems(5,6) by (auto simp: a(2) intro: add_nonneg_pos)
      qed
      moreover have "count s1 j = count s j" if "(j, m) \<in> set bs" for j m
        using fresh(2) that by (auto simp: a(2) image_iff)
      ultimately show ?thesis using a fresh True by (auto simp: b fun_eq_iff)
    next
      case False
      have undone: "count (foldl (\<lambda>t (k, l). refund k l t) s1 (taken @ [(k, l)])) = (\<lambda>j. count s1 j - (if j \<in> fst ` set (taken @ [(k, l)]) then 1 else 0)) \<and>
          room (foldl (\<lambda>t (k, l). refund k l t) s1 (taken @ [(k, l)])) = room s1"
      proof (rule refund_all)
        show "distinct (map fst (taken @ [(k, l)]))" using Cons.prems(2) by (simp add: b)
        fix j m assume "(j, m) \<in> set (taken @ [(k, l)])"
        then show "0 < m \<and> 0 < count s1 j"
          using Cons.prems(4-6) by (auto simp: a(2) b intro: add_nonneg_pos)
      qed
      have "ok = False" "s' = foldl (\<lambda>t (k, l). refund k l t) s1 (taken @ [(k, l)])" using Cons.prems(1) False by (auto simp: b h)
      with undone a fresh show ?thesis by (auto simp: fun_eq_iff)
    qed
  qed auto
  then show "room s \<le> room s' + length bs"
    "ok \<Longrightarrow> (\<forall>(k, l) \<in> set bs. count s k + 1 \<le> l) \<and> count s' = (\<lambda>k. count s k + (if k \<in> fst ` set bs then 1 else 0))"
    "\<not> ok \<Longrightarrow> count s' = (\<lambda>k. count s k - (if k \<in> fst ` set taken then 1 else 0))" by auto
qed

text \<open>The counters stand at the number of outstanding attempts that use them.\<close>

definition "in_step s outs \<longleftrightarrow> (\<forall>k. count s k = tally (uses k) outs)"

lemma admit:
  assumes "begin_attempt hit refund pm ip name s = (ok, s')" "in_step s outs" "3 \<le> room s" "0 < pm"
  shows "room s \<le> room s' + 3" "ok \<Longrightarrow> in_step s' ((ip, name) # outs)" "\<not> ok \<Longrightarrow> in_step s' outs"
    "ok \<Longrightarrow> (k, l) \<in> set (login_buckets pm ip name) \<Longrightarrow> tally (uses k) outs + 1 \<le> l"
proof -
  let ?bs = "login_buckets pm ip name"
  have len: "length ?bs = 3" by (simp add: login_buckets_def Let_def)
  have t: "take_hits hit refund [] ?bs s = (ok, s')" using assms(1) by (simp add: begin_attempt_def)
  have count: "count s k = tally (uses k) outs" for k using assms(2) by (simp add: in_step_def)
  have p1: "distinct (map fst ([] @ ?bs))" using bucket_keys_distinct by simp
  have p2: "length ?bs \<le> room s" using len assms(3) by simp
  have p3: "\<forall>(k, l) \<in> set ([] @ ?bs). 0 < l" using bucket_limits assms(4) by auto
  have p4: "\<forall>k. 0 \<le> count s k" by (simp add: count)
  have p5: "\<forall>k \<in> fst ` set ([] :: (string \<times> int) list). 0 < count s k" by simp
  note h = hits [OF t p1 p2 p3 p4 p5]
  show "room s \<le> room s' + 3" using h(1) len by simp
  show "in_step s' ((ip, name) # outs)" if ok using h(2) that by (auto simp: in_step_def count uses_iff [where pm = pm])
  show "in_step s' outs" if "\<not> ok" using h(3) that by (simp add: in_step_def count)
  show "tally (uses k) outs + 1 \<le> l" if ok "(k, l) \<in> set ?bs" using h(2) that by (auto simp: count)
qed

lemma forgive:
  assumes "in_step s outs" "(ip, name) \<in> set outs" "0 < pm"
  shows "in_step (forgive_attempt refund pm ip name s) (remove1 (ip, name) outs)"
    "room (forgive_attempt refund pm ip name s) = room s"
proof -
  let ?bs = "login_buckets pm ip name"
  have count: "count s k = tally (uses k) outs" for k using assms(1) by (simp add: in_step_def)
  have "0 < l \<and> 0 < count s k" if "(k, l) \<in> set ?bs" for k l
  proof -
    from that have "uses k (ip, name)" by (force simp: uses_iff [where pm = pm])
    with assms(2) have "0 < tally (uses k) outs" by (rule tally_pos)
    with that bucket_limits assms(3) show ?thesis by (simp add: count)
  qed
  with refund_all [OF bucket_keys_distinct, of pm ip name s]
  have r: "count (forgive_attempt refund pm ip name s) = (\<lambda>k. count s k - (if k \<in> fst ` set ?bs then 1 else 0))"
    "room (forgive_attempt refund pm ip name s) = room s" by (simp_all add: forgive_attempt_def)
  then show "in_step (forgive_attempt refund pm ip name s) (remove1 (ip, name) outs)"
    using assms(2) by (simp add: in_step_def count tally_remove1 uses_iff [where pm = pm])
  show "room (forgive_attempt refund pm ip name s) = room s" by (rule r(2))
qed

text \<open>
  So a class of attempts that share a bucket never has more outstanding members than the bucket's
  limit.
\<close>

lemma class_bounded:
  assumes shared: "\<And>ip name. C (ip, name) \<Longrightarrow> (k, l) \<in> set (login_buckets pm ip name)"
    and start: "in_step s outs" "tally C outs \<le> l" "3 * length evs \<le> room s" "0 < pm"
    and run: "foldl (login_step hit refund pm) (s, outs) evs = (s', outs')"
  shows "tally C outs' \<le> l"
  using start run
proof (induction evs arbitrary: s outs)
  case (Cons ev evs)
  show ?case
  proof (cases ev)
    case (Begins ip name)
    obtain ok s1 where b: "begin_attempt hit refund pm ip name s = (ok, s1)" by fastforce
    have room: "3 \<le> room s" using Cons.prems(3) by simp
    note a = admit [OF b Cons.prems(1) room Cons.prems(4)]
    let ?outs = "if ok then (ip, name) # outs else outs"
    have "tally C ?outs \<le> l"
    proof (cases "ok \<and> C (ip, name)")
      case True
      have "tally C outs \<le> tally (uses k) outs"
      proof (rule tally_mono)
        fix x assume "C x"
        with shared [of "fst x" "snd x"] show "uses k x" by (cases x) (force simp: uses_iff [where pm = pm])
      qed
      with True a(4) [of k l] shared [of ip name] show ?thesis by simp
    next
      case False
      with Cons.prems(2) show ?thesis by auto
    qed
    moreover have "in_step s1 ?outs" using a(2,3) by auto
    moreover have "3 * length evs \<le> room s1" using a(1) Cons.prems(3) by simp
    ultimately show ?thesis using Cons.IH [of s1 ?outs] Cons.prems(4,5) by (simp add: Begins b)
  next
    case (Succeeds ip name)
    show ?thesis
    proof (cases "(ip, name) \<in> set outs")
      case True
      note f = forgive [OF Cons.prems(1) True Cons.prems(4)]
      have "tally C (remove1 (ip, name) outs) \<le> l" using Cons.prems(2) True by (simp add: tally_remove1)
      with f Cons.IH [of "forgive_attempt refund pm ip name s" "remove1 (ip, name) outs"] Cons.prems(3-5) True
      show ?thesis by (simp add: Succeeds)
    next
      case False
      with Cons show ?thesis by (simp add: Succeeds)
    qed
  qed
qed simp

end

subsection \<open>The process's own counters\<close>

definition standing :: "int \<Rightarrow> local_counters \<Rightarrow> string \<Rightarrow> int" where
  "standing bucket s k = (if lc_window s = bucket then (case map_of (lc_counts s) (k, bucket) of None \<Rightarrow> 0 | Some n \<Rightarrow> n) else 0)"

definition free_slots :: "int \<Rightarrow> local_counters \<Rightarrow> nat" where
  "free_slots bucket s = (if lc_window s = bucket then MAX_COUNTERS + 1 - length (lc_counts s) else MAX_COUNTERS + 1)"

lemma map_of_put_count: "map_of (put_count k n cs) = (map_of cs)(k \<mapsto> n)"
  by (induction k n cs rule: put_count.induct) auto

lemma length_put_count: "length (put_count k n cs) \<le> length cs + 1"
  by (induction k n cs rule: put_count.induct) auto

lemma length_put_known: "map_of cs k = Some m \<Longrightarrow> length (put_count k n cs) = length cs"
  by (induction k n cs rule: put_count.induct) (auto split: if_splits)

interpretation local: hit_counter "local_hit now" "local_refund now" "standing (now div 60)" "free_slots (now div 60)" for now
proof
  fix s :: local_counters and limit a k s'
  assume room: "0 < free_slots (now div 60) s" and l: "0 < (limit :: int)" and h: "local_hit now k limit s = (a, s')"
  let ?b = "now div 60"
  define cs where "cs = (if ?b \<noteq> lc_window s then [] else lc_counts s)"
  have small: "\<not> MAX_COUNTERS < length cs" using room by (auto simp: cs_def free_slots_def split: if_splits)
  have c: "standing ?b s j = (case map_of cs (j, ?b) of None \<Rightarrow> 0 | Some n \<Rightarrow> n)" for j by (simp add: standing_def cs_def)
  have s': "s' = \<lparr>lc_counts = put_count (k, ?b) (standing ?b s k + 1) cs, lc_window = ?b\<rparr>" "a = (standing ?b s k + 1 \<le> limit)"
    using h l small by (auto simp: local_hit_def rate_limit_def local_rate_limit_def Let_def c cs_def [symmetric])
  have "standing ?b s' = (standing ?b s)(k := standing ?b s k + 1)"
    by (rule ext) (simp add: s'(1) standing_def [of _ "\<lparr>lc_counts = _, lc_window = _\<rparr>"] map_of_put_count c)
  moreover have "free_slots ?b s \<le> free_slots ?b s' + 1"
    using length_put_count [of "(k, ?b)" "standing ?b s k + 1" cs] small
    by (auto simp: free_slots_def s'(1) cs_def split: if_splits)
  ultimately show "a = (standing ?b s k + 1 \<le> limit) \<and> standing ?b s' = (standing ?b s)(k := standing ?b s k + 1) \<and> free_slots ?b s \<le> free_slots ?b s' + 1"
    using s'(2) by simp
next
  fix s :: local_counters and limit :: int and k
  let ?b = "now div 60"
  assume c: "0 < standing ?b s k" and "0 < limit"
  then obtain n where n: "lc_window s = ?b" "map_of (lc_counts s) (k, ?b) = Some n" "n \<noteq> 0"
    by (auto simp: standing_def split: if_splits option.splits)
  then have r: "local_refund now k limit s = s\<lparr>lc_counts := put_count (k, ?b) (n - 1) (lc_counts s)\<rparr>"
    using \<open>0 < limit\<close> by (simp add: local_refund_def rate_limit_refund_def Let_def)
  have "standing ?b (local_refund now k limit s) = (standing ?b s)(k := standing ?b s k - 1)"
    using n by (auto simp: r standing_def map_of_put_count fun_eq_iff)
  moreover have "free_slots ?b (local_refund now k limit s) = free_slots ?b s"
    using n by (simp add: r free_slots_def length_put_known)
  ultimately show "standing ?b (local_refund now k limit s) = (standing ?b s)(k := standing ?b s k - 1) \<and>
      free_slots ?b (local_refund now k limit s) = free_slots ?b s" by simp
qed

subsection \<open>Guesses are bounded\<close>

text \<open>
  C19: guessing is bounded per minute when a process counts for itself, as it does with the cache down. Of
  the attempts that arrive within one minute, the first of them the first the process counts in that
  minute, in whatever order they are admitted and forgiven, the wrong guesses and passwords still being
  checked never exceed \<open>RATE_LIMIT_LOGIN_PER_MINUTE\<close> from one address, nor for one account from one address,
  nor ten times that for one account from everywhere. This holds for up to a third of \<open>MAX_COUNTERS\<close>
  events, that is 33333: an attempt takes three counters, and the table is cleared once it is full.
\<close>

theorem login_guesses_bounded:
  assumes run: "foldl (login_step (local_hit now) (local_refund now) pm) (s, []) evs = (s', outs)"
    and new: "lc_window s \<noteq> now div 60" and pm: "0 < pm" and few: "3 * length evs \<le> MAX_COUNTERS"
  shows "tally (\<lambda>a. fst a = ip) outs \<le> pm \<and>
    tally (\<lambda>a. fst a = ip \<and> take 150 (snd a) = take 150 name) outs \<le> pm \<and>
    tally (\<lambda>a. take 150 (snd a) = take 150 name) outs \<le> 10 * pm"
proof -
  have start: "local.in_step now s []" using new by (simp add: local.in_step_def standing_def)
  have room: "3 * length evs \<le> free_slots (now div 60) s" using new few by (simp add: free_slots_def)
  have "tally (\<lambda>a. fst a = ip) outs \<le> pm"
    by (rule local.class_bounded [OF _ start _ room pm run, where k = "''login:ip:'' @ ip"])
      (use pm in \<open>simp_all add: login_buckets_def Let_def\<close>)
  moreover have "tally (\<lambda>a. fst a = ip \<and> take 150 (snd a) = take 150 name) outs \<le> pm"
    by (rule local.class_bounded [OF _ start _ room pm run, where k = "''login:user:'' @ take 150 name @ '':ip:'' @ ip"])
      (use pm in \<open>simp_all add: login_buckets_def Let_def\<close>)
  moreover have "tally (\<lambda>a. take 150 (snd a) = take 150 name) outs \<le> 10 * pm"
    by (rule local.class_bounded [OF _ start _ room pm run, where k = "''login:user:'' @ take 150 name"])
      (use pm in \<open>simp_all add: login_buckets_def Let_def LOGIN_ACCOUNT_CEILING_FACTOR_def\<close>)
  ultimately show ?thesis by simp
qed

text \<open>The counters know the minute only: all times of one are the same to them.\<close>

lemma same_minute:
  "now div 60 = now' div 60 \<Longrightarrow> local_hit now = local_hit now' \<and> local_refund now = local_refund now'"
  by (simp add: fun_eq_iff local_hit_def local_refund_def rate_limit_def rate_limit_refund_def local_rate_limit_def Let_def)

text \<open>A full table is cleared, and every address starts from nothing in the same minute.\<close>

lemma full_table_forgets:
  "MAX_COUNTERS < length (lc_counts s) \<Longrightarrow> 1 \<le> limit \<Longrightarrow> fst (fst (local_rate_limit key limit window now s))"
  by (simp add: local_rate_limit_def Let_def)

definition no_counters :: local_counters where
  "no_counters = \<lparr>lc_counts = [], lc_window = 0\<rparr>"

definition guesses :: "login_event list" where
  "guesses = replicate 5 (Begins ''203.0.113.9'' ''ann'')"

theorem login_guesses_bounded_witness:
  "tally (\<lambda>a. fst a = ''203.0.113.9'') (snd (foldl (login_step (local_hit 600) (local_refund 600) 2) (no_counters, []) guesses)) \<le> 2"
  using login_guesses_bounded [of 600 2 no_counters guesses, OF prod.collapse [symmetric], of "''203.0.113.9''" "''ann''"]
  by (simp add: no_counters_def guesses_def MAX_COUNTERS_def)

text \<open>
  The keys of the buckets are not injective: the account bucket of the name \<open>ann:ip:10.0.0.1\<close> is the
  bucket of \<open>ann\<close> from the address \<open>10.0.0.1\<close>. A minute's wrong guesses at that name from one address elsewhere
  keep \<open>ann\<close> out at hers -- what the bucket per account and address was made to prevent.
\<close>

lemma bucket_collision:
  "fst (login_buckets pm ip ''ann:ip:10.0.0.1'' ! 2) = fst (login_buckets pm ''10.0.0.1'' ''ann'' ! 1)"
  by (simp add: login_buckets_def Let_def)

lemma locked_out_from_elsewhere:
  "fst (begin_attempt (local_hit 600) (local_refund 600) 1 ''10.0.0.1'' ''ann''
     (fst (login_step (local_hit 600) (local_refund 600) 1 (no_counters, []) (Begins ''203.0.113.9'' ''ann:ip:10.0.0.1'')))) = False"
  by (simp add: begin_attempt_def login_buckets_def Let_def LOGIN_ACCOUNT_CEILING_FACTOR_def local_hit_def rate_limit_def
      local_rate_limit_def no_counters_def MAX_COUNTERS_def)

end
