(* ===== verification/Identity_Spec.thy ===== *)
theory Identity_Spec
  imports Identity
begin

section \<open>What an identity stands for\<close>

subsection \<open>Well-formed identities\<close>

text \<open>
  An identity is nobody, or an active account with the credential that proved it: a session or a
  password, which carry no token, or a live token of that account.
\<close>

definition identity_ok :: "auth_db \<Rightarrow> identity \<Rightarrow> bool" where
  "identity_ok db i = (case i_user i of
     None \<Rightarrow> i = nameless
   | Some u \<Rightarrow> u \<in> set (db_users db) \<and> acc_active u \<and> (case i_token i of
       None \<Rightarrow> i_method i \<in> {''session'', PASSWORD_BASIC}
     | Some t \<Rightarrow> i_method i \<in> {''token'', ''basic''} \<and> tok_user t = acc_id u \<and> \<not> revoked t \<and>
         (\<exists>row \<in> set (db_tokens db). t = row\<lparr>tok_last := tok_last t\<rparr>)))"

lemma nameless_ok: "identity_ok db nameless"
  by (simp add: identity_ok_def nameless_def)

lemma touch_token_row: "touch_token now t = t\<lparr>tok_last := tok_last (touch_token now t)\<rparr>"
  by (auto simp: touch_token_def split: option.split)

lemma found_in: "find P xs = Some x \<Longrightarrow> x \<in> set xs \<and> P x"
  by (metis find_Some_iff nth_mem)

lemma token_identity_parts:
  assumes "token_identity hsh now presented db = (Some i, db')"
  obtains prefix secret row u where "split_token presented = Some (prefix, secret)" "row \<in> set (db_tokens db)" "tok_prefix row = prefix"
    "hsh secret = tok_hash row" "\<not> revoked row" "case expires_at row of None \<Rightarrow> True | Some e \<Rightarrow> now \<le> e"
    "u \<in> set (db_users db)" "acc_id u = tok_user row" "acc_active u"
    "i = \<lparr>i_user = Some u, i_token = Some (touch_token now row), i_method = ''token''\<rparr>" "db_users db' = db_users db"
  using assms by (auto simp: token_identity_def verify_token_secret_def Let_def not_less split: option.splits prod.splits if_splits dest!: found_in)

lemma token_identity_ok: "token_identity hsh now presented db = (Some i, db') \<Longrightarrow> identity_ok db i \<and> i_user i \<noteq> None"
proof (erule token_identity_parts)
  fix row :: token and u :: user
  assume "row \<in> set (db_tokens db)" "\<not> revoked row" "u \<in> set (db_users db)" "acc_id u = tok_user row" "acc_active u"
    "i = \<lparr>i_user = Some u, i_token = Some (touch_token now row), i_method = ''token''\<rparr>"
  moreover have "tok_user (touch_token now row) = tok_user row" "revoked (touch_token now row) = revoked row"
    by (simp_all add: touch_token_def split: option.split)
  ultimately show "identity_ok db i \<and> i_user i \<noteq> None" using touch_token_row [of now row] by (auto simp: identity_ok_def)
qed

lemma token_identity_none: "token_identity hsh now presented db = (None, db') \<Longrightarrow> db' = db"
  by (auto simp: token_identity_def Let_def split: option.splits prod.splits if_splits)

text \<open>
  C13: an identity is never more than its credential. Whatever headers and cookies a request brings,
  the identity it resolves to is either nobody or an active account, together with exactly the kind
  of credential its method names; a token is a stored one, of that account, and not revoked.
\<close>

theorem resolved_identity_typed:
  assumes "resolve_identity attempt forgive cfg env r (db, s) = (Inr i, db', s')"
  shows "identity_ok db i"
proof -
  have basic: "identity_ok d i" if "basic_password_identity hm attempt forgive cfg r n p d s = (Inr i, s')" for hm n p d
    using that by (auto simp: basic_password_identity_def Let_def identity_ok_def nameless_def split: prod.splits option.splits bool.splits if_splits dest!: found_in)
  have session: "identity_ok d i" if "session_identity cfg r v d = Inr i" for v d
    using that by (auto simp: session_identity_def identity_ok_def nameless_def split: option.splits json.splits if_splits dest!: found_in)
  have tok: "identity_ok db i" if "or_nameless (token_identity hsh now p db) = (Inr i, db2)" for hsh now p db2
    using that token_identity_ok nameless_ok by (auto simp: or_nameless_def split: prod.splits option.splits)
  have as_basic: "identity_ok db (j\<lparr>i_method := ''basic''\<rparr>)" if "token_identity hsh now p db = (Some j, db2)" for hsh now p j db2
  proof -
    from that have "identity_ok db j \<and> i_user j \<noteq> None" by (rule token_identity_ok)
    moreover from that have "i_token j \<noteq> None" by (auto elim!: token_identity_parts)
    ultimately show ?thesis by (auto simp: identity_ok_def split: option.splits)
  qed
  from assms show ?thesis
    by (auto simp: resolve_identity_def Let_def nameless_ok split: option.splits list.splits prod.splits if_splits
        intro: basic session tok as_basic dest!: token_identity_none)
qed

lemma basic_without_cookie:
  "basic_password_identity hm attempt forgive cfg (r\<lparr>cookie := None\<rparr>) n p db s = basic_password_identity hm attempt forgive cfg r n p db s"
proof -
  have "client_ip cfg (r\<lparr>cookie := None\<rparr>) = client_ip cfg r"
    unfolding client_ip_def peer_address_def by (simp add: Let_def split: option.split)
  then show ?thesis by (simp add: basic_password_identity_def)
qed

text \<open>
  An \<open>Authorization\<close> header is authoritative: when one is sent, what a request may do does not
  depend on the cookie it carries, so a revoked token never falls back to a browser session.
\<close>

theorem header_is_authoritative:
  "case authorization r of None \<Rightarrow> True | Some h \<Rightarrow>
     h = [] \<or> resolve_identity attempt forgive cfg env r st = resolve_identity attempt forgive cfg env (r\<lparr>cookie := None\<rparr>) st"
proof (cases "authorization r")
  case (Some h)
  show ?thesis
  proof (cases h)
    case (Cons c cs)
    with Some show ?thesis unfolding resolve_identity_def basic_without_cookie by (cases st) simp
  qed (simp add: Some)
qed simp

subsection \<open>What the guards demand\<close>

text \<open>
  C29: authority needs a session or a token that carries it. Publishing, administering and handing out
  credentials are never open to nobody or to a password sent over Basic; publishing needs an active
  account with the right, administering an administrator, and where the credential is a token, the
  token itself must hold the scope.
\<close>

theorem guards_demand_authority:
  "(require_publish i = Inr j \<longleftrightarrow> i = j \<and> i_method i \<noteq> PASSWORD_BASIC \<and>
      (case i_user i of None \<Rightarrow> False | Some u \<Rightarrow> acc_active u \<and> (can_publish u \<or> acc_admin u)) \<and>
      (case i_token i of None \<Rightarrow> True | Some t \<Rightarrow> ''publish'' \<in> set (tok_scopes t) \<or> ''admin'' \<in> set (tok_scopes t))) \<and>
   (require_admin i = Inr j \<longleftrightarrow> i = j \<and> i_method i \<noteq> PASSWORD_BASIC \<and>
      (case i_user i of None \<Rightarrow> False | Some u \<Rightarrow> acc_admin u) \<and>
      (case i_token i of None \<Rightarrow> True | Some t \<Rightarrow> ''admin'' \<in> set (tok_scopes t))) \<and>
   (require_primary_credential i = Inr j \<longleftrightarrow> i = j \<and> i_method i \<noteq> PASSWORD_BASIC \<and> i_user i \<noteq> None \<and>
      (case i_token i of None \<Rightarrow> True | Some t \<Rightarrow> ''admin'' \<in> set (tok_scopes t)))"
  by (auto simp: require_publish_def require_admin_def require_primary_credential_def is_authenticated_def ident_is_admin_def
      is_password_basic_def may_publish_def has_scope_def token_has_scope_def split: option.splits)

text \<open>
  Refusals tell the caller which it is. Every guard that refuses answers 401 to a caller it does
  not know and 403 to one it knows.
\<close>

theorem guard_refusal_statuses:
  "list_all (\<lambda>guard. case guard i of Inl e \<Rightarrow> refusal_status e = (if is_authenticated i then 403 else 401) | Inr j \<Rightarrow> j = i)
     [require_user, require_admin, require_primary_credential, require_publish, require_read cfg]"
  by (auto simp: require_user_def require_publish_def require_admin_def require_primary_credential_def require_read_def is_authenticated_def)

subsection \<open>Cross-site requests\<close>

text \<open>
  C16: a cookie is only obeyed on our own pages. When a state-changing request is answered as a
  session, the browser said it came from our own origin or from the user directly; or, saying nothing
  of that, it named a trusted origin in \<open>Origin\<close> or \<open>Referer\<close>, or sent neither, as no browser does.
\<close>

theorem session_needs_same_site:
  assumes "resolve_identity attempt forgive cfg env r (db, s) = (Inr i, db', s')" "i_method i = ''session''" "py_upper (meth r) \<in> set UNSAFE_METHODS"
  shows "case sec_fetch_site r of
      Some site \<Rightarrow> py_lower (py_strip site) \<in> {''same-origin'', ''none''}
    | None \<Rightarrow> (case origin r of
        Some x \<Rightarrow> trusted_origin cfg (origin_of x) \<or>
          py_lower (py_strip x) = ''null'' \<and> (\<exists>u. referer r = Some u \<and> trusted_origin cfg (origin_of u))
      | None \<Rightarrow> (case referer r of None \<Rightarrow> True | Some u \<Rightarrow> u = [] \<or> trusted_origin cfg (origin_of u)))"
proof -
  have tok: "i_method i \<noteq> ''session''" if "or_nameless (token_identity hsh now p db) = (Inr i, db2)" for hsh now p db2
    using that by (auto simp: or_nameless_def nameless_def split: prod.splits option.splits elim!: token_identity_parts)
  have basic: "i_method i \<noteq> ''session''" if "basic_password_identity hm attempt forgive cfg r n p db2 s = (Inr i, s')" for hm n p db2
    using that by (auto simp: basic_password_identity_def Let_def nameless_def PASSWORD_BASIC_def split: prod.splits option.splits bool.splits if_splits)
  have "\<not> is_cross_site cfg r"
  proof -
    from assms(1,2) obtain v where "session_identity cfg r v db = Inr i"
      by (auto simp: resolve_identity_def Let_def nameless_def split: option.splits list.splits prod.splits if_splits dest: tok basic)
    with assms(2) show ?thesis
      by (auto simp: session_identity_def nameless_def split: option.splits json.splits if_splits)
  qed
  with assms(3) show ?thesis by (auto simp: is_cross_site_def split: option.splits if_splits)
qed

subsection \<open>The caller's address\<close>

lemma split_on_last: "d \<notin> set t \<Longrightarrow> split_on d (s @ d # t) = split_on d s @ [t]"
proof (induction s)
  case (Cons c s)
  then show ?case by (auto split: list.split simp: append_eq_Cons_conv)
qed (simp add: split_on_notin)

text \<open>What a proxy does with \<open>X-Forwarded-For\<close>: it appends the address it saw.\<close>

definition proxy_append :: "string \<Rightarrow> string \<Rightarrow> string" where
  "proxy_append h address = (if h = [] then address else h @ '', '' @ address)"

definition plain_address :: "string \<Rightarrow> bool" where
  "plain_address a = (a \<noteq> [] \<and> list_all (\<lambda>c. c \<noteq> CHR '','' \<and> \<not> is_space c) a)"

lemma plain_strip: "plain_address a \<Longrightarrow> py_strip a = a \<and> py_strip (CHR '' '' # a) = a"
proof -
  assume "plain_address a"
  then have a: "py_strip a = a" "a \<noteq> []" by (auto simp: plain_address_def list_all_iff intro: py_strip_nospace)
  have "is_space (CHR '' '')" by (simp add: is_space_def)
  then show ?thesis using a by (simp add: py_strip_def py_lstrip_def)
qed

lemma forwarded_append:
  assumes "plain_address a"
  shows "forwarded_parts (proxy_append h a) = forwarded_parts h @ [a]"
proof -
  have "CHR '','' \<notin> set (CHR '' '' # a)" "CHR '','' \<notin> set a" "a \<noteq> []" using assms by (auto simp: plain_address_def list_all_iff)
  then show ?thesis using plain_strip [OF assms] split_on_last [of "CHR '',''" "CHR '' '' # a" h]
    by (auto simp: proxy_append_def forwarded_parts_def split_on_notin py_strip_def py_lstrip_def py_rstrip_def)
qed

lemma forwarded_chain:
  "list_all plain_address chain \<Longrightarrow> forwarded_parts (foldl proxy_append h chain) = forwarded_parts h @ chain"
  by (induction chain arbitrary: h) (simp_all add: forwarded_append)

text \<open>
  C20: a client cannot choose its address. With as many proxies in front as the settings say, whatever
  the client itself wrote into \<open>X-Forwarded-For\<close>, the address used for limits and the audit log is the
  one the outermost proxy saw.
\<close>

theorem client_ip_not_forged:
  assumes "is_trusted_proxy cfg (peer r)" "forwarded_for r = Some (foldl proxy_append claimed chain)"
    and "int (length chain) = proxy_hops cfg" "chain \<noteq> []" "list_all plain_address chain"
  shows "client_ip cfg r = Some (take 64 (hd chain))"
proof -
  have "forwarded_parts (foldl proxy_append claimed chain) = forwarded_parts claimed @ chain"
    using assms(5) by (rule forwarded_chain)
  moreover have "nat (max 1 (proxy_hops cfg)) = length chain" using assms(3,4) by (cases chain) auto
  ultimately show ?thesis using assms(1,2,4) by (simp add: client_ip_def nth_append hd_conv_nth)
qed

subsection \<open>Tokens\<close>

lemma split_on_first_two:
  assumes "d \<notin> set a" "d \<notin> set b"
  shows "split_on d (a @ d # b @ d # s) = a # b # split_on d s"
  using assms by (simp add: split_on_append)

lemma split_generated:
  assumes "CHR ''_'' \<notin> set tag" "CHR ''_'' \<notin> set pid" "s \<noteq> []"
    "list_all (\<lambda>c. \<not> is_space c) (tag @ pid @ s)"
  shows "split_token (fst (generate_token hsh tag pid s)) = Some (tag @ ''_'' @ pid, s)"
proof -
  let ?full = "tag @ CHR ''_'' # pid @ CHR ''_'' # s"
  have "\<not> is_space (CHR ''_'')" by (simp add: is_space_def)
  with assms(4) have strip: "py_strip ?full = ?full" by (intro py_strip_nospace) (auto simp: list_all_iff)
  have parts: "split_on (CHR ''_'') ?full = tag # pid # split_on (CHR ''_'') s"
    using assms(1,2) by (rule split_on_first_two)
  have "split_on (CHR ''_'') s \<noteq> []" by simp
  then show ?thesis using assms(3)
    by (auto simp: generate_token_def Let_def split_token_def strip parts join_split_on Suc_le_eq)
qed

text \<open>
  A token opens the account it was made for. The token handed out for a row of \<open>api_tokens\<close> --
  its prefix and the hash of its secret -- authenticates that row and its account for as long as the
  row is not revoked or expired and the account is active.
\<close>

theorem generated_token_accepted:
  assumes "generate_token hsh tag pid secret = (full, prefix, h)"
    and "CHR ''_'' \<notin> set tag" "CHR ''_'' \<notin> set pid" "secret \<noteq> []" "list_all (\<lambda>c. \<not> is_space c) (tag @ pid @ secret)"
    and "find (\<lambda>t. tok_prefix t = prefix) (db_tokens db) = Some t" "tok_hash t = h" "\<not> revoked t"
    and "case expires_at t of None \<Rightarrow> True | Some e \<Rightarrow> now \<le> e"
    and "find (\<lambda>u. acc_id u = tok_user t) (db_users db) = Some u" "acc_active u"
  shows "fst (token_identity hsh now full db) = Some \<lparr>i_user = Some u, i_token = Some (touch_token now t), i_method = ''token''\<rparr>"
proof -
  have "split_token full = Some (prefix, secret)" "h = hsh secret"
    using split_generated [OF assms(2-5), of hsh] assms(1) by (auto simp: generate_token_def Let_def)
  with assms(6-11) show ?thesis
    by (simp add: token_identity_def verify_token_secret_def Let_def split: option.splits)
qed

text \<open>A token prefix with an underscore of its own breaks every token: the id is read as the secret.\<close>

lemma underscore_in_tag:
  "split_token (fst (generate_token hsh ''my_reg'' ''a1b2'' ''s3cret'')) = Some (''my_reg'', ''a1b2_s3cret'')"
  by (simp add: generate_token_def Let_def split_token_def py_strip_def py_lstrip_def py_rstrip_def is_space_def)

subsection \<open>Examples\<close>

definition ann :: user where
  "ann = \<lparr>acc_id = 7, acc_admin = False, can_publish = True, acc_active = True, u_name = ''ann'', u_hash = None, u_version = 2, u_local = True\<rparr>"

definition ann_token :: token where
  "ann_token = \<lparr>tok_id = 1, tok_user = 7, tok_scopes = [''publish''], repo_prefixes = [], revoked = False, expires_at = Some 500,
     tok_prefix = ''mrg_a1'', tok_hash = ''s3cret'', tok_last = None\<rparr>"

definition ann_db :: auth_db where
  "ann_db = \<lparr>db_users = [ann], db_tokens = [ann_token], db_revoked = []\<rparr>"

definition sample_settings :: settings where
  "sample_settings = \<lparr>proxies_v4 = [(167772160, 8)], proxies_v6 = [], proxy_hops = 2, public_url = ''https://reg.example'', dev_mode = False,
     token_tag = ''mrg'', limits_on = True, login_per_minute = 10, anonymous_reads = True, anonymous_per_minute = 600, authenticated_per_minute = 3000\<rparr>"

definition put_with_cookie :: web_request where
  "put_with_cookie = \<lparr>peer = Some ''10.0.0.2'', forwarded_for = Some ''6.6.6.6, 203.0.113.9, 10.0.0.3'', real_ip = None, authorization = None,
     cookie = Some ''jwt'', meth = ''PUT'', sec_fetch_site = Some ''same-origin'', origin = None, referer = None\<rparr>"

definition sample_auth_env :: auth_env where
  "sample_auth_env = \<lparr>sha = id, matches = (=), utf8 = map char_of,
     verified_cookie = (\<lambda>_. Some (session_claims 43200 100 ''abc'' 7 ''ann'' False None 2)), clock = 200\<rparr>"

lemma put_fields: "meth put_with_cookie = ''PUT''" "sec_fetch_site put_with_cookie = Some ''same-origin''"
  "authorization put_with_cookie = None" "cookie put_with_cookie = Some ''jwt''" "peer put_with_cookie = Some ''10.0.0.2''"
  "forwarded_for put_with_cookie = Some ''6.6.6.6, 203.0.113.9, 10.0.0.3''"
  by (simp_all add: put_with_cookie_def)

lemma put_unsafe: "py_upper ''PUT'' \<in> set UNSAFE_METHODS"
  by (simp add: py_upper_def upper_char_def UNSAFE_METHODS_def)

lemma cookie_session:
  "resolve_identity (\<lambda>_ _ s. (True, s)) (\<lambda>_ _ s. s) sample_settings sample_auth_env put_with_cookie (ann_db, ())
     = (Inr \<lparr>i_user = Some ann, i_token = None, i_method = ''session''\<rparr>, ann_db, ())"
proof -
  let ?claims = "session_claims 43200 100 ''abc'' 7 ''ann'' False None 2"
  have c: "jget ?claims ''typ'' = JStr ''session''" "jget ?claims ''sub'' = JStr (show_nat 7)" "jget_or ?claims ''sv'' (JInt 0) = JInt 2"
    by (simp_all add: session_claims_def jget_def jget_or_def jhas_def show_int_def)
  have "\<not> is_cross_site sample_settings put_with_cookie" by code_simp
  then have "session_identity sample_settings put_with_cookie (Some ?claims) ann_db = Inr \<lparr>i_user = Some ann, i_token = None, i_method = ''session''\<rparr>"
    by (simp add: session_identity_def decode_session_token_def c ann_db_def ann_def session_revoked_def split: json.split)
  then show ?thesis by (simp add: resolve_identity_def put_fields sample_auth_env_def)
qed

theorem resolved_identity_typed_witness: "identity_ok ann_db \<lparr>i_user = Some ann, i_token = None, i_method = ''session''\<rparr>"
  by (rule resolved_identity_typed [OF cookie_session])

theorem session_needs_same_site_witness: "py_lower (py_strip ''same-origin'') \<in> {''same-origin'', ''none''}"
  using session_needs_same_site [OF cookie_session, unfolded put_fields, OF _ put_unsafe] by (simp only: option.case identity.select_convs simp_thms)

theorem client_ip_not_forged_witness: "client_ip sample_settings put_with_cookie = Some (take 64 ''203.0.113.9'')"
proof -
  have p: "parse_v4 ''10.0.0.2'' = Some 167772162"
    by (simp add: parse_v4_def octet_def is_digit_def nat_of_digits_def digit_val_def)
  have "is_trusted_proxy sample_settings (peer put_with_cookie)"
    by (simp add: is_trusted_proxy_def put_fields sample_settings_def ip_address_def p in_net_def)
  moreover have "list_all plain_address [''203.0.113.9'', ''10.0.0.3'']" by (simp add: plain_address_def is_space_def)
  ultimately show ?thesis using client_ip_not_forged [of sample_settings put_with_cookie "''6.6.6.6''" "[''203.0.113.9'', ''10.0.0.3'']"]
    by (simp add: put_fields proxy_append_def sample_settings_def)
qed

theorem generated_token_accepted_witness:
  "fst (token_identity id 200 ''mrg_a1_s3cret'' ann_db) = Some \<lparr>i_user = Some ann, i_token = Some (touch_token 200 ann_token), i_method = ''token''\<rparr>"
proof (rule generated_token_accepted)
  show "generate_token id ''mrg'' ''a1'' ''s3cret'' = (''mrg_a1_s3cret'', ''mrg_a1'', ''s3cret'')" by (simp add: generate_token_def Let_def)
qed (simp_all add: ann_db_def ann_token_def ann_def is_space_def)

end
