(* ===== verification/Cvss.thy ===== *)
theory Cvss
  imports Complex_Main Py_Regex Py_Json
begin

section \<open>Advisory severities (\<open>services/osv.py\<close>)\<close>

text \<open>
  How an OSV record is read: the identifiers it carries, the CVSS vectors and labels it publishes
  and the score they are worth. A Python float is the rational number it denotes, so the constants
  and equations below are exact; \<open>round\<close> rounds half to even, as Python's does. A record is a JSON
  value, and where the code would raise on an unexpected shape the model returns the exception.
\<close>

datatype scan_exn =
    AttributeError
  | TypeError
  | ValueError
  | KeyError
  | HttpTimeout
  | RuntimeError int
  | Unfollowed
    \<comment> \<open>no exception: the program goes on with an infinite or undefined score or with an advisory
      identifier that is not a string; the model stops there\<close>

subsection \<open>Reading JSON the way the code does\<close>

definition dict_get :: "json \<Rightarrow> string \<Rightarrow> scan_exn + json" where
  \<comment> \<open>\<open>d.get(k)\<close>\<close>
  "dict_get d k = (if is_obj d then Inr (jget d k) else Inl AttributeError)"

definition str_or_empty :: "scan_exn \<Rightarrow> json \<Rightarrow> scan_exn + string" where
  \<comment> \<open>\<open>x or ""\<close>, then used as a string; \<open>e\<close> is what using something else raises\<close>
  "str_or_empty e j = (if jtruthy j then (case as_str j of Some s \<Rightarrow> Inr s | None \<Rightarrow> Inl e) else Inr [])"

definition elems_or_empty :: "json \<Rightarrow> scan_exn + json list" where
  \<comment> \<open>the elements of \<open>for _ in x or []\<close>\<close>
  "elems_or_empty j = (if \<not> jtruthy j then Inr [] else (case j of
     JList xs \<Rightarrow> Inr xs
   | JObj kvs \<Rightarrow> Inr (map (\<lambda>kv. JStr (fst kv)) kvs)
   | JStr s \<Rightarrow> Inr (map (\<lambda>c. JStr [c]) s)
   | _ \<Rightarrow> Inl TypeError))"

datatype pyfloat = Finite rat | PosInf | NegInf | NaN

definition digits_part :: re where
  \<comment> \<open>digits, with single underscores between them\<close>
  "digits_part = Seq (Cls is_digit) (Star (Seq (Opt (Lit CHR ''_'')) (Cls is_digit)))"

definition FLOAT_RE :: re where
  "FLOAT_RE = Seqs [Grp 1 (Opt (OneOf ''+-'')),
     Alt (Seqs [Grp 2 digits_part, Opt (Seq (Lit CHR ''.'') (Grp 3 (Opt digits_part)))])
         (Seq (Lit CHR ''.'') (Grp 3 digits_part)),
     Opt (Seqs [OneOf ''eE'', Grp 4 (Opt (OneOf ''+-'')), Grp 5 digits_part])]"

definition group_of :: "caps \<Rightarrow> nat \<Rightarrow> string" where
  "group_of g n = (case g n of None \<Rightarrow> [] | Some s \<Rightarrow> s)"

definition float_of_str :: "string \<Rightarrow> pyfloat option" where
  \<comment> \<open>\<open>float(s)\<close>; \<open>None\<close> is its \<open>ValueError\<close>\<close>
  "float_of_str s = (let t = py_strip s; u = py_lower (if t \<noteq> [] \<and> hd t \<in> set ''+-'' then tl t else t) in
     if u \<in> {''inf'', ''infinity''} then Some (if hd t = CHR ''-'' then NegInf else PosInf)
     else if u = ''nan'' then Some NaN
     else (case re_match FLOAT_RE t of
       Some ([], g) \<Rightarrow> (let
           digits = filter is_digit (group_of g 2); frac = filter is_digit (group_of g 3);
           scale = int (nat_of_digits (filter is_digit (group_of g 5))) * (if group_of g 4 = ''-'' then -1 else 1)
                   - int (length frac);
           m = of_nat (nat_of_digits (digits @ frac)) * (if group_of g 1 = ''-'' then -1 else 1);
           v = (if 0 \<le> scale then m * 10 ^ nat scale else m / 10 ^ nat (- scale))
         in Some (if 2 ^ 1024 \<le> v then PosInf else if v \<le> - (2 ^ 1024) then NegInf else Finite v))
     | _ \<Rightarrow> None))"

subsection \<open>Identifiers and labels\<close>

definition any_case :: "string \<Rightarrow> re" where
  \<comment> \<open>a literal under \<open>re.IGNORECASE\<close>\<close>
  "any_case w = Seqs (map (\<lambda>c. Cls (\<lambda>x. lower_char x = lower_char c)) w)"

definition CVE_RE :: re where
  "CVE_RE = Seqs [any_case ''CVE-'', Times 4 (Cls is_digit), Lit CHR ''-'',
     Times 4 (Cls is_digit), Star (Cls is_digit), EndZ]"

definition MAL_RE :: re where
  "MAL_RE = Seqs [any_case ''MAL-'', Times 4 (Cls is_digit), Lit CHR ''-'', Plus (Cls is_digit), EndZ]"

definition MALICIOUS_SCORE :: rat where "MALICIOUS_SCORE = 10"

definition SEVERITY_BANDS :: "(rat \<times> string) list" where
  "SEVERITY_BANDS = [(9, ''critical''), (7, ''high''), (4, ''medium''), (1/10, ''low''), (0, ''none'')]"

definition severity_label :: "rat option \<Rightarrow> string option" where
  "severity_label score = (case score of None \<Rightarrow> None
   | Some s \<Rightarrow> Some (case find (\<lambda>(threshold, label). threshold \<le> s) SEVERITY_BANDS of
       Some (_, label) \<Rightarrow> label | None \<Rightarrow> ''none''))"

definition alias_list :: "json \<Rightarrow> scan_exn + json list" where
  "alias_list rec = sum_bind (dict_get rec ''aliases'') elems_or_empty"

definition is_malicious :: "json \<Rightarrow> scan_exn + bool" where
  "is_malicious rec = sum_bind (dict_get rec ''id'') (\<lambda>i. sum_bind (str_or_empty TypeError i) (\<lambda>ident.
     if re_matches MAL_RE ident then Inr True
     else sum_bind (alias_list rec) (\<lambda>as.
       Inr (list_ex (\<lambda>a. case as_str a of Some s \<Rightarrow> re_matches MAL_RE s | None \<Rightarrow> False) as))))"

definition extract_cve :: "json \<Rightarrow> scan_exn + string option" where
  "extract_cve rec = sum_bind (dict_get rec ''id'') (\<lambda>i. sum_bind (str_or_empty TypeError i) (\<lambda>ident.
     if re_matches CVE_RE ident then Inr (Some (py_upper ident))
     else sum_bind (alias_list rec) (\<lambda>as.
       Inr (map_option py_upper (find (re_matches CVE_RE) (List.map_filter as_str as))))))"

subsection \<open>CVSS vectors\<close>

definition vector_parts :: "string \<Rightarrow> string \<rightharpoonup> string" where
  "vector_parts vector = foldl (\<lambda>parts chunk. (case py_partition CHR '':'' chunk of
       (key, sep, value) \<Rightarrow> if sep = [] then parts else parts(py_strip key \<mapsto> py_strip value)))
     Map.empty (split_on CHR ''/'' vector)"

definition round_even :: "rat \<Rightarrow> int" where
  \<comment> \<open>\<open>round(x)\<close>: to the nearest integer, halves to the even one\<close>
  "round_even x = (let f = \<lfloor>x\<rfloor>; d = x - of_int f in
     if d < 1/2 then f else if 1/2 < d then f + 1 else if even f then f else f + 1)"

definition round_up :: "rat \<Rightarrow> rat" where
  \<comment> \<open>\<open>int(integer / 10000)\<close> truncates towards zero\<close>
  "round_up v = (let i = round_even (v * 100000) in
     if i mod 10000 = 0 then of_int i / 100000
     else of_int (sgn i * (\<bar>i\<bar> div 10000) + 1) / 10)"

definition metric :: "(string \<times> rat) list \<Rightarrow> string option \<Rightarrow> rat option" where
  \<comment> \<open>\<open>table[key]\<close>, where a missing part of the vector is a \<open>KeyError\<close> too\<close>
  "metric table key = Option.bind key (map_of table)"

definition part_or :: "(string \<rightharpoonup> string) \<Rightarrow> string \<Rightarrow> string \<Rightarrow> string" where
  \<comment> \<open>\<open>p.get(key, default)\<close>\<close>
  "part_or p key d = (case p key of Some v \<Rightarrow> v | None \<Rightarrow> d)"

text \<open>The tables of weights, and the two equations that every version shares.\<close>

definition cia3 :: "(string \<times> rat) list" where
  "cia3 = [(''H'', 56/100), (''L'', 22/100), (''N'', 0)]"

definition subsequent4 :: "(string \<times> rat) list" where
  "subsequent4 = [(''H'', 30/100), (''L'', 12/100), (''N'', 0)]"

definition impact_of :: "rat \<Rightarrow> rat \<Rightarrow> rat \<Rightarrow> rat" where
  "impact_of c i a = 1 - (1 - c) * (1 - i) * (1 - a)"

definition score3 :: "bool \<Rightarrow> rat \<Rightarrow> rat \<Rightarrow> rat" where
  "score3 scope_changed iss exploitability = (let
     impact = (if scope_changed then 752/100 * (iss - 29/1000) - 325/100 * (iss - 2/100) ^ 15
               else 642/100 * iss)
     in if impact \<le> 0 then 0
        else round_up (min ((impact + exploitability) * (if scope_changed then 108/100 else 1)) 10))"

definition cvss3_base :: "string \<Rightarrow> rat option" where
  "cvss3_base vector = (let p = vector_parts vector in
     Option.bind (metric [(''N'', 85/100), (''A'', 62/100), (''L'', 55/100), (''P'', 2/10)] (p ''AV'')) (\<lambda>av.
     Option.bind (metric [(''L'', 77/100), (''H'', 44/100)] (p ''AC'')) (\<lambda>ac.
     Option.bind (metric [(''N'', 85/100), (''R'', 62/100)] (p ''UI'')) (\<lambda>ui.
     Option.bind (p ''S'') (\<lambda>s. let scope_changed = (s = ''C'') in
     Option.bind (metric (if scope_changed then [(''N'', 85/100), (''L'', 68/100), (''H'', 50/100)]
                          else [(''N'', 85/100), (''L'', 62/100), (''H'', 27/100)]) (p ''PR'')) (\<lambda>pr.
     Option.bind (metric cia3 (p ''C'')) (\<lambda>conf.
     Option.bind (metric cia3 (p ''I'')) (\<lambda>integ.
     Option.bind (metric cia3 (p ''A'')) (\<lambda>avail.
       Some (score3 scope_changed (impact_of conf integ avail) (822/100 * av * ac * pr * ui)))))))))))"

definition LOW_FLOOR :: rat where "LOW_FLOOR = 2"

definition score4 :: "rat \<Rightarrow> rat \<Rightarrow> rat \<Rightarrow> rat" where
  "score4 iss sss exploitability = (let
     combined = min 1 (iss + sss * (1 - iss));
     impact = 642/100 * combined
     in if combined \<le> 0 then 0
        else max (round_up (min (impact + exploitability) 10)) LOW_FLOOR)"

definition cvss4_base :: "string \<Rightarrow> rat option" where
  "cvss4_base vector = (let p = vector_parts vector in
     Option.bind (metric [(''N'', 85/100), (''A'', 62/100), (''L'', 55/100), (''P'', 2/10)] (p ''AV'')) (\<lambda>av.
     Option.bind (metric [(''L'', 77/100), (''H'', 44/100)] (p ''AC'')) (\<lambda>ac.
     Option.bind (metric [(''N'', 1), (''P'', 7/10)] (Some (part_or p ''AT'' ''N''))) (\<lambda>att.
     Option.bind (metric [(''N'', 85/100), (''P'', 68/100), (''A'', 62/100)] (Some (part_or p ''UI'' ''N''))) (\<lambda>ui.
     Option.bind (metric [(''N'', 85/100), (''L'', 62/100), (''H'', 27/100)] (Some (part_or p ''PR'' ''N''))) (\<lambda>pr.
     Option.bind (metric cia3 (Some (part_or p ''VC'' (part_or p ''C'' ''N'')))) (\<lambda>conf.
     Option.bind (metric cia3 (Some (part_or p ''VI'' (part_or p ''I'' ''N'')))) (\<lambda>integ.
     Option.bind (metric cia3 (Some (part_or p ''VA'' (part_or p ''A'' ''N'')))) (\<lambda>avail.
     Option.bind (metric subsequent4 (Some (part_or p ''SC'' ''N''))) (\<lambda>sub_conf.
     Option.bind (metric subsequent4 (Some (part_or p ''SI'' ''N''))) (\<lambda>sub_integ.
     Option.bind (metric subsequent4 (Some (part_or p ''SA'' ''N''))) (\<lambda>sub_avail.
       Some (score4 (impact_of conf integ avail) (impact_of sub_conf sub_integ sub_avail)
               (822/100 * av * ac * att * pr * ui))))))))))))))"

definition score2 :: "rat \<Rightarrow> rat \<Rightarrow> rat" where
  \<comment> \<open>\<open>round(x, 1)\<close> is the exact value's nearest tenth\<close>
  "score2 impact exploitability =
     of_int (round_even (10 * ((6/10 * impact + 4/10 * exploitability - 15/10)
                               * (if impact = 0 then 0 else 1176/1000)))) / 10"

definition cvss2_base :: "string \<Rightarrow> rat option" where
  "cvss2_base vector = (let p = vector_parts vector;
     cia = [(''N'', 0), (''P'', 275/1000), (''C'', 660/1000)] in
     Option.bind (metric [(''L'', 395/1000), (''A'', 646/1000), (''N'', 1)] (p ''AV'')) (\<lambda>av.
     Option.bind (metric [(''H'', 35/100), (''M'', 61/100), (''L'', 71/100)] (p ''AC'')) (\<lambda>ac.
     Option.bind (metric [(''M'', 45/100), (''S'', 56/100), (''N'', 704/1000)] (p ''Au'')) (\<lambda>au.
     Option.bind (metric cia (p ''C'')) (\<lambda>conf.
     Option.bind (metric cia (p ''I'')) (\<lambda>integ.
     Option.bind (metric cia (p ''A'')) (\<lambda>avail.
       Some (score2 (1041/100 * impact_of conf integ avail) (20 * av * ac * au)))))))))"

definition parse_cvss_vector :: "json \<Rightarrow> scan_exn + rat option" where
  "parse_cvss_vector j = (if \<not> jtruthy j then Inr None else (case as_str j of
     None \<Rightarrow> Inl AttributeError
   | Some s \<Rightarrow> let vector = py_strip s in Inr (
       if starts_with vector ''CVSS:3'' then cvss3_base vector
       else if starts_with vector ''CVSS:4'' then cvss4_base vector
       else if starts_with vector ''AV:'' then cvss2_base vector
       else None)))"

subsection \<open>The severity of a record\<close>

type_synonym candidate = "nat \<times> rat \<times> string \<times> string"

definition SEVERITY_PREFERENCE :: "string \<Rightarrow> nat" where
  "SEVERITY_PREFERENCE stype = (case map_of [(''CVSS_V3'', 3), (''CVSS_V4'', 2), (''CVSS_V2'', 1)] stype of
     Some n \<Rightarrow> n | None \<Rightarrow> 0)"

definition SEVERITY_LABEL_FLOOR :: "(string \<times> rat) list" where
  "SEVERITY_LABEL_FLOOR = [(''CRITICAL'', 9), (''HIGH'', 7), (''MODERATE'', 4), (''MEDIUM'', 4), (''LOW'', 1/10)]"

definition severity_candidate :: "json \<Rightarrow> scan_exn + candidate option" where
  \<comment> \<open>one entry of \<open>severity\<close>; \<open>None\<close> is the loop's \<open>continue\<close>\<close>
  "severity_candidate entry = (if \<not> is_obj entry then Inr None else
     sum_bind (str_or_empty AttributeError (jget entry ''type'')) (\<lambda>t. let stype = py_upper t; raw = jget entry ''score'' in
     sum_bind (parse_cvss_vector raw) (\<lambda>parsed.
     sum_bind (str_or_empty AttributeError raw) (\<lambda>text. (case parsed of
       Some score \<Rightarrow> Inr (Some (SEVERITY_PREFERENCE stype, score, stype, text))
     | None \<Rightarrow> (case float_of_str text of
         None \<Rightarrow> Inr None
       | Some (Finite score) \<Rightarrow> Inr (Some (SEVERITY_PREFERENCE stype, score, stype, text))
       | Some _ \<Rightarrow> Inl Unfollowed))))))"

definition or_empty_dict :: "json \<Rightarrow> json" where
  "or_empty_dict j = (if jtruthy j then j else JObj [])"

definition database_candidate :: "json \<Rightarrow> scan_exn + candidate list" where
  "database_candidate rec = sum_bind (dict_get (or_empty_dict (jget rec ''database_specific'')) ''cvss'') (\<lambda>c.
     let raw = or_empty_dict c; vector = jget raw ''vectorString'' in
     if is_obj raw \<and> jtruthy vector
     then sum_bind (parse_cvss_vector vector) (\<lambda>parsed. (case parsed of
       None \<Rightarrow> Inr []
     | Some score \<Rightarrow> Inr [(2, score, ''CVSS_V3'', the (as_str vector))]))
     else Inr [])"

definition label_floor :: "json \<Rightarrow> scan_exn + (rat \<times> string) option" where
  \<comment> \<open>\<open>str(label)\<close> of something that is not a string is never one of the labels\<close>
  "label_floor rec = sum_bind (dict_get (or_empty_dict (jget rec ''database_specific'')) ''severity'') (\<lambda>l.
     Inr (case as_str l of
       None \<Rightarrow> None
     | Some s \<Rightarrow> let label = py_upper (py_strip s) in
         map_option (\<lambda>least. (least, label)) (map_of SEVERITY_LABEL_FLOOR label)))"

definition better :: "candidate \<Rightarrow> candidate \<Rightarrow> candidate" where
  "better best c = (if (fst best, fst (snd best)) < (fst c, fst (snd c)) then c else best)"

definition text_or_none :: "string \<Rightarrow> string option" where
  "text_or_none s = (if s = [] then None else Some s)"

definition best_severity :: "json \<Rightarrow> scan_exn + rat option \<times> string option \<times> string option" where
  "best_severity rec =
     sum_bind (dict_get rec ''severity'') (\<lambda>sev.
     sum_bind (elems_or_empty sev) (\<lambda>entries.
     sum_bind (sum_map severity_candidate entries) (\<lambda>found. let own = List.map_filter (\<lambda>x. x) found in
     sum_bind (if own = [] then database_candidate rec else Inr own) (\<lambda>candidates. (case candidates of
       [] \<Rightarrow> sum_bind (label_floor rec) (\<lambda>l. Inr (case l of
           Some (least, label) \<Rightarrow> (Some least, Some ''LABEL'', Some label)
         | None \<Rightarrow> (None, None, None)))
     | c # cs \<Rightarrow> (case foldl better c cs of (_, score, stype, vector) \<Rightarrow>
         Inr (Some score, text_or_none stype, text_or_none vector)))))))"

end
