(* ===== verification/Osv.thy ===== *)
theory Osv
  imports Cvss Naming
begin

section \<open>Scanning versions for advisories (\<open>services/osv.py\<close>)\<close>

text \<open>
  The scanner asks OSV which advisories name a version, reads each advisory once, stores it, and
  writes the verdict onto the version. The state is the four tables it touches; OSV is part of the
  environment, a reply for every request (the batch it belongs to, the advisory, the attempt).
  A timestamp is a number of microseconds since the epoch, with or without a zone: \<open>e_iso\<close> is
  \<open>datetime.fromisoformat\<close> and \<open>e_http_date\<close> is \<open>parsedate_to_datetime\<close>. A raised exception is
  \<open>Inl\<close>; the tables keep what was written before it.
\<close>

datatype stamp = Naive int | Aware int

fun instant :: "stamp \<Rightarrow> int" where
  "instant (Naive t) = t"
| "instant (Aware t) = t"

fun aware :: "stamp \<Rightarrow> stamp" where
  "aware (Naive t) = Aware t"
| "aware (Aware t) = Aware t"

datatype fetch_reply = Lost | Reply int "string option" "json option"

datatype batch_reply = Batch_lost | Batch_reply int "json option"

record osv_env =
  e_enabled :: bool
  e_inline :: bool
  e_cve_only :: bool
  e_batch :: nat
  e_refresh :: int
  e_now :: int
  e_iso :: "string \<Rightarrow> stamp option"
  e_http_date :: "string \<Rightarrow> stamp option"
  e_query :: "nat \<Rightarrow> (string \<times> string \<times> string) list \<Rightarrow> batch_reply"
  e_fetch :: "nat \<Rightarrow> string \<Rightarrow> nat \<Rightarrow> fetch_reply"

record advisory_row =
  vr_id :: string
  vr_cve :: string
  vr_eco :: string
  vr_summary :: json
  vr_details :: "string option"
  vr_type :: "string option"
  vr_vector :: "string option"
  vr_score :: "rat option"
  vr_label :: "string option"
  vr_aliases :: json
  vr_references :: json
  vr_published :: "stamp option"
  vr_modified :: "stamp option"
  vr_withdrawn :: "stamp option"
  vr_raw :: json
  vr_fetched :: "stamp option"

record vuln_link =
  lk_version :: nat
  lk_vuln :: string
  lk_fixed :: json
  lk_suppressed :: bool

record version_row =
  sv_id :: nat
  sv_package :: nat
  sv_version :: string
  sv_max_cvss :: "rat option"
  sv_has_fix :: bool
  sv_has_advisories :: bool
  sv_malicious :: bool
  sv_scanned_at :: "stamp option"

record osv_db =
  advisories :: "advisory_row list"
  links :: "vuln_link list"
  version_rows :: "version_row list"
  package_rows :: "(nat \<times> string \<times> string) list"
  changed_packages :: "(string \<times> string) list"
  package_keys :: "nat \<rightharpoonup> (string \<times> string) option"
  counters :: "string list"

text \<open>One advisory of a result, and the result of a version.\<close>

record finding =
  f_id :: string
  f_cve :: string
  f_score :: "rat option"
  f_severity :: "string option"
  f_summary :: json
  f_fixed :: json
  f_raw :: json
  f_malicious :: bool

record scan_result =
  sr_package :: string
  sr_version :: string
  sr_cves :: "finding list"
  sr_max_score :: "rat option"
  sr_has_fix :: bool
  sr_scanned :: bool
  sr_malicious :: bool

definition unscanned :: "string \<times> string \<Rightarrow> scan_result" where
  "unscanned key = \<lparr>sr_package = fst key, sr_version = snd key, sr_cves = [], sr_max_score = None,
     sr_has_fix = False, sr_scanned = False, sr_malicious = False\<rparr>"

definition sr_severity :: "scan_result \<Rightarrow> string option" where
  "sr_severity r = severity_label (sr_max_score r)"

definition sr_has_advisories :: "scan_result \<Rightarrow> bool" where
  "sr_has_advisories r = (sr_cves r \<noteq> [])"

definition OSV_ECOSYSTEM :: "string \<Rightarrow> string" where
  "OSV_ECOSYSTEM eco = (if eco = ''npm'' then ''npm'' else if eco = ''pypi'' then ''PyPI'' else ''crates.io'')"

definition bump :: "string \<Rightarrow> osv_db \<Rightarrow> osv_db" where
  "bump c db = db\<lparr>counters := counters db @ [c]\<rparr>"

subsection \<open>Timestamps and fixed versions\<close>

definition parse_dt :: "osv_env \<Rightarrow> json \<Rightarrow> stamp option" where
  "parse_dt env value = (case as_str value of
     None \<Rightarrow> None
   | Some s \<Rightarrow> e_iso env (py_replace ''Z'' ''+00:00'' s))"

definition is_stale :: "osv_env \<Rightarrow> advisory_row \<Rightarrow> stamp option \<Rightarrow> bool" where
  "is_stale env row reported = (case map_option aware reported of
     Some r \<Rightarrow> (case map_option aware (vr_modified row) of
         None \<Rightarrow> True | Some stored \<Rightarrow> instant stored < instant r)
   | None \<Rightarrow> (case map_option aware (vr_fetched row) of
         None \<Rightarrow> True | Some fetched \<Rightarrow> e_refresh env * 1000000 < e_now env - instant fetched))"

definition UNINSTALLABLE_RANGE_TYPES :: "string list" where
  "UNINSTALLABLE_RANGE_TYPES = [''GIT'']"

definition mentions_fixed :: "json \<Rightarrow> bool option" where
  \<comment> \<open>\<open>"fixed" in event\<close>; \<open>None\<close> is the \<open>TypeError\<close> of what is not a container\<close>
  "mentions_fixed event = (case event of
     JObj _ \<Rightarrow> Some (jhas event ''fixed'')
   | JList xs \<Rightarrow> Some (JStr ''fixed'' \<in> set xs)
   | JStr s \<Rightarrow> Some (list_ex (\<lambda>n. starts_with (drop n s) ''fixed'') [0..<length s])
   | _ \<Rightarrow> None)"

fun first_fixed :: "json list \<Rightarrow> scan_exn + json option" where
  \<comment> \<open>the events of a range; \<open>None\<close> is the loop that falls through\<close>
  "first_fixed [] = Inr None"
| "first_fixed (event # es) = (case mentions_fixed event of
     None \<Rightarrow> Inl TypeError
   | Some True \<Rightarrow> if is_obj event then Inr (Some (jget event ''fixed'')) else Inl TypeError
   | Some False \<Rightarrow> first_fixed es)"

fun fixed_in_ranges :: "json list \<Rightarrow> scan_exn + json option" where
  "fixed_in_ranges [] = Inr None"
| "fixed_in_ranges (rng # rs) =
     sum_bind (dict_get rng ''type'') (\<lambda>t. sum_bind (str_or_empty AttributeError t) (\<lambda>type.
     if py_upper type \<in> set UNINSTALLABLE_RANGE_TYPES then fixed_in_ranges rs
     else sum_bind (elems_or_empty (jget rng ''events'')) (\<lambda>events.
     sum_bind (first_fixed events) (\<lambda>found. (case found of
       Some v \<Rightarrow> Inr (Some v) | None \<Rightarrow> fixed_in_ranges rs)))))"

fun fixed_in_affected :: "string \<Rightarrow> json list \<Rightarrow> scan_exn + json" where
  "fixed_in_affected name [] = Inr JNull"
| "fixed_in_affected name (affected # as) =
     sum_bind (dict_get affected ''package'') (\<lambda>p. sum_bind (dict_get (or_empty_dict p) ''name'') (\<lambda>_.
     case as_str (jget_or (or_empty_dict p) ''name'' (JStr [])) of
       None \<Rightarrow> Inl AttributeError
     | Some n \<Rightarrow>
         if py_lower n \<noteq> py_lower name then fixed_in_affected name as
         else sum_bind (elems_or_empty (jget affected ''ranges'')) (\<lambda>ranges.
              sum_bind (fixed_in_ranges ranges) (\<lambda>found. (case found of
                Some v \<Rightarrow> Inr v | None \<Rightarrow> fixed_in_affected name as)))))"

definition fixed_version_for :: "json \<Rightarrow> string \<Rightarrow> scan_exn + json" where
  \<comment> \<open>\<open>JNull\<close> is \<open>None\<close>; the ecosystem argument is not read\<close>
  "fixed_version_for rec name =
     sum_bind (dict_get rec ''affected'') (\<lambda>a. sum_bind (elems_or_empty a) (fixed_in_affected name))"

subsection \<open>Asking OSV\<close>

definition query_batch :: "osv_env \<Rightarrow> nat \<Rightarrow> (string \<times> string \<times> string) list \<Rightarrow> scan_exn + json list" where
  "query_batch env start queries = (if queries = [] then Inr [] else (case e_query env start queries of
     Batch_lost \<Rightarrow> Inl HttpTimeout
   | Batch_reply st body \<Rightarrow>
       if st \<noteq> 200 then Inl (RuntimeError st)
       else (case body of
         None \<Rightarrow> Inl ValueError
       | Some j \<Rightarrow> sum_bind (dict_get (or_empty_dict j) ''results'') elems_or_empty)))"

definition FETCH_RETRY_DELAYS :: "rat list" where "FETCH_RETRY_DELAYS = [1/2, 2]"

definition RETRYABLE_STATUSES :: "int set" where "RETRYABLE_STATUSES = {429, 500, 502, 503, 504}"

definition MAX_FETCH_RETRY_WAIT :: rat where "MAX_FETCH_RETRY_WAIT = 5"

definition retry_after_seconds :: "osv_env \<Rightarrow> string option \<Rightarrow> scan_exn + pyfloat option" where
  \<comment> \<open>\<open>max(0.0, nan)\<close> is \<open>0.0\<close>; a header that is no date raises\<close>
  "retry_after_seconds env value = (case value of None \<Rightarrow> Inr None | Some v \<Rightarrow>
     if v = [] then Inr None else let t = py_strip v in (case float_of_str t of
       Some (Finite r) \<Rightarrow> Inr (Some (Finite (max 0 r)))
     | Some PosInf \<Rightarrow> Inr (Some PosInf)
     | Some _ \<Rightarrow> Inr (Some (Finite 0))
     | None \<Rightarrow> (case e_http_date env t of
         None \<Rightarrow> Inl ValueError
       | Some d \<Rightarrow> Inr (Some (Finite (max 0 (of_int (instant (aware d) - e_now env) / 1000000)))))))"

definition retry_delay :: "rat \<Rightarrow> pyfloat option \<Rightarrow> rat" where
  "retry_delay delay asked = (case asked of
     None \<Rightarrow> delay
   | Some (Finite r) \<Rightarrow> min r MAX_FETCH_RETRY_WAIT
   | Some _ \<Rightarrow> MAX_FETCH_RETRY_WAIT)"

text \<open>
  The attempts of one advisory from attempt \<open>n\<close> on, with the delays that are left: what it returns
  (\<open>None\<close> is "could not be fetched"), and the time slept before each further attempt.
\<close>

fun fetch_attempts :: "osv_env \<Rightarrow> nat \<Rightarrow> string \<Rightarrow> nat \<Rightarrow> rat list \<Rightarrow> (scan_exn + json option) \<times> rat list" where
  "fetch_attempts env start osv_id n delays = (let reply = e_fetch env start osv_id n;
     again = (\<lambda>asked. (case delays of
         [] \<Rightarrow> (Inr None, [])
       | d # ds \<Rightarrow> (let (r, slept) = fetch_attempts env start osv_id (n + 1) ds
                   in (r, retry_delay d asked # slept))))
     in (case reply of
       Lost \<Rightarrow> again None
     | Reply st header body \<Rightarrow>
         if st = 200 then (Inr (case body of Some rec \<Rightarrow> if is_obj rec then Some rec else None | None \<Rightarrow> None), [])
         else if st \<notin> RETRYABLE_STATUSES then (Inr None, [])
         else if delays = [] then (Inr None, [])
         else if st = 429 then (case retry_after_seconds env header of
             Inl e \<Rightarrow> (Inl e, [])
           | Inr asked \<Rightarrow> again asked)
         else again None))"

declare fetch_attempts.simps [simp del]

definition fetch_vuln :: "osv_env \<Rightarrow> nat \<Rightarrow> string \<Rightarrow> (scan_exn + json option) \<times> rat list" where
  "fetch_vuln env start osv_id = fetch_attempts env start osv_id 0 FETCH_RETRY_DELAYS"

subsection \<open>The verdict of stored versions\<close>

definition note_changed :: "nat \<Rightarrow> osv_db \<Rightarrow> osv_db" where
  "note_changed pid db = (let
     keys = (case package_keys db pid of
         Some _ \<Rightarrow> package_keys db
       | None \<Rightarrow> (package_keys db)(pid \<mapsto> (case map_of (package_rows db) pid of
             None \<Rightarrow> None
           | Some (eco, name) \<Rightarrow> Some (eco, normalize_name_for eco name))))
     in db\<lparr>package_keys := keys,
           changed_packages := (case keys pid of
               Some (Some key) \<Rightarrow> List.insert key (changed_packages db)
             | _ \<Rightarrow> changed_packages db)\<rparr>)"

definition worse :: "rat option \<Rightarrow> rat option \<Rightarrow> rat option" where
  "worse current score = (case score of
     None \<Rightarrow> current
   | Some s \<Rightarrow> (case current of None \<Rightarrow> score | Some c \<Rightarrow> if c < s then score else current))"

definition advisory_of :: "osv_db \<Rightarrow> string \<Rightarrow> advisory_row option" where
  "advisory_of db i = find (\<lambda>r. vr_id r = i) (advisories db)"

definition version_of_id :: "osv_db \<Rightarrow> nat \<Rightarrow> version_row option" where
  "version_of_id db i = find (\<lambda>v. sv_id v = i) (version_rows db)"

definition save_version :: "version_row \<Rightarrow> osv_db \<Rightarrow> osv_db" where
  "save_version v db = db\<lparr>version_rows := map (\<lambda>w. if sv_id w = sv_id v then v else w) (version_rows db)\<rparr>"

definition row_malicious :: "advisory_row \<Rightarrow> scan_exn + bool" where
  "row_malicious r = sum_bind (is_malicious (JObj [(''id'', JStr (vr_id r)), (''aliases'', if jtruthy (vr_aliases r) then vr_aliases r else JList [])]))
     (\<lambda>m. Inr (m \<or> vr_type r = Some ''MALICIOUS''))"

text \<open>The links of a version with the advisory each names, as the join returns them.\<close>

definition version_links :: "osv_db \<Rightarrow> nat \<Rightarrow> (vuln_link \<times> advisory_row) list" where
  "version_links db vid = List.map_filter (\<lambda>l. if lk_version l = vid
     then map_option (Pair l) (advisory_of db (lk_vuln l)) else None) (links db)"

definition worst_score :: "(vuln_link \<times> advisory_row) list \<Rightarrow> rat option" where
  "worst_score ps = foldl (\<lambda>w p. worse w (vr_score (snd p))) None ps"

definition stored_verdict :: "osv_db \<Rightarrow> nat \<Rightarrow> scan_exn + (rat option \<times> bool \<times> bool) option" where
  \<comment> \<open>the worst score, whether one names a fix, whether one is malware; \<open>None\<close> for a version without links\<close>
  "stored_verdict db vid = (let ps = version_links db vid in
     sum_bind (sum_map (\<lambda>p. row_malicious (snd p)) ps) (\<lambda>ms.
       Inr (if ps = [] then None
            else Some (worst_score ps, list_ex (\<lambda>p. jtruthy (lk_fixed (fst p))) ps, list_ex id ms))))"

definition write_verdict :: "nat \<times> (rat option \<times> bool \<times> bool) option \<Rightarrow> osv_db \<Rightarrow> osv_db" where
  "write_verdict x db = (case (snd x, version_of_id db (fst x)) of
     (Some (score, fixable, malware), Some v) \<Rightarrow>
       if sv_scanned_at v = None then db
       else (let v' = v\<lparr>sv_max_cvss := score, sv_has_fix := fixable, sv_has_advisories := True, sv_malicious := malware\<rparr>
         in if sv_max_cvss v \<noteq> score \<or> sv_has_fix v \<noteq> fixable \<or> \<not> sv_has_advisories v \<or> sv_malicious v \<noteq> malware
            then note_changed (sv_package v) (save_version v' db) else db)
   | _ \<Rightarrow> db)"

definition recompute_versions :: "nat list \<Rightarrow> osv_db \<Rightarrow> (scan_exn + unit) \<times> osv_db" where
  "recompute_versions vids db =
     (case sum_map (\<lambda>vid. sum_bind (stored_verdict db vid) (\<lambda>v. Inr (vid, v))) vids of
        Inl e \<Rightarrow> (Inl e, db)
      | Inr vs \<Rightarrow> (Inr (), fold write_verdict vs db))"

text \<open>A loop over a list whose body may raise: the state keeps what was done before.\<close>

fun each_of :: "('a \<Rightarrow> 's \<Rightarrow> (scan_exn + unit) \<times> 's) \<Rightarrow> 'a list \<Rightarrow> 's \<Rightarrow> (scan_exn + unit) \<times> 's" where
  "each_of body [] st = (Inr (), st)"
| "each_of body (x # xs) st = (case body x st of
     (Inl e, st') \<Rightarrow> (Inl e, st')
   | (Inr _, st') \<Rightarrow> each_of body xs st')"

definition link_package :: "osv_db \<Rightarrow> vuln_link \<Rightarrow> string option" where
  \<comment> \<open>the name of the package the joins reach from a link\<close>
  "link_package db l = Option.bind (version_of_id db (lk_version l))
     (\<lambda>v. map_option snd (map_of (package_rows db) (sv_package v)))"

definition relink :: "(string \<rightharpoonup> json) \<Rightarrow> nat \<Rightarrow> osv_db \<Rightarrow> (scan_exn + unit) \<times> osv_db" where
  "relink recs i db = (let l = links db ! i in (case (recs (lk_vuln l), link_package db l) of
     (Some rec, Some name) \<Rightarrow> (case fixed_version_for rec name of
         Inl e \<Rightarrow> (Inl e, db)
       | Inr fixed \<Rightarrow> (Inr (), db\<lparr>links := (links db)[i := l\<lparr>lk_fixed := fixed\<rparr>]\<rparr>))
   | _ \<Rightarrow> (Inr (), db)))"

definition reapply_records :: "(string \<rightharpoonup> json) \<Rightarrow> osv_db \<Rightarrow> (scan_exn + unit) \<times> osv_db" where
  "reapply_records recs db = (let
     touched = filter (\<lambda>l. recs (lk_vuln l) \<noteq> None \<and> link_package db l \<noteq> None) (links db)
     in if touched = [] then (Inr (), db)
        else (case each_of (relink recs) [0..<length (links db)] db of
          (Inl e, db') \<Rightarrow> (Inl e, db')
        | (Inr _, db') \<Rightarrow> recompute_versions (remdups (map lk_version touched)) db'))"

subsection \<open>Reading the advisories of a batch\<close>

definition upsert_vulnerability :: "advisory_row \<Rightarrow> osv_db \<Rightarrow> osv_db" where
  "upsert_vulnerability row db = db\<lparr>advisories :=
     (if advisory_of db (vr_id row) = None then advisories db @ [row]
      else map (\<lambda>r. if vr_id r = vr_id row then row else r) (advisories db))\<rparr>"

definition stored_finding :: "advisory_row \<Rightarrow> scan_exn + finding" where
  "stored_finding r = sum_bind (row_malicious r) (\<lambda>m. Inr \<lparr>f_id = vr_id r, f_cve = vr_cve r, f_score = vr_score r,
     f_severity = vr_label r, f_summary = vr_summary r, f_fixed = JNull, f_raw = vr_raw r, f_malicious = m\<rparr>)"

text \<open>
  What a fetched record becomes: the row and the finding, or nothing when it is filtered out. The
  record is a dict whose \<open>id\<close> is the requested one.
\<close>

definition read_record :: "osv_env \<Rightarrow> string \<Rightarrow> string \<Rightarrow> json \<Rightarrow> scan_exn + (advisory_row \<times> finding) option" where
  "read_record env eco osv_id rec =
     sum_bind (extract_cve rec) (\<lambda>cve_id.
     sum_bind (is_malicious rec) (\<lambda>malicious.
     if e_cve_only env \<and> cve_id = None \<and> \<not> malicious then Inr None
     else sum_bind (best_severity rec) (\<lambda>best. let
       (score, stype, vector) = (if malicious \<and> fst best = None
         then (Some MALICIOUS_SCORE, Some ''MALICIOUS'', None) else best);
       cve = (case cve_id of Some c \<Rightarrow> if c = [] then osv_id else c | None \<Rightarrow> osv_id) in
     sum_bind (str_or_empty TypeError (jget rec ''details'')) (\<lambda>details. Inr (Some (
       \<lparr>vr_id = osv_id, vr_cve = cve, vr_eco = eco, vr_summary = jget rec ''summary'',
        vr_details = text_or_none (take 20000 details), vr_type = stype, vr_vector = vector, vr_score = score,
        vr_label = severity_label score,
        vr_aliases = (if jtruthy (jget rec ''aliases'') then jget rec ''aliases'' else JList []),
        vr_references = (if jtruthy (jget rec ''references'') then jget rec ''references'' else JList []),
        vr_published = parse_dt env (jget rec ''published''), vr_modified = parse_dt env (jget rec ''modified''),
        vr_withdrawn = parse_dt env (jget rec ''withdrawn''), vr_raw = rec,
        vr_fetched = Some (Aware (e_now env))\<rparr>,
       \<lparr>f_id = osv_id, f_cve = cve, f_score = score, f_severity = severity_label score,
        f_summary = jget rec ''summary'', f_fixed = JNull, f_raw = rec, f_malicious = malicious\<rparr>))))))"

record hydration =
  hy_cached :: "string \<rightharpoonup> finding"
  hy_failed :: "string list"
  hy_refreshed :: "(string \<times> json) list"
  hy_db :: osv_db

definition usable_record :: "string \<Rightarrow> scan_exn + json option \<Rightarrow> json option" where
  \<comment> \<open>the record, when it is a dict that answers for the requested id\<close>
  "usable_record osv_id reply = (case reply of
     Inr (Some rec) \<Rightarrow> if is_obj rec \<and> jget rec ''id'' = JStr osv_id then Some rec else None
   | _ \<Rightarrow> None)"

definition hydrate_one ::
  "osv_env \<Rightarrow> nat \<Rightarrow> string \<Rightarrow> string list \<Rightarrow> string \<Rightarrow> hydration \<Rightarrow> (scan_exn + unit) \<times> hydration" where
  "hydrate_one env start eco stale osv_id h = (case usable_record osv_id (fst (fetch_vuln env start osv_id)) of
     None \<Rightarrow> (Inr (), if osv_id \<in> set stale then h else h\<lparr>hy_failed := osv_id # hy_failed h\<rparr>)
   | Some rec \<Rightarrow> (case read_record env eco osv_id rec of
       Inl e \<Rightarrow> (Inl e, h)
     | Inr None \<Rightarrow> (Inr (), h\<lparr>hy_cached := (hy_cached h)(osv_id := None)\<rparr>)
     | Inr (Some (row, f)) \<Rightarrow> (Inr (), h\<lparr>hy_db := upsert_vulnerability row (hy_db h),
          hy_cached := (hy_cached h)(osv_id \<mapsto> f),
          hy_refreshed := (if osv_id \<in> set stale then (osv_id, rec) # hy_refreshed h else hy_refreshed h)\<rparr>)))"

definition hydrate ::
  "osv_env \<Rightarrow> nat \<Rightarrow> string \<Rightarrow> (string \<times> stamp option) list \<Rightarrow> osv_db \<Rightarrow>
   (scan_exn + (string \<rightharpoonup> finding) \<times> string list) \<times> osv_db" where
  "hydrate env start eco reported db = (if reported = [] then (Inr (Map.empty, []), db) else (let
     known = filter (\<lambda>r. vr_id r \<in> set (map fst reported)) (advisories db) in
     case sum_map stored_finding known of
       Inl e \<Rightarrow> (Inl e, db)
     | Inr fs \<Rightarrow> (let
         cached = map_of (map (\<lambda>f. (f_id f, f)) (rev fs));
         stale = map vr_id (filter (\<lambda>r. is_stale env r (the (map_of (rev reported) (vr_id r)))) known);
         missing = sort (remdups (filter (\<lambda>i. cached i = None \<or> i \<in> set stale) (map fst reported)))
         in if missing = [] then (Inr (cached, []), db)
            else (case each_of (hydrate_one env start eco stale) missing
                \<lparr>hy_cached = cached, hy_failed = [], hy_refreshed = [], hy_db = db\<rparr> of
              (Inl e, h) \<Rightarrow> (Inl e, hy_db h)
            | (Inr _, h) \<Rightarrow>
                if hy_refreshed h = [] then (Inr (hy_cached h, hy_failed h), hy_db h)
                else (case reapply_records (map_of (hy_refreshed h)) (hy_db h) of
                  (Inl e, db') \<Rightarrow> (Inl e, db')
                | (Inr _, db') \<Rightarrow> (Inr (hy_cached h, hy_failed h), db'))))))"

subsection \<open>Scanning\<close>

definition named_id :: "json \<Rightarrow> scan_exn + string option" where
  \<comment> \<open>\<open>v.get("id")\<close> as a dict key\<close>
  "named_id v = (let i = jget v ''id'' in
     if \<not> jtruthy i then Inr None
     else (case i of JStr s \<Rightarrow> Inr (Some s) | JList _ \<Rightarrow> Inl TypeError | JObj _ \<Rightarrow> Inl TypeError | _ \<Rightarrow> Inl Unfollowed))"

definition named_advisories :: "osv_env \<Rightarrow> json \<Rightarrow> scan_exn + (string \<times> stamp option) list" where
  \<comment> \<open>the advisories one answer of the batch names, with the time each was last modified\<close>
  "named_advisories env entry =
     sum_bind (dict_get entry ''vulns'') (\<lambda>vs. sum_bind (elems_or_empty vs) (\<lambda>vs.
     sum_bind (sum_map (\<lambda>v. sum_bind (named_id v) (\<lambda>i. Inr (map_option (\<lambda>i. (i, parse_dt env (jget v ''modified''))) i)))
                 (filter is_obj vs)) (\<lambda>xs. Inr (List.map_filter (\<lambda>x. x) xs))))"

definition add_fix :: "string \<Rightarrow> finding \<Rightarrow> scan_exn + finding" where
  "add_fix name f = (if jtruthy (f_raw f)
     then sum_bind (fixed_version_for (f_raw f) name) (\<lambda>fixed. Inr (f\<lparr>f_fixed := fixed\<rparr>)) else Inr f)"

definition complete_result :: "string \<times> string \<Rightarrow> finding list \<Rightarrow> scan_result" where
  "complete_result key cves = \<lparr>sr_package = fst key, sr_version = snd key, sr_cves = cves,
     sr_max_score = (if cves = [] then Some 0 else foldl (\<lambda>m f. worse m (f_score f)) None cves),
     sr_has_fix = list_ex (\<lambda>f. jtruthy (f_fixed f)) cves, sr_scanned = True,
     sr_malicious = list_ex f_malicious cves\<rparr>"

type_synonym results = "(string \<times> string) \<rightharpoonup> scan_result"

definition scan_item ::
  "(string \<rightharpoonup> finding) \<Rightarrow> string list \<Rightarrow> (string \<times> string) \<times> string list \<Rightarrow> results \<times> osv_db \<Rightarrow>
   (scan_exn + unit) \<times> results \<times> osv_db" where
  "scan_item hydrated failed item st = (case (item, st) of ((key, ids), (results, db)) \<Rightarrow>
     if list_ex (\<lambda>i. i \<in> set failed) ids
     then (Inr (), results(key \<mapsto> unscanned key), bump ''cve.hydrate.failed'' db)
     else (case sum_map (add_fix (fst key)) (List.map_filter hydrated ids) of
       Inl e \<Rightarrow> (Inl e, results, db)
     | Inr cves \<Rightarrow> (Inr (), results(key \<mapsto> complete_result key cves), db)))"

definition mark_unscanned :: "(string \<times> string) list \<Rightarrow> results \<Rightarrow> results" where
  "mark_unscanned batch results = foldl (\<lambda>r key. r(key \<mapsto> unscanned key)) results batch"

definition scan_batch ::
  "osv_env \<Rightarrow> string \<Rightarrow> nat \<times> (string \<times> string) list \<Rightarrow> results \<times> osv_db \<Rightarrow> (scan_exn + unit) \<times> results \<times> osv_db" where
  "scan_batch env eco sb st = (case (sb, st) of ((start, batch), (results, db)) \<Rightarrow>
     (case query_batch env start (map (\<lambda>(name, version). (name, OSV_ECOSYSTEM eco, version)) batch) of
       Inl e \<Rightarrow> (case e of
           HttpTimeout \<Rightarrow> (Inr (), mark_unscanned batch results, bump ''cve.batch.failed'' db)
         | RuntimeError _ \<Rightarrow> (Inr (), mark_unscanned batch results, bump ''cve.batch.failed'' db)
         | _ \<Rightarrow> (Inl e, results, db))
     | Inr answers \<Rightarrow>
         if length answers \<noteq> length batch then (Inr (), mark_unscanned batch results, db)
         else (case sum_map (named_advisories env) answers of
           Inl e \<Rightarrow> (Inl e, results, db)
         | Inr named \<Rightarrow> (case hydrate env start eco (concat named) db of
             (Inl e, db') \<Rightarrow> (Inl e, results, db')
           | (Inr (hydrated, failed), db') \<Rightarrow>
               each_of (scan_item hydrated failed) (zip batch (map (map fst) named)) (results, db')))))"

text \<open>The slices of \<open>items\<close>, each with the index it starts at.\<close>

function batches :: "nat \<Rightarrow> nat \<Rightarrow> 'a list \<Rightarrow> (nat \<times> 'a list) list" where
  "batches n start xs = (if n = 0 \<or> xs = [] then [] else (start, take n xs) # batches n (start + n) (drop n xs))"
  by pat_completeness auto
termination
  by (relation "measure (\<lambda>(n, start, xs). length xs)") auto

declare batches.simps [simp del]

definition scan_versions ::
  "osv_env \<Rightarrow> string \<Rightarrow> (string \<times> string) list \<Rightarrow> osv_db \<Rightarrow> (scan_exn + results) \<times> osv_db" where
  "scan_versions env eco items db = (if \<not> e_enabled env \<or> items = [] then (Inr (mark_unscanned items Map.empty), db)
     else if e_batch env = 0 then (Inl ValueError, db)
     else (case each_of (scan_batch env eco) (batches (e_batch env) 0 items) (Map.empty, db) of
       (Inl e, _, db') \<Rightarrow> (Inl e, db')
     | (Inr _, results, db') \<Rightarrow> (Inr results, db')))"

subsection \<open>Writing a verdict\<close>

text \<open>
  The version is given by its id: the row the code holds is the one object of the session that the
  refresh of an advisory writes to as well. A row that is not in the table is not followed.
\<close>

definition link_fix :: "string \<Rightarrow> finding \<Rightarrow> scan_exn + json" where
  "link_fix name f = (if f_fixed f = JNull \<and> jtruthy (f_raw f) then fixed_version_for (f_raw f) name else Inr (f_fixed f))"

definition apply_cve :: "nat \<Rightarrow> string \<Rightarrow> string list \<Rightarrow> finding \<Rightarrow> osv_db \<Rightarrow> (scan_exn + unit) \<times> osv_db" where
  "apply_cve vid name existing f db = (case link_fix name f of
     Inl e \<Rightarrow> (Inl e, db)
   | Inr fixed \<Rightarrow> (Inr (), db\<lparr>links :=
       (if f_id f \<in> set existing
        then map (\<lambda>l. if lk_version l = vid \<and> lk_vuln l = f_id f then l\<lparr>lk_fixed := fixed\<rparr> else l) (links db)
        else links db @ [\<lparr>lk_version = vid, lk_vuln = f_id f, lk_fixed = fixed, lk_suppressed = False\<rparr>])\<rparr>))"

definition apply_to_version ::
  "osv_env \<Rightarrow> nat \<Rightarrow> scan_result \<Rightarrow> string \<Rightarrow> osv_db \<Rightarrow> (scan_exn + bool) \<times> osv_db" where
  "apply_to_version env vid r name db = (if \<not> sr_scanned r then (Inr False, db) else (case version_of_id db vid of
     None \<Rightarrow> (Inl Unfollowed, db)
   | Some v \<Rightarrow> (let
     changed = (sv_max_cvss v \<noteq> sr_max_score r \<or> sv_scanned_at v = None \<or> sv_has_fix v \<noteq> sr_has_fix r
       \<or> sv_has_advisories v \<noteq> sr_has_advisories r \<or> sv_malicious v \<noteq> sr_malicious r);
     v' = v\<lparr>sv_max_cvss := sr_max_score r, sv_has_fix := sr_has_fix r, sv_has_advisories := sr_has_advisories r,
            sv_malicious := sr_malicious r, sv_scanned_at := Some (Aware (e_now env))\<rparr>;
     existing = map lk_vuln (filter (\<lambda>l. lk_version l = vid) (links db));
     seen = map f_id (sr_cves r);
     gone = filter (\<lambda>i. i \<notin> set seen) existing
     in (case each_of (apply_cve vid name existing) (sr_cves r) (save_version v' db) of
       (Inl e, db') \<Rightarrow> (Inl e, db')
     | (Inr _, db') \<Rightarrow> (let
         kept = db'\<lparr>links := filter (\<lambda>l. \<not> (lk_version l = vid \<and> lk_vuln l \<in> set gone)) (links db')\<rparr>;
         changed' = (changed \<or> gone \<noteq> [])
         in (Inr changed', if changed' then note_changed (sv_package v) kept else kept))))))"

text \<open>The third component is the cached document to drop, by ecosystem and name.\<close>

definition scan_and_apply ::
  "osv_env \<Rightarrow> string \<Rightarrow> nat \<Rightarrow> string \<Rightarrow> osv_db \<Rightarrow> (scan_exn + scan_result \<times> (string \<times> string) list) \<times> osv_db" where
  "scan_and_apply env eco vid name db = (case version_of_id db vid of
     None \<Rightarrow> (Inl Unfollowed, db)
   | Some v \<Rightarrow> (let key = (name, sv_version v) in case scan_versions env eco [key] db of
       (Inl e, db') \<Rightarrow> (Inl e, db')
     | (Inr results, db') \<Rightarrow> (let r = (case results key of Some r \<Rightarrow> r | None \<Rightarrow> unscanned key) in
         (case apply_to_version env vid r name db' of
           (Inl e, db'') \<Rightarrow> (Inl e, db'')
         | (Inr changed, db'') \<Rightarrow> (Inr (r, if changed then [(eco, normalize_name_for eco name)] else []), db'')))))"

text \<open>
  The scan on the request path. \<open>ended\<close> is the state a cancelled scan was left in, when the time
  limit (or the client) ended it first.
\<close>

definition inline_scan ::
  "osv_env \<Rightarrow> osv_db option \<Rightarrow> string \<Rightarrow> string \<Rightarrow> string \<Rightarrow> osv_db \<Rightarrow> scan_result \<times> osv_db" where
  "inline_scan env ended eco name version db = (let key = (name, version) in
     if \<not> e_enabled env \<or> \<not> e_inline env then (unscanned key, db)
     else (case ended of
       Some db' \<Rightarrow> (unscanned key, bump ''cve.scan.timeout'' db')
     | None \<Rightarrow> (case scan_versions env eco [key] db of
         (Inl HttpTimeout, db') \<Rightarrow> (unscanned key, bump ''cve.scan.timeout'' db')
       | (Inl _, db') \<Rightarrow> (unscanned key, db')
       | (Inr results, db') \<Rightarrow> ((case results key of Some r \<Rightarrow> r | None \<Rightarrow> unscanned key), db'))))"

subsection \<open>Applying a new scoring to what is stored\<close>

definition rescore_row :: "advisory_row \<Rightarrow> scan_exn + advisory_row" where
  "rescore_row r = (if \<not> is_obj (vr_raw r) \<or> \<not> jtruthy (vr_raw r) then Inr r
     else sum_bind (best_severity (vr_raw r)) (\<lambda>(score, stype, vector). Inr (
       if score \<noteq> vr_score r \<or> stype \<noteq> vr_type r
       then r\<lparr>vr_score := score, vr_type := stype, vr_vector := vector, vr_label := severity_label score\<rparr>
       else r)))"

definition rescore_index :: "nat \<Rightarrow> osv_db \<Rightarrow> (scan_exn + unit) \<times> osv_db" where
  "rescore_index i db = (case rescore_row (advisories db ! i) of
     Inl e \<Rightarrow> (Inl e, db)
   | Inr r \<Rightarrow> (Inr (), db\<lparr>advisories := (advisories db)[i := r]\<rparr>))"

definition rescore_version :: "nat \<Rightarrow> osv_db \<Rightarrow> osv_db" where
  "rescore_version vid db = (let ps = version_links db vid in
     if ps = [] then db else (case version_of_id db vid of
       None \<Rightarrow> db
     | Some v \<Rightarrow>
         if sv_max_cvss v = worst_score ps then db
         else note_changed (sv_package v) (save_version (v\<lparr>sv_max_cvss := worst_score ps\<rparr>) db)))"

definition refix :: "nat \<Rightarrow> osv_db \<Rightarrow> (scan_exn + unit) \<times> osv_db" where
  "refix i db = (let l = links db ! i in (case (advisory_of db (lk_vuln l), link_package db l) of
     (Some a, Some name) \<Rightarrow>
       if \<not> is_obj (vr_raw a) then (Inr (), db)
       else (case fixed_version_for (vr_raw a) name of
         Inl e \<Rightarrow> (Inl e, db)
       | Inr fixed \<Rightarrow> (Inr (), db\<lparr>links := (links db)[i := l\<lparr>lk_fixed := fixed\<rparr>]\<rparr>))
   | _ \<Rightarrow> (Inr (), db)))"

definition differing :: "'a list \<Rightarrow> 'a list \<Rightarrow> nat" where
  "differing xs ys = length (filter (\<lambda>(x, y). x \<noteq> y) (zip xs ys))"

text \<open>The statistics: advisories examined and rescored, versions updated, fixed versions updated.\<close>

definition rescore_stored :: "osv_db \<Rightarrow> (scan_exn + nat \<times> nat \<times> nat \<times> nat) \<times> osv_db" where
  "rescore_stored db = (case each_of rescore_index [0..<length (advisories db)] db of
     (Inl e, db1) \<Rightarrow> (Inl e, db1)
   | (Inr _, db1) \<Rightarrow> (let
       db2 = fold rescore_version (remdups (map lk_version (links db1))) db1 in
       (case each_of refix [0..<length (links db2)] db2 of
         (Inl e, db3) \<Rightarrow> (Inl e, db3)
       | (Inr _, db3) \<Rightarrow> (Inr (length (advisories db), differing (advisories db) (advisories db1),
            differing (version_rows db1) (version_rows db2), differing (links db2) (links db3)), db3))))"

subsection \<open>Dropping rendered documents\<close>

definition PER_PACKAGE_INVALIDATION_LIMIT :: nat where "PER_PACKAGE_INVALIDATION_LIMIT = 8"

definition package_prefix :: "string \<times> string \<Rightarrow> string" where
  \<comment> \<open>\<open>f"{cache_key(ecosystem, name)}:"\<close>\<close>
  "package_prefix t = ''pkg:'' @ fst t @ '':'' @ snd t @ '':''"

definition doomed_keys :: "(string \<times> string) list \<Rightarrow> string list \<Rightarrow> string list" where
  \<comment> \<open>the keys of one SCAN batch that belong to one of the packages\<close>
  "doomed_keys targets batch = filter (\<lambda>key. (case py_rpartition CHR '':'' key of (head, sep, _) \<Rightarrow>
     sep \<noteq> [] \<and> head @ '':'' \<in> set (map package_prefix targets))) batch"

text \<open>
  What is deleted from a cache that holds the keys \<open>stored\<close>: a prefix at a time for a few packages,
  one pass over all the rendered documents for many. \<open>reachable\<close> says whether the cache answers.
\<close>

definition invalidated :: "bool \<Rightarrow> (string \<times> string) list \<Rightarrow> string list \<Rightarrow> string list" where
  "invalidated reachable targets stored = (if targets = [] \<or> \<not> reachable then []
     else if length targets \<le> PER_PACKAGE_INVALIDATION_LIMIT
     then filter (\<lambda>key. list_ex (\<lambda>t. starts_with key (package_prefix t)) targets) stored
     else doomed_keys targets (filter (\<lambda>key. starts_with key ''pkg:'') stored))"

definition invalidate_changed :: "bool \<Rightarrow> string list \<Rightarrow> osv_db \<Rightarrow> string list \<times> osv_db" where
  "invalidate_changed reachable stored db =
     (invalidated reachable (changed_packages db) stored, db\<lparr>changed_packages := []\<rparr>)"

end
