(* ===== verification/Cvss_Spec.thy ===== *)
theory Cvss_Spec
  imports Cvss
begin

section \<open>Advisory severities: what the scores mean\<close>

text \<open>
  The scores that come out of the equations lie on the scale of the standard with one decimal; the
  roundup of the standard is the ceiling to a tenth; a version 4 vector that declares an impact is
  never presented as harmless; the exact version 3 score is the one that is reported when a record
  has one.
\<close>

subsection \<open>Rounding\<close>

lemma round_even_bounds: "\<bar>of_int (round_even x) - x\<bar> \<le> 1/2"
  unfolding round_even_def Let_def using floor_correct [of x] by (auto split: if_splits)

lemma round_even_mono_int: "x \<le> of_int n \<Longrightarrow> round_even x \<le> n" "of_int n \<le> x \<Longrightarrow> n \<le> round_even x"
proof -
  assume x: "x \<le> of_int n"
  show "round_even x \<le> n"
  proof (cases "x = of_int n")
    case False
    with x have "\<lfloor>x\<rfloor> + 1 \<le> n" by linarith
    then show ?thesis unfolding round_even_def Let_def by (auto split: if_splits)
  qed (simp add: round_even_def)
next
  assume "of_int n \<le> x"
  then have "n \<le> \<lfloor>x\<rfloor>" by linarith
  then show "n \<le> round_even x" unfolding round_even_def Let_def by (auto split: if_splits)
qed

lemma ceiling_div_int: "0 < m \<Longrightarrow> \<lceil>of_int i / (of_int m :: rat)\<rceil> = (if i mod m = 0 then i div m else i div m + 1)"
proof -
  assume m: "0 < (m :: int)"
  have q: "i = m * (i div m) + i mod m" by simp
  have r: "(of_int i :: rat) / of_int m = of_int (i div m) + of_int (i mod m) / of_int m"
    using m by (subst q) (simp only: of_int_add of_int_mult, simp add: field_simps)
  show ?thesis
  proof (cases "i mod m = 0")
    case True
    then show ?thesis using r by simp
  next
    case False
    have "0 < i mod m" "i mod m < m" using False m pos_mod_bound [of m i] pos_mod_sign [of m i] by linarith+
    then have "0 < (of_int (i mod m) :: rat) / of_int m" "(of_int (i mod m) :: rat) / of_int m < 1"
      using m by (simp_all add: divide_less_eq)
    with r show ?thesis using False by (simp add: ceiling_eq_iff) 
  qed
qed

lemma round_up_ceiling: "0 \<le> v \<Longrightarrow> round_up v = of_int \<lceil>of_int (round_even (v * 100000)) / (10000 :: rat)\<rceil> / 10"
proof -
  assume v: "0 \<le> v"
  define i where "i = round_even (v * 100000)"
  have i: "0 \<le> i" unfolding i_def by (rule round_even_mono_int) (use v in simp)
  then have s: "sgn i * (\<bar>i\<bar> div 10000) = i div 10000" by (cases "i = 0") auto
  have c: "\<lceil>of_int i / (10000 :: rat)\<rceil> = (if i mod 10000 = 0 then i div 10000 else i div 10000 + 1)"
    using ceiling_div_int [of 10000 i] by simp
  have d: "(of_int i :: rat) = 10000 * of_int (i div 10000)" if "i mod 10000 = 0"
    using that by (metis mult_div_mod_eq add.right_neutral of_int_mult of_int_numeral)
  show ?thesis
    unfolding round_up_def Let_def i_def [symmetric] c using d s by auto
qed

lemma round_up_range: "0 \<le> v \<Longrightarrow> v \<le> 10 \<Longrightarrow> 0 \<le> round_up v \<and> round_up v \<le> 10 \<and> (\<exists>k. round_up v = of_int k / 10)"
proof -
  assume v: "0 \<le> v" "v \<le> 10"
  have "0 \<le> round_even (v * 100000)" "round_even (v * 100000) \<le> 1000000"
    using v by (auto intro!: round_even_mono_int)
  then have "0 \<le> \<lceil>of_int (round_even (v * 100000)) / (10000 :: rat)\<rceil>"
      "\<lceil>of_int (round_even (v * 100000)) / (10000 :: rat)\<rceil> \<le> 100"
    by (auto simp: ceiling_le_iff le_ceiling_iff divide_simps intro: order_less_le_trans [of _ 0])
  then show ?thesis by (auto simp: round_up_ceiling [OF v(1)])
qed

lemma round_up_least: "0 \<le> v \<Longrightarrow> v * 100000 = of_int n \<Longrightarrow> round_up v = of_int \<lceil>10 * v\<rceil> / 10"
proof -
  assume v: "0 \<le> v" and n: "v * 100000 = of_int n"
  have "round_even (v * 100000) = n" unfolding n by (simp add: round_even_def)
  moreover have "of_int n / 10000 = 10 * v" unfolding n [symmetric] by simp
  ultimately show ?thesis using round_up_ceiling [OF v] by simp
qed

subsection \<open>The scale\<close>

definition on_scale :: "rat \<Rightarrow> bool" where
  "on_scale s = (0 \<le> s \<and> s \<le> 10 \<and> of_int \<lfloor>10 * s\<rfloor> = 10 * s)"

lemma on_scaleI: "0 \<le> s \<Longrightarrow> s \<le> 10 \<Longrightarrow> s = of_int k / 10 \<Longrightarrow> on_scale s"
proof -
  assume *: "0 \<le> s" "s \<le> 10" "s = of_int k / 10"
  from *(3) have "10 * s = of_int k" by simp
  with *(1,2) show ?thesis unfolding on_scale_def by simp
qed

lemma on_scale_consts: "on_scale 0" "on_scale 2" "on_scale s \<Longrightarrow> on_scale t \<Longrightarrow> on_scale (max s t)"
  by (auto simp: on_scale_def max_def)

lemma round_up_on_scale: "0 \<le> v \<Longrightarrow> v \<le> 10 \<Longrightarrow> on_scale (round_up v)"
  using round_up_range [of v] by (auto intro: on_scaleI)

lemma metric_in: "metric table key = Some v \<Longrightarrow> v \<in> snd ` set table"
  unfolding metric_def by (force simp: bind_eq_Some_conv dest!: map_of_SomeD)

lemma metric_nonneg: "metric table key = Some v \<Longrightarrow> list_all (\<lambda>(_, w). 0 \<le> w) table \<Longrightarrow> 0 \<le> v"
  by (auto dest!: metric_in simp: list_all_iff)

lemma score3_scale: "0 \<le> e \<Longrightarrow> on_scale (score3 sc iss e)"
  unfolding score3_def Let_def
  by (auto intro!: round_up_on_scale on_scale_consts mult_nonneg_nonneg simp: min_def split: if_splits)

lemma score4_scale: "0 \<le> e \<Longrightarrow> on_scale (score4 iss sss e)"
  unfolding score4_def Let_def LOW_FLOOR_def
  by (auto intro!: round_up_on_scale on_scale_consts)

lemma score2_scale:
  assumes "impact = 0 \<or> 286/100 \<le> impact \<and> impact \<le> 10001/1000" "12/10 \<le> e" "e \<le> 10"
  shows "on_scale (score2 impact e)"
proof -
  define x where "x = 10 * ((6/10 * impact + 4/10 * e - 15/10) * (if impact = 0 then 0 else 1176/1000))"
  have x: "0 \<le> x" "x \<le> 100" using assms unfolding x_def by auto
  then have "0 \<le> round_even x" "round_even x \<le> 100" by (auto intro: round_even_mono_int)
  then show ?thesis
    unfolding score2_def x_def [symmetric] by (intro on_scaleI [where k = "round_even x"]) auto
qed

lemma impact2_range:
  "\<forall>c \<in> {0, 275/1000, 660/1000}. \<forall>i \<in> {0, 275/1000, 660/1000}. \<forall>a \<in> {0, 275/1000, 660/1000}.
     1041/100 * impact_of c i a = 0 \<or> 286/100 \<le> 1041/100 * impact_of c i a \<and> 1041/100 * impact_of c i a \<le> 10001/1000"
  by (simp add: impact_of_def)

lemma exploit2_range:
  "\<forall>v \<in> {395/1000, 646/1000, 1 :: rat}. \<forall>c \<in> {35/100, 61/100, 71/100}. \<forall>a \<in> {45/100, 56/100, 704/1000}.
     12/10 \<le> 20 * v * c * a \<and> 20 * v * c * a \<le> 10"
  by simp

lemmas bind_parts = Let_def bind_eq_Some_conv

lemma cvss3_on_scale: "cvss3_base v = Some s \<Longrightarrow> on_scale s"
  unfolding cvss3_base_def bind_parts
  by (elim exE conjE, (drule metric_nonneg, simp add: cia3_def)+)
     (auto intro!: score3_scale mult_nonneg_nonneg)

lemma cvss4_on_scale: "cvss4_base v = Some s \<Longrightarrow> on_scale s"
  unfolding cvss4_base_def bind_parts
  by (elim exE conjE, (drule metric_nonneg, simp add: subsequent4_def cia3_def)+)
     (auto intro!: score4_scale mult_nonneg_nonneg)

lemma cvss2_on_scale: "cvss2_base v = Some s \<Longrightarrow> on_scale s"
proof -
  assume "cvss2_base v = Some s"
  then obtain av ac au c i a where *: "av \<in> {395/1000, 646/1000, 1}" "ac \<in> {35/100, 61/100, 71/100}"
      "au \<in> {45/100, 56/100, 704/1000}" "c \<in> {0, 275/1000, 660/1000}" "i \<in> {0, 275/1000, 660/1000}"
      "a \<in> {0, 275/1000, 660/1000}" and s: "s = score2 (1041/100 * impact_of c i a) (20 * av * ac * au)"
    unfolding cvss2_base_def bind_parts by (elim exE conjE) (drule metric_in, simp)+
  show ?thesis
    unfolding s using impact2_range [rule_format, OF *(4-6)] exploit2_range [rule_format, OF *(1-3)]
    by (intro score2_scale) simp_all
qed

text \<open>
  Whatever vector a record publishes, in version 2, 3 or 4, the base score computed from it is
  between 0 and 10 and has one decimal, so it always falls in one of the bands the policy compares
  with.
\<close>

theorem vector_scores_on_scale:
  "parse_cvss_vector j = Inr (Some s) \<Longrightarrow> 0 \<le> s \<and> s \<le> 10 \<and> (\<exists>k. s = of_int k / 10)"
proof -
  assume "parse_cvss_vector j = Inr (Some s)"
  then have "on_scale s"
    by (auto simp: parse_cvss_vector_def Let_def cvss3_on_scale cvss4_on_scale cvss2_on_scale
        split: if_splits option.splits)
  then show ?thesis
    unfolding on_scale_def by (intro conjI exI [of _ "\<lfloor>10 * s\<rfloor>"]) auto
qed

lemma vector_scores_on_scale_witness:
  "(\<exists>s. parse_cvss_vector (JStr ''AV:N/AC:L/Au:N/C:P/I:P/A:P'') = Inr (Some s) \<and> s \<le> 10)"
proof -
  have "\<exists>s. parse_cvss_vector (JStr ''AV:N/AC:L/Au:N/C:P/I:P/A:P'') = Inr (Some s)"
    by (simp add: parse_cvss_vector_def cvss2_base_def starts_with_def py_strip_def py_lstrip_def py_rstrip_def
        is_space_def Let_def vector_parts_def py_partition_def metric_def)
  then show ?thesis
    using vector_scores_on_scale by blast
qed

subsection \<open>Version 4 is never understated\<close>

definition part :: "string \<Rightarrow> string \<Rightarrow> string" where
  "part v key = part_or (vector_parts v) key ''N''"

definition no_impact :: "string \<Rightarrow> bool" where
  "no_impact v = (let p = vector_parts v in
     part_or p ''VC'' (part v ''C'') = ''N'' \<and> part_or p ''VI'' (part v ''I'') = ''N'' \<and>
     part_or p ''VA'' (part v ''A'') = ''N'' \<and> part v ''SC'' = ''N'' \<and> part v ''SI'' = ''N'' \<and> part v ''SA'' = ''N'')"

lemma impact_zero:
  assumes "0 \<le> c" "c < 1" "0 \<le> i" "i < 1" "0 \<le> a" "a < 1"
  shows "0 \<le> impact_of c i a" "impact_of c i a < 1" "impact_of c i a = 0 \<longleftrightarrow> c = 0 \<and> i = 0 \<and> a = 0"
proof -
  define x y z where [simp]: "x = 1 - c" "y = 1 - i" "z = 1 - a"
  have *: "0 < x" "x \<le> 1" "0 < y" "y \<le> 1" "0 < z" "z \<le> 1" using assms by simp_all
  then have xy: "x * y \<le> x" "x * y \<le> y" "0 < x * y" by (simp_all add: mult_left_le mult_left_le_one_le)
  then have xyz: "x * y * z \<le> x * y" "x * y * z \<le> z" "0 < x * y * z"
    using * by (simp_all add: mult_left_le mult_left_le_one_le)
  show "0 \<le> impact_of c i a" "impact_of c i a < 1"
    using xy xyz * unfolding impact_of_def by simp_all
  show "impact_of c i a = 0 \<longleftrightarrow> c = 0 \<and> i = 0 \<and> a = 0"
  proof
    assume "impact_of c i a = 0"
    then have "x * y * z = 1" by (simp add: impact_of_def)
    with xy xyz * have "x = 1" "y = 1" "z = 1" by linarith+
    then show "c = 0 \<and> i = 0 \<and> a = 0" by simp
  qed (simp add: impact_of_def)
qed

lemma combined_positive:
  fixes iss sss :: rat
  assumes "0 \<le> iss" "iss < 1" "0 \<le> sss"
  shows "0 \<le> iss + sss * (1 - iss)" "iss + sss * (1 - iss) = 0 \<longleftrightarrow> iss = 0 \<and> sss = 0"
proof -
  have "0 \<le> sss * (1 - iss)" using assms by simp
  then show "0 \<le> iss + sss * (1 - iss)" "iss + sss * (1 - iss) = 0 \<longleftrightarrow> iss = 0 \<and> sss = 0"
    using assms by (auto simp: add_nonneg_eq_0_iff)
qed

lemma cia3_zero: "metric cia3 (Some k) = Some w \<Longrightarrow> 0 \<le> w \<and> w < 1 \<and> (w = 0 \<longleftrightarrow> k = ''N'')"
  by (auto simp: metric_def cia3_def split: if_splits)

lemma subsequent4_zero: "metric subsequent4 (Some k) = Some w \<Longrightarrow> 0 \<le> w \<and> w < 1 \<and> (w = 0 \<longleftrightarrow> k = ''N'')"
  by (auto simp: metric_def subsequent4_def split: if_splits)

lemma score4_cases:
  "0 \<le> iss \<Longrightarrow> iss < 1 \<Longrightarrow> 0 \<le> sss \<Longrightarrow>
   (if iss = 0 \<and> sss = 0 then score4 iss sss e = 0 else 2 \<le> score4 iss sss e)"
proof -
  assume *: "0 \<le> iss" "iss < 1" "0 \<le> sss"
  show ?thesis
  proof (cases "iss = 0 \<and> sss = 0")
    case False
    then have "0 < iss + sss * (1 - iss)"
      using combined_positive [OF *] by linarith
    then have "\<not> min 1 (iss + sss * (1 - iss)) \<le> 0" by simp
    then show ?thesis using False by (auto simp: score4_def Let_def LOW_FLOOR_def)
  qed (simp add: score4_def)
qed

text \<open>
  The approximation of a version 4 score never presents a real vulnerability as harmless: it is
  zero exactly when all six impact metrics of the vector, those of the vulnerable system and those
  of the systems behind it, are None, and at least 2.0 otherwise.
\<close>

theorem v4_never_harmless:
  assumes "cvss4_base v = Some s"
  shows "if no_impact v then s = 0 else 2 \<le> s"
proof -
  let ?p = "vector_parts v"
  obtain c i a sc si sa e where
      m: "metric cia3 (Some (part_or ?p ''VC'' (part_or ?p ''C'' ''N''))) = Some c"
      "metric cia3 (Some (part_or ?p ''VI'' (part_or ?p ''I'' ''N''))) = Some i"
      "metric cia3 (Some (part_or ?p ''VA'' (part_or ?p ''A'' ''N''))) = Some a"
      "metric subsequent4 (Some (part_or ?p ''SC'' ''N'')) = Some sc"
      "metric subsequent4 (Some (part_or ?p ''SI'' ''N'')) = Some si"
      "metric subsequent4 (Some (part_or ?p ''SA'' ''N'')) = Some sa"
    and s: "s = score4 (impact_of c i a) (impact_of sc si sa) e"
    using assms unfolding cvss4_base_def bind_parts by (elim exE conjE) (rule that, assumption+, drule option.inject [THEN iffD1], erule sym)
  note z = cia3_zero [OF m(1)] cia3_zero [OF m(2)] cia3_zero [OF m(3)]
    subsequent4_zero [OF m(4)] subsequent4_zero [OF m(5)] subsequent4_zero [OF m(6)]
  have "impact_of c i a = 0 \<and> impact_of sc si sa = 0 \<longleftrightarrow> no_impact v"
    using z impact_zero [of c i a] impact_zero [of sc si sa] by (auto simp: no_impact_def part_def Let_def)
  then show ?thesis
    using z impact_zero [of c i a] impact_zero [of sc si sa]
      score4_cases [of "impact_of c i a" "impact_of sc si sa" e] unfolding s by auto
qed

lemma v4_never_harmless_witness:
  "\<exists>s. cvss4_base ''CVSS:4.0/AV:N/AC:L/SC:L'' = Some s \<and> 2 \<le> s"
proof -
  have d: "\<exists>s. cvss4_base ''CVSS:4.0/AV:N/AC:L/SC:L'' = Some s"
    by (simp add: cvss4_base_def Let_def vector_parts_def py_partition_def metric_def part_or_def
        py_strip_def py_lstrip_def py_rstrip_def is_space_def cia3_def subsequent4_def)
  have "\<not> no_impact ''CVSS:4.0/AV:N/AC:L/SC:L''"
    by (simp add: no_impact_def part_def Let_def vector_parts_def py_partition_def part_or_def
        py_strip_def py_lstrip_def py_rstrip_def is_space_def)
  with d show ?thesis
    using v4_never_harmless by force
qed

subsection \<open>Labels\<close>

definition severity_rank :: "string option \<Rightarrow> nat" where
  "severity_rank l = (case l of None \<Rightarrow> 0 | Some s \<Rightarrow>
     (case map_of [(''none'', 1), (''low'', 2), (''medium'', 3), (''high'', 4), (''critical'', 5)] s of
        Some n \<Rightarrow> n | None \<Rightarrow> 0))"

lemma severity_label_eq:
  "severity_label (Some s) = Some (if 9 \<le> s then ''critical'' else if 7 \<le> s then ''high''
     else if 4 \<le> s then ''medium'' else if 1/10 \<le> s then ''low'' else ''none'')"
  by (simp add: severity_label_def SEVERITY_BANDS_def)

lemma severity_label_mono: "s \<le> t \<Longrightarrow> severity_rank (severity_label (Some s)) \<le> severity_rank (severity_label (Some t))"
  by (auto simp: severity_label_eq severity_rank_def)

text \<open>The floor of a label is the lowest score that still earns it.\<close>

lemma label_floor_lowest:
  "map_of SEVERITY_LABEL_FLOOR label = Some least \<Longrightarrow>
   severity_rank (severity_label (Some least)) \<le> severity_rank (severity_label (Some s)) \<longleftrightarrow> least \<le> s"
  by (auto simp: SEVERITY_LABEL_FLOOR_def severity_label_eq severity_rank_def split: if_splits)

subsection \<open>Which severity is reported\<close>

definition cand_key :: "candidate \<Rightarrow> nat \<times> rat" where
  "cand_key c = (fst c, fst (snd c))"

lemma better_key: "cand_key (better b c) = max (cand_key b) (cand_key c)"
  by (auto simp: better_def cand_key_def max_def)

lemma foldl_better:
  "foldl better b cs \<in> set (b # cs)"
  "x \<in> set (b # cs) \<Longrightarrow> cand_key x \<le> cand_key (foldl better b cs)"
proof (induction cs arbitrary: b x)
  case Nil
  { case 1 show ?case by simp }
  { case 2 then show ?case by simp }
next
  case (Cons c cs)
  { case 1
    have "better b c = b \<or> better b c = c" by (auto simp: better_def)
    then show ?case using Cons.IH(1) [of "better b c"] by auto }
  { case 2
    have "cand_key (better b c) \<le> cand_key (foldl better (better b c) cs)"
      using Cons.IH(2) [of "better b c" "better b c"] by simp
    then have "cand_key b \<le> cand_key (foldl better (better b c) cs)"
        "cand_key c \<le> cand_key (foldl better (better b c) cs)"
      by (simp_all add: better_key)
    then show ?case using 2 Cons.IH(2) [of x "better b c"] by auto }
qed

lemma best_severity_own:
  assumes "is_obj rec" "elems_or_empty (jget rec ''severity'') = Inr entries"
    "sum_map severity_candidate entries = Inr found" "List.map_filter (\<lambda>x. x) found = c # cs"
  shows "best_severity rec = (case foldl better c cs of (_, score, stype, vector) \<Rightarrow>
    Inr (Some score, text_or_none stype, text_or_none vector))"
  using assms by (simp add: best_severity_def dict_get_def)

lemma candidate_pref:
  "severity_candidate entry = Inr (Some (n, score, stype, vector)) \<Longrightarrow> n = SEVERITY_PREFERENCE stype"
  by (auto simp: severity_candidate_def sum_bind_Inr_iff Let_def split: if_splits option.splits pyfloat.splits)

lemma preference_3: "SEVERITY_PREFERENCE s \<le> 3" "SEVERITY_PREFERENCE s = 3 \<longleftrightarrow> s = ''CVSS_V3''"
  by (auto simp: SEVERITY_PREFERENCE_def split: if_splits)

text \<open>
  When any entry of a record's \<open>severity\<close> list carries a version 3 score, the severity stored
  for the record is a version 3 one, and the highest of those, whatever the version 4 and version 2
  entries say and in whatever order they come.
\<close>

theorem exact_score_preferred:
  assumes "is_obj rec" "elems_or_empty (jget rec ''severity'') = Inr entries"
    and found: "sum_map severity_candidate entries = Inr found"
    and v3: "Some (n, score, ''CVSS_V3'', vector) \<in> set found"
  shows "\<exists>best vector'. best_severity rec = Inr (Some best, Some ''CVSS_V3'', vector') \<and> score \<le> best
    \<and> (\<exists>m v. Some (m, best, ''CVSS_V3'', v) \<in> set found)"
proof -
  let ?own = "List.map_filter (\<lambda>x. x) found"
  have own: "x \<in> set ?own \<longleftrightarrow> Some x \<in> set found" for x
    by (induction found) (auto simp: List.map_filter_simps split: option.splits)
  have pref: "fst x = SEVERITY_PREFERENCE (fst (snd (snd x)))" if x: "Some x \<in> set found" for x
  proof -
    obtain k s t v where [simp]: "x = (k, s, t, v)" by (cases x) auto
    obtain entry where "severity_candidate entry = Inr (Some x)"
      using sum_map_Inr_set [OF found x] by blast
    then show ?thesis using candidate_pref by simp
  qed
  obtain c cs where c: "?own = c # cs"
    using v3 own [of "(n, score, ''CVSS_V3'', vector)"] by (cases ?own) auto
  obtain k best stype v where b: "foldl better c cs = (k, best, stype, v)"
    by (cases "foldl better c cs") auto
  have inb: "Some (k, best, stype, v) \<in> set found"
    using foldl_better(1) [of c cs] unfolding b c [symmetric] own .
  have "cand_key (n, score, ''CVSS_V3'', vector) \<le> cand_key (k, best, stype, v)"
    using foldl_better(2) [of "(n, score, ''CVSS_V3'', vector)" c cs] v3 unfolding b c [symmetric] own by blast
  moreover have "n = 3" using pref [OF v3] by (simp add: SEVERITY_PREFERENCE_def)
  moreover have k: "k = SEVERITY_PREFERENCE stype" using pref [OF inb] by simp
  ultimately have "k = 3" "score \<le> best"
    using preference_3(1) [of stype] by (auto simp: cand_key_def)
  then have st: "stype = ''CVSS_V3''" using k preference_3(2) by simp
  have "best_severity rec = Inr (Some best, Some ''CVSS_V3'', text_or_none v)"
    using best_severity_own [OF assms(1-3) c] unfolding b st by (simp add: text_or_none_def)
  then show ?thesis using \<open>score \<le> best\<close> inb st by blast
qed

definition v4_entry :: json where
  "v4_entry = JObj [(''type'', JStr ''CVSS_V4''), (''score'', JStr ''CVSS:4.0/AV:N/AC:L/VC:H'')]"

definition v3_entry :: json where
  "v3_entry = JObj [(''type'', JStr ''CVSS_V3''), (''score'', JStr ''CVSS:3.1/AV:N/AC:L/PR:N/UI:N/S:U/C:L/I:N/A:N'')]"

lemmas vector_eval = parse_cvss_vector_def Let_def vector_parts_def py_partition_def metric_def part_or_def
  py_strip_def py_lstrip_def py_rstrip_def is_space_def cia3_def subsequent4_def starts_with_def

lemma entry_scores:
  "\<exists>s. severity_candidate v4_entry = Inr (Some (2, s, ''CVSS_V4'', ''CVSS:4.0/AV:N/AC:L/VC:H''))"
  "\<exists>s. severity_candidate v3_entry = Inr (Some (3, s, ''CVSS_V3'', ''CVSS:3.1/AV:N/AC:L/PR:N/UI:N/S:U/C:L/I:N/A:N''))"
  by (simp_all add: severity_candidate_def v4_entry_def v3_entry_def str_or_empty_def py_upper_def upper_char_def
      SEVERITY_PREFERENCE_def cvss4_base_def cvss3_base_def vector_eval)

lemma exact_score_preferred_witness:
  "\<exists>best vector. best_severity (JObj [(''severity'', JList [v4_entry, v3_entry])]) = Inr (Some best, Some ''CVSS_V3'', vector)"
proof -
  obtain s t where "sum_map severity_candidate [v4_entry, v3_entry]
      = Inr [Some (2, s, ''CVSS_V4'', ''CVSS:4.0/AV:N/AC:L/VC:H''),
             Some (3, t, ''CVSS_V3'', ''CVSS:3.1/AV:N/AC:L/PR:N/UI:N/S:U/C:L/I:N/A:N'')]"
    using entry_scores by auto
  from exact_score_preferred [of "JObj [(''severity'', JList [v4_entry, v3_entry])]", OF _ _ this, of 3 t]
  show ?thesis by (auto simp: elems_or_empty_def)
qed

subsection \<open>Malware\<close>

lemma eats_any_case:
  "list_all2 (\<lambda>x c. lower_char x = lower_char c) p w \<Longrightarrow> eats (any_case w) (p @ t) g t g"
proof (induction p w rule: list_all2_induct)
  case Nil
  then show ?case by (simp add: any_case_def eats_iffs)
next
  case (Cons x xs c w)
  then show ?case
    by (cases w) (auto simp: any_case_def eats_iffs)
qed

text \<open>An advisory identifier of the malicious-package database is recognised in any case of letters.\<close>

lemma mal_id_recognised:
  assumes "list_all2 (\<lambda>x c. lower_char x = lower_char c) p ''MAL-''"
    and "length year = 4" "list_all is_digit year" "n \<noteq> []" "list_all is_digit n"
  shows "re_matches MAL_RE (p @ year @ ''-'' @ n)"
proof -
  have "eats (any_case ''MAL-'') (p @ year @ ''-'' @ n) Map.empty (year @ ''-'' @ n) Map.empty"
    by (rule eats_any_case [OF assms(1)])
  moreover have "eats (Times 4 (Cls is_digit)) (year @ ''-'' @ n) Map.empty (''-'' @ n) Map.empty"
    using assms by (simp add: eats_Times)
  moreover have "eats (Lit CHR ''-'') (''-'' @ n) Map.empty n Map.empty"
    by (simp add: eats_iffs)
  moreover have "eats (Plus (Cls is_digit)) n Map.empty [] Map.empty"
    using assms by (simp add: eats_Plus_Cls del: eats.simps)
  moreover have "eats EndZ [] Map.empty [] Map.empty"
    by (simp add: eats_iffs)
  ultimately have "eats MAL_RE (p @ year @ ''-'' @ n) Map.empty [] Map.empty"
    unfolding MAL_RE_def Seqs.simps by (meson eats_Seq)
  then show ?thesis by (auto simp: re_matches_iff)
qed

end
