(* ===== verification/Osv_Spec.thy ===== *)
theory Osv_Spec
  imports Osv Cvss_Spec
begin

section \<open>Scanning: what a verdict may be trusted for\<close>

text \<open>
  A version is only stamped scanned when every advisory OSV named for it was read; malware is never
  filtered out; an incomplete scan changes nothing; and the score the policy reads on a version is
  the worst of the advisories linked to it, whatever is scanned, refreshed or rescored.
\<close>

subsection \<open>Fetching one advisory\<close>

lemma retry_delay_bounds: "retry_after_seconds env h = Inr asked \<Longrightarrow> 0 \<le> d \<Longrightarrow> d \<le> 5 \<Longrightarrow>
    0 \<le> retry_delay d asked \<and> retry_delay d asked \<le> 5"
  by (auto simp: retry_after_seconds_def retry_delay_def MAX_FETCH_RETRY_WAIT_def Let_def
      split: option.splits pyfloat.splits if_splits)

definition answered_at :: "osv_env \<Rightarrow> nat \<Rightarrow> string \<Rightarrow> nat \<Rightarrow> nat \<Rightarrow> scan_exn + json option \<Rightarrow> bool" where
  "answered_at env start i lo hi r = (case r of
     Inr (Some rec) \<Rightarrow> \<exists>k h. lo \<le> k \<and> k \<le> hi \<and> e_fetch env start i k = Reply 200 h (Some rec) | _ \<Rightarrow> True)"

lemma answered_at_mono: "answered_at env start i lo hi r \<Longrightarrow> lo' \<le> lo \<Longrightarrow> hi \<le> hi' \<Longrightarrow> answered_at env start i lo' hi' r"
  by (cases r) (auto simp: answered_at_def split: option.splits intro: order_trans)

lemma answered_at_simps [simp]:
  "answered_at env start i lo hi (Inl e)" "answered_at env start i lo hi (Inr None)"
  by (simp_all add: answered_at_def)

lemma answered_at_now: "e_fetch env start i n = Reply 200 h (Some rec) \<Longrightarrow> answered_at env start i n n (Inr (Some rec))"
  by (auto simp: answered_at_def)

lemma fetch_attempts_ends:
  "fetch_attempts env start i n delays = (r, slept) \<Longrightarrow>
   slept = [] \<and> answered_at env start i n n r \<or>
   (\<exists>d ds asked h r' slept'. delays = d # ds \<and> retry_after_seconds env h = Inr asked \<and> r = r' \<and>
      fetch_attempts env start i (n + 1) ds = (r', slept') \<and> slept = retry_delay d asked # slept')"
proof -
  assume *: "fetch_attempts env start i n delays = (r, slept)"
  have none: "retry_after_seconds env None = Inr None" by (simp add: retry_after_seconds_def)
  show ?thesis
  proof (cases delays)
    case Nil
    with * show ?thesis
      by (subst (asm) fetch_attempts.simps)
         (auto simp: Let_def intro: answered_at_now split: fetch_reply.splits if_splits option.splits)
  next
    case (Cons d ds)
    obtain r' slept' where rest: "fetch_attempts env start i (n + 1) ds = (r', slept')" by fastforce
    show ?thesis
    proof (cases "e_fetch env start i n")
      case Lost
      with * Cons rest show ?thesis
        by (subst (asm) fetch_attempts.simps) (use none in \<open>fastforce simp: Let_def\<close>)
    next
      case (Reply st h body)
      show ?thesis
      proof (cases "st = 200 \<or> st \<notin> RETRYABLE_STATUSES")
        case True
        with * Reply Cons show ?thesis
          by (subst (asm) fetch_attempts.simps) (auto simp: Let_def intro: answered_at_now split: if_splits option.splits)
      next
        case retry: False
        show ?thesis
        proof (cases "st = 429")
          case True
          with * Reply Cons retry rest show ?thesis
            by (subst (asm) fetch_attempts.simps)
               (cases "retry_after_seconds env h"; fastforce simp: Let_def)
        next
          case False
          with * Reply Cons retry rest show ?thesis
            by (subst (asm) fetch_attempts.simps) (use none in \<open>fastforce simp: Let_def\<close>)
        qed
      qed
    qed
  qed
qed

lemma fetch_attempts_bounds:
  "list_all (\<lambda>d. 0 \<le> d \<and> d \<le> 5) delays \<Longrightarrow> fetch_attempts env start i n delays = (r, slept) \<Longrightarrow>
   length slept \<le> length delays \<and> list_all (\<lambda>d. 0 \<le> d \<and> d \<le> 5) slept \<and> answered_at env start i n (n + length slept) r"
proof (induction delays arbitrary: n r slept)
  case Nil
  then show ?case using fetch_attempts_ends [OF Nil(2)] by auto
next
  case (Cons d ds)
  from fetch_attempts_ends [OF Cons.prems(2)] show ?case
  proof
    assume "slept = [] \<and> answered_at env start i n n r"
    then show ?thesis by simp
  next
    assume "\<exists>d' ds' asked h r' slept'. d # ds = d' # ds' \<and> retry_after_seconds env h = Inr asked \<and> r = r' \<and>
      fetch_attempts env start i (n + 1) ds' = (r', slept') \<and> slept = retry_delay d' asked # slept'"
    then obtain asked h slept' where *: "retry_after_seconds env h = Inr asked"
        "fetch_attempts env start i (n + 1) ds = (r, slept')" "slept = retry_delay d asked # slept'"
      by auto
    from Cons.IH [OF _ *(2)] Cons.prems(1) retry_delay_bounds [OF *(1), of d]
    show ?thesis by (auto simp: *(3) elim: answered_at_mono)
  qed
qed

text \<open>
  Fetching an advisory ends after at most three requests, with at most two pauses of at most
  five seconds between them whatever \<open>Retry-After\<close> asks for, and what it returns is the body of an
  answer with status 200 to one of those requests.
\<close>

theorem fetch_is_bounded:
  "case fetch_vuln env start i of (r, slept) \<Rightarrow>
     length slept \<le> 2 \<and> list_all (\<lambda>d. 0 \<le> d \<and> d \<le> 5) slept \<and>
     (case r of Inr (Some rec) \<Rightarrow> \<exists>k h. k \<le> 2 \<and> e_fetch env start i k = Reply 200 h (Some rec) | _ \<Rightarrow> True)"
proof (cases "fetch_vuln env start i")
  case (Pair r slept)
  then have "length slept \<le> 2 \<and> list_all (\<lambda>d. 0 \<le> d \<and> d \<le> 5) slept \<and> answered_at env start i 0 (length slept) r"
    using fetch_attempts_bounds [of FETCH_RETRY_DELAYS env start i 0 r slept]
    by (simp add: fetch_vuln_def FETCH_RETRY_DELAYS_def)
  then show ?thesis
    unfolding Pair using answered_at_mono [of env start i 0 "length slept" r 0 2] by (cases r) (auto simp: answered_at_def split: option.splits)
qed

subsection \<open>Malware\<close>

text \<open>
  C30: a malicious-package advisory is never filtered out, whatever \<open>OSV_CVE_ONLY\<close> says, and what
  is stored for it is marked as malware and carries a score, 10.0 when it publishes none.
\<close>

theorem malware_never_filtered:
  assumes "is_malicious rec = Inr True"
  shows "case read_record env eco i rec of
     Inr None \<Rightarrow> False
   | Inr (Some (row, f)) \<Rightarrow> f_malicious f \<and> vr_score row = f_score f \<and>
       f_score f = (case best_severity rec of Inr (Some s, _) \<Rightarrow> Some s | _ \<Rightarrow> Some 10)
   | Inl _ \<Rightarrow> True"
proof (cases "extract_cve rec")
  case (Inr cve)
  note read = read_record_def sum_bind_simps assms Inr
  show ?thesis
  proof (cases "best_severity rec")
    case (Inr best)
    show ?thesis
      by (cases "str_or_empty TypeError (jget rec ''details'')"; cases best; cases "fst best")
         (simp_all add: read Inr Let_def MALICIOUS_SCORE_def)
  qed (simp add: read)
qed (simp add: read_record_def)

lemma malware_never_filtered_witness:
  "\<forall>env. read_record env ''npm'' ''MAL-2024-1'' (JObj [(''id'', JStr ''MAL-2024-1'')]) \<noteq> Inr None"
proof
  fix env
  have "re_matches MAL_RE (''MAL-'' @ ''2024'' @ ''-'' @ ''1'')"
    by (rule mal_id_recognised) (simp_all add: is_digit_def)
  then have "is_malicious (JObj [(''id'', JStr ''MAL-2024-1'')]) = Inr True"
    by (simp add: is_malicious_def dict_get_def str_or_empty_def)
  from malware_never_filtered [OF this, of env "''npm''" "''MAL-2024-1''"] show "read_record env ''npm'' ''MAL-2024-1'' (JObj [(''id'', JStr ''MAL-2024-1'')]) \<noteq> Inr None"
    by (intro notI) simp
qed

subsection \<open>Loops\<close>

lemma each_of_inv:
  "each_of body xs st = (r, st') \<Longrightarrow> I st \<Longrightarrow>
   (\<And>x st r st'. x \<in> set xs \<Longrightarrow> I st \<Longrightarrow> body x st = (r, st') \<Longrightarrow> I st') \<Longrightarrow> I st'"
proof (induction xs arbitrary: st)
  case (Cons x xs)
  obtain r1 st1 where b: "body x st = (r1, st1)" by fastforce
  with Cons.prems have I1: "I st1" by force
  show ?case
  proof (cases r1)
    case Inl
    with b Cons.prems I1 show ?thesis by simp
  next
    case (Inr u)
    with b Cons.prems(1) have "each_of body xs st1 = (r, st')" by simp
    then show ?thesis using Cons.IH I1 Cons.prems(3) by (meson list.set_intros(2))
  qed
qed simp

lemma each_of_done:
  "each_of body xs st = (Inr u, st') \<Longrightarrow> I st \<Longrightarrow>
   (\<And>x st st'. x \<in> set xs \<Longrightarrow> I st \<Longrightarrow> body x st = (Inr (), st') \<Longrightarrow> I st' \<and> P x st' \<and> (\<forall>y. P y st \<longrightarrow> P y st')) \<Longrightarrow>
   I st' \<and> (\<forall>x \<in> set xs. P x st') \<and> (\<forall>y. P y st \<longrightarrow> P y st')"
proof (induction xs arbitrary: st)
  case (Cons x xs)
  obtain r1 st1 where b: "body x st = (r1, st1)" by fastforce
  then have r1: "r1 = Inr ()" using Cons.prems(1) by (cases r1) auto
  have step: "I st1 \<and> P x st1 \<and> (\<forall>y. P y st \<longrightarrow> P y st1)"
    by (rule Cons.prems(3)) (use Cons.prems(2) b r1 in simp_all)
  have rest: "each_of body xs st1 = (Inr u, st')" using b r1 Cons.prems(1) by simp
  have "I st' \<and> (\<forall>x \<in> set xs. P x st') \<and> (\<forall>y. P y st1 \<longrightarrow> P y st')"
    by (rule Cons.IH [OF rest]) (use step Cons.prems(3) in auto)
  then show ?case using step by auto
qed simp

subsection \<open>Tables\<close>

lemma note_changed_simps [simp]:
  "advisories (note_changed p db) = advisories db" "links (note_changed p db) = links db"
  "version_rows (note_changed p db) = version_rows db" "package_rows (note_changed p db) = package_rows db"
  by (simp_all add: note_changed_def Let_def)

lemma put_version_simps [simp]:
  "advisories (save_version v db) = advisories db" "links (save_version v db) = links db"
  "package_rows (save_version v db) = package_rows db"
  by (simp_all add: save_version_def)

lemma bump_simps [simp]:
  "advisories (bump c db) = advisories db" "links (bump c db) = links db"
  "version_rows (bump c db) = version_rows db" "package_rows (bump c db) = package_rows db"
  by (simp_all add: bump_def)

lemma write_verdict_simps [simp]:
  "advisories (write_verdict x db) = advisories db" "links (write_verdict x db) = links db"
  "package_rows (write_verdict x db) = package_rows db"
  by (auto simp: write_verdict_def Let_def split: option.splits)

lemma fold_write_verdict_simps [simp]:
  "advisories (fold write_verdict xs db) = advisories db" "links (fold write_verdict xs db) = links db"
  "package_rows (fold write_verdict xs db) = package_rows db"
  by (induction xs arbitrary: db) simp_all

lemma find_map_eq:
  "(\<And>x. x \<in> set xs \<Longrightarrow> g (f x) = g x) \<Longrightarrow> find (\<lambda>x. g x = i) (map f xs) = map_option f (find (\<lambda>x. g x = i) xs)"
  by (induction xs) auto

lemma find_last_added:
  "find P (xs @ [x]) = (case find P xs of None \<Rightarrow> if P x then Some x else None | Some r \<Rightarrow> Some r)"
  by (induction xs) auto

lemma advisory_of_id: "advisory_of db i = Some r \<Longrightarrow> vr_id r = i \<and> r \<in> set (advisories db)"
  by (auto simp: advisory_of_def find_Some_iff)

lemma advisory_of_upsert:
  "advisory_of (upsert_vulnerability row db) i = (if i = vr_id row then Some row else advisory_of db i)"
proof (cases "advisory_of db (vr_id row)")
  case None
  then show ?thesis
    by (auto simp: upsert_vulnerability_def advisory_of_def find_last_added split: option.splits)
next
  case (Some r)
  then show ?thesis
    using advisory_of_id [OF Some]
    by (auto simp: upsert_vulnerability_def advisory_of_def find_map_eq map_option_case split: option.splits
        dest: advisory_of_id [unfolded advisory_of_def])
qed

lemma upsert_simps [simp]:
  "links (upsert_vulnerability row db) = links db" "version_rows (upsert_vulnerability row db) = version_rows db"
  "package_rows (upsert_vulnerability row db) = package_rows db"
  by (simp_all add: upsert_vulnerability_def)

lemma relink_simps:
  "relink recs i db = (r, db') \<Longrightarrow> advisories db' = advisories db \<and> version_rows db' = version_rows db
     \<and> package_rows db' = package_rows db"
  by (auto simp: relink_def Let_def split: option.splits sum.splits)

lemma recompute_simps:
  "recompute_versions vids db = (r, db') \<Longrightarrow> advisories db' = advisories db \<and> links db' = links db
     \<and> package_rows db' = package_rows db"
  by (auto simp: recompute_versions_def split: sum.splits)

lemma reapply_advisories: "reapply_records recs db = (r, db') \<Longrightarrow> advisories db' = advisories db"
proof -
  assume *: "reapply_records recs db = (r, db')"
  obtain r1 db1 where e: "each_of (relink recs) [0..<length (links db)] db = (r1, db1)" by fastforce
  have "advisories db1 = advisories db"
    by (rule each_of_inv [OF e]) (auto dest: relink_simps)
  with * e show ?thesis
    by (auto simp: reapply_records_def Let_def split: if_splits sum.splits dest: recompute_simps)
qed

subsection \<open>Reading the advisories of a batch\<close>

text \<open>An advisory can be read: it is stored, or OSV answered a request for it with its record.\<close>

definition readable :: "osv_env \<Rightarrow> osv_db \<Rightarrow> string \<Rightarrow> bool" where
  "readable env db i = (advisory_of db i \<noteq> None \<or> (\<exists>start. usable_record i (fst (fetch_vuln env start i)) \<noteq> None))"

definition all_readable :: "osv_env \<Rightarrow> osv_db \<Rightarrow> osv_db \<Rightarrow> bool" where
  "all_readable env db db' = (\<forall>i. advisory_of db' i \<noteq> None \<longrightarrow> readable env db i)"

lemma readable_trans: "all_readable env db db' \<Longrightarrow> readable env db' i \<Longrightarrow> readable env db i"
  by (auto simp: readable_def all_readable_def)

lemma all_readable_trans: "all_readable env db db' \<Longrightarrow> all_readable env db' db'' \<Longrightarrow> all_readable env db db''"
  using readable_trans by (auto simp: all_readable_def)

lemma all_readable_same: "advisories db'' = advisories db' \<Longrightarrow> all_readable env db db'' = all_readable env db db'"
  by (simp add: all_readable_def advisory_of_def)

lemma read_record_id:
  assumes "read_record env eco i rec = Inr x"
  shows "case x of None \<Rightarrow> e_cve_only env | Some (row, f) \<Rightarrow>
    vr_id row = i \<and> f_id f = i \<and> f_score f = vr_score row \<and> vr_raw row = rec \<and> f_raw f = rec"
proof -
  obtain cve mal where c: "extract_cve rec = Inr cve" "is_malicious rec = Inr mal"
    using assms by (auto simp: read_record_def sum_bind_Inr_iff)
  show ?thesis
  proof (cases "e_cve_only env \<and> cve = None \<and> \<not> mal")
    case True
    with assms show ?thesis by (auto simp: read_record_def c)
  next
    case False
    then obtain best details where "best_severity rec = Inr best" "str_or_empty TypeError (jget rec ''details'') = Inr details"
      using assms by (cases "best_severity rec"; cases "str_or_empty TypeError (jget rec ''details'')")
        (auto simp: read_record_def c Let_def split: prod.splits)
    with assms False show ?thesis
      by (cases "mal \<and> fst best = None") (auto simp: read_record_def c Let_def split_beta)
  qed
qed

lemma hydrate_one_readable:
  assumes "all_readable env db (hy_db h)" "hydrate_one env start eco stale i h = (r, h')"
  shows "all_readable env db (hy_db h')"
proof (cases "usable_record i (fst (fetch_vuln env start i))")
  case None
  with assms show ?thesis by (auto simp: hydrate_one_def split: if_splits)
next
  case (Some rec)
  then have "readable env db i" by (auto simp: readable_def)
  then show ?thesis
    using assms Some read_record_id [of env eco i rec]
    by (auto simp: hydrate_one_def all_readable_def advisory_of_upsert split: sum.splits option.splits if_splits)
qed

lemma hydrate_readable: "hydrate env start eco reported db = (r, db') \<Longrightarrow> all_readable env db db'"
proof -
  assume h: "hydrate env start eco reported db = (r, db')"
  have base: "all_readable env db db" by (simp add: all_readable_def readable_def)
  have loop: "all_readable env db (hy_db h')" if "each_of (hydrate_one env start eco stale) is h = (q, h')" "hy_db h = db"
    for stale "is" h q h'
    by (rule each_of_inv [OF that(1), where I = "\<lambda>h. all_readable env db (hy_db h)"])
       (use base that(2) in simp, rule hydrate_one_readable, assumption+)
  define known where "known = filter (\<lambda>r. vr_id r \<in> set (map fst reported)) (advisories db)"
  show ?thesis
  proof (cases "reported = []")
    case True
    with h base show ?thesis by (simp add: hydrate_def)
  next
    case False
    show ?thesis
    proof (cases "sum_map stored_finding known")
      case (Inl e)
      with h base False show ?thesis by (simp add: hydrate_def known_def)
    next
      case (Inr fs)
      define cached where "cached = map_of (map (\<lambda>f. (f_id f, f)) (rev fs))"
      define stale where "stale = map vr_id (filter (\<lambda>r. is_stale env r (the (map_of (rev reported) (vr_id r)))) known)"
      define missing where "missing = sort (remdups (filter (\<lambda>i. cached i = None \<or> i \<in> set stale) (map fst reported)))"
      define h0 where "h0 = \<lparr>hy_cached = cached, hy_failed = [], hy_refreshed = [], hy_db = db\<rparr>"
      obtain q hf where e: "each_of (hydrate_one env start eco stale) missing h0 = (q, hf)" by fastforce
      have hf: "all_readable env db (hy_db hf)" by (rule loop [OF e]) (simp add: h0_def)
      obtain q2 db2 where rr: "reapply_records (map_of (hy_refreshed hf)) (hy_db hf) = (q2, db2)" by fastforce
      have "all_readable env db db2" using hf all_readable_same [OF reapply_advisories [OF rr]] by simp
      moreover have "db' \<in> {db, hy_db hf, db2}"
        using h False unfolding hydrate_def known_def [symmetric] Inr sum.case Let_def
          cached_def [symmetric] stale_def [symmetric] missing_def [symmetric] h0_def [symmetric] e prod.case rr
        by (cases q; cases q2) (simp_all split: if_splits)
      ultimately show ?thesis using base hf by auto
    qed
  qed
qed

text \<open>What holds of an advisory once the loop has been through it.\<close>

definition all_settled :: "osv_env \<Rightarrow> osv_db \<Rightarrow> string \<Rightarrow> hydration \<Rightarrow> bool" where
  "all_settled env db i h = (hy_cached h i \<noteq> None \<or> i \<in> set (hy_failed h) \<or> e_cve_only env \<and> readable env db i)"

definition hydra_ok :: "osv_env \<Rightarrow> osv_db \<Rightarrow> string list \<Rightarrow> hydration \<Rightarrow> bool" where
  "hydra_ok env db stale h = (all_readable env db (hy_db h) \<and>
     (\<forall>i f. hy_cached h i = Some f \<longrightarrow> f_id f = i \<and> readable env db i) \<and> (\<forall>i \<in> set stale. all_settled env db i h))"

lemma hydrate_one_ok:
  assumes ok: "hydra_ok env db stale h" and step: "hydrate_one env start eco stale i h = (Inr u, h')"
  shows "hydra_ok env db stale h'" "all_settled env db i h'" "all_settled env db j h \<Longrightarrow> all_settled env db j h'"
proof -
  have "hydra_ok env db stale h' \<and> all_settled env db i h' \<and> (all_settled env db j h \<longrightarrow> all_settled env db j h')"
  proof (cases "usable_record i (fst (fetch_vuln env start i))")
    case None
    with step ok show ?thesis
      by (auto simp: hydrate_one_def hydra_ok_def all_settled_def split: if_splits)
  next
    case (Some rec)
    then have r: "readable env db i" by (auto simp: readable_def)
    from step Some obtain x where x: "read_record env eco i rec = Inr x"
      by (auto simp: hydrate_one_def split: sum.splits)
    show ?thesis
    proof (cases x)
      case None
      with step Some x ok r read_record_id [OF x] show ?thesis
        by (auto simp: hydrate_one_def hydra_ok_def all_settled_def split: if_splits)
    next
      case (Some y)
      obtain row f where y: "y = (row, f)" by (cases y) auto
      have id: "vr_id row = i" "f_id f = i" using read_record_id [OF x] Some y by auto
      have h': "hy_db h' = upsert_vulnerability row (hy_db h)" "hy_cached h' = (hy_cached h)(i \<mapsto> f)"
          "hy_failed h' = hy_failed h"
        using step \<open>usable_record i (fst (fetch_vuln env start i)) = Some rec\<close> x Some y
        by (auto simp: hydrate_one_def split: if_splits)
      show ?thesis
        using ok r id by (auto simp: h' hydra_ok_def all_settled_def all_readable_def advisory_of_upsert)
    qed
  qed
  then show "hydra_ok env db stale h'" "all_settled env db i h'" "all_settled env db j h \<Longrightarrow> all_settled env db j h'"
    by blast+
qed

lemma map_of_rev_ids:
  "map_of (map (\<lambda>f. (f_id f, f)) fs) i = Some f \<Longrightarrow> f_id f = i \<and> f \<in> set fs"
  by (induction fs) (auto split: if_splits)

lemma map_of_ids_None: "map_of (map (\<lambda>f. (f_id f, f)) fs) i = None \<longleftrightarrow> i \<notin> f_id ` set fs"
  by (induction fs) auto

lemma stored_finding_id: "stored_finding r = Inr f \<Longrightarrow> f_id f = vr_id r \<and> f_score f = vr_score r \<and> f_raw f = vr_raw r"
  by (auto simp: stored_finding_def sum_bind_Inr_iff)

lemma stored_findings_map:
  "sum_map stored_finding rs = Inr fs \<Longrightarrow> map f_id fs = map vr_id rs \<and> map f_score fs = map vr_score rs"
  by (induction rs arbitrary: fs) (auto simp: sum_bind_Inr_iff dest: stored_finding_id)

lemma hydrate_reads:
  assumes h: "hydrate env start eco reported db = (Inr (cached, failed), db')"
  shows "all_readable env db db'"
    and "i \<in> fst ` set reported \<Longrightarrow> i \<notin> set failed \<Longrightarrow>
      readable env db i \<and> (cached i = None \<longrightarrow> e_cve_only env)"
    and "cached i = Some f \<Longrightarrow> f_id f = i"
proof -
  define known where "known = filter (\<lambda>r. vr_id r \<in> set (map fst reported)) (advisories db)"
  have base: "all_readable env db db" by (simp add: all_readable_def readable_def)
  have goal: "all_readable env db db' \<and> (\<forall>i \<in> fst ` set reported. i \<notin> set failed \<longrightarrow>
      readable env db i \<and> (cached i = None \<longrightarrow> e_cve_only env)) \<and> (\<forall>i f. cached i = Some f \<longrightarrow> f_id f = i)"
  proof (cases "reported = []")
    case True
    with h base show ?thesis by (auto simp: hydrate_def)
  next
    case False
    from h False obtain fs where fs: "sum_map stored_finding known = Inr fs"
      by (auto simp: hydrate_def known_def Let_def split: sum.splits)
    define cached0 where "cached0 = map_of (map (\<lambda>f. (f_id f, f)) (rev fs))"
    define stale where "stale = map vr_id (filter (\<lambda>r. is_stale env r (the (map_of (rev reported) (vr_id r)))) known)"
    define missing where "missing = sort (remdups (filter (\<lambda>i. cached0 i = None \<or> i \<in> set stale) (map fst reported)))"
    define h0 where "h0 = \<lparr>hy_cached = cached0, hy_failed = [], hy_refreshed = [], hy_db = db\<rparr>"
    have h_eq: "(if missing = [] then (Inr (cached0, []), db)
        else (case each_of (hydrate_one env start eco stale) missing h0 of
          (Inl e, h) \<Rightarrow> (Inl e, hy_db h)
        | (Inr _, h) \<Rightarrow>
            if hy_refreshed h = [] then (Inr (hy_cached h, hy_failed h), hy_db h)
            else (case reapply_records (map_of (hy_refreshed h)) (hy_db h) of
              (Inl e, db') \<Rightarrow> (Inl e, db')
            | (Inr _, db') \<Rightarrow> (Inr (hy_cached h, hy_failed h), db')))) = (Inr (cached, failed), db')"
      using h False unfolding hydrate_def known_def [symmetric] fs sum.case Let_def
        cached0_def [symmetric] stale_def [symmetric] missing_def [symmetric] h0_def [symmetric] by simp
    have ids: "f_id ` set fs = vr_id ` set known"
      using stored_findings_map [OF fs] by (metis set_map)
    have known_readable: "readable env db (vr_id r)" if "r \<in> set known" for r
      using that by (auto simp: known_def readable_def advisory_of_def find_None_iff)
    have c0: "f_id f = i \<and> readable env db i" if "cached0 i = Some f" for i f
      using map_of_rev_ids [OF that [unfolded cached0_def]] ids known_readable by (metis image_iff set_rev)
    have c0_stale: "cached0 i \<noteq> None" if "i \<in> set stale" for i
      using that ids unfolding cached0_def map_of_ids_None by (auto simp: stale_def)
    have ok0: "hydra_ok env db stale h0"
      using base c0 c0_stale by (auto simp: hydra_ok_def h0_def all_settled_def)
    have nm: "all_settled env db i h0" if "i \<in> fst ` set reported" "i \<notin> set missing" for i
      using that by (auto simp: missing_def all_settled_def h0_def)
    show ?thesis
    proof (cases "missing = []")
      case True
      with h_eq have "cached = cached0" "failed = []" "db' = db" by simp_all
      then show ?thesis using True base c0 nm by (fastforce simp: all_settled_def h0_def)
    next
      case m: False
      obtain r hf where e: "each_of (hydrate_one env start eco stale) missing h0 = (r, hf)" by fastforce
      note h_eq = h_eq [unfolded e if_not_P [OF m] prod.case]
      then obtain u where r: "r = Inr u" by (cases r) simp_all
      have cf: "cached = hy_cached hf \<and> failed = hy_failed hf \<and> advisories db' = advisories (hy_db hf)"
      proof (cases "hy_refreshed hf = []")
        case True
        with h_eq r show ?thesis by simp
      next
        case False
        obtain r2 db2 where rr: "reapply_records (map_of (hy_refreshed hf)) (hy_db hf) = (r2, db2)" by fastforce
        with h_eq r False show ?thesis using reapply_advisories [OF rr] by (cases r2) simp_all
      qed
      then have adv: "advisories db' = advisories (hy_db hf)" by blast
      note e = e [unfolded r]
      have all: "hydra_ok env db stale hf \<and> (\<forall>i \<in> set missing. all_settled env db i hf)
          \<and> (\<forall>i. all_settled env db i h0 \<longrightarrow> all_settled env db i hf)"
        by (rule each_of_done [OF e, where I = "hydra_ok env db stale", OF ok0]) ((intro conjI allI impI; rule hydrate_one_ok; assumption)+)
      then have "\<forall>i \<in> fst ` set reported. all_settled env db i hf"
        using nm by blast
      moreover have "all_readable env db db'" "\<forall>i f. cached i = Some f \<longrightarrow> f_id f = i \<and> readable env db i"
        using all all_readable_same [OF adv] by (simp_all add: hydra_ok_def cf)
      ultimately show ?thesis by (simp add: all_settled_def cf) (metis option.distinct(1))
    qed
  qed
  then show "all_readable env db db'" by blast
  show "readable env db i \<and> (cached i = None \<longrightarrow> e_cve_only env)" if "i \<in> fst ` set reported" "i \<notin> set failed"
    using goal that by blast
  show "f_id f = i" if "cached i = Some f" using goal that by blast
qed

subsection \<open>What "scanned" means\<close>

definition osv_queries :: "string \<Rightarrow> (string \<times> string) list \<Rightarrow> (string \<times> string \<times> string) list" where
  "osv_queries eco batch = map (\<lambda>(name, version). (name, OSV_ECOSYSTEM eco, version)) batch"

text \<open>
  OSV answered a query for this version with the advisories \<open>ids\<close>, every one of them could be read,
  and (unless the operator asked for advisories with a CVE only) every one of them is in the result.
\<close>

definition vouched :: "osv_env \<Rightarrow> string \<Rightarrow> osv_db \<Rightarrow> string \<times> string \<Rightarrow> scan_result \<Rightarrow> bool" where
  "vouched env eco db key r = (\<exists>start batch answers n ids.
     query_batch env start (osv_queries eco batch) = Inr answers \<and> length answers = length batch \<and>
     n < length batch \<and> batch ! n = key \<and> named_advisories env (answers ! n) = Inr ids \<and>
     list_all (\<lambda>x. readable env db (fst x)) ids \<and> (e_cve_only env \<or> map f_id (sr_cves r) = map fst ids))"

definition results_ok :: "osv_env \<Rightarrow> string \<Rightarrow> osv_db \<Rightarrow> results \<times> osv_db \<Rightarrow> bool" where
  "results_ok env eco db st = (all_readable env db (snd st) \<and>
     (\<forall>key r. fst st key = Some r \<longrightarrow> sr_scanned r \<longrightarrow> vouched env eco db key r))"

lemma unscanned_simps [simp]: "sr_scanned (unscanned key) = False" "sr_cves (unscanned key) = []"
  by (simp_all add: unscanned_def)

lemma mark_unscanned_eq:
  "mark_unscanned batch results key = (if key \<in> set batch then Some (unscanned key) else results key)"
  unfolding mark_unscanned_def by (induction batch arbitrary: results) auto

lemma results_ok_unscanned:
  "results_ok env eco db (results, db') \<Longrightarrow> results_ok env eco db (mark_unscanned batch results, db')"
  "results_ok env eco db (results, db') \<Longrightarrow> results_ok env eco db (results(key \<mapsto> unscanned key), db')"
  by (auto simp: results_ok_def mark_unscanned_eq)

lemma results_ok_db:
  "results_ok env eco db (results, db') \<Longrightarrow> advisories db'' = advisories db' \<Longrightarrow> results_ok env eco db (results, db'')"
  by (simp add: results_ok_def all_readable_same [of db'' db'])

lemma add_fix_ids: "sum_map (add_fix name) fs = Inr fs' \<Longrightarrow> map f_id fs' = map f_id fs \<and> map f_score fs' = map f_score fs"
  by (induction fs arbitrary: fs') (auto simp: sum_bind_Inr_iff add_fix_def split: if_splits)

lemma map_filter_ids:
  "\<forall>i f. hydrated i = Some f \<longrightarrow> f_id f = i \<Longrightarrow> list_all (\<lambda>i. hydrated i \<noteq> None) ids \<Longrightarrow>
   map f_id (List.map_filter hydrated ids) = ids"
  by (induction ids) (auto simp: List.map_filter_simps)

lemma scan_item_ok:
  assumes ok: "results_ok env eco db (results, db1)"
    and step: "scan_item hydrated failed (key, ids) (results, db1) = (q, st')"
    and good: "\<And>cves. list_all (\<lambda>i. i \<notin> set failed) ids \<Longrightarrow>
      (e_cve_only env \<or> map f_id cves = ids) \<Longrightarrow> vouched env eco db key (complete_result key cves)"
    and hyd: "\<forall>i f. hydrated i = Some f \<longrightarrow> f_id f = i"
    and cov: "\<forall>i \<in> set ids. i \<notin> set failed \<longrightarrow> hydrated i = None \<longrightarrow> e_cve_only env"
  shows "results_ok env eco db st'"
proof (cases "list_ex (\<lambda>i. i \<in> set failed) ids")
  case True
  with step have "st' = (results(key \<mapsto> unscanned key), bump ''cve.hydrate.failed'' db1)"
    by (simp add: scan_item_def)
  then show ?thesis using ok by (auto intro!: results_ok_unscanned results_ok_db [of env eco db _ db1])
next
  case False
  then have nf: "list_all (\<lambda>i. i \<notin> set failed) ids" by (auto simp: list_ex_iff list_all_iff)
  show ?thesis
  proof (cases "sum_map (add_fix (fst key)) (List.map_filter hydrated ids)")
    case (Inl e)
    with False step ok show ?thesis by (simp add: scan_item_def)
  next
    case (Inr cves)
    have "e_cve_only env \<or> map f_id cves = ids"
    proof (cases "e_cve_only env")
      case no: False
      then have "list_all (\<lambda>i. hydrated i \<noteq> None) ids" using cov nf by (auto simp: list_all_iff)
      then show ?thesis using add_fix_ids [OF Inr] map_filter_ids [OF hyd] by simp
    qed simp
    from good [OF nf this] have "vouched env eco db key (complete_result key cves)" .
    moreover have "st' = (results(key \<mapsto> complete_result key cves), db1)"
      using Inr False step by (simp add: scan_item_def)
    ultimately show ?thesis using ok by (auto simp: results_ok_def)
  qed
qed

lemma scan_batch_ok:
  assumes ok: "results_ok env eco db st" and step: "scan_batch env eco (start, batch) st = (q, st')"
  shows "results_ok env eco db st'"
proof -
  obtain results db1 where st: "st = (results, db1)" by (cases st)
  note ok = ok [unfolded st]
  note unmarked = results_ok_unscanned(1) [OF ok, of batch]
  show ?thesis
  proof (cases "query_batch env start (osv_queries eco batch)")
    case (Inl e)
    with step st ok unmarked show ?thesis
      by (cases e) (auto simp: scan_batch_def osv_queries_def intro: results_ok_db)
  next
    case (Inr answers)
    note scan = step [unfolded st scan_batch_def prod.case osv_queries_def [symmetric] Inr sum.case]
    show ?thesis
    proof (cases "length answers = length batch")
      case False
      with scan unmarked show ?thesis by auto
    next
      case len: True
      show ?thesis
      proof (cases "sum_map (named_advisories env) answers")
        case (Inl e)
        with scan len ok show ?thesis by simp
      next
        case named: (Inr named)
        obtain hr db2 where h: "hydrate env start eco (concat named) db1 = (hr, db2)" by fastforce
        show ?thesis
        proof (cases hr)
          case (Inl e)
          then have "st' = (results, db2)" using scan len named h by simp
          then show ?thesis using ok hydrate_readable [OF h] by (auto simp: results_ok_def intro: all_readable_trans)
        next
          case hr: (Inr cf)
          obtain hydrated failed where cf: "cf = (hydrated, failed)" by (cases cf)
          note reads = hydrate_reads [OF h [unfolded hr cf]]
          have db2: "all_readable env db db2"
            using reads(1) ok by (auto simp: results_ok_def intro: all_readable_trans)
          have each: "each_of (scan_item hydrated failed) (zip batch (map (map fst) named)) (results, db2) = (q, st')"
            using scan len named h hr cf by simp
          have start: "results_ok env eco db (results, db2)"
            using ok db2 by (simp add: results_ok_def)
          show ?thesis
          proof (rule each_of_inv [OF each, where I = "results_ok env eco db", OF start])
            fix item st r st'
            assume item: "item \<in> set (zip batch (map (map fst) named))" and inv: "results_ok env eco db st"
              and run: "scan_item hydrated failed item st = (r, st')"
            obtain n where n: "n < length batch" "item = (batch ! n, map fst (named ! n))"
              using item len named by (auto simp: set_zip sum_map_Inr_iff dest: list_all2_lengthD)
            have nm: "named_advisories env (answers ! n) = Inr (named ! n)" "named ! n \<in> set named"
              using named len n(1) by (auto simp: sum_map_Inr_iff list_all2_conv_all_nth)
            have sub: "fst ` set (named ! n) \<subseteq> fst ` set (concat named)" using nm(2) by auto
            obtain res db3 where st: "st = (res, db3)" by (cases st)
            show "results_ok env eco db st'"
            proof (rule scan_item_ok [OF inv [unfolded st] run [unfolded st n(2)]])
              fix cves :: "finding list"
              assume "list_all (\<lambda>i. i \<notin> set failed) (map fst (named ! n))"
                and ids: "e_cve_only env \<or> map f_id cves = map fst (named ! n)"
              then have nf: "\<forall>i \<in> fst ` set (named ! n). i \<notin> set failed" by (auto simp: list_all_iff)
              have "readable env db1 i" if "i \<in> fst ` set (named ! n)" for i
                using reads(2) [of i] sub that nf by blast
              then have "list_all (\<lambda>x. readable env db (fst x)) (named ! n)"
                using readable_trans ok by (fastforce simp: list_all_iff results_ok_def)
              then show "vouched env eco db (batch ! n) (complete_result (batch ! n) cves)"
                unfolding vouched_def using Inr len n(1) nm(1) ids
                by (intro exI [of _ start] exI [of _ batch] exI [of _ answers] exI [of _ n] exI [of _ "named ! n"] conjI)
                   (simp_all add: complete_result_def)
            next
              show "\<forall>i f. hydrated i = Some f \<longrightarrow> f_id f = i" using reads(3) by blast
              show "\<forall>i \<in> set (map fst (named ! n)). i \<notin> set failed \<longrightarrow> hydrated i = None \<longrightarrow> e_cve_only env"
                using reads(2) sub by (metis list.set_map subset_iff)
            qed
          qed
        qed
      qed
    qed
  qed
qed

text \<open>
  C14: a version is stamped scanned only on an answer of OSV to a query for that very version, with
  every advisory that answer names read (from the table or from OSV) and, unless advisories without
  a CVE are switched off, in the result. A failed or short answer, or an advisory that could not be
  fetched, leaves the version unscanned.
\<close>

theorem scanned_means_all_read:
  assumes "scan_versions env eco items db = (Inr results, db')" "results key = Some r" "sr_scanned r"
  shows "vouched env eco db key r"
proof (cases "\<not> e_enabled env \<or> items = []")
  case True
  with assms show ?thesis by (auto simp: scan_versions_def mark_unscanned_eq split: if_splits)
next
  case False
  obtain q st where e: "each_of (scan_batch env eco) (batches (e_batch env) 0 items) (Map.empty, db) = (q, st)"
    by (rule prod.exhaust)
  have "results_ok env eco db st"
  proof (rule each_of_inv [OF e, where I = "results_ok env eco db"])
    show "results_ok env eco db (Map.empty, db)"
      by (simp add: results_ok_def all_readable_def readable_def)
    show "results_ok env eco db st'" if "results_ok env eco db st" "scan_batch env eco x st = (r, st')" for x st r st'
      using scan_batch_ok [of env eco db st "fst x" "snd x" r st'] that by simp
  qed
  moreover have "fst st = results"
    using assms(1) False e by (auto simp: scan_versions_def split: if_splits sum.splits prod.splits)
  ultimately show ?thesis using assms(2,3) unfolding results_ok_def by metis
qed

definition sample_advisory :: advisory_row where
  "sample_advisory = \<lparr>vr_id = ''A'', vr_cve = ''A'', vr_eco = ''npm'', vr_summary = JNull, vr_details = None,
     vr_type = None, vr_vector = None, vr_score = Some 7, vr_label = Some ''high'', vr_aliases = JNull,
     vr_references = JNull, vr_published = None, vr_modified = None, vr_withdrawn = None, vr_raw = JNull,
     vr_fetched = Some (Aware 0)\<rparr>"

definition sample_version :: version_row where
  "sample_version = \<lparr>sv_id = 2, sv_package = 4, sv_version = ''v'', sv_max_cvss = None, sv_has_fix = False,
     sv_has_advisories = False, sv_malicious = False, sv_scanned_at = None\<rparr>"

definition sample_db :: osv_db where
  "sample_db = \<lparr>advisories = [sample_advisory], links = [], version_rows = [sample_version],
     package_rows = [(4, ''npm'', ''p'')], changed_packages = [], package_keys = Map.empty, counters = []\<rparr>"

definition osv_sample_env :: osv_env where
  "osv_sample_env = \<lparr>e_enabled = True, e_inline = True, e_cve_only = False, e_batch = 2, e_refresh = 9, e_now = 0,
     e_iso = (\<lambda>_. None), e_http_date = (\<lambda>_. None),
     e_query = (\<lambda>_ _. Batch_reply 200 (Some (JObj [(''results'', JList [JObj [(''vulns'', JList [JObj [(''id'', JStr ''A'')]])]])]))),
     e_fetch = (\<lambda>_ _ _. Lost)\<rparr>"

definition sample_finding :: finding where
  "sample_finding = \<lparr>f_id = ''A'', f_cve = ''A'', f_score = Some 7, f_severity = Some ''high'', f_summary = JNull,
     f_fixed = JNull, f_raw = JNull, f_malicious = False\<rparr>"

lemma sample_stored: "stored_finding sample_advisory = Inr sample_finding"
  by (simp add: stored_finding_def row_malicious_def is_malicious_def dict_get_def str_or_empty_def alias_list_def
      elems_or_empty_def re_matches_def re_match_def MAL_RE_def any_case_def lower_char_def sample_advisory_def
      sample_finding_def)

lemma sample_hydrate:
  "hydrate osv_sample_env 0 ''npm'' [(''A'', None)] sample_db = (Inr ([''A'' \<mapsto> sample_finding], []), sample_db)"
proof -
  have k: "filter (\<lambda>r. vr_id r \<in> set (map fst [(''A'', None :: stamp option)])) (advisories sample_db) = [sample_advisory]"
    by (simp add: sample_db_def sample_advisory_def)
  have fresh: "\<not> is_stale osv_sample_env sample_advisory None"
    by (simp add: is_stale_def sample_advisory_def osv_sample_env_def)
  have ids: "vr_id sample_advisory = ''A''" "f_id sample_finding = ''A''"
    by (simp_all add: sample_advisory_def sample_finding_def)
  show ?thesis
    unfolding hydrate_def k by (simp add: sample_stored fresh ids)
qed

lemma sample_scan:
  "scan_versions osv_sample_env ''npm'' [(''p'', ''v'')] sample_db =
     (Inr [(''p'', ''v'') \<mapsto> complete_result (''p'', ''v'') [sample_finding]], sample_db)"
proof -
  have q: "query_batch osv_sample_env 0 [(''p'', ''npm'', ''v'')] = Inr [JObj [(''vulns'', JList [JObj [(''id'', JStr ''A'')]])]]"
    by (simp add: query_batch_def osv_sample_env_def or_empty_dict_def dict_get_def elems_or_empty_def)
  have n: "named_advisories osv_sample_env (JObj [(''vulns'', JList [JObj [(''id'', JStr ''A'')]])]) = Inr [(''A'', None)]"
    by (simp add: named_advisories_def dict_get_def elems_or_empty_def named_id_def Let_def parse_dt_def
        List.map_filter_simps)
  have i: "scan_item [''A'' \<mapsto> sample_finding] [] ((''p'', ''v''), [''A'']) (Map.empty, sample_db)
      = (Inr (), [(''p'', ''v'') \<mapsto> complete_result (''p'', ''v'') [sample_finding]], sample_db)"
    by (simp add: scan_item_def List.map_filter_simps add_fix_def sample_finding_def)
  have b: "scan_batch osv_sample_env ''npm'' (0, [(''p'', ''v'')]) (Map.empty, sample_db)
      = (Inr (), [(''p'', ''v'') \<mapsto> complete_result (''p'', ''v'') [sample_finding]], sample_db)"
    by (simp add: scan_batch_def OSV_ECOSYSTEM_def q n sample_hydrate i)
  have e: "e_enabled osv_sample_env" "e_batch osv_sample_env = 2" by (simp_all add: osv_sample_env_def)
  show ?thesis by (simp add: scan_versions_def e b batches.simps)
qed

lemma scanned_means_all_read_witness:
  "vouched osv_sample_env ''npm'' sample_db (''p'', ''v'') (complete_result (''p'', ''v'') [sample_finding])"
  by (rule scanned_means_all_read [OF sample_scan]) (simp_all add: complete_result_def)

end
