(* ===== verification/Osv_Verdict_Spec.thy ===== *)
theory Osv_Verdict_Spec
  imports Osv_Spec
begin

section \<open>The verdict on a version and its advisories\<close>

text \<open>
  The policy never looks at advisories: it reads the score, the fix flag and the malware flag stored
  on the version. This theory shows that the score follows the advisories linked to the version through
  scanning and refreshing, and that without any the verdict is that of a clean version.
\<close>

definition vuln_linked :: "osv_db \<Rightarrow> nat \<Rightarrow> vuln_link list" where
  "vuln_linked db vid = filter (\<lambda>l. lk_version l = vid) (links db)"

definition scores :: "osv_db \<Rightarrow> nat \<Rightarrow> rat option list" where
  "scores db vid = map (\<lambda>p. vr_score (snd p)) (version_links db vid)"

definition worst :: "rat option list \<Rightarrow> rat option" where
  "worst ss = foldl worse None ss"

lemma worst_score_eq: "worst_score (version_links db vid) = worst (scores db vid)"
  unfolding worst_score_def worst_def scores_def by (simp add: foldl_map)

subsection \<open>The worst of some scores\<close>

definition above :: "rat option \<Rightarrow> rat option \<Rightarrow> bool" where
  "above a b = (case b of None \<Rightarrow> True | Some y \<Rightarrow> (case a of None \<Rightarrow> False | Some x \<Rightarrow> y \<le> x))"

lemma above_refl [simp]: "above a a" and above_trans: "above a b \<Longrightarrow> above b c \<Longrightarrow> above a c"
  and above_antisym: "above a b \<Longrightarrow> above b a \<Longrightarrow> a = b" and above_None [simp]: "above a None"
  by (auto simp: above_def split: option.splits)

lemma worse_above: "above (worse a b) a" "above (worse a b) b" "worse a b = a \<or> worse a b = b"
  by (auto simp: worse_def above_def split: option.splits)

lemma foldl_worse: "above (foldl worse w ss) w \<and> (\<forall>s \<in> set ss. above (foldl worse w ss) s) \<and>
    foldl worse w ss \<in> insert w (set ss)"
proof (induction ss arbitrary: w)
  case (Cons s ss)
  have IH: "above (foldl worse (worse w s) ss) (worse w s)" "\<forall>t \<in> set ss. above (foldl worse (worse w s) ss) t"
    "foldl worse (worse w s) ss \<in> insert (worse w s) (set ss)" using Cons by blast+
  have "above (foldl worse (worse w s) ss) w" "above (foldl worse (worse w s) ss) s"
    using above_trans [OF IH(1)] worse_above by blast+
  then show ?case using IH worse_above(3) [of w s] by auto
qed simp

lemma worst_iff: "worst ss = w \<longleftrightarrow> (\<forall>s \<in> set ss. above w s) \<and> w \<in> insert None (set ss)"
proof -
  have *: "(\<forall>s \<in> set ss. above (worst ss) s) \<and> worst ss \<in> insert None (set ss)"
    using foldl_worse [of None ss] by (simp add: worst_def)
  show ?thesis
  proof
    assume "(\<forall>s \<in> set ss. above w s) \<and> w \<in> insert None (set ss)"
    then show "worst ss = w"
      using * above_antisym [of "worst ss" w] by auto
  qed (use * in auto)
qed

lemma worst_cong: "insert None (set ss) = insert None (set ts) \<Longrightarrow> worst ss = worst ts"
  unfolding worst_iff using worst_iff [of ts "worst ts"] by (metis above_None insert_iff)

subsection \<open>Consistent tables\<close>

text \<open>
  What the columns of a version say when it was scanned: with advisories the worst of their scores and
  that there are some, without any a real zero, and none of the three flags.
\<close>

definition clean_verdict :: "version_row \<Rightarrow> bool" where
  "clean_verdict v = (sv_max_cvss v = Some 0 \<and> \<not> sv_has_advisories v \<and> \<not> sv_has_fix v \<and> \<not> sv_malicious v)"

definition verdict_ok :: "osv_db \<Rightarrow> version_row \<Rightarrow> bool" where
  "verdict_ok db v = (sv_scanned_at v = None \<or> (if vuln_linked db (sv_id v) = [] then clean_verdict v
     else sv_max_cvss v = worst (scores db (sv_id v)) \<and> sv_has_advisories v))"

definition rows_ok :: "osv_db \<Rightarrow> bool" where
  \<comment> \<open>the primary and foreign keys of the schema\<close>
  "rows_ok db = (distinct (map sv_id (version_rows db)) \<and> distinct (map vr_id (advisories db)) \<and>
     list_all (\<lambda>v. map_of (package_rows db) (sv_package v) \<noteq> None) (version_rows db) \<and>
     list_all (\<lambda>l. advisory_of db (lk_vuln l) \<noteq> None \<and> link_package db l \<noteq> None) (links db))"

definition verdicts_agree :: "osv_db \<Rightarrow> bool" where
  "verdicts_agree db = (rows_ok db \<and> list_all (verdict_ok db) (version_rows db))"

lemma scores_eq: "scores db vid = List.map_filter (\<lambda>l. map_option vr_score (advisory_of db (lk_vuln l))) (vuln_linked db vid)"
proof -
  have "map (\<lambda>p. vr_score (snd p)) (List.map_filter (\<lambda>l. if lk_version l = vid
       then map_option (Pair l) (advisory_of db (lk_vuln l)) else None) ls)
    = List.map_filter (\<lambda>l. map_option vr_score (advisory_of db (lk_vuln l))) (filter (\<lambda>l. lk_version l = vid) ls)" for ls
    by (induction ls) (auto simp: List.map_filter_simps split: option.splits)
  then show ?thesis by (simp add: scores_def version_links_def vuln_linked_def)
qed

lemma scores_cong:
  "map lk_vuln (vuln_linked db vid) = map lk_vuln (vuln_linked db' vid) \<Longrightarrow>
   (\<And>l. l \<in> set (vuln_linked db vid) \<Longrightarrow> advisory_of db (lk_vuln l) = advisory_of db' (lk_vuln l)) \<Longrightarrow>
   scores db vid = scores db' vid"
proof -
  assume *: "map lk_vuln (vuln_linked db vid) = map lk_vuln (vuln_linked db' vid)"
    and a: "\<And>l. l \<in> set (vuln_linked db vid) \<Longrightarrow> advisory_of db (lk_vuln l) = advisory_of db' (lk_vuln l)"
  have m: "List.map_filter (\<lambda>l. map_option vr_score (advisory_of d (lk_vuln l))) xs
      = List.map_filter (\<lambda>i. map_option vr_score (advisory_of d i)) (map lk_vuln xs)" for d xs
    by (induction xs) (auto simp: List.map_filter_simps split: option.splits)
  have "List.map_filter (\<lambda>i. map_option vr_score (advisory_of db i)) xs
      = List.map_filter (\<lambda>i. map_option vr_score (advisory_of db' i)) xs"
    if "\<forall>i \<in> set xs. advisory_of db i = advisory_of db' i" for xs
    using that by (induction xs) (auto simp: List.map_filter_simps split: option.splits)
  then show ?thesis
    using a unfolding scores_eq m * [symmetric] by simp
qed

lemma version_of_id_in: "distinct (map sv_id (version_rows db)) \<Longrightarrow>
    version_of_id db i = Some v \<longleftrightarrow> v \<in> set (version_rows db) \<and> sv_id v = i"
proof -
  have "find (\<lambda>v. sv_id v = i) vs = Some v \<longleftrightarrow> v \<in> set vs \<and> sv_id v = i" if "distinct (map sv_id vs)" for vs
    using that by (induction vs) (auto simp: image_iff)
  then show "distinct (map sv_id (version_rows db)) \<Longrightarrow> ?thesis"
    by (simp add: version_of_id_def)
qed

subsection \<open>Recomputing verdicts\<close>

definition verdict_row :: "nat \<times> (rat option \<times> bool \<times> bool) option \<Rightarrow> version_row \<Rightarrow> version_row" where
  "verdict_row x w = (if sv_id w \<noteq> fst x \<or> sv_scanned_at w = None then w else (case snd x of
     None \<Rightarrow> w
   | Some (score, fixable, malware) \<Rightarrow>
       w\<lparr>sv_max_cvss := score, sv_has_fix := fixable, sv_has_advisories := True, sv_malicious := malware\<rparr>))"

lemma verdict_row_simps [simp]: "sv_id (verdict_row x w) = sv_id w" "sv_package (verdict_row x w) = sv_package w"
    "sv_scanned_at (verdict_row x w) = sv_scanned_at w"
  by (auto simp: verdict_row_def split: option.splits)

lemma write_verdict_rows:
  assumes d: "distinct (map sv_id (version_rows db))"
  shows "version_rows (write_verdict x db) = map (verdict_row x) (version_rows db)"
proof (cases "version_of_id db (fst x)")
  case None
  then have "sv_id w \<noteq> fst x" if "w \<in> set (version_rows db)" for w
    using that by (auto simp: version_of_id_def find_None_iff)
  then show ?thesis
    using None by (auto simp: write_verdict_def verdict_row_def intro!: map_idI [symmetric] split: option.splits)
next
  case (Some v)
  then have v: "v \<in> set (version_rows db)" "sv_id v = fst x" using version_of_id_in [OF d] by auto
  have uniq: "w = v" if "w \<in> set (version_rows db)" "sv_id w = fst x" for w
    using that Some version_of_id_in [OF d] by (metis option.inject)
  show ?thesis
  proof (cases "snd x")
    case None
    then show ?thesis by (auto simp: write_verdict_def verdict_row_def intro!: map_idI [symmetric])
  next
    case (Some t)
    obtain score fixable malware where t: "t = (score, fixable, malware)" by (cases t) auto
    show ?thesis
      using Some t \<open>version_of_id db (fst x) = Some v\<close> uniq v(2)
      by (auto simp: write_verdict_def verdict_row_def save_version_def Let_def intro!: map_idI [symmetric])
  qed
qed

lemma fold_verdict_rows:
  "distinct (map sv_id (version_rows db)) \<Longrightarrow>
   version_rows (fold write_verdict xs db) = map (fold verdict_row xs) (version_rows db)"
proof (induction xs arbitrary: db)
  case (Cons x xs)
  have "distinct (map sv_id (version_rows (write_verdict x db)))"
    using Cons.prems by (simp add: write_verdict_rows comp_def)
  from Cons.IH [OF this] show ?case by (simp add: write_verdict_rows [OF Cons.prems])
qed simp

lemma fold_verdict_row:
  "distinct (map fst xs) \<Longrightarrow> fold verdict_row xs w =
   (case map_of xs (sv_id w) of None \<Rightarrow> w | Some v \<Rightarrow> verdict_row (sv_id w, v) w)"
proof (induction xs arbitrary: w)
  case (Cons x xs)
  show ?case
  proof (cases "sv_id w = fst x")
    case True
    then have "map_of xs (sv_id w) = None" using Cons.prems by (simp add: map_of_eq_None_iff)
    then show ?thesis using Cons True by (cases x) simp
  next
    case False
    then have "verdict_row x w = w" by (simp add: verdict_row_def)
    then show ?thesis using Cons False by (cases x) simp
  qed
qed simp

lemma stored_verdict_worst:
  "stored_verdict db vid = Inr x \<Longrightarrow> (case x of None \<Rightarrow> version_links db vid = [] | Some (score, _) \<Rightarrow> score = worst (scores db vid))"
  by (auto simp: stored_verdict_def sum_bind_Inr_iff Let_def worst_score_eq)

lemma stored_verdict_linked: "stored_verdict db vid = Inr (Some x) \<Longrightarrow> vuln_linked db vid \<noteq> []"
proof
  assume "stored_verdict db vid = Inr (Some x)" "vuln_linked db vid = []"
  moreover from this(2) have "version_links db vid = []"
    using scores_eq [of db vid] by (simp add: scores_def List.map_filter_def)
  ultimately show False by (auto simp: stored_verdict_def sum_bind_Inr_iff Let_def)
qed

lemma version_links_nil: "version_links db vid = [] \<Longrightarrow> rows_ok db \<Longrightarrow> vuln_linked db vid = []"
  by (auto simp: version_links_def vuln_linked_def rows_ok_def List.map_filter_def filter_empty_conv list_all_iff
      split: if_splits)

text \<open>
  What a step has to guarantee for the verdicts of the versions it does not touch: their links and
  the advisories those name are the same.
\<close>

definition same_view :: "osv_db \<Rightarrow> osv_db \<Rightarrow> nat \<Rightarrow> bool" where
  "same_view db db' vid = (map lk_vuln (vuln_linked db vid) = map lk_vuln (vuln_linked db' vid) \<and>
     (\<forall>l \<in> set (vuln_linked db vid). advisory_of db (lk_vuln l) = advisory_of db' (lk_vuln l)))"

lemma verdict_ok_view: "same_view db db' (sv_id v) \<Longrightarrow> verdict_ok db' v = verdict_ok db v"
  using scores_cong [of db "sv_id v" db'] unfolding same_view_def verdict_ok_def by (metis map_is_Nil_conv)

lemma recompute_agrees:
  assumes run: "recompute_versions vids db = (Inr u, db')" and keys: "rows_ok db" and d: "distinct vids"
    and rest: "\<And>v. v \<in> set (version_rows db) \<Longrightarrow> sv_id v \<notin> set vids \<or> vuln_linked db (sv_id v) = [] \<Longrightarrow> verdict_ok db v"
  shows "verdicts_agree db'" "map sv_id (version_rows db') = map sv_id (version_rows db)"
proof -
  obtain vs where vs: "sum_map (\<lambda>vid. sum_bind (stored_verdict db vid) (\<lambda>v. Inr (vid, v))) vids = Inr vs"
      and db': "db' = fold write_verdict vs db"
    using run by (auto simp: recompute_versions_def split: sum.splits)
  have l2: "list_all2 (\<lambda>vid x. fst x = vid \<and> stored_verdict db vid = Inr (snd x)) vids vs"
    using vs unfolding sum_map_Inr_iff by (rule list_all2_mono) (auto simp: sum_bind_Inr_iff)
  then have fst_vs: "map fst vs = vids" by (induction rule: list_all2_induct) auto
  have dist: "distinct (map sv_id (version_rows db))" using keys by (simp add: rows_ok_def)
  note rows = fold_verdict_rows [OF dist, of vs, folded db']
  have same: "advisories db' = advisories db" "links db' = links db" "package_rows db' = package_rows db"
    by (simp_all add: db')
  have view: "same_view db db' vid" for vid
    by (simp add: same_view_def vuln_linked_def same advisory_of_def)
  have ids: "map sv_id (version_rows db') = map sv_id (version_rows db)"
    using fst_vs d by (auto simp: rows fold_verdict_row split: option.splits)
  have vid: "version_of_id db' i = map_option (fold verdict_row vs) (version_of_id db i)" for i
    unfolding version_of_id_def rows by (rule find_map_eq) (use fst_vs d in \<open>auto simp: fold_verdict_row split: option.splits\<close>)
  have pkg: "sv_package (fold verdict_row vs w) = sv_package w" for w
    using fst_vs d by (auto simp: fold_verdict_row split: option.splits)
  have "link_package db' l = link_package db l" for l
    by (cases "version_of_id db (lk_version l)") (simp_all add: link_package_def vid same pkg)
  moreover have "list_all (\<lambda>v. map_of (package_rows db') (sv_package v) \<noteq> None) (version_rows db')"
    using keys by (auto simp: rows_ok_def list_all_iff rows same pkg)
  ultimately have keys': "rows_ok db'"
    using keys by (simp add: rows_ok_def ids same advisory_of_def)
  have "verdict_ok db' w" if win: "w \<in> set (version_rows db')" for w
  proof -
    obtain v where v: "v \<in> set (version_rows db)" "w = fold verdict_row vs v" using win unfolding rows by auto
    show ?thesis
    proof (cases "map_of vs (sv_id v)")
      case None
      then have "w = v" using v fst_vs d by (simp add: fold_verdict_row)
      moreover have "sv_id v \<notin> set vids" using None fst_vs by (auto simp: map_of_eq_None_iff)
      ultimately have "w = v" "sv_id v \<notin> set vids" by blast+
      then show ?thesis using rest v(1) verdict_ok_view [OF view] by simp
    next
      case (Some x)
      then have w: "w = verdict_row (sv_id v, x) v" using v fst_vs d by (simp add: fold_verdict_row)
      have "(sv_id v, x) \<in> set vs" using Some by (rule map_of_SomeD)
      then have sx: "stored_verdict db (sv_id v) = Inr x"
        using l2 by (auto simp: list_all2_conv_all_nth in_set_conv_nth)
      have "verdict_ok db w"
      proof (cases x)
        case None
        then show ?thesis
          using stored_verdict_worst [OF sx] version_links_nil [OF _ keys] rest [OF v(1)] by (simp add: w verdict_row_def)
      next
        case (Some t)
        then show ?thesis
          using stored_verdict_worst [OF sx] stored_verdict_linked [of db "sv_id v" t] sx by (cases t) (auto simp: verdict_ok_def w verdict_row_def)
      qed
      then show ?thesis using verdict_ok_view [OF view] by simp
    qed
  qed
  then show "verdicts_agree db'" using keys' by (simp add: verdicts_agree_def list_all_iff)
  show "map sv_id (version_rows db') = map sv_id (version_rows db)" by (rule ids)
qed

lemma relink_keeps:
  "relink recs i db = (r, db') \<Longrightarrow> i < length (links db) \<Longrightarrow>
   map (\<lambda>l. (lk_version l, lk_vuln l)) (links db') = map (\<lambda>l. (lk_version l, lk_vuln l)) (links db)"
proof -
  assume r: "relink recs i db = (r, db')" and i: "i < length (links db)"
  have "links db' = links db \<or> (\<exists>fixed. links db' = (links db)[i := (links db ! i)\<lparr>lk_fixed := fixed\<rparr>])"
    using r by (auto simp: relink_def Let_def split: option.splits sum.splits)
  then show ?thesis
    using i by (auto simp: map_update) (metis (no_types, lifting) length_map list_update_id nth_map)
qed
lemma linked_pairs:
  "map lk_vuln (vuln_linked db vid) = map snd (filter (\<lambda>p. fst p = vid) (map (\<lambda>l. (lk_version l, lk_vuln l)) (links db)))"
  unfolding vuln_linked_def by (induction "links db") (auto simp: filter_map comp_def)

subsection \<open>Refreshing stored advisories\<close>

lemma relink_loop:
  "each_of (relink recs) [0..<length (links db)] db = (r, db') \<Longrightarrow>
   advisories db' = advisories db \<and> version_rows db' = version_rows db \<and> package_rows db' = package_rows db \<and>
   map (\<lambda>l. (lk_version l, lk_vuln l)) (links db') = map (\<lambda>l. (lk_version l, lk_vuln l)) (links db)"
proof -
  assume e: "each_of (relink recs) [0..<length (links db)] db = (r, db')"
  show ?thesis
  proof (rule each_of_inv [OF e, where I = "\<lambda>d. advisories d = advisories db \<and> version_rows d = version_rows db \<and>
      package_rows d = package_rows db \<and>
      map (\<lambda>l. (lk_version l, lk_vuln l)) (links d) = map (\<lambda>l. (lk_version l, lk_vuln l)) (links db)"])
    fix i d r d'
    assume i: "i \<in> set [0..<length (links db)]"
      and inv: "advisories d = advisories db \<and> version_rows d = version_rows db \<and> package_rows d = package_rows db \<and>
        map (\<lambda>l. (lk_version l, lk_vuln l)) (links d) = map (\<lambda>l. (lk_version l, lk_vuln l)) (links db)"
      and run: "relink recs i d = (r, d')"
    have "i < length (links d)" using i inv by (metis atLeastLessThan_iff length_map set_upt)
    then show "advisories d' = advisories db \<and> version_rows d' = version_rows db \<and> package_rows d' = package_rows db \<and>
        map (\<lambda>l. (lk_version l, lk_vuln l)) (links d') = map (\<lambda>l. (lk_version l, lk_vuln l)) (links db)"
      using relink_keeps [OF run] relink_simps [OF run] inv by simp
  qed simp
qed

lemma keys_ok_pairs:
  assumes "map (\<lambda>l. (lk_version l, lk_vuln l)) (links db') = map (\<lambda>l. (lk_version l, lk_vuln l)) (links db)"
    "version_rows db' = version_rows db" "package_rows db' = package_rows db" "rows_ok db"
    "distinct (map vr_id (advisories db'))"
    "\<And>l. l \<in> set (links db) \<Longrightarrow> advisory_of db' (lk_vuln l) \<noteq> None"
  shows "rows_ok db'"
proof -
  have p: "list_all (\<lambda>p. advisory_of db' (snd p) \<noteq> None \<and> Option.bind (version_of_id db' (fst p))
      (\<lambda>v. map_option snd (map_of (package_rows db') (sv_package v))) \<noteq> None) (map (\<lambda>l. (lk_version l, lk_vuln l)) ls)
    \<longleftrightarrow> list_all (\<lambda>l. advisory_of db' (lk_vuln l) \<noteq> None \<and> link_package db' l \<noteq> None) ls" for ls
    by (simp add: list_all_iff link_package_def)
  have "link_package db' l = link_package db l" for l
    by (simp add: link_package_def version_of_id_def assms(2,3))
  then have "list_all (\<lambda>l. advisory_of db' (lk_vuln l) \<noteq> None \<and> link_package db' l \<noteq> None) (links db)"
    using assms(4,6) by (simp add: rows_ok_def list_all_iff)
  then have "list_all (\<lambda>l. advisory_of db' (lk_vuln l) \<noteq> None \<and> link_package db' l \<noteq> None) (links db')"
    unfolding p [symmetric] assms(1) .
  then show ?thesis using assms(2-5) by (simp add: rows_ok_def)
qed

lemma same_view_pairs:
  "map (\<lambda>l. (lk_version l, lk_vuln l)) (links db') = map (\<lambda>l. (lk_version l, lk_vuln l)) (links db) \<Longrightarrow>
   (\<And>l. l \<in> set (vuln_linked db vid) \<Longrightarrow> advisory_of db (lk_vuln l) = advisory_of db' (lk_vuln l)) \<Longrightarrow> same_view db db' vid"
  by (simp add: same_view_def linked_pairs)

lemma reapply_agrees:
  assumes run: "reapply_records recs db = (Inr u, db')" and keys: "rows_ok db"
    and rest: "\<And>v. v \<in> set (version_rows db) \<Longrightarrow> (\<forall>l \<in> set (vuln_linked db (sv_id v)). recs (lk_vuln l) = None) \<Longrightarrow> verdict_ok db v"
  shows "verdicts_agree db'" "map sv_id (version_rows db') = map sv_id (version_rows db)"
proof -
  define touched where "touched = filter (\<lambda>l. recs (lk_vuln l) \<noteq> None \<and> link_package db l \<noteq> None) (links db)"
  have untouched: "verdict_ok db v" if "v \<in> set (version_rows db)" "sv_id v \<notin> lk_version ` set touched" for v
  proof (rule rest [OF that(1)], intro ballI)
    fix l assume l: "l \<in> set (vuln_linked db (sv_id v))"
    then have "link_package db l \<noteq> None" using keys by (auto simp: vuln_linked_def rows_ok_def list_all_iff)
    moreover have "l \<in> set (links db)" "lk_version l = sv_id v" using l by (simp_all add: vuln_linked_def)
    ultimately have "recs (lk_vuln l) \<noteq> None \<Longrightarrow> l \<in> set touched" by (simp add: touched_def)
    then show "recs (lk_vuln l) = None" using that(2) \<open>lk_version l = sv_id v\<close> by (metis image_eqI)
  qed
  have "verdicts_agree db' \<and> map sv_id (version_rows db') = map sv_id (version_rows db)"
  proof (cases "touched = []")
    case True
    then have "db' = db" using run by (simp add: reapply_records_def touched_def)
    then show ?thesis using untouched keys True by (simp add: verdicts_agree_def list_all_iff)
  next
    case False
    obtain r1 db1 where e: "each_of (relink recs) [0..<length (links db)] db = (r1, db1)" by fastforce
    have r1: "recompute_versions (remdups (map lk_version touched)) db1 = (Inr u, db')"
      using run unfolding reapply_records_def touched_def [symmetric] Let_def if_not_P [OF False] e prod.case
      by (cases r1) simp_all
    note keep = relink_loop [OF e]
    have adv: "advisory_of db1 i = advisory_of db i" for i using keep by (simp add: advisory_of_def)
    have keys1: "rows_ok db1"
      by (rule keys_ok_pairs [of db1 db]) (use keep keys adv in \<open>auto simp: rows_ok_def list_all_iff\<close>)
    have "verdict_ok db1 v" if "v \<in> set (version_rows db1)"
      "sv_id v \<notin> set (remdups (map lk_version touched)) \<or> vuln_linked db1 (sv_id v) = []" for v
    proof -
      have view: "same_view db db1 (sv_id v)" by (rule same_view_pairs) (use keep adv in auto)
      moreover have "verdict_ok db v" using untouched rest that keep view by (auto simp: same_view_def)
      ultimately show ?thesis by (simp add: verdict_ok_view)
    qed
    from recompute_agrees [OF r1 keys1 _ this] keep show ?thesis by simp
  qed
  then show "verdicts_agree db'" "map sv_id (version_rows db') = map sv_id (version_rows db)" by blast+
qed

subsection \<open>Reading the advisories of a batch\<close>

definition cached_ok :: "(string \<rightharpoonup> finding) \<Rightarrow> osv_db \<Rightarrow> bool" where
  \<comment> \<open>a finding has the score of the stored advisory\<close>
  "cached_ok cached db = (\<forall>i f. cached i = Some f \<longrightarrow> (\<exists>a. advisory_of db i = Some a \<and> f_score f = vr_score a))"

definition refreshing :: "osv_db \<Rightarrow> hydration \<Rightarrow> bool" where
  \<comment> \<open>only advisories that were not stored, or that are in the list of refreshed ones, have changed\<close>
  "refreshing db h = (distinct (map vr_id (advisories (hy_db h))) \<and> version_rows (hy_db h) = version_rows db \<and> links (hy_db h) = links db \<and>
     package_rows (hy_db h) = package_rows db \<and> cached_ok (hy_cached h) (hy_db h) \<and>
     (\<forall>i. advisory_of db i \<noteq> None \<longrightarrow> advisory_of (hy_db h) i \<noteq> None) \<and>
     (\<forall>i. advisory_of (hy_db h) i = advisory_of db i \<or> advisory_of db i = None \<or> i \<in> fst ` set (hy_refreshed h)))"

lemma upsert_distinct: "distinct (map vr_id (advisories db)) \<Longrightarrow> distinct (map vr_id (advisories (upsert_vulnerability row db)))"
proof -
  assume d: "distinct (map vr_id (advisories db))"
  have m: "map vr_id (map (\<lambda>r. if vr_id r = vr_id row then row else r) rs) = map vr_id rs" for rs by (induction rs) auto
  show ?thesis
  proof (cases "advisory_of db (vr_id row)")
    case None
    then show ?thesis using d by (auto simp: upsert_vulnerability_def advisory_of_def find_None_iff)
  next
    case (Some r)
    then show ?thesis using d by (simp add: upsert_vulnerability_def m del: map_map)
  qed
qed

lemma advisory_of_in: "distinct (map vr_id (advisories db)) \<Longrightarrow> r \<in> set (advisories db) \<Longrightarrow> advisory_of db (vr_id r) = Some r"
proof -
  have "find (\<lambda>x. vr_id x = vr_id r) rs = Some r" if "distinct (map vr_id rs)" "r \<in> set rs" for rs
    using that by (induction rs) (auto simp: image_iff)
  then show "distinct (map vr_id (advisories db)) \<Longrightarrow> r \<in> set (advisories db) \<Longrightarrow> ?thesis"
    by (simp add: advisory_of_def)
qed

lemma hydrate_one_refreshing:
  assumes inv: "refreshing db h" and run: "hydrate_one env start eco stale i h = (r, h')"
    and new: "i \<notin> set stale \<Longrightarrow> advisory_of db i = None"
  shows "refreshing db h'"
proof (cases "usable_record i (fst (fetch_vuln env start i))")
  case None
  with inv run show ?thesis by (auto simp: hydrate_one_def refreshing_def split: if_splits)
next
  case use: (Some rec)
  show ?thesis
  proof (cases "read_record env eco i rec")
    case (Inl e)
    with use inv run show ?thesis by (simp add: hydrate_one_def)
  next
    case x: (Inr x)
    show ?thesis
    proof (cases x)
      case None
      with use x inv run show ?thesis
        by (auto simp: hydrate_one_def refreshing_def cached_ok_def split: if_splits)
    next
      case (Some y)
      obtain row f where y: "y = (row, f)" by (cases y)
      have id: "vr_id row = i" "f_score f = vr_score row" using read_record_id [OF x] Some y by auto
      have h': "hy_db h' = upsert_vulnerability row (hy_db h)" "hy_cached h' = (hy_cached h)(i \<mapsto> f)"
          "hy_refreshed h' = (if i \<in> set stale then (i, rec) # hy_refreshed h else hy_refreshed h)"
        using run use x Some y by (auto simp: hydrate_one_def)
      have "cached_ok (hy_cached h') (hy_db h')"
        using inv id by (auto simp: refreshing_def cached_ok_def h' advisory_of_upsert)
      then show ?thesis
        using inv id new upsert_distinct by (auto simp: refreshing_def h' advisory_of_upsert)
    qed
  qed
qed

lemma hydrate_agrees:
  assumes run: "hydrate env start eco reported db = (Inr (cached, failed), db')" and agree: "verdicts_agree db"
  shows "verdicts_agree db' \<and> cached_ok cached db' \<and> map sv_id (version_rows db') = map sv_id (version_rows db)"
proof (cases "reported = []")
  case True
  with run agree show ?thesis by (auto simp: hydrate_def cached_ok_def)
next
  case False
  define known where "known = filter (\<lambda>r. vr_id r \<in> set (map fst reported)) (advisories db)"
  from run False obtain fs where fs: "sum_map stored_finding known = Inr fs"
    by (auto simp: hydrate_def known_def Let_def split: sum.splits)
  define cached0 where "cached0 = map_of (map (\<lambda>f. (f_id f, f)) (rev fs))"
  define stale where "stale = map vr_id (filter (\<lambda>r. is_stale env r (the (map_of (rev reported) (vr_id r)))) known)"
  define missing where "missing = sort (remdups (filter (\<lambda>i. cached0 i = None \<or> i \<in> set stale) (map fst reported)))"
  define h0 where "h0 = \<lparr>hy_cached = cached0, hy_failed = [], hy_refreshed = [], hy_db = db\<rparr>"
  note run = run [unfolded hydrate_def if_not_P [OF False] known_def [symmetric] fs sum.case Let_def
      cached0_def [symmetric] stale_def [symmetric] missing_def [symmetric] h0_def [symmetric]]
  have d: "distinct (map vr_id (advisories db))" and keys: "rows_ok db"
    using agree by (simp_all add: verdicts_agree_def rows_ok_def)
  have known_ids: "f_id ` set fs = vr_id ` set known" using stored_findings_map [OF fs] by (metis set_map)
  have c0: "cached_ok cached0 db"
    unfolding cached_ok_def
  proof (intro allI impI)
    fix i f assume "cached0 i = Some f"
    then have f: "f_id f = i" "f \<in> set fs" using map_of_rev_ids [of "rev fs" i f] by (simp_all add: cached0_def)
    then obtain r where r: "r \<in> set known" "stored_finding r = Inr f" using sum_map_Inr_set [OF fs] by blast
    then have "vr_id r = i" "f_score f = vr_score r" "r \<in> set (advisories db)"
      using stored_finding_id [OF r(2)] f(1) by (simp_all add: known_def)
    then show "\<exists>a. advisory_of db i = Some a \<and> f_score f = vr_score a" using advisory_of_in [OF d] by blast
  qed
  have new: "advisory_of db i = None" if "i \<in> set missing" "i \<notin> set stale" for i
  proof -
    have "cached0 i = None" "i \<in> fst ` set reported" using that by (auto simp: missing_def)
    then have "i \<notin> vr_id ` set known" using known_ids map_of_ids_None [of "rev fs" i] by (simp add: cached0_def)
    then have "vr_id r \<noteq> i" if r: "r \<in> set (advisories db)" for r
      using \<open>i \<in> fst ` set reported\<close> r imageI [of r "set known" vr_id] by (auto simp: known_def)
    then show ?thesis by (auto simp: advisory_of_def find_None_iff)
  qed
  have inv0: "refreshing db h0" using c0 d by (simp add: refreshing_def h0_def)
  show ?thesis
  proof (cases "missing = []")
    case True
    with run agree c0 show ?thesis by simp
  next
    case m: False
    obtain r hf where e: "each_of (hydrate_one env start eco stale) missing h0 = (r, hf)" by fastforce
    have inv: "refreshing db hf"
      by (rule each_of_inv [OF e, where I = "refreshing db", OF inv0]) (rule hydrate_one_refreshing, assumption+, rule new)
    note run = run [unfolded if_not_P [OF m] e prod.case]
    then obtain u where r: "r = Inr u" by (cases r) simp_all
    let ?db = "hy_db hf" and ?recs = "map_of (hy_refreshed hf)"
    have keysf: "rows_ok ?db"
      by (rule keys_ok_pairs [of ?db db]) (use inv keys in \<open>auto simp: refreshing_def rows_ok_def list_all_iff\<close>)
    have rest: "verdict_ok ?db v" if "v \<in> set (version_rows ?db)" "\<forall>l \<in> set (vuln_linked ?db (sv_id v)). ?recs (lk_vuln l) = None" for v
    proof -
      have l: "vuln_linked ?db (sv_id v) = vuln_linked db (sv_id v)" using inv by (simp add: refreshing_def vuln_linked_def)
      have "advisory_of db (lk_vuln k) = advisory_of ?db (lk_vuln k)" if k: "k \<in> set (vuln_linked db (sv_id v))" for k
      proof -
        have "advisory_of db (lk_vuln k) \<noteq> None" using keys k by (auto simp: vuln_linked_def rows_ok_def list_all_iff)
        moreover have "lk_vuln k \<notin> fst ` set (hy_refreshed hf)"
          using \<open>\<forall>l \<in> set (vuln_linked ?db (sv_id v)). ?recs (lk_vuln l) = None\<close> k l by (simp add: map_of_eq_None_iff)
        ultimately show ?thesis using inv unfolding refreshing_def by metis
      qed
      then have "same_view db ?db (sv_id v)" using l by (simp add: same_view_def)
      moreover have "verdict_ok db v" using agree inv that(1) by (simp add: verdicts_agree_def list_all_iff refreshing_def)
      ultimately show ?thesis by (simp add: verdict_ok_view)
    qed
    show ?thesis
    proof (cases "hy_refreshed hf = []")
      case True
      then have "db' = ?db" "cached = hy_cached hf" using run r by simp_all
      then show ?thesis using rest keysf inv True by (simp add: verdicts_agree_def list_all_iff refreshing_def)
    next
      case False
      obtain r2 db2 where rr: "reapply_records ?recs ?db = (r2, db2)" by fastforce
      have r2: "r2 = Inr ()" and c: "cached = hy_cached hf" "db' = db2" using run r rr False by (cases r2; simp)+
      from reapply_agrees [OF rr [unfolded r2] keysf rest]
      have "verdicts_agree db'" "map sv_id (version_rows db') = map sv_id (version_rows db)"
        using inv by (simp_all add: c refreshing_def)
      moreover have "cached_ok cached db'"
        using inv reapply_advisories [OF rr] by (simp add: refreshing_def c cached_ok_def advisory_of_def)
      ultimately show ?thesis by blast
    qed
  qed
qed

subsection \<open>Scanning one version and writing its verdict\<close>

definition result_ok :: "osv_db \<Rightarrow> scan_result \<Rightarrow> bool" where
  "result_ok db r = (\<not> sr_scanned r \<or>
     (if sr_cves r = [] then sr_max_score r = Some 0 \<and> \<not> sr_has_fix r \<and> \<not> sr_malicious r
      else sr_max_score r = worst (map f_score (sr_cves r))) \<and>
     list_all (\<lambda>f. \<exists>a. advisory_of db (f_id f) = Some a \<and> f_score f = vr_score a) (sr_cves r))"

lemma complete_result_ok:
  "list_all (\<lambda>f. \<exists>a. advisory_of db (f_id f) = Some a \<and> f_score f = vr_score a) cves \<Longrightarrow> result_ok db (complete_result key cves)"
  by (simp add: result_ok_def complete_result_def worst_def foldl_map)

lemma verdicts_agree_same:
  assumes "advisories db' = advisories db" "links db' = links db" "version_rows db' = version_rows db"
    "package_rows db' = package_rows db" "verdicts_agree db"
  shows "verdicts_agree db'"
proof -
  have "advisory_of db' = advisory_of db" "link_package db' = link_package db" "vuln_linked db' = vuln_linked db"
    using assms by (simp_all add: fun_eq_iff advisory_of_def link_package_def version_of_id_def vuln_linked_def)
  then have "rows_ok db' = rows_ok db" "verdict_ok db' = verdict_ok db"
    using assms by (simp_all add: fun_eq_iff rows_ok_def verdict_ok_def scores_eq)
  then show ?thesis using assms by (simp add: verdicts_agree_def)
qed

lemma bump_agrees: "verdicts_agree db \<Longrightarrow> verdicts_agree (bump c db)"
  by (rule verdicts_agree_same [of _ db]) simp_all

lemma note_changed_agrees: "verdicts_agree db \<Longrightarrow> verdicts_agree (note_changed p db)"
  by (rule verdicts_agree_same [of _ db]) simp_all

lemma advisory_of_bump [simp]: "advisory_of (bump c db) = advisory_of db"
  by (simp add: fun_eq_iff advisory_of_def)

lemma scored_cong:
  "list_all (\<lambda>f. \<exists>a. advisory_of db (f_id f) = Some a \<and> f_score f = vr_score a) fs \<Longrightarrow>
   map f_id gs = map f_id fs \<Longrightarrow> map f_score gs = map f_score fs \<Longrightarrow>
   list_all (\<lambda>f. \<exists>a. advisory_of db (f_id f) = Some a \<and> f_score f = vr_score a) gs"
  by (induction fs arbitrary: gs) (auto simp: map_eq_Cons_conv)

lemma scan_item_results:
  assumes run: "scan_item hydrated failed (key, ids) (results, db) = (Inr u, results', db')"
    and cached: "cached_ok hydrated db" and ids: "\<forall>i f. hydrated i = Some f \<longrightarrow> f_id f = i"
  shows "\<exists>r. results' = results(key \<mapsto> r) \<and> result_ok db' r" "db' = db \<or> (\<exists>c. db' = bump c db)"
proof -
  have "(\<exists>r. results' = results(key \<mapsto> r) \<and> result_ok db' r) \<and> (db' = db \<or> (\<exists>c. db' = bump c db))"
  proof (cases "list_ex (\<lambda>i. i \<in> set failed) ids")
    case True
    with run show ?thesis by (auto simp: scan_item_def result_ok_def)
  next
    case False
    then obtain cves where c: "sum_map (add_fix (fst key)) (List.map_filter hydrated ids) = Inr cves"
        "results' = results(key \<mapsto> complete_result key cves)" "db' = db"
      using run by (auto simp: scan_item_def split: sum.splits)
    have "list_all (\<lambda>f. \<exists>a. advisory_of db (f_id f) = Some a \<and> f_score f = vr_score a) (List.map_filter hydrated ids)"
      using cached ids by (induction ids) (auto simp: List.map_filter_simps cached_ok_def split: option.splits)
    moreover have "map f_id cves = map f_id (List.map_filter hydrated ids)"
        "map f_score cves = map f_score (List.map_filter hydrated ids)" using add_fix_ids [OF c(1)] by blast+
    ultimately have "list_all (\<lambda>f. \<exists>a. advisory_of db (f_id f) = Some a \<and> f_score f = vr_score a) cves"
      by (rule scored_cong)
    then show ?thesis using c complete_result_ok by blast
  qed
  then show "\<exists>r. results' = results(key \<mapsto> r) \<and> result_ok db' r" "db' = db \<or> (\<exists>c. db' = bump c db)"
    by blast+
qed

lemma unscanned_ok [simp]: "result_ok db (unscanned key)"
  by (simp add: result_ok_def)

lemma scan_one_agrees:
  assumes run: "scan_versions env eco [key] db = (Inr results, db')" and agree: "verdicts_agree db"
  shows "verdicts_agree db' \<and> map sv_id (version_rows db') = map sv_id (version_rows db) \<and>
    (\<exists>r. results key = Some r \<and> result_ok db' r)"
proof (cases "e_enabled env")
  case False
  with run agree show ?thesis by (auto simp: scan_versions_def mark_unscanned_def)
next
  case True
  then have "e_batch env \<noteq> 0" using run by (auto simp: scan_versions_def split: if_splits)
  then have b: "batches (e_batch env) 0 [key] = [(0, [key])]"
    by (simp add: batches.simps) 
  obtain q results1 db1 where sb: "scan_batch env eco (0, [key]) (Map.empty, db) = (q, results1, db1)"
    by (rule prod_cases3)
  have q: "q = Inr ()" and r1: "results1 = results" "db1 = db'"
    using run True \<open>e_batch env \<noteq> 0\<close> sb b by (cases q; simp add: scan_versions_def)+
  note sb = sb [unfolded q r1 scan_batch_def prod.case osv_queries_def [symmetric]]
  show ?thesis
  proof (cases "query_batch env 0 (osv_queries eco [key])")
    case (Inl e)
    with sb agree bump_agrees show ?thesis by (cases e) (auto simp: mark_unscanned_def)
  next
    case (Inr answers)
    note sb = sb [unfolded Inr sum.case]
    show ?thesis
    proof (cases "length answers = length [key]")
      case False
      with sb agree show ?thesis by (auto simp: mark_unscanned_def)
    next
      case True
      then obtain a where a: "answers = [a]" by (cases answers) auto
      obtain ids where n: "named_advisories env a = Inr ids"
        using sb a by (cases "named_advisories env a") simp_all
      obtain hr db2 where h: "hydrate env 0 eco ids db = (hr, db2)" by fastforce
      obtain hydrated failed where hr: "hr = Inr (hydrated, failed)"
        using sb a n h by (cases hr) (auto simp: split: prod.splits)
      note agrees = hydrate_agrees [OF h [unfolded hr] agree]
      have item: "scan_item hydrated failed (key, map fst ids) (Map.empty, db2) = (Inr (), results, db')"
        using sb a n h hr by (auto split: prod.splits sum.splits)
      have fid: "\<forall>i f. hydrated i = Some f \<longrightarrow> f_id f = i"
        using hydrate_reads(3) [OF h [unfolded hr]] by blast
      from scan_item_results [OF item _ fid] agrees
      have "\<exists>r. results = [key \<mapsto> r] \<and> result_ok db' r" "db' = db2 \<or> (\<exists>c. db' = bump c db2)" by blast+
      then show ?thesis using agrees bump_agrees by auto
    qed
  qed
qed

definition linked_ids :: "osv_db \<Rightarrow> nat \<Rightarrow> string set" where
  "linked_ids db vid = set (map lk_vuln (vuln_linked db vid))"

definition linking :: "nat \<Rightarrow> string set \<Rightarrow> osv_db \<Rightarrow> osv_db \<Rightarrow> bool" where
  \<comment> \<open>only the links of one version have changed, and those to the given advisories at most\<close>
  "linking vid ids db d = (advisories d = advisories db \<and> version_rows d = version_rows db \<and> package_rows d = package_rows db \<and>
     (\<forall>w. w \<noteq> vid \<longrightarrow> vuln_linked d w = vuln_linked db w) \<and>
     linked_ids db vid \<subseteq> linked_ids d vid \<and> linked_ids d vid \<subseteq> linked_ids db vid \<union> ids)"

lemma apply_cve_linking:
  assumes inv: "linking vid ids db d" and run: "apply_cve vid name existing f d = (Inr u, d')" and f: "f_id f \<in> ids"
    and ex: "set existing = linked_ids db vid"
  shows "linking vid ids db d' \<and> f_id f \<in> linked_ids d' vid \<and> linked_ids d vid \<subseteq> linked_ids d' vid"
proof -
  obtain fixed where fx: "link_fix name f = Inr fixed" using run by (auto simp: apply_cve_def split: sum.splits)
  show ?thesis
  proof (cases "f_id f \<in> set existing")
    case True
    define g :: "vuln_link \<Rightarrow> vuln_link" where "g l = (if lk_version l = vid \<and> lk_vuln l = f_id f then l\<lparr>lk_fixed := fixed\<rparr> else l)" for l
    have g: "lk_version (g l) = lk_version l" "lk_vuln (g l) = lk_vuln l" "lk_version l \<noteq> vid \<Longrightarrow> g l = l" for l
      by (auto simp: g_def)
    have d': "d' = d\<lparr>links := map g (links d)\<rparr>"
      using run fx True by (simp add: apply_cve_def g_def [abs_def])
    have m: "vuln_linked d' w = map g (vuln_linked d w)" for w
      unfolding vuln_linked_def d' by (simp add: filter_map comp_def g)
    have "linked_ids d' w = linked_ids d w" for w by (auto simp: linked_ids_def m g image_iff)
    moreover have "vuln_linked d' w = vuln_linked d w" if "w \<noteq> vid" for w
      unfolding m using that g(3) by (auto simp: vuln_linked_def intro!: map_idI)
    ultimately show ?thesis
      using inv ex True by (auto simp: linking_def d')
  next
    case False
    then have d': "d' = d\<lparr>links := links d @ [\<lparr>lk_version = vid, lk_vuln = f_id f, lk_fixed = fixed, lk_suppressed = False\<rparr>]\<rparr>"
      using run fx by (simp add: apply_cve_def)
    have "linked_ids d' vid = insert (f_id f) (linked_ids d vid)" by (auto simp: linked_ids_def vuln_linked_def d')
    moreover have "vuln_linked d' w = vuln_linked d w" if "w \<noteq> vid" for w using that by (simp add: vuln_linked_def d')
    ultimately show ?thesis using inv f by (auto simp: linking_def d')
  qed
qed

lemma flagged_cases: "(Inr b, if b then x else y) = (Inr c, z) \<Longrightarrow> z = x \<or> z = y"
  by (auto split: if_splits)

lemma apply_facts:
  assumes run: "apply_to_version env vid r name db = (Inr c, db')" and s: "sr_scanned r" and v: "version_of_id db vid = Some v"
  shows "advisories db' = advisories db" "package_rows db' = package_rows db"
    "version_rows db' = version_rows (save_version (v\<lparr>sv_max_cvss := sr_max_score r, sv_has_fix := sr_has_fix r,
       sv_has_advisories := sr_has_advisories r, sv_malicious := sr_malicious r,
       sv_scanned_at := Some (Aware (e_now env))\<rparr>) db)" (is "_ = version_rows ?db0")
    "w \<noteq> vid \<Longrightarrow> vuln_linked db' w = vuln_linked db w" "linked_ids db' vid = f_id ` set (sr_cves r)"
proof -
  let ?existing = "map lk_vuln (filter (\<lambda>l. lk_version l = vid) (links db))"
  let ?seen = "map f_id (sr_cves r)"
  obtain q d where e: "each_of (apply_cve vid name ?existing) (sr_cves r) ?db0 = (q, d)" by fastforce
  have "\<not> \<not> sr_scanned r" using s by simp
  note run = run [unfolded apply_to_version_def if_not_P [OF this] v option.case Let_def e prod.case]
  then have q: "q = Inr ()" by (cases q) simp_all
  have ex: "set ?existing = linked_ids ?db0 vid" by (simp add: linked_ids_def vuln_linked_def)
  have "linking vid (set ?seen) ?db0 d \<and> (\<forall>f \<in> set (sr_cves r). f_id f \<in> linked_ids d vid)
      \<and> (\<forall>f :: finding. f_id f \<in> linked_ids ?db0 vid \<longrightarrow> f_id f \<in> linked_ids d vid)"
  proof (rule each_of_done [OF e [unfolded q], where I = "linking vid (set ?seen) ?db0" and P = "\<lambda>f d. f_id f \<in> linked_ids d vid"])
    show "linking vid (set ?seen) ?db0 ?db0" by (simp add: linking_def)
  next
    fix f d d' assume "f \<in> set (sr_cves r)" "linking vid (set ?seen) ?db0 d" "apply_cve vid name ?existing f d = (Inr (), d')"
    from apply_cve_linking [OF this(2,3) _ ex] this(1)
    show "linking vid (set ?seen) ?db0 d' \<and> f_id f \<in> linked_ids d' vid \<and>
      (\<forall>y :: finding. f_id y \<in> linked_ids d vid \<longrightarrow> f_id y \<in> linked_ids d' vid)" by auto
  qed
  then have lk: "linking vid (set ?seen) ?db0 d" and seen: "f_id ` set (sr_cves r) \<subseteq> linked_ids d vid" by auto
  define kept where "kept = d\<lparr>links := filter (\<lambda>l. \<not> (lk_version l = vid \<and>
    lk_vuln l \<in> set (filter (\<lambda>i. i \<notin> set ?seen) ?existing))) (links d)\<rparr>"
  have db': "advisories db' = advisories kept" "links db' = links kept" "version_rows db' = version_rows kept"
      "package_rows db' = package_rows kept"
    using flagged_cases [OF run [unfolded q sum.case kept_def [symmetric]]] by auto
  show "advisories db' = advisories db" "package_rows db' = package_rows db" "version_rows db' = version_rows ?db0"
    using lk by (simp_all add: db' kept_def linking_def)
  have l0: "vuln_linked ?db0 = vuln_linked db" by (simp add: fun_eq_iff vuln_linked_def)
  have k: "vuln_linked db' w = filter (\<lambda>l. \<not> (w = vid \<and> lk_vuln l \<in> set ?existing \<and> lk_vuln l \<notin> set ?seen)) (vuln_linked d w)" for w
    unfolding vuln_linked_def db' kept_def by (auto simp: intro!: filter_cong)
  show "vuln_linked db' w = vuln_linked db w" if "w \<noteq> vid"
    using that lk l0 by (simp add: k linking_def)
  have "linked_ids db' vid = linked_ids d vid - (set ?existing - set ?seen)"
    by (auto simp: linked_ids_def k)
  also have "\<dots> = set ?seen"
    using lk seen ex by (auto simp: linking_def)
  finally show "linked_ids db' vid = f_id ` set (sr_cves r)" by simp
qed

lemma linked_nil_ids: "vuln_linked db w = [] \<longleftrightarrow> linked_ids db w = {}"
  by (simp add: linked_ids_def)

lemma set_map_filter: "set (List.map_filter f xs) = {y. \<exists>x \<in> set xs. f x = Some y}"
  by (induction xs) (auto simp: List.map_filter_simps split: option.splits)

lemma set_scores: "set (scores db w) = {vr_score a | i a. i \<in> linked_ids db w \<and> advisory_of db i = Some a}"
  unfolding scores_eq set_map_filter by (auto simp: linked_ids_def)

lemma links_via_linked: "l \<in> set (links db) \<longleftrightarrow> l \<in> set (vuln_linked db (lk_version l))"
  by (simp add: vuln_linked_def)

lemma apply_agrees:
  assumes agree: "verdicts_agree db" and res: "result_ok db r"
    and run: "apply_to_version env vid r name db = (Inr c, db')"
  shows "verdicts_agree db'"
proof (cases "sr_scanned r")
  case False
  with run agree show ?thesis by (simp add: apply_to_version_def)
next
  case s: True
  obtain v where v: "version_of_id db vid = Some v"
    using run s by (cases "version_of_id db vid") (auto simp: apply_to_version_def)
  have keys: "rows_ok db" using agree by (simp add: verdicts_agree_def)
  then have d: "distinct (map sv_id (version_rows db))" by (simp add: rows_ok_def)
  have vin: "v \<in> set (version_rows db)" "sv_id v = vid" using v version_of_id_in [OF d] by auto
  note f = apply_facts [OF run s v]
  define v' where "v' = v\<lparr>sv_max_cvss := sr_max_score r, sv_has_fix := sr_has_fix r,
    sv_has_advisories := sr_has_advisories r, sv_malicious := sr_malicious r, sv_scanned_at := Some (Aware (e_now env))\<rparr>"
  have v': "sv_id v' = vid" "sv_package v' = sv_package v" using vin by (simp_all add: v'_def)
  define g where "g w = (if sv_id w = vid then v' else w)" for w :: version_row
  have rows: "version_rows db' = map g (version_rows db)"
    using f(3) v' by (simp add: g_def [abs_def] save_version_def v'_def [symmetric])
  have uniq: "w = v" if "w \<in> set (version_rows db)" "sv_id w = vid" for w
    using that v version_of_id_in [OF d] by (metis option.inject)
  have gid: "sv_id (g w) = sv_id w" for w by (simp add: g_def v')
  have adv: "advisory_of db' = advisory_of db" by (simp add: fun_eq_iff advisory_of_def f(1))
  have vof: "version_of_id db' i = map_option g (version_of_id db i)" for i
    unfolding version_of_id_def rows by (rule find_map_eq) (rule gid)
  have pk: "link_package db' l = link_package db l" for l
  proof (cases "version_of_id db (lk_version l)")
    case None
    then show ?thesis by (simp add: link_package_def vof)
  next
    case (Some w)
    then have "sv_package (g w) = sv_package w"
      using version_of_id_in [OF d] uniq v' by (auto simp: g_def)
    then show ?thesis using Some by (simp add: link_package_def vof f(2))
  qed
  have cves: "\<exists>a. advisory_of db (f_id x) = Some a \<and> f_score x = vr_score a" if "x \<in> set (sr_cves r)" for x
    using res s that by (simp add: result_ok_def list_all_iff)
  have fk: "advisory_of db' (lk_vuln l) \<noteq> None \<and> link_package db' l \<noteq> None" if l: "l \<in> set (links db')" for l
  proof (cases "lk_version l = vid")
    case True
    have "lk_vuln l \<in> linked_ids db' vid" using l True links_via_linked [of l db'] by (simp add: linked_ids_def)
    then have a: "advisory_of db (lk_vuln l) \<noteq> None" using cves f(5) by fastforce
    have "v' \<in> set (version_rows db')" using vin by (auto simp: rows g_def v')
    then have "version_of_id db' (lk_version l) \<noteq> None" using True v' by (auto simp: version_of_id_def find_None_iff)
    then obtain w where w: "version_of_id db (lk_version l) = Some w" by (auto simp: vof)
    then have "w \<in> set (version_rows db)" using version_of_id_in [OF d] by auto
    then have "link_package db l \<noteq> None" using keys w by (auto simp: link_package_def rows_ok_def list_all_iff)
    then show ?thesis using a by (simp add: adv pk)
  next
    case False
    then have "l \<in> set (links db)" using l f(4) links_via_linked by metis
    then show ?thesis using keys by (simp add: rows_ok_def list_all_iff adv pk)
  qed
  have keys': "rows_ok db'"
  proof -
    have "map_of (package_rows db') (sv_package w) \<noteq> None" if "w \<in> set (version_rows db')" for w
      using that keys vin v' by (auto simp: rows g_def f(2) rows_ok_def list_all_iff split: if_splits)
    then show ?thesis using fk d keys f(1) by (simp add: rows_ok_def list_all_iff rows comp_def gid)
  qed
  have "verdict_ok db' w" if "w \<in> set (version_rows db')" for w
  proof -
    obtain w0 where w0: "w0 \<in> set (version_rows db)" "w = g w0" using \<open>w \<in> _\<close> rows by auto
    show ?thesis
    proof (cases "sv_id w0 = vid")
      case False
      then have "w = w0" "same_view db db' (sv_id w)"
        using w0 f(4) [of "sv_id w0"] adv by (simp_all add: g_def same_view_def)
      then show ?thesis using agree w0 verdict_ok_view by (simp add: verdicts_agree_def list_all_iff)
    next
      case True
      then have w: "w = v'" using w0 by (simp add: g_def)
      have sc: "set (scores db' vid) = set (map f_score (sr_cves r))"
        unfolding set_scores f(5) adv using cves by (auto simp: image_iff) (metis option.inject)+
      show ?thesis
      proof (cases "sr_cves r = []")
        case True
        then have "vuln_linked db' vid = []" using f(5) by (simp add: linked_nil_ids)
        then show ?thesis using res s True
          by (simp add: verdict_ok_def clean_verdict_def w v') (simp add: v'_def result_ok_def sr_has_advisories_def)
      next
        case False
        then have "sv_max_cvss v' = worst (map f_score (sr_cves r))" "sv_has_advisories v'"
          using res s by (simp_all add: result_ok_def v'_def sr_has_advisories_def)
        moreover have "worst (scores db' vid) = worst (map f_score (sr_cves r))"
          by (rule worst_cong) (simp only: sc)
        moreover have "vuln_linked db' vid \<noteq> []" using False f(5) by (simp add: linked_nil_ids)
        ultimately show ?thesis by (simp add: verdict_ok_def w v')
      qed
    qed
  qed
  then show ?thesis using keys' by (simp add: verdicts_agree_def list_all_iff)
qed

text \<open>
  C11: scanning a version keeps the tables consistent, also when the scan refreshed an advisory other
  versions are linked to. Every scanned version, the one being scanned and all others, that has
  advisories linked to it has the worst of their scores stored and is marked as having some; every
  scanned version without any, withdrawn ones included, has the score zero and is marked neither as
  having advisories nor as fixable nor as malware.
\<close>

theorem scan_keeps_verdicts:
  assumes "verdicts_agree db" "scan_and_apply env eco vid name db = (Inr res, db')"
  shows "verdicts_agree db'"
proof -
  obtain v where v: "version_of_id db vid = Some v"
    using assms(2) by (cases "version_of_id db vid") (simp_all add: scan_and_apply_def)
  note run = assms(2) [unfolded scan_and_apply_def v option.case Let_def]
  obtain q db1 where sv: "scan_versions env eco [(name, sv_version v)] db = (q, db1)" by fastforce
  note run = run [unfolded sv prod.case]
  then obtain results where q: "q = Inr results" by (cases q) simp_all
  from scan_one_agrees [OF sv [unfolded q] assms(1)] obtain r where
      one: "verdicts_agree db1" "results (name, sv_version v) = Some r" "result_ok db1 r" by blast
  obtain q2 db2 where ap: "apply_to_version env vid r name db1 = (q2, db2)" by fastforce
  note run = run [unfolded q sum.case one(2) option.case ap prod.case]
  then obtain c where "q2 = Inr c" "db' = db2" by (cases q2) simp_all
  then show ?thesis using apply_agrees [OF one(1,3)] ap by simp
qed

lemma sample_agrees: "verdicts_agree sample_db"
  by (simp add: verdicts_agree_def rows_ok_def verdict_ok_def sample_db_def sample_version_def vuln_linked_def)

lemma sample_scan_and_apply:
  "\<exists>res db'. scan_and_apply osv_sample_env ''npm'' 2 ''p'' sample_db = (Inr res, db')
     \<and> linked_ids db' 2 = {''A''}"
proof -
  have v: "version_of_id sample_db 2 = Some sample_version" "sv_version sample_version = ''v''"
    by (simp_all add: version_of_id_def sample_db_def sample_version_def)
  let ?r = "complete_result (''p'', ''v'') [sample_finding]"
  have "apply_cve 2 ''p'' [] sample_finding d = (Inr (), d\<lparr>links := links d @ [\<lparr>lk_version = 2, lk_vuln = ''A'',
      lk_fixed = JNull, lk_suppressed = False\<rparr>]\<rparr>)" for d
    by (simp add: apply_cve_def link_fix_def sample_finding_def)
  note step = this
  have l: "links sample_db = []" by (simp add: sample_db_def)
  have r: "sr_cves ?r = [sample_finding]" "sr_scanned ?r" by (simp_all add: complete_result_def)
  obtain q db' where a: "apply_to_version osv_sample_env 2 ?r ''p'' sample_db = (q, db')" by fastforce
  then obtain c where "q = Inr c"
    unfolding apply_to_version_def v option.case Let_def l by (cases q) (simp_all add: r step)
  note a = a [unfolded this]
  have "linked_ids db' 2 = {''A''}"
    using apply_facts(5) [OF a _ v(1)] by (simp add: complete_result_def sample_finding_def)
  moreover have "scan_and_apply osv_sample_env ''npm'' 2 ''p'' sample_db = (Inr (?r, if c then [(''npm'', normalize_name_for ''npm'' ''p'')] else []), db')"
    by (simp add: scan_and_apply_def v sample_scan a)
  ultimately show ?thesis by blast
qed

lemma scan_keeps_verdicts_witness:
  "\<exists>res db'. scan_and_apply osv_sample_env ''npm'' 2 ''p'' sample_db = (Inr res, db') \<and> linked_ids db' 2 = {''A''} \<and> verdicts_agree db'"
proof -
  obtain res db' where r: "scan_and_apply osv_sample_env ''npm'' 2 ''p'' sample_db = (Inr res, db')" and l: "linked_ids db' 2 = {''A''}"
    using sample_scan_and_apply by (elim exE conjE)
  show ?thesis
    by (intro exI conjI) (rule r, rule l, rule scan_keeps_verdicts [OF sample_agrees r])
qed

end
