(* ===== verification/Osv_Rescore_Spec.thy ===== *)
theory Osv_Rescore_Spec
  imports Osv_Verdict_Spec
begin

section \<open>Rescoring and invalidation\<close>

text \<open>
  A change to the scoring is applied to the stored advisories: afterwards the score of every linked
  version is the worst of its advisories. One thing is lost on the way, the score of malware that
  publishes none. And the two ways of dropping rendered documents agree.
\<close>

subsection \<open>The loops\<close>

lemma rescore_row_id: "rescore_row r = Inr r' \<Longrightarrow> vr_id r' = vr_id r \<and> vr_raw r' = vr_raw r"
  by (auto simp: rescore_row_def sum_bind_Inr_iff split: if_splits)

lemma rescore_loop:
  "each_of rescore_index [0..<length (advisories db)] db = (r, db') \<Longrightarrow>
   map vr_id (advisories db') = map vr_id (advisories db) \<and> links db' = links db \<and>
   version_rows db' = version_rows db \<and> package_rows db' = package_rows db"
proof -
  assume e: "each_of rescore_index [0..<length (advisories db)] db = (r, db')"
  let ?I = "\<lambda>d. map vr_id (advisories d) = map vr_id (advisories db) \<and> links d = links db \<and>
      version_rows d = version_rows db \<and> package_rows d = package_rows db"
  show ?thesis
  proof (rule each_of_inv [OF e, where I = ?I])
    fix i d r d'
    assume i: "i \<in> set [0..<length (advisories db)]" and inv: "?I d" and run: "rescore_index i d = (r, d')"
    have len: "i < length (advisories d)" using i inv by (metis atLeastLessThan_iff length_map set_upt)
    show "?I d'"
    proof (cases "rescore_row (advisories d ! i)")
      case (Inl e)
      with run inv show ?thesis by (simp add: rescore_index_def)
    next
      case (Inr a)
      then have "map vr_id ((advisories d)[i := a]) = map vr_id (advisories d)"
        using rescore_row_id [OF Inr] len by (simp add: map_update) (metis list_update_id nth_map)
      with run inv Inr show ?thesis by (auto simp: rescore_index_def)
    qed
  qed simp
qed

lemma rescore_version_simps [simp]:
  "advisories (rescore_version vid db) = advisories db" "links (rescore_version vid db) = links db"
  "package_rows (rescore_version vid db) = package_rows db"
  by (simp_all add: rescore_version_def Let_def split: option.splits)

lemma version_links_cong: "advisories db' = advisories db \<Longrightarrow> links db' = links db \<Longrightarrow> version_links db' = version_links db"
proof -
  assume a: "advisories db' = advisories db" and l: "links db' = links db"
  have "advisory_of db' = advisory_of db" using a by (simp add: fun_eq_iff advisory_of_def)
  then show ?thesis using l by (intro ext) (simp only: version_links_def)
qed

definition rescored :: "osv_db \<Rightarrow> nat \<Rightarrow> version_row \<Rightarrow> version_row" where
  "rescored db vid w = (if sv_id w = vid \<and> version_links db vid \<noteq> []
     then w\<lparr>sv_max_cvss := worst_score (version_links db vid)\<rparr> else w)"

lemma rescored_simps [simp]: "sv_id (rescored db vid w) = sv_id w" "sv_package (rescored db vid w) = sv_package w"
  by (simp_all add: rescored_def)

lemma rescore_version_rows:
  assumes d: "distinct (map sv_id (version_rows db))"
  shows "version_rows (rescore_version vid db) = map (rescored db vid) (version_rows db)"
proof (cases "version_links db vid = []")
  case True
  then show ?thesis by (simp add: rescore_version_def rescored_def map_idI)
next
  case links: False
  show ?thesis
  proof (cases "version_of_id db vid")
    case None
    then have "sv_id w \<noteq> vid" if "w \<in> set (version_rows db)" for w
      using that by (auto simp: version_of_id_def find_None_iff)
    then show ?thesis using None links
      by (auto simp: rescore_version_def rescored_def intro!: map_idI [symmetric])
  next
    case (Some v)
    have v: "sv_id v = vid" using Some version_of_id_in [OF d] by auto
    have uniq: "w = v" if "w \<in> set (version_rows db)" "sv_id w = vid" for w
      using that Some version_of_id_in [OF d] by (metis option.inject)
    show ?thesis
    proof (cases "sv_max_cvss v = worst_score (version_links db vid)")
      case True
      have "rescored db vid w = w" if "w \<in> set (version_rows db)" for w
      proof (cases "sv_id w = vid")
        case True
        then have "w = v" using uniq that by simp
        then show ?thesis using \<open>sv_max_cvss v = _\<close> by (simp add: rescored_def)
      qed (simp add: rescored_def)
      then show ?thesis using Some links True by (simp add: rescore_version_def map_idI)
    next
      case False
      then show ?thesis
        using Some links v uniq by (auto simp: rescore_version_def rescored_def save_version_def Let_def)
    qed
  qed
qed

lemma rescore_fold:
  "distinct (map sv_id (version_rows db)) \<Longrightarrow>
   advisories (fold rescore_version vids db) = advisories db \<and> links (fold rescore_version vids db) = links db \<and>
   package_rows (fold rescore_version vids db) = package_rows db \<and>
   version_rows (fold rescore_version vids db) = map (fold (rescored db) vids) (version_rows db)"
proof (induction vids arbitrary: db)
  case (Cons vid vids)
  let ?db = "rescore_version vid db"
  have d: "distinct (map sv_id (version_rows ?db))"
    using Cons.prems by (simp add: rescore_version_rows comp_def)
  have "rescored ?db = rescored db"
    using version_links_cong [of ?db db] by (simp add: rescored_def fun_eq_iff)
  with Cons.IH [OF d] show ?case by (simp add: rescore_version_rows [OF Cons.prems])
qed simp

lemma rescored_other: "sv_id w \<notin> set vids \<Longrightarrow> fold (rescored db) vids w = w"
proof (induction vids arbitrary: w)
  case (Cons vid vids)
  then have "rescored db vid w = w" by (simp add: rescored_def)
  then show ?case using Cons by simp
qed simp

lemma fold_rescored:
  "sv_id (fold (rescored db) vids w) = sv_id w"
  "sv_package (fold (rescored db) vids w) = sv_package w"
  "sv_id w \<in> set vids \<Longrightarrow> version_links db (sv_id w) \<noteq> [] \<Longrightarrow>
     sv_max_cvss (fold (rescored db) vids w) = worst_score (version_links db (sv_id w))"
proof (induction vids arbitrary: w)
  case (Cons vid vids)
  { case 1 show ?case using Cons by simp }
  { case 2 show ?case using Cons by simp }
  { case 3
    show ?case
    proof (cases "sv_id w \<in> set vids")
      case True
      then show ?thesis using 3 Cons.IH(3) [of "rescored db vid w"] by simp
    next
      case False
      then have "sv_max_cvss (rescored db vid w) = worst_score (version_links db (sv_id w))"
        using 3 by (simp add: rescored_def)
      then show ?thesis using False rescored_other [of "rescored db vid w" vids db] by simp
    qed }
qed simp_all

lemma refix_loop:
  "each_of refix [0..<length (links db)] db = (r, db') \<Longrightarrow>
   advisories db' = advisories db \<and> version_rows db' = version_rows db \<and> package_rows db' = package_rows db \<and>
   map (\<lambda>l. (lk_version l, lk_vuln l)) (links db') = map (\<lambda>l. (lk_version l, lk_vuln l)) (links db)"
proof -
  assume e: "each_of refix [0..<length (links db)] db = (r, db')"
  let ?I = "\<lambda>d. advisories d = advisories db \<and> version_rows d = version_rows db \<and> package_rows d = package_rows db \<and>
      map (\<lambda>l. (lk_version l, lk_vuln l)) (links d) = map (\<lambda>l. (lk_version l, lk_vuln l)) (links db)"
  show ?thesis
  proof (rule each_of_inv [OF e, where I = ?I])
    fix i d r d'
    assume i: "i \<in> set [0..<length (links db)]" and inv: "?I d" and run: "refix i d = (r, d')"
    have len: "i < length (links d)" using i inv by (metis atLeastLessThan_iff length_map set_upt)
    have "d' = d \<or> (\<exists>fixed. d' = d\<lparr>links := (links d)[i := (links d ! i)\<lparr>lk_fixed := fixed\<rparr>]\<rparr>)"
      using run by (auto simp: refix_def Let_def split: option.splits sum.splits if_splits)
    moreover have "map (\<lambda>l. (lk_version l, lk_vuln l)) ((links d)[i := (links d ! i)\<lparr>lk_fixed := fixed\<rparr>])
        = map (\<lambda>l. (lk_version l, lk_vuln l)) (links d)" for fixed
      using len by (auto simp: map_update) (metis (no_types, lifting) length_map list_update_id nth_map)
    ultimately show "?I d'" using inv by auto
  qed simp
qed

text \<open>
  After a rescore every version that has advisories carries the worst of their new scores, so
  that the policy decides on the new numbers, whatever was stored before.
\<close>

theorem rescore_restores_scores:
  assumes keys: "rows_ok db" and run: "rescore_stored db = (Inr st, db')"
  shows "rows_ok db' \<and> list_all (\<lambda>v. vuln_linked db' (sv_id v) = [] \<or> sv_max_cvss v = worst (scores db' (sv_id v))) (version_rows db')"
proof -
  obtain q1 db1 where e1: "each_of rescore_index [0..<length (advisories db)] db = (q1, db1)" by fastforce
  note run = run [unfolded rescore_stored_def e1 prod.case]
  then obtain u1 where q1: "q1 = Inr u1" by (cases q1) simp_all
  let ?vids = "remdups (map lk_version (links db1))"
  define db2 where "db2 = fold rescore_version ?vids db1"
  obtain q3 db3 where e3: "each_of refix [0..<length (links db2)] db2 = (q3, db3)" by fastforce
  have db': "db' = db3"
    using run unfolding q1 sum.case Let_def db2_def [symmetric] e3 prod.case by (cases q3) simp_all
  note l1 = rescore_loop [OF e1] and l3 = refix_loop [OF e3]
  have adv1: "advisory_of db1 i \<noteq> None \<longleftrightarrow> advisory_of db i \<noteq> None" for i
    using l1 by (simp add: advisory_of_def find_None_iff) (metis (no_types, lifting) image_iff list.set_map)
  have keys1: "rows_ok db1"
    by (rule keys_ok_pairs [of db1 db]) (use l1 keys adv1 in \<open>auto simp: rows_ok_def list_all_iff\<close>)
  then have d1: "distinct (map sv_id (version_rows db1))" by (simp add: rows_ok_def)
  note l2 = rescore_fold [OF d1, of ?vids, folded db2_def]
  have same: "advisories db' = advisories db1" "package_rows db' = package_rows db1"
      "version_rows db' = map (fold (rescored db1) ?vids) (version_rows db1)"
      "map (\<lambda>l. (lk_version l, lk_vuln l)) (links db') = map (\<lambda>l. (lk_version l, lk_vuln l)) (links db1)"
    using l2 l3 db' by simp_all
  have adv: "advisory_of db' = advisory_of db1" using same(1) by (simp add: fun_eq_iff advisory_of_def)
  have pk: "link_package db' l = link_package db1 l" for l
  proof -
    have "version_of_id db' i = map_option (fold (rescored db1) ?vids) (version_of_id db1 i)" for i
      unfolding version_of_id_def same(3) by (rule find_map_eq) (simp add: fold_rescored)
    then show ?thesis
      by (cases "version_of_id db1 (lk_version l)") (simp_all add: link_package_def same(2) fold_rescored)
  qed
  have view: "same_view db1 db' w" for w by (rule same_view_pairs) (use same(4) adv in auto)
  have sc: "scores db' w = scores db1 w" for w
    using view [of w] scores_cong [of db1 w db'] by (simp add: same_view_def)
  have nil: "vuln_linked db' w = [] \<longleftrightarrow> vuln_linked db1 w = []" for w
    using view [of w] unfolding same_view_def by (metis map_is_Nil_conv)
  have "rows_ok db'"
  proof -
    have "list_all (\<lambda>p. advisory_of db1 (snd p) \<noteq> None \<and> Option.bind (version_of_id db1 (fst p))
        (\<lambda>v. map_option snd (map_of (package_rows db1) (sv_package v))) \<noteq> None) (map (\<lambda>l. (lk_version l, lk_vuln l)) (links db1))"
      using keys1 by (simp add: rows_ok_def list_all_iff link_package_def)
    then have "list_all (\<lambda>l. advisory_of db1 (lk_vuln l) \<noteq> None \<and> link_package db1 l \<noteq> None) (links db')"
      unfolding same(4) [symmetric] by (simp add: list_all_iff link_package_def)
    then show ?thesis
      using keys1 same(1,2) by (simp add: rows_ok_def adv pk list_all_iff same(3) comp_def fold_rescored)
  qed
  moreover have "vuln_linked db' (sv_id v) = [] \<or> sv_max_cvss v = worst (scores db' (sv_id v))" if vin: "v \<in> set (version_rows db')" for v
  proof (cases "vuln_linked db1 (sv_id v) = []")
    case False
    obtain w where w: "w \<in> set (version_rows db1)" "v = fold (rescored db1) ?vids w" using vin unfolding same(3) by auto
    have "sv_id w = sv_id v" using w(2) by (simp add: fold_rescored)
    moreover have "sv_id v \<in> set ?vids" using False by (auto simp: vuln_linked_def filter_empty_conv intro: rev_image_eqI)
    moreover have "version_links db1 (sv_id v) \<noteq> []" using False version_links_nil [OF _ keys1] by blast
    ultimately have "sv_max_cvss v = worst_score (version_links db1 (sv_id v))"
      using fold_rescored(3) [of w ?vids db1] w(2) by simp
    then show ?thesis by (simp add: worst_score_eq sc)
  qed (simp add: nil)
  ultimately show ?thesis by (simp add: list_all_iff)
qed

definition sample_linked :: osv_db where
  "sample_linked = sample_db\<lparr>links := [\<lparr>lk_version = 2, lk_vuln = ''A'', lk_fixed = JNull, lk_suppressed = False\<rparr>]\<rparr>"

lemma sample_linked_keys: "rows_ok sample_linked"
  by (simp add: rows_ok_def sample_linked_def sample_db_def advisory_of_def link_package_def version_of_id_def
      sample_advisory_def sample_version_def)

lemma sample_rescored: "\<exists>st db'. rescore_stored sample_linked = (Inr st, db')"
proof -
  have a: "advisories sample_linked = [sample_advisory]" by (simp add: sample_linked_def sample_db_def)
  have r: "rescore_row sample_advisory = Inr sample_advisory" by (simp add: rescore_row_def sample_advisory_def)
  have e1: "each_of rescore_index [0..<length (advisories sample_linked)] sample_linked = (Inr (), sample_linked)"
    by (simp add: a rescore_index_def r)
  define db2 where "db2 = fold rescore_version (remdups (map lk_version (links sample_linked))) sample_linked"
  have keys: "distinct (map sv_id (version_rows sample_linked))" using sample_linked_keys by (simp add: rows_ok_def)
  have l2: "links db2 = links sample_linked" "advisories db2 = [sample_advisory]"
    using rescore_fold [OF keys] a by (simp_all add: db2_def)
  have id: "vr_id sample_advisory = ''A''" "vr_raw sample_advisory = JNull" by (simp_all add: sample_advisory_def)
  have "lk_vuln (links sample_linked ! 0) = ''A''" by (simp add: sample_linked_def)
  then have "advisory_of db2 (lk_vuln (links db2 ! 0)) = Some sample_advisory"
    by (simp add: l2 advisory_of_def id)
  then have "refix i db2 = (Inr (), db2)" if "i < 1" for i
    using that by (simp add: refix_def Let_def id split: option.splits)
  then have "each_of refix [0..<length (links db2)] db2 = (Inr (), db2)"
    using l2 by (simp add: sample_linked_def)
  then show ?thesis by (simp add: rescore_stored_def e1 db2_def [symmetric])
qed

lemma rescore_restores_scores_witness:
  "\<exists>st db'. rescore_stored sample_linked = (Inr st, db') \<and> rows_ok db'"
proof -
  obtain st db' where r: "rescore_stored sample_linked = (Inr st, db')"
    using sample_rescored by (elim exE)
  then show ?thesis using rescore_restores_scores [OF sample_linked_keys r] by blast
qed

text \<open>
  A malware advisory that publishes no severity is stored with the score 10.0; a rescore replaces it
  by no score at all.
\<close>

lemma rescore_erases_malware_score:
  "vr_score r = Some 10 \<Longrightarrow> vr_type r = Some ''MALICIOUS'' \<Longrightarrow> is_obj (vr_raw r) \<Longrightarrow> jtruthy (vr_raw r) \<Longrightarrow>
   best_severity (vr_raw r) = Inr (None, None, None) \<Longrightarrow>
   \<exists>r'. rescore_row r = Inr r' \<and> vr_score r' = None \<and> vr_label r' = None"
  by (simp add: rescore_row_def severity_label_def)

subsection \<open>Two ways of dropping rendered documents\<close>

lemma py_rpartition_append: "CHR '':'' \<notin> set rest \<Longrightarrow> py_rpartition CHR '':'' (h @ '':'' @ rest) = (h, '':'', rest)"
proof -
  assume "CHR '':'' \<notin> set rest"
  then have "\<forall>c \<in> set (rev rest). c \<noteq> CHR '':''" by auto
  then show ?thesis by (simp add: py_rpartition_def takeWhile_stop)
qed

lemma py_rpartition_split:
  "py_rpartition CHR '':'' key = (h, sep, rest) \<Longrightarrow> sep \<noteq> [] \<Longrightarrow> key = h @ '':'' @ rest"
proof -
  assume p: "py_rpartition CHR '':'' key = (h, sep, rest)" and s: "sep \<noteq> []"
  let ?p = "takeWhile (\<lambda>c. c \<noteq> CHR '':'') (rev key)" and ?r = "dropWhile (\<lambda>c. c \<noteq> CHR '':'') (rev key)"
  obtain c t where r: "?r = c # t" "h = rev t" "rest = rev ?p"
    using p s by (auto simp: py_rpartition_def Let_def split: list.splits)
  then have "c = CHR '':''" by (metis (mono_tags) dropWhile_eq_Cons_conv)
  then have "rev key = ?p @ CHR '':'' # t" using r(1) by (metis takeWhile_dropWhile_id)
  then have "key = rev (?p @ CHR '':'' # t)" by (metis rev_rev_ident)
  then show ?thesis using r by simp
qed

text \<open>
  One pass over all rendered documents drops exactly the documents that a pass per package
  drops, as long as the part of a key after the package name has no colon in it.
\<close>

theorem invalidation_strategies_agree:
  assumes "\<forall>key \<in> set stored. \<forall>t \<in> set targets. \<forall>rest. key = package_prefix t @ rest \<longrightarrow> CHR '':'' \<notin> set rest"
  shows "doomed_keys targets (filter (\<lambda>key. starts_with key ''pkg:'') stored)
    = filter (\<lambda>key. list_ex (\<lambda>t. starts_with key (package_prefix t)) targets) stored"
proof -
  have "(starts_with key ''pkg:'' \<and> (case py_rpartition CHR '':'' key of (head, sep, _) \<Rightarrow>
        sep \<noteq> [] \<and> head @ '':'' \<in> set (map package_prefix targets)))
      \<longleftrightarrow> list_ex (\<lambda>t. starts_with key (package_prefix t)) targets" (is "?l \<longleftrightarrow> ?r") if k: "key \<in> set stored" for key
  proof
    assume ?l
    obtain h sep rest where p: "py_rpartition CHR '':'' key = (h, sep, rest)" by (cases "py_rpartition CHR '':'' key") auto
    with \<open>?l\<close> obtain t where t: "t \<in> set targets" "h @ '':'' = package_prefix t" "sep \<noteq> []" by auto
    then have "key = package_prefix t @ rest" using py_rpartition_split [OF p] by simp
    then show ?r using t(1) starts_with_append by (metis list_ex_iff)
  next
    assume ?r
    then obtain t rest where t: "t \<in> set targets" "key = package_prefix t @ rest"
      by (auto simp: list_ex_iff starts_with_iff)
    then have c: "CHR '':'' \<notin> set rest" using assms k by blast
    define h where "h = ''pkg:'' @ fst t @ '':'' @ snd t"
    have key: "key = h @ '':'' @ rest" using t(2) by (simp add: package_prefix_def h_def)
    have "starts_with key ''pkg:''" by (auto simp: key h_def starts_with_def)
    moreover have "h @ '':'' = package_prefix t" by (simp add: package_prefix_def h_def)
    ultimately show ?l using t(1) unfolding key py_rpartition_append [OF c] by auto
  qed
  then show ?thesis unfolding doomed_keys_def filter_filter by (intro filter_cong) auto
qed

lemma invalidation_strategies_agree_witness:
  "doomed_keys [(''npm'', ''a'')] (filter (\<lambda>key. starts_with key ''pkg:'') [''pkg:npm:a:full'', ''pkg:npm:ab:full''])
   = filter (\<lambda>key. list_ex (\<lambda>t. starts_with key (package_prefix t)) [(''npm'', ''a'')]) [''pkg:npm:a:full'', ''pkg:npm:ab:full'']"
  by (rule invalidation_strategies_agree) (auto simp: package_prefix_def)

end
