(* ===== verification/Vulns.thy ===== *)
theory Vulns
  imports Naming Complex_Main
begin

section \<open>Presenting advisories (\<open>services/vulns.py\<close>)\<close>

text \<open>
  The advisories of a version are shown one per CVE, and a version to upgrade to is proposed. An
  entry is the dict its callers build, all of them with the same keys, so that \<open>update\<close> replaces
  every field; a falsy string is \<open>None\<close> or empty.
\<close>

record cve_entry =
  ce_cve :: "string option"
  ce_osv :: "string option"
  ce_score :: "rat option"
  ce_severity :: "string option"
  ce_summary :: "string option"
  ce_fixed :: "string option"
  ce_suppressed :: bool
  ce_url :: string

datatype fix_key = Parsed semver_key_t | Unparsed string

definition fix_key_of :: "string \<Rightarrow> fix_key" where
  "fix_key_of v = (case semver_parse v of Some s \<Rightarrow> Parsed (semver_key s) | None \<Rightarrow> Unparsed v)"

text \<open>
  The comparison of two keys as tuples, where an unparsed version \<open>v\<close> is \<open>(0, 0, 0, (0, (v,)))\<close>.
  Against a prerelease of \<open>0.0.0\<close> it compares a string with a number, which raises: \<open>None\<close>.
\<close>

fun fix_gt :: "fix_key \<Rightarrow> fix_key \<Rightarrow> bool option" where
  "fix_gt (Parsed a) (Parsed b) = Some (b < a)"
| "fix_gt (Unparsed a) (Unparsed b) = Some (b < a)"
| "fix_gt (Parsed (x, y, z, p)) (Unparsed b) =
     (if (x, y, z) \<noteq> (0, 0, 0) then Some ((0, 0, 0) < (x, y, z))
      else if fst p = 1 then Some True else None)"
| "fix_gt (Unparsed a) (Parsed (x, y, z, p)) =
     (if (x, y, z) \<noteq> (0, 0, 0) then Some ((x, y, z) < (0, 0, 0))
      else if fst p = 1 then Some False else None)"

definition score_of :: "cve_entry \<Rightarrow> rat" where
  \<comment> \<open>\<open>entry.get("cvss_score") or 0\<close>\<close>
  "score_of e = (case ce_score e of None \<Rightarrow> 0 | Some s \<Rightarrow> s)"

definition or_else :: "string option \<Rightarrow> string option \<Rightarrow> string option" where
  "or_else a b = (if truthy a then a else b)"

definition entry_key :: "cve_entry \<Rightarrow> string" where
  "entry_key e = (case or_else (or_else (ce_cve e) (ce_osv e)) (Some []) of Some k \<Rightarrow> k | None \<Rightarrow> [])"

definition merge_entry :: "cve_entry \<Rightarrow> cve_entry \<Rightarrow> cve_entry option" where
  \<comment> \<open>what \<open>current\<close> becomes when \<open>entry\<close> has the same key; \<open>None\<close> when the comparison raises\<close>
  "merge_entry current entry = (let
     c1 = (if score_of current < score_of entry
           then entry\<lparr>ce_fixed := or_else (ce_fixed current) (ce_fixed entry)\<rparr> else current);
     candidate = ce_fixed entry; existing = ce_fixed c1;
     newer = (if \<not> truthy candidate then Some False
              else if \<not> truthy existing then Some True
              else fix_gt (fix_key_of (the candidate)) (fix_key_of (the existing)))
     in map_option (\<lambda>n. let c2 = (if n then c1\<lparr>ce_fixed := candidate\<rparr> else c1)
          in c2\<lparr>ce_suppressed := ce_suppressed c2 \<and> ce_suppressed entry\<rparr>) newer)"

fun merge_into :: "(string \<times> cve_entry) list \<Rightarrow> cve_entry \<Rightarrow> (string \<times> cve_entry) list option" where
  "merge_into [] e = Some [(entry_key e, e)]"
| "merge_into ((k, c) # m) e =
     (if k = entry_key e then map_option (\<lambda>c'. (k, c') # m) (merge_entry c e)
      else map_option (Cons (k, c)) (merge_into m e))"

fun merge_all :: "(string \<times> cve_entry) list \<Rightarrow> cve_entry list \<Rightarrow> (string \<times> cve_entry) list option" where
  "merge_all m [] = Some m"
| "merge_all m (e # es) = Option.bind (merge_into m e) (\<lambda>m'. merge_all m' es)"

definition by_score :: "cve_entry list \<Rightarrow> cve_entry list" where
  \<comment> \<open>\<open>sorted(..., key=score, reverse=True)\<close>, which keeps the order of equals\<close>
  "by_score es = sort_key (\<lambda>e. - score_of e) es"

definition dedupe_by_cve :: "cve_entry list \<Rightarrow> cve_entry list option" where
  "dedupe_by_cve entries = map_option (\<lambda>m. by_score (map snd m)) (merge_all [] entries)"

definition installable_version :: "'v packaging \<Rightarrow> string \<Rightarrow> string option \<Rightarrow> bool" where
  \<comment> \<open>\<open>None\<close> is any value that is not a string\<close>
  "installable_version pk eco value = (case value of None \<Rightarrow> False | Some v \<Rightarrow>
     v \<noteq> [] \<and> v = py_strip v \<and> (if eco = ''pypi'' then parse_pypi_version pk v \<noteq> None else is_valid_semver v))"

text \<open>
  \<open>list({*fixes})\<close> has no duplicates and no defined order; the model takes the order of first
  appearance.
\<close>

definition lowest_clearing_version ::
  "('v :: linorder) packaging \<Rightarrow> string \<Rightarrow> cve_entry list \<Rightarrow> string option \<Rightarrow> string option" where
  "lowest_clearing_version pk eco cves current = (let
     fixes = List.map_filter ce_fixed (filter (\<lambda>c. installable_version pk eco (ce_fixed c)) cves)
     in if fixes = [] then None else (let ordered = sort_versions_for pk eco (remdups fixes) False
       in if ordered = [] then None else (let target = last ordered
         in if truthy current \<and> (let ranked = sort_versions_for pk eco [the current, target] False
                in ranked \<noteq> [] \<and> last ranked = the current)
            then None else Some target)))"

end
