(* ===== verification/Vulns_Spec.thy ===== *)
theory Vulns_Spec
  imports Vulns Naming_Spec
begin

section \<open>Presenting advisories: one per CVE, and an upgrade that clears them\<close>

text \<open>
  What is shown has one entry per CVE with the worst of its scores; the upgrade that is proposed is
  the highest of the fixes, never a downgrade. The contract of the version sorts carries the second
  part. Two ways in which the merge departs from its comments are evaluated at the end.
\<close>

subsection \<open>Merging\<close>

lemma merge_entry_shape:
  assumes "merge_entry c e = Some c'"
  shows "\<exists>c1 f. (if score_of c < score_of e then c1 = e\<lparr>ce_fixed := or_else (ce_fixed c) (ce_fixed e)\<rparr> else c1 = c) \<and>
    c' = c1\<lparr>ce_fixed := f, ce_suppressed := ce_suppressed c1 \<and> ce_suppressed e\<rparr> \<and> f \<in> {ce_fixed c1, ce_fixed e}"
proof -
  define c1 where "c1 = (if score_of c < score_of e then e\<lparr>ce_fixed := or_else (ce_fixed c) (ce_fixed e)\<rparr> else c)"
  obtain n where "c' = (let c2 = (if n then c1\<lparr>ce_fixed := ce_fixed e\<rparr> else c1)
      in c2\<lparr>ce_suppressed := ce_suppressed c2 \<and> ce_suppressed e\<rparr>)"
    using assms unfolding merge_entry_def Let_def c1_def [symmetric] by auto
  then have "c' = c1\<lparr>ce_fixed := (if n then ce_fixed e else ce_fixed c1), ce_suppressed := ce_suppressed c1 \<and> ce_suppressed e\<rparr>"
    by (simp add: Let_def)
  then show ?thesis
    by (intro exI [of _ c1] exI [of _ "if n then ce_fixed e else ce_fixed c1"]) (simp add: c1_def)
qed

lemma merge_entry_facts:
  assumes "merge_entry c e = Some c'"
  shows "score_of c' = max (score_of c) (score_of e)"
    "ce_suppressed c \<Longrightarrow> ce_suppressed e \<Longrightarrow> ce_suppressed c'"
    "entry_key c = entry_key e \<Longrightarrow> entry_key c' = entry_key e"
proof -
  obtain c1 f where s: "if score_of c < score_of e then c1 = e\<lparr>ce_fixed := or_else (ce_fixed c) (ce_fixed e)\<rparr> else c1 = c"
      and c': "c' = c1\<lparr>ce_fixed := f, ce_suppressed := ce_suppressed c1 \<and> ce_suppressed e\<rparr>"
    using merge_entry_shape [OF assms] by blast
  show "score_of c' = max (score_of c) (score_of e)"
    using s by (simp add: c' score_of_def split: if_splits)
  show "ce_suppressed c \<Longrightarrow> ce_suppressed e \<Longrightarrow> ce_suppressed c'"
    using s by (simp add: c' split: if_splits)
  show "entry_key c = entry_key e \<Longrightarrow> entry_key c' = entry_key e"
    using s by (simp add: c' entry_key_def split: if_splits)
qed

definition worst_in :: "cve_entry list \<Rightarrow> string \<Rightarrow> rat \<Rightarrow> bool" where
  "worst_in es k s = ((\<exists>e \<in> set es. entry_key e = k \<and> score_of e = s) \<and> (\<forall>e \<in> set es. entry_key e = k \<longrightarrow> score_of e \<le> s))"

text \<open>The dict of merged entries, key by key.\<close>

lemma merge_into_map:
  "merge_into m e = Some m' \<Longrightarrow> map_of m' k = (if k = entry_key e
     then (case map_of m k of None \<Rightarrow> Some e | Some c \<Rightarrow> merge_entry c e) else map_of m k)"
  by (induction m e arbitrary: m' rule: merge_into.induct) (auto split: if_splits option.splits)

lemma merge_into_Some: "merge_into m e = Some m' \<Longrightarrow> map_of m (entry_key e) = Some c \<Longrightarrow> merge_entry c e \<noteq> None"
  by (induction m e arbitrary: m' rule: merge_into.induct) (auto split: if_splits)

lemma merge_into_fst: "merge_into m e = Some m' \<Longrightarrow> map fst m' = (if entry_key e \<in> fst ` set m then map fst m else map fst m @ [entry_key e])"
proof (induction m e arbitrary: m' rule: merge_into.induct)
  case (2 k c m e)
  then show ?case by (cases "k = entry_key e") (force simp: image_iff)+
qed simp

definition merged :: "cve_entry list \<Rightarrow> (string \<times> cve_entry) list \<Rightarrow> bool" where
  "merged es m = (distinct (map fst m) \<and> fst ` set m = entry_key ` set es \<and>
     (\<forall>k c. map_of m k = Some c \<longrightarrow> entry_key c = k \<and> worst_in es k (score_of c) \<and>
        ((\<forall>e \<in> set es. entry_key e = k \<longrightarrow> ce_suppressed e) \<longrightarrow> ce_suppressed c)))"

lemma merged_step:
  assumes m: "merged es m" and run: "merge_into m e = Some m'"
  shows "merged (es @ [e]) m'"
proof -
  have d: "distinct (map fst m)" "fst ` set m = entry_key ` set es" using m by (simp_all add: merged_def)
  have "distinct (map fst m')" using d(1) by (simp add: merge_into_fst [OF run])
  moreover have "fst ` set m' = entry_key ` set (es @ [e])"
  proof -
    have "set (map fst m') = insert (entry_key e) (set (map fst m))"
      using merge_into_fst [OF run] by (cases "entry_key e \<in> fst ` set m") auto
    then show ?thesis using d(2) by simp
  qed
  ultimately have keys: "distinct (map fst m')" "fst ` set m' = entry_key ` set (es @ [e])" by blast+
  have "entry_key c = k \<and> worst_in (es @ [e]) k (score_of c) \<and>
      ((\<forall>x \<in> set (es @ [e]). entry_key x = k \<longrightarrow> ce_suppressed x) \<longrightarrow> ce_suppressed c)" if c: "map_of m' k = Some c" for k c
  proof (cases "k = entry_key e")
    case False
    then have "map_of m k = Some c" using c merge_into_map [OF run, of k] by simp
    then show ?thesis using m False by (auto simp: merged_def worst_in_def)
  next
    case k: True
    show ?thesis
    proof (cases "map_of m k")
      case None
      then have "c = e" using c k merge_into_map [OF run, of k] by simp
      moreover have "k \<notin> entry_key ` set es" using None m by (simp add: merged_def map_of_eq_None_iff)
      ultimately show ?thesis using k by (auto simp: worst_in_def image_iff)
    next
      case (Some c0)
      then have mc: "merge_entry c0 e = Some c" using c k merge_into_map [OF run, of k] by simp
      have c0: "entry_key c0 = k" "worst_in es k (score_of c0)"
          "(\<forall>x \<in> set es. entry_key x = k \<longrightarrow> ce_suppressed x) \<longrightarrow> ce_suppressed c0"
        using m Some by (auto simp: merged_def)
      note f = merge_entry_facts [OF mc]
      have "worst_in (es @ [e]) k (score_of c)"
        using c0(2) k unfolding f(1) worst_in_def by (auto simp: max_def)
      then show ?thesis using c0 f(2,3) k by auto
    qed
  qed
  then show ?thesis using keys by (simp add: merged_def)
qed

lemma merge_all_merged: "merge_all m fs = Some m' \<Longrightarrow> merged es m \<Longrightarrow> merged (es @ fs) m'"
proof (induction fs arbitrary: es m)
  case (Cons f fs)
  then obtain m1 where "merge_into m f = Some m1" "merge_all m1 fs = Some m'" by (auto simp: bind_eq_Some_conv)
  then show ?case using Cons.IH [of m1 "es @ [f]"] merged_step [OF Cons.prems(2)] by simp
qed simp

lemma by_score_facts: "set (by_score es) = set es" "mset (by_score es) = mset es"
    "sorted (map (\<lambda>e. - score_of e) (by_score es))"
  by (simp_all add: by_score_def)

text \<open>
  The advisories shown for a version have one entry per CVE and none is lost; each carries the
  worst score any record of that CVE has; the list is ordered from the worst down; and an entry all
  of whose records are suppressed is suppressed.
\<close>

theorem one_entry_per_cve:
  assumes "dedupe_by_cve entries = Some shown"
  shows "distinct (map entry_key shown) \<and> set (map entry_key shown) = set (map entry_key entries) \<and>
    list_all (\<lambda>e. worst_in entries (entry_key e) (score_of e)) shown \<and>
    sorted (rev (map score_of shown)) \<and>
    list_all (\<lambda>e. ce_suppressed e \<or> list_ex (\<lambda>x. entry_key x = entry_key e \<and> \<not> ce_suppressed x) entries) shown"
proof -
  obtain m where m: "merge_all [] entries = Some m" and shown: "shown = by_score (map snd m)"
    using assms by (auto simp: dedupe_by_cve_def)
  have mg: "merged entries m" using merge_all_merged [OF m, of "[]"] by (simp add: merged_def)
  then have d: "distinct (map fst m)" by (simp add: merged_def)
  have in_m: "map_of m k = Some c" if "(k, c) \<in> set m" for k c using d that by (rule map_of_is_SomeI)
  have key: "entry_key c = k" if "(k, c) \<in> set m" for k c using mg in_m [OF that] by (simp add: merged_def)
  then have fst_m: "map entry_key (map snd m) = map fst m" by auto
  have "mset (map entry_key shown) = mset (map fst m)"
    unfolding fst_m [symmetric] shown by (metis by_score_facts(2) mset_map)
  then have keys: "distinct (map entry_key shown)" "set (map entry_key shown) = fst ` set m"
    using d by (metis mset_eq_imp_distinct_iff, metis mset_eq_setD list.set_map)
  have elem: "\<exists>k. map_of m k = Some e" if "e \<in> set shown" for e
  proof -
    have "e \<in> snd ` set m" using that by (simp add: shown by_score_facts)
    then show ?thesis using in_m by force
  qed
  have w: "worst_in entries (entry_key e) (score_of e)"
      "ce_suppressed e \<or> list_ex (\<lambda>x. entry_key x = entry_key e \<and> \<not> ce_suppressed x) entries" if e: "e \<in> set shown" for e
  proof -
    obtain k where "map_of m k = Some e" using elem [OF e] by blast
    then have "entry_key e = k \<and> worst_in entries k (score_of e) \<and>
        ((\<forall>x \<in> set entries. entry_key x = k \<longrightarrow> ce_suppressed x) \<longrightarrow> ce_suppressed e)"
      using mg unfolding merged_def by blast
    then show "worst_in entries (entry_key e) (score_of e)"
        "ce_suppressed e \<or> list_ex (\<lambda>x. entry_key x = entry_key e \<and> \<not> ce_suppressed x) entries"
      by (auto simp: list_ex_iff)
  qed
  have "sorted (rev (map score_of shown))"
    using by_score_facts(3) [of "map snd m"] unfolding shown [symmetric]
    by (simp add: sorted_wrt_rev sorted_map rev_map)
  then show ?thesis using keys w mg by (simp add: merged_def list_all_iff)
qed

definition plain_entry :: "string \<Rightarrow> rat \<Rightarrow> string option \<Rightarrow> bool \<Rightarrow> cve_entry" where
  "plain_entry cve score fixed hidden = \<lparr>ce_cve = Some cve, ce_osv = None, ce_score = Some score, ce_severity = None,
     ce_summary = None, ce_fixed = fixed, ce_suppressed = hidden, ce_url = []\<rparr>"

lemma plain_entry_simps [simp]:
  "entry_key (plain_entry (x # cve) s f b) = x # cve" "score_of (plain_entry cve s f b) = s"
  "ce_fixed (plain_entry cve s f b) = f" "ce_suppressed (plain_entry cve s f b) = b"
  by (simp_all add: plain_entry_def entry_key_def or_else_def truthy_def score_of_def)

lemma one_entry_per_cve_witness:
  "\<exists>shown. dedupe_by_cve [plain_entry ''C'' 7 None False, plain_entry ''C'' 8 None False, plain_entry ''D'' 5 None False] = Some shown
    \<and> list_all (\<lambda>e. worst_in [plain_entry ''C'' 7 None False, plain_entry ''C'' 8 None False, plain_entry ''D'' 5 None False]
        (entry_key e) (score_of e)) shown"
proof -
  have "\<exists>shown. dedupe_by_cve [plain_entry ''C'' 7 None False, plain_entry ''C'' 8 None False, plain_entry ''D'' 5 None False] = Some shown"
    by (simp add: dedupe_by_cve_def merge_entry_def truthy_def)
  then show ?thesis using one_entry_per_cve by blast
qed

text \<open>
  A record of a CVE that is suppressed hides another record of it that is not, when its score is the
  higher: \<open>update\<close> overwrites the flag before the two are combined.
\<close>

lemma suppressed_record_wins:
  "\<exists>e. dedupe_by_cve [plain_entry ''C'' 7 None False, plain_entry ''C'' 8 None True] = Some [e] \<and> ce_suppressed e"
proof -
  have "ce_suppressed (plain_entry ''C'' 8 None True\<lparr>ce_fixed := x, ce_suppressed := y\<rparr>) = y" for x y by simp
  then show ?thesis
    by (simp add: dedupe_by_cve_def merge_entry_def truthy_def by_score_def or_else_def Let_def)
qed

text \<open>
  Every version of PyPI that is not also a semantic version compares as a string: \<open>2.9\<close> is kept as
  the fix although another record of the CVE is only fixed in \<open>2.10\<close>.
\<close>

lemma pypi_fixes_compare_as_strings: "fix_gt (fix_key_of ''2.10'') (fix_key_of ''2.9'') = Some False"
proof -
  have "semver_parse ''2.9'' = None" "semver_parse ''2.10'' = None" by code_simp+
  moreover have "\<not> (''2.9'' < ''2.10'')" by code_simp
  ultimately show ?thesis by (simp add: fix_key_of_def)
qed

subsection \<open>The version to upgrade to\<close>

definition not_above :: "('v :: linorder) packaging \<Rightarrow> string \<Rightarrow> string \<Rightarrow> string \<Rightarrow> bool" where
  "not_above pk eco a b = (if eco = ''pypi'' then pypi_sort_key pk a \<le> pypi_sort_key pk b
     else semver_sort_key a \<le> semver_sort_key b)"

context version_sort begin

lemma last_is_greatest: "vs \<noteq> [] \<Longrightarrow> last (srt vs) \<in> set vs \<and> (\<forall>v \<in> set vs. key v \<le> key (last (srt vs)))"
  using srt_last [of vs] by blast

lemma last_of_two:
  assumes "last (srt [c, t]) \<noteq> c"
  shows "c \<noteq> t" "key c \<le> key t"
  using assms last_is_greatest [of "[c, t]"] by auto

end

lemma sort_versions_for_eq:
  "sort_versions_for pk eco vs False = (if eco = ''pypi'' then sort_pypi_versions pk vs else sort_semver vs)"
  by (simp add: sort_versions_for_def)

lemma last_version:
  "vs \<noteq> [] \<Longrightarrow> last (sort_versions_for pk eco vs False) \<in> set vs \<and>
     (\<forall>v \<in> set vs. not_above pk eco v (last (sort_versions_for pk eco vs False)))"
  using pypi_sort.last_is_greatest [of vs pk] npm_sort.last_is_greatest [of vs]
  by (simp add: sort_versions_for_eq not_above_def)

lemma later_of_two:
  "last (sort_versions_for pk eco [c, t] False) \<noteq> c \<Longrightarrow> c \<noteq> t \<and> not_above pk eco c t"
  using pypi_sort.last_of_two [of pk c t] npm_sort.last_of_two [of c t]
  by (simp add: sort_versions_for_eq not_above_def split: if_splits)

lemma sort_versions_nil [simp]: "sort_versions_for pk eco vs False = [] \<longleftrightarrow> vs = []"
  using pypi_sort.srt_length [of pk vs] npm_sort.srt_length [of vs]
  by (auto simp: sort_versions_for_eq simp flip: length_0_conv)

text \<open>
  C37: the upgrade proposed for a version is the installable fix of one of its CVEs, no installable fix
  of any of its CVEs lies above it in the ecosystem's own order, so that it clears every CVE that has one,
  and it is neither the current version nor below it. CVEs without a fix, or whose fix names no version
  that can be installed, have no say in it and may remain.
\<close>

theorem proposed_upgrade_clears:
  assumes "lowest_clearing_version pk eco cves current = Some target"
  shows "list_ex (\<lambda>c. ce_fixed c = Some target \<and> installable_version pk eco (ce_fixed c)) cves \<and>
    list_all (\<lambda>c. case ce_fixed c of None \<Rightarrow> True | Some v \<Rightarrow>
      installable_version pk eco (Some v) = False \<or> not_above pk eco v target) cves \<and>
    (case current of None \<Rightarrow> True | Some c \<Rightarrow> c = [] \<or> target \<noteq> c \<and> not_above pk eco c target)"
proof -
  define fs where "fs = List.map_filter ce_fixed (filter (\<lambda>c. installable_version pk eco (ce_fixed c)) cves)"
  have in_fixes: "v \<in> set fs \<longleftrightarrow> (\<exists>c \<in> set cves. installable_version pk eco (ce_fixed c) \<and> ce_fixed c = Some v)" for v
    unfolding fs_def by (induction cves) (auto simp: List.map_filter_simps split: option.splits)
  have ne: "fs \<noteq> []" and t: "target = last (sort_versions_for pk eco (remdups fs) False)"
    and now: "\<not> (truthy current \<and> last (sort_versions_for pk eco [the current, target] False) = the current)"
    using assms unfolding lowest_clearing_version_def fs_def [symmetric] Let_def by (auto split: if_splits)
  have top: "target \<in> set fs" "\<forall>v \<in> set fs. not_above pk eco v target"
    using last_version [of "remdups fs" pk eco] ne unfolding t by auto
  have "case current of None \<Rightarrow> True | Some c \<Rightarrow> c = [] \<or> target \<noteq> c \<and> not_above pk eco c target"
    using now later_of_two [of pk eco "the current" target] by (auto simp: truthy_def split: option.splits)
  moreover have "list_ex (\<lambda>c. ce_fixed c = Some target \<and> installable_version pk eco (ce_fixed c)) cves"
    using top(1) in_fixes by (auto simp: list_ex_iff)
  moreover have "list_all (\<lambda>c. case ce_fixed c of None \<Rightarrow> True | Some v \<Rightarrow>
      installable_version pk eco (Some v) = False \<or> not_above pk eco v target) cves"
    using top(2) in_fixes by (fastforce simp: list_all_iff split: option.splits)
  ultimately show ?thesis by blast
qed

definition numbered :: "nat packaging" where
  "numbered = \<lparr>version_of = (\<lambda>s. Some (nat_of_digits s)), version_str = show_nat, canonicalize_version = Some,
     canonicalize_name = id, parse_wheel_filename = (\<lambda>_. None), parse_sdist_filename = (\<lambda>_. None)\<rparr>"

lemma proposed_upgrade_clears_witness:
  "lowest_clearing_version numbered ''pypi'' [plain_entry ''C'' 7 (Some ''2'') False] (Some ''1'') = Some ''2''
   \<and> not_above numbered ''pypi'' ''1'' ''2''"
proof -
  have "lowest_clearing_version numbered ''pypi'' [plain_entry ''C'' 7 (Some ''2'') False] (Some ''1'') = Some ''2''"
    by (simp add: lowest_clearing_version_def installable_version_def parse_pypi_version_def numbered_def py_strip_def
        py_lstrip_def py_rstrip_def is_space_def sort_versions_for_def sort_pypi_versions_def List.map_filter_simps
        truthy_def nat_of_digits_def digit_val_def)
  from this proposed_upgrade_clears [OF this] show ?thesis by simp
qed

end
