(* ===== verification/Device_Login.thy ===== *)
theory Device_Login
  imports Identity
begin

section \<open>Logging in from the command line (\<open>api/cli.py\<close>)\<close>

text \<open>
  The device authorization: the command line starts a login and gets two codes, a long one it polls
  with and a short one a person types into the browser and approves; the next poll hands over a
  token. The state is the table of pending logins and the table of tokens. The random draws, the
  clock (seconds), the hash functions and the answers of the rate limiter are arguments; an error
  is the left part of the result, beside the state it leaves. Polling and approving select the row
  without locking it and write some columns of it later, so each is a look and a finish: what the
  finish decides from is the row as it was at the look, what it writes to is the row as it is.
\<close>

definition USER_CODE_ALPHABET :: string where
  "USER_CODE_ALPHABET = ''ABCDEFGHJKLMNPQRSTUVWXYZ23456789''"

definition USER_CODE_LEN :: nat where "USER_CODE_LEN = 8"

definition CLI_SCOPES :: "string list" where
  "CLI_SCOPES = [''read'', ''publish'', ''docker:push'', ''admin'']"

definition DEVICE_CODE_TTL :: int where "DEVICE_CODE_TTL = 600"

definition POLL_INTERVAL_SECONDS :: int where "POLL_INTERVAL_SECONDS = 3"

record device_row =
  dr_hash :: string
  dr_code :: string
  dr_created :: int
  dr_expires :: int
  dr_requested :: "string list"
  dr_hostname :: "string option"
  dr_platform :: "string option"
  dr_ip :: "string option"
  dr_user :: "int option"
  dr_approved :: "int option"
  dr_denied :: bool
  dr_token_id :: "int option"
  dr_plain :: "string option"
  dr_collected :: "int option"

record cli_token = token +
  tok_name :: string

record audit_entry =
  au_action :: string
  au_user :: int
  au_name :: string
  au_target :: "string option"
  au_ip :: "string option"

record login_db =
  devices :: "device_row list"
  minted :: "cli_token list"
  people :: "user list"
  audit_log :: "audit_entry list"

datatype login_error =
    TooManyRequests | NoUserCode | ExpiredToken | AccessDenied | UnknownCode | AlreadyApproved
  | RowGone \<comment> \<open>\<open>StaleDataError\<close>: the row to update is not there\<close>
  | Guarded refusal

fun login_status :: "login_error \<Rightarrow> nat" where
  "login_status TooManyRequests = 429"
| "login_status NoUserCode = 500"
| "login_status ExpiredToken = 400"
| "login_status AccessDenied = 403"
| "login_status UnknownCode = 404"
| "login_status AlreadyApproved = 409"
| "login_status RowGone = 500"
| "login_status (Guarded r) = refusal_status r"

subsection \<open>Codes\<close>

definition make_user_code :: "string \<Rightarrow> string" where
  \<comment> \<open>the argument is the eight letters drawn\<close>
  "make_user_code drawn = take 4 drawn @ ''-'' @ drop 4 drawn"

definition upper_all :: "string \<Rightarrow> string" where
  \<comment> \<open>\<open>str.upper\<close>, where the sharp s becomes two letters\<close>
  "upper_all s = concat (map (\<lambda>c. if c = CHR 0xDF then ''SS'' else [upper_char c]) s)"

definition normalize_user_code :: "string \<Rightarrow> string" where
  "normalize_user_code value = (let cleaned = filter (\<lambda>c. c \<in> set USER_CODE_ALPHABET) (upper_all value) in
     if length cleaned \<noteq> USER_CODE_LEN then [] else take 4 cleaned @ ''-'' @ drop 4 cleaned)"

definition code_row :: "string \<Rightarrow> login_db \<Rightarrow> device_row option" where
  "code_row code db = find (\<lambda>d. dr_code d = code) (devices db)"

definition hash_row :: "string \<Rightarrow> login_db \<Rightarrow> device_row option" where
  "hash_row h db = find (\<lambda>d. dr_hash d = h) (devices db)"

definition expired :: "int \<Rightarrow> device_row \<Rightarrow> bool" where
  "expired now d = (dr_expires d < now)"

definition drop_row :: "device_row \<Rightarrow> login_db \<Rightarrow> login_db" where
  "drop_row d db = db\<lparr>devices := filter (\<lambda>x. dr_hash x \<noteq> dr_hash d) (devices db)\<rparr>"

definition change_row :: "device_row \<Rightarrow> (device_row \<Rightarrow> device_row) \<Rightarrow> login_db \<Rightarrow> login_db" where
  \<comment> \<open>an update of some columns; the row is found by its key\<close>
  "change_row d f db = db\<lparr>devices := map (\<lambda>x. if dr_hash x = dr_hash d then f x else x) (devices db)\<rparr>"

definition row_there :: "device_row \<Rightarrow> login_db \<Rightarrow> bool" where
  "row_there d db = (hash_row (dr_hash d) db \<noteq> None)"

definition sorted_set :: "string list \<Rightarrow> string list" where
  "sorted_set xs = sort (remdups xs)"

definition or_read :: "string list \<Rightarrow> string list" where
  "or_read xs = (if xs = [] then [''read''] else xs)"

definition clip :: "string option \<Rightarrow> string option" where
  \<comment> \<open>\<open>(x or "")[:255] or None\<close>\<close>
  "clip x = (case x of None \<Rightarrow> None | Some s \<Rightarrow> if s = [] then None else Some (take 255 s))"

subsection \<open>Starting\<close>

record login_request =
  lr_hostname :: "string option"
  lr_platform :: "string option"
  lr_scopes :: "string list"
  lr_ip :: "string option"

record login_start =
  ls_device_code :: string
  ls_user_code :: string
  ls_expires_in :: int
  ls_interval :: int

text \<open>\<open>draws\<close> are the random letters of the five attempts at a code that is not taken.\<close>

definition device_start ::
  "(string \<Rightarrow> string) \<Rightarrow> bool \<Rightarrow> int \<Rightarrow> string \<Rightarrow> string list \<Rightarrow> login_request \<Rightarrow> login_db \<Rightarrow>
   (login_error + login_start) \<times> login_db" where
  "device_start hash allowed now device_code draws r db = (if \<not> allowed then (Inl TooManyRequests, db) else (let
     reaped = db\<lparr>devices := filter (\<lambda>d. \<not> expired now d) (devices db)\<rparr>
     in (case find (\<lambda>code. code_row code reaped = None) (map make_user_code (take 5 draws)) of
       None \<Rightarrow> (Inl NoUserCode, db)
     | Some code \<Rightarrow>
         (Inr \<lparr>ls_device_code = device_code, ls_user_code = code, ls_expires_in = DEVICE_CODE_TTL,
               ls_interval = POLL_INTERVAL_SECONDS\<rparr>,
          reaped\<lparr>devices := devices reaped @ [\<lparr>dr_hash = hash device_code, dr_code = code, dr_created = now,
            dr_expires = now + DEVICE_CODE_TTL,
            dr_requested = sorted_set (or_read (filter (\<lambda>s. s \<in> set CLI_SCOPES) (lr_scopes r))),
            dr_hostname = clip (lr_hostname r), dr_platform = clip (lr_platform r), dr_ip = lr_ip r,
            dr_user = None, dr_approved = None, dr_denied = False, dr_token_id = None, dr_plain = None,
            dr_collected = None\<rparr>]\<rparr>))))"

subsection \<open>Polling\<close>

datatype poll_reply = Pending | Complete string "string option"

definition username_of :: "login_db \<Rightarrow> int option \<Rightarrow> string option" where
  "username_of db uid = (case uid of None \<Rightarrow> None
     | Some i \<Rightarrow> if i = 0 then None else map_option u_name (find (\<lambda>u. acc_id u = i) (people db)))"

definition burn :: "int \<Rightarrow> device_row \<Rightarrow> device_row" where
  "burn now d = d\<lparr>dr_plain := None, dr_collected := Some now\<rparr>"

definition poll_finish :: "int \<Rightarrow> device_row option \<Rightarrow> login_db \<Rightarrow> (login_error + poll_reply) \<times> login_db" where
  \<comment> \<open>from the row selected, up to the commit\<close>
  "poll_finish now found db = (case found of
       None \<Rightarrow> (Inl ExpiredToken, db)
     | Some d \<Rightarrow>
         if expired now d then (Inl ExpiredToken, drop_row d db)
         else if dr_denied d then (Inl AccessDenied, drop_row d db)
         else if dr_approved d = None then (Inr Pending, db)
         else (case dr_plain d of
           None \<Rightarrow> (Inl ExpiredToken, db)
         | Some tok \<Rightarrow> if \<not> row_there d db then (Inl RowGone, db)
             else (Inr (Complete tok (username_of db (dr_user d))), change_row d (burn now) db)))"

definition device_poll ::
  "(string \<Rightarrow> string) \<Rightarrow> bool \<Rightarrow> int \<Rightarrow> string \<Rightarrow> login_db \<Rightarrow> (login_error + poll_reply) \<times> login_db" where
  \<comment> \<open>a poll nobody interrupts\<close>
  "device_poll hash allowed now device_code db = (if \<not> allowed then (Inl TooManyRequests, db)
     else poll_finish now (hash_row (hash device_code) db) db)"

subsection \<open>The approval screen\<close>

record login_view =
  lv_code :: string
  lv_hostname :: "string option"
  lv_platform :: "string option"
  lv_ip :: "string option"
  lv_scopes :: "string list"
  lv_requested_at :: int
  lv_expires_at :: int
  lv_approved :: bool

definition open_row :: "int \<Rightarrow> string \<Rightarrow> login_db \<Rightarrow> login_error + device_row" where
  \<comment> \<open>the lookup both endpoints of the browser make\<close>
  "open_row now user_code db = (let code = normalize_user_code user_code in
     if code = [] then Inl UnknownCode
     else (case code_row code db of
       None \<Rightarrow> Inl UnknownCode
     | Some d \<Rightarrow> if expired now d then Inl UnknownCode else Inr d))"

definition device_pending ::
  "bool \<Rightarrow> int \<Rightarrow> identity \<Rightarrow> string \<Rightarrow> login_db \<Rightarrow> login_error + login_view" where
  "device_pending allowed now who user_code db = (case require_user who of
     Inl e \<Rightarrow> Inl (Guarded e)
   | Inr _ \<Rightarrow> if \<not> allowed then Inl TooManyRequests else (case open_row now user_code db of
       Inl e \<Rightarrow> Inl e
     | Inr d \<Rightarrow> Inr \<lparr>lv_code = dr_code d, lv_hostname = dr_hostname d, lv_platform = dr_platform d, lv_ip = dr_ip d,
         lv_scopes = or_read (dr_requested d), lv_requested_at = dr_created d, lv_expires_at = dr_expires d,
         lv_approved = (dr_approved d \<noteq> None)\<rparr>))"

subsection \<open>Approving\<close>

definition granted_scopes :: "string list \<Rightarrow> identity \<Rightarrow> user \<Rightarrow> string list" where
  "granted_scopes wanted who u = (let
     g = or_read (filter (\<lambda>s. s \<in> set CLI_SCOPES) wanted);
     g = (if \<not> acc_admin u then filter (\<lambda>s. s \<noteq> ''admin'') g else g);
     g = (if \<not> (can_publish u \<or> acc_admin u) then filter (\<lambda>s. s \<notin> {''publish'', ''docker:push''}) g else g);
     g = (case i_token who of None \<Rightarrow> g | Some t \<Rightarrow> filter (\<lambda>s. s \<in> set (tok_scopes t)) g)
     in or_read g)"

record approval =
  ap_code :: string
  ap_approve :: bool
  ap_scopes :: "string list"

text \<open>
  \<open>drawn\<close> is the public id and the secret of the new token, \<open>tid\<close> its row id, \<open>ttl_days\<close> the
  configured lifetime.
\<close>

definition approved_by :: "int \<Rightarrow> int \<Rightarrow> int \<Rightarrow> string \<Rightarrow> device_row \<Rightarrow> device_row" where
  "approved_by uid now tid full d =
     d\<lparr>dr_user := Some uid, dr_approved := Some now, dr_token_id := Some tid, dr_plain := Some full\<rparr>"

definition approve_finish ::
  "(string \<Rightarrow> string) \<Rightarrow> string \<Rightarrow> int \<Rightarrow> int \<Rightarrow> string \<times> string \<Rightarrow> int \<Rightarrow> string option \<Rightarrow> identity \<Rightarrow>
   approval \<Rightarrow> device_row \<Rightarrow> login_db \<Rightarrow> (login_error + string list option) \<times> login_db" where
  \<comment> \<open>from the row selected, up to the commit\<close>
  "approve_finish hash tag ttl_days now drawn tid ip who a d db =
     (if dr_approved d \<noteq> None then (Inl AlreadyApproved, db)
      else (let u = the (i_user who) in
        if \<not> ap_approve a then
          (if \<not> dr_denied d \<and> \<not> row_there d db then (Inl RowGone, db)
           else (Inr None, (change_row d (dr_denied_update (\<lambda>_. True)) db)
             \<lparr>audit_log := audit_log db @ [\<lparr>au_action = ''auth.cli.denied'', au_user = acc_id u, au_name = u_name u,
                au_target = None, au_ip = ip\<rparr>]\<rparr>))
        else if \<not> row_there d db then (Inl RowGone, db)
        else (let granted = sorted_set (granted_scopes (ap_scopes a) who u);
                  (full, prefix, secret_hash) = generate_token hash tag (fst drawn) (snd drawn);
                  tok = \<lparr>tok_id = tid, tok_user = acc_id u, tok_scopes = granted, repo_prefixes = [],
                    revoked = False, expires_at = (if ttl_days \<noteq> 0 then Some (now + ttl_days * 86400) else None),
                    tok_prefix = prefix, tok_hash = secret_hash, tok_last = None,
                    tok_name = ''cli@'' @ (case dr_hostname d of Some (c # cs) \<Rightarrow> c # cs | _ \<Rightarrow> ''unknown'')\<rparr>
          in (Inr (Some granted), (change_row d (approved_by (acc_id u) now tid full) db)\<lparr>minted := minted db @ [tok],
               audit_log := audit_log db @ [\<lparr>au_action = ''auth.cli.approved'', au_user = acc_id u, au_name = u_name u,
                 au_target = Some (show_int tid), au_ip = ip\<rparr>]\<rparr>))))"

definition device_approve ::
  "(string \<Rightarrow> string) \<Rightarrow> string \<Rightarrow> int \<Rightarrow> bool \<Rightarrow> int \<Rightarrow> string \<times> string \<Rightarrow> int \<Rightarrow> string option \<Rightarrow> identity \<Rightarrow>
   approval \<Rightarrow> login_db \<Rightarrow> (login_error + string list option) \<times> login_db" where
  \<comment> \<open>an approval nobody interrupts\<close>
  "device_approve hash tag ttl_days allowed now drawn tid ip who a db = (case require_primary_credential who of
     Inl e \<Rightarrow> (Inl (Guarded e), db)
   | Inr _ \<Rightarrow> if \<not> allowed then (Inl TooManyRequests, db) else (case open_row now (ap_code a) db of
       Inl e \<Rightarrow> (Inl e, db)
     | Inr d \<Rightarrow> approve_finish hash tag ttl_days now drawn tid ip who a d db))"

end
