(* ===== verification/Device_Login_Spec.thy ===== *)
theory Device_Login_Spec
  imports Device_Login
begin

section \<open>Logging in from the command line: what a login can yield\<close>

text \<open>
  A run of the protocol is a history of events over the table of logins, with the polls and approvals
  that have looked at their row and not finished. In every run a token is handed over only after
  someone approved a login with a primary credential, with no more authority than the person has, and
  to no poll that looked after it was handed over first.
\<close>

subsection \<open>Granting\<close>

definition within_authority :: "identity \<Rightarrow> string list \<Rightarrow> bool" where
  \<comment> \<open>reading alone, or scopes the approving credential holds and the person may have\<close>
  "within_authority who granted = (case i_user who of None \<Rightarrow> False | Some u \<Rightarrow> granted = [''read''] \<or>
     list_all (\<lambda>s. s \<in> set CLI_SCOPES \<and> (case i_token who of None \<Rightarrow> True | Some t \<Rightarrow> s \<in> set (tok_scopes t))) granted \<and>
     (''admin'' \<notin> set granted \<or> acc_admin u) \<and>
     (''publish'' \<notin> set granted \<and> ''docker:push'' \<notin> set granted \<or> can_publish u \<or> acc_admin u))"

lemma set_or_read: "s \<in> set (or_read xs) \<Longrightarrow> s = ''read'' \<or> s \<in> set xs"
  by (auto simp: or_read_def split: if_splits)

lemma set_sorted_set [simp]: "set (sorted_set xs) = set xs"
  by (simp add: sorted_set_def)

lemma granted_within:
  assumes "i_user who = Some u"
  shows "within_authority who (sorted_set (granted_scopes wanted who u))"
proof -
  define g0 where "g0 = or_read (filter (\<lambda>s. s \<in> set CLI_SCOPES) wanted)"
  define g where "g = filter (\<lambda>s. (acc_admin u \<or> s \<noteq> ''admin'') \<and> (can_publish u \<or> acc_admin u \<or> s \<notin> {''publish'', ''docker:push''}) \<and>
    (case i_token who of None \<Rightarrow> True | Some t \<Rightarrow> s \<in> set (tok_scopes t))) g0"
  have eq: "granted_scopes wanted who u = or_read g"
    unfolding granted_scopes_def Let_def g_def g0_def by (auto split: option.split intro!: arg_cong [where f = or_read] filter_cong)
  have g0: "s \<in> set CLI_SCOPES" if "s \<in> set g0" for s
    using that by (auto simp: g0_def or_read_def CLI_SCOPES_def split: if_splits)
  show ?thesis
  proof (cases "g = []")
    case True
    with assms show ?thesis by (simp add: eq within_authority_def or_read_def sorted_set_def)
  next
    case False
    then have "or_read g = g" by (simp add: or_read_def)
    with assms g0 show ?thesis by (auto simp: eq within_authority_def list_all_iff g_def)
  qed
qed

subsection \<open>What each operation does\<close>

lemma find_hash_row: "hash_row h db = Some d \<Longrightarrow> d \<in> set (devices db) \<and> dr_hash d = h"
  by (auto simp: hash_row_def find_Some_iff)

lemma open_row_Inr: "open_row now code db = Inr d \<Longrightarrow>
    d \<in> set (devices db) \<and> dr_code d = normalize_user_code code \<and> \<not> expired now d"
  by (auto simp: open_row_def Let_def code_row_def find_Some_iff split: if_splits option.splits)

lemma devices_change_row: "devices (change_row d f db) = map (\<lambda>x. if dr_hash x = dr_hash d then f x else x) (devices db)"
  by (simp add: change_row_def)

lemma burn_fields [simp]: "dr_hash (burn now d) = dr_hash d" "dr_plain (burn now d) = None"
  by (simp_all add: burn_def)

lemma approved_by_fields [simp]: "dr_hash (approved_by uid now tid full d) = dr_hash d" "dr_plain (approved_by uid now tid full d) = Some full"
  by (simp_all add: approved_by_def)

text \<open>The token that waits in the row of a key.\<close>

definition waits :: "login_db \<Rightarrow> string \<Rightarrow> string \<Rightarrow> bool" where
  "waits db h tok = (\<exists>d \<in> set (devices db). dr_hash d = h \<and> dr_plain d = Some tok)"

lemma waits_filter: "devices db' = filter P (devices db) \<Longrightarrow> waits db' h tok \<Longrightarrow> waits db h tok"
  by (auto simp: waits_def)

lemma waits_denied: "waits (change_row d (dr_denied_update g) db) h t \<Longrightarrow> waits db h t"
  by (force simp: waits_def devices_change_row split: if_splits)

lemma waits_log: "waits (db\<lparr>audit_log := l\<rparr>) = waits db"
  by (simp add: waits_def fun_eq_iff)

lemma poll_hands_over:
  assumes "poll_finish now found db = (Inr (Complete tok name), db')"
  shows "\<exists>d. found = Some d \<and> dr_plain d = Some tok \<and> (\<forall>h t. waits db' h t \<longrightarrow> waits db h t \<and> h \<noteq> dr_hash d)"
  using assms by (auto simp: poll_finish_def waits_def devices_change_row split: if_splits option.splits)

lemma poll_otherwise:
  assumes "poll_finish now found db = (r, db')" "\<nexists>tok name. r = Inr (Complete tok name)" "waits db' h tok"
  shows "waits db h tok"
  using assms by (auto simp: poll_finish_def drop_row_def waits_def split: if_splits option.splits)

lemma approve_mints:
  assumes "approve_finish hash tag ttl now drawn tid ip who a d db = (Inr (Some granted), db')"
  shows "granted = sorted_set (granted_scopes (ap_scopes a) who (the (i_user who)))"
    "waits db' h t \<Longrightarrow> waits db h t \<or> h = dr_hash d \<and> t = fst (generate_token hash tag (fst drawn) (snd drawn))"
  using assms
  by (auto simp: approve_finish_def Let_def waits_def devices_change_row split: if_splits prod.splits)

lemma approve_otherwise:
  assumes "approve_finish hash tag ttl now drawn tid ip who a d db = (r, db')" "\<nexists>granted. r = Inr (Some granted)" "waits db' h t"
  shows "waits db h t"
  using assms
  by (auto simp: approve_finish_def Let_def waits_log dest: waits_denied split: if_splits prod.splits)

lemma start_waits:
  assumes "device_start hash allowed now dc draws r db = (q, db')" "waits db' h t"
  shows "waits db h t"
  using assms by (auto simp: device_start_def Let_def waits_def split: if_splits option.splits)

subsection \<open>Runs\<close>

text \<open>
  The history of a run, the latest event first. A poll is known by a number that was not given before.
  The device codes and the secrets that are drawn have not been drawn before; everything else, the
  clock, the people, the requests, and when each poll and approval looks and finishes, is free.
\<close>

datatype cli_event =
    Minted string string identity "string list"
    \<comment> \<open>the token, the code that was approved, by whom, with which scopes\<close>
  | Looked nat
    \<comment> \<open>a poll selected its row\<close>
  | Handed nat string
    \<comment> \<open>the poll and the token\<close>

type_synonym polling = "nat \<times> int \<times> device_row option"
type_synonym approving = "identity \<times> approval \<times> int \<times> device_row"

definition known_hashes :: "polling list \<Rightarrow> approving list \<Rightarrow> login_db \<Rightarrow> string set" where
  "known_hashes ps as db = dr_hash ` (set (devices db) \<union> {d. \<exists>n now. (n, now, Some d) \<in> set ps} \<union>
     {d. \<exists>who a now. (who, a, now, d) \<in> set as})"

inductive cli_run ::
  "(string \<Rightarrow> string) \<Rightarrow> string \<Rightarrow> int \<Rightarrow> cli_event list \<Rightarrow> polling list \<Rightarrow> approving list \<Rightarrow> login_db \<Rightarrow> bool"
  for hash :: "string \<Rightarrow> string" and tag :: string and ttl :: int where
  empty: "devices db = [] \<Longrightarrow> cli_run hash tag ttl [] [] [] db"
| elsewhere: "cli_run hash tag ttl es ps as db \<Longrightarrow> devices db' = filter P (devices db) \<Longrightarrow> cli_run hash tag ttl es ps as db'"
| started: "cli_run hash tag ttl es ps as db \<Longrightarrow> device_start hash allowed now dc draws r db = (q, db') \<Longrightarrow>
    hash dc \<notin> known_hashes ps as db \<Longrightarrow> cli_run hash tag ttl es ps as db'"
| looked: "cli_run hash tag ttl es ps as db \<Longrightarrow> Looked n \<notin> set es \<Longrightarrow>
    cli_run hash tag ttl (Looked n # es) ((n, now, hash_row (hash dc) db) # ps) as db"
| handed: "cli_run hash tag ttl es ps as db \<Longrightarrow> (n, now, found) \<in> set ps \<Longrightarrow>
    poll_finish now found db = (Inr (Complete tok name), db') \<Longrightarrow>
    cli_run hash tag ttl (Handed n tok # es) (remove1 (n, now, found) ps) as db'"
| polled: "cli_run hash tag ttl es ps as db \<Longrightarrow> (n, now, found) \<in> set ps \<Longrightarrow>
    poll_finish now found db = (q, db') \<Longrightarrow> \<nexists>tok name. q = Inr (Complete tok name) \<Longrightarrow>
    cli_run hash tag ttl es (remove1 (n, now, found) ps) as db'"
| considered: "cli_run hash tag ttl es ps as db \<Longrightarrow> require_primary_credential who = Inr who \<Longrightarrow>
    open_row now (ap_code a) db = Inr d \<Longrightarrow> cli_run hash tag ttl es ps ((who, a, now, d) # as) db"
| minted: "cli_run hash tag ttl es ps as db \<Longrightarrow> (who, a, now, d) \<in> set as \<Longrightarrow>
    approve_finish hash tag ttl now drawn tid ip who a d db = (Inr (Some granted), db') \<Longrightarrow>
    full = fst (generate_token hash tag (fst drawn) (snd drawn)) \<Longrightarrow>
    (\<And>code who' g. Minted full code who' g \<notin> set es) \<Longrightarrow>
    cli_run hash tag ttl (Minted full (normalize_user_code (ap_code a)) who granted # es) ps (remove1 (who, a, now, d) as) db'"
| answered: "cli_run hash tag ttl es ps as db \<Longrightarrow> (who, a, now, d) \<in> set as \<Longrightarrow>
    approve_finish hash tag ttl now drawn tid ip who a d db = (q, db') \<Longrightarrow>
    \<nexists>granted. q = Inr (Some granted) \<Longrightarrow> cli_run hash tag ttl es ps (remove1 (who, a, now, d) as) db'"

text \<open>A poll or an approval that nobody interrupts is the whole handler in one step.\<close>

lemma polled_at_once:
  assumes "cli_run hash tag ttl es ps as db" "Looked n \<notin> set es"
    "device_poll hash True now dc db = (Inr (Complete tok name), db')"
  shows "cli_run hash tag ttl (Handed n tok # Looked n # es) ps as db'"
  using cli_run.handed [OF cli_run.looked [OF assms(1,2), of now dc], of n now "hash_row (hash dc) db" tok name db'] assms(3)
  by (simp add: device_poll_def)

lemma approved_at_once:
  assumes "cli_run hash tag ttl es ps as db"
    "device_approve hash tag ttl True now drawn tid ip who a db = (Inr (Some granted), db')"
    "\<And>code who' g. Minted (fst (generate_token hash tag (fst drawn) (snd drawn))) code who' g \<notin> set es"
  shows "cli_run hash tag ttl (Minted (fst (generate_token hash tag (fst drawn) (snd drawn)))
      (normalize_user_code (ap_code a)) who granted # es) ps as db'"
proof -
  obtain i d where i: "require_primary_credential who = Inr i" and d: "open_row now (ap_code a) db = Inr d"
    and f: "approve_finish hash tag ttl now drawn tid ip who a d db = (Inr (Some granted), db')"
    using assms(2) by (auto simp: device_approve_def split: sum.splits if_splits)
  then have "require_primary_credential who = Inr who" by (auto simp: require_primary_credential_def split: if_splits)
  from cli_run.minted [OF cli_run.considered [OF assms(1) this d] _ f refl assms(3)] show ?thesis by simp
qed

definition sound_minting :: "cli_event \<Rightarrow> bool" where
  "sound_minting e = (case e of Minted tok code who g \<Rightarrow>
     require_primary_credential who = Inr who \<and> within_authority who g | _ \<Rightarrow> True)"

definition minted_in :: "cli_event list \<Rightarrow> string \<Rightarrow> bool" where
  "minted_in es tok = (\<exists>code who g. Minted tok code who g \<in> set es)"

definition looked_before :: "cli_event list \<Rightarrow> nat \<Rightarrow> string \<Rightarrow> bool" where
  \<comment> \<open>the poll looked before every hand-over of the token in the history\<close>
  "looked_before es n tok = (\<forall>ys m zs. es = ys @ Handed m tok # zs \<longrightarrow> Looked n \<in> set zs)"

definition overlaps :: "cli_event list \<Rightarrow> bool" where
  "overlaps es = (\<forall>xs n tok zs. es = xs @ Handed n tok # zs \<longrightarrow> looked_before zs n tok)"

lemma looked_before_Cons:
  "looked_before (e # es) n tok \<longleftrightarrow> looked_before es n tok \<and> ((\<exists>m. e = Handed m tok) \<longrightarrow> Looked n \<in> set es)"
  by (auto simp: looked_before_def Cons_eq_append_conv)

lemma looked_before_fresh: "(\<And>m. Handed m tok \<notin> set es) \<Longrightarrow> looked_before es n tok"
  unfolding looked_before_def by (metis in_set_conv_decomp)

lemma overlaps_Cons: "overlaps (e # es) \<longleftrightarrow> overlaps es \<and> (\<forall>n tok. e = Handed n tok \<longrightarrow> looked_before es n tok)"
  by (auto simp: overlaps_def Cons_eq_append_conv)

definition login_inv :: "cli_event list \<Rightarrow> polling list \<Rightarrow> approving list \<Rightarrow> login_db \<Rightarrow> bool" where
  "login_inv es ps as db = (
     (\<forall>h h' t. waits db h t \<and> waits db h' t \<longrightarrow> h = h') \<and>
     (\<forall>h t. waits db h t \<longrightarrow> minted_in es t \<and> (\<forall>n. Handed n t \<notin> set es)) \<and>
     (\<forall>n t. Handed n t \<in> set es \<longrightarrow> minted_in es t) \<and>
     (\<forall>n now found. (n, now, found) \<in> set ps \<longrightarrow> Looked n \<in> set es) \<and>
     (\<forall>n now d t h. (n, now, Some d) \<in> set ps \<and> dr_plain d = Some t \<longrightarrow>
        minted_in es t \<and> looked_before es n t \<and> (waits db h t \<longrightarrow> h = dr_hash d)) \<and>
     (\<forall>who a now d. (who, a, now, d) \<in> set as \<longrightarrow> require_primary_credential who = Inr who) \<and>
     overlaps es \<and> list_all sound_minting es)"

lemma minted_in_Cons [simp]: "minted_in (e # es) t \<longleftrightarrow> minted_in es t \<or> (\<exists>code who g. e = Minted t code who g)"
  by (auto simp: minted_in_def)

lemma login_invD:
  assumes "login_inv es ps as db"
  shows "waits db h t \<Longrightarrow> waits db h' t \<Longrightarrow> h = h'"
    "waits db h t \<Longrightarrow> minted_in es t" "waits db h t \<Longrightarrow> Handed n t \<notin> set es" "Handed n t \<in> set es \<Longrightarrow> minted_in es t"
    "(n, now, found) \<in> set ps \<Longrightarrow> Looked n \<in> set es"
    "(n, now, Some d) \<in> set ps \<Longrightarrow> dr_plain d = Some t \<Longrightarrow> minted_in es t"
    "(n, now, Some d) \<in> set ps \<Longrightarrow> dr_plain d = Some t \<Longrightarrow> looked_before es n t"
    "(n, now, Some d) \<in> set ps \<Longrightarrow> dr_plain d = Some t \<Longrightarrow> waits db h t \<Longrightarrow> h = dr_hash d"
    "(who, a, now, x) \<in> set as \<Longrightarrow> require_primary_credential who = Inr who"
    "overlaps es" "list_all sound_minting es"
  using assms unfolding login_inv_def by (elim conjE, metis)+

text \<open>A step that hands nothing over and mints nothing.\<close>

lemma inv_shrink:
  assumes "login_inv es ps as db" "\<And>h t. waits db' h t \<Longrightarrow> waits db h t" "set ps' \<subseteq> set ps" "set as' \<subseteq> set as"
  shows "login_inv es ps' as' db'"
  using assms unfolding login_inv_def by (elim conjE, intro conjI) (assumption | meson subsetD)+

lemma inv_looked:
  assumes "login_inv es ps as db"
  shows "login_inv (Looked n # es) ((n, now, hash_row h db) # ps) as db"
proof -
  have row: "looked_before (Looked n # es) n t \<and> minted_in (Looked n # es) t \<and> (\<forall>h. waits db h t \<longrightarrow> h = dr_hash d)"
    if d: "hash_row h db = Some d" "dr_plain d = Some t" for d t
  proof -
    have w: "waits db (dr_hash d) t" using find_hash_row [OF d(1)] d(2) by (auto simp: waits_def)
    then have "\<And>m. Handed m t \<notin> set (Looked n # es)" "minted_in (Looked n # es) t" "\<forall>h. waits db h t \<longrightarrow> h = dr_hash d"
      using login_invD(1-3) [OF assms] by auto
    with looked_before_fresh [of t "Looked n # es" n] show ?thesis by blast
  qed
  have rows: "minted_in (Looked n # es) t \<and> looked_before (Looked n # es) m t \<and> (waits db h' t \<longrightarrow> h' = dr_hash d)"
    if "(m, t0, Some d) \<in> set ((n, now, hash_row h db) # ps)" "dr_plain d = Some t" for m t0 d t h'
  proof (cases "(m, t0, Some d) \<in> set ps")
    case True
    then show ?thesis using login_invD(6-8) [OF assms True that(2)] by (simp add: looked_before_Cons)
  next
    case False
    with that(1) have d: "hash_row h db = Some d" and "m = n" by simp_all
    with row [OF d that(2)] show ?thesis by blast
  qed
  show ?thesis
    unfolding login_inv_def
  proof (intro conjI)
    show "\<forall>m t0 d t h'. (m, t0, Some d) \<in> set ((n, now, hash_row h db) # ps) \<and> dr_plain d = Some t \<longrightarrow>
        minted_in (Looked n # es) t \<and> looked_before (Looked n # es) m t \<and> (waits db h' t \<longrightarrow> h' = dr_hash d)"
      using rows by blast
  qed (use login_invD [OF assms] in \<open>auto simp: overlaps_Cons sound_minting_def\<close>)
qed

lemma inv_handed:
  assumes inv: "login_inv es ps as db" and p: "(n, now, found) \<in> set ps"
    and f: "poll_finish now found db = (Inr (Complete tok name), db')"
  shows "login_inv (Handed n tok # es) (remove1 (n, now, found) ps) as db'"
proof -
  from poll_hands_over [OF f] obtain d where d: "found = Some d" "dr_plain d = Some tok"
    and less: "\<And>h t. waits db' h t \<Longrightarrow> waits db h t \<and> h \<noteq> dr_hash d" by blast
  have row: "minted_in es tok" "looked_before es n tok" "\<And>h. waits db h tok \<Longrightarrow> h = dr_hash d"
    using login_invD(6-8) [OF inv p [unfolded d(1)] d(2)] by blast+
  from inv have inv': "login_inv es (remove1 (n, now, found) ps) as db'"
    by (rule inv_shrink) (blast dest: less, rule set_remove1_subset, rule subset_refl)
  have looked: "Looked n' \<in> set es" if "(n', t, x) \<in> set (remove1 (n, now, found) ps)" for n' t x
    using login_invD(5) [OF inv' that] .
  have gone: "\<not> waits db' h tok" for h using less row(3) by blast
  show ?thesis
    using login_invD [OF inv'] gone row(1,2) looked unfolding login_inv_def
    by (intro conjI) (auto simp: looked_before_Cons overlaps_Cons sound_minting_def)
qed

lemma inv_minted:
  assumes inv: "login_inv es ps as db" and a: "(who, a, now, d) \<in> set as"
    and f: "approve_finish hash tag ttl now drawn tid ip who a d db = (Inr (Some granted), db')"
    and full: "full = fst (generate_token hash tag (fst drawn) (snd drawn))" and fresh: "\<not> minted_in es full"
  shows "login_inv (Minted full code who granted # es) ps (remove1 (who, a, now, d) as) db'"
proof -
  note m = approve_mints [OF f, folded full]
  have w: "require_primary_credential who = Inr who" by (rule login_invD(9) [OF inv a])
  then obtain u where "i_user who = Some u" by (auto simp: require_primary_credential_def split: if_splits)
  with m(1) granted_within have ok: "sound_minting (Minted full code who granted)" using w by (simp add: sound_minting_def)
  have new: "\<not> waits db h full" "Handed n full \<notin> set es" "(n, t, Some x) \<in> set ps \<Longrightarrow> dr_plain x \<noteq> Some full" for h n t x
    using login_invD(2,4,6) [OF inv] fresh by blast+
  have sub: "set (remove1 (who, a, now, d) as) \<subseteq> set as" by (rule set_remove1_subset)
  have one: "h = h'" if "waits db' h t" "waits db' h' t" for h h' t
    using m(2) [OF that(1)] m(2) [OF that(2)] new(1) login_invD(1) [OF inv] by blast
  have two: "minted_in (Minted full code who granted # es) t \<and> (\<forall>n. Handed n t \<notin> set (Minted full code who granted # es))"
    if "waits db' h t" for h t
    using m(2) [OF that] new(2) login_invD(2,3) [OF inv] by auto
  have three: "minted_in (Minted full code who granted # es) t \<and> looked_before (Minted full code who granted # es) n t \<and>
      (waits db' h t \<longrightarrow> h = dr_hash x)" if "(n, t0, Some x) \<in> set ps" "dr_plain x = Some t" for n t0 x t h
  proof -
    have "t \<noteq> full" using new(3) that by blast
    then have "waits db' h t \<longrightarrow> waits db h t" using m(2) by blast
    then show ?thesis using login_invD(6-8) [OF inv that] unfolding looked_before_Cons by auto
  qed
  show ?thesis
    unfolding login_inv_def
  proof (intro conjI)
    show "overlaps (Minted full code who granted # es)" using inv by (simp add: login_inv_def overlaps_Cons)
    show "list_all sound_minting (Minted full code who granted # es)" using inv ok by (simp add: login_inv_def)
    show "\<forall>n t. Handed n t \<in> set (Minted full code who granted # es) \<longrightarrow> minted_in (Minted full code who granted # es) t"
      using inv by (auto simp: login_inv_def)
    show "\<forall>n now found. (n, now, found) \<in> set ps \<longrightarrow> Looked n \<in> set (Minted full code who granted # es)"
      using inv by (auto simp: login_inv_def)
    show "\<forall>who' a' now' d'. (who', a', now', d') \<in> set (remove1 (who, a, now, d) as) \<longrightarrow> require_primary_credential who' = Inr who'"
      using login_invD(9) [OF inv] sub by blast
  qed (use one two three in blast)+
qed

lemma run_inv: "cli_run hash tag ttl es ps as db \<Longrightarrow> login_inv es ps as db"
proof (induction rule: cli_run.induct)
  case (empty db)
  then show ?case by (simp add: login_inv_def waits_def overlaps_def)
next
  case (elsewhere es ps as db db' P)
  from elsewhere.IH show ?case by (rule inv_shrink) (use waits_filter [OF elsewhere.hyps(2)] in auto)
next
  case (started es ps as db allowed now dc draws r q db')
  from started.IH show ?case by (rule inv_shrink) (use start_waits [OF started.hyps(2)] in auto)
next
  case (looked es ps as db n now dc)
  from looked.IH show ?case by (rule inv_looked)
next
  case (handed es ps as db n now found tok name db')
  from inv_handed [OF handed.IH handed.hyps(2,3)] show ?case .
next
  case (polled es ps as db n now found q db')
  from polled.IH show ?case
    by (rule inv_shrink) (erule poll_otherwise [OF polled.hyps(3,4)], rule set_remove1_subset, rule subset_refl)
next
  case (considered es ps as db who now a d)
  then show ?case unfolding login_inv_def by auto
next
  case (minted es ps as db who a now d drawn tid ip granted db' full)
  have "\<not> minted_in es full" using minted.hyps(5) by (auto simp: minted_in_def)
  from inv_minted [OF minted.IH minted.hyps(2,3,4) this] show ?case .
next
  case (answered es ps as db who a now d drawn tid ip q db')
  from answered.IH show ?case
    by (rule inv_shrink) (erule approve_otherwise [OF answered.hyps(3,4)], rule subset_refl, rule set_remove1_subset)
qed

text \<open>
  C15: however starts, polls, approvals and refusals interleave, the look and the finish of each being
  steps of their own, a token that was collected is given to no poll that comes later: when a token is
  handed over twice, the later poll had looked at its row before the earlier one finished. And each token
  handed over was minted by an approval of a person with a primary credential, with scopes within that
  person's authority and, unless it is for reading alone, which every approval grants at least, among
  those of that credential.
\<close>

theorem token_handed_once:
  assumes "cli_run hash tag ttl es ps as db"
  shows "(\<forall>xs n tok ys m zs. es = xs @ Handed n tok # ys @ Handed m tok # zs \<longrightarrow> Looked n \<in> set zs) \<and>
    (\<forall>n tok. Handed n tok \<in> set es \<longrightarrow> (\<exists>code who g. Minted tok code who g \<in> set es \<and>
      require_primary_credential who = Inr who \<and> within_authority who g))"
proof -
  have inv: "login_inv es ps as db" by (rule run_inv [OF assms])
  have "Looked n \<in> set zs" if "es = xs @ Handed n tok # ys @ Handed m tok # zs" for xs n tok ys m zs
    using login_invD(10) [OF inv] that unfolding overlaps_def looked_before_def by blast
  moreover have "\<exists>code who g. Minted tok code who g \<in> set es \<and> sound_minting (Minted tok code who g)"
    if "Handed n tok \<in> set es" for n tok
    using login_invD(4) [OF inv that] login_invD(11) [OF inv] unfolding list_all_iff minted_in_def by blast
  ultimately show ?thesis by (auto simp: sound_minting_def)
qed

text \<open>
  Both answers are possible for the same code: a refusal does not keep a later approval from minting
  a token, which then can never be collected.
\<close>

lemma refused_login_never_collected:
  assumes "hash_row (hash dc) db = Some d" "dr_denied d"
  shows "fst (device_poll hash True now dc db) \<in> {Inl ExpiredToken, Inl AccessDenied} \<and>
    hash_row (hash dc) (snd (device_poll hash True now dc db)) = None"
proof -
  have "fst (device_poll hash True now dc db) \<in> {Inl ExpiredToken, Inl AccessDenied} \<and>
      snd (device_poll hash True now dc db) = drop_row d db"
    using assms by (simp add: device_poll_def poll_finish_def)
  then show ?thesis using find_hash_row [OF assms(1)] by (simp add: hash_row_def drop_row_def find_None_iff)
qed

text \<open>
  The table as a book of phases. A poll reads only the phase of its own login and changes no other.
\<close>

datatype phase = Waiting | Refused | Ready string | Spent

definition phase_of :: "device_row \<Rightarrow> phase" where
  "phase_of d = (if dr_denied d then Refused else if dr_approved d = None then Waiting
     else (case dr_plain d of None \<Rightarrow> Spent | Some t \<Rightarrow> Ready t))"

definition book :: "login_db \<Rightarrow> string \<Rightarrow> (phase \<times> int) option" where
  "book db h = map_option (\<lambda>d. (phase_of d, dr_expires d)) (hash_row h db)"

definition spec_poll :: "int \<Rightarrow> (phase \<times> int) option \<Rightarrow> (login_error + string option) \<times> (phase \<times> int) option" where
  "spec_poll now entry = (case entry of
       None \<Rightarrow> (Inl ExpiredToken, None)
     | Some (p, until) \<Rightarrow> if until < now then (Inl ExpiredToken, None)
         else (case p of
           Refused \<Rightarrow> (Inl AccessDenied, None)
         | Waiting \<Rightarrow> (Inr None, entry)
         | Ready t \<Rightarrow> (Inr (Some t), Some (Spent, until))
         | Spent \<Rightarrow> (Inl ExpiredToken, entry)))"

definition handed_token :: "poll_reply \<Rightarrow> string option" where
  "handed_token r = (case r of Pending \<Rightarrow> None | Complete t _ \<Rightarrow> Some t)"

lemma book_drop_row: "dr_hash d = h \<Longrightarrow> book (drop_row d db) = (book db)(h := None)"
proof -
  assume h: "dr_hash d = h"
  have "find (\<lambda>x. dr_hash x = k) (filter (\<lambda>x. dr_hash x \<noteq> h) ds) =
      (if k = h then None else find (\<lambda>x. dr_hash x = k) ds)" for k and ds :: "device_row list"
    by (induction ds) auto
  with h show ?thesis by (simp add: fun_eq_iff book_def hash_row_def drop_row_def)
qed

lemma book_change_row:
  assumes "hash_row h db = Some d" "\<And>x. dr_hash (f x) = dr_hash x"
  shows "book (change_row d f db) = (book db)(h \<mapsto> (phase_of (f d), dr_expires (f d)))"
proof -
  have d: "dr_hash d = h" using find_hash_row [OF assms(1)] by simp
  have "find (\<lambda>x. dr_hash x = k) (map (\<lambda>x. if dr_hash x = h then f x else x) ds) =
      (if k = h then map_option f (find (\<lambda>x. dr_hash x = h) ds) else find (\<lambda>x. dr_hash x = k) ds)" for k and ds :: "device_row list"
    using assms(2) by (induction ds) auto
  with assms(1) d show ?thesis by (auto simp: fun_eq_iff book_def hash_row_def change_row_def)
qed

text \<open>
  C22: polling refines the book of phases: its answer is the one the phase of the polled login calls
  for, that phase moves as the book says (a token once handed over leaves the login spent, an expired
  or refused login goes away), and no other login changes.
\<close>

theorem poll_refines_phases:
  assumes "device_poll hash True now dc db = (q, db')"
  shows "map_sum id handed_token q = fst (spec_poll now (book db (hash dc))) \<and>
    book db' = (book db)(hash dc := snd (spec_poll now (book db (hash dc))))"
proof (cases "hash_row (hash dc) db")
  case None
  with assms show ?thesis by (auto simp: device_poll_def poll_finish_def book_def spec_poll_def)
next
  case (Some d)
  note row = find_hash_row [OF Some]
  have at: "book db (hash dc) = Some (phase_of d, dr_expires d)" by (simp add: book_def Some)
  then have stay: "(book db)(hash dc \<mapsto> (phase_of d, dr_expires d)) = book db" by auto
  show ?thesis
    using assms Some row stay book_drop_row [of d "hash dc" db]
      book_change_row [OF Some, of "burn now"]
    by (auto simp: device_poll_def poll_finish_def row_there_def at spec_poll_def burn_def expired_def phase_of_def handed_token_def
        split: if_splits option.splits)
qed

text \<open>One login of the command line, from the first request to the second poll.\<close>

definition sample_hash :: "string \<Rightarrow> string" where "sample_hash s = s @ ''#''"

definition sample_person :: user where
  "sample_person = \<lparr>acc_id = 5, acc_admin = False, can_publish = True, acc_active = True,
     u_name = ''ada'', u_hash = None, u_version = 1, u_local = True\<rparr>"

definition sample_approver :: identity where
  "sample_approver = \<lparr>i_user = Some sample_person, i_token = None, i_method = ''session''\<rparr>"

definition sample_login :: login_db where
  "sample_login = \<lparr>devices = [], minted = [], people = [sample_person], audit_log = []\<rparr>"

definition sample_request :: login_request where
  "sample_request = \<lparr>lr_hostname = Some ''box'', lr_platform = None, lr_scopes = [''read''], lr_ip = None\<rparr>"

definition sample_approval :: approval where
  "sample_approval = \<lparr>ap_code = ''abcd-2345'', ap_approve = True, ap_scopes = [''publish'', ''admin'']\<rparr>"

definition sample_device :: device_row where
  "sample_device = \<lparr>dr_hash = ''dc#'', dr_code = ''ABCD-2345'', dr_created = 0, dr_expires = 600,
     dr_requested = [''read''], dr_hostname = Some ''box'', dr_platform = None, dr_ip = None, dr_user = Some 5,
     dr_approved = Some 10, dr_denied = False, dr_token_id = Some 7, dr_plain = Some ''mr_id_sec'', dr_collected = None\<rparr>"

definition sample_approved :: login_db where
  "sample_approved = \<lparr>devices = [sample_device], minted = [], people = [sample_person], audit_log = []\<rparr>"

lemma sample_start:
  "\<exists>q db. device_start sample_hash True 0 ''dc'' [''ABCD2345''] sample_request sample_login = (q, db) \<and>
    devices db = [sample_device\<lparr>dr_user := None, dr_approved := None, dr_token_id := None, dr_plain := None\<rparr>] \<and>
    people db = [sample_person]"
  by (simp add: device_start_def sample_hash_def sample_request_def sample_login_def sample_device_def Let_def
      make_user_code_def code_row_def sorted_set_def or_read_def CLI_SCOPES_def clip_def DEVICE_CODE_TTL_def)

lemma sample_normalized: "normalize_user_code ''abcd-2345'' = ''ABCD-2345''"
  by code_simp

lemma sample_approve:
  assumes "devices db = [sample_device\<lparr>dr_user := None, dr_approved := None, dr_token_id := None, dr_plain := None\<rparr>]"
  shows "\<exists>db'. device_approve sample_hash ''mr'' 90 True 10 (''id'', ''sec'') 7 None sample_approver sample_approval db
      = (Inr (Some [''publish'']), db') \<and> devices db' = [sample_device]"
  using assms
  by (simp add: device_approve_def approve_finish_def require_primary_credential_def sample_approver_def is_password_basic_def
      PASSWORD_BASIC_def open_row_def sample_approval_def sample_normalized code_row_def sample_device_def expired_def
      granted_scopes_def CLI_SCOPES_def or_read_def sorted_set_def sample_person_def generate_token_def change_row_def
      row_there_def hash_row_def approved_by_def Let_def)

lemma sample_poll: "devices db = [sample_device] \<Longrightarrow> hash_row (sample_hash ''dc'') db = Some sample_device"
  by (simp add: sample_hash_def hash_row_def sample_device_def)

lemma sample_finish:
  assumes "devices db = [d]" "dr_hash d = ''dc#''"
  shows "\<exists>name db'. poll_finish 20 (Some sample_device) db = (Inr (Complete ''mr_id_sec'' name), db') \<and>
    devices db' = [burn 20 d]"
  using assms by (simp add: poll_finish_def sample_device_def expired_def row_there_def hash_row_def change_row_def)

text \<open>
  Two polls of one login look before either of them finishes, and both are given the token.
\<close>

lemma overlapping_polls_both_collect:
  "\<exists>db. cli_run sample_hash ''mr'' 90 [Handed 1 ''mr_id_sec'', Handed 0 ''mr_id_sec'', Looked 1, Looked 0,
     Minted ''mr_id_sec'' ''ABCD-2345'' sample_approver [''publish'']] [] [] db"
proof -
  obtain q db where s: "device_start sample_hash True 0 ''dc'' [''ABCD2345''] sample_request sample_login = (q, db)"
      "devices db = [sample_device\<lparr>dr_user := None, dr_approved := None, dr_token_id := None, dr_plain := None\<rparr>]"
    using sample_start by blast
  obtain db2 where a: "device_approve sample_hash ''mr'' 90 True 10 (''id'', ''sec'') 7 None sample_approver sample_approval db
      = (Inr (Some [''publish'']), db2)" "devices db2 = [sample_device]"
    using sample_approve [OF s(2)] by blast
  let ?run = "cli_run sample_hash ''mr'' 90"
  have "?run [] [] [] sample_login" by (rule cli_run.empty) (simp add: sample_login_def)
  then have "?run [] [] [] db"
    by (rule cli_run.started [OF _ s(1)]) (simp add: sample_login_def known_hashes_def)
  from approved_at_once [OF this a(1)]
  have "?run [Minted ''mr_id_sec'' ''ABCD-2345'' sample_approver [''publish'']] [] [] db2"
    by (simp add: generate_token_def sample_approval_def sample_normalized)
  from cli_run.looked [OF this, of 0 20 "''dc''"]
  have "?run [Looked 0, Minted ''mr_id_sec'' ''ABCD-2345'' sample_approver [''publish'']] [(0, 20, Some sample_device)] [] db2"
    by (simp add: sample_poll [OF a(2)])
  from cli_run.looked [OF this, of 1 20 "''dc''"]
  have two: "?run [Looked 1, Looked 0, Minted ''mr_id_sec'' ''ABCD-2345'' sample_approver [''publish'']]
      [(1, 20, Some sample_device), (0, 20, Some sample_device)] [] db2"
    by (simp add: sample_poll [OF a(2)])
  obtain name1 db3 where p1: "poll_finish 20 (Some sample_device) db2 = (Inr (Complete ''mr_id_sec'' name1), db3)"
      "devices db3 = [burn 20 sample_device]"
    using sample_finish [OF a(2)] by (auto simp: sample_device_def)
  obtain name2 db4 where p2: "poll_finish 20 (Some sample_device) db3 = (Inr (Complete ''mr_id_sec'' name2), db4)"
    using sample_finish [OF p1(2)] by (auto simp: sample_device_def)
  from cli_run.handed [OF two _ p1(1), of 0]
  have "?run [Handed 0 ''mr_id_sec'', Looked 1, Looked 0, Minted ''mr_id_sec'' ''ABCD-2345'' sample_approver [''publish'']]
      [(1, 20, Some sample_device)] [] db3" by simp
  from cli_run.handed [OF this _ p2, of 1] show ?thesis by auto
qed

lemma token_handed_once_witness:
  "\<exists>es xs ys zs. es = xs @ Handed 1 ''mr_id_sec'' # ys @ Handed 0 ''mr_id_sec'' # zs \<and> Looked 1 \<in> set zs \<and>
    (\<exists>code who g. Minted ''mr_id_sec'' code who g \<in> set es \<and> require_primary_credential who = Inr who \<and> within_authority who g)"
proof -
  obtain db where run: "cli_run sample_hash ''mr'' 90 [Handed 1 ''mr_id_sec'', Handed 0 ''mr_id_sec'', Looked 1, Looked 0,
     Minted ''mr_id_sec'' ''ABCD-2345'' sample_approver [''publish'']] [] [] db" using overlapping_polls_both_collect by blast
  define zs where "zs = [Looked 1, Looked 0, Minted ''mr_id_sec'' ''ABCD-2345'' sample_approver [''publish'']]"
  define es where "es = [] @ Handed 1 ''mr_id_sec'' # [] @ Handed 0 ''mr_id_sec'' # zs"
  from run have "cli_run sample_hash ''mr'' 90 es [] [] db" by (simp add: es_def zs_def)
  note t = token_handed_once [OF this]
  have "Handed 0 ''mr_id_sec'' \<in> set es" by (simp add: es_def)
  with t have "\<exists>code who g. Minted ''mr_id_sec'' code who g \<in> set es \<and> require_primary_credential who = Inr who \<and> within_authority who g"
    by blast
  moreover have "Looked 1 \<in> set zs" using t es_def by blast
  ultimately show ?thesis using es_def by blast
qed

lemma poll_refines_phases_witness:
  "book sample_approved ''dc#'' = Some (Ready ''mr_id_sec'', 600) \<and>
   (\<exists>db'. book db' ''dc#'' = Some (Spent, 600))"
proof -
  have b: "book sample_approved ''dc#'' = Some (Ready ''mr_id_sec'', 600)"
    by (simp add: book_def hash_row_def sample_approved_def sample_device_def phase_of_def)
  obtain q db' where run: "device_poll sample_hash True 20 ''dc'' sample_approved = (q, db')" by fastforce
  have "sample_hash ''dc'' = ''dc#''" by (simp add: sample_hash_def)
  with poll_refines_phases [OF run] b have "book db' ''dc#'' = Some (Spent, 600)" by (simp add: spec_poll_def)
  with b show ?thesis by blast
qed

end
