(* ===== verification/Artifact_Verify.thy ===== *)
theory Artifact_Verify
  imports Npm_Publish
begin

section \<open>What a downloaded artifact must match (\<open>services/artifacts.py\<close>, \<open>services/storage.py\<close>)\<close>

text \<open>
  The digests an artifact is stored with, the subresource-integrity strings npm publishes, and the
  check of downloaded bytes against everything the upstream announced. The hash functions of the
  standard library are one argument, \<open>hash algorithm data\<close>, with raw digests; bytes are characters.
\<close>

subsection \<open>Hexadecimal digests\<close>

definition nibble :: "nat \<Rightarrow> char" where
  "nibble n = ''0123456789abcdef'' ! n"

definition hexdigest :: "string \<Rightarrow> string" where
  \<comment> \<open>\<open>bytes.hex\<close>\<close>
  "hexdigest bs = concat (map (\<lambda>b. let n = (of_char b :: nat) in [nibble (n div 16), nibble (n mod 16)]) bs)"

fun unnibble :: "char \<Rightarrow> nat" where
  "unnibble c = (if is_digit c then of_char c - 48 else of_char c - 87)"

fun fromhex :: "string \<Rightarrow> string" where
  \<comment> \<open>\<open>bytes.fromhex\<close> of what \<open>hexdigest\<close> returns\<close>
  "fromhex (a # b # s) = char_of (unnibble a * 16 + unnibble b) # fromhex s"
| "fromhex _ = []"

subsection \<open>Stored bytes\<close>

record stored_blob =
  sb_sha256 :: string
  sb_size :: nat
  sb_path :: string
  sb_sha1 :: string
  sb_md5 :: string
  sb_blake2b :: string
  sb_sha512 :: string

definition relative_path_for :: "string \<Rightarrow> string" where
  "relative_path_for sha256 = ''blobs/'' @ take 2 sha256 @ ''/'' @ take 2 (drop 2 sha256) @ ''/'' @ sha256"

definition digests_stored :: "(string \<Rightarrow> string \<Rightarrow> string) \<Rightarrow> string \<Rightarrow> stored_blob" where
  "digests_stored hash data = \<lparr>sb_sha256 = hexdigest (hash ''sha256'' data), sb_size = length data,
     sb_path = relative_path_for (hexdigest (hash ''sha256'' data)), sb_sha1 = hexdigest (hash ''sha1'' data),
     sb_md5 = hexdigest (hash ''md5'' data), sb_blake2b = hexdigest (hash ''blake2b_256'' data),
     sb_sha512 = hexdigest (hash ''sha512'' data)\<rparr>"

fun b64_char :: "nat \<Rightarrow> char" where
  "b64_char n = ''ABCDEFGHIJKLMNOPQRSTUVWXYZabcdefghijklmnopqrstuvwxyz0123456789+/'' ! n"

fun b64encode :: "string \<Rightarrow> string" where
  "b64encode (a # b # c # s) = (let x = of_char a; y = of_char b; z = (of_char c :: nat) in
     b64_char (x div 4) # b64_char (x mod 4 * 16 + y div 16) # b64_char (y mod 16 * 4 + z div 64) # b64_char (z mod 64)
       # b64encode s)"
| "b64encode [a, b] = (let x = of_char a; y = (of_char b :: nat) in
     [b64_char (x div 4), b64_char (x mod 4 * 16 + y div 16), b64_char (y mod 16 * 4), CHR ''=''])"
| "b64encode [a] = (let x = (of_char a :: nat) in [b64_char (x div 4), b64_char (x mod 4 * 16), CHR ''='', CHR ''=''])"
| "b64encode [] = []"

definition stored_integrity :: "stored_blob \<Rightarrow> string" where
  "stored_integrity b = ''sha512-'' @ b64encode (fromhex (sb_sha512 b))"

subsection \<open>Subresource integrity\<close>

definition SRI_STRENGTH :: "string list" where
  "SRI_STRENGTH = [''sha512'', ''sha384'', ''sha256'', ''sha1'']"

definition digest_size :: "string \<Rightarrow> nat" where
  "digest_size algorithm = (if algorithm = ''sha512'' then 64 else if algorithm = ''sha384'' then 48
     else if algorithm = ''sha256'' then 32 else 20)"

definition sri_token :: "string \<Rightarrow> (string \<times> string option) option" where
  \<comment> \<open>one token of the list; the digest is \<open>None\<close> when it does not decode to the right length\<close>
  "sri_token tok = (case py_partition (CHR ''-'') tok of (algorithm, sep, rest) \<Rightarrow>
     if sep = [] \<or> py_lower algorithm \<notin> set SRI_STRENGTH then None
     else Some (py_lower algorithm, (case b64decode (hd (split_on (CHR ''?'') rest)) of
         None \<Rightarrow> None
       | Some v \<Rightarrow> if length v = digest_size (py_lower algorithm) then Some v else None)))"

definition parse_sri :: "string \<Rightarrow> string \<Rightarrow> string option list" where
  \<comment> \<open>the values listed for an algorithm; none when it is absent\<close>
  "parse_sri integrity algorithm = map snd (filter (\<lambda>(a, v). a = algorithm) (List.map_filter sri_token (split_ws integrity)))"

definition sri_algorithm :: "string \<Rightarrow> string option" where
  "sri_algorithm integrity = find (\<lambda>a. parse_sri integrity a \<noteq> []) SRI_STRENGTH"

datatype artifact_error =
    NoUpstreamUrl | UpstreamGone | UpstreamDisabled | QuotaFull | RefusedFetch | UpstreamFailed | TooLarge
  | TimedOut | DownloadCancelled | StorageFailed | Mismatch string | BadSri string | SriMismatch string
  | NothingToVerify | FileDeleted | BlobVanished | PeerTimedOut | NotCached

fun is_digest_mismatch :: "artifact_error \<Rightarrow> bool" where
  "is_digest_mismatch (Mismatch _) = True"
| "is_digest_mismatch (BadSri _) = True"
| "is_digest_mismatch (SriMismatch _) = True"
| "is_digest_mismatch _ = False"

definition check_sri :: "string \<Rightarrow> (string \<rightharpoonup> string) \<Rightarrow> artifact_error + bool" where
  "check_sri integrity computed = (case sri_algorithm integrity of
       None \<Rightarrow> Inr False
     | Some algorithm \<Rightarrow> (case computed algorithm of
         None \<Rightarrow> Inr False
       | Some digest \<Rightarrow> (let values = parse_sri integrity algorithm in
           if Some digest \<in> set values then Inr True
           else if list_all (\<lambda>v. v = None) values then Inl (BadSri algorithm)
           else Inl (SriMismatch algorithm))))"

subsection \<open>The check\<close>

record expected_digests =
  ex_sha256 :: "string option"
  ex_sha1 :: "string option"
  ex_md5 :: "string option"
  ex_blake2b :: "string option"
  ex_integrity :: "string option"
  ex_require :: bool
  ex_verify :: bool

definition given :: "string option \<Rightarrow> bool" where
  "given x = (x \<noteq> None \<and> x \<noteq> Some [])"

fun compare_digests :: "(string \<times> string option \<times> string) list \<Rightarrow> bool \<Rightarrow> artifact_error + bool" where
  "compare_digests [] compared = Inr compared"
| "compare_digests ((algorithm, expected, actual) # checks) compared =
     (if \<not> given expected then compare_digests checks compared
      else if py_lower (the expected) \<noteq> py_lower actual then Inl (Mismatch algorithm)
      else compare_digests checks True)"

definition verify_digests :: "expected_digests \<Rightarrow> stored_blob \<Rightarrow> (string \<rightharpoonup> string) \<Rightarrow> artifact_error + unit" where
  "verify_digests e s extra = sum_bind (compare_digests
       [(''sha256'', ex_sha256 e, sb_sha256 s), (''sha1'', ex_sha1 e, sb_sha1 s),
        (''md5'', ex_md5 e, sb_md5 s), (''blake2b_256'', ex_blake2b e, sb_blake2b s)] False) (\<lambda>compared.
     sum_bind (if given (ex_integrity e)
       then sum_bind (check_sri (the (ex_integrity e)) ([''sha512'' \<mapsto> fromhex (sb_sha512 s),
              ''sha256'' \<mapsto> fromhex (sb_sha256 s), ''sha1'' \<mapsto> fromhex (sb_sha1 s)] ++ extra)) (\<lambda>c. Inr (c \<or> compared))
       else Inr compared) (\<lambda>compared.
     if ex_require e \<and> \<not> compared then Inl NothingToVerify else Inr ()))"

definition digest_required :: "bool option option \<Rightarrow> bool" where
  \<comment> \<open>the upstream, when there is one, and its setting\<close>
  "digest_required upstream = (case upstream of None \<Rightarrow> False | Some None \<Rightarrow> True | Some (Some b) \<Rightarrow> b)"

subsection \<open>The download\<close>

datatype body_event = Piece string | Broken artifact_error

fun download :: "nat \<Rightarrow> string \<Rightarrow> body_event list \<Rightarrow> artifact_error + string" where
  \<comment> \<open>the limit (0 is none) and what has been written\<close>
  "download limit written [] = Inr written"
| "download limit written (Broken e # es) = Inl e"
| "download limit written (Piece c # es) =
     (if c = [] then download limit written es
      else if limit \<noteq> 0 \<and> limit < length written + length c then Inl TooLarge
      else download limit (written @ c) es)"

definition extra_digests :: "(string \<Rightarrow> string \<Rightarrow> string) \<Rightarrow> expected_digests \<Rightarrow> string \<Rightarrow> string \<rightharpoonup> string" where
  "extra_digests hash e data = (if sri_algorithm (case ex_integrity e of None \<Rightarrow> [] | Some i \<Rightarrow> i) = Some ''sha384''
     then [''sha384'' \<mapsto> hash ''sha384'' data] else Map.empty)"

definition verified_download ::
  "(string \<Rightarrow> string \<Rightarrow> string) \<Rightarrow> nat \<Rightarrow> expected_digests \<Rightarrow> body_event list \<Rightarrow> artifact_error + string" where
  \<comment> \<open>the part of \<open>_run_fill\<close> before the bytes are adopted\<close>
  "verified_download hash limit e events = sum_bind (download limit [] events) (\<lambda>data.
     if ex_verify e then sum_bind (verify_digests e (digests_stored hash data) (extra_digests hash e data)) (\<lambda>_. Inr data)
     else Inr data)"

end
