(* ===== verification/Artifact_Store.thy ===== *)
theory Artifact_Store
  imports Artifact_Verify "HOL-Library.AList"
begin

section \<open>The artifact store (\<open>services/artifacts.py\<close>, \<open>services/storage.py\<close>)\<close>

text \<open>
  The tables of files and blobs, the upstreams a file can come from, and the blob files on disk with
  the time they were last modified. Each transaction of the code is one function from the tables to
  the tables. A row of \<open>package_files\<close> carries the columns of its version and package that the code
  joins; times are seconds and the clock is an argument.
\<close>

record artifact_file =
  af_id :: nat
  af_package :: nat
  af_eco :: string
  af_local :: bool \<comment> \<open>\<open>is_local\<close> of its version\<close>
  af_name :: string
  af_blob :: "string option"
  af_size :: "nat option"
  af_type :: string
  af_sha256 :: "string option"
  af_sha1 :: "string option"
  af_md5 :: "string option"
  af_blake2b :: "string option"
  af_integrity :: "string option"
  af_url :: "string option"
  af_upstream :: "nat option"
  af_cached :: "int option"
  af_downloads :: nat

record stored_row =
  bl_sha :: string
  bl_size :: nat
  bl_path :: string
  bl_refs :: int
  bl_accessed :: int
  bl_reads :: nat

record source_row =
  so_id :: nat
  so_enabled :: bool
  so_require :: "bool option"

record artifact_db =
  ar_blobs :: "stored_row list"
  ar_files :: "artifact_file list"
  ar_sources :: "source_row list"
  ar_disk :: "(string \<times> string \<times> int) list" \<comment> \<open>name, bytes, time of the last modification\<close>
  ar_staging :: "(string \<times> int) list" \<comment> \<open>the files of \<open>tmp\<close> and \<open>partial\<close>\<close>

subsection \<open>Blob files\<close>

definition on_disk :: "string \<Rightarrow> artifact_db \<Rightarrow> (string \<times> int) option" where
  "on_disk sha db = map_of (ar_disk db) sha"

definition store_exists :: "string \<Rightarrow> artifact_db \<Rightarrow> bool" where
  "store_exists sha db = (on_disk sha db \<noteq> None)"

definition size_of :: "string \<Rightarrow> artifact_db \<Rightarrow> nat option" where
  "size_of sha db = map_option (\<lambda>(bytes, _). length bytes) (on_disk sha db)"

definition adopt :: "string \<Rightarrow> string \<Rightarrow> int \<Rightarrow> artifact_db \<Rightarrow> artifact_db" where
  "adopt sha bytes now db = db\<lparr>ar_disk := AList.update sha (bytes, now) (ar_disk db)\<rparr>"

definition store_bytes :: "(string \<Rightarrow> string \<Rightarrow> string) \<Rightarrow> int \<Rightarrow> string \<Rightarrow> artifact_db \<Rightarrow> (stored_blob \<times> bool) \<times> artifact_db" where
  \<comment> \<open>an existing file keeps its bytes and is only touched\<close>
  "store_bytes hash now data db = (let stored = digests_stored hash data; sha = sb_sha256 stored in
     (case on_disk sha db of
       None \<Rightarrow> ((stored, False), adopt sha data now db)
     | Some (bytes, _) \<Rightarrow> ((stored, True), adopt sha bytes now db)))"

definition unlink_blob :: "string \<Rightarrow> artifact_db \<Rightarrow> artifact_db" where
  "unlink_blob sha db = db\<lparr>ar_disk := AList.delete sha (ar_disk db)\<rparr>"

definition delete_if_older :: "string \<Rightarrow> int \<Rightarrow> artifact_db \<Rightarrow> nat \<times> artifact_db" where
  "delete_if_older sha cutoff db = (case on_disk sha db of
       None \<Rightarrow> (0, db)
     | Some (bytes, mtime) \<Rightarrow> if cutoff \<le> mtime then (0, db) else (length bytes, unlink_blob sha db))"

definition is_hex_name :: "string \<Rightarrow> bool" where
  \<comment> \<open>\<open>int(name, 16)\<close>, which takes a sign, \<open>0x\<close> and single underscores, of a lower-case name\<close>
  "is_hex_name name = (let
     s = py_strip name;
     s = (case s of c # cs \<Rightarrow> if c \<in> {CHR ''+'', CHR ''-''} then cs else s | [] \<Rightarrow> []);
     s = (if starts_with s ''0x'' then (case drop 2 s of c # cs \<Rightarrow> if c = CHR ''_'' then cs else c # cs | [] \<Rightarrow> []) else s)
     in list_all (\<lambda>g. g \<noteq> [] \<and> list_all (\<lambda>c. is_digit c \<or> c \<in> set ''abcdef'') g) (split_on (CHR ''_'') s)
        \<and> name = py_lower name)"

subsection \<open>Rows\<close>

definition blob_of :: "string \<Rightarrow> artifact_db \<Rightarrow> stored_row option" where
  "blob_of sha db = find (\<lambda>b. bl_sha b = sha) (ar_blobs db)"

definition file_of :: "nat \<Rightarrow> artifact_db \<Rightarrow> artifact_file option" where
  "file_of fid db = find (\<lambda>f. af_id f = fid) (ar_files db)"

definition put_file :: "artifact_file \<Rightarrow> artifact_db \<Rightarrow> artifact_db" where
  "put_file f db = db\<lparr>ar_files := map (\<lambda>x. if af_id x = af_id f then f else x) (ar_files db)\<rparr>"

definition put_blob :: "stored_row \<Rightarrow> artifact_db \<Rightarrow> artifact_db" where
  "put_blob b db = db\<lparr>ar_blobs := map (\<lambda>x. if bl_sha x = bl_sha b then b else x) (ar_blobs db)\<rparr>"

definition add_blob :: "stored_blob \<Rightarrow> int \<Rightarrow> artifact_db \<Rightarrow> artifact_db" where
  "add_blob s now db = db\<lparr>ar_blobs := ar_blobs db @ [\<lparr>bl_sha = sb_sha256 s, bl_size = sb_size s, bl_path = sb_path s,
     bl_refs = 1, bl_accessed = now, bl_reads = 0\<rparr>]\<rparr>"

definition drop_blob :: "string \<Rightarrow> artifact_db \<Rightarrow> artifact_db" where
  "drop_blob sha db = db\<lparr>ar_blobs := filter (\<lambda>b. bl_sha b \<noteq> sha) (ar_blobs db)\<rparr>"

definition stored_bytes :: "artifact_db \<Rightarrow> nat" where
  "stored_bytes db = sum_list (map bl_size (ar_blobs db))"

subsection \<open>Recording a download\<close>

definition or_given :: "string option \<Rightarrow> string \<Rightarrow> string option" where
  "or_given x d = (if given x then x else Some d)"

definition release_ref :: "string \<Rightarrow> artifact_db \<Rightarrow> artifact_db" where
  \<comment> \<open>one reference less; the row goes with the last one\<close>
  "release_ref sha db = (case blob_of sha db of
       None \<Rightarrow> db
     | Some b \<Rightarrow> if bl_refs b - 1 \<le> 0 then drop_blob sha db else put_blob (b\<lparr>bl_refs := bl_refs b - 1\<rparr>) db)"

definition record_blob :: "int \<Rightarrow> nat \<Rightarrow> stored_blob \<Rightarrow> artifact_db \<Rightarrow> artifact_error + artifact_db" where
  "record_blob now fid s db = (case file_of fid db of
       None \<Rightarrow> Inl FileDeleted
     | Some f \<Rightarrow> if \<not> store_exists (sb_sha256 s) db then Inl BlobVanished
       else (let
         db1 = (if af_blob f \<noteq> Some (sb_sha256 s) then (let
                 db0 = (if given (af_blob f) then release_ref (the (af_blob f)) db else db) in
                 (case blob_of (sb_sha256 s) db of
                   None \<Rightarrow> add_blob s now db0
                 | Some b \<Rightarrow> put_blob (b\<lparr>bl_refs := bl_refs b + 1, bl_accessed := now\<rparr>) db0))
               else (case blob_of (sb_sha256 s) db of None \<Rightarrow> add_blob s now db | Some _ \<Rightarrow> db))
         in Inr (put_file (f\<lparr>af_blob := Some (sb_sha256 s), af_size := Some (sb_size s), af_cached := Some now,
              af_sha256 := or_given (af_sha256 f) (sb_sha256 s), af_sha1 := or_given (af_sha1 f) (sb_sha1 s),
              af_md5 := or_given (af_md5 f) (sb_md5 s), af_blake2b := or_given (af_blake2b f) (sb_blake2b s),
              af_integrity := or_given (af_integrity f) (stored_integrity s)\<rparr>) db1)))"

subsection \<open>Quota and eviction\<close>

definition EVICT_GRACE :: int where "EVICT_GRACE = 600"

definition low_water :: "nat \<Rightarrow> nat" where
  \<comment> \<open>\<open>int(quota * LOW_WATER)\<close>, 0.9 taken exactly\<close>
  "low_water quota = quota * 9 div 10"

definition source_disabled :: "artifact_db \<Rightarrow> nat option \<Rightarrow> bool" where
  "source_disabled db u = (\<exists>s \<in> set (ar_sources db). u = Some (so_id s) \<and> \<not> so_enabled s)"

definition has_local_reference :: "artifact_db \<Rightarrow> string \<Rightarrow> bool" where
  "has_local_reference db sha = (\<exists>f \<in> set (ar_files db). af_blob f = Some sha \<and>
     (af_url f = None \<or> source_disabled db (af_upstream f)))"

definition evictable :: "int \<Rightarrow> artifact_db \<Rightarrow> stored_row \<Rightarrow> bool" where
  "evictable cutoff db b = (bl_accessed b < cutoff \<and> \<not> has_local_reference db (bl_sha b))"

definition lru_key :: "stored_row \<Rightarrow> int \<times> string" where
  "lru_key b = (bl_accessed b, bl_sha b)"

text \<open>
  One batch: the candidates after the last one looked at, least recently read first. A row is looked
  at again before it is evicted; \<open>used\<close> is the total when the eviction began.
\<close>

definition past :: "(int \<times> string) option \<Rightarrow> stored_row \<Rightarrow> bool" where
  "past after b = (case after of None \<Rightarrow> True | Some k \<Rightarrow> k < lru_key b)"

definition evict_candidates :: "int \<Rightarrow> (int \<times> string) option \<Rightarrow> artifact_db \<Rightarrow> stored_row list" where
  "evict_candidates cutoff after db = take 200 (sort_key lru_key
     (filter (\<lambda>b. evictable cutoff db b \<and> past after b) (ar_blobs db)))"

definition forget_blob :: "string \<Rightarrow> artifact_db \<Rightarrow> artifact_db" where
  "forget_blob sha db = drop_blob sha (db\<lparr>ar_files := map (\<lambda>f. if af_blob f = Some sha
     then f\<lparr>af_blob := None, af_cached := None\<rparr> else f) (ar_files db)\<rparr>)"

fun evict_rows :: "nat \<Rightarrow> nat \<Rightarrow> int \<Rightarrow> stored_row list \<Rightarrow> nat \<times> string list \<times> artifact_db \<Rightarrow> nat \<times> string list \<times> artifact_db" where
  "evict_rows used target cutoff [] st = st"
| "evict_rows used target cutoff (b # bs) (freed, victims, db) =
     (if used \<le> target + freed then (freed, victims, db)
      else if \<not> (\<exists>x \<in> set (ar_blobs db). bl_sha x = bl_sha b \<and> evictable cutoff db x)
        then evict_rows used target cutoff bs (freed, victims, db)
      else evict_rows used target cutoff bs (freed + bl_size b, victims @ [bl_sha b], forget_blob (bl_sha b) db))"

lemma evict_rows_blobs:
  "evict_rows used target cutoff bs (freed, victims, db) = (freed', victims', db') \<Longrightarrow>
   \<exists>P. ar_blobs db' = filter P (ar_blobs db)"
proof (induction bs arbitrary: freed victims db)
  case Nil
  then show ?case by (auto intro: exI [of _ "\<lambda>_. True"])
next
  case (Cons b bs)
  show ?case
  proof (cases "used \<le> target + freed")
    case True
    with Cons.prems show ?thesis by (auto intro: exI [of _ "\<lambda>_. True"])
  next
    case False
    show ?thesis
    proof (cases "\<exists>x \<in> set (ar_blobs db). bl_sha x = bl_sha b \<and> evictable cutoff db x")
      case True
      with Cons.prems False
      have "evict_rows used target cutoff bs (freed + bl_size b, victims @ [bl_sha b], forget_blob (bl_sha b) db) = (freed', victims', db')"
        by simp
      from Cons.IH [OF this] show ?thesis
        by (auto simp: forget_blob_def drop_blob_def)
    next
      case False
      with Cons.prems \<open>\<not> used \<le> target + freed\<close>
      have "evict_rows used target cutoff bs (freed, victims, db) = (freed', victims', db')" by simp
      then show ?thesis by (rule Cons.IH)
    qed
  qed
qed

definition later_blobs :: "(int \<times> string) option \<Rightarrow> artifact_db \<Rightarrow> nat" where
  "later_blobs after db = length (filter (past after) (ar_blobs db))"

lemma candidates_in:
  "b \<in> set (evict_candidates cutoff after db) \<Longrightarrow> b \<in> set (ar_blobs db) \<and> evictable cutoff db b \<and> past after b"
  by (auto simp: evict_candidates_def dest!: in_set_takeD)

lemma past_trans: "past after l \<Longrightarrow> past (Some (lru_key l)) b \<Longrightarrow> past after b"
  by (auto simp: past_def split: option.splits)

lemma batch_progress:
  assumes "evict_candidates cutoff after db \<noteq> []" "ar_blobs db' = filter P (ar_blobs db)"
  shows "later_blobs (Some (lru_key (List.last (evict_candidates cutoff after db)))) db' < later_blobs after db"
proof -
  define l where "l = List.last (evict_candidates cutoff after db)"
  have "l \<in> set (evict_candidates cutoff after db)" using assms(1) by (simp add: l_def)
  then have l: "l \<in> set (ar_blobs db)" "past after l" by (auto dest: candidates_in)
  have not: "\<not> past (Some (lru_key l)) l" by (simp add: past_def)
  have "filter (past (Some (lru_key l))) (ar_blobs db') =
      filter (\<lambda>b. past (Some (lru_key l)) b \<and> P b) (filter (past after) (ar_blobs db))"
    using past_trans [OF l(2)] by (auto simp: assms(2) intro!: filter_cong)
  also have "length \<dots> < length (filter (past after) (ar_blobs db))"
    by (rule length_filter_less [of l]) (use l not in auto)
  finally show ?thesis by (simp add: later_blobs_def l_def)
qed

lemma fold_delete_fields [simp]:
  "ar_blobs (fold unlink_blob shas db) = ar_blobs db" "ar_files (fold unlink_blob shas db) = ar_files db"
  "ar_sources (fold unlink_blob shas db) = ar_sources db"
  by (induction shas arbitrary: db) (simp_all add: unlink_blob_def)

lemma evict_rows_progress:
  assumes "evict_candidates cutoff after db \<noteq> []"
    "evict_rows used target cutoff (evict_candidates cutoff after db) (freed, [], db) = (freed', victims, db')"
  shows "later_blobs (Some (lru_key (List.last (evict_candidates cutoff after db)))) (fold unlink_blob victims db')
    < later_blobs after db"
proof -
  obtain P where "ar_blobs db' = filter P (ar_blobs db)" using evict_rows_blobs [OF assms(2)] by blast
  from batch_progress [OF assms(1) this] show ?thesis by (simp add: later_blobs_def)
qed

function evict_loop :: "nat \<Rightarrow> nat \<Rightarrow> int \<Rightarrow> (int \<times> string) option \<Rightarrow> nat \<Rightarrow> nat \<Rightarrow> artifact_db \<Rightarrow> (nat \<times> nat) \<times> artifact_db" where
  \<comment> \<open>what it evicted, and what that freed; the files go once the rows are committed\<close>
  "evict_loop used target cutoff after evicted freed db =
     (if used \<le> target + freed then ((evicted, freed), db)
      else if evict_candidates cutoff after db = [] then ((evicted, freed), db)
      else (case evict_rows used target cutoff (evict_candidates cutoff after db) (freed, [], db) of
        (freed', victims, db') \<Rightarrow>
          evict_loop used target cutoff (Some (lru_key (List.last (evict_candidates cutoff after db))))
            (evicted + length victims) freed' (fold unlink_blob victims db')))"
  by pat_completeness auto

termination
  by (relation "measure (\<lambda>(used, target, cutoff, after, evicted, freed, db). later_blobs after db)")
    (simp_all add: evict_rows_progress [OF _ sym])

declare evict_loop.simps [simp del]

definition evict_to :: "nat \<Rightarrow> int \<Rightarrow> artifact_db \<Rightarrow> (nat \<times> nat) \<times> artifact_db" where
  "evict_to target now db = evict_loop (stored_bytes db) target (now - EVICT_GRACE) None 0 0 db"

definition make_room :: "nat \<Rightarrow> nat \<Rightarrow> int \<Rightarrow> artifact_db \<Rightarrow> (artifact_error + unit) \<times> artifact_db" where
  \<comment> \<open>what was evicted stays evicted when it was not enough\<close>
  "make_room quota incoming now db = (if quota = 0 then (Inr (), db)
     else if stored_bytes db + incoming < quota then (Inr (), db)
     else (let db' = snd (evict_to (low_water quota - incoming) now db) in
       if quota \<le> stored_bytes db' + incoming then (Inl QuotaFull, db') else (Inr (), db')))"

definition enforce_quota :: "nat \<Rightarrow> int \<Rightarrow> artifact_db \<Rightarrow> artifact_db" where
  "enforce_quota quota now db = (if quota = 0 \<or> stored_bytes db \<le> quota then db
     else snd (evict_to (low_water quota) now db))"

subsection \<open>Purging and collecting\<close>

definition purge_row :: "nat \<Rightarrow> artifact_db \<Rightarrow> bool \<times> artifact_db" where
  "purge_row fid db = (case file_of fid db of
       None \<Rightarrow> (False, db)
     | Some f \<Rightarrow> if \<not> given (af_blob f) then (False, db)
       else (let sha = the (af_blob f); db1 = put_file (f\<lparr>af_blob := None, af_cached := None\<rparr>) db in
         (case blob_of sha db1 of
           None \<Rightarrow> (True, db1)
         | Some b \<Rightarrow> (True, if bl_refs b - 1 \<le> 0 then unlink_blob sha (drop_blob sha db1)
             else put_blob (b\<lparr>bl_refs := bl_refs b - 1\<rparr>) db1))))"

fun purge_rows :: "nat list \<Rightarrow> artifact_db \<Rightarrow> nat \<times> artifact_db" where
  "purge_rows [] db = (0, db)"
| "purge_rows (fid # fids) db = (case purge_row fid db of (done_, db1) \<Rightarrow>
     (case purge_rows fids db1 of (n, db2) \<Rightarrow> ((if done_ then 1 else 0) + n, db2)))"

definition unreferenced :: "artifact_db \<Rightarrow> stored_row \<Rightarrow> bool" where
  "unreferenced db b = (\<not> (\<exists>f \<in> set (ar_files db). af_blob f = Some (bl_sha b)))"

lemma fold_drop_blobs: "ar_blobs (fold (\<lambda>sha d. unlink_blob sha (drop_blob sha d)) shas db) =
    filter (\<lambda>b. bl_sha b \<notin> set shas) (ar_blobs db)"
  by (induction shas arbitrary: db) (auto simp: unlink_blob_def drop_blob_def intro!: filter_cong)

function collect_orphans :: "artifact_db \<Rightarrow> nat \<times> artifact_db" where
  "collect_orphans db = (let batch = map bl_sha (take 500 (filter (unreferenced db) (ar_blobs db))) in
     if batch = [] then (0, db)
     else (let db' = fold (\<lambda>sha d. unlink_blob sha (drop_blob sha d)) batch db in
       if length batch < 500 then (length batch, db')
       else (case collect_orphans db' of (n, db'') \<Rightarrow> (length batch + n, db''))))"
  by pat_completeness auto

termination
proof (relation "measure (\<lambda>db. length (ar_blobs db))")
  fix db x xa
  assume x: "x = map bl_sha (take 500 (filter (unreferenced db) (ar_blobs db)))" and ne: "x \<noteq> []"
    and xa: "xa = fold (\<lambda>sha d. unlink_blob sha (drop_blob sha d)) x db"
  define bs where "bs = take 500 (filter (unreferenced db) (ar_blobs db))"
  from ne obtain b where b: "b \<in> set bs" unfolding x bs_def [symmetric] by (cases bs) auto
  then have "b \<in> set (ar_blobs db)" unfolding bs_def by (auto dest: in_set_takeD)
  moreover have "bl_sha b \<in> set x" using b unfolding x bs_def [symmetric] by simp
  ultimately show "(xa, db) \<in> measure (\<lambda>db. length (ar_blobs db))"
    unfolding xa by (simp add: fold_drop_blobs length_filter_less)
qed simp

declare collect_orphans.simps [simp del]

definition scan_shard :: "string \<Rightarrow> int \<Rightarrow> artifact_db \<Rightarrow> string list" where
  "scan_shard shard cutoff db = map fst (filter (\<lambda>(name, bytes, mtime). take 2 name = shard \<and> length name = 64 \<and>
     is_hex_name name \<and> mtime < cutoff) (ar_disk db))"

definition shard_dirs :: "artifact_db \<Rightarrow> string list" where
  "shard_dirs db = sort (remdups (map (\<lambda>(name, _). take 2 name) (ar_disk db)))"

definition sweep_one :: "int \<Rightarrow> string \<Rightarrow> (nat \<times> nat) \<times> artifact_db \<Rightarrow> (nat \<times> nat) \<times> artifact_db" where
  "sweep_one cutoff sha = (\<lambda>((removed, freed), db). if blob_of sha db \<noteq> None then ((removed, freed), db)
     else (case delete_if_older sha cutoff db of (bytes, db') \<Rightarrow>
       (if bytes \<noteq> 0 then (removed + 1, freed + bytes) else (removed, freed), db')))"

definition sweep_orphan_files :: "int \<Rightarrow> artifact_db \<Rightarrow> (nat \<times> nat) \<times> artifact_db" where
  \<comment> \<open>the rows are looked up 500 names at a time, which changes nothing here\<close>
  "sweep_orphan_files cutoff db = fold (\<lambda>shard st. fold (sweep_one cutoff) (scan_shard shard cutoff (snd st)) st)
     (shard_dirs db) ((0, 0), db)"

definition ORPHAN_FILE_GRACE_SECONDS :: int where "ORPHAN_FILE_GRACE_SECONDS = 24 * 3600"

definition cleanup_tmp :: "int \<Rightarrow> artifact_db \<Rightarrow> nat \<times> artifact_db" where
  "cleanup_tmp cutoff db = (length (filter (\<lambda>(_, mtime). mtime < cutoff) (ar_staging db)),
     db\<lparr>ar_staging := filter (\<lambda>(_, mtime). \<not> mtime < cutoff) (ar_staging db)\<rparr>)"

definition artifact_housekeeping :: "nat \<Rightarrow> int \<Rightarrow> artifact_db \<Rightarrow> artifact_db" where
  "artifact_housekeeping quota now db = snd (cleanup_tmp (now - 3600) (enforce_quota quota now
     (snd (sweep_orphan_files (now - ORPHAN_FILE_GRACE_SECONDS) (snd (collect_orphans db))))))"

text \<open>What an administrator purges (\<open>api/admin/insights.py\<close>).\<close>

definition purge_package :: "nat \<Rightarrow> bool \<Rightarrow> artifact_db \<Rightarrow> nat \<times> artifact_db" where
  "purge_package pid purge_only db = (case purge_rows (map af_id (filter (\<lambda>f. af_package f = pid) (ar_files db))) db of
     (n, db') \<Rightarrow> (n, if purge_only then db' else db'\<lparr>ar_files := filter (\<lambda>f. af_package f \<noteq> pid) (ar_files db')\<rparr>))"

definition purgeable :: "string option \<Rightarrow> nat option \<Rightarrow> bool \<Rightarrow> int \<Rightarrow> artifact_db \<Rightarrow> nat list" where
  "purgeable eco older_than_days unused_only now db = map af_id (take 10000 (filter (\<lambda>f.
       af_blob f \<noteq> None \<and> \<not> af_local f \<and>
       (case older_than_days of None \<Rightarrow> True | Some d \<Rightarrow> (case af_cached f of None \<Rightarrow> False | Some t \<Rightarrow> t < now - int d * 86400)) \<and>
       (unused_only \<longrightarrow> af_downloads f = 0) \<and> (case eco of None \<Rightarrow> True | Some e \<Rightarrow> af_eco f = e))
     (ar_files db)))"

definition purge_cache :: "string option \<Rightarrow> nat option \<Rightarrow> bool \<Rightarrow> int \<Rightarrow> artifact_db \<Rightarrow> nat \<times> artifact_db" where
  "purge_cache eco older_than_days unused_only now db =
     (case purge_rows (purgeable eco older_than_days unused_only now db) db of (n, db1) \<Rightarrow> (n, snd (collect_orphans db1)))"

definition garbage_collect :: "int \<Rightarrow> artifact_db \<Rightarrow> nat \<times> nat \<times> artifact_db" where
  "garbage_collect now db = (case collect_orphans db of (n, db1) \<Rightarrow>
     (case cleanup_tmp (now - 3600) db1 of (m, db2) \<Rightarrow> (n, m, db2)))"

end
