(* ===== verification/Artifact_Fill.thy ===== *)
theory Artifact_Fill
  imports Artifact_Store
begin

section \<open>Filling the store from an upstream (\<open>services/artifacts.py\<close>)\<close>

text \<open>
  A request for a file that is not cached becomes the download of it, joins a peer replica that holds
  the lease, or finds that it has been cached meanwhile. What the environment answers to one attempt
  -- the lease, the upstream's response, the pieces of the body, and what a peer left in the tables
  -- is an \<open>attempt\<close>.
\<close>

subsection \<open>Headers\<close>

definition int_of_header :: "string \<Rightarrow> int option" where
  \<comment> \<open>\<open>int(text)\<close>: blanks around, a sign, single underscores between digits\<close>
  "int_of_header text = (let
     s = py_strip text;
     (neg, t) = (case s of c # cs \<Rightarrow> if c = CHR ''-'' then (True, cs) else if c = CHR ''+'' then (False, cs) else (False, s)
       | [] \<Rightarrow> (False, []));
     groups = split_on (CHR ''_'') t
     in if list_all (\<lambda>g. g \<noteq> [] \<and> list_all is_digit g) groups
        then Some ((if neg then - 1 else 1) * int (nat_of_digits (concat groups))) else None)"

definition declared_length :: "string option \<Rightarrow> string option \<Rightarrow> nat option" where
  \<comment> \<open>\<open>Content-Encoding\<close> and \<open>Content-Length\<close>\<close>
  "declared_length encoding content_length = (let
     e = py_lower (py_strip (case encoding of None \<Rightarrow> [] | Some s \<Rightarrow> s))
     in if e \<noteq> [] \<and> e \<noteq> ''identity'' then None
        else (case int_of_header (case content_length of None \<Rightarrow> [] | Some s \<Rightarrow> s) of
          None \<Rightarrow> None | Some v \<Rightarrow> if 0 \<le> v then Some (nat v) else None))"

subsection \<open>Without an upstream row\<close>

text \<open>
  A URL of a merged document is fetched with the shared client, redirects followed by hand; beside
  the outcome, the URLs requested.
\<close>

definition ARTIFACT_REDIRECTS :: nat where "ARTIFACT_REDIRECTS = 5"

fun anonymous_hops ::
  "(string \<Rightarrow> bool) \<Rightarrow> (string \<Rightarrow> nat \<times> string option) \<Rightarrow> (string \<Rightarrow> string \<Rightarrow> string) \<Rightarrow> nat \<Rightarrow> string \<Rightarrow>
   (artifact_error + nat) \<times> string list" where
  "anonymous_hops fetchable send join 0 current = (Inl UpstreamFailed, [])"
| "anonymous_hops fetchable send join (Suc n) current = (case send current of (code, location) \<Rightarrow>
     if code \<notin> {301, 302, 303, 307, 308} then (if 400 \<le> code then Inl UpstreamFailed else Inr code, [current])
     else if \<not> given location then (Inl UpstreamFailed, [current])
     else (let target = join current (the location) in
       if \<not> fetchable target then (Inl RefusedFetch, [current])
       else (case anonymous_hops fetchable send join n target of (out, urls) \<Rightarrow> (out, current # urls))))"

definition open_anonymous ::
  "(string \<Rightarrow> bool) \<Rightarrow> (string \<Rightarrow> nat \<times> string option) \<Rightarrow> (string \<Rightarrow> string \<Rightarrow> string) \<Rightarrow> string \<Rightarrow>
   (artifact_error + nat) \<times> string list" where
  "open_anonymous fetchable send join url = (if \<not> fetchable url then (Inl RefusedFetch, [])
     else anonymous_hops fetchable send join (ARTIFACT_REDIRECTS + 1) url)"

subsection \<open>One download\<close>

definition expected_of :: "bool \<Rightarrow> bool option option \<Rightarrow> artifact_file \<Rightarrow> expected_digests" where
  "expected_of verify upstream f = \<lparr>ex_sha256 = af_sha256 f, ex_sha1 = af_sha1 f, ex_md5 = af_md5 f,
     ex_blake2b = af_blake2b f, ex_integrity = af_integrity f, ex_require = digest_required upstream, ex_verify = verify\<rparr>"

definition run_fill ::
  "(string \<Rightarrow> string \<Rightarrow> string) \<Rightarrow> nat \<Rightarrow> int \<Rightarrow> nat \<Rightarrow> expected_digests \<Rightarrow> body_event list \<Rightarrow> artifact_db \<Rightarrow>
   (artifact_error + string) \<times> artifact_db" where
  \<comment> \<open>bytes adopted before their row could be written stay on disk, for the sweep\<close>
  "run_fill hash limit now fid e events db = (case verified_download hash limit e events of
       Inl err \<Rightarrow> (Inl err, db)
     | Inr data \<Rightarrow> (let s = digests_stored hash data; db1 = adopt (sb_sha256 s) data now db in
         (case record_blob now fid s db1 of
           Inl err \<Rightarrow> (Inl err, db1)
         | Inr db2 \<Rightarrow> (Inr (sb_sha256 s), db2))))"

record fill_settings =
  fs_hash :: "string \<Rightarrow> string \<Rightarrow> string"
  fs_limit :: nat
  fs_quota :: nat

record attempt =
  at_now :: int
  at_lease :: bool
  at_open :: "artifact_error + string option \<times> string option"
  at_body :: "body_event list"
  at_peer :: "artifact_db option"

datatype fill_opening = Peer | Already_cached | Filling expected_digests "nat option"

definition source_of :: "artifact_file \<Rightarrow> artifact_db \<Rightarrow> artifact_error + source_row option" where
  \<comment> \<open>the upstream of a file: none, one that is enabled, or a refusal\<close>
  "source_of f db = (case af_upstream f of
       None \<Rightarrow> Inr None
     | Some u \<Rightarrow> if u = 0 then Inr None
       else (case find (\<lambda>s. so_id s = u) (ar_sources db) of
         None \<Rightarrow> Inl UpstreamGone
       | Some s \<Rightarrow> if so_enabled s then Inr (Some s) else Inl UpstreamDisabled))"

definition cached :: "artifact_db \<Rightarrow> artifact_file \<Rightarrow> bool" where
  "cached db f = (given (af_blob f) \<and> store_exists (the (af_blob f)) db)"

definition open_fill :: "fill_settings \<Rightarrow> bool \<Rightarrow> nat \<Rightarrow> attempt \<Rightarrow> artifact_db \<Rightarrow> (artifact_error + fill_opening) \<times> artifact_db" where
  "open_fill s verify fid a db = (if \<not> at_lease a then (Inr Peer, db)
     else (case file_of fid db of
       None \<Rightarrow> (Inl FileDeleted, db)
     | Some f \<Rightarrow> if cached db f then (Inr Already_cached, db)
       else if \<not> given (af_url f) then (Inl NoUpstreamUrl, db)
       else (case source_of f db of
         Inl e \<Rightarrow> (Inl e, db)
       | Inr upstream \<Rightarrow> (case make_room (fs_quota s) (case af_size f of None \<Rightarrow> 0 | Some n \<Rightarrow> n) (at_now a) db of
           (Inl e, db1) \<Rightarrow> (Inl e, db1)
         | (Inr _, db1) \<Rightarrow> (case at_open a of
             Inl e \<Rightarrow> (Inl e, db1)
           | Inr (encoding, content_length) \<Rightarrow> (let declared = declared_length encoding content_length in
               if (case declared of None \<Rightarrow> False | Some n \<Rightarrow> fs_limit s \<noteq> 0 \<and> fs_limit s < n) then (Inl TooLarge, db1)
               else (Inr (Filling (expected_of verify (map_option so_require upstream) f)
                 (case declared of None \<Rightarrow> af_size f | Some n \<Rightarrow> Some n)), db1)))))))"

subsection \<open>Caching a file\<close>

definition settle :: "nat \<Rightarrow> artifact_db \<Rightarrow> (artifact_error + unit) \<times> artifact_db" where
  \<comment> \<open>the row is read again after the download committed\<close>
  "settle fid db = ((case file_of fid db of None \<Rightarrow> Inl FileDeleted
     | Some f \<Rightarrow> if cached db f then Inr () else Inl NotCached), db)"

fun obtain_file :: "fill_settings \<Rightarrow> bool \<Rightarrow> nat \<Rightarrow> attempt list \<Rightarrow> artifact_db \<Rightarrow> (artifact_error + unit) \<times> artifact_db" where
  "obtain_file s verify fid [] db = settle fid db"
| "obtain_file s verify fid (a # as) db = (case open_fill s verify fid a db of
       (Inl e, db1) \<Rightarrow> (Inl e, db1)
     | (Inr Already_cached, db1) \<Rightarrow> settle fid db1
     | (Inr Peer, db1) \<Rightarrow> (case at_peer a of None \<Rightarrow> (Inl PeerTimedOut, db1) | Some db2 \<Rightarrow> obtain_file s verify fid as db2)
     | (Inr (Filling e promised), db1) \<Rightarrow> (case run_fill (fs_hash s) (fs_limit s) (at_now a) fid e (at_body a) db1 of
         (Inl err, db2) \<Rightarrow> (Inl err, db2)
       | (Inr sha, db2) \<Rightarrow> settle fid db2))"

definition ensure_cached :: "fill_settings \<Rightarrow> bool \<Rightarrow> nat \<Rightarrow> attempt list \<Rightarrow> artifact_db \<Rightarrow> (artifact_error + unit) \<times> artifact_db" where
  "ensure_cached s verify fid attempts db = (case file_of fid db of
       None \<Rightarrow> (Inl FileDeleted, db)
     | Some f \<Rightarrow> if cached db f then (Inr (), db)
       else if \<not> given (af_url f) then (Inl NoUpstreamUrl, db)
       else obtain_file s verify fid (take 3 attempts) db)"

definition stream_artifact ::
  "fill_settings \<Rightarrow> nat \<Rightarrow> attempt list \<Rightarrow> int \<Rightarrow> artifact_db \<Rightarrow> (artifact_error + string \<times> nat \<times> string) \<times> artifact_db" where
  \<comment> \<open>the bytes, the size announced and the content type, where the download has finished\<close>
  "stream_artifact s fid attempts now db = (case ensure_cached s True fid attempts db of
       (Inl e, db1) \<Rightarrow> (Inl e, db1)
     | (Inr _, db1) \<Rightarrow> (case file_of fid db1 of
         None \<Rightarrow> (Inl FileDeleted, db1)
       | Some f \<Rightarrow> (let
           sha = the (af_blob f);
           bytes = (case on_disk sha db1 of None \<Rightarrow> [] | Some (b, _) \<Rightarrow> b);
           n = (case af_size f of Some (Suc k) \<Rightarrow> Suc k | _ \<Rightarrow> (case size_of sha db1 of None \<Rightarrow> 0 | Some k \<Rightarrow> k));
           db2 = (case blob_of sha db1 of None \<Rightarrow> db1
             | Some b \<Rightarrow> put_blob (b\<lparr>bl_accessed := now, bl_reads := bl_reads b + 1\<rparr>) db1)
           in (Inr (bytes, n, af_type f), db2))))"

subsection \<open>Publishing\<close>

definition publish_file ::
  "(string \<Rightarrow> string \<Rightarrow> string) \<Rightarrow> int \<Rightarrow> artifact_file \<Rightarrow> string \<Rightarrow> artifact_db \<Rightarrow> artifact_db" where
  \<comment> \<open>what \<open>publish\<close> of \<open>api/npm.py\<close> and \<open>upload\<close> of \<open>api/pypi.py\<close> store for a file\<close>
  "publish_file hash now f data db = (let
     ((s, existed), db1) = store_bytes hash now data db;
     db2 = (case blob_of (sb_sha256 s) db1 of None \<Rightarrow> add_blob s now db1
       | Some b \<Rightarrow> put_blob (b\<lparr>bl_refs := bl_refs b + 1\<rparr>) db1)
     in db2\<lparr>ar_files := ar_files db2 @ [f\<lparr>af_local := True, af_url := None, af_upstream := None,
          af_blob := Some (sb_sha256 s), af_size := Some (sb_size s)\<rparr>]\<rparr>)"

end
