(* ===== verification/Artifact_Verify_Spec.thy ===== *)
theory Artifact_Verify_Spec
  imports Artifact_Fill
begin

section \<open>Downloaded artifacts: what is stored is what was announced\<close>

text \<open>
  What a download that is accepted satisfies: every digest the upstream announced was compared with
  the bytes, a subresource-integrity string by its strongest algorithm.
\<close>

subsection \<open>Hexadecimal\<close>

lemma nibble_cases: "n < 16 \<Longrightarrow> n \<in> {0, 1, 2, 3, 4, 5, 6, 7, 8, 9, 10, 11, 12, 13, 14, 15 :: nat}"
  by (simp, presburger)

lemma unnibble_nibble: "n < 16 \<Longrightarrow> unnibble (nibble n) = n"
  by (drule nibble_cases) (auto simp: nibble_def is_digit_def)

lemma nibble_lower: "n < 16 \<Longrightarrow> lower_char (nibble n) = nibble n"
  by (drule nibble_cases) (auto simp: nibble_def lower_char_def)

lemma hexdigest_simps [simp]:
  "hexdigest [] = []"
  "hexdigest (b # bs) = nibble (of_char b div 16) # nibble (of_char b mod 16) # hexdigest bs"
  by (simp_all add: hexdigest_def Let_def)

lemma of_char_nibbles: "(of_char b :: nat) div 16 < 16"
proof -
  have "(of_char b :: nat) < 256" by (rule nat_of_char_less_256)
  then show ?thesis by (simp add: less_mult_imp_div_less)
qed

lemma fromhex_hexdigest [simp]: "fromhex (hexdigest bs) = bs"
proof (induction bs)
  case (Cons b bs)
  have "(of_char b :: nat) div 16 * 16 + of_char b mod 16 = of_char b" by simp
  with Cons show ?case by (simp add: unnibble_nibble of_char_nibbles del: unnibble.simps)
qed simp

lemma lower_hexdigest [simp]: "py_lower (hexdigest bs) = hexdigest bs"
  by (induction bs) (simp_all add: py_lower_def nibble_lower of_char_nibbles)

subsection \<open>Comparing\<close>

lemma compare_digests_ok:
  "compare_digests checks c = Inr c' \<Longrightarrow>
   list_all (\<lambda>(algorithm, expected, actual). given expected \<longrightarrow> py_lower (the expected) = py_lower actual) checks \<and>
   (c' \<longleftrightarrow> c \<or> list_ex (\<lambda>(algorithm, expected, actual). given expected) checks)"
  by (induction checks c rule: compare_digests.induct) (auto split: if_splits)

lemma check_sri_ok:
  assumes "check_sri integrity computed = Inr c"
  shows "case sri_algorithm integrity of None \<Rightarrow> \<not> c
     | Some a \<Rightarrow> (case computed a of None \<Rightarrow> \<not> c | Some d \<Rightarrow> c \<and> Some d \<in> set (parse_sri integrity a))"
  using assms by (auto simp: check_sri_def Let_def split: option.splits if_splits)

lemma sri_algorithm_known: "sri_algorithm integrity = Some a \<Longrightarrow> a \<in> set SRI_STRENGTH \<and> parse_sri integrity a \<noteq> []"
  by (auto simp: sri_algorithm_def find_Some_iff)

text \<open>The announcement of a file, as the client reads it.\<close>

definition announced :: "expected_digests \<Rightarrow> (string \<times> string option) list" where
  "announced e = [(''sha256'', ex_sha256 e), (''sha1'', ex_sha1 e), (''md5'', ex_md5 e), (''blake2b_256'', ex_blake2b e)]"

definition matches_announcement :: "(string \<Rightarrow> string \<Rightarrow> string) \<Rightarrow> expected_digests \<Rightarrow> string \<Rightarrow> bool" where
  "matches_announcement hash e data =
     (list_all (\<lambda>(algorithm, v). \<not> given v \<or> py_lower (the v) = hexdigest (hash algorithm data)) (announced e) \<and>
      (case sri_algorithm (case ex_integrity e of None \<Rightarrow> [] | Some i \<Rightarrow> i) of None \<Rightarrow> True
        | Some a \<Rightarrow> Some (hash a data) \<in> set (parse_sri (the (ex_integrity e)) a)))"

definition checkable :: "expected_digests \<Rightarrow> bool" where
  "checkable e = (list_ex (\<lambda>(algorithm, v). given v) (announced e) \<or>
     sri_algorithm (case ex_integrity e of None \<Rightarrow> [] | Some i \<Rightarrow> i) \<noteq> None)"

lemma parse_sri_empty [simp]: "parse_sri [] a = []"
  by (simp add: parse_sri_def split_ws.simps py_lstrip_def List.map_filter_simps)

lemma sri_algorithm_empty [simp]: "sri_algorithm [] = None"
  by (simp add: sri_algorithm_def SRI_STRENGTH_def)

lemma integrity_computed:
  assumes "sri_algorithm i = Some a" "ex_integrity e = Some i"
  shows "([''sha512'' \<mapsto> hash ''sha512'' data, ''sha256'' \<mapsto> hash ''sha256'' data, ''sha1'' \<mapsto> hash ''sha1'' data]
     ++ extra_digests hash e data) a = Some (hash a data)"
  using sri_algorithm_known [OF assms(1)] assms
  by (auto simp: SRI_STRENGTH_def extra_digests_def map_add_def)

lemma verified_matches:
  assumes "verify_digests e (digests_stored hash data) (extra_digests hash e data) = Inr ()"
  shows "matches_announcement hash e data \<and> (\<not> ex_require e \<or> checkable e)"
proof -
  let ?cs = "[(''sha256'', ex_sha256 e, hexdigest (hash ''sha256'' data)), (''sha1'', ex_sha1 e, hexdigest (hash ''sha1'' data)),
    (''md5'', ex_md5 e, hexdigest (hash ''md5'' data)), (''blake2b_256'', ex_blake2b e, hexdigest (hash ''blake2b_256'' data))]"
  obtain c where c: "compare_digests ?cs False = Inr c"
    using assms by (cases "compare_digests ?cs False") (auto simp: verify_digests_def digests_stored_def)
  note plain = compare_digests_ok [OF c]
  show ?thesis
  proof (cases "given (ex_integrity e)")
    case False
    then have "sri_algorithm (case ex_integrity e of None \<Rightarrow> [] | Some i \<Rightarrow> i) = None"
      by (auto simp: given_def split: option.splits)
    with assms plain c False show ?thesis
      by (auto simp: verify_digests_def digests_stored_def matches_announcement_def announced_def checkable_def
          split: if_splits)
  next
    case True
    then obtain i where i: "ex_integrity e = Some i" by (auto simp: given_def)
    let ?computed = "[''sha512'' \<mapsto> hash ''sha512'' data, ''sha256'' \<mapsto> hash ''sha256'' data, ''sha1'' \<mapsto> hash ''sha1'' data]
      ++ extra_digests hash e data"
    obtain d where d: "check_sri i ?computed = Inr d"
      using assms c True i by (cases "check_sri i ?computed") (auto simp: verify_digests_def digests_stored_def)
    have "(\<not> ex_require e \<or> d \<or> c)"
      using assms c d True i by (auto simp: verify_digests_def digests_stored_def split: if_splits)
    moreover from check_sri_ok [OF d] have
      "case sri_algorithm i of None \<Rightarrow> \<not> d | Some a \<Rightarrow> Some (hash a data) \<in> set (parse_sri i a)"
      using integrity_computed [OF _ i] by (cases "sri_algorithm i") auto
    ultimately show ?thesis
      using plain i by (auto simp: matches_announcement_def announced_def checkable_def split: option.splits)
  qed
qed

text \<open>The body, when nothing broke.\<close>

fun body_of :: "body_event list \<Rightarrow> string" where
  "body_of [] = []"
| "body_of (Piece c # es) = c @ body_of es"
| "body_of (Broken e # es) = body_of es"

lemma download_body:
  "download limit written es = Inr data \<Longrightarrow> data = written @ body_of es \<and>
   list_all (\<lambda>e. case e of Piece _ \<Rightarrow> True | Broken _ \<Rightarrow> False) es \<and> (limit = 0 \<or> length written \<le> limit \<longrightarrow> limit = 0 \<or> length data \<le> limit)"
  by (induction limit written es rule: download.induct) (auto split: if_splits)

text \<open>
  C6: A download is accepted only with the whole body of the response, within the size limit, and
  only when it matches everything the upstream announced: every hexadecimal digest, and the
  integrity string by one of the values of its strongest algorithm. Where the upstream must announce
  a digest, one was compared.
\<close>

theorem accepted_matches_announcement:
  assumes "verified_download hash limit e events = Inr data" "ex_verify e"
  shows "data = body_of events \<and> (limit = 0 \<or> length data \<le> limit) \<and>
    matches_announcement hash e data \<and> (\<not> ex_require e \<or> checkable e)"
proof -
  have d: "download limit [] events = Inr data"
    and v: "verify_digests e (digests_stored hash data) (extra_digests hash e data) = Inr ()"
    using assms by (auto simp: verified_download_def sum_bind_Inr_iff)
  from download_body [OF d] verified_matches [OF v] show ?thesis by auto
qed

definition sample_digest :: "string \<Rightarrow> string \<Rightarrow> string" where
  "sample_digest algorithm data = (if algorithm = ''sha1'' then take 20 (data @ replicate 20 (CHR ''.'')) else [CHR ''x''])"

definition sample_expected :: expected_digests where
  "sample_expected = \<lparr>ex_sha256 = None, ex_sha1 = Some (hexdigest (sample_digest ''sha1'' ''tarball'')), ex_md5 = None,
     ex_blake2b = None, ex_integrity = None, ex_require = True, ex_verify = True\<rparr>"

lemma accepted_matches_announcement_witness:
  "matches_announcement sample_digest sample_expected ''tarball''"
proof -
  have "given (ex_sha1 sample_expected)"
    by (simp add: sample_expected_def sample_digest_def given_def)
  then have "verified_download sample_digest 100 sample_expected [Piece ''tar'', Piece ''ball''] = Inr ''tarball''"
    by (simp add: verified_download_def verify_digests_def digests_stored_def sample_expected_def given_def)
  then show ?thesis
    using accepted_matches_announcement [of sample_digest 100 sample_expected "[Piece ''tar'', Piece ''ball'']" "''tarball''"]
    by (simp add: sample_expected_def)
qed

end
