(* ===== verification/Artifact_Spec.thy ===== *)
theory Artifact_Spec
  imports Artifact_Verify_Spec
begin

section \<open>The artifact store stays consistent\<close>

text \<open>
  Every pointer of a file leads to a blob row and to bytes on disk whose digest it is, and the count
  of a blob is the number of files that point to it. The books of references are kept up to an
  adjustment while an operation is under way, so that taking, releasing and moving a reference are
  proved once.
\<close>

subsection \<open>The books\<close>

definition refs_to :: "string \<Rightarrow> artifact_db \<Rightarrow> int" where
  "refs_to sha db = int (length (filter (\<lambda>f. af_blob f = Some sha) (ar_files db)))"

definition books :: "(string \<Rightarrow> int) \<Rightarrow> artifact_db \<Rightarrow> bool" where
  "books adj db = (distinct (map bl_sha (ar_blobs db)) \<and> distinct (map af_id (ar_files db)) \<and>
     (\<forall>f \<in> set (ar_files db). af_blob f \<noteq> Some []) \<and>
     (\<forall>b \<in> set (ar_blobs db). bl_refs b = refs_to (bl_sha b) db + adj (bl_sha b)) \<and>
     (\<forall>sha. sha \<notin> bl_sha ` set (ar_blobs db) \<longrightarrow> refs_to sha db + adj sha = 0))"

definition kept_on_disk :: "(string \<Rightarrow> string \<Rightarrow> string) \<Rightarrow> artifact_db \<Rightarrow> bool" where
  "kept_on_disk hash db = ((\<forall>b \<in> set (ar_blobs db). store_exists (bl_sha b) db) \<and>
     (\<forall>sha bytes t. on_disk sha db = Some (bytes, t) \<longrightarrow> sha = hexdigest (hash ''sha256'' bytes)))"

definition store_ok :: "(string \<Rightarrow> string \<Rightarrow> string) \<Rightarrow> artifact_db \<Rightarrow> bool" where
  "store_ok hash db = (books (\<lambda>_. 0) db \<and> kept_on_disk hash db)"

lemma blob_of_Some: "blob_of sha db = Some b \<Longrightarrow> b \<in> set (ar_blobs db) \<and> bl_sha b = sha"
  by (auto simp: blob_of_def find_Some_iff)

lemma blob_of_None: "blob_of sha db = None \<longleftrightarrow> sha \<notin> bl_sha ` set (ar_blobs db)"
  by (auto simp: blob_of_def find_None_iff image_iff)

lemma file_of_Some: "file_of fid db = Some f \<Longrightarrow> f \<in> set (ar_files db) \<and> af_id f = fid"
  by (auto simp: file_of_def find_Some_iff)

lemma refs_nonneg: "0 \<le> refs_to sha db"
  by (simp add: refs_to_def)

lemma refs_zero: "refs_to sha db = 0 \<longleftrightarrow> (\<forall>f \<in> set (ar_files db). af_blob f \<noteq> Some sha)"
  by (auto simp: refs_to_def filter_empty_conv)

lemma refs_pos: "f \<in> set (ar_files db) \<Longrightarrow> af_blob f = Some sha \<Longrightarrow> 1 \<le> refs_to sha db"
  using refs_zero [of sha db] refs_nonneg [of sha db] by force

lemma refs_same_files: "ar_files db' = ar_files db \<Longrightarrow> refs_to sha db' = refs_to sha db"
  by (simp add: refs_to_def)

lemma db_fields [simp]:
  "ar_files (put_blob b db) = ar_files db" "ar_disk (put_blob b db) = ar_disk db" "ar_sources (put_blob b db) = ar_sources db"
  "ar_files (drop_blob s db) = ar_files db" "ar_disk (drop_blob s db) = ar_disk db" "ar_sources (drop_blob s db) = ar_sources db"
  "ar_files (add_blob x t db) = ar_files db" "ar_disk (add_blob x t db) = ar_disk db" "ar_sources (add_blob x t db) = ar_sources db"
  "ar_blobs (put_file f db) = ar_blobs db" "ar_disk (put_file f db) = ar_disk db" "ar_sources (put_file f db) = ar_sources db"
  "ar_blobs (unlink_blob s db) = ar_blobs db" "ar_files (unlink_blob s db) = ar_files db" "ar_sources (unlink_blob s db) = ar_sources db"
  "ar_blobs (adopt s y t db) = ar_blobs db" "ar_files (adopt s y t db) = ar_files db" "ar_sources (adopt s y t db) = ar_sources db"
  by (simp_all add: put_blob_def drop_blob_def add_blob_def put_file_def unlink_blob_def adopt_def)

lemma on_disk_cong: "ar_disk db' = ar_disk db \<Longrightarrow> on_disk sha db' = on_disk sha db"
  by (simp add: on_disk_def)

lemma on_disk_delete: "on_disk sha (unlink_blob s db) = (if sha = s then None else on_disk sha db)"
  by (simp add: on_disk_def unlink_blob_def delete_conv')

lemma on_disk_adopt: "on_disk sha (adopt s y t db) = (if sha = s then Some (y, t) else on_disk sha db)"
  by (simp add: on_disk_def adopt_def update_conv')

subsection \<open>References\<close>

text \<open>One row of a table is replaced.\<close>

lemma put_row_at:
  assumes "distinct (map key xs)" "x \<in> set xs" "key y = key x"
  shows "\<exists>as bs. xs = as @ x # bs \<and> map (\<lambda>z. if key z = key y then y else z) xs = as @ y # bs"
proof -
  obtain as bs where s: "xs = as @ x # bs" using assms(2) by (auto simp: in_set_conv_decomp)
  then have "key z \<noteq> key x" if "z \<in> set as \<union> set bs" for z
    using assms(1) that by (force simp: image_iff)
  then have "map (\<lambda>z. if key z = key y then y else z) as = as" "map (\<lambda>z. if key z = key y then y else z) bs = bs"
    using assms(3) by (auto intro: map_idI)
  with s assms(3) show ?thesis by auto
qed

lemma refs_put_file:
  assumes "distinct (map af_id (ar_files db))" "f \<in> set (ar_files db)" "af_id f' = af_id f"
  shows "refs_to sha (put_file f' db) =
    refs_to sha db - (if af_blob f = Some sha then 1 else 0) + (if af_blob f' = Some sha then 1 else 0)"
proof -
  from put_row_at [OF assms] obtain as bs where "ar_files db = as @ f # bs" "ar_files (put_file f' db) = as @ f' # bs"
    by (auto simp: put_file_def)
  then show ?thesis by (simp add: refs_to_def)
qed

lemma put_file_ids:
  assumes "distinct (map af_id (ar_files db))" "f \<in> set (ar_files db)" "af_id f' = af_id f"
  shows "map af_id (ar_files (put_file f' db)) = map af_id (ar_files db)"
    "set (ar_files (put_file f' db)) \<subseteq> insert f' (set (ar_files db))"
proof -
  from put_row_at [OF assms] obtain as bs where "ar_files db = as @ f # bs" "ar_files (put_file f' db) = as @ f' # bs"
    by (auto simp: put_file_def)
  with assms(3) show "map af_id (ar_files (put_file f' db)) = map af_id (ar_files db)"
    "set (ar_files (put_file f' db)) \<subseteq> insert f' (set (ar_files db))" by auto
qed

definition shift :: "string option \<Rightarrow> int \<Rightarrow> (string \<Rightarrow> int) \<Rightarrow> string \<Rightarrow> int" where
  "shift s k adj = (\<lambda>sha. adj sha + (if s = Some sha then k else 0))"

lemma books_put_file:
  assumes "books adj db" "f \<in> set (ar_files db)" "af_id f' = af_id f" "af_blob f' \<noteq> Some []"
  shows "books (shift (af_blob f) 1 (shift (af_blob f') (- 1) adj)) (put_file f' db)"
proof -
  have d: "distinct (map af_id (ar_files db))" using assms(1) by (simp add: books_def)
  note refs = refs_put_file [OF d assms(2,3)] and ids = put_file_ids [OF d assms(2,3)]
  show ?thesis
    using assms(1,4) ids unfolding books_def by (auto simp: refs shift_def)
qed

lemma put_blob_shas:
  assumes "distinct (map bl_sha (ar_blobs db))" "b \<in> set (ar_blobs db)" "bl_sha b' = bl_sha b"
  shows "map bl_sha (ar_blobs (put_blob b' db)) = map bl_sha (ar_blobs db)"
    "x \<in> set (ar_blobs (put_blob b' db)) \<Longrightarrow> x = b' \<or> x \<in> set (ar_blobs db) \<and> bl_sha x \<noteq> bl_sha b"
proof -
  from put_row_at [OF assms] obtain as bs where s: "ar_blobs db = as @ b # bs" "ar_blobs (put_blob b' db) = as @ b' # bs"
    by (auto simp: put_blob_def)
  with assms(3) show "map bl_sha (ar_blobs (put_blob b' db)) = map bl_sha (ar_blobs db)" by simp
  show "x \<in> set (ar_blobs (put_blob b' db)) \<Longrightarrow> x = b' \<or> x \<in> set (ar_blobs db) \<and> bl_sha x \<noteq> bl_sha b"
    using assms(1) s by (force simp: image_iff)
qed

lemma books_put_blob:
  assumes "books adj db" "blob_of sha db = Some b" "bl_sha b' = sha" "bl_refs b' = bl_refs b + k"
  shows "books (shift (Some sha) k adj) (put_blob b' db)"
proof -
  have b: "b \<in> set (ar_blobs db)" "bl_sha b = sha" using blob_of_Some [OF assms(2)] by auto
  have d: "distinct (map bl_sha (ar_blobs db))" using assms(1) by (simp add: books_def)
  have e: "bl_sha b' = bl_sha b" using assms(3) b(2) by simp
  note shas = put_blob_shas [OF d b(1) e]
  have s: "bl_sha ` set (ar_blobs (put_blob b' db)) = bl_sha ` set (ar_blobs db)"
    using shas(1) by (metis list.set_map)
  have refs: "bl_refs b = refs_to sha db + adj sha" using assms(1) b by (auto simp: books_def)
  have r: "refs_to s (put_blob b' db) = refs_to s db" for s by (simp add: refs_to_def)
  have "bl_refs x = refs_to (bl_sha x) db + shift (Some sha) k adj (bl_sha x)" if x: "x \<in> set (ar_blobs (put_blob b' db))" for x
    using shas(2) [OF x]
  proof
    assume "x = b'"
    then show ?thesis using assms(3,4) refs by (simp add: shift_def)
  next
    assume "x \<in> set (ar_blobs db) \<and> bl_sha x \<noteq> bl_sha b"
    then show ?thesis using assms(1) b(2) by (auto simp: books_def shift_def)
  qed
  moreover have "refs_to x db + shift (Some sha) k adj x = 0" if "x \<notin> bl_sha ` set (ar_blobs db)" for x
    using assms(1) that b by (auto simp: books_def shift_def)
  ultimately show ?thesis
    using assms(1) shas(1) s unfolding books_def r by simp
qed

lemma books_drop_blob:
  assumes "books adj db" "blob_of sha db = Some b" "bl_refs b = 1"
  shows "books (shift (Some sha) (- 1) adj) (drop_blob sha db)"
proof -
  have b: "b \<in> set (ar_blobs db)" "bl_sha b = sha" using blob_of_Some [OF assms(2)] by auto
  have r: "refs_to s (drop_blob sha db) = refs_to s db" for s by (simp add: refs_to_def)
  have one: "refs_to sha db + adj sha = 1" using assms(1,3) b by (auto simp: books_def)
  have blobs: "ar_blobs (drop_blob sha db) = filter (\<lambda>b. bl_sha b \<noteq> sha) (ar_blobs db)" by (simp add: drop_blob_def)
  show ?thesis
    using assms(1) one unfolding books_def shift_def r blobs by (auto simp: distinct_map_filter)
qed

lemma books_add_blob:
  assumes "books adj db" "blob_of (sb_sha256 s) db = None"
  shows "books (shift (Some (sb_sha256 s)) 1 adj) (add_blob s t db)"
proof -
  have r: "refs_to x (add_blob s t db) = refs_to x db" for x by (simp add: refs_to_def)
  have "sb_sha256 s \<notin> bl_sha ` set (ar_blobs db)" using assms(2) by (simp add: blob_of_None)
  then show ?thesis
    using assms(1) unfolding books_def shift_def r by (auto simp: add_blob_def)
qed

lemma books_release:
  assumes "books adj db" "1 \<le> refs_to sha db + adj sha"
  shows "books (shift (Some sha) (- 1) adj) (release_ref sha db)"
proof (cases "blob_of sha db")
  case None
  then have "refs_to sha db + adj sha = 0" using assms(1) by (simp add: books_def blob_of_None)
  with assms(2) show ?thesis by simp
next
  case (Some b)
  have "bl_refs b = refs_to sha db + adj sha" using assms(1) blob_of_Some [OF Some] by (auto simp: books_def)
  then show ?thesis
    using assms Some books_drop_blob [OF assms(1) Some]
      books_put_blob [OF assms(1) Some, of "b\<lparr>bl_refs := bl_refs b - 1\<rparr>" "- 1"] blob_of_Some [OF Some]
    by (auto simp: release_ref_def)
qed

lemma shift_shift [simp]: "shift s k (shift s m adj) = shift s (m + k) adj" "shift s 0 adj = adj" "shift None k adj = adj"
  by (auto simp: shift_def fun_eq_iff)

lemma shift_swap: "shift s k (shift t m adj) = shift t m (shift s k adj)"
  by (auto simp: shift_def fun_eq_iff)

subsection \<open>The operations on one row\<close>

definition shas :: "artifact_db \<Rightarrow> string set" where
  "shas db = bl_sha ` set (ar_blobs db)"

lemma blob_of_shas: "blob_of sha db = None \<longleftrightarrow> sha \<notin> shas db"
  by (simp add: shas_def blob_of_None)

lemma row_shas_simps [simp]:
  "shas (put_file f db) = shas db" "shas (unlink_blob s db) = shas db" "shas (adopt s y t db) = shas db"
  "shas (drop_blob s db) = shas db - {s}" "shas (add_blob x t db) = insert (sb_sha256 x) (shas db)"
  by (auto simp: shas_def drop_blob_def add_blob_def)

lemma shas_put_blob [simp]: "shas (put_blob b db) = shas db"
proof -
  have "map bl_sha (ar_blobs (put_blob b db)) = map bl_sha (ar_blobs db)" by (simp add: put_blob_def)
  then show ?thesis unfolding shas_def by (metis list.set_map)
qed

lemma kept_on_disk_alt: "kept_on_disk hash db \<longleftrightarrow> ((\<forall>sha \<in> shas db. store_exists sha db) \<and>
     (\<forall>sha bytes t. on_disk sha db = Some (bytes, t) \<longrightarrow> sha = hexdigest (hash ''sha256'' bytes)))"
  by (auto simp: kept_on_disk_def shas_def)

lemma kept_same_disk:
  assumes "kept_on_disk hash db" "ar_disk db' = ar_disk db" "shas db' \<subseteq> {sha. sha \<in> shas db \<or> store_exists sha db}"
  shows "kept_on_disk hash db'"
  using assms by (auto simp: kept_on_disk_alt store_exists_def on_disk_cong [OF assms(2)])

lemma kept_delete:
  assumes "kept_on_disk hash db" "sha \<notin> shas db"
  shows "kept_on_disk hash (unlink_blob sha db)"
  using assms by (auto simp: kept_on_disk_alt store_exists_def on_disk_delete split: if_splits)

lemma kept_adopt:
  assumes "kept_on_disk hash db" "sha = hexdigest (hash ''sha256'' data)"
  shows "kept_on_disk hash (adopt sha data t db)"
  using assms by (auto simp: kept_on_disk_alt store_exists_def on_disk_adopt)

lemma books_same: "books adj db \<Longrightarrow> ar_blobs db' = ar_blobs db \<Longrightarrow> ar_files db' = ar_files db \<Longrightarrow> books adj db'"
  by (simp add: books_def refs_to_def)

lemma pointer_has_row: "books (\<lambda>_. 0) db \<Longrightarrow> f \<in> set (ar_files db) \<Longrightarrow> af_blob f = Some sha \<Longrightarrow> sha \<in> shas db"
  using refs_pos [of f db sha] by (auto simp: books_def shas_def)

lemma release_shas: "shas (release_ref sha db) \<subseteq> shas db"
  by (auto simp: release_ref_def split: option.splits)

lemma release_fields [simp]:
  "ar_files (release_ref sha db) = ar_files db" "ar_disk (release_ref sha db) = ar_disk db"
  by (auto simp: release_ref_def split: option.splits)

lemma find_filter_other: "(\<And>x. P x \<Longrightarrow> Q x) \<Longrightarrow> find P (filter Q xs) = find P xs"
  by (induction xs) auto

lemma find_map_other:
  "(\<And>x. P x \<Longrightarrow> g x = x) \<Longrightarrow> (\<And>x. P (g x) \<Longrightarrow> P x) \<Longrightarrow> find P (map g xs) = find P xs"
proof (induction xs)
  case (Cons x xs)
  show ?case
  proof (cases "P x")
    case True
    have "g x = x" by (rule Cons.prems(1) [OF True])
    with True show ?thesis by simp
  next
    case False
    then have "\<not> P (g x)" using Cons.prems(2) by blast
    moreover have "find P (map g xs) = find P xs" by (rule Cons.IH) (use Cons.prems in blast)+
    ultimately show ?thesis using False by simp
  qed
qed simp

lemma blob_of_put_other: "bl_sha b \<noteq> sha \<Longrightarrow> blob_of sha (put_blob b db) = blob_of sha db"
  unfolding blob_of_def put_blob_def by (simp, rule find_map_other) auto

lemma blob_of_drop_other: "sha \<noteq> s \<Longrightarrow> blob_of sha (drop_blob s db) = blob_of sha db"
  unfolding blob_of_def drop_blob_def by (simp, rule find_filter_other) auto

lemma blob_of_release: "sha \<noteq> old \<Longrightarrow> blob_of sha (release_ref old db) = blob_of sha db"
  by (auto simp: release_ref_def blob_of_put_other blob_of_drop_other dest: blob_of_Some split: option.splits)

lemma books_acquire:
  assumes "books adj db" "sha = sb_sha256 s"
  shows "books (shift (Some sha) 1 adj) (case blob_of sha db of None \<Rightarrow> add_blob s t db
     | Some b \<Rightarrow> put_blob (b\<lparr>bl_refs := bl_refs b + 1, bl_accessed := t\<rparr>) db)"
    "books (shift (Some sha) 1 adj) (case blob_of sha db of None \<Rightarrow> add_blob s t db
     | Some b \<Rightarrow> put_blob (b\<lparr>bl_refs := bl_refs b + 1\<rparr>) db)"
  using assms books_add_blob [OF assms(1), of s t] books_put_blob [OF assms(1), of sha _ _ 1] blob_of_Some [of sha db]
  by (auto split: option.splits)

lemma record_blob_ok:
  assumes ok: "store_ok hash db" and run: "record_blob now fid s db = Inr db'" and ne: "sb_sha256 s \<noteq> []"
  shows "store_ok hash db'"
proof -
  let ?new = "sb_sha256 s"
  have bk: "books (\<lambda>_. 0) db" and kept: "kept_on_disk hash db" using ok by (auto simp: store_ok_def)
  obtain f where f: "file_of fid db = Some f" "store_exists ?new db"
    using run by (auto simp: record_blob_def split: option.splits if_splits)
  have fin: "f \<in> set (ar_files db)" using file_of_Some [OF f(1)] by simp
  define f' where "f' = f\<lparr>af_blob := Some ?new, af_size := Some (sb_size s), af_cached := Some now,
              af_sha256 := or_given (af_sha256 f) (sb_sha256 s), af_sha1 := or_given (af_sha1 f) (sb_sha1 s),
              af_md5 := or_given (af_md5 f) (sb_md5 s), af_blake2b := or_given (af_blake2b f) (sb_blake2b s),
              af_integrity := or_given (af_integrity f) (stored_integrity s)\<rparr>"
  have f': "af_id f' = af_id f" "af_blob f' = Some ?new" by (simp_all add: f'_def)
  show ?thesis
  proof (cases "af_blob f = Some ?new")
    case True
    then obtain b where "blob_of ?new db = Some b"
      using pointer_has_row [OF bk fin True] by (cases "blob_of ?new db") (auto simp: blob_of_shas)
    with run f True have db': "db' = put_file f' db" by (simp add: record_blob_def f'_def)
    have "books (\<lambda>_. 0) db'"
      using books_put_file [OF bk fin f'(1)] ne by (simp add: db' f'(2) True)
    moreover have "kept_on_disk hash db'"
      by (rule kept_same_disk [OF kept]) (auto simp: db')
    ultimately show ?thesis by (simp add: store_ok_def)
  next
    case False
    define db0 where "db0 = (if given (af_blob f) then release_ref (the (af_blob f)) db else db)"
    define db1 where "db1 = (case blob_of ?new db of None \<Rightarrow> add_blob s now db0
                 | Some b \<Rightarrow> put_blob (b\<lparr>bl_refs := bl_refs b + 1, bl_accessed := now\<rparr>) db0)"
    have db': "db' = put_file f' db1"
      using run f False unfolding db1_def db0_def f'_def by (simp add: record_blob_def Let_def)
    have bk0: "books (shift (af_blob f) (- 1) (\<lambda>_. 0)) db0"
    proof (cases "af_blob f")
      case None
      with bk show ?thesis by (simp add: db0_def given_def)
    next
      case (Some old)
      then have "given (af_blob f)" using bk fin by (auto simp: given_def books_def)
      with Some show ?thesis
        using books_release [OF bk] refs_pos [OF fin Some] by (simp add: db0_def)
    qed
    have other: "blob_of ?new db0 = blob_of ?new db"
      using False by (auto simp: db0_def given_def intro!: blob_of_release)
    have bk1: "books (shift (Some ?new) 1 (shift (af_blob f) (- 1) (\<lambda>_. 0))) db1"
      using books_acquire(1) [OF bk0 refl, of s now] by (simp add: db1_def other)
    have files: "ar_files db1 = ar_files db" "ar_disk db1 = ar_disk db"
      by (auto simp: db1_def db0_def split: option.splits)
    have "books (\<lambda>_. 0) db'"
      using books_put_file [OF bk1, of f f'] fin ne by (simp add: db' f' files shift_swap)
    moreover have "shas db0 \<subseteq> shas db" using release_shas by (auto simp: db0_def)
    then have "shas db1 \<subseteq> insert ?new (shas db)"
      by (auto simp: db1_def split: option.splits)
    then have "kept_on_disk hash db'"
      using f(2) by (intro kept_same_disk [OF kept]) (auto simp: db' files)
    ultimately show ?thesis by (simp add: store_ok_def)
  qed
qed

definition sized :: "(string \<Rightarrow> string \<Rightarrow> string) \<Rightarrow> bool" where
  "sized hash = (\<forall>data. hash ''sha256'' data \<noteq> [])"

lemma sized_hexdigest: "sized hash \<Longrightarrow> hexdigest (hash ''sha256'' data) \<noteq> []"
  by (cases "hash ''sha256'' data") (auto simp: sized_def)

lemma adopt_ok: "store_ok hash db \<Longrightarrow> store_ok hash (adopt (hexdigest (hash ''sha256'' data)) data t db)"
  by (auto simp: store_ok_def intro: kept_adopt books_same)

lemma run_fill_ok:
  assumes "store_ok hash db" "run_fill hash limit now fid e events db = (r, db')" "sized hash"
  shows "store_ok hash db'"
proof (cases "verified_download hash limit e events")
  case (Inl err)
  with assms show ?thesis by (simp add: run_fill_def)
next
  case (Inr data)
  let ?s = "digests_stored hash data"
  have a: "store_ok hash (adopt (sb_sha256 ?s) data now db)"
    using adopt_ok [OF assms(1)] by (simp add: digests_stored_def)
  show ?thesis
  proof (cases "record_blob now fid ?s (adopt (sb_sha256 ?s) data now db)")
    case (Inl err)
    with Inr assms(2) a show ?thesis by (simp add: run_fill_def Let_def)
  next
    case (Inr db2)
    have "sb_sha256 ?s \<noteq> []" using sized_hexdigest [OF assms(3)] by (simp add: digests_stored_def)
    from record_blob_ok [OF a Inr this] show ?thesis
      using assms(2) Inr \<open>verified_download hash limit e events = Inr data\<close> by (simp add: run_fill_def Let_def)
  qed
qed

lemma purge_row_ok:
  assumes ok: "store_ok hash db" and run: "purge_row fid db = (q, db')"
  shows "store_ok hash db'"
proof (cases "\<exists>f. file_of fid db = Some f \<and> given (af_blob f)")
  case False
  with assms show ?thesis by (auto simp: purge_row_def split: option.splits)
next
  case True
  then obtain f sha where f: "file_of fid db = Some f" "af_blob f = Some sha" by (auto simp: given_def)
  have bk: "books (\<lambda>_. 0) db" and kept: "kept_on_disk hash db" using ok by (auto simp: store_ok_def)
  have fin: "f \<in> set (ar_files db)" using file_of_Some [OF f(1)] by simp
  define db1 where "db1 = put_file (f\<lparr>af_blob := None, af_cached := None\<rparr>) db"
  have bk1: "books (shift (Some sha) 1 (\<lambda>_. 0)) db1"
    using books_put_file [OF bk fin, of "f\<lparr>af_blob := None, af_cached := None\<rparr>"] by (simp add: db1_def f(2))
  have kept1: "kept_on_disk hash db1" by (rule kept_same_disk [OF kept]) (auto simp: db1_def)
  obtain b where b: "blob_of sha db1 = Some b"
    using pointer_has_row [OF bk fin f(2)] by (cases "blob_of sha db1") (auto simp: blob_of_shas db1_def)
  have "1 \<le> refs_to sha db1 + shift (Some sha) 1 (\<lambda>_. 0) sha"
    using refs_nonneg [of sha db1] by (simp add: shift_def)
  from books_release [OF bk1 this] have bk2: "books (\<lambda>_. 0) (release_ref sha db1)" by simp
  have "given (af_blob f)" using bk fin f(2) by (auto simp: given_def books_def)
  then have db': "db' = (if bl_refs b - 1 \<le> 0 then unlink_blob sha (release_ref sha db1) else release_ref sha db1)"
    using run f b by (auto simp: purge_row_def db1_def [symmetric] Let_def release_ref_def split: if_splits)
  have kept2: "kept_on_disk hash (release_ref sha db1)"
    using release_shas [of sha db1] by (intro kept_same_disk [OF kept1]) auto
  show ?thesis
  proof (cases "bl_refs b - 1 \<le> 0")
    case True
    then have "sha \<notin> shas (release_ref sha db1)" using b by (simp add: release_ref_def)
    with kept_delete [OF kept2 this] bk2 True show ?thesis by (auto simp: db' store_ok_def intro: books_same)
  next
    case False
    with bk2 kept2 show ?thesis by (simp add: db' store_ok_def)
  qed
qed

lemma purge_rows_ok: "store_ok hash db \<Longrightarrow> purge_rows fids db = (n, db') \<Longrightarrow> store_ok hash db'"
  by (induction fids db arbitrary: n db' rule: purge_rows.induct) (auto split: prod.splits dest: purge_row_ok)

end
