(* ===== verification/Artifact_Evict_Spec.thy ===== *)
theory Artifact_Evict_Spec
  imports Artifact_Spec
begin

section \<open>Eviction takes the least recently read copies, and only copies\<close>

text \<open>
  An eviction removes an initial part of the evictable blobs, ordered by the time they were last
  read, and stops as soon as the total is at the target: so it never takes a blob a local file
  depends on, one whose upstream is disabled, or one that is being read.
\<close>

subsection \<open>One blob\<close>

definition clear_pointer :: "string set \<Rightarrow> artifact_file \<Rightarrow> artifact_file" where
  "clear_pointer V f = (if \<exists>sha \<in> V. af_blob f = Some sha then f\<lparr>af_blob := None, af_cached := None\<rparr> else f)"

lemma clear_pointer_fields [simp]:
  "af_id (clear_pointer V f) = af_id f" "af_url (clear_pointer V f) = af_url f" "af_upstream (clear_pointer V f) = af_upstream f"
  "af_package (clear_pointer V f) = af_package f" "af_local (clear_pointer V f) = af_local f"
  "af_blob (clear_pointer V f) = (if \<exists>sha \<in> V. af_blob f = Some sha then None else af_blob f)"
  by (auto simp: clear_pointer_def)

lemma clear_pointer_empty [simp]: "clear_pointer {} = (\<lambda>f. f)"
  by (simp add: clear_pointer_def fun_eq_iff)

lemma clear_pointer_keeps: "sha \<notin> V \<Longrightarrow> af_blob (clear_pointer V f) = Some sha \<longleftrightarrow> af_blob f = Some sha"
  by auto

lemma forget_fields [simp]:
  "ar_blobs (forget_blob sha db) = filter (\<lambda>b. bl_sha b \<noteq> sha) (ar_blobs db)"
  "ar_files (forget_blob sha db) = map (clear_pointer {sha}) (ar_files db)"
  "ar_sources (forget_blob sha db) = ar_sources db" "ar_disk (forget_blob sha db) = ar_disk db"
  by (auto simp: forget_blob_def drop_blob_def clear_pointer_def)

definition evicted :: "stored_row list \<Rightarrow> artifact_db \<Rightarrow> artifact_db" where
  "evicted bs db = fold (\<lambda>b. forget_blob (bl_sha b)) bs db"

lemma evicted_fields [simp]:
  "ar_blobs (evicted bs db) = filter (\<lambda>b. bl_sha b \<notin> bl_sha ` set bs) (ar_blobs db)"
  "ar_files (evicted bs db) = map (clear_pointer (bl_sha ` set bs)) (ar_files db)"
  "ar_sources (evicted bs db) = ar_sources db" "ar_disk (evicted bs db) = ar_disk db"
proof (induction bs arbitrary: db)
  case Nil
  { case 1 then show ?case by (simp add: evicted_def) }
  { case 2 then show ?case by (simp add: evicted_def clear_pointer_def) }
  { case 3 then show ?case by (simp add: evicted_def) }
  { case 4 then show ?case by (simp add: evicted_def) }
next
  case (Cons b bs)
  have e: "evicted (b # bs) db = evicted bs (forget_blob (bl_sha b) db)" for db by (simp add: evicted_def)
  { case 1 show ?case unfolding e Cons.IH(1) by (auto intro: filter_cong) }
  { case 2 show ?case unfolding e Cons.IH(2) by (auto simp: clear_pointer_def) }
  { case 3 show ?case unfolding e Cons.IH(3) by simp }
  { case 4 show ?case unfolding e Cons.IH(4) by simp }
qed

lemma evictable_evicted:
  "bl_sha x \<notin> bl_sha ` set bs \<Longrightarrow> evictable cutoff (evicted bs db) x \<longleftrightarrow> evictable cutoff db x"
  by (simp add: evictable_def has_local_reference_def source_disabled_def clear_pointer_keeps
      del: clear_pointer_fields(6))

lemma forget_is_evicted: "forget_blob (bl_sha b) db = evicted [b] db"
  by (simp add: evicted_def)

lemma evicted_append: "evicted (as @ bs) db = evicted bs (evicted as db)"
  by (simp add: evicted_def)

subsection \<open>One batch\<close>

text \<open>Each blob was taken while the total, less what those before it freed, was above the limit.\<close>

definition needed :: "nat \<Rightarrow> nat \<Rightarrow> stored_row list \<Rightarrow> bool" where
  "needed used limit out = (\<forall>i < length out. limit + sum_list (map bl_size (take i out)) < used)"

lemma needed_Nil [simp]: "needed used limit []"
  by (simp add: needed_def)

lemma needed_Cons [simp]: "needed used limit (b # bs) \<longleftrightarrow> limit < used \<and> needed used (limit + bl_size b) bs"
proof
  assume n: "needed used limit (b # bs)"
  have "limit + bl_size b + sum_list (map bl_size (take i bs)) < used" if "i < length bs" for i
    using n [unfolded needed_def, rule_format, of "Suc i"] that by (simp add: add.assoc)
  with n [unfolded needed_def, rule_format, of 0] show "limit < used \<and> needed used (limit + bl_size b) bs" by (simp add: needed_def)
next
  assume "limit < used \<and> needed used (limit + bl_size b) bs"
  then show "needed used limit (b # bs)" by (auto simp: needed_def nth_Cons less_Suc_eq_0_disj add.assoc)
qed

lemma needed_append: "needed used limit (as @ bs) \<longleftrightarrow> needed used limit as \<and> needed used (limit + sum_list (map bl_size as)) bs"
  by (induction as arbitrary: limit) (auto simp: add.assoc)

lemma evict_rows_prefix:
  assumes "evict_rows used target cutoff bs (freed, victims, db) = (freed', victims', db')"
    "distinct (map bl_sha bs)" "set bs \<subseteq> set (ar_blobs db)" "\<forall>b \<in> set bs. evictable cutoff db b"
  shows "\<exists>n \<le> length bs. freed' = freed + sum_list (map bl_size (take n bs)) \<and>
    victims' = victims @ map bl_sha (take n bs) \<and> db' = evicted (take n bs) db \<and>
    (n < length bs \<longrightarrow> used \<le> target + freed') \<and> needed used (target + freed) (take n bs)"
  using assms
proof (induction bs arbitrary: freed victims db)
  case Nil
  then show ?case by (simp add: evicted_def)
next
  case (Cons b bs)
  show ?case
  proof (cases "used \<le> target + freed")
    case True
    with Cons.prems(1) show ?thesis by (intro exI [of _ 0]) (simp add: evicted_def)
  next
    case False
    have "\<exists>x \<in> set (ar_blobs db). bl_sha x = bl_sha b \<and> evictable cutoff db x" using Cons.prems(3,4) by auto
    with Cons.prems(1) False have run: "evict_rows used target cutoff bs
        (freed + bl_size b, victims @ [bl_sha b], forget_blob (bl_sha b) db) = (freed', victims', db')" by simp
    have "bl_sha x \<noteq> bl_sha b" if "x \<in> set bs" for x using Cons.prems(2) that by (auto simp: image_iff)
    then have "\<forall>x \<in> set bs. evictable cutoff (forget_blob (bl_sha b) db) x" "set bs \<subseteq> set (ar_blobs (forget_blob (bl_sha b) db))"
      using Cons.prems(3,4) evictable_evicted [of _ "[b]" cutoff db] by (auto simp: forget_is_evicted)
    from Cons.IH [OF run _ this(2,1)] Cons.prems(2) obtain n where
      "n \<le> length bs" "freed' = freed + bl_size b + sum_list (map bl_size (take n bs))"
      "victims' = (victims @ [bl_sha b]) @ map bl_sha (take n bs)" "db' = evicted (take n bs) (forget_blob (bl_sha b) db)"
      "n < length bs \<longrightarrow> used \<le> target + freed'" "needed used (target + (freed + bl_size b)) (take n bs)" by auto
    with False show ?thesis by (intro exI [of _ "Suc n"]) (simp add: evicted_def add.assoc)
  qed
qed

subsection \<open>The candidates\<close>

definition remaining :: "int \<Rightarrow> (int \<times> string) option \<Rightarrow> artifact_db \<Rightarrow> stored_row list" where
  "remaining cutoff after db = sort_key lru_key (filter (\<lambda>b. evictable cutoff db b \<and> past after b) (ar_blobs db))"

lemma evict_candidates_eq: "evict_candidates cutoff after db = take 200 (remaining cutoff after db)"
  by (simp add: evict_candidates_def remaining_def)

lemma lru_key_inj: "distinct (map bl_sha bs) \<Longrightarrow> distinct (map lru_key bs)"
  by (auto simp: distinct_map inj_on_def lru_key_def)

lemma distinct_map_sort_key: "distinct (map f (sort_key g xs)) \<longleftrightarrow> distinct (map f xs)"
  by (simp add: distinct_map)

lemma remaining_facts:
  assumes "distinct (map bl_sha (ar_blobs db))"
  shows "distinct (map bl_sha (remaining cutoff after db))" "sorted (map lru_key (remaining cutoff after db))"
    "set (remaining cutoff after db) = {b \<in> set (ar_blobs db). evictable cutoff db b \<and> past after b}"
  using assms by (auto simp: remaining_def distinct_map_sort_key distinct_map_filter)

lemma sorted_after:
  fixes key :: "'a \<Rightarrow> 'k :: linorder"
  assumes "sorted (map key xs)" "distinct (map key xs)" "n < length xs"
  shows "filter (\<lambda>x. key (xs ! n) < key x) xs = drop (Suc n) xs"
proof -
  have "\<not> key (xs ! n) < key x" if "x \<in> set (take (Suc n) xs)" for x
  proof -
    from that obtain i where "i < Suc n" "x = xs ! i" by (auto simp: in_set_conv_nth)
    then show ?thesis using sorted_nth_mono [OF assms(1), of i n] assms(3) by simp
  qed
  moreover have "key (xs ! n) < key x" if "x \<in> set (drop (Suc n) xs)" for x
  proof -
    from that obtain i where i: "i < length xs - Suc n" "x = xs ! (Suc n + i)"
      by (metis in_set_conv_nth length_drop nth_drop Suc_leI assms(3))
    then have "key (xs ! n) \<le> key x" using sorted_nth_mono [OF assms(1), of n "Suc n + i"] by simp
    moreover have "key (xs ! n) \<noteq> key x"
      using i assms(2,3) nth_eq_iff_index_eq [OF assms(2), of n "Suc n + i"] by simp
    ultimately show ?thesis by simp
  qed
  ultimately have "filter (\<lambda>x. key (xs ! n) < key x) (take (Suc n) xs @ drop (Suc n) xs) = drop (Suc n) xs"
    unfolding filter_append by (simp add: filter_empty_conv filter_id_conv)
  then show ?thesis by simp
qed

lemma remaining_next:
  assumes d: "distinct (map bl_sha (ar_blobs db))" and n: "0 < n" "n \<le> length (remaining cutoff after db)"
    and same: "ar_blobs db' = ar_blobs (evicted (take n (remaining cutoff after db)) db)"
      "ar_files db' = ar_files (evicted (take n (remaining cutoff after db)) db)" "ar_sources db' = ar_sources db"
  shows "remaining cutoff (Some (lru_key (remaining cutoff after db ! (n - 1)))) db' = drop n (remaining cutoff after db)"
proof -
  let ?R = "remaining cutoff after db"
  note R = remaining_facts [OF d, of cutoff after]
  let ?l = "?R ! (n - 1)"
  let ?V = "bl_sha ` set (take n ?R)"
  have l: "?l \<in> set ?R" using n by simp
  have ev: "evictable cutoff db' x \<longleftrightarrow> evictable cutoff db x" if "bl_sha x \<notin> ?V" for x
    using evictable_evicted [OF that, of cutoff db] same
    by (simp add: evictable_def has_local_reference_def source_disabled_def)
  have dropped: "filter (\<lambda>x. lru_key ?l < lru_key x) ?R = drop n ?R"
    using sorted_after [OF R(2) lru_key_inj [OF R(1)], of "n - 1"] n by simp
  have notV: "bl_sha x \<notin> ?V" if x: "x \<in> set (ar_blobs db)" "lru_key ?l < lru_key x" for x
  proof
    assume "bl_sha x \<in> ?V"
    then obtain y where y: "y \<in> set (take n ?R)" "bl_sha y = bl_sha x" by auto
    then have "y = x"
      using d x(1) R(3) in_set_takeD [OF y(1)] by (auto simp: distinct_map inj_on_def)
    moreover obtain i where "i < n" "y = ?R ! i" using y(1) by (auto simp: in_set_conv_nth)
    then have "lru_key y \<le> lru_key ?l" using sorted_nth_mono [OF R(2), of i "n - 1"] n by simp
    ultimately show False using x(2) by simp
  qed
  have "filter (\<lambda>b. evictable cutoff db' b \<and> past (Some (lru_key ?l)) b) (ar_blobs db') =
      filter (\<lambda>b. lru_key ?l < lru_key b) (filter (\<lambda>b. evictable cutoff db b \<and> past after b) (ar_blobs db))"
    using past_trans [of after ?l] l R(3) notV ev by (auto simp: same(1) past_def intro!: filter_cong)
  then have "remaining cutoff (Some (lru_key ?l)) db' = filter (\<lambda>b. lru_key ?l < lru_key b) ?R"
    by (simp add: remaining_def filter_sort)
  with dropped show ?thesis by simp
qed

subsection \<open>The loop\<close>

definition taken :: "stored_row list \<Rightarrow> artifact_db \<Rightarrow> artifact_db" where
  \<comment> \<open>the rows and then the files\<close>
  "taken bs db = fold unlink_blob (map bl_sha bs) (evicted bs db)"

lemma disk_fold_delete: "on_disk sha (fold unlink_blob ss db) = (if sha \<in> set ss then None else on_disk sha db)"
  by (induction ss arbitrary: db) (auto simp: on_disk_delete)

lemma taken_fields [simp]:
  "ar_blobs (taken bs db) = filter (\<lambda>b. bl_sha b \<notin> bl_sha ` set bs) (ar_blobs db)"
  "ar_files (taken bs db) = map (clear_pointer (bl_sha ` set bs)) (ar_files db)"
  "ar_sources (taken bs db) = ar_sources db"
  "on_disk sha (taken bs db) = (if sha \<in> bl_sha ` set bs then None else on_disk sha db)"
  by (simp_all add: taken_def disk_fold_delete on_disk_cong [of "evicted bs db" db])

definition same_store :: "artifact_db \<Rightarrow> artifact_db \<Rightarrow> bool" where
  "same_store a b = (ar_blobs a = ar_blobs b \<and> ar_files a = ar_files b \<and> ar_sources a = ar_sources b \<and>
     (\<forall>sha. on_disk sha a = on_disk sha b))"

lemma taken_taken: "same_store (taken bs (taken as db)) (taken (as @ bs) db)"
  by (auto simp: same_store_def clear_pointer_def intro!: filter_cong)

lemma same_store_taken: "same_store a b \<Longrightarrow> same_store (taken bs a) (taken bs b)"
  by (auto simp: same_store_def)

lemma same_store_trans: "same_store a b \<Longrightarrow> same_store b c \<Longrightarrow> same_store a c"
  by (simp add: same_store_def)

lemma evict_loop_prefix:
  assumes "evict_loop used target cutoff after gone freed db = ((gone', freed'), db')" "distinct (map bl_sha (ar_blobs db))"
  shows "\<exists>n \<le> length (remaining cutoff after db). let out = take n (remaining cutoff after db) in
    same_store db' (taken out db) \<and> gone' = gone + n \<and> freed' = freed + sum_list (map bl_size out) \<and>
    (n < length (remaining cutoff after db) \<longrightarrow> used \<le> target + freed') \<and> needed used (target + freed) out"
  using assms
proof (induction used target cutoff after gone freed db arbitrary: gone' freed' db' rule: evict_loop.induct)
  case (1 used target cutoff after gone freed db)
  let ?R = "remaining cutoff after db"
  let ?B = "evict_candidates cutoff after db"
  have start: "same_store db (taken [] db)" by (simp add: same_store_def clear_pointer_def)
  show ?case
  proof (cases "used \<le> target + freed \<or> ?B = []")
    case True
    then have "((gone', freed'), db') = ((gone, freed), db)" "?R = [] \<or> used \<le> target + freed"
      using 1(2) by (auto simp: evict_loop.simps [of used] evict_candidates_eq split: if_splits)
    with start show ?thesis by (intro exI [of _ 0]) auto
  next
    case False
    obtain freed1 victims db1 where rows: "evict_rows used target cutoff ?B (freed, [], db) = (freed1, victims, db1)"
      by (metis prod_cases3)
    note R = remaining_facts [OF 1(3), of cutoff after]
    have B: "distinct (map bl_sha ?B)" "set ?B \<subseteq> set (ar_blobs db)" "\<forall>b \<in> set ?B. evictable cutoff db b"
      using R(1) candidates_in [of _ cutoff after db] by (auto simp: evict_candidates_eq take_map [symmetric] distinct_take)
    from evict_rows_prefix [OF rows B] obtain n where n: "n \<le> length ?B" "freed1 = freed + sum_list (map bl_size (take n ?B))"
        "victims = map bl_sha (take n ?B)" "db1 = evicted (take n ?B) db" "n < length ?B \<longrightarrow> used \<le> target + freed1"
        "needed used (target + freed) (take n ?B)" by auto
    define db2 where "db2 = fold unlink_blob victims db1"
    have nB: "take n ?B = take n ?R" "n \<le> length ?R" using n(1) by (auto simp: evict_candidates_eq min_def split: if_splits)
    have db2: "db2 = taken (take n ?R) db"
      by (simp add: db2_def n(3,4) taken_def nB(1))
    have run: "evict_loop used target cutoff (Some (lru_key (List.last ?B))) (gone + length victims) freed1 db2 = ((gone', freed'), db')"
      using 1(2) False rows by (subst (asm) evict_loop.simps) (simp add: db2_def)
    have len: "length victims = n" using n(1,3) by simp
    show ?thesis
    proof (cases "n < length ?B")
      case True
      then have "used \<le> target + freed1" using n(5) by simp
      then have "((gone', freed'), db') = ((gone + n, freed1), db2)"
        using run by (simp add: evict_loop.simps [of used target cutoff "Some _"] len)
      moreover have "same_store db2 (taken (take n ?R) db)" by (simp add: db2 same_store_def)
      ultimately show ?thesis
        using n(2,6) nB \<open>used \<le> target + freed1\<close>
        by (intro exI [of _ n]) auto
    next
      case False
      then have all: "n = length ?B" using n(1) by simp
      then have pos: "0 < n" "n \<le> length ?R" using \<open>\<not> (used \<le> target + freed \<or> ?B = [])\<close> by (auto simp: evict_candidates_eq)
      have last: "List.last ?B = ?R ! (n - 1)"
        using pos all by (simp add: evict_candidates_eq last_conv_nth)
      have next_: "remaining cutoff (Some (lru_key (?R ! (n - 1)))) db2 = drop n ?R"
        by (rule remaining_next [OF 1(3) pos]) (simp_all add: db2)
      have "distinct (map bl_sha (ar_blobs db2))" using 1(3) by (simp add: db2 distinct_map_filter)
      from 1(1) [OF _ _ rows [symmetric] refl, folded db2_def, OF _ _ run this]
      obtain m where m: "m \<le> length (drop n ?R)" "same_store db' (taken (take m (drop n ?R)) db2)" "gone' = gone + n + m"
          "freed' = freed1 + sum_list (map bl_size (take m (drop n ?R)))"
          "m < length (drop n ?R) \<longrightarrow> used \<le> target + freed'" "needed used (target + freed1) (take m (drop n ?R))"
        using \<open>\<not> (used \<le> target + freed \<or> ?B = [])\<close> unfolding last next_ Let_def len by auto
      have "take (n + m) ?R = take n ?R @ take m (drop n ?R)" by (simp add: take_add)
      moreover from this have "same_store db' (taken (take (n + m) ?R) db)"
        using same_store_trans [OF m(2)] taken_taken [of "take m (drop n ?R)" "take n ?R" db] by (simp add: db2)
      moreover note nB(1)
      ultimately show ?thesis
        using m n(2,6) pos(2) by (intro exI [of _ "n + m"]) (auto simp: Let_def needed_append add.assoc)
    qed
  qed
qed

subsection \<open>The books after an eviction\<close>

lemma store_ok_same_store: "store_ok hash b \<Longrightarrow> same_store a b \<Longrightarrow> store_ok hash a"
  by (auto simp: store_ok_def same_store_def books_def refs_to_def kept_on_disk_def store_exists_def)

lemma refs_taken: "refs_to sha (taken bs db) = (if sha \<in> bl_sha ` set bs then 0 else refs_to sha db)"
proof (cases "sha \<in> bl_sha ` set bs")
  case True
  then show ?thesis by (auto simp: refs_zero)
next
  case False
  then show ?thesis
    by (simp add: refs_to_def filter_map comp_def clear_pointer_keeps del: clear_pointer_fields(6))
qed

lemma taken_ok:
  assumes "store_ok hash db" "set bs \<subseteq> set (ar_blobs db)"
  shows "store_ok hash (taken bs db)"
proof -
  have "books (\<lambda>_. 0) (taken bs db)"
    using assms unfolding store_ok_def books_def refs_taken
    by (auto simp: distinct_map_filter comp_def)
  moreover have "kept_on_disk hash (taken bs db)"
    using assms unfolding store_ok_def kept_on_disk_def store_exists_def by (auto split: if_splits)
  ultimately show ?thesis by (simp add: store_ok_def)
qed

lemma evict_to_prefix:
  assumes "store_ok hash db" "evict_to target now db = ((gone, freed), db')"
  obtains n where "let R = remaining (now - EVICT_GRACE) None db; out = take n R in
    same_store db' (taken out db) \<and> gone = length out \<and> freed = sum_list (map bl_size out) \<and>
    (n < length R \<longrightarrow> stored_bytes db \<le> target + freed) \<and> needed (stored_bytes db) target out"
proof -
  have "distinct (map bl_sha (ar_blobs db))" using assms(1) by (simp add: store_ok_def books_def)
  from evict_loop_prefix [OF assms(2) [unfolded evict_to_def] this] obtain n where
    "n \<le> length (remaining (now - EVICT_GRACE) None db)"
    "let out = take n (remaining (now - EVICT_GRACE) None db) in same_store db' (taken out db) \<and> gone = 0 + n \<and>
      freed = 0 + sum_list (map bl_size out) \<and>
      (n < length (remaining (now - EVICT_GRACE) None db) \<longrightarrow> stored_bytes db \<le> target + freed) \<and>
      needed (stored_bytes db) (target + 0) out" by blast
  then show thesis by (intro that [of n]) (auto simp: Let_def)
qed

lemma remaining_in: "distinct (map bl_sha (ar_blobs db)) \<Longrightarrow>
    set (take n (remaining cutoff after db)) \<subseteq> {b \<in> set (ar_blobs db). evictable cutoff db b}"
  using remaining_facts(3) [of db cutoff after] by (auto dest!: in_set_takeD)

lemma evict_to_ok: "store_ok hash db \<Longrightarrow> evict_to target now db = (stats, db') \<Longrightarrow> store_ok hash db'"
proof -
  assume ok: "store_ok hash db" and run: "evict_to target now db = (stats, db')"
  obtain gone freed where s: "stats = (gone, freed)" by fastforce
  from evict_to_prefix [OF ok run [unfolded s]] obtain n where
    same: "same_store db' (taken (take n (remaining (now - EVICT_GRACE) None db)) db)" by (auto simp: Let_def)
  have "distinct (map bl_sha (ar_blobs db))" using ok by (simp add: store_ok_def books_def)
  from remaining_in [OF this] have "set (take n (remaining (now - EVICT_GRACE) None db)) \<subseteq> set (ar_blobs db)" by blast
  from store_ok_same_store [OF taken_ok [OF ok this] same] show ?thesis .
qed

lemma stored_bytes_taken:
  assumes "distinct (map bl_sha (ar_blobs db))" "distinct bs" "set bs \<subseteq> set (ar_blobs db)"
  shows "stored_bytes (taken bs db) + sum_list (map bl_size bs) = stored_bytes db"
proof -
  have d: "distinct (ar_blobs db)" using assms(1) by (simp add: distinct_map)
  have "b \<in> set bs" if "b \<in> set (ar_blobs db)" "bl_sha b \<in> bl_sha ` set bs" for b
    using assms(1,3) that by (auto simp: distinct_map inj_on_def)
  then have kept: "set (filter (\<lambda>b. bl_sha b \<notin> bl_sha ` set bs) (ar_blobs db)) = set (ar_blobs db) - set bs" by auto
  have "sum_list (map bl_size bs) = sum bl_size (set bs)" using assms(2) by (simp add: sum_list_distinct_conv_sum_set)
  moreover have "stored_bytes (taken bs db) = sum bl_size (set (ar_blobs db) - set bs)"
    using d kept by (simp add: stored_bytes_def sum_list_distinct_conv_sum_set)
  moreover have "stored_bytes db = sum bl_size (set (ar_blobs db))"
    using d by (simp add: stored_bytes_def sum_list_distinct_conv_sum_set)
  moreover have "sum bl_size (set bs) \<le> sum bl_size (set (ar_blobs db))"
    using assms(3) by (intro sum_mono2) auto
  ultimately show ?thesis using assms(3) by (simp add: sum_diff_nat)
qed

text \<open>The blobs a file depends on that could not be fetched again.\<close>

definition irreplaceable :: "artifact_db \<Rightarrow> artifact_file \<Rightarrow> bool" where
  "irreplaceable db f = (af_url f = None \<or> source_disabled db (af_upstream f))"

text \<open>What an eviction took that was read before a given blob.\<close>

definition taken_before :: "artifact_db \<Rightarrow> artifact_db \<Rightarrow> stored_row \<Rightarrow> stored_row list" where
  "taken_before db db' v = filter (\<lambda>u. u \<notin> set (ar_blobs db') \<and> lru_key u < lru_key v) (ar_blobs db)"

lemma sum_before:
  assumes d: "distinct (ar_blobs db)" and r: "sorted (map lru_key R)" "distinct (map lru_key R)" "n \<le> length R" "i < n"
    and gone: "\<And>u. u \<in> set (ar_blobs db) \<and> u \<notin> set (ar_blobs db') \<longleftrightarrow> u \<in> set (take n R)"
  shows "sum_list (map bl_size (taken_before db db' (R ! i))) = sum_list (map bl_size (take i R))"
proof -
  have "u \<in> set (take n R) \<and> lru_key u < lru_key (R ! i) \<longleftrightarrow> u \<in> set (take i R)" for u
  proof
    assume u: "u \<in> set (take n R) \<and> lru_key u < lru_key (R ! i)"
    then obtain j where j: "j < n" "u = R ! j" by (auto simp: in_set_conv_nth)
    have "j < i" using sorted_nth_mono [OF r(1), of i j] r(3) j u by (auto simp: not_le [symmetric])
    with j r(3,4) show "u \<in> set (take i R)" by (auto simp: in_set_conv_nth)
  next
    assume "u \<in> set (take i R)"
    then obtain j where j: "j < i" "u = R ! j" by (auto simp: in_set_conv_nth)
    then have "lru_key u \<le> lru_key (R ! i)" "lru_key u \<noteq> lru_key (R ! i)"
      using sorted_nth_mono [OF r(1), of j i] nth_eq_iff_index_eq [OF r(2), of j i] r(3,4) by simp_all
    moreover have "u \<in> set (take n R)" using j r(3,4) nth_mem [of j "take n R"] by simp
    ultimately show "u \<in> set (take n R) \<and> lru_key u < lru_key (R ! i)" by simp
  qed
  then have "set (taken_before db db' (R ! i)) = set (take i R)" using gone by (auto simp: taken_before_def)
  moreover have "distinct (take i R)" using r(2) by (simp add: distinct_map)
  moreover have "distinct (taken_before db db' (R ! i))" using d by (simp add: taken_before_def)
  ultimately show ?thesis by (simp add: sum_list_distinct_conv_sum_set)
qed

text \<open>
  C8: Eviction takes copies only, the least recently read first, and no more than it needs. A file
  that was published here or whose upstream is disabled keeps its bytes, and so does every blob read
  within the grace period; what is taken was read before everything evictable that is kept; every
  single blob was taken while the recorded total, less what had been taken before it, was still above
  the target; and afterwards the recorded total is at most the target, or nothing evictable is left.
\<close>

theorem eviction_spares_originals:
  assumes ok: "store_ok hash db" and run: "evict_to target now db = ((gone, freed), db')"
  shows "(\<forall>b \<in> set (ar_blobs db). \<not> evictable (now - EVICT_GRACE) db b \<longrightarrow>
      b \<in> set (ar_blobs db') \<and> on_disk (bl_sha b) db' = on_disk (bl_sha b) db) \<and>
    (\<forall>f \<in> set (ar_files db). irreplaceable db f \<longrightarrow> f \<in> set (ar_files db')) \<and>
    (\<forall>v \<in> set (ar_blobs db) - set (ar_blobs db'). \<forall>b \<in> set (ar_blobs db').
      evictable (now - EVICT_GRACE) db b \<longrightarrow> lru_key v < lru_key b) \<and>
    (\<forall>v \<in> set (ar_blobs db) - set (ar_blobs db').
      target + sum_list (map bl_size (taken_before db db' v)) < stored_bytes db) \<and>
    stored_bytes db' + freed = stored_bytes db \<and>
    (stored_bytes db' \<le> target \<or> list_all (\<lambda>b. \<not> evictable (now - EVICT_GRACE) db b) (ar_blobs db'))"
proof -
  let ?c = "now - EVICT_GRACE"
  let ?R = "remaining ?c None db"
  obtain n where n: "same_store db' (taken (take n ?R) db)" "freed = sum_list (map bl_size (take n ?R))"
      "n < length ?R \<longrightarrow> stored_bytes db \<le> target + freed" "needed (stored_bytes db) target (take n ?R)"
    using evict_to_prefix [OF ok run] by (auto simp: Let_def)
  have d: "distinct (map bl_sha (ar_blobs db))" using ok by (simp add: store_ok_def books_def)
  note R = remaining_facts [OF d, of ?c None] and out = remaining_in [OF d, of n ?c None]
  let ?V = "bl_sha ` set (take n ?R)"
  have blobs: "set (ar_blobs db') = {b \<in> set (ar_blobs db). bl_sha b \<notin> ?V}"
    and files: "ar_files db' = map (clear_pointer ?V) (ar_files db)"
    and disk: "on_disk sha db' = (if sha \<in> ?V then None else on_disk sha db)" for sha
    using n(1) by (auto simp: same_store_def)
  have inj: "b \<in> set (take n ?R)" if "b \<in> set (ar_blobs db)" "bl_sha b \<in> ?V" for b
    using d out that by (auto simp: distinct_map inj_on_def)
  have kept: "b \<in> set (ar_blobs db') \<and> on_disk (bl_sha b) db' = on_disk (bl_sha b) db"
    if "b \<in> set (ar_blobs db)" "\<not> evictable ?c db b" for b
  proof -
    have "bl_sha b \<notin> ?V" using inj [OF that(1)] that(2) out by blast
    with that(1) show ?thesis by (simp add: blobs disk)
  qed
  have originals: "f \<in> set (ar_files db')" if f: "f \<in> set (ar_files db)" "irreplaceable db f" for f
  proof -
    have "\<not> (\<exists>sha \<in> ?V. af_blob f = Some sha)"
    proof
      assume "\<exists>sha \<in> ?V. af_blob f = Some sha"
      then obtain v where v: "v \<in> set (take n ?R)" "af_blob f = Some (bl_sha v)" by blast
      then have "has_local_reference db (bl_sha v)"
        using f by (auto simp: irreplaceable_def has_local_reference_def)
      moreover have "evictable ?c db v" using out v(1) by blast
      ultimately show False by (simp add: evictable_def)
    qed
    then have "clear_pointer ?V f = f" by (simp add: clear_pointer_def)
    with f(1) show ?thesis unfolding files by (metis imageI list.set_map)
  qed
  have order: "lru_key v < lru_key b"
    if v: "v \<in> set (ar_blobs db) - set (ar_blobs db')" and b: "b \<in> set (ar_blobs db')" "evictable ?c db b" for v b
  proof -
    have "v \<in> set (take n ?R)" using v inj by (auto simp: blobs)
    moreover have "b \<in> set ?R" "b \<notin> set (take n ?R)" using b R(3) by (auto simp: blobs past_def)
    then have "b \<in> set (drop n ?R)" by (metis Un_iff append_take_drop_id set_append)
    ultimately have "lru_key v \<le> lru_key b" "v \<noteq> b"
      using R(2) \<open>b \<notin> set (take n ?R)\<close> sorted_append [of "map lru_key (take n ?R)" "map lru_key (drop n ?R)"]
      by (auto simp flip: map_append)
    moreover have "lru_key v \<noteq> lru_key b"
      using d v b(1) \<open>v \<noteq> b\<close> by (auto simp: blobs lru_key_def distinct_map inj_on_def)
    ultimately show ?thesis by simp
  qed
  have need: "target + sum_list (map bl_size (taken_before db db' v)) < stored_bytes db"
    if v: "v \<in> set (ar_blobs db) - set (ar_blobs db')" for v
  proof -
    let ?k = "min n (length ?R)"
    have take: "take ?k ?R = take n ?R" by (simp add: min_def)
    have "v \<in> set (take ?k ?R)" using v inj unfolding take by (auto simp: blobs)
    then obtain i where i: "i < ?k" "v = ?R ! i" by (auto simp: in_set_conv_nth)
    have "u \<in> set (ar_blobs db) \<and> u \<notin> set (ar_blobs db') \<longleftrightarrow> u \<in> set (take ?k ?R)" for u
      unfolding take using inj out by (auto simp: blobs)
    from sum_before [OF _ R(2) lru_key_inj [OF R(1)] _ i(1) this] d
    have "sum_list (map bl_size (taken_before db db' v)) = sum_list (map bl_size (take i ?R))"
      by (simp add: i(2) distinct_map)
    moreover have "target + sum_list (map bl_size (take i ?R)) < stored_bytes db"
      using n(4) [unfolded needed_def, rule_format, of i] i(1) by (simp add: min_def split: if_splits)
    ultimately show ?thesis by simp
  qed
  have sum: "stored_bytes db' + freed = stored_bytes db"
    using stored_bytes_taken [OF d, of "take n ?R"] R(1) out n(1,2)
    by (auto simp: same_store_def stored_bytes_def distinct_map)
  have fits: "stored_bytes db' \<le> target \<or> list_all (\<lambda>b. \<not> evictable ?c db b) (ar_blobs db')"
  proof (cases "n < length ?R")
    case True
    with n(3) sum show ?thesis by linarith
  next
    case False
    then have "set (take n ?R) = {b \<in> set (ar_blobs db). evictable ?c db b}" using R(3) by (auto simp: past_def)
    then show ?thesis by (auto simp: list_all_iff blobs)
  qed
  from kept originals order need sum fits show ?thesis by (intro conjI ballI impI) simp_all
qed

text \<open>
  A download that needs room is refused only when the total stays at the quota although nothing is
  left to evict.
\<close>

lemma make_room_fits:
  assumes "make_room quota incoming now db = (Inr (), db')" "quota \<noteq> 0"
  shows "stored_bytes db' + incoming < quota"
  using assms by (auto simp: make_room_def Let_def split: if_splits)

lemma make_room_ok: "store_ok hash db \<Longrightarrow> make_room quota incoming now db = (r, db') \<Longrightarrow> store_ok hash db'"
  using evict_to_ok [of hash db "low_water quota - incoming" now "fst (evict_to (low_water quota - incoming) now db)"
      "snd (evict_to (low_water quota - incoming) now db)"]
  by (auto simp: make_room_def Let_def split: if_splits)

lemma enforce_quota_ok: "store_ok hash db \<Longrightarrow> store_ok hash (enforce_quota quota now db)"
  using evict_to_ok [of hash db "low_water quota" now "fst (evict_to (low_water quota) now db)"
      "snd (evict_to (low_water quota) now db)"]
  by (auto simp: enforce_quota_def)

text \<open>Two copies and a published file; the older copy has to go.\<close>

definition plain_file :: "nat \<Rightarrow> string \<Rightarrow> string option \<Rightarrow> artifact_file" where
  "plain_file fid sha url = \<lparr>af_id = fid, af_package = 1, af_eco = ''npm'', af_local = (url = None), af_name = ''a.tgz'',
     af_blob = Some sha, af_size = Some 1, af_type = ''application/octet-stream'', af_sha256 = None, af_sha1 = None,
     af_md5 = None, af_blake2b = None, af_integrity = None, af_url = url, af_upstream = None, af_cached = Some 0,
     af_downloads = 0\<rparr>"

definition plain_blob :: "string \<Rightarrow> int \<Rightarrow> stored_row" where
  "plain_blob sha accessed = \<lparr>bl_sha = sha, bl_size = 1, bl_path = relative_path_for sha, bl_refs = 1, bl_accessed = accessed,
     bl_reads = 0\<rparr>"

definition own_digest :: "string \<Rightarrow> string \<Rightarrow> string" where
  "own_digest algorithm data = data"

definition sample_store :: artifact_db where
  "sample_store = \<lparr>ar_blobs = [plain_blob ''62'' 5, plain_blob ''61'' 3, plain_blob ''63'' 1],
     ar_files = [plain_file 1 ''61'' (Some ''u''), plain_file 2 ''62'' (Some ''v''), plain_file 3 ''63'' None],
     ar_sources = [], ar_disk = [(''61'', ''a'', 0), (''62'', ''b'', 0), (''63'', ''c'', 0)], ar_staging = []\<rparr>"

lemma hexdigest_one: "hexdigest [c] = [nibble (of_char c div 16), nibble (of_char c mod 16)]"
  by simp

lemma sample_store_ok: "store_ok own_digest sample_store"
proof -
  have "books (\<lambda>_. 0) sample_store"
    by (auto simp: books_def sample_store_def refs_to_def plain_blob_def plain_file_def)
  moreover have "kept_on_disk own_digest sample_store"
    by (auto simp: kept_on_disk_def store_exists_def on_disk_def sample_store_def plain_blob_def own_digest_def nibble_def
        split: if_splits)
  ultimately show ?thesis by (simp add: store_ok_def)
qed

lemma eviction_spares_originals_witness:
  "\<exists>gone freed db'. evict_to 2 1000 sample_store = ((gone, freed), db') \<and> plain_file 3 ''63'' None \<in> set (ar_files db') \<and>
     stored_bytes db' + freed = 3"
proof -
  obtain gone freed db' where run: "evict_to 2 1000 sample_store = ((gone, freed), db')" by (metis prod.collapse)
  have "plain_file 3 ''63'' None \<in> set (ar_files sample_store)" "irreplaceable sample_store (plain_file 3 ''63'' None)"
    "stored_bytes sample_store = 3"
    by (simp_all add: sample_store_def irreplaceable_def plain_file_def stored_bytes_def plain_blob_def)
  with eviction_spares_originals [OF sample_store_ok run] run show ?thesis by metis
qed

end
