(* ===== verification/Artifact_Run_Spec.thy ===== *)
theory Artifact_Run_Spec
  imports Artifact_Evict_Spec
begin

section \<open>The artifact store over time\<close>

text \<open>
  Every operation on the store, in any order: metadata appears and changes, files are published and
  downloaded, served, purged, evicted and collected, upstreams are edited. The store stays
  consistent, so what is served is what was stored.
\<close>

subsection \<open>Collecting\<close>

lemma books_drop_unreferenced:
  assumes "books (\<lambda>_. 0) db" "refs_to sha db = 0"
  shows "books (\<lambda>_. 0) (drop_blob sha db)"
proof -
  have r: "refs_to s (drop_blob sha db) = refs_to s db" for s by (simp add: refs_to_def)
  have b: "ar_blobs (drop_blob sha db) = filter (\<lambda>b. bl_sha b \<noteq> sha) (ar_blobs db)" by (simp add: drop_blob_def)
  show ?thesis using assms unfolding books_def r b by (auto simp: distinct_map_filter)
qed

lemma drop_unreferenced_ok:
  assumes "store_ok hash db" "refs_to sha db = 0"
  shows "store_ok hash (unlink_blob sha (drop_blob sha db))"
proof -
  have bk: "books (\<lambda>_. 0) (drop_blob sha db)" using books_drop_unreferenced assms by (simp add: store_ok_def)
  have kept: "kept_on_disk hash (drop_blob sha db)"
    by (rule kept_same_disk [of hash db]) (use assms in \<open>auto simp: store_ok_def\<close>)
  have "kept_on_disk hash (unlink_blob sha (drop_blob sha db))" by (rule kept_delete [OF kept]) simp
  with bk show ?thesis by (auto simp: store_ok_def intro: books_same)
qed

lemma drop_batch_ok:
  "store_ok hash db \<Longrightarrow> (\<forall>sha \<in> set batch. refs_to sha db = 0) \<Longrightarrow>
   store_ok hash (fold (\<lambda>sha d. unlink_blob sha (drop_blob sha d)) batch db)"
proof (induction batch arbitrary: db)
  case (Cons sha batch)
  have "refs_to s (unlink_blob sha (drop_blob sha db)) = refs_to s db" for s by (simp add: refs_to_def)
  with Cons show ?case by (simp add: drop_unreferenced_ok)
qed simp

lemma unreferenced_refs: "unreferenced db b \<Longrightarrow> refs_to (bl_sha b) db = 0"
  by (auto simp: unreferenced_def refs_zero)

lemma collect_orphans_ok: "store_ok hash db \<Longrightarrow> collect_orphans db = (n, db') \<Longrightarrow> store_ok hash db'"
proof (induction db arbitrary: n db' rule: collect_orphans.induct)
  case (1 db)
  let ?b = "map bl_sha (take 500 (filter (unreferenced db) (ar_blobs db)))"
  let ?db1 = "fold (\<lambda>sha d. unlink_blob sha (drop_blob sha d)) ?b db"
  have ok1: "store_ok hash ?db1"
    by (rule drop_batch_ok [OF 1(2)]) (auto dest!: in_set_takeD unreferenced_refs)
  note unf = 1(3) [unfolded collect_orphans.simps [of db] Let_def]
  show ?case
  proof (cases "?b = []")
    case True
    with 1(2,3) show ?thesis by (simp add: collect_orphans.simps [of db])
  next
    case False
    show ?thesis
    proof (cases "length ?b < 500")
      case True
      have "db' = ?db1"
        using unf \<open>?b \<noteq> []\<close> True by (simp only: if_False if_True prod.inject)
      with ok1 show ?thesis by simp
    next
      case False
      obtain m db2 where rest: "collect_orphans ?db1 = (m, db2)" by fastforce
      have "db' = db2"
        using unf \<open>?b \<noteq> []\<close> False rest by (simp only: if_False if_True prod.inject prod.case)
      with 1(1) [OF refl \<open>?b \<noteq> []\<close> refl False ok1 rest] show ?thesis by simp
    qed
  qed
qed

lemma delete_if_older_ok:
  assumes "store_ok hash db" "blob_of sha db = None" "delete_if_older sha cutoff db = (n, db')"
  shows "store_ok hash db'"
proof -
  have "store_ok hash (unlink_blob sha db)"
    using assms(1,2) kept_delete [of hash db sha] books_same [of "\<lambda>_. 0" db "unlink_blob sha db"]
    by (simp add: store_ok_def blob_of_shas)
  with assms show ?thesis by (auto simp: delete_if_older_def split: option.splits if_splits)
qed

lemma sweep_one_ok: "store_ok hash (snd st) \<Longrightarrow> store_ok hash (snd (sweep_one cutoff sha st))"
  by (cases st) (auto simp: sweep_one_def dest: delete_if_older_ok split: option.splits prod.splits)

lemma sweep_ok: "store_ok hash db \<Longrightarrow> store_ok hash (snd (sweep_orphan_files cutoff db))"
  unfolding sweep_orphan_files_def
  by (rule fold_invariant [where Q = "\<lambda>_. True" and P = "\<lambda>st. store_ok hash (snd st)"])
    (auto intro!: fold_invariant [where Q = "\<lambda>_. True" and P = "\<lambda>st. store_ok hash (snd st)"] sweep_one_ok)

lemma store_ok_staging: "store_ok hash db \<Longrightarrow> store_ok hash (db\<lparr>ar_staging := s\<rparr>)"
  by (simp add: store_ok_def books_def refs_to_def kept_on_disk_def store_exists_def on_disk_def)

lemma cleanup_tmp_ok: "store_ok hash db \<Longrightarrow> cleanup_tmp cutoff db = (n, db') \<Longrightarrow> store_ok hash db'"
  using store_ok_staging by (auto simp: cleanup_tmp_def)

lemma housekeeping_ok: "store_ok hash db \<Longrightarrow> store_ok hash (artifact_housekeeping quota now db)"
  unfolding artifact_housekeeping_def
  by (rule cleanup_tmp_ok [OF _ surjective_pairing], rule enforce_quota_ok, rule sweep_ok,
      rule collect_orphans_ok [OF _ surjective_pairing])

subsection \<open>Purging\<close>

definition purged_row :: "nat set \<Rightarrow> artifact_file \<Rightarrow> artifact_file" where
  "purged_row ids f = (if af_id f \<in> ids \<and> given (af_blob f) then f\<lparr>af_blob := None, af_cached := None\<rparr> else f)"

lemma purged_row_id [simp]: "af_id (purged_row ids f) = af_id f"
  by (simp add: purged_row_def)

lemma purge_row_files:
  assumes "distinct (map af_id (ar_files db))" "purge_row fid db = (q, db')"
  shows "ar_files db' = map (purged_row {fid}) (ar_files db)"
proof (cases "file_of fid db")
  case None
  then have "af_id f \<noteq> fid" if "f \<in> set (ar_files db)" for f
    using that by (auto simp: file_of_def find_None_iff)
  with None assms(2) show ?thesis by (auto simp: purge_row_def purged_row_def intro!: map_idI [symmetric])
next
  case (Some f)
  have fin: "f \<in> set (ar_files db)" "af_id f = fid" using file_of_Some [OF Some] by auto
  then have same: "x = f" if "x \<in> set (ar_files db)" "af_id x = fid" for x
    using assms(1) that by (auto simp: distinct_map inj_on_def)
  show ?thesis
  proof (cases "given (af_blob f)")
    case True
    have "ar_files db' = ar_files (put_file (f\<lparr>af_blob := None, af_cached := None\<rparr>) db)"
      using assms(2) Some True by (auto simp: purge_row_def Let_def split: option.splits if_splits)
    then show ?thesis using fin(2) True same by (auto simp: put_file_def purged_row_def)
  next
    case False
    then have "purged_row {fid} x = x" if "x \<in> set (ar_files db)" for x
      using same [OF that] by (auto simp: purged_row_def)
    moreover have "db' = db" using assms(2) Some False by (simp add: purge_row_def)
    ultimately show ?thesis by (auto intro!: map_idI [symmetric])
  qed
qed

lemma purge_rows_files:
  "distinct (map af_id (ar_files db)) \<Longrightarrow> purge_rows fids db = (n, db') \<Longrightarrow>
   ar_files db' = map (purged_row (set fids)) (ar_files db)"
proof (induction fids db arbitrary: n db' rule: purge_rows.induct)
  case (1 db)
  then show ?case by (simp add: purged_row_def)
next
  case (2 fid fids db)
  obtain q db1 where r: "purge_row fid db = (q, db1)" by fastforce
  obtain m db2 where rs: "purge_rows fids db1 = (m, db2)" by fastforce
  note files1 = purge_row_files [OF 2(2) r]
  have "distinct (map af_id (ar_files db1))"
    using 2(2) by (simp add: files1 comp_def)
  from 2(1) [OF r [symmetric] this rs] have "ar_files db2 = map (purged_row (set fids)) (ar_files db1)" .
  then show ?case using 2(3) r rs by (auto simp: files1 purged_row_def given_def)
qed

lemma store_ok_drop_files:
  assumes "store_ok hash db" "\<And>f. f \<in> set (ar_files db) \<Longrightarrow> \<not> P f \<Longrightarrow> af_blob f = None"
  shows "store_ok hash (db\<lparr>ar_files := filter P (ar_files db)\<rparr>)"
proof -
  have "filter (\<lambda>f. af_blob f = Some sha) (filter P (ar_files db)) = filter (\<lambda>f. af_blob f = Some sha) (ar_files db)" for sha
    using assms(2) by (force intro!: filter_cong)
  then have r: "refs_to sha (db\<lparr>ar_files := filter P (ar_files db)\<rparr>) = refs_to sha db" for sha
    by (simp add: refs_to_def)
  show ?thesis
    using assms(1) unfolding store_ok_def books_def r
    by (auto simp: distinct_map_filter kept_on_disk_def store_exists_def on_disk_def)
qed

lemma purge_package_ok:
  assumes ok: "store_ok hash db" and run: "purge_package pid only db = (n, db')"
  shows "store_ok hash db'"
proof -
  obtain m db1 where rows: "purge_rows (map af_id (filter (\<lambda>f. af_package f = pid) (ar_files db))) db = (m, db1)" by fastforce
  have ok1: "store_ok hash db1" by (rule purge_rows_ok [OF ok rows])
  have d: "distinct (map af_id (ar_files db))" using ok by (simp add: store_ok_def books_def)
  have "af_blob f = None" if f: "f \<in> set (ar_files db1)" "\<not> af_package f \<noteq> pid" for f
  proof -
    obtain g where g: "g \<in> set (ar_files db)" "f = purged_row (set (map af_id (filter (\<lambda>f. af_package f = pid) (ar_files db)))) g"
      using f(1) by (auto simp: purge_rows_files [OF d rows])
    then have "af_package g = pid" using f(2) by (auto simp: purged_row_def split: if_splits)
    with g ok show ?thesis by (auto simp: purged_row_def given_def store_ok_def books_def)
  qed
  then have "store_ok hash (db1\<lparr>ar_files := filter (\<lambda>f. af_package f \<noteq> pid) (ar_files db1)\<rparr>)"
    by (intro store_ok_drop_files [OF ok1]) simp
  then show ?thesis
    using run rows ok1 by (auto simp: purge_package_def split: if_splits)
qed

lemma purge_cache_ok:
  assumes "store_ok hash db" "purge_cache eco days unused now db = (n, db')"
  shows "store_ok hash db'"
proof -
  obtain m db1 where r: "purge_rows (purgeable eco days unused now db) db = (m, db1)" by fastforce
  from collect_orphans_ok [OF purge_rows_ok [OF assms(1) r] surjective_pairing] show ?thesis
    using assms(2) r by (simp add: purge_cache_def)
qed

lemma garbage_collect_ok: "store_ok hash db \<Longrightarrow> garbage_collect now db = (n, m, db') \<Longrightarrow> store_ok hash db'"
  by (auto simp: garbage_collect_def split: prod.splits dest: collect_orphans_ok cleanup_tmp_ok)

subsection \<open>Publishing and serving\<close>

lemma books_add_file:
  assumes "books adj db" "af_id f \<notin> af_id ` set (ar_files db)" "af_blob f \<noteq> Some []"
  shows "books (shift (af_blob f) (- 1) adj) (db\<lparr>ar_files := ar_files db @ [f]\<rparr>)"
  using assms unfolding books_def by (auto simp: shift_def refs_to_def)

lemma store_bytes_facts:
  assumes "store_ok hash db" "store_bytes hash now data db = ((s, existed), db1)"
  shows "store_ok hash db1 \<and> s = digests_stored hash data \<and> ar_files db1 = ar_files db \<and> store_exists (sb_sha256 s) db1"
proof (cases "on_disk (hexdigest (hash ''sha256'' data)) db")
  case None
  with assms adopt_ok [OF assms(1)] show ?thesis
    by (auto simp: store_bytes_def Let_def digests_stored_def store_exists_def on_disk_adopt)
next
  case (Some e)
  obtain bytes t where e: "e = (bytes, t)" by fastforce
  then have "hexdigest (hash ''sha256'' data) = hexdigest (hash ''sha256'' bytes)"
    using assms(1) Some unfolding store_ok_def kept_on_disk_def by blast
  with assms Some e adopt_ok [OF assms(1), of bytes now] show ?thesis
    by (auto simp: store_bytes_def Let_def digests_stored_def store_exists_def on_disk_adopt)
qed

lemma publish_file_ok:
  assumes ok: "store_ok hash db" and "sized hash" and new: "af_id f \<notin> af_id ` set (ar_files db)"
  shows "store_ok hash (publish_file hash now f data db)"
proof -
  obtain s existed db1 where p: "store_bytes hash now data db = ((s, existed), db1)" by (metis prod.collapse)
  note facts = store_bytes_facts [OF ok p]
  have bk: "books (\<lambda>_. 0) db1" and kept: "kept_on_disk hash db1" using facts by (auto simp: store_ok_def)
  define db2 where "db2 = (case blob_of (sb_sha256 s) db1 of None \<Rightarrow> add_blob s now db1
       | Some b \<Rightarrow> put_blob (b\<lparr>bl_refs := bl_refs b + 1\<rparr>) db1)"
  define g where "g = f\<lparr>af_local := True, af_url := None, af_upstream := None, af_blob := Some (sb_sha256 s),
    af_size := Some (sb_size s)\<rparr>"
  have bk2: "books (shift (Some (sb_sha256 s)) 1 (\<lambda>_. 0)) db2"
    using books_acquire(2) [OF bk refl] by (simp add: db2_def)
  have fields: "ar_files db2 = ar_files db" "ar_disk db2 = ar_disk db1" "shas db2 \<subseteq> insert (sb_sha256 s) (shas db1)"
    using facts by (auto simp: db2_def split: option.splits)
  have ne: "sb_sha256 s \<noteq> []" using facts sized_hexdigest [OF assms(2)] by (simp add: digests_stored_def)
  have "books (\<lambda>_. 0) (db2\<lparr>ar_files := ar_files db2 @ [g]\<rparr>)"
    using books_add_file [OF bk2, of g] new ne by (simp add: g_def fields)
  moreover have "kept_on_disk hash (db2\<lparr>ar_files := ar_files db2 @ [g]\<rparr>)"
    using fields facts by (intro kept_same_disk [OF kept]) (auto simp: shas_def)
  ultimately show ?thesis
    using p by (simp add: publish_file_def db2_def g_def store_ok_def Let_def)
qed

lemma settle_same: "settle fid db = (r, db') \<Longrightarrow> db' = db"
  by (simp add: settle_def)

lemma open_fill_ok: "store_ok hash db \<Longrightarrow> open_fill s verify fid a db = (r, db') \<Longrightarrow> store_ok hash db'"
  by (auto simp: open_fill_def Let_def split: if_splits option.splits sum.splits prod.splits dest: make_room_ok)

lemma obtain_file_ok:
  assumes "sized (fs_hash s)" "\<And>a db'. a \<in> set as \<Longrightarrow> at_peer a = Some db' \<Longrightarrow> store_ok (fs_hash s) db'"
    "store_ok (fs_hash s) db" "obtain_file s verify fid as db = (r, db')"
  shows "store_ok (fs_hash s) db'"
  using assms(2-4)
proof (induction as arbitrary: db r db')
  case Nil
  then show ?case by (simp add: settle_def)
next
  case (Cons a as)
  obtain q db1 where o: "open_fill s verify fid a db = (q, db1)" by fastforce
  have ok1: "store_ok (fs_hash s) db1" by (rule open_fill_ok [OF Cons.prems(2) o])
  show ?case
  proof (cases q)
    case (Inl e)
    with o ok1 Cons.prems(3) show ?thesis by simp
  next
    case (Inr w)
    show ?thesis
    proof (cases w)
      case Already_cached
      with o Inr ok1 Cons.prems(3) show ?thesis by (simp add: settle_def)
    next
      case Peer
      show ?thesis
      proof (cases "at_peer a")
        case None
        with o Inr Peer ok1 Cons.prems(3) show ?thesis by simp
      next
        case (Some db2)
        have "store_ok (fs_hash s) db2" by (rule Cons.prems(1) [of a, OF _ Some]) simp
        moreover have "obtain_file s verify fid as db2 = (r, db')" using Cons.prems(3) o Inr Peer Some by simp
        ultimately show ?thesis using Cons.IH Cons.prems(1) by (meson list.set_intros(2))
      qed
    next
      case (Filling e p)
      obtain q2 db2 where f: "run_fill (fs_hash s) (fs_limit s) (at_now a) fid e (at_body a) db1 = (q2, db2)" by fastforce
      from run_fill_ok [OF ok1 f assms(1)] show ?thesis
        using Cons.prems(3) o Inr Filling f by (auto simp: settle_def split: sum.splits)
    qed
  qed
qed

lemma ensure_cached_ok:
  assumes "sized (fs_hash s)" "\<And>a db'. a \<in> set as \<Longrightarrow> at_peer a = Some db' \<Longrightarrow> store_ok (fs_hash s) db'"
    "store_ok (fs_hash s) db" "ensure_cached s verify fid as db = (r, db')"
  shows "store_ok (fs_hash s) db'"
proof (cases "obtain_file s verify fid (take 3 as) db = (r, db')")
  case True
  have "store_ok (fs_hash s) d" if "a \<in> set (take 3 as)" "at_peer a = Some d" for a d
    using assms(2) in_set_takeD [OF that(1)] that(2) by blast
  then show ?thesis using obtain_file_ok [OF assms(1) _ assms(3) True] by blast
next
  case False
  with assms(3,4) show ?thesis by (auto simp: ensure_cached_def split: option.splits if_splits)
qed

lemma ensure_cached_cached:
  assumes "ensure_cached s verify fid as db = (Inr (), db')"
  shows "\<exists>f. file_of fid db' = Some f \<and> cached db' f"
proof -
  have settled: "settle fid d = (Inr (), d') \<Longrightarrow> \<exists>f. file_of fid d' = Some f \<and> cached d' f" for d d'
    by (auto simp: settle_def split: option.splits if_splits)
  have "obtain_file s verify fid bs d = (Inr (), d') \<Longrightarrow> \<exists>f. file_of fid d' = Some f \<and> cached d' f" for bs d d'
    by (induction bs arbitrary: d)
      (auto split: prod.splits sum.splits option.splits fill_opening.splits dest: settled)
  with assms show ?thesis by (auto simp: ensure_cached_def split: option.splits if_splits)
qed

lemma touch_ok:
  assumes "store_ok hash db" "blob_of sha db = Some b"
  shows "store_ok hash (put_blob (b\<lparr>bl_accessed := t, bl_reads := k\<rparr>) db)"
proof -
  have bk: "books (\<lambda>_. 0) db" and kept: "kept_on_disk hash db" using assms(1) by (auto simp: store_ok_def)
  have "books (\<lambda>_. 0) (put_blob (b\<lparr>bl_accessed := t, bl_reads := k\<rparr>) db)"
    using books_put_blob [OF bk assms(2), of "b\<lparr>bl_accessed := t, bl_reads := k\<rparr>" 0] blob_of_Some [OF assms(2)] by simp
  moreover have "kept_on_disk hash (put_blob (b\<lparr>bl_accessed := t, bl_reads := k\<rparr>) db)"
    by (rule kept_same_disk [OF kept]) auto
  ultimately show ?thesis by (simp add: store_ok_def)
qed

lemma stream_artifact_ok:
  assumes "sized (fs_hash s)" "\<And>a db'. a \<in> set as \<Longrightarrow> at_peer a = Some db' \<Longrightarrow> store_ok (fs_hash s) db'"
    "store_ok (fs_hash s) db" "stream_artifact s fid as now db = (r, db')"
  shows "store_ok (fs_hash s) db'"
proof -
  obtain q db1 where e: "ensure_cached s True fid as db = (q, db1)" by fastforce
  have ok1: "store_ok (fs_hash s) db1" by (rule ensure_cached_ok [OF assms(1-3) e])
  with assms(4) e show ?thesis
    by (auto simp: stream_artifact_def Let_def intro: touch_ok split: sum.splits option.splits)
qed

subsection \<open>Any sequence of operations\<close>

inductive store_run :: "(string \<Rightarrow> string \<Rightarrow> string) \<Rightarrow> artifact_db \<Rightarrow> bool" for hash :: "string \<Rightarrow> string \<Rightarrow> string" where
  empty: "ar_blobs db = [] \<Longrightarrow> ar_files db = [] \<Longrightarrow> ar_disk db = [] \<Longrightarrow> store_run hash db"
| listed: "store_run hash db \<Longrightarrow> af_id f \<notin> af_id ` set (ar_files db) \<Longrightarrow> af_blob f = None \<Longrightarrow>
    store_run hash (db\<lparr>ar_files := ar_files db @ [f]\<rparr>)"
| edited: "store_run hash db \<Longrightarrow> f \<in> set (ar_files db) \<Longrightarrow> af_id f' = af_id f \<Longrightarrow> af_blob f' = af_blob f \<Longrightarrow>
    store_run hash (put_file f' db)"
| sources: "store_run hash db \<Longrightarrow> store_run hash (db\<lparr>ar_sources := srcs\<rparr>)"
| published: "store_run hash db \<Longrightarrow> af_id f \<notin> af_id ` set (ar_files db) \<Longrightarrow>
    store_run hash (publish_file hash now f data db)"
| filled: "store_run hash db \<Longrightarrow> run_fill hash limit now fid e events db = (r, db') \<Longrightarrow> store_run hash db'"
| served: "store_run hash db \<Longrightarrow> fs_hash s = hash \<Longrightarrow>
    (\<And>a db'. a \<in> set attempts \<Longrightarrow> at_peer a = Some db' \<Longrightarrow> store_run hash db') \<Longrightarrow>
    stream_artifact s fid attempts now db = (q, db'') \<Longrightarrow> store_run hash db''"
| purged: "store_run hash db \<Longrightarrow> purge_row fid db = (b, db') \<Longrightarrow> store_run hash db'"
| package_purged: "store_run hash db \<Longrightarrow> purge_package pid only db = (n, db') \<Longrightarrow> store_run hash db'"
| cache_purged: "store_run hash db \<Longrightarrow> purge_cache eco days unused now db = (n, db') \<Longrightarrow> store_run hash db'"
| collected: "store_run hash db \<Longrightarrow> garbage_collect now db = (n, m, db') \<Longrightarrow> store_run hash db'"
| evicting: "store_run hash db \<Longrightarrow> evict_to target now db = (stats, db') \<Longrightarrow> store_run hash db'"
| kept_house: "store_run hash db \<Longrightarrow> store_run hash (artifact_housekeeping quota now db)"

lemma store_ok_sources: "store_ok hash db \<Longrightarrow> store_ok hash (db\<lparr>ar_sources := srcs\<rparr>)"
  by (simp add: store_ok_def books_def refs_to_def kept_on_disk_def store_exists_def on_disk_def)

lemma store_ok_listed:
  assumes "store_ok hash db" "af_id f \<notin> af_id ` set (ar_files db)" "af_blob f = None"
  shows "store_ok hash (db\<lparr>ar_files := ar_files db @ [f]\<rparr>)"
  using assms books_add_file [of "\<lambda>_. 0" db f]
  by (simp add: store_ok_def kept_on_disk_def store_exists_def on_disk_def)

lemma store_ok_edited:
  assumes "store_ok hash db" "f \<in> set (ar_files db)" "af_id f' = af_id f" "af_blob f' = af_blob f"
  shows "store_ok hash (put_file f' db)"
proof -
  have "af_blob f' \<noteq> Some []" using assms by (auto simp: store_ok_def books_def)
  from books_put_file [OF _ assms(2,3) this, of "\<lambda>_. 0"] assms(1,4) have "books (\<lambda>_. 0) (put_file f' db)"
    by (simp add: store_ok_def)
  moreover have "kept_on_disk hash (put_file f' db)"
    by (rule kept_same_disk [of hash db]) (use assms(1) in \<open>auto simp: store_ok_def\<close>)
  ultimately show ?thesis by (simp add: store_ok_def)
qed

lemma store_run_ok:
  assumes "store_run hash db" "sized hash"
  shows "store_ok hash db"
  using assms
proof (induction rule: store_run.induct)
  case (empty db)
  then show ?case by (simp add: store_ok_def books_def refs_to_def kept_on_disk_def on_disk_def)
next
  case (served db s attempts fid now q db'')
  have "store_ok (fs_hash s) db'" if "a \<in> set attempts" "at_peer a = Some db'" for a db'
    using served.IH(2) [OF that served.prems] served.hyps(2) by simp
  then show ?case
    using stream_artifact_ok [of s attempts db fid now q db''] served.IH(1) [OF served.prems] served.hyps served.prems by blast
qed (blast intro: store_ok_listed store_ok_edited store_ok_sources publish_file_ok run_fill_ok purge_row_ok
    purge_package_ok purge_cache_ok garbage_collect_ok evict_to_ok housekeeping_ok)+

text \<open>
  C7: The artifact store stays consistent. Whatever is published, downloaded, served, purged, evicted
  and collected, in whatever order, every file that has a blob finds its bytes on disk and they have
  that digest; the count of a blob is the number of files that point to it; and no two rows are for
  the same bytes.
\<close>

theorem artifact_store_consistent:
  assumes "store_run hash db" "sized hash"
  shows "list_all (\<lambda>f. case af_blob f of None \<Rightarrow> True
      | Some sha \<Rightarrow> (case on_disk sha db of None \<Rightarrow> False | Some (bytes, _) \<Rightarrow> hexdigest (hash ''sha256'' bytes) = sha)) (ar_files db) \<and>
    list_all (\<lambda>b. bl_refs b = int (length (filter (\<lambda>f. af_blob f = Some (bl_sha b)) (ar_files db)))) (ar_blobs db) \<and>
    distinct (map bl_sha (ar_blobs db))"
proof -
  have ok: "store_ok hash db" by (rule store_run_ok [OF assms])
  then have bk: "books (\<lambda>_. 0) db" and kept: "kept_on_disk hash db" by (auto simp: store_ok_def)
  have "\<exists>bytes t. on_disk sha db = Some (bytes, t) \<and> hexdigest (hash ''sha256'' bytes) = sha"
    if "f \<in> set (ar_files db)" "af_blob f = Some sha" for f sha
    using pointer_has_row [OF bk that] kept by (fastforce simp: kept_on_disk_alt store_exists_def)
  then show ?thesis
    using bk by (fastforce simp: list_all_iff books_def refs_to_def split: option.splits)
qed

definition marked_digest :: "string \<Rightarrow> string \<Rightarrow> string" where
  "marked_digest algorithm data = CHR ''x'' # data"

definition empty_store :: artifact_db where
  "empty_store = \<lparr>ar_blobs = [], ar_files = [], ar_sources = [], ar_disk = [], ar_staging = []\<rparr>"

definition one_file :: artifact_db where
  "one_file = publish_file marked_digest 0 (plain_file 1 [] None) ''tarball'' empty_store"

lemma one_file_run: "store_run marked_digest one_file" "sized marked_digest"
proof -
  have "store_run marked_digest empty_store" by (rule store_run.empty) (simp_all add: empty_store_def)
  then show "store_run marked_digest one_file"
    unfolding one_file_def by (rule store_run.published) (simp add: empty_store_def)
  show "sized marked_digest" by (simp add: sized_def marked_digest_def)
qed

lemma one_file_row:
  "\<exists>g. ar_files one_file = [g] \<and> af_id g = 1 \<and> af_blob g = Some (hexdigest (marked_digest ''sha256'' ''tarball''))"
  by (simp add: one_file_def publish_file_def store_bytes_def on_disk_def empty_store_def Let_def blob_of_def plain_file_def
      digests_stored_def adopt_def add_blob_def)

lemma artifact_store_consistent_witness:
  "ar_files one_file \<noteq> [] \<and> distinct (map bl_sha (ar_blobs one_file))"
  using artifact_store_consistent [OF one_file_run] one_file_row by auto

text \<open>
  What is served is what was stored. A request that is answered from the store gets bytes with
  the digest its file row names, whether they were there or had to be fetched.
\<close>

theorem served_bytes_have_digest:
  assumes "store_run hash db" "sized hash" "fs_hash s = hash"
    "\<And>a db'. a \<in> set attempts \<Longrightarrow> at_peer a = Some db' \<Longrightarrow> store_run hash db'"
    "stream_artifact s fid attempts now db = (Inr (bytes, n, ctype), db')"
  shows "\<exists>f. file_of fid db' = Some f \<and> af_blob f = Some (hexdigest (hash ''sha256'' bytes))"
proof -
  obtain db1 where e: "ensure_cached s True fid attempts db = (Inr (), db1)"
    using assms(5) by (auto simp: stream_artifact_def split: prod.splits sum.splits)
  have "store_ok (fs_hash s) db'" if "a \<in> set attempts" "at_peer a = Some db'" for a db'
    using store_run_ok [OF assms(4) [OF that] assms(2)] assms(3) by simp
  then have ok: "store_ok hash db1"
    using ensure_cached_ok [OF _ _ _ e] assms(2,3) store_run_ok [OF assms(1,2)] by blast
  obtain f sha where f: "file_of fid db1 = Some f" "af_blob f = Some sha" "store_exists sha db1"
    using ensure_cached_cached [OF e] by (auto simp: cached_def given_def)
  obtain data t where d: "on_disk sha db1 = Some (data, t)" using f(3) by (auto simp: store_exists_def)
  then have "sha = hexdigest (hash ''sha256'' data)" using ok unfolding store_ok_def kept_on_disk_def by blast
  moreover have "bytes = data" "file_of fid db' = Some f"
    using assms(5) e f d by (auto simp: stream_artifact_def Let_def file_of_def split: option.splits)
  ultimately show ?thesis using f by blast
qed

lemma served_bytes_have_digest_witness:
  "\<exists>bytes n ctype db'. stream_artifact \<lparr>fs_hash = marked_digest, fs_limit = 0, fs_quota = 0\<rparr> 1 [] 9 one_file
      = (Inr (bytes, n, ctype), db') \<and>
    (\<exists>f. file_of 1 db' = Some f \<and> af_blob f = Some (hexdigest (marked_digest ''sha256'' bytes)))"
proof -
  let ?s = "\<lparr>fs_hash = marked_digest, fs_limit = 0, fs_quota = 0\<rparr>"
  obtain g where g: "ar_files one_file = [g]" "af_id g = 1" "af_blob g = Some (hexdigest (marked_digest ''sha256'' ''tarball''))"
    using one_file_row by blast
  have "store_ok marked_digest one_file" by (rule store_run_ok [OF one_file_run])
  then have "hexdigest (marked_digest ''sha256'' ''tarball'') \<in> shas one_file" "kept_on_disk marked_digest one_file"
    using pointer_has_row [of one_file g] g by (auto simp: store_ok_def)
  then have "cached one_file g"
    using g(3) sized_hexdigest [OF one_file_run(2)] by (auto simp: cached_def given_def kept_on_disk_alt)
  then have "ensure_cached ?s True 1 [] one_file = (Inr (), one_file)" "file_of 1 one_file = Some g"
    using g by (simp_all add: ensure_cached_def file_of_def)
  then obtain bytes n ctype db' where r: "stream_artifact ?s 1 [] 9 one_file = (Inr (bytes, n, ctype), db')"
    by (auto simp: stream_artifact_def Let_def)
  from served_bytes_have_digest [OF one_file_run _ _ r] r show ?thesis by simp
qed

text \<open>Without an upstream row, too, every URL is checked before it is requested, and there are at most six.\<close>

lemma anonymous_hops_checked:
  "anonymous_hops fetchable send join n url = (out, urls) \<Longrightarrow> fetchable url \<Longrightarrow> list_all fetchable urls \<and> length urls \<le> n"
  by (induction n arbitrary: url out urls) (auto simp: Let_def split: prod.splits if_splits)

lemma open_anonymous_checked:
  "list_all fetchable (snd (open_anonymous fetchable send join url)) \<and> length (snd (open_anonymous fetchable send join url)) \<le> 6"
  using anonymous_hops_checked [of fetchable send join 6 url "fst (anonymous_hops fetchable send join 6 url)"
      "snd (anonymous_hops fetchable send join 6 url)"]
  by (auto simp: open_anonymous_def ARTIFACT_REDIRECTS_def numeral_eq_Suc)

subsection \<open>What can go wrong\<close>

text \<open>
  The rows of an eviction are committed before the files are deleted. A publish of the same bytes in
  between finds the file, adds a row for it, and the file is then deleted: the published file is lost.
\<close>

lemma published_row:
  "\<exists>g \<in> set (ar_files (publish_file hash now f data db)). af_url g = None \<and> af_blob g = Some (hexdigest (hash ''sha256'' data))"
  by (auto simp: publish_file_def store_bytes_def digests_stored_def Let_def split: option.splits)

definition before_race :: artifact_db where
  "before_race = \<lparr>ar_blobs = [plain_blob (hexdigest ''a'') 0], ar_files = [plain_file 1 (hexdigest ''a'') (Some ''u'')],
     ar_sources = [], ar_disk = [(hexdigest ''a'', ''a'', 0)], ar_staging = []\<rparr>"

lemma eviction_race:
  "case evict_rows 1 0 1000 (evict_candidates 1000 None before_race) (0, [], before_race) of (freed, victims, committed) \<Rightarrow>
     list_ex (\<lambda>f. af_url f = None \<and> (case af_blob f of None \<Rightarrow> False
         | Some sha \<Rightarrow> \<not> store_exists sha (fold unlink_blob victims
             (publish_file own_digest 1000 (plain_file 2 [] None) ''a'' committed))))
       (ar_files (publish_file own_digest 1000 (plain_file 2 [] None) ''a'' committed))"
proof -
  let ?sha = "hexdigest ''a''"
  have "evict_candidates 1000 None before_race = [plain_blob ?sha 0]"
    by (simp add: evict_candidates_def before_race_def evictable_def has_local_reference_def source_disabled_def past_def
        plain_blob_def plain_file_def del: hexdigest_simps)
  then have e: "evict_rows 1 0 1000 (evict_candidates 1000 None before_race) (0, [], before_race) =
      (1, [?sha], forget_blob ?sha before_race)"
    by (simp add: before_race_def evictable_def has_local_reference_def source_disabled_def
        plain_blob_def plain_file_def del: hexdigest_simps)
  show ?thesis
    using published_row [of own_digest 1000 "plain_file 2 [] None" "''a''" "forget_blob ?sha before_race"]
    unfolding e by (auto simp: list_ex_iff store_exists_def on_disk_delete own_digest_def simp del: hexdigest_simps)
qed

text \<open>Purging "only the cached bytes" of a package also takes what was published here.\<close>

lemma find_the_row: "distinct (map af_id fs) \<Longrightarrow> g \<in> set fs \<Longrightarrow> find (\<lambda>x. af_id x = af_id g) fs = Some g"
  by (induction fs) (auto simp: image_iff)

lemma purge_only_loses_published:
  assumes "store_ok hash db" "purge_package pid True db = (n, db')" "f \<in> set (ar_files db)" "af_package f = pid" "af_url f = None"
  shows "ensure_cached s verify (af_id f) attempts db' = (Inl NoUpstreamUrl, db')"
proof -
  obtain m where rows: "purge_rows (map af_id (filter (\<lambda>f. af_package f = pid) (ar_files db))) db = (m, db')"
    using assms(2) by (auto simp: purge_package_def split: prod.splits)
  have d: "distinct (map af_id (ar_files db))" using assms(1) by (simp add: store_ok_def books_def)
  define g where "g = purged_row (set (map af_id (filter (\<lambda>f. af_package f = pid) (ar_files db)))) f"
  have "g \<in> set (ar_files db')" "map af_id (ar_files db') = map af_id (ar_files db)"
    using assms(3) by (auto simp: g_def purge_rows_files [OF d rows])
  then have "find (\<lambda>x. af_id x = af_id f) (ar_files db') = Some g"
    using d find_the_row [of "ar_files db'" g] by (simp add: g_def)
  then have "file_of (af_id f) db' = Some g" by (simp add: file_of_def)
  moreover have "af_blob g = None \<or> \<not> given (af_blob g)" "af_url g = None"
    using assms(3-5) by (auto simp: g_def purged_row_def)
  ultimately show ?thesis by (auto simp: ensure_cached_def cached_def given_def)
qed

end
