(* ===== verification/Artifact_Stream.thy ===== *)
theory Artifact_Stream
  imports Artifact_Fill
begin

section \<open>Streaming a download while it runs (\<open>services/artifacts.py\<close>)\<close>

text \<open>
  A download that takes long is read by its clients while it is being written, by \<open>_tail\<close> in the same
  process and by \<open>_tail_peer\<close> in another replica. The reader holds the last chunk back until the
  download has been verified. Requests for one file share one download.
\<close>

subsection \<open>The reader\<close>

text \<open>
  What a reader sees of a download: the bytes flushed to the partial file, the count it was told, and
  whether the download is over (for another replica, whether its marker is there) and failed.
\<close>

record fill_view =
  fv_file :: string
  fv_written :: nat
  fv_done :: bool
  fv_failed :: bool

datatype reader_phase = Reading | Deciding | Draining | Complete | Cut

record reader =
  rd_sent :: nat
  rd_held :: string
  rd_yielded :: string
  rd_phase :: reader_phase

definition new_reader :: reader where
  "new_reader = \<lparr>rd_sent = 0, rd_held = [], rd_yielded = [], rd_phase = Reading\<rparr>"

definition pass_on :: "string \<Rightarrow> reader \<Rightarrow> reader" where
  \<comment> \<open>the chunk held so far goes out, the new one is held\<close>
  "pass_on chunk r = r\<lparr>rd_sent := rd_sent r + length chunk, rd_yielded := rd_yielded r @ rd_held r, rd_held := chunk\<rparr>"

definition next_chunk :: "nat \<Rightarrow> fill_view \<Rightarrow> reader \<Rightarrow> string" where
  "next_chunk k v r = take k (drop (rd_sent r) (fv_file v))"

definition reader_step :: "bool \<Rightarrow> nat \<Rightarrow> nat \<Rightarrow> fill_view \<Rightarrow> reader \<Rightarrow> reader" where
  \<comment> \<open>whether it reads a peer's file, the length promised, the bytes this read returns at most\<close>
  "reader_step peer promised k v r = (let chunk = next_chunk k v r in
     (case rd_phase r of
       Reading \<Rightarrow> if chunk = [] then r\<lparr>rd_phase := Deciding\<rparr>
         else if promised < rd_sent r + length chunk then r\<lparr>rd_phase := Cut\<rparr>
         else pass_on chunk r
     | Deciding \<Rightarrow> if \<not> fv_done v then (if \<not> peer \<and> fv_written v \<le> rd_sent r then r else r\<lparr>rd_phase := Reading\<rparr>)
         else if peer \<and> fv_failed v then r\<lparr>rd_phase := Cut\<rparr>
         else r\<lparr>rd_phase := Draining\<rparr>
     | Draining \<Rightarrow> if chunk \<noteq> [] then pass_on chunk r
         else if fv_failed v then r\<lparr>rd_phase := Cut\<rparr>
         else if rd_sent r \<noteq> promised then r\<lparr>rd_phase := Cut\<rparr>
         else r\<lparr>rd_yielded := rd_yielded r @ rd_held r, rd_held := [], rd_phase := Complete\<rparr>
     | Complete \<Rightarrow> r
     | Cut \<Rightarrow> r))"

definition tail_step :: "nat \<Rightarrow> nat \<Rightarrow> fill_view \<Rightarrow> reader \<Rightarrow> reader" where
  \<comment> \<open>\<open>_tail\<close>: the download is of this process, its error is looked at after draining\<close>
  "tail_step = reader_step False"

definition tail_peer_step :: "nat \<Rightarrow> nat \<Rightarrow> fill_view \<Rightarrow> reader \<Rightarrow> reader" where
  \<comment> \<open>\<open>_tail_peer\<close>: the marker of another replica is looked at before draining\<close>
  "tail_peer_step = reader_step True"

definition from_blob :: "string option \<Rightarrow> nat \<Rightarrow> artifact_db \<Rightarrow> string option" where
  \<comment> \<open>\<open>_from_blob\<close>: the whole blob, when it has the size promised\<close>
  "from_blob sha promised db = (case sha of None \<Rightarrow> None
     | Some s \<Rightarrow> if s = [] \<or> size_of s db \<noteq> Some promised then None else map_option fst (on_disk s db))"

subsection \<open>Sharing one download\<close>

text \<open>
  The requests of one process for one file, between their awaits: \<open>_opening\<close> and \<open>_fills\<close> at its key.
  A download is the number of its opening.
\<close>

datatype request_pc = At_head | Awaiting nat | Opening nat | Joined nat | Told_peer | Told_cached | Refused_fill

datatype open_outcome = Got_fill | Got_peer | Got_cached | Got_error

record sharing =
  sh_pc :: "nat \<Rightarrow> request_pc"
  sh_opening :: "nat option"
  sh_fill :: "nat option"
  sh_next :: nat

definition goto_pc :: "nat \<Rightarrow> request_pc \<Rightarrow> sharing \<Rightarrow> sharing" where
  "goto_pc t p s = s\<lparr>sh_pc := (sh_pc s)(t := p)\<rparr>"

definition at_head :: "nat \<Rightarrow> sharing \<Rightarrow> sharing" where
  \<comment> \<open>one round of the loop of \<open>_start_or_join\<close>\<close>
  "at_head t s = (case sh_fill s of
       Some f \<Rightarrow> goto_pc t (Joined f) s
     | None \<Rightarrow> (case sh_opening s of
         Some n \<Rightarrow> goto_pc t (Awaiting n) s
       | None \<Rightarrow> (goto_pc t (Opening (sh_next s)) s)\<lparr>sh_opening := Some (sh_next s), sh_next := sh_next s + 1\<rparr>))"

fun told :: "nat \<Rightarrow> open_outcome \<Rightarrow> request_pc" where
  "told n Got_fill = Joined n"
| "told n Got_peer = Told_peer"
| "told n Got_cached = Told_cached"
| "told n Got_error = Refused_fill"

definition open_ends :: "nat \<Rightarrow> nat \<Rightarrow> open_outcome \<Rightarrow> sharing \<Rightarrow> sharing" where
  \<comment> \<open>the opener returns; those who wait get its outcome, or try again when it failed\<close>
  "open_ends t n out s = s\<lparr>sh_opening := None, sh_fill := (if out = Got_fill then Some n else sh_fill s),
     sh_pc := (\<lambda>u. if u = t then told n out
       else if sh_pc s u = Awaiting n then (if out = Got_error then At_head else told n out) else sh_pc s u)\<rparr>"

inductive sharing_step :: "sharing \<Rightarrow> sharing \<Rightarrow> bool" where
  arrives: "sh_pc s t = At_head \<Longrightarrow> sharing_step s (at_head t s)"
| opened: "sh_pc s t = Opening n \<Longrightarrow> sharing_step s (open_ends t n out s)"
| fill_over: "sharing_step s (s\<lparr>sh_fill := None\<rparr>)"

inductive sharing_run :: "sharing \<Rightarrow> bool" where
  sharing_start: "sharing_run \<lparr>sh_pc = (\<lambda>_. At_head), sh_opening = None, sh_fill = None, sh_next = 0\<rparr>"
| sharing_next: "sharing_run s \<Longrightarrow> sharing_step s s' \<Longrightarrow> sharing_run s'"

end
