(* ===== verification/Artifact_Stream_Spec.thy ===== *)
theory Artifact_Stream_Spec
  imports Artifact_Stream
begin

section \<open>A client is not handed an unverified body\<close>

text \<open>
  In every interleaving of the download, that writes, is told to have ended and may fail, with a
  reader that reads pieces of any length.
\<close>

inductive stream_run :: "bool \<Rightarrow> nat \<Rightarrow> fill_view \<Rightarrow> reader \<Rightarrow> bool" for peer :: bool and promised :: nat where
  started: "stream_run peer promised \<lparr>fv_file = [], fv_written = 0, fv_done = False, fv_failed = False\<rparr> new_reader"
| flushed: "stream_run peer promised v r \<Longrightarrow> \<not> fv_done v \<Longrightarrow> stream_run peer promised (v\<lparr>fv_file := fv_file v @ c\<rparr>) r"
| advanced: "stream_run peer promised v r \<Longrightarrow> \<not> fv_done v \<Longrightarrow>
    stream_run peer promised (v\<lparr>fv_written := length (fv_file v)\<rparr>) r"
| ended: "stream_run peer promised v r \<Longrightarrow> \<not> fv_done v \<Longrightarrow>
    stream_run peer promised (v\<lparr>fv_done := True, fv_failed := b\<rparr>) r"
| reads: "stream_run peer promised v r \<Longrightarrow> 0 < k \<Longrightarrow>
    stream_run peer promised v ((if peer then tail_peer_step else tail_step) promised k v r)"
| stalled: "stream_run peer promised v r \<Longrightarrow> rd_phase r \<noteq> Complete \<Longrightarrow> stream_run peer promised v (r\<lparr>rd_phase := Cut\<rparr>)"

text \<open>
  What has gone out is the file without the chunk held back; a reader that drains a peer's file
  knows that it was verified.
\<close>

definition reader_ok :: "bool \<Rightarrow> nat \<Rightarrow> fill_view \<Rightarrow> reader \<Rightarrow> bool" where
  "reader_ok peer promised v r = (rd_yielded r @ rd_held r = take (rd_sent r) (fv_file v) \<and> rd_sent r \<le> length (fv_file v) \<and>
     (rd_phase r = Complete \<longrightarrow> rd_held r = [] \<and> fv_done v \<and> \<not> fv_failed v \<and> rd_sent r = promised \<and>
        length (fv_file v) = promised) \<and>
     (rd_phase r \<noteq> Complete \<longrightarrow> rd_sent r = 0 \<or> rd_held r \<noteq> []) \<and>
     (rd_phase r = Draining \<longrightarrow> fv_done v \<and> (peer \<longrightarrow> \<not> fv_failed v)) \<and>
     (promised < rd_sent r \<longrightarrow> rd_phase r = Draining \<or> rd_phase r = Cut \<and> fv_done v \<and> (peer \<longrightarrow> \<not> fv_failed v) \<or>
        rd_phase r = Cut \<and> length (rd_yielded r) < promised))"

lemma step_simps [simp]: "tail_peer_step = reader_step True" "tail_step = reader_step False"
  by (simp_all add: tail_peer_step_def tail_step_def)

lemma next_chunk_facts:
  "next_chunk k v r = [] \<Longrightarrow> 0 < k \<Longrightarrow> rd_sent r \<le> length (fv_file v) \<Longrightarrow> rd_sent r = length (fv_file v)"
  "rd_sent r + length (next_chunk k v r) \<le> length (fv_file v) \<or> length (fv_file v) < rd_sent r"
  "take (rd_sent r) (fv_file v) @ next_chunk k v r = take (rd_sent r + length (next_chunk k v r)) (fv_file v)"
proof -
  show "next_chunk k v r = [] \<Longrightarrow> 0 < k \<Longrightarrow> rd_sent r \<le> length (fv_file v) \<Longrightarrow> rd_sent r = length (fv_file v)"
    by (auto simp: next_chunk_def)
  show "rd_sent r + length (next_chunk k v r) \<le> length (fv_file v) \<or> length (fv_file v) < rd_sent r"
    by (auto simp: next_chunk_def)
  have "next_chunk k v r = take (length (next_chunk k v r)) (drop (rd_sent r) (fv_file v))"
    by (auto simp: next_chunk_def min_def)
  then show "take (rd_sent r) (fv_file v) @ next_chunk k v r = take (rd_sent r + length (next_chunk k v r)) (fv_file v)"
    by (simp add: take_add)
qed

lemma reads_ok:
  assumes ok: "reader_ok peer promised v r" and k: "0 < k"
  shows "reader_ok peer promised v (reader_step peer promised k v r)"
proof -
  have y: "rd_yielded r @ rd_held r = take (rd_sent r) (fv_file v)" "rd_sent r \<le> length (fv_file v)"
    using ok by (auto simp: reader_ok_def)
  note c = next_chunk_facts [where k = k and v = v and r = r]
  show ?thesis
  proof (cases "rd_phase r")
    case Reading
    then show ?thesis using ok k c y
      by (auto simp: reader_step_def Let_def reader_ok_def pass_on_def)
  next
    case Deciding
    then show ?thesis using ok by (auto simp: reader_step_def Let_def reader_ok_def)
  next
    case Draining
    then show ?thesis using ok k c y
      by (auto simp: reader_step_def Let_def reader_ok_def pass_on_def)
  qed (use ok in \<open>simp_all add: reader_step_def\<close>)
qed

lemma stream_run_ok: "stream_run peer promised v r \<Longrightarrow> reader_ok peer promised v r"
proof (induction rule: stream_run.induct)
  case (reads v r k)
  then show ?case using reads_ok by (cases peer) auto
qed (auto simp: reader_ok_def new_reader_def)

text \<open>
  C24: A client that streams a download gets the whole promised body only when the download was
  verified, or when the upstream sent more than it had declared; a client of another replica gets it
  only when the download was verified. What it gets is a prefix of the file, and the stream ends
  normally only with the verified file.
\<close>

theorem streamed_only_verified:
  assumes "stream_run peer promised v r" "0 < promised"
  shows "(promised \<le> length (rd_yielded r) \<longrightarrow>
      fv_done v \<and> (\<not> fv_failed v \<or> \<not> peer \<and> promised < length (fv_file v))) \<and>
    (\<exists>rest. fv_file v = rd_yielded r @ rest) \<and>
    (rd_phase r = Complete \<longrightarrow> rd_yielded r = fv_file v \<and> length (rd_yielded r) = promised \<and> \<not> fv_failed v)"
proof -
  have ok: "reader_ok peer promised v r" by (rule stream_run_ok [OF assms(1)])
  have len: "length (rd_yielded r) + length (rd_held r) = rd_sent r"
    using ok by (metis length_append length_take min.absorb2 reader_ok_def)
  have "fv_file v = rd_yielded r @ rd_held r @ drop (rd_sent r) (fv_file v)"
    using ok by (metis append.assoc append_take_drop_id reader_ok_def)
  moreover have "fv_done v \<and> (\<not> fv_failed v \<or> \<not> peer \<and> promised < length (fv_file v))" if y: "promised \<le> length (rd_yielded r)"
  proof (cases "rd_phase r = Complete")
    case True
    with ok show ?thesis by (simp add: reader_ok_def)
  next
    case False
    then have "rd_held r \<noteq> []" using ok y len assms(2) by (auto simp: reader_ok_def)
    then have "promised < rd_sent r" using y len by (cases "rd_held r") auto
    then show ?thesis using ok y by (auto simp: reader_ok_def)
  qed
  moreover have "rd_phase r = Complete \<longrightarrow> rd_yielded r = fv_file v \<and> length (rd_yielded r) = promised \<and> \<not> fv_failed v"
    using ok by (auto simp: reader_ok_def)
  ultimately show ?thesis by blast
qed

text \<open>
  The exception is real: nothing compares what is drained with the length promised before it goes
  out, and the failure of the download is looked at only afterwards.
\<close>

definition steps :: "bool \<Rightarrow> nat \<Rightarrow> fill_view \<Rightarrow> nat list \<Rightarrow> reader \<Rightarrow> reader" where
  "steps peer promised v ks r = fold (\<lambda>k. reader_step peer promised k v) ks r"

lemma steps_run: "stream_run peer promised v r \<Longrightarrow> list_all (\<lambda>k. 0 < k) ks \<Longrightarrow> stream_run peer promised v (steps peer promised v ks r)"
proof (induction ks arbitrary: r)
  case (Cons k ks)
  have "0 < k" using Cons.prems(2) by simp
  from stream_run.reads [OF Cons.prems(1) this] have "stream_run peer promised v (reader_step peer promised k v r)"
    by (simp split: if_splits)
  from Cons.IH [OF this] Cons.prems(2) show ?case by (simp add: steps_def)
qed (simp add: steps_def)

lemma unverified_body_handed_out:
  "\<exists>v r. stream_run False 2 v r \<and> fv_failed v \<and> rd_yielded r = ''ab''"
proof -
  let ?v0 = "\<lparr>fv_file = [], fv_written = 0, fv_done = False, fv_failed = False\<rparr>"
  let ?v1 = "\<lparr>fv_file = ''ab'', fv_written = 0, fv_done = False, fv_failed = False\<rparr>"
  let ?v3 = "\<lparr>fv_file = ''abc'', fv_written = 0, fv_done = True, fv_failed = True\<rparr>"
  have "stream_run False 2 ?v1 new_reader"
    using stream_run.flushed [OF stream_run.started [of False 2], of "''ab''"] by simp
  from steps_run [OF this, of "[2, 2]"]
  have "stream_run False 2 ?v1 \<lparr>rd_sent = 2, rd_held = ''ab'', rd_yielded = [], rd_phase = Deciding\<rparr>"
    by (simp add: steps_def reader_step_def new_reader_def next_chunk_def pass_on_def numeral_2_eq_2 numeral_3_eq_3)
  from stream_run.ended [OF stream_run.flushed [OF this, of "''c''"], of True]
  have "stream_run False 2 ?v3 \<lparr>rd_sent = 2, rd_held = ''ab'', rd_yielded = [], rd_phase = Deciding\<rparr>" by simp
  from steps_run [OF this, of "[2, 2]"]
  have "stream_run False 2 ?v3 \<lparr>rd_sent = 3, rd_held = ''c'', rd_yielded = ''ab'', rd_phase = Draining\<rparr>"
    by (simp add: steps_def reader_step_def next_chunk_def pass_on_def numeral_2_eq_2 numeral_3_eq_3)
  then show ?thesis by (intro exI conjI) auto
qed

lemma streamed_only_verified_witness:
  "\<exists>v r. stream_run True 2 v r \<and> rd_yielded r = ''ab'' \<and> \<not> fv_failed v"
proof -
  let ?v1 = "\<lparr>fv_file = ''ab'', fv_written = 0, fv_done = False, fv_failed = False\<rparr>"
  let ?v3 = "\<lparr>fv_file = ''ab'', fv_written = 0, fv_done = True, fv_failed = False\<rparr>"
  have "stream_run True 2 ?v1 new_reader"
    using stream_run.flushed [OF stream_run.started [of True 2], of "''ab''"] by simp
  from stream_run.ended [OF this, of False] have "stream_run True 2 ?v3 new_reader" by simp
  from steps_run [OF this, of "[1, 1, 1, 1, 1]"]
  have run: "stream_run True 2 ?v3 \<lparr>rd_sent = 2, rd_held = [], rd_yielded = ''ab'', rd_phase = Complete\<rparr>"
    by (simp add: steps_def reader_step_def new_reader_def next_chunk_def pass_on_def numeral_2_eq_2 numeral_3_eq_3)
  from streamed_only_verified [OF run] run show ?thesis by fastforce
qed

subsection \<open>A reader comes to an end\<close>

definition reader_rank :: "fill_view \<Rightarrow> reader \<Rightarrow> nat" where
  "reader_rank v r = 2 * (length (fv_file v) - rd_sent r) +
     (case rd_phase r of Reading \<Rightarrow> 3 | Deciding \<Rightarrow> 2 | Draining \<Rightarrow> 1 | _ \<Rightarrow> 0)"

lemma reader_rank_decreases:
  assumes "reader_ok peer promised v r" "fv_done v" "0 < k" "rd_phase r \<notin> {Complete, Cut}"
  shows "reader_rank v (reader_step peer promised k v r) < reader_rank v r"
  using assms next_chunk_facts(1,2) [where k = k and v = v and r = r]
  by (cases "rd_phase r"; cases "next_chunk k v r")
    (auto simp: reader_step_def Let_def reader_rank_def pass_on_def reader_ok_def)

subsection \<open>One download for all requests\<close>

definition sharing_ok :: "sharing \<Rightarrow> bool" where
  "sharing_ok s = ((\<forall>t n. sh_pc s t = Opening n \<longrightarrow> sh_opening s = Some n \<and> sh_fill s = None) \<and>
     (\<forall>t u n m. sh_pc s t = Opening n \<longrightarrow> sh_pc s u = Opening m \<longrightarrow> t = u) \<and>
     (\<forall>n. sh_opening s = Some n \<longrightarrow> (\<exists>t. sh_pc s t = Opening n)))"

lemma told_not_opening [simp]: "told n out \<noteq> Opening m"
  by (cases out) auto

lemma sharing_ok_goto:
  assumes "sharing_ok s" "\<And>n. sh_pc s t \<noteq> Opening n" "\<And>n. p \<noteq> Opening n"
  shows "sharing_ok (goto_pc t p s)"
proof -
  have "sh_pc (goto_pc t p s) u = Opening n \<longleftrightarrow> sh_pc s u = Opening n" for u n
    using assms(2,3) by (auto simp: goto_pc_def)
  moreover have "sh_opening (goto_pc t p s) = sh_opening s" "sh_fill (goto_pc t p s) = sh_fill s"
    by (simp_all add: goto_pc_def)
  ultimately show ?thesis using assms(1) by (simp add: sharing_ok_def)
qed

lemma sharing_step_ok: "sharing_step s s' \<Longrightarrow> sharing_ok s \<Longrightarrow> sharing_ok s'"
proof (induction rule: sharing_step.induct)
  case (arrives s t)
  show ?case
  proof (cases "sh_fill s")
    case None
    show ?thesis
    proof (cases "sh_opening s")
      case None
      then have "sh_pc s u \<noteq> Opening n" for u n using arrives.prems by (auto simp: sharing_ok_def)
      with None \<open>sh_fill s = None\<close> show ?thesis
        by (auto simp: sharing_ok_def at_head_def goto_pc_def)
    next
      case (Some n)
      with None arrives sharing_ok_goto [of s t "Awaiting n"] show ?thesis by (simp add: at_head_def)
    qed
  next
    case (Some f)
    with arrives sharing_ok_goto [of s t "Joined f"] show ?thesis by (simp add: at_head_def)
  qed
next
  case (opened s t n out)
  then have "sh_pc s u = Opening m \<Longrightarrow> u = t" for u m by (auto simp: sharing_ok_def)
  then have "sh_pc (open_ends t n out s) u \<noteq> Opening m" for u m by (auto simp: open_ends_def)
  then show ?case by (auto simp: sharing_ok_def) (simp_all add: open_ends_def)
next
  case (fill_over s)
  then show ?case by (auto simp: sharing_ok_def)
qed

text \<open>
  Requests share one download. However the requests of a process for one file arrive and wait, at
  most one of them is opening the upstream, and none is while a download is running.
\<close>

theorem one_download_per_file:
  assumes "sharing_run s" "sh_pc s t = Opening n"
  shows "sh_fill s = None \<and> (\<forall>u m. sh_pc s u = Opening m \<longrightarrow> u = t \<and> m = n)"
proof -
  have "sharing_ok s" using assms(1)
    by (induction rule: sharing_run.induct) (auto simp: sharing_ok_def [of "sharing_ext _ _ _ _ _"] dest: sharing_step_ok)
  with assms(2) show ?thesis unfolding sharing_ok_def by (metis option.inject)
qed

lemma one_download_per_file_witness:
  "\<exists>s. sharing_run s \<and> sh_pc s 3 = Opening 0 \<and> (\<forall>u m. sh_pc s u = Opening m \<longrightarrow> u = 3 \<and> m = 0)"
proof -
  let ?s = "\<lparr>sh_pc = (\<lambda>_. At_head), sh_opening = None, sh_fill = None, sh_next = 0\<rparr>"
  have run: "sharing_run (at_head 3 ?s)"
    by (rule sharing_next [OF sharing_start sharing_step.arrives]) simp
  have "sh_pc (at_head 3 ?s) 3 = Opening 0" by (simp add: at_head_def goto_pc_def)
  with one_download_per_file [OF run this] run show ?thesis by blast
qed

end
