(* ===== verification/Package_Store.thy ===== *)
theory Package_Store
  imports Naming Py_Json Revalidation
begin

section \<open>Packages held from upstreams (\<open>services/packages.py\<close>)\<close>

text \<open>
  What is kept of the packages upstreams serve: the rows of packages, versions, files and tags, how
  an upstream's document is written into them, what is pruned when its source may no longer serve it,
  and when an upstream is asked at all. A document is the neutral form the upstream clients deliver,
  with every field that is stored. Times are seconds. \<open>'v packaging\<close> is the version parser of PyPI and
  \<open>show_float\<close> Python's \<open>str\<close> of a float.
\<close>

subsection \<open>Fields of a document\<close>

definition is_control :: "char \<Rightarrow> bool" where
  "is_control c = (let n = (of_char c :: nat) in n \<le> 8 \<or> 11 \<le> n \<and> n \<le> 31 \<or> 127 \<le> n \<and> n \<le> 159)"

definition clean_field :: "nat option \<Rightarrow> string \<Rightarrow> string option" where
  "clean_field limit text = (let
     t = py_strip (filter (\<lambda>c. \<not> is_control c) (py_replace [char_of (13 :: nat), char_of (10 :: nat)] [char_of (10 :: nat)] text))
     in if t = [] then None else Some (case limit of None \<Rightarrow> t | Some n \<Rightarrow> if n = 0 then t else take n t))"

definition first_truthy :: "json list \<Rightarrow> json" where
  "first_truthy vs = (case find jtruthy vs of None \<Rightarrow> JStr [] | Some v \<Rightarrow> v)"

fun coerce_text :: "(rat \<Rightarrow> string) \<Rightarrow> nat option \<Rightarrow> json \<Rightarrow> string option" where
  "coerce_text show_float limit JNull = None"
| "coerce_text show_float limit (JStr s) = clean_field limit s"
| "coerce_text show_float limit (JObj kvs) = clean_field limit
     (case as_str (first_truthy (map (jget (JObj kvs)) [''type'', ''name'', ''license''])) of None \<Rightarrow> [] | Some s \<Rightarrow> s)"
| "coerce_text show_float limit (JList vs) =
     clean_field limit (py_join '', '' (List.map_filter id (map (coerce_text show_float None) vs)))"
| "coerce_text show_float limit (JInt i) = clean_field limit (show_int i)"
| "coerce_text show_float limit (JBool b) = clean_field limit (if b then ''True'' else ''False'')"
| "coerce_text show_float limit (JFloat r) = clean_field limit (show_float r)"

definition coerce_http_url :: "(rat \<Rightarrow> string) \<Rightarrow> nat option \<Rightarrow> json \<Rightarrow> string option" where
  "coerce_http_url show_float limit value = (case coerce_text show_float limit value of
       None \<Rightarrow> None
     | Some t \<Rightarrow> if starts_with (py_lower t) ''http://'' \<or> starts_with (py_lower t) ''https://'' then Some t else None)"

definition coerce_keywords :: "(rat \<Rightarrow> string) \<Rightarrow> json \<Rightarrow> string list" where
  "coerce_keywords show_float value = (case value of
       JStr s \<Rightarrow> split_ws (py_replace '','' '' '' s)
     | JList vs \<Rightarrow> List.map_filter (coerce_text show_float None) vs
     | _ \<Rightarrow> [])"

datatype yank_mark = Yank_flag bool | Yank_reason string

record offered_file =
  of_name :: string
  of_url :: string
  of_hashes :: "(string \<times> string) list"
  of_size :: "nat option"
  of_requires :: "string option"
  of_yanked :: yank_mark
  of_core :: json
  of_uploaded :: "int option"
  of_type :: "string option"
  of_python :: "string option"
  of_content :: string
  of_source :: "int option"

record offered_version =
  ov_version :: string
  ov_meta :: "(string \<times> json) list"
  ov_files :: "offered_file list"
  ov_deprecated :: "string option"
  ov_yanked :: yank_mark
  ov_requires :: "string option"
  ov_published :: "int option"

record offered_package =
  op_name :: string
  op_versions :: "offered_version list"
  op_tags :: "(string \<times> string) list"
  op_description :: json
  op_author :: json
  op_homepage :: json
  op_license :: json
  op_keywords :: json
  op_raw :: "(string \<times> json) list"

subsection \<open>Rows\<close>

record held_file =
  hf_name :: string
  hf_blob :: "string option"
  hf_url :: "string option"
  hf_source :: "int option"
  hf_size :: "nat option"
  hf_requires :: "string option"
  hf_type :: "string option"
  hf_python :: "string option"
  hf_content :: string
  hf_uploaded :: "int option"
  hf_core :: json
  hf_yanked :: bool
  hf_reason :: "string option"
  hf_sha256 :: "string option"
  hf_sha1 :: "string option"
  hf_md5 :: "string option"
  hf_blake2b :: "string option"
  hf_integrity :: "string option"

record held_version =
  hv_version :: string
  hv_norm :: string
  hv_local :: bool
  hv_source :: "int option"
  hv_requires :: "string option"
  hv_deprecated :: "string option"
  hv_yanked :: bool
  hv_reason :: "string option"
  hv_published :: "int option"
  hv_meta :: "(string \<times> json) list"
  hv_files :: "held_file list"

record held_package =
  hp_eco :: string
  hp_norm :: string
  hp_name :: string
  hp_local :: bool
  hp_origin :: "int option"
  hp_description :: "string option"
  hp_author :: "string option"
  hp_homepage :: "string option"
  hp_license :: "string option"
  hp_keywords :: "string list"
  hp_document :: "(string \<times> json) list"
  hp_etag :: "string option"
  hp_cached :: "int option"
  hp_latest :: "string option"
  hp_versions :: "held_version list"
  hp_tags :: "(string \<times> string) list"

definition set_to :: "('r \<Rightarrow> 'a) \<Rightarrow> (('a \<Rightarrow> 'a) \<Rightarrow> 'r \<Rightarrow> 'r) \<Rightarrow> 'a \<Rightarrow> 'r \<times> bool \<Rightarrow> 'r \<times> bool" where
  \<comment> \<open>\<open>changed |= _set(row, column, value)\<close>\<close>
  "set_to get upd v = (\<lambda>(row, changed). if get row = v then (row, changed) else (upd (\<lambda>_. v) row, True))"

definition or_old :: "'a option \<Rightarrow> 'a option \<Rightarrow> 'a option" where
  "or_old new old = (case new of None \<Rightarrow> old | Some v \<Rightarrow> Some v)"

definition text_or :: "string option \<Rightarrow> string option \<Rightarrow> string option" where
  \<comment> \<open>\<open>x or y\<close> of texts\<close>
  "text_or new old = (if new = None \<or> new = Some [] then old else new)"

definition real_source :: "int option \<Rightarrow> bool" where
  "real_source s = (s \<noteq> None \<and> s \<noteq> Some 0)"

definition source_or :: "int option \<Rightarrow> int option \<Rightarrow> int option" where
  "source_or a b = (if real_source a then a else b)"

definition size_or :: "nat option \<Rightarrow> nat option \<Rightarrow> nat option" where
  "size_or new old = (if new = None \<or> new = Some 0 then old else new)"

subsection \<open>One file\<close>

definition new_file :: "string \<Rightarrow> held_file" where
  "new_file name = \<lparr>hf_name = name, hf_blob = None, hf_url = None, hf_source = None, hf_size = None, hf_requires = None,
     hf_type = None, hf_python = None, hf_content = ''application/octet-stream'', hf_uploaded = None, hf_core = JNull,
     hf_yanked = False, hf_reason = None, hf_sha256 = None, hf_sha1 = None, hf_md5 = None, hf_blake2b = None,
     hf_integrity = None\<rparr>"

definition set_hash :: "string \<times> string \<Rightarrow> held_file \<times> bool \<Rightarrow> held_file \<times> bool" where
  "set_hash = (\<lambda>(algorithm, digest).
     if algorithm = ''sha256'' then set_to hf_sha256 hf_sha256_update (Some digest)
     else if algorithm = ''sha1'' then set_to hf_sha1 hf_sha1_update (Some digest)
     else if algorithm = ''md5'' then set_to hf_md5 hf_md5_update (Some digest)
     else if algorithm = ''blake2b_256'' \<or> algorithm = ''blake2b'' then set_to hf_blake2b hf_blake2b_update (Some digest)
     else if algorithm = ''integrity'' then set_to hf_integrity hf_integrity_update (Some digest)
     else id)"

definition apply_file :: "offered_file \<Rightarrow> int option \<Rightarrow> held_file \<Rightarrow> held_file \<times> bool" where
  "apply_file r upstream f = (let src = source_or (of_source r) upstream in
     if hf_blob f \<noteq> None \<and> hf_blob f \<noteq> Some [] then
       (let st = set_to hf_url hf_url_update (text_or (Some (of_url r)) (hf_url f)) (f, False)
        in if src = None then st else set_to hf_source hf_source_update src st)
     else (let
       st = (f, False);
       st = set_to hf_url hf_url_update (Some (of_url r)) st;
       st = set_to hf_source hf_source_update src st;
       st = set_to hf_size hf_size_update (size_or (of_size r) (hf_size f)) st;
       st = set_to hf_requires hf_requires_update (of_requires r) st;
       st = set_to hf_type hf_type_update (of_type r) st;
       st = set_to hf_python hf_python_update (of_python r) st;
       st = set_to hf_content hf_content_update (of_content r) st;
       st = set_to hf_uploaded hf_uploaded_update (or_old (of_uploaded r) (hf_uploaded f)) st;
       st = (if is_obj (of_core r) then set_to hf_core hf_core_update (of_core r) st
         else if jtruthy (of_core r) then set_to hf_core hf_core_update (JObj [(''available'', JBool True)]) st else st);
       st = (case of_yanked r of
           Yank_reason reason \<Rightarrow> set_to hf_reason hf_reason_update (Some reason) (set_to hf_yanked hf_yanked_update True st)
         | Yank_flag b \<Rightarrow> set_to hf_yanked hf_yanked_update b st)
       in fold set_hash (of_hashes r) st))"

fun put_held_file :: "offered_file \<Rightarrow> int option \<Rightarrow> held_file list \<times> bool \<Rightarrow> held_file list \<times> bool" where
  "put_held_file r upstream (fs, changed) = (case find (\<lambda>f. hf_name f = of_name r) fs of
       None \<Rightarrow> (fs @ [fst (apply_file r upstream (new_file (of_name r)))], True)
     | Some f \<Rightarrow> (map (\<lambda>x. if hf_name x = of_name r then fst (apply_file r upstream f) else x) fs,
         changed \<or> snd (apply_file r upstream f)))"

subsection \<open>One version\<close>

definition normalized_version :: "'v packaging \<Rightarrow> string \<Rightarrow> string \<Rightarrow> string" where
  "normalized_version pkging eco version = (if eco = ''pypi'' then normalize_pypi_version pkging version else version)"

definition version_source :: "int option \<Rightarrow> offered_version \<Rightarrow> int option" where
  "version_source upstream r = (case find (\<lambda>f. real_source (of_source f)) (ov_files r) of
     None \<Rightarrow> upstream | Some f \<Rightarrow> of_source f)"

definition new_version :: "string \<Rightarrow> int option \<Rightarrow> offered_version \<Rightarrow> held_version" where
  "new_version key src r = \<lparr>hv_version = ov_version r, hv_norm = key, hv_local = False, hv_source = src, hv_requires = None,
     hv_deprecated = None, hv_yanked = False, hv_reason = None, hv_published = None, hv_meta = ov_meta r, hv_files = []\<rparr>"

definition apply_version :: "int option \<Rightarrow> offered_version \<Rightarrow> bool \<Rightarrow> held_version \<Rightarrow> held_version" where
  "apply_version upstream r is_new v = (let
     src = version_source upstream r;
     st = (v, False);
     st = (if \<not> is_new \<and> src \<noteq> None then set_to hv_source hv_source_update src st else st);
     st = set_to hv_requires hv_requires_update (text_or (ov_requires r) (hv_requires v)) st;
     st = set_to hv_deprecated hv_deprecated_update (ov_deprecated r) st;
     st = (case ov_yanked r of
         Yank_reason reason \<Rightarrow> set_to hv_reason hv_reason_update (Some reason) (set_to hv_yanked hv_yanked_update True st)
       | Yank_flag b \<Rightarrow> set_to hv_yanked hv_yanked_update b st);
     st = set_to hv_published hv_published_update (or_old (ov_published r) (hv_published v)) st;
     (fs, changed) = fold (\<lambda>f. put_held_file f upstream) (ov_files r) (hv_files v, snd st);
     v' = (fst st)\<lparr>hv_files := fs\<rparr>
     in if \<not> is_new \<and> ov_meta r \<noteq> [] \<and> changed then v'\<lparr>hv_meta := ov_meta r\<rparr> else v')"

definition put_held_version :: "'v packaging \<Rightarrow> string \<Rightarrow> int option \<Rightarrow> offered_version \<Rightarrow> held_version list \<Rightarrow> held_version list" where
  "put_held_version pkging eco upstream r vs = (let key = normalized_version pkging eco (ov_version r) in
     (case find (\<lambda>v. hv_norm v = key) vs of
       None \<Rightarrow> vs @ [apply_version upstream r True (new_version key (version_source upstream r) r)]
     | Some v \<Rightarrow> if hv_local v then vs
         else map (\<lambda>x. if hv_norm x = key then apply_version upstream r False v else x) vs))"

subsection \<open>The package\<close>

definition derive_latest :: "('v :: linorder) packaging \<Rightarrow> string \<Rightarrow> held_version list \<Rightarrow> string option" where
  "derive_latest pkging eco vs = (let
     names = map hv_version (filter (\<lambda>v. \<not> hv_yanked v) vs);
     names = (if names = [] then map hv_version vs else names)
     in if names = [] then None
        else if eco = ''pypi'' then (let ordered = sort_pypi_versions pkging names in
          if ordered = [] then None else Some (List.last ordered))
        else max_semver names)"

definition put_remote_tag :: "bool \<Rightarrow> string \<times> string \<Rightarrow> (string \<times> string) list \<Rightarrow> (string \<times> string) list" where
  "put_remote_tag is_local = (\<lambda>(tag, version) tags. if map_of tags tag = None then tags @ [(tag, version)]
     else if is_local then tags else map (\<lambda>(t, v). if t = tag then (t, version) else (t, v)) tags)"

definition new_package :: "string \<Rightarrow> string \<Rightarrow> string \<Rightarrow> int option \<Rightarrow> held_package" where
  "new_package eco key name upstream = \<lparr>hp_eco = eco, hp_norm = key, hp_name = name, hp_local = False, hp_origin = upstream,
     hp_description = None, hp_author = None, hp_homepage = None, hp_license = None, hp_keywords = [], hp_document = [],
     hp_etag = None, hp_cached = None, hp_latest = None, hp_versions = [], hp_tags = []\<rparr>"

definition persist_fields ::
  "(rat \<Rightarrow> string) \<Rightarrow> int \<Rightarrow> validators option \<Rightarrow> offered_package \<Rightarrow> held_package \<Rightarrow> held_package" where
  "persist_fields show_float now validators r p = (let kw = coerce_keywords show_float (op_keywords r) in
     p\<lparr>hp_description := or_old (coerce_text show_float None (op_description r)) (hp_description p),
       hp_author := or_old (coerce_text show_float (Some 512) (op_author r)) (hp_author p),
       hp_homepage := or_old (coerce_http_url show_float (Some 1024) (op_homepage r)) (hp_homepage p),
       hp_license := or_old (coerce_text show_float (Some 255) (op_license r)) (hp_license p),
       hp_keywords := (if kw \<noteq> [] then kw else hp_keywords p),
       hp_document := (if op_raw r \<noteq> [] then op_raw r else hp_document p),
       hp_etag := (case validators of None \<Rightarrow> None | Some v \<Rightarrow> encode v),
       hp_cached := Some now\<rparr>)"

definition persist_tags :: "(rat \<Rightarrow> string) \<Rightarrow> offered_package \<Rightarrow> held_package \<Rightarrow> held_package" where
  "persist_tags show_float r p = (if op_tags r = [] then p
     else p\<lparr>hp_tags := fold (put_remote_tag (hp_local p)) (op_tags r) (hp_tags p),
       hp_latest := or_old (coerce_text show_float (Some 128) (case map_of (op_tags r) ''latest'' of None \<Rightarrow> JNull | Some v \<Rightarrow> JStr v))
         (hp_latest p)\<rparr>)"

datatype persist_error = NameMismatch

definition persist_remote_package ::
  "(rat \<Rightarrow> string) \<Rightarrow> ('v :: linorder) packaging \<Rightarrow> string \<Rightarrow> int \<Rightarrow> offered_package \<Rightarrow> int option \<Rightarrow> string option \<Rightarrow>
   validators option \<Rightarrow> (string \<Rightarrow> held_package option) \<Rightarrow> persist_error + held_package" where
  \<comment> \<open>the last argument looks a package up by its normalized name\<close>
  "persist_remote_package show_float pkging eco now r upstream requested validators held = (let
     display = (if op_name r \<noteq> [] then op_name r else (case requested of None \<Rightarrow> [] | Some n \<Rightarrow> n));
     key = normalize_name_for eco display
     in if requested \<noteq> None \<and> requested \<noteq> Some [] \<and> normalize_name_for eco (the requested) \<noteq> key then Inl NameMismatch
        else (let
          p = (case held key of None \<Rightarrow> new_package eco key display upstream | Some p \<Rightarrow> p);
          p = persist_fields show_float now validators r p;
          p = p\<lparr>hp_versions := fold (put_held_version pkging eco upstream) (op_versions r) (hp_versions p)\<rparr>;
          p = persist_tags show_float r p
          in Inr (if hp_latest p = None \<and> hp_versions p \<noteq> [] then p\<lparr>hp_latest := derive_latest pkging eco (hp_versions p)\<rparr> else p)))"

subsection \<open>Pruning\<close>

record prune_view =
  pv_live :: "int \<Rightarrow> int option" \<comment> \<open>the tiers of the sources that may serve the name\<close>
  pv_tier :: "int option"
  pv_versions :: "string list option"
  pv_files :: "string list option"

definition prune_view_of ::
  "'v packaging \<Rightarrow> string \<Rightarrow> (int \<Rightarrow> int option) \<Rightarrow> offered_package option \<Rightarrow> int option \<Rightarrow> prune_view" where
  "prune_view_of pkging eco live answer answered_tier = (case answer of
       None \<Rightarrow> \<lparr>pv_live = live, pv_tier = answered_tier, pv_versions = None, pv_files = None\<rparr>
     | Some a \<Rightarrow> if op_versions a = [] then \<lparr>pv_live = live, pv_tier = None, pv_versions = None, pv_files = None\<rparr>
       else \<lparr>pv_live = live, pv_tier = answered_tier,
         pv_versions = Some (map (\<lambda>v. normalized_version pkging eco (ov_version v)) (op_versions a)),
         pv_files = Some (concat (map (\<lambda>v. map of_name (ov_files v)) (op_versions a)))\<rparr>)"

definition displaced :: "prune_view \<Rightarrow> int option \<Rightarrow> bool \<Rightarrow> bool" where
  "displaced pv src present = (case src of None \<Rightarrow> False
     | Some s \<Rightarrow> (case pv_live pv s of
         None \<Rightarrow> True
       | Some tier \<Rightarrow> if present \<or> pv_tier pv = None \<or> pv_versions pv = None then False else the (pv_tier pv) < tier))"

definition dead_file :: "prune_view \<Rightarrow> held_file \<Rightarrow> bool" where
  "dead_file pv f = displaced pv (hf_source f) (case pv_files pv of None \<Rightarrow> True | Some names \<Rightarrow> hf_name f \<in> set names)"

definition doomed_version :: "prune_view \<Rightarrow> held_version \<Rightarrow> bool" where
  "doomed_version pv v = (\<not> hv_local v \<and>
     (if hv_files v \<noteq> [] then list_all (dead_file pv) (hv_files v)
      else displaced pv (hv_source v) (case pv_versions pv of None \<Rightarrow> True | Some names \<Rightarrow> hv_norm v \<in> set names)))"

definition doomed_files :: "prune_view \<Rightarrow> held_version \<Rightarrow> held_file list" where
  \<comment> \<open>of a version that stays\<close>
  "doomed_files pv v = (if hv_local v \<or> doomed_version pv v then [] else filter (dead_file pv) (hv_files v))"

definition drop_held_file :: "prune_view \<Rightarrow> held_file \<Rightarrow> held_version \<Rightarrow> held_version" where
  \<comment> \<open>a version whose source may not serve it goes over to the first source its files have left\<close>
  "drop_held_file pv f v = (let v' = v\<lparr>hv_files := filter (\<lambda>x. hf_name x \<noteq> hf_name f) (hv_files v)\<rparr> in
     if (case hv_source v' of None \<Rightarrow> True | Some s \<Rightarrow> pv_live pv s = None)
     then (case find (\<lambda>x. real_source (hf_source x)) (hv_files v') of
         None \<Rightarrow> v' | Some x \<Rightarrow> v'\<lparr>hv_source := hf_source x\<rparr>)
     else v')"

definition prune_version :: "prune_view \<Rightarrow> held_version \<Rightarrow> held_version" where
  "prune_version pv v = fold (drop_held_file pv) (doomed_files pv v) v"

definition retag_pruned :: "('v :: linorder) packaging \<Rightarrow> string \<Rightarrow> held_version list \<Rightarrow> string list \<Rightarrow> string \<times> string \<Rightarrow> (string \<times> string) option" where
  \<comment> \<open>a tag after the versions named \<open>removed\<close> went, \<open>vs\<close> are left\<close>
  "retag_pruned pkging eco vs removed = (\<lambda>(tag, version).
     if version \<notin> set removed then Some (tag, version)
     else if tag = ''latest'' \<and> vs \<noteq> [] then Some (tag, (case text_or (derive_latest pkging eco vs) (Some version) of
       None \<Rightarrow> version | Some n \<Rightarrow> n))
     else None)"

definition removed_sources :: "prune_view \<Rightarrow> held_version list \<Rightarrow> int option set" where
  "removed_sources pv vs = hf_source ` (\<Union>v \<in> set vs. set (doomed_files pv v)) \<union>
     hv_source ` {v \<in> set vs. doomed_version pv v} \<union>
     hf_source ` (\<Union>v \<in> {v \<in> set vs. doomed_version pv v}. set (hv_files v))"

definition prune_unsourced ::
  "('v :: linorder) packaging \<Rightarrow> prune_view \<Rightarrow> held_package \<Rightarrow> decode_error + (bool \<times> held_package)" where
  "prune_unsourced pkging pv p = (let
     vs = hp_versions p;
     doomed = filter (doomed_version pv) vs
     in if doomed = [] \<and> list_all (\<lambda>v. doomed_files pv v = []) vs then Inr (False, p)
        else (case decode (hp_etag p) of
          Inl e \<Rightarrow> Inl e
        | Inr bound \<Rightarrow> (let
            etag = (case bound of None \<Rightarrow> hp_etag p
              | Some b \<Rightarrow> if Some (v_upstream b) \<in> removed_sources pv vs then None else hp_etag p);
            vs' = map (prune_version pv) (filter (\<lambda>v. \<not> doomed_version pv v) vs);
            removed = map hv_version doomed;
            p' = p\<lparr>hp_etag := etag, hp_versions := vs'\<rparr>
            in Inr (True, if doomed = [] then p' else p'\<lparr>
                 hp_tags := List.map_filter (retag_pruned pkging (hp_eco p) vs' removed) (hp_tags p),
                 hp_latest := (case hp_latest p of None \<Rightarrow> None
                   | Some l \<Rightarrow> if l \<in> set removed then derive_latest pkging (hp_eco p) vs' else Some l)\<rparr>))))"

subsection \<open>An upstream is deleted\<close>

definition sole_supplier :: "int \<Rightarrow> held_version \<Rightarrow> bool" where
  "sole_supplier uid v = (\<not> hv_local v \<and> (hv_source v = Some uid \<or> list_ex (\<lambda>f. hf_source f = Some uid) (hv_files v)) \<and>
     \<not> list_ex (\<lambda>f. hf_source f \<noteq> Some uid) (hv_files v))"

definition min_source :: "held_file list \<Rightarrow> int option" where
  \<comment> \<open>\<open>min\<close> of SQL\<close>
  "min_source fs = (case List.map_filter hf_source fs of [] \<Rightarrow> None | s # ss \<Rightarrow> Some (fold min ss s))"

definition unattribute :: "int \<Rightarrow> held_version \<Rightarrow> held_version" where
  "unattribute uid v = (if hv_local v then v
     else (let fs = filter (\<lambda>f. hf_source f \<noteq> Some uid) (hv_files v) in
       v\<lparr>hv_files := fs, hv_source := (if hv_source v = Some uid then min_source fs else hv_source v)\<rparr>))"

definition retire_package :: "int \<Rightarrow> held_package \<Rightarrow> held_package" where
  "retire_package uid p = (let
     vs = map (unattribute uid) (filter (\<lambda>v. \<not> sole_supplier uid v) (hp_versions p));
     names = map hv_version vs;
     affected = list_ex (sole_supplier uid) (hp_versions p);
     p' = p\<lparr>hp_versions := vs,
       hp_etag := (case hp_etag p of None \<Rightarrow> None | Some e \<Rightarrow> if starts_with e (bound_prefix uid) then None else Some e)\<rparr>
     in if affected then p'\<lparr>hp_tags := filter (\<lambda>(t, v). v \<in> set names) (hp_tags p),
          hp_latest := (case hp_latest p of None \<Rightarrow> None | Some l \<Rightarrow> if l \<in> set names then Some l else None)\<rparr>
        else p')"

definition retire_upstream_content :: "string \<Rightarrow> int \<Rightarrow> held_package list \<Rightarrow> nat \<times> held_package list" where
  \<comment> \<open>the ecosystem of the upstream and its id\<close>
  "retire_upstream_content eco uid ps = (if eco = ''docker'' then (0, ps)
     else (sum_list (map (\<lambda>p. length (filter (sole_supplier uid) (hp_versions p))) ps), map (retire_package uid) ps))"

definition mark_ecosystem_stale :: "string \<Rightarrow> int option \<Rightarrow> held_package list \<Rightarrow> held_package list" where
  "mark_ecosystem_stale eco forget ps = (if eco = ''docker'' then ps
     else map (\<lambda>p. if hp_eco p \<noteq> eco then p
       else (let p' = (if hp_local p then p else p\<lparr>hp_cached := None\<rparr>) in
         (case (forget, hp_etag p) of
           (Some uid, Some e) \<Rightarrow> if starts_with e (bound_prefix uid) then p'\<lparr>hp_etag := None\<rparr> else p'
         | _ \<Rightarrow> p'))) ps)"

subsection \<open>When an upstream is asked\<close>

definition expired_at :: "int \<Rightarrow> int \<Rightarrow> int option \<Rightarrow> bool" where
  "expired_at now ttl cached_at = (case cached_at of None \<Rightarrow> True | Some t \<Rightarrow> ttl < now - t)"

definition package_stale :: "int \<Rightarrow> int \<Rightarrow> held_package \<Rightarrow> bool" where
  "package_stale now ttl p = (\<not> hp_local p \<and> expired_at now ttl (hp_cached p))"

record package_db =
  pd_packages :: "held_package list"
  pd_misses :: "(string \<times> string) list" \<comment> \<open>the names remembered as missing\<close>

definition held_row :: "string \<Rightarrow> string \<Rightarrow> package_db \<Rightarrow> held_package option" where
  "held_row eco key db = find (\<lambda>p. hp_eco p = eco \<and> hp_norm p = key) (pd_packages db)"

definition put_package_row :: "held_package \<Rightarrow> package_db \<Rightarrow> package_db" where
  "put_package_row p db = (if held_row (hp_eco p) (hp_norm p) db = None then db\<lparr>pd_packages := pd_packages db @ [p]\<rparr>
     else db\<lparr>pd_packages := map (\<lambda>x. if hp_eco x = hp_eco p \<and> hp_norm x = hp_norm p then p else x) (pd_packages db)\<rparr>)"

text \<open>What the resolver answers (\<open>Resolver.resolve\<close>), the tier that answered included.\<close>

datatype resolution =
    Tier_down
  | Nowhere
  | Unchanged int
  | Resolved offered_package int int "validators option"

record package_lookup =
  lk_package :: "held_package option"
  lk_fresh :: bool
  lk_from_upstream :: bool

record 'v package_env =
  pe_float :: "rat \<Rightarrow> string"
  pe_pep440 :: "'v packaging"
  pe_now :: int
  pe_ttl :: int
  pe_live :: "string \<Rightarrow> string \<Rightarrow> int \<Rightarrow> int option" \<comment> \<open>\<open>Resolver.live_sources\<close>\<close>

definition settle_package ::
  "('v :: linorder) package_env \<Rightarrow> string \<Rightarrow> string \<Rightarrow> package_db \<Rightarrow> decode_error + (held_package option \<times> package_db)" where
  "settle_package env eco key db = (case held_row eco key db of
       None \<Rightarrow> Inr (None, db)
     | Some p \<Rightarrow> sum_bind (prune_unsourced (pe_pep440 env) (prune_view_of (pe_pep440 env) eco (pe_live env eco key) None None) p)
         (\<lambda>(pruned, p'). Inr (if \<not> hp_local p' \<and> hp_versions p' = [] then None else Some p',
           (put_package_row p' db)\<lparr>pd_misses := filter (\<lambda>k. \<not> (pruned \<and> k = (eco, key))) (pd_misses db)\<rparr>)))"

definition take_answer ::
  "('v :: linorder) package_env \<Rightarrow> string \<Rightarrow> string \<Rightarrow> package_db \<Rightarrow> resolution \<Rightarrow> decode_error + (package_lookup \<times> package_db)" where
  \<comment> \<open>what is made of the resolver's answer\<close>
  "take_answer env eco name db answer = (let key = normalize_name_for eco name in (case answer of
       Tier_down \<Rightarrow> sum_bind (settle_package env eco key db)
         (\<lambda>(p, db'). Inr (\<lparr>lk_package = p, lk_fresh = False, lk_from_upstream = False\<rparr>, db'))
     | Nowhere \<Rightarrow> sum_bind (settle_package env eco key db)
         (\<lambda>(p, db'). Inr (\<lparr>lk_package = p, lk_fresh = False, lk_from_upstream = False\<rparr>,
            if p = None then db'\<lparr>pd_misses := (eco, key) # pd_misses db'\<rparr> else db'))
     | Unchanged u \<Rightarrow> sum_bind (settle_package env eco key
           (case held_row eco key db of None \<Rightarrow> db | Some p \<Rightarrow> put_package_row (p\<lparr>hp_cached := Some (pe_now env)\<rparr>) db))
         (\<lambda>(p, db'). Inr (\<lparr>lk_package = p, lk_fresh = True, lk_from_upstream = False\<rparr>, db'))
     | Resolved r u tier validators \<Rightarrow>
         (case persist_remote_package (pe_float env) (pe_pep440 env) eco (pe_now env) r (Some u) (Some name) validators
             (\<lambda>k. held_row eco k db) of
           Inl NameMismatch \<Rightarrow> Inr (\<lparr>lk_package = None, lk_fresh = False, lk_from_upstream = False\<rparr>, db)
         | Inr p \<Rightarrow> sum_bind (prune_unsourced (pe_pep440 env)
               (prune_view_of (pe_pep440 env) eco (pe_live env eco (hp_norm p)) (Some r) (Some tier)) p)
             (\<lambda>(pruned, p'). Inr (\<lparr>lk_package = Some p', lk_fresh = True, lk_from_upstream = True\<rparr>,
                (put_package_row p' db)\<lparr>pd_misses := filter (\<lambda>k. k \<noteq> (eco, key)) (pd_misses db)\<rparr>)))))"

text \<open>
  A request looks at the row, and where that does not settle it queues for the guard of the name, looks
  again, and asks. Other requests run while it waits, so each look has its own state of the database and
  time. The second look serves a row that is not stale, as the first one does, but says nothing of a
  package published here when a refresh is forced.
\<close>

definition first_probe ::
  "'v package_env \<Rightarrow> string \<Rightarrow> string \<Rightarrow> bool \<Rightarrow> bool \<Rightarrow> int \<Rightarrow> package_db \<Rightarrow> package_lookup option" where
  \<comment> \<open>whether an upstream may be asked and must be; \<open>None\<close> queues\<close>
  "first_probe env eco key allow force t db = (let held = held_row eco key db in
     if (case held of None \<Rightarrow> False | Some p \<Rightarrow> hp_local p \<or> \<not> force \<and> \<not> package_stale t (pe_ttl env) p)
       then Some \<lparr>lk_package = held, lk_fresh = True, lk_from_upstream = False\<rparr>
     else if \<not> allow then Some \<lparr>lk_package = held, lk_fresh = (held \<noteq> None), lk_from_upstream = False\<rparr>
     else if held = None \<and> \<not> force \<and> (eco, key) \<in> set (pd_misses db)
       then Some \<lparr>lk_package = None, lk_fresh = False, lk_from_upstream = False\<rparr>
     else None)"

definition guarded_probe ::
  "'v package_env \<Rightarrow> string \<Rightarrow> string \<Rightarrow> bool \<Rightarrow> int \<Rightarrow> package_db \<Rightarrow> decode_error + (package_lookup + validators option)" where
  \<comment> \<open>the row under the guard: the answer, or the validators to ask with\<close>
  "guarded_probe env eco key force t db = (case held_row eco key db of
       None \<Rightarrow> Inr (Inr None)
     | Some p \<Rightarrow> if \<not> force \<and> \<not> package_stale t (pe_ttl env) p
         then Inr (Inl \<lparr>lk_package = Some p, lk_fresh = True, lk_from_upstream = False\<rparr>)
       else if force then Inr (Inr None)
       else sum_bind (decode (hp_etag p)) (\<lambda>v. Inr (Inr v)))"

definition fetch_package ::
  "('v :: linorder) package_env \<Rightarrow> string \<Rightarrow> string \<Rightarrow> bool \<Rightarrow> bool \<Rightarrow> (validators option \<Rightarrow> resolution) \<Rightarrow>
   int \<times> package_db \<Rightarrow> int \<times> package_db \<Rightarrow> package_db \<Rightarrow> decode_error + (package_lookup \<times> bool \<times> package_db)" where
  \<comment> \<open>the resolver for the validators held; the database at the first look, under the guard, and when the upstream
    has answered; beside the answer, whether one was asked\<close>
  "fetch_package env eco name allow force resolver first guarded answered = (let key = normalize_name_for eco name in
     (case first_probe env eco key allow force (fst first) (snd first) of
        Some ans \<Rightarrow> Inr (ans, False, snd first)
      | None \<Rightarrow> sum_bind (guarded_probe env eco key force (fst guarded) (snd guarded)) (\<lambda>probed.
          (case probed of
             Inl ans \<Rightarrow> Inr (ans, False, snd guarded)
           | Inr validators \<Rightarrow> sum_bind (take_answer env eco name answered (resolver validators))
               (\<lambda>(ans, db'). Inr (ans, True, db'))))))"

subsection \<open>Files and search\<close>

definition locate_file_row :: "string \<Rightarrow> string \<Rightarrow> string option \<Rightarrow> string option \<Rightarrow> package_db \<Rightarrow>
   (held_package \<times> held_version \<times> held_file) option" where
  "locate_file_row eco key name version db = (case held_row eco key db of
       None \<Rightarrow> None
     | Some p \<Rightarrow> (case concat (map (\<lambda>v. map (\<lambda>f. (p, v, f)) (filter (\<lambda>f. name = None \<or> name = Some (hf_name f)) (hv_files v)))
           (filter (\<lambda>v. version = None \<or> version = Some (hv_version v)) (hp_versions p))) of
         [] \<Rightarrow> None | x # xs \<Rightarrow> Some x))"

definition escape_like :: "string \<Rightarrow> string" where
  \<comment> \<open>the three replacements one after the other: the backslash first, so that none is escaped twice\<close>
  "escape_like v = py_replace ''_'' [CHR 0x5C, CHR ''_''] (py_replace ''%'' [CHR 0x5C, CHR ''%'']
     (py_replace [CHR 0x5C] [CHR 0x5C, CHR 0x5C] v))"

fun like :: "string \<Rightarrow> string \<Rightarrow> bool" where
  \<comment> \<open>\<open>LIKE\<close> of SQL with the backslash as escape\<close>
  "like [] s = (s = [])"
| "like (p # ps) s = (if p = CHR ''%'' then like ps s \<or> (case s of [] \<Rightarrow> False | c # cs \<Rightarrow> like (p # ps) cs)
     else if p = CHR 0x5C then (case ps of [] \<Rightarrow> False
       | q # qs \<Rightarrow> (case s of [] \<Rightarrow> False | c # cs \<Rightarrow> c = q \<and> like qs cs))
     else if p = CHR ''_'' then (case s of [] \<Rightarrow> False | c # cs \<Rightarrow> like ps cs)
     else (case s of [] \<Rightarrow> False | c # cs \<Rightarrow> c = p \<and> like ps cs))"

definition search_pattern :: "string \<Rightarrow> string" where
  "search_pattern query = ''%'' @ escape_like (py_lower query) @ ''%''"

definition search_hit_row :: "string \<Rightarrow> held_package \<Rightarrow> bool" where
  \<comment> \<open>\<open>ILIKE\<close>, which folds the case of both sides\<close>
  "search_hit_row query p = (like (py_lower (search_pattern query)) (py_lower (hp_norm p)) \<or>
     query \<noteq> [] \<and> (case hp_description p of None \<Rightarrow> False | Some d \<Rightarrow> like (py_lower (search_pattern query)) (py_lower d)))"

end
