(* ===== verification/Package_Store_Spec.thy ===== *)
theory Package_Store_Spec
  imports Package_Store "HOL-Library.Sublist"
begin

section \<open>Packages held from upstreams: what a refresh may change\<close>

text \<open>
  A refresh never touches what was published here, keeps nothing whose source may no longer serve it,
  and leaves no tag on what it removed. Deleting an upstream removes everything it alone supplied. A
  search is for the text as it was typed.
\<close>

subsection \<open>Unique rows\<close>

definition package_key :: "held_package \<Rightarrow> string \<times> string" where
  "package_key p = (hp_eco p, hp_norm p)"

text \<open>One row of a package and version; the version is kept under its normalized name.\<close>

definition row_ok :: "'v packaging \<Rightarrow> held_package \<Rightarrow> bool" where
  "row_ok pk p = (distinct (map hv_norm (hp_versions p)) \<and>
     (\<forall>v \<in> set (hp_versions p). hv_norm v = normalized_version pk (hp_eco p) (hv_version v)))"

definition rows_unique :: "'v packaging \<Rightarrow> package_db \<Rightarrow> bool" where
  "rows_unique pk db = (distinct (map package_key (pd_packages db)) \<and> list_all (row_ok pk) (pd_packages db))"

lemma held_row_Some: "held_row eco key db = Some p \<Longrightarrow> p \<in> set (pd_packages db) \<and> package_key p = (eco, key)"
  by (auto simp: held_row_def find_Some_iff package_key_def)

lemma held_row_None: "held_row eco key db = None \<longleftrightarrow> (eco, key) \<notin> package_key ` set (pd_packages db)"
  by (auto simp: held_row_def find_None_iff package_key_def)

lemma set_to_fields:
  assumes "\<And>v r. g (upd (\<lambda>_. v) r) = g r"
  shows "g (fst (set_to get upd v st)) = g (fst st)"
  using assms by (cases st) (simp add: set_to_def)

lemma apply_version_fields: "hv_norm (apply_version u r b v) = hv_norm v \<and> hv_local (apply_version u r b v) = hv_local v \<and>
    hv_version (apply_version u r b v) = hv_version v"
  by (auto simp: apply_version_def Let_def set_to_fields split: prod.splits yank_mark.splits)

lemma put_held_version_facts:
  assumes "distinct (map hv_norm vs)"
  shows "distinct (map hv_norm (put_held_version pk eco u r vs))"
    "v \<in> set vs \<Longrightarrow> hv_local v \<Longrightarrow> v \<in> set (put_held_version pk eco u r vs)"
proof -
  let ?k = "normalized_version pk eco (ov_version r)"
  have "map hv_norm (put_held_version pk eco u r vs) =
      (if ?k \<in> hv_norm ` set vs then map hv_norm vs else map hv_norm vs @ [?k])"
  proof (cases "find (\<lambda>v. hv_norm v = ?k) vs")
    case None
    then have "?k \<notin> hv_norm ` set vs" by (auto simp: find_None_iff)
    with None show ?thesis by (simp add: put_held_version_def Let_def apply_version_fields new_version_def)
  next
    case (Some w)
    then have "w \<in> set vs" "hv_norm w = ?k" by (auto simp: find_Some_iff)
    then have "?k \<in> hv_norm ` set vs" by (metis image_eqI)
    with Some \<open>hv_norm w = ?k\<close> show ?thesis by (auto simp: put_held_version_def Let_def apply_version_fields)
  qed
  then show "distinct (map hv_norm (put_held_version pk eco u r vs))"
    using assms by (cases "?k \<in> hv_norm ` set vs") auto
  show "v \<in> set vs \<Longrightarrow> hv_local v \<Longrightarrow> v \<in> set (put_held_version pk eco u r vs)"
  proof -
    assume v: "v \<in> set vs" "hv_local v"
    show ?thesis
    proof (cases "find (\<lambda>v. hv_norm v = ?k) vs")
      case None
      with v show ?thesis by (simp add: put_held_version_def Let_def)
    next
      case (Some w)
      then have w: "w \<in> set vs" "hv_norm w = ?k" by (auto simp: find_Some_iff)
      then have "hv_norm v = ?k \<Longrightarrow> v = w" using assms v by (auto simp: distinct_map inj_on_def)
      with Some v show ?thesis by (force simp: put_held_version_def Let_def image_iff)
    qed
  qed
qed

lemma put_held_version_norm:
  assumes "\<forall>v \<in> set vs. hv_norm v = normalized_version pk eco (hv_version v)"
  shows "\<forall>v \<in> set (put_held_version pk eco u r vs). hv_norm v = normalized_version pk eco (hv_version v)"
proof (cases "find (\<lambda>v. hv_norm v = normalized_version pk eco (ov_version r)) vs")
  case None
  with assms show ?thesis by (auto simp: put_held_version_def Let_def apply_version_fields new_version_def)
next
  case (Some w)
  then have "w \<in> set vs" by (auto simp: find_Some_iff)
  with assms Some show ?thesis by (auto simp: put_held_version_def Let_def apply_version_fields)
qed

lemma put_held_versions_facts:
  assumes "distinct (map hv_norm vs)" "\<forall>v \<in> set vs. hv_norm v = normalized_version pk eco (hv_version v)"
  shows "distinct (map hv_norm (fold (put_held_version pk eco u) rs vs)) \<and>
    (\<forall>v \<in> set (fold (put_held_version pk eco u) rs vs). hv_norm v = normalized_version pk eco (hv_version v)) \<and>
    (\<forall>v \<in> set vs. hv_local v \<longrightarrow> v \<in> set (fold (put_held_version pk eco u) rs vs))"
  using assms
proof (induction rs arbitrary: vs)
  case (Cons r rs)
  from Cons.IH [OF put_held_version_facts(1) [OF Cons.prems(1)] put_held_version_norm [OF Cons.prems(2)]]
    put_held_version_facts(2) [OF Cons.prems(1), of _ pk eco u r] show ?case by simp
qed simp

subsection \<open>Pruning\<close>

lemma doomed_not_local: "doomed_version pv v \<Longrightarrow> \<not> hv_local v"
  by (simp add: doomed_version_def)

lemma prune_version_local [simp]: "hv_local v \<Longrightarrow> prune_version pv v = v"
  by (simp add: prune_version_def doomed_files_def)

lemma drop_held_file_fields [simp]:
  "hv_norm (drop_held_file pv f v) = hv_norm v" "hv_local (drop_held_file pv f v) = hv_local v"
  "hv_version (drop_held_file pv f v) = hv_version v"
  "hv_files (drop_held_file pv f v) = filter (\<lambda>x. hf_name x \<noteq> hf_name f) (hv_files v)"
  by (auto simp: drop_held_file_def Let_def split: option.splits)

lemma prune_version_fields [simp]:
  "hv_norm (prune_version pv v) = hv_norm v" "hv_local (prune_version pv v) = hv_local v"
  "hv_version (prune_version pv v) = hv_version v"
proof -
  have "hv_norm (fold (drop_held_file pv) fs v) = hv_norm v" "hv_local (fold (drop_held_file pv) fs v) = hv_local v"
    "hv_version (fold (drop_held_file pv) fs v) = hv_version v" for fs
    by (induction fs arbitrary: v) auto
  then show "hv_norm (prune_version pv v) = hv_norm v" "hv_local (prune_version pv v) = hv_local v"
    "hv_version (prune_version pv v) = hv_version v" by (simp_all add: prune_version_def)
qed


lemma prune_unsourced_cases:
  assumes "prune_unsourced pk pv p = Inr (b, p')"
  shows "hp_eco p' = hp_eco p \<and> hp_norm p' = hp_norm p \<and> hp_local p' = hp_local p \<and>
    hp_versions p' = map (prune_version pv) (filter (\<lambda>v. \<not> doomed_version pv v) (hp_versions p)) \<and>
    (hp_tags p' = hp_tags p \<and> hp_latest p' = hp_latest p \<and> filter (doomed_version pv) (hp_versions p) = [] \<or>
     hp_tags p' = List.map_filter (retag_pruned pk (hp_eco p) (hp_versions p')
       (map hv_version (filter (doomed_version pv) (hp_versions p)))) (hp_tags p) \<and>
     hp_latest p' = (case hp_latest p of None \<Rightarrow> None
       | Some l \<Rightarrow> if l \<in> hv_version ` set (filter (doomed_version pv) (hp_versions p))
           then derive_latest pk (hp_eco p) (hp_versions p') else Some l))"
proof (cases "filter (doomed_version pv) (hp_versions p) = [] \<and> list_all (\<lambda>v. doomed_files pv v = []) (hp_versions p)")
  case True
  then have "prune_version pv v = v" if "v \<in> set (hp_versions p)" for v
    using that by (auto simp: prune_version_def list_all_iff)
  then have "map (prune_version pv) (filter (\<lambda>v. \<not> doomed_version pv v) (hp_versions p)) = hp_versions p"
    using True by (auto simp: filter_empty_conv filter_id_conv intro: map_idI)
  with True assms show ?thesis by (simp add: prune_unsourced_def Let_def)
next
  case False
  then obtain bound where "decode (hp_etag p) = Inr bound"
    using assms by (cases "decode (hp_etag p)") (auto simp: prune_unsourced_def Let_def)
  with False assms show ?thesis by (cases "hp_latest p") (auto simp: prune_unsourced_def Let_def split: if_splits)
qed

lemma prune_keeps_local:
  assumes "prune_unsourced pk pv p = Inr (b, p')" "v \<in> set (hp_versions p)" "hv_local v"
  shows "v \<in> set (hp_versions p')"
proof -
  have "\<not> doomed_version pv v" using assms(3) doomed_not_local by blast
  then have "prune_version pv v \<in> set (hp_versions p')"
    using prune_unsourced_cases [OF assms(1)] assms(2) by auto
  with assms(3) show ?thesis by simp
qed

lemma prune_unique:
  assumes "prune_unsourced pk pv p = Inr (b, p')" "distinct (map hv_norm (hp_versions p))"
  shows "distinct (map hv_norm (hp_versions p'))"
  using prune_unsourced_cases [OF assms(1)] assms(2) by (simp add: comp_def distinct_map_filter)



lemma in_map_filter: "y \<in> set (List.map_filter f xs) \<longleftrightarrow> (\<exists>x \<in> set xs. f x = Some y)"
  by (induction xs) (auto simp: List.map_filter_simps split: option.splits)














lemma prune_view_of_fields [simp]:
  "pv_live (prune_view_of pk eco live answer tier) = live"
  "pv_versions (prune_view_of pk eco live answer tier) = None \<longleftrightarrow> pv_files (prune_view_of pk eco live answer tier) = None"
  by (auto simp: prune_view_of_def split: option.split)




subsection \<open>A refresh\<close>

text \<open>What every step leaves of a row, and of all of them.\<close>

definition tags_stay :: "held_package \<Rightarrow> held_package \<Rightarrow> bool" where
  \<comment> \<open>the tags on versions published here\<close>
  "tags_stay p p' = (\<forall>(t, w) \<in> set (hp_tags p).
     (\<exists>v \<in> set (hp_versions p). hv_local v \<and> hv_version v = w) \<longrightarrow> (t, w) \<in> set (hp_tags p'))"

definition row_kept :: "'v packaging \<Rightarrow> held_package \<Rightarrow> held_package \<Rightarrow> bool" where
  "row_kept pk p p' = (package_key p' = package_key p \<and> hp_local p' = hp_local p \<and>
     (\<forall>v \<in> set (hp_versions p). hv_local v \<longrightarrow> v \<in> set (hp_versions p')) \<and>
     (hp_local p \<longrightarrow> tags_stay p p') \<and> row_ok pk p')"

definition published_kept :: "'v packaging \<Rightarrow> string \<times> string \<Rightarrow> package_db \<Rightarrow> package_db \<Rightarrow> bool" where
  "published_kept pk key db db' = (\<forall>p \<in> set (pd_packages db). \<exists>p' \<in> set (pd_packages db').
     row_kept pk p p' \<and> (package_key p \<noteq> key \<longrightarrow> p' = p))"

lemma row_kept_refl: "row_ok pk p \<Longrightarrow> row_kept pk p p"
  by (auto simp: row_kept_def tags_stay_def)

lemma row_kept_trans: "row_kept pk p q \<Longrightarrow> row_kept pk q r \<Longrightarrow> row_kept pk p r"
  unfolding row_kept_def tags_stay_def by (simp add: split_def) metis

lemma published_kept_refl: "rows_unique pk db \<Longrightarrow> published_kept pk key db db"
  by (auto simp: published_kept_def rows_unique_def list_all_iff intro: row_kept_refl)

lemma published_kept_misses: "published_kept pk key db (db'\<lparr>pd_misses := ms\<rparr>) = published_kept pk key db db'"
  "rows_unique pk (db\<lparr>pd_misses := ms\<rparr>) = rows_unique pk db"
  by (simp_all add: published_kept_def rows_unique_def)

lemma held_row_ok: "rows_unique pk db \<Longrightarrow> held_row eco key db = Some p \<Longrightarrow> row_ok pk p \<and> hp_eco p = eco \<and> hp_norm p = key"
  using held_row_Some [of eco key db p] by (auto simp: rows_unique_def list_all_iff package_key_def)

lemma put_package_row_kept:
  assumes "rows_unique pk db" "row_ok pk p'" "key = package_key p'"
    and "\<And>p. held_row (hp_eco p') (hp_norm p') db = Some p \<Longrightarrow> row_kept pk p p'"
  shows "rows_unique pk (put_package_row p' db) \<and> published_kept pk key db (put_package_row p' db)"
proof (cases "held_row (hp_eco p') (hp_norm p') db")
  case None
  then have "package_key p' \<notin> package_key ` set (pd_packages db)" by (simp add: held_row_None package_key_def)
  with None assms(1,2) show ?thesis
    by (auto simp: put_package_row_def rows_unique_def published_kept_def list_all_iff intro: row_kept_refl)
next
  case (Some p)
  then have p: "p \<in> set (pd_packages db)" "package_key p = package_key p'" "row_kept pk p p'"
    using assms(4) held_row_Some by (auto simp: package_key_def)
  let ?f = "\<lambda>x. if hp_eco x = hp_eco p' \<and> hp_norm x = hp_norm p' then p' else x"
  have db': "pd_packages (put_package_row p' db) = map ?f (pd_packages db)" using Some by (simp add: put_package_row_def)
  have "map package_key (map ?f (pd_packages db)) = map package_key (pd_packages db)" by (auto simp: package_key_def)
  then have "distinct (map package_key (map ?f (pd_packages db)))" using assms(1) by (simp only: rows_unique_def)
  then have u: "rows_unique pk (put_package_row p' db)"
    using assms(1,2) unfolding rows_unique_def db' by (auto simp: list_all_iff)
  have "row_kept pk x (?f x) \<and> (package_key x \<noteq> key \<longrightarrow> ?f x = x)" if x: "x \<in> set (pd_packages db)" for x
  proof (cases "package_key x = package_key p'")
    case True
    with x p(1,2) assms(1) have "x = p" by (auto simp: rows_unique_def distinct_map inj_on_def)
    with p(2,3) assms(3) show ?thesis by (auto simp: package_key_def)
  next
    case False
    with x assms(1) show ?thesis by (auto simp: rows_unique_def list_all_iff package_key_def intro: row_kept_refl)
  qed
  then have "published_kept pk key db (put_package_row p' db)"
    unfolding published_kept_def db' set_map bex_simps(7) by blast
  with u show ?thesis by blast
qed

lemma published_kept_trans:
  "published_kept pk key db1 db2 \<Longrightarrow> published_kept pk key db2 db3 \<Longrightarrow> published_kept pk key db1 db3"
  unfolding published_kept_def by (metis row_kept_trans row_kept_def)

lemma held_row_put: "held_row (hp_eco p) (hp_norm p) (put_package_row p db) = Some p"
proof -
  have "find P xs = None \<Longrightarrow> P p \<Longrightarrow> find P (xs @ [p]) = Some p" for P and xs :: "held_package list"
    by (induction xs) (auto split: if_splits)
  moreover have "find P xs \<noteq> None \<Longrightarrow> P p \<Longrightarrow> find P (map (\<lambda>x. if P x then p else x) xs) = Some p" for P and xs :: "held_package list"
    by (induction xs) (auto split: if_splits)
  ultimately show ?thesis
    by (cases "held_row (hp_eco p) (hp_norm p) db") (auto simp: put_package_row_def held_row_def)
qed

lemma prune_row_ok:
  assumes "prune_unsourced pk pv p = Inr (b, p')" "row_ok pk p"
  shows "row_ok pk p'"
  using prune_unsourced_cases [OF assms(1)] prune_unique [OF assms(1)] assms(2) by (auto simp: row_ok_def)

lemma prune_tags_stay:
  assumes "prune_unsourced pk pv p = Inr (b, p')" "row_ok pk p"
  shows "tags_stay p p'"
proof -
  have "(t, w) \<in> set (hp_tags p')"
    if tw: "(t, w) \<in> set (hp_tags p)" and v: "v \<in> set (hp_versions p)" "hv_local v" "hv_version v = w" for t w v
  proof -
    have "w \<notin> hv_version ` set (filter (doomed_version pv) (hp_versions p))"
    proof
      assume "w \<in> hv_version ` set (filter (doomed_version pv) (hp_versions p))"
      then obtain d where d: "d \<in> set (hp_versions p)" "doomed_version pv d" "hv_version d = w" by auto
      then have "hv_norm d = hv_norm v" using assms(2) v by (simp add: row_ok_def)
      moreover have "inj_on hv_norm (set (hp_versions p))" using assms(2) by (simp add: row_ok_def distinct_map)
      ultimately have "d = v" using d(1) v(1) by (blast dest: inj_onD)
      with d(2) v(2) doomed_not_local show False by blast
    qed
    then have "retag_pruned pk (hp_eco p) (hp_versions p') (map hv_version (filter (doomed_version pv) (hp_versions p))) (t, w) =
        Some (t, w)" by (auto simp: retag_pruned_def)
    with prune_unsourced_cases [OF assms(1)] tw show ?thesis unfolding in_map_filter by (auto simp: in_map_filter)
  qed
  then show ?thesis by (auto simp: tags_stay_def)
qed

lemma prune_row_kept:
  assumes "prune_unsourced pk pv p = Inr (b, p')" "row_ok pk p"
  shows "row_kept pk p p'"
  using prune_unsourced_cases [OF assms(1)] prune_keeps_local [OF assms(1)] prune_row_ok [OF assms] prune_tags_stay [OF assms]
  by (auto simp: row_kept_def package_key_def)

lemma settle_package_kept:
  assumes "settle_package env eco key db = Inr (ans, db')" "rows_unique (pe_pep440 env) db"
  shows "rows_unique (pe_pep440 env) db' \<and> published_kept (pe_pep440 env) (eco, key) db db'"
proof (cases "held_row eco key db")
  case None
  with assms show ?thesis by (auto simp: settle_package_def published_kept_refl)
next
  case (Some p)
  note p = held_row_ok [OF assms(2) Some]
  from assms(1) Some obtain b p' where pr: "prune_unsourced (pe_pep440 env)
      (prune_view_of (pe_pep440 env) eco (pe_live env eco key) None None) p = Inr (b, p')"
    and db': "db' = (put_package_row p' db)\<lparr>pd_misses := filter (\<lambda>k. \<not> (b \<and> k = (eco, key))) (pd_misses db)\<rparr>"
    by (auto simp: settle_package_def sum_bind_def split: sum.splits)
  have k: "row_kept (pe_pep440 env) p p'" using prune_row_kept [OF pr] p by blast
  then have key: "hp_eco p' = eco" "hp_norm p' = key" using p by (simp_all add: row_kept_def package_key_def)
  have "rows_unique (pe_pep440 env) (put_package_row p' db) \<and> published_kept (pe_pep440 env) (eco, key) db (put_package_row p' db)"
    by (rule put_package_row_kept [OF assms(2)]) (use k Some key in \<open>auto simp: row_kept_def package_key_def\<close>)
  then show ?thesis unfolding db' published_kept_misses .
qed

lemma remote_tags_local: "set tags \<subseteq> set (fold (put_remote_tag True) rs tags)"
proof (induction rs arbitrary: tags)
  case (Cons r rs)
  have "set tags \<subseteq> set (put_remote_tag True r tags)" by (cases r) (auto simp: put_remote_tag_def)
  with Cons.IH [of "put_remote_tag True r tags"] show ?case by auto
qed simp

lemma persist_tags_local: "hp_local p \<Longrightarrow> set (hp_tags p) \<subseteq> set (hp_tags (persist_tags fl r p))"
  using remote_tags_local by (simp add: persist_tags_def)

lemma persist_parts_fields [simp]:
  "hp_versions (persist_fields fl now val r p) = hp_versions p" "hp_versions (persist_tags fl r p) = hp_versions p"
  "package_key (persist_fields fl now val r p) = package_key p" "package_key (persist_tags fl r p) = package_key p"
  "hp_local (persist_fields fl now val r p) = hp_local p" "hp_local (persist_tags fl r p) = hp_local p"
  "package_key (p\<lparr>hp_versions := vs\<rparr>) = package_key p" "package_key (p\<lparr>hp_latest := l\<rparr>) = package_key p"
  "hp_tags (persist_fields fl now val r p) = hp_tags p"
  by (simp_all add: persist_fields_def persist_tags_def package_key_def Let_def)

lemma persist_row_kept:
  assumes "persist_remote_package fl pk eco now r u req val held = Inr p'"
    and "\<And>k p. held k = Some p \<Longrightarrow> package_key p = (eco, k) \<and> row_ok pk p"
  shows "\<exists>k. package_key p' = (eco, k) \<and> (req \<noteq> None \<and> req \<noteq> Some [] \<longrightarrow> k = normalize_name_for eco (the req)) \<and>
    row_ok pk p' \<and> (\<forall>p. held k = Some p \<longrightarrow> row_kept pk p p')"
proof -
  define k where "k = normalize_name_for eco (if op_name r \<noteq> [] then op_name r else (case req of None \<Rightarrow> [] | Some n \<Rightarrow> n))"
  define p0 where "p0 = (case held k of None \<Rightarrow> new_package eco k
    (if op_name r \<noteq> [] then op_name r else (case req of None \<Rightarrow> [] | Some n \<Rightarrow> n)) u | Some p \<Rightarrow> p)"
  have ok: "req \<noteq> None \<and> req \<noteq> Some [] \<longrightarrow> k = normalize_name_for eco (the req)"
    using assms(1) by (auto simp: persist_remote_package_def Let_def k_def split: if_splits)
  define p1 where "p1 = persist_fields fl now val r p0"
  define p2 where "p2 = persist_tags fl r (p1\<lparr>hp_versions := fold (put_held_version pk eco u) (op_versions r) (hp_versions p1)\<rparr>)"
  have "persist_remote_package fl pk eco now r u req val held =
      (if req \<noteq> None \<and> req \<noteq> Some [] \<and> normalize_name_for eco (the req) \<noteq> k then Inl NameMismatch
       else Inr (if hp_latest p2 = None \<and> hp_versions p2 \<noteq> [] then p2\<lparr>hp_latest := derive_latest pk eco (hp_versions p2)\<rparr> else p2))"
    by (simp only: persist_remote_package_def Let_def k_def p0_def p1_def p2_def)
  with assms(1) have p': "p' = p2 \<or> (\<exists>l. p' = p2\<lparr>hp_latest := l\<rparr>)" by (auto split: if_splits)
  then have vs: "hp_versions p' = fold (put_held_version pk eco u) (op_versions r) (hp_versions p0)"
    and same: "package_key p' = package_key p0" "hp_local p' = hp_local p0"
    by (auto simp: p2_def p1_def)
  have tags: "set (hp_tags p0) \<subseteq> set (hp_tags p')" if "hp_local p0"
    using p' that persist_tags_local [of "p1\<lparr>hp_versions := fold (put_held_version pk eco u) (op_versions r) (hp_versions p1)\<rparr>" fl r]
    by (auto simp: p2_def p1_def)
  have p0: "package_key p0 = (eco, k)" "row_ok pk p0"
    using assms(2) by (auto simp: p0_def new_package_def package_key_def row_ok_def split: option.splits)
  then have eco: "hp_eco p0 = eco" by (simp add: package_key_def)
  have facts: "row_ok pk p' \<and> (\<forall>v \<in> set (hp_versions p0). hv_local v \<longrightarrow> v \<in> set (hp_versions p'))"
    using put_held_versions_facts [of "hp_versions p0" pk eco u "op_versions r"] p0(2) eco same(1) p0(1)
    by (simp add: row_ok_def vs package_key_def)
  have "\<forall>p. held k = Some p \<longrightarrow> row_kept pk p p'"
    using facts same tags by (auto simp: row_kept_def tags_stay_def p0_def)
  with ok p0 same facts show ?thesis by (auto simp: vs)
qed

lemma take_answer_kept:
  assumes "take_answer env eco name db answer = Inr (ans, db')" "rows_unique (pe_pep440 env) db" "name \<noteq> []"
  shows "rows_unique (pe_pep440 env) db' \<and> published_kept (pe_pep440 env) (eco, normalize_name_for eco name) db db'"
proof (cases answer)
  case Tier_down
  with assms(1) obtain p where "settle_package env eco (normalize_name_for eco name) db = Inr (p, db')"
    by (auto simp: take_answer_def Let_def sum_bind_Inr_iff split: if_splits)
  then show ?thesis using settle_package_kept assms(2) by blast
next
  case Nowhere
  with assms(1) obtain p db1 ms where "settle_package env eco (normalize_name_for eco name) db = Inr (p, db1)"
    and "db' = db1 \<or> db' = db1\<lparr>pd_misses := ms\<rparr>"
    by (auto simp: take_answer_def Let_def sum_bind_Inr_iff split: if_splits)
  then show ?thesis using settle_package_kept [of env eco _ db p db1] assms(2) by (auto simp: published_kept_misses)
next
  case (Unchanged u)
  let ?key = "normalize_name_for eco name"
  show ?thesis
  proof (cases "held_row eco ?key db")
    case None
    with assms(1) Unchanged obtain p where "settle_package env eco ?key db = Inr (p, db')"
      by (auto simp: take_answer_def Let_def sum_bind_Inr_iff)
    then show ?thesis using settle_package_kept assms(2) by blast
  next
    case (Some p)
    let ?p = "p\<lparr>hp_cached := Some (pe_now env)\<rparr>" and ?db = "put_package_row (p\<lparr>hp_cached := Some (pe_now env)\<rparr>) db"
    note p = held_row_ok [OF assms(2) Some]
    have r: "row_kept (pe_pep440 env) p ?p" using p by (auto simp: row_kept_def package_key_def row_ok_def tags_stay_def)
    have k: "rows_unique (pe_pep440 env) ?db \<and> published_kept (pe_pep440 env) (eco, ?key) db ?db"
      by (rule put_package_row_kept [OF assms(2)]) (use p Some r in \<open>auto simp: row_kept_def package_key_def\<close>)
    obtain q where q: "settle_package env eco ?key ?db = Inr (q, db')"
      using assms(1) Unchanged Some by (auto simp: take_answer_def Let_def sum_bind_Inr_iff)
    then have "rows_unique (pe_pep440 env) db' \<and> published_kept (pe_pep440 env) (eco, ?key) ?db db'"
      using k settle_package_kept by blast
    with k show ?thesis using published_kept_trans by blast
  qed
next
  case (Resolved r u tier val)
  let ?key = "normalize_name_for eco name"
  let ?persist = "persist_remote_package (pe_float env) (pe_pep440 env) eco (pe_now env) r (Some u) (Some name) val
      (\<lambda>k. held_row eco k db)"
  show ?thesis
  proof (cases ?persist)
    case (Inl e)
    with assms(1,2) Resolved show ?thesis by (cases e) (auto simp: take_answer_def Let_def published_kept_refl)
  next
    case (Inr p1)
    have "package_key p = (eco, k) \<and> row_ok (pe_pep440 env) p" if "held_row eco k db = Some p" for k p
      using held_row_ok [OF assms(2) that] by (simp add: package_key_def)
    from persist_row_kept [OF Inr this] assms(3)
    have p1: "package_key p1 = (eco, ?key)" "row_ok (pe_pep440 env) p1"
      "\<And>p. held_row eco ?key db = Some p \<Longrightarrow> row_kept (pe_pep440 env) p p1" by auto
    from assms(1) Resolved Inr obtain b p2 where
      pr: "prune_unsourced (pe_pep440 env)
         (prune_view_of (pe_pep440 env) eco (pe_live env eco (hp_norm p1)) (Some r) (Some tier)) p1 = Inr (b, p2)"
      and db': "db' = (put_package_row p2 db)\<lparr>pd_misses := filter (\<lambda>k. k \<noteq> (eco, ?key)) (pd_misses db)\<rparr>"
      by (auto simp: take_answer_def Let_def sum_bind_Inr_iff)
    have p2: "row_kept (pe_pep440 env) p1 p2" using prune_row_kept [OF pr] p1 by blast
    then have key: "hp_eco p2 = eco" "hp_norm p2 = ?key" "row_ok (pe_pep440 env) p2" "package_key p2 = (eco, ?key)"
      using p1 by (simp_all add: row_kept_def package_key_def)
    have "rows_unique (pe_pep440 env) (put_package_row p2 db) \<and>
        published_kept (pe_pep440 env) (eco, ?key) db (put_package_row p2 db)"
      by (rule put_package_row_kept [OF assms(2) key(3) key(4) [symmetric]]) (use p1(3) p2 key row_kept_trans in auto)
    then show ?thesis unfolding db' by (simp add: published_kept_misses)
  qed
qed

lemma fetch_asked:
  assumes "fetch_package env eco name allow force resolver first guarded answered = Inr (ans, True, db')"
  shows "(\<exists>validators. take_answer env eco name answered (resolver validators) = Inr (ans, db')) \<and>
    (\<forall>p. held_row eco (normalize_name_for eco name) (snd first) = Some p \<longrightarrow> \<not> hp_local p) \<and>
    (\<forall>p. held_row eco (normalize_name_for eco name) (snd guarded) = Some p \<and> hp_local p \<longrightarrow> force)"
  using assms by (auto simp: fetch_package_def first_probe_def guarded_probe_def package_stale_def Let_def sum_bind_Inr_iff
      split: if_splits option.splits sum.splits)

text \<open>C9: a request for a name never touches what was published here, whoever else works on the database while it waits for
  its turn and for the answer. Whatever it finds at its first look, under the guard and when the upstream has answered,
  the rows stay unique; a request that asks nobody writes nothing; and one that asks leaves every other package exactly as
  it was, and of its own every version published here, unchanged, whether it was published before or meanwhile, and, in a
  package published here, every tag on such a version. A package that was published here when the request came in is
  served from its row and no upstream is asked, not even when a refresh is forced; one that was published while the
  request queued makes it ask an upstream only when a refresh is forced.\<close>

theorem published_never_replaced:
  assumes "rows_unique (pe_pep440 env) answered" "name \<noteq> []"
    and "fetch_package env eco name allow force resolver (t1, db) (t2, guarded) answered = Inr (ans, asked, db')"
  shows "(if asked then rows_unique (pe_pep440 env) db' \<and>
        published_kept (pe_pep440 env) (eco, normalize_name_for eco name) answered db'
      else db' = db \<or> db' = guarded) \<and>
    (\<forall>p. held_row eco (normalize_name_for eco name) db = Some p \<and> hp_local p \<longrightarrow>
      \<not> asked \<and> db' = db \<and> ans = \<lparr>lk_package = Some p, lk_fresh = True, lk_from_upstream = False\<rparr>) \<and>
    (\<forall>p. held_row eco (normalize_name_for eco name) guarded = Some p \<and> hp_local p \<and> asked \<longrightarrow> force)"
proof (cases asked)
  case True
  with assms(3) have "fetch_package env eco name allow force resolver (t1, db) (t2, guarded) answered = Inr (ans, True, db')" by simp
  note a = fetch_asked [OF this]
  with take_answer_kept [OF _ assms(1,2)] True show ?thesis by auto
next
  case False
  then have "(db' = db \<or> db' = guarded) \<and> (\<forall>p. held_row eco (normalize_name_for eco name) db = Some p \<and> hp_local p \<longrightarrow>
      db' = db \<and> ans = \<lparr>lk_package = Some p, lk_fresh = True, lk_from_upstream = False\<rparr>)"
    using assms(3) by (auto simp: fetch_package_def first_probe_def guarded_probe_def Let_def sum_bind_Inr_iff
        split: if_splits option.splits sum.splits)
  with False show ?thesis by auto
qed

subsection \<open>A deleted upstream\<close>

definition from_upstream :: "int \<Rightarrow> held_version \<Rightarrow> bool" where
  \<comment> \<open>a version not published here that the upstream is said to have given, or a file of it\<close>
  "from_upstream uid v = (\<not> hv_local v \<and> (hv_source v = Some uid \<or> (\<exists>f \<in> set (hv_files v). hf_source f = Some uid)))"

lemma min_source_in: "min_source fs = Some s \<Longrightarrow> \<exists>f \<in> set fs. hf_source f = Some s"
proof -
  have "fold min ss s0 \<in> set (s0 # ss)" for s0 :: int and ss
    by (induction ss arbitrary: s0) (auto simp: min_def)
  moreover assume "min_source fs = Some s"
  then obtain s0 ss where "List.map_filter hf_source fs = s0 # ss" "s = fold min ss s0"
    by (auto simp: min_source_def split: list.splits)
  ultimately have "s \<in> set (List.map_filter hf_source fs)" by simp
  then show ?thesis by (auto simp: in_map_filter)
qed

lemma unattribute_fields [simp]:
  "hv_local (unattribute uid v) = hv_local v" "hv_version (unattribute uid v) = hv_version v"
  "hv_local v \<Longrightarrow> unattribute uid v = v"
  by (simp_all add: unattribute_def Let_def)

lemma unattributed: "\<not> from_upstream uid (unattribute uid v)"
proof (cases "hv_local v")
  case False
  let ?fs = "filter (\<lambda>f. hf_source f \<noteq> Some uid) (hv_files v)"
  have "min_source ?fs \<noteq> Some uid" using min_source_in [of ?fs uid] by auto
  with False show ?thesis by (auto simp: from_upstream_def unattribute_def Let_def)
qed (simp add: from_upstream_def)

lemma unattribute_other: "\<not> from_upstream uid v \<Longrightarrow> unattribute uid v = v"
  by (cases v) (auto simp: from_upstream_def unattribute_def Let_def filter_id_conv)

lemma sole_supplier_from: "sole_supplier uid v \<longleftrightarrow>
    from_upstream uid v \<and> (\<forall>f \<in> set (hv_files v). hf_source f = Some uid)"
  by (auto simp: sole_supplier_def from_upstream_def list_ex_iff)

text \<open>C35: deleting an upstream takes away everything of it that was cached. Afterwards no version that was not
  published here names it as its source, nor does a file of such a version, and no stored validators are bound to it.
  The versions it alone supplied are gone, exactly these, the others keep exactly their other files, and versions published here or not
  from it stay as they were. Where a version went, every tag and the latest version name a version still held.\<close>

theorem deleted_upstream_serves_nothing:
  assumes "eco \<noteq> ''docker''" "p \<in> set ps"
  shows "retire_package uid p \<in> set (snd (retire_upstream_content eco uid ps)) \<and>
    list_all (\<lambda>v. \<not> from_upstream uid v) (hp_versions (retire_package uid p)) \<and>
    (\<forall>e. hp_etag (retire_package uid p) = Some e \<longrightarrow> \<not> starts_with e (bound_prefix uid)) \<and>
    filter (\<lambda>v. hv_local v) (hp_versions (retire_package uid p)) = filter (\<lambda>v. hv_local v) (hp_versions p) \<and>
    map hv_version (hp_versions (retire_package uid p)) = map hv_version
      (filter (\<lambda>v. \<not> (from_upstream uid v \<and> (\<forall>f \<in> set (hv_files v). hf_source f = Some uid))) (hp_versions p)) \<and>
    (\<forall>v \<in> set (hp_versions p). \<not> from_upstream uid v \<longrightarrow> v \<in> set (hp_versions (retire_package uid p))) \<and>
    (\<forall>v \<in> set (hp_versions p). \<forall>f \<in> set (hv_files v). hf_source f \<noteq> Some uid \<longrightarrow>
       (\<exists>w \<in> set (hp_versions (retire_package uid p)). hv_version w = hv_version v \<and> f \<in> set (hv_files w))) \<and>
    (length (hp_versions (retire_package uid p)) < length (hp_versions p) \<longrightarrow>
       snd ` set (hp_tags (retire_package uid p)) \<subseteq> hv_version ` set (hp_versions (retire_package uid p)) \<and>
       (\<forall>l. hp_latest (retire_package uid p) = Some l \<longrightarrow> l \<in> hv_version ` set (hp_versions (retire_package uid p))))"
proof -
  let ?p = "retire_package uid p"
  let ?left = "filter (\<lambda>v. \<not> sole_supplier uid v) (hp_versions p)"
  have vs: "hp_versions ?p = map (unattribute uid) ?left" by (simp add: retire_package_def Let_def)
  have local_only: "filter (\<lambda>v. hv_local v) (map (unattribute uid) (filter (\<lambda>v. \<not> sole_supplier uid v) xs)) = filter (\<lambda>v. hv_local v) xs"
    for xs by (induction xs) (auto simp: sole_supplier_def)
  have kept: "v \<in> set (hp_versions ?p)" if "v \<in> set (hp_versions p)" "\<not> from_upstream uid v" for v
    using that unattribute_other [of uid v] by (force simp: vs sole_supplier_from image_iff)
  have files: "\<exists>w \<in> set (hp_versions ?p). hv_version w = hv_version v \<and> f \<in> set (hv_files w)"
    if "v \<in> set (hp_versions p)" "f \<in> set (hv_files v)" "hf_source f \<noteq> Some uid" for v f
  proof -
    have "unattribute uid v \<in> set (hp_versions ?p)" using that by (auto simp: vs sole_supplier_from)
    moreover have "f \<in> set (hv_files (unattribute uid v))" using that by (simp add: unattribute_def Let_def)
    ultimately show ?thesis by (metis unattribute_fields(2))
  qed
  have "snd ` set (hp_tags ?p) \<subseteq> hv_version ` set (hp_versions ?p) \<and>
      (\<forall>l. hp_latest ?p = Some l \<longrightarrow> l \<in> hv_version ` set (hp_versions ?p))"
    if "length (hp_versions ?p) < length (hp_versions p)"
  proof -
    have "list_ex (sole_supplier uid) (hp_versions p)"
      using that by (auto simp: vs list_ex_iff) (metis filter_True less_irrefl)
    then show ?thesis unfolding vs
      by (cases "hp_latest p") (auto simp: retire_package_def Let_def image_image split: if_splits)
  qed
  moreover have "\<forall>e. hp_etag ?p = Some e \<longrightarrow> \<not> starts_with e (bound_prefix uid)"
    by (auto simp: retire_package_def Let_def split: option.splits if_splits)
  moreover have "map hv_version (hp_versions ?p) = map hv_version
      (filter (\<lambda>v. \<not> (from_upstream uid v \<and> (\<forall>f \<in> set (hv_files v). hf_source f = Some uid))) (hp_versions p))"
    by (simp add: vs comp_def sole_supplier_from)
  moreover have "list_all (\<lambda>v. \<not> from_upstream uid v) (hp_versions ?p)" by (simp add: vs list_all_iff unattributed)
  moreover have "?p \<in> set (snd (retire_upstream_content eco uid ps))" using assms by (simp add: retire_upstream_content_def)
  ultimately show ?thesis using kept files local_only [of "hp_versions p"] unfolding vs by blast
qed

subsection \<open>A concrete registry\<close>

definition sample_packages_env :: "nat package_env" where
  "sample_packages_env = \<lparr>pe_float = (\<lambda>r. []),
     pe_pep440 = \<lparr>version_of = (\<lambda>s. Some (length s)), version_str = (\<lambda>v. []), canonicalize_version = (\<lambda>s. Some s),
       canonicalize_name = (\<lambda>s. s), parse_wheel_filename = (\<lambda>s. None), parse_sdist_filename = (\<lambda>s. None)\<rparr>,
     pe_now = 1000, pe_ttl = 60, pe_live = (\<lambda>eco name s. if s = 2 then Some 1 else None)\<rparr>"

definition sample_held_version :: "string \<Rightarrow> bool \<Rightarrow> int option \<Rightarrow> held_version" where
  "sample_held_version version is_local src = \<lparr>hv_version = version, hv_norm = version, hv_local = is_local, hv_source = src,
     hv_requires = None, hv_deprecated = None, hv_yanked = False, hv_reason = None, hv_published = None, hv_meta = [],
     hv_files = [(new_file (version @ ''.tgz''))\<lparr>hf_source := src\<rparr>]\<rparr>"

definition sample_held :: held_package where
  \<comment> \<open>a package two upstreams gave, one of which may no longer serve it\<close>
  "sample_held = (new_package ''npm'' ''lib'' ''lib'' (Some 1))\<lparr>hp_versions :=
     [sample_held_version ''1.0.0'' True None, sample_held_version ''1.1.0'' False (Some 2),
      sample_held_version ''2.0.0'' False (Some 1)],
     hp_tags := [(''latest'', ''2.0.0''), (''next'', ''2.0.0'')], hp_latest := Some ''2.0.0''\<rparr>"

definition sample_ours :: held_package where
  "sample_ours = (new_package ''npm'' ''ours'' ''ours'' None)\<lparr>hp_local := True,
     hp_versions := [sample_held_version ''0.1.0'' True None]\<rparr>"

definition sample_packages :: package_db where
  "sample_packages = \<lparr>pd_packages = [sample_ours, sample_held], pd_misses = []\<rparr>"

definition sample_answer :: offered_package where
  \<comment> \<open>an upstream that offers the published version again, and a later one\<close>
  "sample_answer = (let ver = (\<lambda>version. \<lparr>ov_version = version, ov_meta = [], ov_files = [], ov_deprecated = Some ''evil'',
       ov_yanked = Yank_flag True, ov_requires = None, ov_published = None\<rparr>)
     in \<lparr>op_name = ''lib'', op_versions = [ver ''1.0.0'', ver ''3.0.0''], op_tags = [(''latest'', ''3.0.0'')],
       op_description = JStr ''a library'', op_author = JNull, op_homepage = JNull, op_license = JNull, op_keywords = JNull,
       op_raw = []\<rparr>)"

definition sample_published :: package_db where
  \<comment> \<open>the same once the package was published here, its first version tagged\<close>
  "sample_published = sample_packages\<lparr>pd_packages := [sample_ours,
     sample_held\<lparr>hp_local := True, hp_tags := [(''latest'', ''1.0.0'')], hp_latest := Some ''1.0.0''\<rparr>]\<rparr>"

text \<open>
  The name is published while a forced refresh queues. The upstream is asked, and what it offers comes
  beside the published version and as the latest one; the published version and its tag stay.
\<close>

lemma published_never_replaced_witness:
  "case fetch_package sample_packages_env ''npm'' ''lib'' True True (\<lambda>v. Resolved sample_answer 2 1 None)
       (900, sample_packages) (950, sample_published) sample_published of
     Inl e \<Rightarrow> False
   | Inr (ans, asked, db') \<Rightarrow> asked \<and> rows_unique (pe_pep440 sample_packages_env) db' \<and>
       map (\<lambda>p. map hv_version (hp_versions p)) (pd_packages db') = [[''0.1.0''], [''1.0.0'', ''1.1.0'', ''3.0.0'']] \<and>
       map hp_latest (pd_packages db') = [None, Some ''3.0.0''] \<and>
       (\<exists>p' \<in> set (pd_packages db'). sample_held_version ''1.0.0'' True None \<in> set (hp_versions p') \<and>
         (''latest'', ''1.0.0'') \<in> set (hp_tags p'))"
proof -
  let ?env = sample_packages_env
  let ?f = "fetch_package ?env ''npm'' ''lib'' True True (\<lambda>v. Resolved sample_answer 2 1 None)
       (900, sample_packages) (950, sample_published) sample_published"
  have ok: "rows_unique (pe_pep440 ?env) sample_published" by code_simp
  have "case ?f of Inl e \<Rightarrow> False | Inr (ans, asked, db') \<Rightarrow> asked \<and>
      map (\<lambda>p. map hv_version (hp_versions p)) (pd_packages db') = [[''0.1.0''], [''1.0.0'', ''1.1.0'', ''3.0.0'']] \<and>
      map hp_latest (pd_packages db') = [None, Some ''3.0.0'']"
    by code_simp
  then obtain ans db' where f: "?f = Inr (ans, True, db')"
    and names: "map (\<lambda>p. map hv_version (hp_versions p)) (pd_packages db') = [[''0.1.0''], [''1.0.0'', ''1.1.0'', ''3.0.0'']]"
      "map hp_latest (pd_packages db') = [None, Some ''3.0.0'']"
    by (cases ?f) auto
  define p where "p = sample_held\<lparr>hp_local := True, hp_tags := [(''latest'', ''1.0.0'')], hp_latest := Some ''1.0.0''\<rparr>"
  have p: "p \<in> set (pd_packages sample_published)" by (simp add: p_def sample_published_def)
  have row: "hp_local p" "hp_tags p = [(''latest'', ''1.0.0'')]" "sample_held_version ''1.0.0'' True None \<in> set (hp_versions p)"
    "hv_local (sample_held_version ''1.0.0'' True None)" "hv_version (sample_held_version ''1.0.0'' True None) = ''1.0.0''"
    by (simp_all add: p_def sample_held_def sample_held_version_def)
  from published_never_replaced [OF ok _ f] have k: "rows_unique (pe_pep440 ?env) db'"
    "published_kept (pe_pep440 ?env) (''npm'', normalize_name_for ''npm'' ''lib'') sample_published db'" by simp_all
  from k(2) p obtain p' where "p' \<in> set (pd_packages db')" "row_kept (pe_pep440 ?env) p p'"
    unfolding published_kept_def by blast
  moreover from this row have "sample_held_version ''1.0.0'' True None \<in> set (hp_versions p')" "(''latest'', ''1.0.0'') \<in> set (hp_tags p')"
    by (auto simp: row_kept_def tags_stay_def)
  ultimately show ?thesis using f k names by auto
qed


lemma deleted_upstream_serves_nothing_witness:
  "list_all (\<lambda>v. \<not> from_upstream 1 v) (hp_versions (retire_package 1 sample_held)) \<and>
   map hv_version (hp_versions (retire_package 1 sample_held)) = [''1.0.0'', ''1.1.0''] \<and>
   list_ex (from_upstream 1) (hp_versions sample_held) \<and> list_ex (from_upstream 2) (hp_versions (retire_package 1 sample_held))"
proof -
  have "sample_held \<in> set [sample_held]" "list_ex (from_upstream 1) (hp_versions sample_held)"
    "list_ex (from_upstream 2) (hp_versions (retire_package 1 sample_held))"
    "map hv_version (filter (\<lambda>v. \<not> (from_upstream 1 v \<and> (\<forall>f \<in> set (hv_files v). hf_source f = Some 1))) (hp_versions sample_held)) =
      [''1.0.0'', ''1.1.0'']" by (simp, code_simp+)
  with deleted_upstream_serves_nothing [of "''npm''" sample_held "[sample_held]" 1] show ?thesis by simp
qed

subsection \<open>Searching\<close>

definition like_special :: "char \<Rightarrow> bool" where
  "like_special c = (c \<in> {CHR 0x5C, CHR ''%'', CHR ''_''})"

lemma py_replace_char: "py_replace [c] new s = concat (map (\<lambda>x. if x = c then new else [x]) s)"
  by (induction s) (simp_all add: starts_with_def)

lemma escape_like_chars: "escape_like s = concat (map (\<lambda>c. if like_special c then [CHR 0x5C, c] else [c]) s)"
  by (induction s) (simp_all add: escape_like_def py_replace_char like_special_def del: py_replace_step)

declare like.simps [simp del]

lemma like_Nil [simp]: "like [] s \<longleftrightarrow> s = []"
  by (simp add: like.simps)

lemma like_char [simp]: "\<not> like_special c \<Longrightarrow> like (c # ps) s \<longleftrightarrow> (\<exists>cs. s = c # cs \<and> like ps cs)"
  by (cases s) (auto simp: like.simps like_special_def)

lemma like_backslash [simp]: "like (CHR 0x5C # c # ps) s \<longleftrightarrow> (\<exists>cs. s = c # cs \<and> like ps cs)"
  by (cases s) (auto simp: like.simps)

lemma like_percent: "like (CHR ''%'' # ps) s \<longleftrightarrow> (\<exists>pre suf. s = pre @ suf \<and> like ps suf)"
proof (induction s)
  case Nil
  show ?case by (subst like.simps) simp
next
  case (Cons c cs)
  have "like (CHR ''%'' # ps) (c # cs) \<longleftrightarrow> like ps (c # cs) \<or> like (CHR ''%'' # ps) cs" by (subst like.simps) simp
  with Cons show ?case by (auto simp: Cons_eq_append_conv)
qed

lemma like_escaped: "like (escape_like q @ ''%'') s \<longleftrightarrow> prefix q s"
proof (induction q arbitrary: s)
  case Nil
  then show ?case by (simp add: escape_like_chars like_percent)
next
  case (Cons c q)
  have "escape_like (c # q) = (if like_special c then [CHR 0x5C, c] else [c]) @ escape_like q"
    by (simp add: escape_like_chars)
  then show ?case
    using Cons.IH by (cases s; cases "like_special c") auto
qed

lemma like_search_pattern: "like (search_pattern q) s \<longleftrightarrow> sublist (py_lower q) s"
  by (auto simp: search_pattern_def like_percent like_escaped sublist_def prefix_def)

lemma char_eq: "c = d \<longleftrightarrow> (of_char c :: nat) = of_char d"
  by simp

lemma lower_special: "like_special (lower_char c) \<longleftrightarrow> like_special c"
proof -
  have "(of_char (lower_char c) :: nat) = n \<longleftrightarrow> (of_char c :: nat) = n" if "n < 65 \<or> 90 < n \<and> n < 97" for n
    using that by (auto simp: lower_char_def Let_def)
  from this [of 92] this [of 37] this [of 95] show ?thesis
    unfolding like_special_def insert_iff empty_iff char_eq by simp
qed

lemma lower_like_signs [simp]: "lower_char CHR 0x5C = CHR 0x5C" "lower_char CHR ''%'' = CHR ''%''"
  by (simp_all add: lower_char_def)

lemma lower_search_pattern: "py_lower (search_pattern q) = search_pattern q"
  by (induction q) (auto simp: search_pattern_def escape_like_chars py_lower_def lower_special)

text \<open>C36: a search finds a package exactly when the text as it was typed occurs, whatever the case of the letters, in
  its normalized name or, for a text that is not empty, in its description: the wildcards of SQL and the escape
  character in it stand for themselves.\<close>

theorem search_finds_the_typed_text:
  "search_hit_row query p \<longleftrightarrow> sublist (py_lower query) (py_lower (hp_norm p)) \<or>
     query \<noteq> [] \<and> (\<exists>d. hp_description p = Some d \<and> sublist (py_lower query) (py_lower d))"
  by (auto simp: search_hit_row_def lower_search_pattern like_search_pattern split: option.splits)

end
