(* ===== verification/Spec2Isabelle.thy ===== *)
theory Spec2Isabelle
  imports Semver_Spec Naming_Spec Package_Policy_Spec Docker_Naming_Spec Resolver_Spec
    Netguard_Spec Upstream_Http_Spec Docker_Policy_Read Docker_Scanning_Spec Docker_Auth_Spec Docker_Push_Spec Npm_Publish_Spec
    Herd_Guard_Spec Cache_Spec Login_Spec Identity_Spec Osv_Rescore_Spec Vulns_Spec
    Device_Login_Spec Artifact_Run_Spec Artifact_Stream_Spec Package_Store_Spec
begin

text \<open>
  \<open>minireg\<close> is a package registry: it hosts private npm, PyPI, cargo and container packages and proxies upstream
  registries through a cache, under block rules, vulnerability policies, namespaces and ownership. This development
  models the core of its backend (\<open>src/backend/app\<close>; paths below are relative to it) as a shallow embedding: rows are
  records, tables are lists or records of lists, a handler or transaction is a function from the tables to an outcome
  and the tables it leaves, errors are values of a sum, and what overlaps in time is a step relation.
\<close>

section \<open>The program and its parts\<close>

text \<open>
  A request is identified (\<open>core/deps.py\<close>) and limited (\<open>core/cache.py\<close>). A request for a package looks at the
  rows held (\<open>services/packages.py\<close>) and, when they are stale, has one task at a time (\<open>herd_guard\<close>) ask the upstreams
  in tiers (\<open>services/resolver.py\<close>) through a client that only talks to public addresses (\<open>upstreams/base.py\<close>,
  \<open>upstreams/netguard.py\<close>). What comes back is written into the rows, never over what was published here. A request for
  a file goes through the policy (\<open>services/policy.py\<close>, over the verdicts of \<open>services/osv.py\<close>) and then through the
  artifact store (\<open>services/artifacts.py\<close>, \<open>services/storage.py\<close>), which verifies and keeps what it downloads.
  Publishing (\<open>api/npm.py\<close>, \<open>services/npm_publish.py\<close>) is bound to ownership and to names no upstream serves
  (\<open>services/ownership.py\<close>). Images take the same way through their own tables (\<open>docker/\<close>).

  Foundations.
  \<^item> \<open>Py_Prelude\<close>, \<open>Py_Regex\<close>, \<open>Py_Glob\<close>, \<open>Py_Json\<close>, \<open>Py_Url\<close>: the strings, numerals, regular expressions, shell
    patterns, JSON values and URLs of Python the code uses. A string is a list of characters of Latin-1.

  Names and versions.
  \<^item> \<open>Semver\<close>, \<open>Semver_Facts\<close>, \<open>Semver_Order\<close>, \<open>Semver_Ranges\<close>, \<open>Semver_Spec\<close>: \<open>core/semver.py\<close>, its grammar,
    precedence and ranges; the sort key gives the order of semver 2.0.0.
  \<^item> \<open>Naming\<close>, \<open>Naming_Facts\<close>, \<open>Naming_Spec\<close>: \<open>core/naming.py\<close>. \<open>Docker_Naming\<close>, \<open>Docker_Naming_Spec\<close>:
    \<open>docker/naming.py\<close>.

  Asking upstreams.
  \<^item> \<open>Resolver\<close>, \<open>Revalidation\<close>, \<open>Resolver_Spec\<close>: tiers, quarantine, merging, validators. No later tier answers for
    a name an earlier one may have.
  \<^item> \<open>Netguard\<close>, \<open>Upstream_Http\<close> and their \<open>_Spec\<close>: address classes on words of 32 and 128 bits, pins, redirects
    and credentials. Every request goes to a public address, and a credential to the host it is for.
  \<^item> \<open>Cache\<close>, \<open>Rate_Limit\<close>, \<open>Herd_Guard\<close>, \<open>Cache_Spec\<close>, \<open>Herd_Guard_Spec\<close>: the circuit breaker, the counters, and
    the tasks that enter \<open>herd_guard\<close>, interleaved and cancelled at every await. Where nobody is cancelled while it
    connects or releases, one guard of a key is held at a time and no lock is left behind; a task cancelled there leaves
    its lock locked for good (\<open>cancelled_release_leaks\<close>).
  \<^item> \<open>Package_Store\<close>, \<open>Package_Store_Spec\<close>: the rows of held packages, refreshing, pruning, deleting an upstream,
    searching. A refresh looks at the row before it queues, under the guard, and when the upstream has answered, each
    time at what the others have made of the database.

  Keeping files.
  \<^item> \<open>Artifact_Verify\<close>, \<open>Artifact_Store\<close>, \<open>Artifact_Fill\<close>, \<open>Artifact_Stream\<close> with \<open>Artifact_Verify_Spec\<close>,
    \<open>Artifact_Spec\<close>, \<open>Artifact_Evict_Spec\<close>, \<open>Artifact_Run_Spec\<close>, \<open>Artifact_Stream_Spec\<close>: digests and what a download
    must match, tables and disk in step through every operation (reference counts as a book kept up to an adjustment),
    eviction, and a download read while it is written.

  Publishing.
  \<^item> \<open>Ownership\<close>, \<open>Npm_Publish\<close>, \<open>Npm_Registry\<close> with \<open>Npm_Registry_Spec\<close>, \<open>Npm_Publish_Spec\<close>: every handler of
    \<open>api/npm.py\<close> that changes a package, and what holds through any sequence of them.

  Policy and advisories.
  \<^item> \<open>Package_Policy\<close>, \<open>Package_Policy_Spec\<close>: rules and the CVE policy.
  \<^item> \<open>Cvss\<close>, \<open>Osv\<close>, \<open>Vulns\<close> with \<open>Cvss_Spec\<close>, \<open>Osv_Spec\<close>, \<open>Osv_Verdict_Spec\<close>, \<open>Osv_Rescore_Spec\<close>, \<open>Vulns_Spec\<close>:
    scores, the scanner, the verdict columns the policy reads and that they follow the advisories, presentation.

  Images.
  \<^item> \<open>Docker_Tables\<close>, \<open>Docker_Registry\<close>, \<open>Docker_Manifest\<close>, \<open>Docker_Push\<close>, \<open>Docker_Push_Spec\<close>: repositories, the
    blob store, manifests, uploads; a reachable registry is consistent, and a push touches its own repository and, of
    what others hold, the reason an image they share is blocked for and the columns the shared manifest rows have.
  \<^item> \<open>Docker_Policy\<close>, \<open>Docker_Policy_Read\<close>, \<open>Docker_Policy_Spec\<close>, \<open>Docker_Scanning\<close>, \<open>Docker_Scanning_Spec\<close>: the gates
    on a pull against a table of cases, the scan queue and its reports.
  \<^item> \<open>Docker_Auth\<close>, \<open>Docker_Auth_Spec\<close>: scopes, claims and the check before every request.

  Who is asking.
  \<^item> \<open>Security\<close>, \<open>Identity\<close>, \<open>Identity_Spec\<close>, \<open>Login_Spec\<close>: tokens, headers, sessions, the client's address, guards,
    throttling of passwords.
  \<^item> \<open>Device_Login\<close>, \<open>Device_Login_Spec\<close>: the login of the command line (\<open>api/cli.py\<close>), refined from a machine of
    phases; polls and approvals look at their row and write it in two steps, which interleave.
\<close>

section \<open>How it is built\<close>

text \<open>
  A theory named after its component holds the definitions, in the order of the code; the theories ending in \<open>_Spec\<close>,
  \<open>_Facts\<close>, \<open>_Order\<close>, \<open>_Ranges\<close> and \<open>_Read\<close> hold what is proved. The interfaces shared by several routines are locales,
  interpreted on the code's own: \<open>version_sort\<close> on the npm and the PyPI sort, \<open>redirect_walk\<close> on the two redirect loops,
  \<open>hit_counter\<close> on the process-local rate limiter. Step relations have an inductive set of reachable states and
  invariants by rule induction: \<open>registry_reachable\<close>, \<open>npm_reachable\<close>, \<open>queue_reachable\<close>, \<open>reachable\<close> (the fetcher),
  \<open>herd_run\<close>, \<open>store_run\<close>, \<open>stream_run\<close>, \<open>sharing_run\<close> and \<open>cli_run\<close>.

  No definition takes fuel. Loops without a structural recursion have a measure: the regular-expression matcher on the
  rest of the text, the redirect loop on the redirects that are left (the code's own limit, \<open>_MAX_REDIRECTS\<close>),
  eviction and the collection of blobs on the rows that are left, the batches of advisory queries on what is left to ask.
  The bounds in statements are constants of the code: 255 characters of validators, 300 seconds of a pin, the limits of
  the login throttle, the intervals of the circuit breaker.

  Parameters stand for what is not in the repository: the PEP 440 parser (record \<open>packaging\<close>), hash functions, JWT
  signatures, the answers of the network, of DNS, of the cache server and of OSV, the parsers of ISO and HTTP dates,
  random draws and the clock. A property that needs something of them has it as a named hypothesis, and a witness with
  concrete functions.
\<close>

section \<open>Assumptions and what is not modelled\<close>

text \<open>
  A transaction of the database is one step, except in \<open>Device_Login\<close>: the interleavings modelled are those of
  \<open>herd_guard\<close>, of a download with its readers, of a fill with its peer replica, of a refresh with whatever happens while
  it waits, of polls and approvals of logins, and of requests one after the other. Where the code commits in the
  middle of an operation the parts are separate functions, and a lemma shows what can come between
  (\<open>eviction_race\<close> in \<open>Artifact_Run_Spec\<close>). The answer of an upstream is written in one step. Retiring an
  upstream deletes rows of files without lowering the counts of their blobs, and is not among the operations of
  \<open>artifact_store_consistent\<close>. Every string is of Latin-1; a float is the rational it denotes where it is computed with.

  Not modelled:
  \<^item> Pulling images (\<open>docker/store.py\<close> beyond its verified files, \<open>docker/upstream.py\<close>, \<open>docker/housekeeping.py\<close>):
    asynchronous I/O around streams and tokens of third parties.
  \<^item> Uploads to PyPI and cargo (\<open>services/pypi_publish.py\<close>, \<open>api/pypi.py\<close>, \<open>api/cargo.py\<close>): archive and metadata
    readers of libraries decide most of them.
  \<^item> Rendering and decoding of formats (\<open>services/*_render.py\<close>, \<open>upstreams/*_provider.py\<close>): no state.
  \<^item> The web interface's handlers that list, count and export (\<open>api/docker_api.py\<close>, \<open>api/search.py\<close>, \<open>api/auth.py\<close>,
    \<open>api/admin/\<close> beyond purging and deleting an account), the audit trail, OIDC, configuration, migrations, start-up.
  \<^item> The command line client and the scanner process, separate programs that talk to this one, and the frontend.
\<close>

end
